(* ===== verification/Xd_Prelude.thy ===== *)
theory Xd_Prelude
  imports Main "HOL-Library.Word" "HOL-Library.Char_ord"
begin

text \<open>
  Shared vocabulary of the development: C characters and strings, the small part of the C
  library the sources lean on (\<open>strlen\<close>, \<open>strchr\<close>, \<open>strrchr\<close>, \<open>isspace\<close>, \<open>isxdigit\<close>,
  \<open>strtol\<close>, the conversion of a value to \<open>int\<close>), and the generic lemmas the component
  theories share.

  A C string is the list of its bytes before the terminating NUL; \<open>NUL\<close> is the
  terminator a read one past the end yields.  Byte buffers that may hold stale memory are
  lists of \<open>char option\<close>, where \<open>None\<close> is a byte nothing has written yet.
\<close>

named_theorems xd_defs \<open>definitions that component proofs unfold\<close>
named_theorems xd_safe \<open>operations that stay inside their allocation\<close>

section \<open>Characters\<close>

abbreviation NUL :: char where "NUL \<equiv> CHR 0x00"
abbreviation BSLASH :: char where "BSLASH \<equiv> CHR 0x5C"
abbreviation DQUOTE :: char where "DQUOTE \<equiv> CHR 0x22"
abbreviation SLASH :: char where "SLASH \<equiv> CHR 0x2F"
abbreviation NEWLINE :: char where "NEWLINE \<equiv> CHR 0x0A"

definition ord :: "char \<Rightarrow> nat" where
  "ord c = of_char c"

definition isspace :: "char \<Rightarrow> bool" where
  "isspace c \<longleftrightarrow> c \<in> {CHR 0x20, CHR 0x09, CHR 0x0A, CHR 0x0B, CHR 0x0C, CHR 0x0D}"

definition isdigit :: "char \<Rightarrow> bool" where
  "isdigit c \<longleftrightarrow> 48 \<le> ord c \<and> ord c \<le> 57"

definition isxdigit :: "char \<Rightarrow> bool" where
  "isxdigit c \<longleftrightarrow> isdigit c \<or> (65 \<le> ord c \<and> ord c \<le> 70) \<or> (97 \<le> ord c \<and> ord c \<le> 102)"

definition isoctal :: "char \<Rightarrow> bool" where
  "isoctal c \<longleftrightarrow> 48 \<le> ord c \<and> ord c \<le> 55"

definition hexval :: "char \<Rightarrow> nat" where
  "hexval c = (if ord c \<le> 57 then ord c - 48 else if ord c \<le> 70 then ord c - 55 else ord c - 87)"

definition tolower :: "char \<Rightarrow> char" where
  "tolower c = (if 65 \<le> ord c \<and> ord c \<le> 90 then char_of (ord c + 32) else c)"

lemma ord_less_256 [simp]: "ord c < 256"
  by (simp add: ord_def)

lemma char_of_ord [simp]: "char_of (ord c) = c"
  by (simp add: ord_def)

lemma ord_char_of: "n < 256 \<Longrightarrow> ord (char_of n) = n"
  by (simp add: ord_def)

lemma ord_inject [simp]: "ord c = ord d \<longleftrightarrow> c = d"
  by (metis char_of_ord)

lemma isspace_NUL [simp]: "\<not> isspace NUL"
  by (simp add: isspace_def)

lemma isspace_newline [simp]: "isspace NEWLINE"
  by (simp add: isspace_def)

section \<open>C strings\<close>

definition is_cstr :: "string \<Rightarrow> bool" where
  "is_cstr s \<longleftrightarrow> NUL \<notin> set s"

text \<open>What C sees of a byte sequence that may hold a NUL: the bytes before the first one.\<close>

definition c_str :: "string \<Rightarrow> string" where
  "c_str s = takeWhile (\<lambda>c. c \<noteq> NUL) s"

lemma is_cstr_c_str [simp]: "is_cstr (c_str s)"
  by (auto simp: is_cstr_def c_str_def dest: set_takeWhileD)

lemma c_str_id [simp]: "is_cstr s \<Longrightarrow> c_str s = s"
  by (auto simp: is_cstr_def c_str_def takeWhile_eq_all_conv)

text \<open>\<open>s[i]\<close> for \<open>i \<le> strlen(s)\<close>: the terminator is readable.\<close>

definition cget :: "string \<Rightarrow> nat \<Rightarrow> char" where
  "cget s i = (if i < length s then s ! i else NUL)"

lemma cget_0 [simp]: "cget (c # s) 0 = c" "cget [] i = NUL"
  by (simp_all add: cget_def)

lemma cget_Suc [simp]: "cget (c # s) (Suc i) = cget s i"
  by (simp add: cget_def)

lemma cget_1 [simp]: "cget (c # s) 1 = cget s 0"
  using cget_Suc [of c s 0] by simp

lemma cget_in_set: "cget s i \<noteq> NUL \<Longrightarrow> cget s i \<in> set s"
  by (auto simp: cget_def split: if_splits)

lemma cget_NUL_iff: "is_cstr s \<Longrightarrow> cget s i = NUL \<longleftrightarrow> length s \<le> i"
  unfolding is_cstr_def cget_def by (metis not_le nth_mem)

text \<open>\<open>strchr\<close> and \<open>strrchr\<close> return the offset of the first and last occurrence.\<close>

fun strchr :: "string \<Rightarrow> char \<Rightarrow> nat option" where
  "strchr [] c = None"
| "strchr (x # xs) c = (if x = c then Some 0 else map_option Suc (strchr xs c))"

fun strrchr :: "string \<Rightarrow> char \<Rightarrow> nat option" where
  "strrchr [] c = None"
| "strrchr (x # xs) c =
     (case strrchr xs c of Some i \<Rightarrow> Some (Suc i) | None \<Rightarrow> if x = c then Some 0 else None)"

lemma strchr_None: "strchr s c = None \<longleftrightarrow> c \<notin> set s"
  by (induction s) auto

lemma strchr_Some:
  "strchr s c = Some i \<longleftrightarrow> i < length s \<and> s ! i = c \<and> c \<notin> set (take i s)"
proof (induction s arbitrary: i)
  case (Cons x xs)
  show ?case
  proof (cases i)
    case 0
    then show ?thesis by auto
  next
    case (Suc j)
    with Cons.IH [of j] show ?thesis by auto
  qed
qed simp

lemma strchr_append:
  "strchr (s @ t) c = (case strchr s c of Some i \<Rightarrow> Some i | None \<Rightarrow> map_option ((+) (length s)) (strchr t c))"
  by (cases "strchr t c"; induction s) (auto split: option.splits)

lemma strrchr_None: "strrchr s c = None \<longleftrightarrow> c \<notin> set s"
  by (induction s) (auto split: option.splits)

lemma strrchr_Some:
  "strrchr s c = Some i \<longleftrightarrow> i < length s \<and> s ! i = c \<and> c \<notin> set (drop (Suc i) s)"
proof (induction s arbitrary: i)
  case (Cons x xs)
  show ?case
  proof (cases i)
    case 0
    have "strrchr xs c = None \<longleftrightarrow> c \<notin> set xs" by (rule strrchr_None)
    with 0 show ?thesis by (cases "strrchr xs c") auto
  next
    case (Suc j)
    have "c \<in> set xs" if "j < length xs" "xs ! j = c"
      using that by auto
    with Suc Cons.IH [of j] show ?thesis
      by (auto simp: strrchr_None split: option.splits)
  qed
qed simp

lemma strrchr_last: "strrchr s c = Some e \<Longrightarrow> i < length s \<Longrightarrow> s ! i = c \<Longrightarrow> i \<le> e"
proof (rule ccontr)
  assume a: "strrchr s c = Some e" "i < length s" "s ! i = c" "\<not> i \<le> e"
  then have "drop (Suc e) s ! (i - Suc e) = c" "i - Suc e < length (drop (Suc e) s)" by auto
  then have "c \<in> set (drop (Suc e) s)" by (metis nth_mem)
  with a(1) show False by (simp add: strrchr_Some)
qed

definition prefixb :: "string \<Rightarrow> string \<Rightarrow> bool" where
  "prefixb p s \<longleftrightarrow> take (length p) s = p"

lemma prefixb_append [simp]: "prefixb p (p @ s)"
  by (simp add: prefixb_def)

lemma prefixb_iff: "prefixb p s \<longleftrightarrow> (\<exists>r. s = p @ r)"
  unfolding prefixb_def by (metis append_take_drop_id append_eq_conv_conj)

text \<open>\<open>strstr\<close>: the offset of the first occurrence.\<close>

fun strstr :: "string \<Rightarrow> string \<Rightarrow> nat option" where
  "strstr [] n = (if n = [] then Some 0 else None)"
| "strstr (c # cs) n = (if prefixb n (c # cs) then Some 0 else map_option Suc (strstr cs n))"

lemma strstr_None: "strstr h n = None \<longleftrightarrow> (\<nexists>u v. h = u @ n @ v)"
proof (induction h)
  case (Cons c h)
  have "(\<exists>u v. c # h = u @ n @ v) \<longleftrightarrow> prefixb n (c # h) \<or> (\<exists>u v. h = u @ n @ v)"
    unfolding prefixb_iff by (metis append_Cons append_Nil list.inject neq_Nil_conv)
  with Cons.IH show ?case by simp
qed simp

lemma strstr_Some:
  "strstr h n = Some i \<Longrightarrow> prefixb n (drop i h) \<and> i \<le> length h \<and> (\<forall>j < i. \<not> prefixb n (drop j h))"
proof (induction h arbitrary: i)
  case (Cons c h)
  show ?case
  proof (cases "prefixb n (c # h)")
    case False
    with Cons.prems obtain k where "i = Suc k" "strstr h n = Some k" by auto
    with Cons.IH [of k] False show ?thesis by (auto simp: less_Suc_eq_0_disj)
  qed (use Cons.prems in auto)
qed (auto simp: prefixb_def split: if_splits)

lemma strstr_first:
  assumes "prefixb n (drop i h)" "i \<le> length h" "\<And>j. j < i \<Longrightarrow> \<not> prefixb n (drop j h)"
  shows "strstr h n = Some i"
  using assms
proof (induction h arbitrary: i)
  case (Cons c h)
  show ?case
  proof (cases i)
    case (Suc k)
    with Cons.prems(3) [of 0] have "\<not> prefixb n (c # h)" by simp
    moreover have "strstr h n = Some k"
      using Cons.IH [of k] Cons.prems Suc by (metis Suc_le_mono drop_Suc_Cons length_Cons not_less_eq)
    ultimately show ?thesis using Suc by simp
  qed (use Cons.prems in auto)
qed (auto simp: prefixb_def)

text \<open>\<open>strncmp(a, b, n) == 0\<close> on C strings: equal up to \<open>n\<close> bytes or to the common end.\<close>

definition strneq :: "string \<Rightarrow> string \<Rightarrow> nat \<Rightarrow> bool" where
  "strneq a b n \<longleftrightarrow> take n a = take n b"

definition slice :: "nat \<Rightarrow> nat \<Rightarrow> 'a list \<Rightarrow> 'a list" where
  "slice i j xs = take (j - i) (drop i xs)"

lemma slice_all [simp]: "slice 0 (length xs) xs = xs"
  by (simp add: slice_def)

lemma slice_append: "i \<le> j \<Longrightarrow> j \<le> k \<Longrightarrow> k \<le> length xs \<Longrightarrow> slice i j xs @ slice j k xs = slice i k xs"
proof -
  assume a: "i \<le> j" "j \<le> k" "k \<le> length xs"
  have "slice i k xs = take ((j - i) + (k - j)) (drop i xs)"
    using a by (simp add: slice_def)
  also have "\<dots> = take (j - i) (drop i xs) @ take (k - j) (drop (j - i) (drop i xs))"
    by (rule take_add)
  also have "drop (j - i) (drop i xs) = drop j xs"
    using a by simp
  finally show ?thesis by (simp add: slice_def)
qed

section \<open>Numbers\<close>

text \<open>The value of a 64-bit or wider number stored in a C \<open>int\<close>.\<close>

definition to_int32 :: "int \<Rightarrow> int" where
  "to_int32 n = (n + 2 ^ 31) mod 2 ^ 32 - 2 ^ 31"

lemma to_int32_bounds: "- (2 ^ 31) \<le> to_int32 n \<and> to_int32 n < 2 ^ 31"
proof -
  have "0 \<le> (n + 2 ^ 31) mod 2 ^ 32" "(n + 2 ^ 31) mod 2 ^ 32 < (2 ^ 32 :: int)"
    by (simp_all only: pos_mod_sign pos_mod_bound zero_less_power zero_less_numeral)
  then show ?thesis by (simp add: to_int32_def)
qed

lemma to_int32_id [simp]: "- (2 ^ 31) \<le> n \<Longrightarrow> n < 2 ^ 31 \<Longrightarrow> to_int32 n = n"
  by (simp add: to_int32_def)

text \<open>
  \<open>strtol(s, &end, 10)\<close>: skip white space, an optional sign, the longest run of digits.  With no
  digits the value is 0 and \<open>end\<close> is the start of the string.  The value saturates at the
  bounds of a 64-bit \<open>long\<close>.
\<close>

fun digits_val :: "nat \<Rightarrow> string \<Rightarrow> nat" where
  "digits_val acc [] = acc"
| "digits_val acc (c # cs) = digits_val (10 * acc + (ord c - 48)) cs"

definition sat64 :: "int \<Rightarrow> int" where
  "sat64 n = max (- (2 ^ 63)) (min (2 ^ 63 - 1) n)"

definition strtol10 :: "string \<Rightarrow> int \<times> string" where
  "strtol10 s =
     (let t = dropWhile isspace s;
          neg = (cget t 0 = CHR ''-'');
          u = (if cget t 0 = CHR ''-'' \<or> cget t 0 = CHR ''+'' then drop 1 t else t);
          ds = takeWhile isdigit u
      in if ds = [] then (0, s)
         else (sat64 (if neg then - int (digits_val 0 ds) else int (digits_val 0 ds)),
               dropWhile isdigit u))"

definition atoi :: "string \<Rightarrow> int" where
  "atoi s = to_int32 (fst (strtol10 s))"

text \<open>Decimal text of a natural number, as \<open>%d\<close>, \<open>%u\<close> and \<open>%lu\<close> print it.\<close>

fun dec :: "nat \<Rightarrow> string" where
  "dec n = (if n < 10 then [char_of (48 + n)] else dec (n div 10) @ [char_of (48 + n mod 10)])"

declare dec.simps [simp del]

definition dec_int :: "int \<Rightarrow> string" where
  "dec_int i = (if i < 0 then CHR ''-'' # dec (nat (- i)) else dec (nat i))"

lemma dec_nonempty [simp]: "dec n \<noteq> []"
  by (subst dec.simps) simp

lemma digits_val_append:
  "digits_val a (xs @ [c]) = 10 * digits_val a xs + (ord c - 48)"
  by (induction xs arbitrary: a) auto

lemma digit_char: "(k :: nat) < 10 \<Longrightarrow> isdigit (char_of (48 + k))"
  by (simp add: isdigit_def ord_char_of)

lemma dec_digits: "c \<in> set (dec n) \<Longrightarrow> isdigit c"
proof (induction n rule: dec.induct)
  case (1 n)
  then show ?case
    by (subst (asm) (2) dec.simps) (auto split: if_splits intro: digit_char)
qed

lemma digits_val_dec: "digits_val 0 (dec n) = n"
proof (induction n rule: dec.induct)
  case (1 n)
  show ?case
  proof (cases "n < 10")
    case True
    then show ?thesis by (subst dec.simps) (simp add: ord_char_of)
  next
    case False
    with 1 show ?thesis
      by (subst dec.simps) (simp add: digits_val_append ord_char_of)
  qed
qed

lemma dec_inject [simp]: "dec m = dec n \<longleftrightarrow> m = n"
  by (metis digits_val_dec)

lemma dec_length_le: "n < 10 ^ Suc k \<Longrightarrow> length (dec n) \<le> Suc k"
proof (induction k arbitrary: n)
  case 0
  then show ?case by (subst dec.simps) simp
next
  case (Suc k)
  show ?case
  proof (cases "n < 10")
    case True
    then show ?thesis by (subst dec.simps) simp
  next
    case False
    from Suc.prems have "n div 10 < 10 ^ Suc k"
      by (simp add: less_mult_imp_div_less mult.commute)
    with Suc.IH have "length (dec (n div 10)) \<le> Suc k" by blast
    with False show ?thesis by (subst dec.simps) simp
  qed
qed

lemma strtol10_dec: "n < 2 ^ 31 \<Longrightarrow> strtol10 (dec n) = (int n, [])"
proof -
  assume n: "n < 2 ^ 31"
  have all: "\<forall>c \<in> set (dec n). isdigit c" using dec_digits by blast
  obtain c cs where d: "dec n = c # cs" by (metis dec_nonempty neq_Nil_conv)
  with all have "isdigit c" by simp
  then have ns: "\<not> isspace c" and "c \<noteq> CHR ''-''" and "c \<noteq> CHR ''+''"
    by (auto simp: isdigit_def isspace_def ord_def)
  then have "dropWhile isspace (dec n) = dec n" "cget (dec n) 0 \<noteq> CHR ''-''" "cget (dec n) 0 \<noteq> CHR ''+''"
    using d by simp_all
  moreover have "takeWhile isdigit (dec n) = dec n" "dropWhile isdigit (dec n) = []"
    using all by (simp_all only: takeWhile_eq_all_conv dropWhile_eq_Nil_conv)
  ultimately show ?thesis
    using n by (simp add: strtol10_def Let_def digits_val_dec sat64_def del: takeWhile_eq_all_conv)
qed

section \<open>Lists and options\<close>

lemma map_Some_the: "\<forall>x \<in> set xs. x \<noteq> None \<Longrightarrow> map Some (map the xs) = xs"
  by (induction xs) auto

lemma nth_append_mid [simp]: "(xs @ y # ys) ! length xs = y"
  by simp

lemma list_update_mid [simp]: "(xs @ y # ys)[length xs := z] = xs @ z # ys"
  by (simp add: list_update_append)

lemma nth_mid_split:
  assumes "i < length xs" shows "xs = take i xs @ xs ! i # drop (Suc i) xs"
  using assms by (rule id_take_nth_drop)

section \<open>What holds of a result, if there is one\<close>

definition post :: "('a \<Rightarrow> bool) \<Rightarrow> 'a option \<Rightarrow> bool" where
  "post Q res \<longleftrightarrow> (\<forall>x. res = Some x \<longrightarrow> Q x)"

named_theorems post_rules \<open>the constructs fallible code is made of\<close>

lemma post_constructs [post_rules]:
  "post Q None"
  "Q x \<Longrightarrow> post Q (Some x)"
  "(\<And>y. m = Some y \<Longrightarrow> post Q (f y)) \<Longrightarrow> post Q (Option.bind m f)"
  "(\<And>y. m = Some y \<Longrightarrow> Q (g y)) \<Longrightarrow> post Q (map_option g m)"
  "(c \<Longrightarrow> post Q p) \<Longrightarrow> (\<not> c \<Longrightarrow> post Q q) \<Longrightarrow> post Q (if c then p else q)"
  "(o1 = None \<Longrightarrow> post Q p) \<Longrightarrow> (\<And>y. o1 = Some y \<Longrightarrow> post Q (f1 y)) \<Longrightarrow> post Q (case o1 of None \<Rightarrow> p | Some y \<Rightarrow> f1 y)"
  "(\<And>y z. pr = (y, z) \<Longrightarrow> post Q (h y z)) \<Longrightarrow> post Q (case pr of (y, z) \<Rightarrow> h y z)"
  "(\<And>y. v = y \<Longrightarrow> post Q (k y)) \<Longrightarrow> post Q (let y = v in k y)"
  by (auto simp: post_def Option.bind_eq_Some_conv Let_def split: option.splits prod.splits)

lemma post_bind: "post P m \<Longrightarrow> (\<And>y. P y \<Longrightarrow> post Q (f y)) \<Longrightarrow> post Q (Option.bind m f)"
  by (auto simp: post_def Option.bind_eq_Some_conv)

lemma postD: "post Q m \<Longrightarrow> m = Some x \<Longrightarrow> Q x"
  by (simp add: post_def)

section \<open>Loops over lists that may fail\<close>

fun loop_over :: "('a \<Rightarrow> 's \<Rightarrow> 's option) \<Rightarrow> 'a list \<Rightarrow> 's \<Rightarrow> 's option" where
  "loop_over f [] s = Some s"
| "loop_over f (x # xs) s = Option.bind (f x s) (loop_over f xs)"

lemma loop_over_mono [partial_function_mono]:
  assumes "\<And>x s. mono_option (\<lambda>f. B f x s)"
  shows "mono_option (\<lambda>f. loop_over (B f) xs s)"
proof (induction xs arbitrary: s)
  case Nil
  show ?case by (simp add: monotone_def option.leq_refl)
next
  case (Cons x xs)
  show ?case unfolding loop_over.simps by (intro bind_mono assms Cons.IH)
qed

text \<open>An invariant of the loop, and with it that the loop gets to its end.\<close>

lemma loop_over_post:
  assumes "P s" "\<And>x t. x \<in> set xs \<Longrightarrow> P t \<Longrightarrow> post P (f x t)"
  shows "post P (loop_over f xs s)"
  using assms
proof (induction xs arbitrary: s)
  case (Cons x xs)
  show ?case unfolding loop_over.simps
    by (rule post_bind [of P]) (use Cons in auto)
qed (simp add: post_def)

lemma loop_over_ends:
  assumes "P s" "\<And>x t. x \<in> set xs \<Longrightarrow> P t \<Longrightarrow> \<exists>u. f x t = Some u \<and> P u"
  shows "\<exists>u. loop_over f xs s = Some u \<and> P u"
  using assms
proof (induction xs arbitrary: s)
  case (Cons x xs)
  then obtain u where "f x s = Some u" "P u" by (meson list.set_intros(1))
  with Cons show ?case by simp
qed simp

lemma loop_over_append: "loop_over f (xs @ ys) s = Option.bind (loop_over f xs s) (loop_over f ys)"
  by (induction xs arbitrary: s) (auto split: Option.bind_splits)

end
