(* ===== verification/Xd_Str.thy ===== *)
theory Xd_Str
  imports Xd_Prelude
begin

text \<open>
  The growable string of \<open>src/lib/str.c\<close> and \<open>src/lib/str.h\<close>.  A buffer is the list of its \<open>a\<close> bytes;
  \<open>None\<close> in it is memory that \<open>realloc\<close> handed out and nobody has written.  Every write checks
  its bounds: an operation returns \<open>None\<close> where the C code would write outside the allocation.
  The lemmas show that this never happens from a well-formed string, and that the text of the
  string is what was appended; the locale \<open>string_builder\<close> packages this for the clients.
\<close>

section \<open>Buffers\<close>

definition mem_write :: "'a list \<Rightarrow> nat \<Rightarrow> 'a list \<Rightarrow> 'a list option" where
  "mem_write m off bs =
     (if off + length bs \<le> length m then Some (take off m @ bs @ drop (off + length bs) m) else None)"

definition mem_realloc :: "'a option list \<Rightarrow> nat \<Rightarrow> 'a option list" where
  "mem_realloc m n = take n m @ replicate (n - length m) None"

lemma mem_realloc_length [simp]: "length (mem_realloc m n) = n"
  by (simp add: mem_realloc_def)

lemma mem_realloc_take: "k \<le> length m \<Longrightarrow> k \<le> n \<Longrightarrow> take k (mem_realloc m n) = take k m"
  by (simp add: mem_realloc_def min_def)

lemma mem_write_length: "mem_write m off bs = Some m' \<Longrightarrow> length m' = length m"
  by (auto simp: mem_write_def split: if_splits)

section \<open>The structure and its operations\<close>

definition XDEBUG_STR_PREALLOC :: nat where
  "XDEBUG_STR_PREALLOC = 1024"

record xdebug_str =
  xs_l :: nat
  xs_a :: nat
  xs_d :: "char option list option"
  xs_rc :: "64 word"
  xs_static :: bool

definition xdebug_str_initializer :: xdebug_str where
  "xdebug_str_initializer = \<lparr>xs_l = 0, xs_a = 0, xs_d = None, xs_rc = 0, xs_static = True\<rparr>"

definition str_mem :: "xdebug_str \<Rightarrow> char option list" where
  "str_mem xs = (case xs_d xs of None \<Rightarrow> [] | Some m \<Rightarrow> m)"

definition realloc_if_needed :: "xdebug_str \<Rightarrow> nat \<Rightarrow> xdebug_str option" where
  "realloc_if_needed xs size_to_fit =
     (let n = xs_a xs + size_to_fit + XDEBUG_STR_PREALLOC;
          xs1 = (if xs_a xs = 0 \<or> xs_l xs = 0 \<or> xs_l xs + size_to_fit > xs_a xs - 1
                 then xs\<lparr>xs_d := Some (mem_realloc (str_mem xs) n), xs_a := n\<rparr> else xs)
      in if xs_l xs1 = 0
         then map_option (\<lambda>m. xs1\<lparr>xs_d := Some m\<rparr>) (mem_write (str_mem xs1) 0 [Some NUL])
         else Some xs1)"

definition xdebug_str_addl :: "xdebug_str \<Rightarrow> string \<Rightarrow> xdebug_str option" where
  "xdebug_str_addl xs str =
     (case realloc_if_needed xs (length str) of
        None \<Rightarrow> None
      | Some xs1 \<Rightarrow>
         (case mem_write (str_mem xs1) (xs_l xs1) (map Some str) of
            None \<Rightarrow> None
          | Some m \<Rightarrow>
             (case mem_write m (xs_l xs1 + length str) [Some NUL] of
                None \<Rightarrow> None
              | Some m' \<Rightarrow> Some (xs1\<lparr>xs_d := Some m', xs_l := xs_l xs1 + length str\<rparr>))))"

definition xdebug_str_add :: "xdebug_str \<Rightarrow> string \<Rightarrow> xdebug_str option" where
  "xdebug_str_add xs str = xdebug_str_addl xs (c_str str)"

definition xdebug_str_addc :: "xdebug_str \<Rightarrow> char \<Rightarrow> xdebug_str option" where
  "xdebug_str_addc xs letter =
     (case realloc_if_needed xs 1 of
        None \<Rightarrow> None
      | Some xs1 \<Rightarrow>
         (case mem_write (str_mem xs1) (xs_l xs1) [Some letter] of
            None \<Rightarrow> None
          | Some m \<Rightarrow>
             (case mem_write m (xs_l xs1 + 1) [Some NUL] of
                None \<Rightarrow> None
              | Some m' \<Rightarrow> Some (xs1\<lparr>xs_d := Some m', xs_l := xs_l xs1 + 1\<rparr>))))"

definition str_text :: "xdebug_str \<Rightarrow> string" where
  "str_text xs = map the (take (xs_l xs) (str_mem xs))"

definition xdebug_str_add_str :: "xdebug_str \<Rightarrow> xdebug_str \<Rightarrow> xdebug_str option" where
  "xdebug_str_add_str xs str = xdebug_str_addl xs (str_text str)"

text \<open>
  \<open>xdebug_str_add_uint64\<close> fills a 21-byte buffer from its end; \<open>pos\<close> counts down, and a step below
  the start of the buffer would be \<open>None\<close>.
\<close>

function uint64_digits :: "nat \<Rightarrow> nat \<Rightarrow> string \<Rightarrow> string option" where
  "uint64_digits num pos acc =
     (let digit = num mod 10; num' = num div 10;
          ch = (if digit < 10 then char_of (48 + digit) else char_of (97 + digit - 10))
      in if pos = 0 then None
         else if num' \<noteq> 0 then uint64_digits num' (pos - 1) (ch # acc) else Some (ch # acc))"
  by pat_completeness auto
termination
  by (relation "measure (\<lambda>(n, pos, acc). pos)") auto

declare uint64_digits.simps [simp del]

definition xdebug_str_add_uint64 :: "xdebug_str \<Rightarrow> 64 word \<Rightarrow> xdebug_str option" where
  "xdebug_str_add_uint64 xs num =
     (case uint64_digits (unat num) 20 [] of None \<Rightarrow> None | Some ds \<Rightarrow> xdebug_str_addl xs ds)"

text \<open>
  \<open>vsnprintf(buf, size, fmt, args)\<close> writes at most \<open>size - 1\<close> bytes of the formatted text \<open>out\<close> and a
  NUL, and returns the length of \<open>out\<close>.
\<close>

definition vsnprintf :: "char option list \<Rightarrow> nat \<Rightarrow> nat \<Rightarrow> string \<Rightarrow> char option list option" where
  "vsnprintf m off sz out =
     (if sz = 0 then Some m else mem_write m off (map Some (take (sz - 1) out) @ [Some NUL]))"

definition xdebug_str_add_va_fmt :: "xdebug_str \<Rightarrow> string \<Rightarrow> xdebug_str option" where
  "xdebug_str_add_va_fmt xs out =
     (case realloc_if_needed xs 1 of
        None \<Rightarrow> None
      | Some xs1 \<Rightarrow>
         (let sz = xs_a xs1 - xs_l xs1; n = length out in
          case vsnprintf (str_mem xs1) (xs_l xs1) sz out of
            None \<Rightarrow> None
          | Some m \<Rightarrow>
             (let xs2 = xs1\<lparr>xs_d := Some m\<rparr> in
              if n < sz then Some (xs2\<lparr>xs_l := xs_l xs2 + n\<rparr>)
              else
                (case realloc_if_needed xs2 (n + 1) of
                   None \<Rightarrow> None
                 | Some xs3 \<Rightarrow>
                    (let sz' = xs_a xs3 - xs_l xs3 in
                     case vsnprintf (str_mem xs3) (xs_l xs3) sz' out of
                       None \<Rightarrow> None
                     | Some m' \<Rightarrow>
                        if n < sz' then Some (xs3\<lparr>xs_d := Some m', xs_l := xs_l xs3 + n\<rparr>)
                        else None)))))"

definition xdebug_str_chop :: "xdebug_str \<Rightarrow> nat \<Rightarrow> xdebug_str option" where
  "xdebug_str_chop xs c =
     (if c > xs_l xs then Some xs
      else map_option (\<lambda>m. xs\<lparr>xs_l := xs_l xs - c, xs_d := Some m\<rparr>)
             (mem_write (str_mem xs) (xs_l xs - c) [Some NUL]))"

definition xdebug_str_new :: xdebug_str where
  "xdebug_str_new = \<lparr>xs_l = 0, xs_a = 0, xs_d = None, xs_rc = 1, xs_static = False\<rparr>"

definition xdebug_str_create :: "string \<Rightarrow> xdebug_str" where
  "xdebug_str_create c =
     xdebug_str_new\<lparr>xs_l := length c, xs_a := length c + 1, xs_d := Some (map Some c @ [Some NUL])\<rparr>"

definition xdebug_str_create_from_char :: "string \<Rightarrow> xdebug_str" where
  "xdebug_str_create_from_char c = xdebug_str_create (c_str c)"

definition xdebug_str_clone :: "xdebug_str \<Rightarrow> xdebug_str" where
  "xdebug_str_clone orig =
     xdebug_str_new\<lparr>xs_l := xs_l orig, xs_a := xs_l orig + 1,
       xs_d := Some (take (xs_l orig) (str_mem orig) @ [Some NUL])\<rparr>"

definition xdebug_str_copy :: "xdebug_str \<Rightarrow> xdebug_str" where
  "xdebug_str_copy orig = orig\<lparr>xs_rc := xs_rc orig + 1\<rparr>"

datatype str_freed = Str_assertion_failed | Str_alive xdebug_str | Str_freed

definition xdebug_str_destroy :: "xdebug_str \<Rightarrow> str_freed" where
  "xdebug_str_destroy s = (if xs_static s then Str_freed else Str_assertion_failed)"

definition xdebug_str_free :: "xdebug_str \<Rightarrow> str_freed" where
  "xdebug_str_free s =
     (if xs_static s then Str_assertion_failed
      else let s1 = s\<lparr>xs_rc := xs_rc s - 1\<rparr> in
           if xs_rc s1 > 0 then Str_alive s1 else Str_freed)"

definition xdebug_str_is_equal :: "xdebug_str \<Rightarrow> xdebug_str \<Rightarrow> bool" where
  "xdebug_str_is_equal s1 s2 =
     (if xs_l s1 \<noteq> xs_l s2 then False
      else if take (xs_l s1) (str_mem s1) \<noteq> take (xs_l s1) (str_mem s2) then False
      else True)"

section \<open>Well-formed strings\<close>

text \<open>
  Either nothing was ever stored, or the buffer has \<open>a\<close> bytes, the first \<open>l\<close> of them are written,
  and a NUL follows them.
\<close>

definition str_ok :: "xdebug_str \<Rightarrow> bool" where
  "str_ok xs \<longleftrightarrow>
     (xs_d xs = None \<and> xs_a xs = 0 \<and> xs_l xs = 0) \<or>
     (\<exists>m. xs_d xs = Some m \<and> length m = xs_a xs \<and> xs_l xs < xs_a xs \<and>
          (\<forall>b \<in> set (take (xs_l xs) m). b \<noteq> None) \<and> m ! xs_l xs = Some NUL)"

lemma str_ok_new [simp]: "str_ok xdebug_str_new"
  by (simp add: str_ok_def xdebug_str_new_def)

lemma str_ok_initializer [simp]: "str_ok xdebug_str_initializer"
  by (simp add: str_ok_def xdebug_str_initializer_def)

lemma str_text_new [simp]: "str_text xdebug_str_new = []"
  by (simp add: str_text_def xdebug_str_new_def str_mem_def)

lemma str_text_initializer [simp]: "str_text xdebug_str_initializer = []"
  by (simp add: str_text_def xdebug_str_initializer_def str_mem_def)

lemma str_text_length: "str_ok xs \<Longrightarrow> length (str_text xs) = xs_l xs"
  by (auto simp: str_ok_def str_text_def str_mem_def)

lemma str_mem_text: "str_ok xs \<Longrightarrow> take (xs_l xs) (str_mem xs) = map Some (str_text xs)"
  unfolding str_text_def
  by (rule map_Some_the [symmetric]) (auto simp: str_ok_def str_mem_def)

lemma str_okE:
  assumes "str_ok xs"
  obtains "xs_l xs = 0" "xs_a xs = 0" "xs_d xs = None" "str_text xs = []"
  | rest where "xs_d xs = Some (map Some (str_text xs) @ Some NUL # rest)"
      "xs_l xs = length (str_text xs)" "xs_a xs = Suc (length (str_text xs) + length rest)"
proof -
  consider "xs_d xs = None" "xs_a xs = 0" "xs_l xs = 0"
    | m where "xs_d xs = Some m" "length m = xs_a xs" "xs_l xs < xs_a xs" "m ! xs_l xs = Some NUL"
    using assms by (auto simp: str_ok_def)
  then show thesis
  proof cases
    case 1
    then show thesis by (intro that(1)) (simp_all add: str_mem_def str_text_def)
  next
    case (2 m)
    define rest where "rest = drop (Suc (xs_l xs)) m"
    have l: "xs_l xs = length (str_text xs)" using str_text_length [OF assms] by simp
    have "m = take (xs_l xs) m @ Some NUL # rest"
      using id_take_nth_drop [of "xs_l xs" m] 2 by (simp add: rest_def)
    moreover have "take (xs_l xs) m = map Some (str_text xs)"
      using str_mem_text [OF assms] 2(1) by (simp add: str_mem_def)
    ultimately have m: "m = map Some (str_text xs) @ Some NUL # rest" by simp
    have "length m = Suc (length (str_text xs) + length rest)" by (subst m) simp
    then have "xs_a xs = Suc (length (str_text xs) + length rest)" using 2(2) by simp
    moreover have "xs_d xs = Some (map Some (str_text xs) @ Some NUL # rest)" using 2(1) m by argo
    ultimately show thesis using l that(2) by blast
  qed
qed

text \<open>The converse: a buffer of this shape is well formed and holds this text.\<close>

lemma str_okI:
  assumes "xs_d xs = Some (map Some t @ Some NUL # rest)" "xs_l xs = length t"
    "xs_a xs = Suc (length t + length rest)"
  shows "str_ok xs" "str_text xs = t"
proof -
  show "str_ok xs"
    unfolding str_ok_def using assms by (intro disjI2 exI [of _ "map Some t @ Some NUL # rest"]) (auto simp: nth_append)
  show "str_text xs = t"
    using assms by (simp add: str_text_def str_mem_def)
qed

lemma realloc_if_needed_ok:
  assumes "str_ok xs"
  shows "\<exists>xs1 rest. realloc_if_needed xs n = Some xs1 \<and> str_ok xs1 \<and> str_text xs1 = str_text xs \<and>
           xs_l xs1 = xs_l xs \<and> xs_rc xs1 = xs_rc xs \<and> xs_static xs1 = xs_static xs \<and>
           xs_a xs1 = length (str_mem xs1) \<and>
           str_mem xs1 = map Some (str_text xs) @ rest \<and> n < length rest"
  using assms
proof (cases rule: str_okE)
  case 1
  define m where "m = Some NUL # replicate (n + 1023) (None :: char option)"
  have "drop 1 (replicate (n + 1024) (None :: char option)) = replicate (n + 1023) None"
    by (simp only: drop_replicate) simp
  then have "mem_write (mem_realloc [] (n + 1024)) 0 [Some NUL] = Some m"
    by (simp add: mem_write_def mem_realloc_def m_def)
  then have "realloc_if_needed xs n = Some (xs\<lparr>xs_a := n + 1024, xs_d := Some m\<rparr>)"
    using 1(1-2) 1(3) by (simp add: realloc_if_needed_def Let_def XDEBUG_STR_PREALLOC_def str_mem_def)
  moreover have "str_ok (xs\<lparr>xs_a := n + 1024, xs_d := Some m\<rparr>)"
    "str_text (xs\<lparr>xs_a := n + 1024, xs_d := Some m\<rparr>) = []"
    using 1 str_okI [of "xs\<lparr>xs_a := n + 1024, xs_d := Some m\<rparr>" "[]" "replicate (n + 1023) None"]
    by (auto simp: m_def)
  ultimately show ?thesis
    using 1 by (intro exI [of _ "xs\<lparr>xs_a := n + 1024, xs_d := Some m\<rparr>"] exI [of _ m])
      (auto simp: str_mem_def m_def)
next
  case (2 rest)
  have mem: "str_mem xs = map Some (str_text xs) @ Some NUL # rest"
    using 2(1) by (simp add: str_mem_def)
  show ?thesis
  proof (cases "xs_l xs = 0 \<or> xs_l xs + n > xs_a xs - 1")
    case grow: True
    define rest' where "rest' = rest @ replicate (n + 1024) (None :: char option)"
    define m where "m = map Some (str_text xs) @ Some NUL # rest'"
    define xs1 where "xs1 = xs\<lparr>xs_a := xs_a xs + n + 1024, xs_d := Some m\<rparr>"
    have m: "mem_realloc (str_mem xs) (xs_a xs + n + 1024) = m"
      using 2 by (simp add: mem mem_realloc_def m_def rest'_def)
    have "xs_l xs = 0 \<Longrightarrow> mem_write m 0 [Some NUL] = Some m"
      using 2 by (simp add: m_def mem_write_def)
    with grow m have "realloc_if_needed xs n = Some xs1"
      by (auto simp: realloc_if_needed_def Let_def XDEBUG_STR_PREALLOC_def xs1_def str_mem_def)
    moreover have "str_ok xs1" "str_text xs1 = str_text xs"
      using str_okI [of xs1 "str_text xs" rest'] 2
      by (simp_all add: xs1_def m_def rest'_def)
    ultimately show ?thesis
      using 2 by (intro exI [of _ xs1] exI [of _ "Some NUL # rest'"])
        (simp add: xs1_def m_def rest'_def str_mem_def)
  next
    case False
    with 2 have "realloc_if_needed xs n = Some xs"
      by (simp add: realloc_if_needed_def Let_def)
    moreover have "n < Suc (length rest)"
      using False 2 by simp
    ultimately show ?thesis
      using 2 assms by (intro exI [of _ xs] exI [of _ "Some NUL # rest"]) (simp add: str_mem_def)
  qed
qed

section \<open>Every operation stays inside its buffer and has the expected text\<close>

lemma mem_write_after:
  "length bs \<le> length rest \<Longrightarrow> mem_write (as @ rest) (length as) bs = Some (as @ bs @ drop (length bs) rest)"
  by (simp add: mem_write_def)

definition appends :: "xdebug_str \<Rightarrow> string \<Rightarrow> xdebug_str option \<Rightarrow> bool" where
  "appends xs s r \<longleftrightarrow>
     (\<exists>xs'. r = Some xs' \<and> str_ok xs' \<and> str_text xs' = str_text xs @ s \<and>
            xs_rc xs' = xs_rc xs \<and> xs_static xs' = xs_static xs)"

lemma appendsI:
  assumes "r = Some xs'" "xs_d xs' = Some (map Some (str_text xs) @ map Some s @ Some NUL # rest)"
    "xs_l xs' = length (str_text xs) + length s"
    "xs_a xs' = Suc (length (str_text xs) + length s + length rest)"
    "xs_rc xs' = xs_rc xs" "xs_static xs' = xs_static xs"
  shows "appends xs s r"
  using assms str_okI [of xs' "str_text xs @ s" rest] by (simp add: appends_def)

lemma xdebug_str_addl_appends [xd_safe]:
  assumes "str_ok xs" shows "appends xs s (xdebug_str_addl xs s)"
proof -
  obtain xs1 rest where r: "realloc_if_needed xs (length s) = Some xs1" "xs_l xs1 = length (str_text xs)"
    "xs_rc xs1 = xs_rc xs" "xs_static xs1 = xs_static xs" "xs_a xs1 = length (str_mem xs1)"
    "str_mem xs1 = map Some (str_text xs) @ rest" "length s < length rest"
    using realloc_if_needed_ok [OF assms, of "length s"] str_text_length [OF assms] by auto
  define m1 where "m1 = map Some (str_text xs) @ map Some s @ drop (length s) rest"
  define m2 where "m2 = map Some (str_text xs) @ map Some s @ Some NUL # drop (Suc (length s)) rest"
  have w1: "mem_write (str_mem xs1) (xs_l xs1) (map Some s) = Some m1"
    using r mem_write_after [of "map Some s" rest "map Some (str_text xs)"] by (simp add: m1_def)
  have w2: "mem_write m1 (xs_l xs1 + length s) [Some NUL] = Some m2"
    using r mem_write_after [of "[Some NUL]" "drop (length s) rest" "map Some (str_text xs @ s)"]
    by (simp add: m1_def m2_def)
  have "xdebug_str_addl xs s = Some (xs1\<lparr>xs_d := Some m2, xs_l := xs_l xs1 + length s\<rparr>)"
    using r(1) w1 w2 by (simp add: xdebug_str_addl_def)
  then show ?thesis
    by (rule appendsI [of _ _ _ _ "drop (Suc (length s)) rest"]) (use r in \<open>simp_all add: m2_def\<close>)
qed

lemma xdebug_str_add_appends [xd_safe]: "str_ok xs \<Longrightarrow> appends xs (c_str s) (xdebug_str_add xs s)"
  by (simp add: xdebug_str_add_def xd_safe)

lemma xdebug_str_add_str_appends [xd_safe]:
  "str_ok xs \<Longrightarrow> appends xs (str_text str) (xdebug_str_add_str xs str)"
  by (simp add: xdebug_str_add_str_def xd_safe)

lemma xdebug_str_addc_addl: "xdebug_str_addc xs c = xdebug_str_addl xs [c]"
  unfolding xdebug_str_addc_def xdebug_str_addl_def by (simp cong: option.case_cong)

lemma xdebug_str_addc_appends [xd_safe]: "str_ok xs \<Longrightarrow> appends xs [c] (xdebug_str_addc xs c)"
  by (simp add: xdebug_str_addc_addl xd_safe)

lemma uint64_digits_dec:
  "length (dec n) \<le> pos \<Longrightarrow> uint64_digits n pos acc = Some (dec n @ acc)"
proof (induction n pos acc rule: uint64_digits.induct)
  case (1 num pos acc)
  show ?case
  proof (cases "num < 10")
    case True
    then have "num div 10 = 0" "num mod 10 = num" by simp_all
    moreover have "pos \<noteq> 0" using "1.prems" dec_nonempty [of num] by (metis le_zero_eq length_0_conv)
    ultimately show ?thesis
      using True by (subst uint64_digits.simps, subst dec.simps) (simp add: Let_def)
  next
    case False
    have d: "dec num = dec (num div 10) @ [char_of (48 + num mod 10)]"
      using False by (subst dec.simps) simp
    with "1.prems" have pos: "pos \<noteq> 0" "length (dec (num div 10)) \<le> pos - 1" by auto
    from False have nz: "num div 10 \<noteq> 0" by (simp add: div_eq_0_iff)
    have "uint64_digits (num div 10) (pos - 1) (char_of (48 + num mod 10) # acc) =
        Some (dec (num div 10) @ char_of (48 + num mod 10) # acc)"
      using "1.IH" [OF refl refl] pos nz by simp
    with pos nz show ?thesis
      by (subst uint64_digits.simps) (simp add: Let_def d)
  qed
qed

lemma dec_uint64_length: "length (dec (unat (num :: 64 word))) \<le> 20"
proof -
  have "unat num < 2 ^ 64" using unsigned_less [of num] by simp
  then have "unat num < 10 ^ Suc 19" by simp
  then show ?thesis using dec_length_le [of "unat num" 19] by simp
qed

lemma xdebug_str_add_uint64_appends [xd_safe]:
  "str_ok xs \<Longrightarrow> appends xs (dec (unat num)) (xdebug_str_add_uint64 xs num)"
  by (simp add: xdebug_str_add_uint64_def uint64_digits_dec dec_uint64_length xd_safe)

lemma vsnprintf_ok:
  assumes "off + sz = length m" "m = map Some t @ rest" "off = length t" "0 < sz"
  shows "\<exists>rest'. vsnprintf m off sz out = Some (map Some t @ rest') \<and> length rest' = sz \<and>
           rest' = map Some (take (sz - 1) out) @ Some NUL # drop (Suc (length (take (sz - 1) out))) rest"
proof -
  have "length rest = sz" using assms by simp
  then have "length (map Some (take (sz - 1) out) @ [Some NUL]) \<le> length rest"
    using assms(4) by simp
  then have "mem_write m off (map Some (take (sz - 1) out) @ [Some NUL]) =
      Some (map Some t @ (map Some (take (sz - 1) out) @ [Some NUL]) @
        drop (length (map Some (take (sz - 1) out) @ [Some NUL])) rest)"
    using assms(2,3) mem_write_after [of "map Some (take (sz - 1) out) @ [Some NUL]" rest "map Some t"]
    by simp
  with assms(4) \<open>length rest = sz\<close> show ?thesis by (auto simp: vsnprintf_def)
qed

text \<open>
  A buffer whose text region is intact and which holds a NUL right behind it is all that the
  second call of \<open>realloc_if_needed\<close> in \<open>xdebug_str_add_va_fmt\<close> needs; the tail left by a truncated first
  attempt is overwritten.  The final \<open>assert(0)\<close> of the C function is unreachable.
\<close>

lemma realloc_if_needed_truncated:
  assumes "xs_d xs2 = Some (map Some t @ rest)" "xs_l xs2 = length t" "xs_a xs2 = length t + length rest"
    "length rest \<le> n" "rest \<noteq> []"
  shows "\<exists>rest'. realloc_if_needed xs2 (n + 1) =
            Some (xs2\<lparr>xs_d := Some (map Some t @ rest'), xs_a := length t + length rest'\<rparr>) \<and>
           n < length rest'"
proof -
  define rest0 where "rest0 = rest @ replicate (n + 1025) (None :: char option)"
  have re: "mem_realloc (str_mem xs2) (xs_a xs2 + (n + 1) + 1024) = map Some t @ rest0"
    using assms by (simp add: mem_realloc_def str_mem_def rest0_def)
  have grow: "xs_l xs2 + (n + 1) > xs_a xs2 - 1" using assms by simp
  show ?thesis
  proof (cases "t = []")
    case False
    with assms grow re show ?thesis
      by (intro exI [of _ rest0])
        (simp add: realloc_if_needed_def Let_def XDEBUG_STR_PREALLOC_def rest0_def)
  next
    case True
    have "mem_write rest0 0 [Some NUL] = Some (Some NUL # drop 1 rest0)"
      by (simp add: mem_write_def rest0_def)
    with True assms grow re show ?thesis
      by (intro exI [of _ "Some NUL # drop 1 rest0"])
        (auto simp: realloc_if_needed_def Let_def XDEBUG_STR_PREALLOC_def rest0_def str_mem_def)
  qed
qed

lemma xdebug_str_add_va_fmt_appends [xd_safe]:
  assumes "str_ok xs" shows "appends xs out (xdebug_str_add_va_fmt xs out)"
proof -
  let ?t = "str_text xs"
  obtain xs1 rest where r: "realloc_if_needed xs 1 = Some xs1" "xs_l xs1 = length ?t"
    "xs_rc xs1 = xs_rc xs" "xs_static xs1 = xs_static xs" "xs_a xs1 = length ?t + length rest"
    "str_mem xs1 = map Some ?t @ rest" "1 < length rest"
    using realloc_if_needed_ok [OF assms, of 1] str_text_length [OF assms] by auto
  have len: "length ?t + length rest = length (str_mem xs1)" using r(6) by simp
  have pos: "0 < length rest" using r(7) by linarith
  obtain rest1 where v1: "vsnprintf (str_mem xs1) (length ?t) (length rest) out = Some (map Some ?t @ rest1)"
    "length rest1 = length rest"
    "rest1 = map Some (take (length rest - 1) out) @ Some NUL # drop (Suc (length (take (length rest - 1) out))) rest"
    using vsnprintf_ok [OF len r(6) refl pos] by blast
  define xs2 where "xs2 = xs1\<lparr>xs_d := Some (map Some ?t @ rest1)\<rparr>"
  show ?thesis
  proof (cases "length out < length rest")
    case True
    then have "take (length rest - 1) out = out" by simp
    with v1(3) have r1: "rest1 = map Some out @ Some NUL # drop (Suc (length out)) rest" by simp
    have "xdebug_str_add_va_fmt xs out = Some (xs2\<lparr>xs_l := length ?t + length out\<rparr>)"
      using True r v1(1) by (simp add: xdebug_str_add_va_fmt_def xs2_def Let_def)
    then show ?thesis
      by (rule appendsI [of _ _ _ _ "drop (Suc (length out)) rest"]) (use True r in \<open>simp_all add: xs2_def r1\<close>)
  next
    case False
    obtain rest2 where r2: "realloc_if_needed xs2 (length out + 1) =
        Some (xs2\<lparr>xs_d := Some (map Some ?t @ rest2), xs_a := length ?t + length rest2\<rparr>)"
      "length out < length rest2"
    proof -
      have "xs_d xs2 = Some (map Some ?t @ rest1)" "xs_l xs2 = length ?t"
        "xs_a xs2 = length ?t + length rest1" using r(2,5) v1(2) by (simp_all add: xs2_def)
      moreover have "length rest1 \<le> length out" "rest1 \<noteq> []" using False v1(2) pos by auto
      ultimately show thesis using realloc_if_needed_truncated that by blast
    qed
    have "take (length rest2 - 1) out = out" using r2(2) by simp
    note all = \<open>take (length rest2 - 1) out = out\<close>
    have len2: "length ?t + length rest2 = length (map Some ?t @ rest2)" by simp
    have pos2: "0 < length rest2" using r2(2) by linarith
    have v2: "vsnprintf (map Some ?t @ rest2) (length ?t) (length rest2) out =
        Some (map Some ?t @ map Some out @ Some NUL # drop (Suc (length out)) rest2)"
      using vsnprintf_ok [OF len2 refl refl pos2, of out] all by auto
    define xs3 where "xs3 = xs2\<lparr>xs_a := length ?t + length rest2,
      xs_d := Some (map Some ?t @ map Some out @ Some NUL # drop (Suc (length out)) rest2),
      xs_l := length ?t + length out\<rparr>"
    have "xdebug_str_add_va_fmt xs out = Some xs3"
      using False r v1(1) r2 v2
      by (simp add: xdebug_str_add_va_fmt_def xs2_def xs3_def Let_def str_mem_def)
    then show ?thesis
      by (rule appendsI [of _ xs3 _ _ "drop (Suc (length out)) rest2"])
        (use r r2(2) in \<open>simp_all add: xs3_def xs2_def\<close>)
  qed
qed

lemma xdebug_str_chop_ok:
  assumes "str_ok xs"
  shows "xdebug_str_chop xs c \<noteq> None \<longleftrightarrow> \<not> (xs_d xs = None \<and> c = 0)"
  using assms
  by (cases rule: str_okE) (auto simp: xdebug_str_chop_def mem_write_def str_mem_def)

lemma xdebug_str_chop_text:
  assumes "str_ok xs" and ch: "xdebug_str_chop xs c = Some xs'"
  shows "str_ok xs' \<and> str_text xs' = (if c > length (str_text xs) then str_text xs
                           else take (length (str_text xs) - c) (str_text xs))"
  using assms(1)
proof (cases rule: str_okE)
  case 1
  with ch assms(1) show ?thesis
    by (auto simp: xdebug_str_chop_def mem_write_def str_mem_def split: if_splits)
next
  case (2 rest)
  let ?t = "str_text xs" and ?k = "length (str_text xs) - c"
  show ?thesis
  proof (cases "c > length ?t")
    case True
    with ch 2 assms show ?thesis by (simp add: xdebug_str_chop_def)
  next
    case False
    define rest' where "rest' = drop (Suc ?k) (map Some ?t @ Some NUL # rest)"
    have "mem_write (str_mem xs) ?k [Some NUL] = Some (map Some (take ?k ?t) @ Some NUL # rest')"
      using 2 by (simp add: mem_write_def str_mem_def rest'_def take_map)
    with ch False 2 have "xs' = xs\<lparr>xs_l := ?k, xs_d := Some (map Some (take ?k ?t) @ Some NUL # rest')\<rparr>"
      by (simp add: xdebug_str_chop_def)
    then show ?thesis
      using str_okI [of xs' "take ?k ?t" rest'] False 2 by (simp add: rest'_def)
  qed
qed

lemma xdebug_str_create_ok [simp]:
  "str_ok (xdebug_str_create c)" "str_text (xdebug_str_create c) = c"
  using str_okI [of "xdebug_str_create c" c "[]"] by (simp_all add: xdebug_str_create_def)

lemma xdebug_str_create_from_char_ok [simp]:
  "str_ok (xdebug_str_create_from_char c)" "str_text (xdebug_str_create_from_char c) = c_str c"
  by (simp_all add: xdebug_str_create_from_char_def)

lemma xdebug_str_clone_ok [simp]:
  assumes "str_ok xs"
  shows "str_ok (xdebug_str_clone xs)" "str_text (xdebug_str_clone xs) = str_text xs"
  using str_okI [of "xdebug_str_clone xs" "str_text xs" "[]"] str_text_length [OF assms]
  by (simp_all add: xdebug_str_clone_def str_mem_text [OF assms])

lemma xdebug_str_copy_ok [simp]:
  "str_ok (xdebug_str_copy xs) = str_ok xs" "str_text (xdebug_str_copy xs) = str_text xs"
  by (simp_all add: xdebug_str_copy_def str_ok_def str_text_def str_mem_def)

lemma xdebug_str_is_equal_iff:
  assumes "str_ok s1" "str_ok s2"
  shows "xdebug_str_is_equal s1 s2 \<longleftrightarrow> str_text s1 = str_text s2"
proof (cases "xs_l s1 = xs_l s2")
  case True
  then show ?thesis
    using str_mem_text [OF assms(1)] str_mem_text [OF assms(2)]
    by (simp add: xdebug_str_is_equal_def inj_map_eq_map)
next
  case False
  then show ?thesis
    using str_text_length [OF assms(1)] str_text_length [OF assms(2)]
    by (auto simp: xdebug_str_is_equal_def)
qed

text \<open>Reference counting: every copy is paid back by one release, and only the last release frees.\<close>

lemma xdebug_str_copy_free:
  "\<not> xs_static s \<Longrightarrow> xs_rc s \<noteq> 0 \<Longrightarrow> xdebug_str_free (xdebug_str_copy s) = Str_alive s"
  by (simp add: xdebug_str_free_def xdebug_str_copy_def Let_def word_neq_0_conv)

lemma xdebug_str_free_new: "xdebug_str_free (xdebug_str_create c) = Str_freed"
  by (simp add: xdebug_str_free_def xdebug_str_create_def xdebug_str_new_def Let_def)

section \<open>The interface the clients use\<close>

text \<open>
  A string builder appends text without failing.  Clients that write a sequence of pieces get
  their concatenation.
\<close>

locale string_builder =
  fixes add :: "'b \<Rightarrow> string \<Rightarrow> 'b option"
    and text_of :: "'b \<Rightarrow> string"
    and ok :: "'b \<Rightarrow> bool"
  assumes add_ok: "ok b \<Longrightarrow> \<exists>b'. add b s = Some b' \<and> ok b' \<and> text_of b' = text_of b @ s"
begin

lemma add_SomeD: "ok b \<Longrightarrow> add b s = Some b' \<Longrightarrow> ok b' \<and> text_of b' = text_of b @ s"
  using add_ok [of b s] by auto

lemma add_then:
  assumes "ok b"
    and "\<And>b'. ok b' \<Longrightarrow> text_of b' = text_of b @ s \<Longrightarrow> \<exists>r. k b' = Some r \<and> ok r \<and> text_of r = text_of b' @ t"
  shows "\<exists>r. Option.bind (add b s) k = Some r \<and> ok r \<and> text_of r = text_of b @ s @ t"
proof -
  from add_ok [OF assms(1)] obtain b' where "add b s = Some b'" "ok b'" "text_of b' = text_of b @ s"
    by blast
  with assms(2) show ?thesis by fastforce
qed

end

lemma appends_string_builder:
  "(\<And>b s. str_ok b \<Longrightarrow> appends b s (f b s)) \<Longrightarrow> string_builder f str_text str_ok"
  by unfold_locales (fastforce simp: appends_def)

interpretation addl: string_builder xdebug_str_addl str_text str_ok
  by (rule appends_string_builder) (rule xdebug_str_addl_appends)

interpretation add_fmt: string_builder xdebug_str_add_va_fmt str_text str_ok
  by (rule appends_string_builder) (rule xdebug_str_add_va_fmt_appends)

end
