(* ===== verification/Xd_Llist.thy ===== *)
theory Xd_Llist
  imports Xd_Prelude
begin

text \<open>
  The doubly linked list of \<open>src/lib/llist.c\<close>, on an explicit store of list elements.  A pointer is
  an address or \<open>None\<close> (NULL).  Reading or writing through NULL or through a freed element is
  \<open>None\<close>.  \<open>malloc\<close> hands out the next unused address; the calls of the destructor are recorded
  in the order they happen.  \<open>ll_rep\<close> relates the pointers to the abstract list; the lemmas show
  that each operation is the list operation its name says.
\<close>

section \<open>Elements, lists, store\<close>

type_synonym addr = nat
type_synonym ref = "addr option"

record 'a llist_element =
  le_ptr :: 'a
  le_prev :: ref
  le_next :: ref

record llist =
  ll_head :: ref
  ll_tail :: ref
  ll_dtor :: bool
  ll_size :: nat

record 'a store =
  st_cells :: "addr \<Rightarrow> 'a llist_element option"
  st_brk :: addr
  st_destroyed :: "'a list"

definition xdebug_llist_init :: "bool \<Rightarrow> llist" where
  "xdebug_llist_init dtor = \<lparr>ll_head = None, ll_tail = None, ll_dtor = dtor, ll_size = 0\<rparr>"

definition deref :: "'a store \<Rightarrow> ref \<Rightarrow> 'a llist_element option" where
  "deref st e = (case e of None \<Rightarrow> None | Some a \<Rightarrow> st_cells st a)"

definition put :: "'a store \<Rightarrow> addr \<Rightarrow> 'a llist_element \<Rightarrow> 'a store" where
  "put st a c = st\<lparr>st_cells := (st_cells st)(a := Some c)\<rparr>"

definition set_next :: "'a store \<Rightarrow> ref \<Rightarrow> ref \<Rightarrow> 'a store option" where
  "set_next st e v =
     (case e of None \<Rightarrow> None
      | Some a \<Rightarrow> (case st_cells st a of None \<Rightarrow> None | Some c \<Rightarrow> Some (put st a (c\<lparr>le_next := v\<rparr>))))"

definition set_prev :: "'a store \<Rightarrow> ref \<Rightarrow> ref \<Rightarrow> 'a store option" where
  "set_prev st e v =
     (case e of None \<Rightarrow> None
      | Some a \<Rightarrow> (case st_cells st a of None \<Rightarrow> None | Some c \<Rightarrow> Some (put st a (c\<lparr>le_prev := v\<rparr>))))"

definition alloc :: "'a store \<Rightarrow> 'a llist_element \<Rightarrow> 'a store" where
  "alloc st c = (put st (st_brk st) c)\<lparr>st_brk := Suc (st_brk st)\<rparr>"

section \<open>Operations\<close>

definition xdebug_llist_insert_next :: "'a store \<Rightarrow> llist \<Rightarrow> ref \<Rightarrow> 'a \<Rightarrow> ('a store \<times> llist) option" where
  "xdebug_llist_insert_next st l e p =
     (let e = (if e = None then ll_tail l else e);
          ne = st_brk st
      in if ll_size l = 0 then
           Some (alloc st \<lparr>le_ptr = p, le_prev = None, le_next = None\<rparr>,
                 l\<lparr>ll_head := Some ne, ll_tail := Some ne, ll_size := ll_size l + 1\<rparr>)
         else
           (case deref st e of None \<Rightarrow> None
            | Some ec \<Rightarrow>
               (let st1 = alloc st \<lparr>le_ptr = p, le_prev = e, le_next = le_next ec\<rparr>;
                    r = (if le_next ec \<noteq> None
                         then map_option (\<lambda>s. (s, l)) (set_prev st1 (le_next ec) (Some ne))
                         else Some (st1, l\<lparr>ll_tail := Some ne\<rparr>))
                in case r of None \<Rightarrow> None
                   | Some (st2, l1) \<Rightarrow>
                      map_option (\<lambda>s. (s, l1\<lparr>ll_size := ll_size l1 + 1\<rparr>)) (set_next st2 e (Some ne)))))"

definition xdebug_llist_insert_prev :: "'a store \<Rightarrow> llist \<Rightarrow> ref \<Rightarrow> 'a \<Rightarrow> ('a store \<times> llist) option" where
  "xdebug_llist_insert_prev st l e p =
     (let e = (if e = None then ll_head l else e);
          ne = st_brk st
      in if ll_size l = 0 then
           Some (alloc st \<lparr>le_ptr = p, le_prev = None, le_next = None\<rparr>,
                 l\<lparr>ll_head := Some ne, ll_tail := Some ne, ll_size := ll_size l + 1\<rparr>)
         else
           (case deref st e of None \<Rightarrow> None
            | Some ec \<Rightarrow>
               (let st1 = alloc st \<lparr>le_ptr = p, le_prev = le_prev ec, le_next = e\<rparr>;
                    r = (if le_prev ec \<noteq> None
                         then map_option (\<lambda>s. (s, l)) (set_next st1 (le_prev ec) (Some ne))
                         else Some (st1, l\<lparr>ll_head := Some ne\<rparr>))
                in case r of None \<Rightarrow> None
                   | Some (st2, l1) \<Rightarrow>
                      map_option (\<lambda>s. (s, l1\<lparr>ll_size := ll_size l1 + 1\<rparr>)) (set_prev st2 e (Some ne)))))"

text \<open>The unlinking half of \<open>xdebug_llist_remove\<close>, then the destructor, \<open>free\<close> and the count.\<close>

definition llist_unlink :: "'a store \<Rightarrow> llist \<Rightarrow> ref \<Rightarrow> 'a llist_element \<Rightarrow> ('a store \<times> llist) option" where
  "llist_unlink st l e ec =
     (if e = ll_head l then
        (if le_next ec = None
         then Some (st, l\<lparr>ll_head := le_next ec, ll_tail := None\<rparr>)
         else map_option (\<lambda>s. (s, l\<lparr>ll_head := le_next ec\<rparr>)) (set_prev st (le_next ec) None))
      else
        (case set_next st (le_prev ec) (le_next ec) of None \<Rightarrow> None
         | Some st1 \<Rightarrow>
            if le_next ec = None then Some (st1, l\<lparr>ll_tail := le_prev ec\<rparr>)
            else map_option (\<lambda>s. (s, l)) (set_prev st1 (le_next ec) (le_prev ec))))"

definition xdebug_llist_remove :: "'a store \<Rightarrow> llist \<Rightarrow> ref \<Rightarrow> ('a store \<times> llist) option" where
  "xdebug_llist_remove st l e =
     (if e = None \<or> ll_size l = 0 then Some (st, l)
      else
        (case deref st e of None \<Rightarrow> None
         | Some ec \<Rightarrow>
            (case llist_unlink st l e ec of None \<Rightarrow> None
             | Some (st1, l1) \<Rightarrow>
                Some (st1\<lparr>st_destroyed := (if ll_dtor l1 then st_destroyed st1 @ [le_ptr ec] else st_destroyed st1),
                          st_cells := (st_cells st1)(the e := None)\<rparr>,
                      l1\<lparr>ll_size := ll_size l1 - 1\<rparr>))))"

definition xdebug_llist_remove_next :: "'a store \<Rightarrow> llist \<Rightarrow> ref \<Rightarrow> ('a store \<times> llist) option" where
  "xdebug_llist_remove_next st l e =
     (case deref st e of None \<Rightarrow> None | Some ec \<Rightarrow> xdebug_llist_remove st l (le_next ec))"

definition xdebug_llist_remove_prev :: "'a store \<Rightarrow> llist \<Rightarrow> ref \<Rightarrow> ('a store \<times> llist) option" where
  "xdebug_llist_remove_prev st l e =
     (case deref st e of None \<Rightarrow> None | Some ec \<Rightarrow> xdebug_llist_remove st l (le_prev ec))"

datatype llist_where = LIST_HEAD | LIST_TAIL | LIST_OTHER

fun llist_walk :: "'a store \<Rightarrow> ('a llist_element \<Rightarrow> ref) \<Rightarrow> nat \<Rightarrow> ref \<Rightarrow> ref option" where
  "llist_walk st f 0 e = Some e"
| "llist_walk st f (Suc n) e =
     (case deref st e of None \<Rightarrow> None | Some ec \<Rightarrow> llist_walk st f n (f ec))"

definition xdebug_llist_jump :: "'a store \<Rightarrow> llist \<Rightarrow> llist_where \<Rightarrow> nat \<Rightarrow> ref option" where
  "xdebug_llist_jump st l w pos =
     (case w of LIST_HEAD \<Rightarrow> llist_walk st le_next pos (ll_head l)
      | LIST_TAIL \<Rightarrow> llist_walk st le_prev pos (ll_tail l)
      | LIST_OTHER \<Rightarrow> Some None)"

definition xdebug_llist_count :: "llist \<Rightarrow> nat" where
  "xdebug_llist_count l = ll_size l"

lemma llist_unlink_size: "llist_unlink st l e ec = Some (st', l') \<Longrightarrow> ll_size l' = ll_size l"
  by (auto simp: llist_unlink_def split: if_splits option.splits)

lemma xdebug_llist_remove_size:
  "xdebug_llist_remove st l e = Some (st', l') \<Longrightarrow> e \<noteq> None \<Longrightarrow> ll_size l \<noteq> 0 \<Longrightarrow> ll_size l' = ll_size l - 1"
  by (auto simp: xdebug_llist_remove_def dest: llist_unlink_size split: if_splits option.splits)

function xdebug_llist_empty :: "'a store \<Rightarrow> llist \<Rightarrow> ('a store \<times> llist) option" where
  "xdebug_llist_empty st l =
     (if xdebug_llist_count l > 0 \<and> ll_tail l \<noteq> None then
        (case xdebug_llist_remove st l (ll_tail l) of None \<Rightarrow> None
         | Some (st', l') \<Rightarrow> xdebug_llist_empty st' l')
      else Some (st, l))"
  by pat_completeness auto
termination
  by (relation "measure (\<lambda>(st, l). ll_size l)")
    (auto simp: xdebug_llist_count_def dest: xdebug_llist_remove_size)

declare xdebug_llist_empty.simps [simp del]

section \<open>The abstract list\<close>

text \<open>
  \<open>dlseg h p f xs l n\<close>: from \<open>f\<close> on, the store holds the elements \<open>xs\<close> (address and payload), linked
  both ways; \<open>p\<close> precedes the first, \<open>l\<close> is the last (or \<open>p\<close>), \<open>n\<close> follows the last.
\<close>

fun dlseg :: "(addr \<Rightarrow> 'a llist_element option) \<Rightarrow> ref \<Rightarrow> ref \<Rightarrow> (addr \<times> 'a) list \<Rightarrow> ref \<Rightarrow> ref \<Rightarrow> bool" where
  "dlseg h p f [] l n \<longleftrightarrow> f = n \<and> l = p"
| "dlseg h p f ((a, x) # xs) l n \<longleftrightarrow>
     f = Some a \<and> (\<exists>nx. h a = Some \<lparr>le_ptr = x, le_prev = p, le_next = nx\<rparr> \<and> dlseg h (Some a) nx xs l n)"

definition ll_rep :: "'a store \<Rightarrow> llist \<Rightarrow> (addr \<times> 'a) list \<Rightarrow> bool" where
  "ll_rep st l xs \<longleftrightarrow>
     dlseg (st_cells st) None (ll_head l) xs (ll_tail l) None \<and> distinct (map fst xs) \<and>
     ll_size l = length xs \<and> (\<forall>a \<in> fst ` set xs. a < st_brk st)"

lemma dlseg_append:
  "dlseg h p f (xs @ ys) l n \<longleftrightarrow> (\<exists>m mf. dlseg h p f xs m mf \<and> dlseg h m mf ys l n)"
  by (induction xs arbitrary: p f) (auto, blast+)

lemma dlseg_upd_other [simp]:
  "a \<notin> fst ` set xs \<Longrightarrow> dlseg (h(a := c)) p f xs l n = dlseg h p f xs l n"
  by (induction xs arbitrary: p f) auto

lemma dlseg_snocE:
  assumes "dlseg h p f xs l n" "xs \<noteq> []"
  obtains ys a x q where "xs = ys @ [(a, x)]" "l = Some a" "dlseg h p f ys q (Some a)"
    "h a = Some \<lparr>le_ptr = x, le_prev = q, le_next = n\<rparr>"
proof -
  obtain ys y where xs: "xs = ys @ [y]" using assms(2) by (metis rev_exhaust)
  obtain a x where y: "y = (a, x)" by force
  from assms(1) obtain q where "dlseg h p f ys q (Some a)" "l = Some a"
    "h a = Some \<lparr>le_ptr = x, le_prev = q, le_next = n\<rparr>"
    unfolding xs y dlseg_append by auto
  with xs y that show thesis by blast
qed

text \<open>Redirecting the pointer out of, or into, a segment.\<close>

lemma dlseg_set_next:
  assumes "dlseg h p f (xs @ [(a, x)]) l n" "distinct (map fst (xs @ [(a, x)]))"
    "h a = Some c"
  shows "dlseg (h(a := Some (c\<lparr>le_next := n'\<rparr>))) p f (xs @ [(a, x)]) l n'"
  using assms by (force simp: dlseg_append)

lemma dlseg_set_prev:
  assumes "dlseg h p f ((a, x) # xs) l n" "distinct (map fst ((a, x) # xs))" "h a = Some c"
  shows "dlseg (h(a := Some (c\<lparr>le_prev := p'\<rparr>))) p' f ((a, x) # xs) l n"
  using assms by force

lemma dlseg_last: "dlseg h p f (xs @ [(a, x)]) l n \<Longrightarrow> l = Some a"
  by (auto simp: dlseg_append)

lemma dlseg_first: "dlseg h p f ((a, x) # xs) l n \<Longrightarrow> f = Some a"
  by simp

lemma ll_rep_split:
  assumes "ll_rep st l (us @ (a, x) # vs)"
  obtains m nx where "dlseg (st_cells st) None (ll_head l) us m (Some a)"
    "st_cells st a = Some \<lparr>le_ptr = x, le_prev = m, le_next = nx\<rparr>"
    "dlseg (st_cells st) (Some a) nx vs (ll_tail l) None"
  using assms by (auto simp: ll_rep_def dlseg_append)

lemma dlseg_empty_iff: "dlseg h None f us m n \<Longrightarrow> (m = None) = (us = [])"
  by (cases us rule: rev_cases) (auto simp: dlseg_append)

lemma ll_rep_init [simp]: "ll_rep st (xdebug_llist_init d) []"
  by (simp add: ll_rep_def xdebug_llist_init_def)

section \<open>Each operation is the list operation its name says\<close>

lemma st_simps [simp]:
  "st_cells (put st a c) = (st_cells st)(a := Some c)" "st_brk (put st a c) = st_brk st"
  "st_destroyed (put st a c) = st_destroyed st"
  "st_cells (alloc st c) = (st_cells st)(st_brk st := Some c)" "st_brk (alloc st c) = Suc (st_brk st)"
  "st_destroyed (alloc st c) = st_destroyed st"
  by (simp_all add: put_def alloc_def)

lemma ll_rep_insert_empty:
  assumes "ll_rep st l []"
  shows "\<exists>st' l'. xdebug_llist_insert_next st l e p = Some (st', l') \<and> ll_rep st' l' [(st_brk st, p)] \<and>
           st_destroyed st' = st_destroyed st \<and> ll_dtor l' = ll_dtor l"
    and "\<exists>st' l'. xdebug_llist_insert_prev st l e p = Some (st', l') \<and> ll_rep st' l' [(st_brk st, p)] \<and>
           st_destroyed st' = st_destroyed st \<and> ll_dtor l' = ll_dtor l"
  using assms
  by (simp_all add: ll_rep_def xdebug_llist_insert_next_def xdebug_llist_insert_prev_def Let_def)

lemma ll_rep_insert_next:
  assumes rep: "ll_rep st l (us @ (a, x) # vs)" and e: "e = Some a \<or> (e = None \<and> vs = [])"
  shows "\<exists>st' l'. xdebug_llist_insert_next st l e p = Some (st', l') \<and>
           ll_rep st' l' (us @ (a, x) # (st_brk st, p) # vs) \<and>
           st_destroyed st' = st_destroyed st \<and> ll_dtor l' = ll_dtor l"
proof -
  obtain m nx where seg: "dlseg (st_cells st) None (ll_head l) us m (Some a)"
    "st_cells st a = Some \<lparr>le_ptr = x, le_prev = m, le_next = nx\<rparr>"
    "dlseg (st_cells st) (Some a) nx vs (ll_tail l) None"
    using rep by (rule ll_rep_split)
  have dist: "distinct (map fst us)" "distinct (map fst vs)" "a \<notin> fst ` set us" "a \<notin> fst ` set vs"
    "fst ` set us \<inter> fst ` set vs = {}" and sz: "ll_size l = Suc (length us + length vs)"
    and lt: "a < st_brk st" "\<forall>b \<in> fst ` set us. b < st_brk st" "\<forall>b \<in> fst ` set vs. b < st_brk st"
    using rep by (auto simp: ll_rep_def)
  have fresh: "st_brk st \<notin> fst ` set us" "st_brk st \<notin> fst ` set vs" "st_brk st \<noteq> a" using lt by auto
  have e': "(if e = None then ll_tail l else e) = Some a" using e seg by auto
  show ?thesis
  proof (cases vs)
    case Nil
    with seg have "nx = None" "ll_tail l = Some a" by auto
    with Nil show ?thesis
      using seg dist sz lt fresh
      by (auto simp: xdebug_llist_insert_next_def e' Let_def deref_def set_next_def ll_rep_def dlseg_append
          less_Suc_eq simp del: not_None_eq)
  next
    case (Cons v ws)
    obtain b y where v: "v = (b, y)" by force
    with seg Cons obtain n2 where nx: "nx = Some b"
      "st_cells st b = Some \<lparr>le_ptr = y, le_prev = Some a, le_next = n2\<rparr>"
      "dlseg (st_cells st) (Some b) n2 ws (ll_tail l) None" by auto
    have "b \<noteq> a" "b \<notin> fst ` set us" "b \<notin> fst ` set ws" "b \<noteq> st_brk st" using dist lt Cons v by auto
    with nx Cons v show ?thesis
      using seg dist sz lt fresh
      by (auto simp: xdebug_llist_insert_next_def e' Let_def deref_def set_next_def set_prev_def ll_rep_def dlseg_append
          less_Suc_eq simp del: not_None_eq)
  qed
qed

lemma ll_rep_insert_prev:
  assumes rep: "ll_rep st l (us @ (a, x) # vs)" and e: "e = Some a \<or> (e = None \<and> us = [])"
  shows "\<exists>st' l'. xdebug_llist_insert_prev st l e p = Some (st', l') \<and>
           ll_rep st' l' (us @ (st_brk st, p) # (a, x) # vs) \<and>
           st_destroyed st' = st_destroyed st \<and> ll_dtor l' = ll_dtor l"
proof -
  obtain m nx where seg: "dlseg (st_cells st) None (ll_head l) us m (Some a)"
    "st_cells st a = Some \<lparr>le_ptr = x, le_prev = m, le_next = nx\<rparr>"
    "dlseg (st_cells st) (Some a) nx vs (ll_tail l) None"
    using rep by (rule ll_rep_split)
  have dist: "distinct (map fst us)" "distinct (map fst vs)" "a \<notin> fst ` set us" "a \<notin> fst ` set vs"
    "fst ` set us \<inter> fst ` set vs = {}" and sz: "ll_size l = Suc (length us + length vs)"
    and lt: "a < st_brk st" "\<forall>b \<in> fst ` set us. b < st_brk st" "\<forall>b \<in> fst ` set vs. b < st_brk st"
    using rep by (auto simp: ll_rep_def)
  have fresh: "st_brk st \<notin> fst ` set us" "st_brk st \<notin> fst ` set vs" "st_brk st \<noteq> a" using lt by auto
  have e': "(if e = None then ll_head l else e) = Some a" using e seg by auto
  show ?thesis
  proof (cases us rule: rev_cases)
    case Nil
    with seg have "m = None" "ll_head l = Some a" by auto
    with Nil show ?thesis
      using seg dist sz lt fresh
      by (auto simp: xdebug_llist_insert_prev_def e' Let_def deref_def set_prev_def ll_rep_def dlseg_append
          less_Suc_eq simp del: not_None_eq)
  next
    case (snoc ws v)
    obtain b y where v: "v = (b, y)" by force
    with seg snoc obtain n2 where nx: "m = Some b"
      "st_cells st b = Some \<lparr>le_ptr = y, le_prev = n2, le_next = Some a\<rparr>"
      "dlseg (st_cells st) None (ll_head l) ws n2 (Some b)" by (auto simp: dlseg_append)
    have "b \<noteq> a" "b \<notin> fst ` set ws" "b \<notin> fst ` set vs" "b \<noteq> st_brk st" using dist lt snoc v by auto
    with nx snoc v show ?thesis
      using seg dist sz lt fresh
      by (auto simp: xdebug_llist_insert_prev_def e' Let_def deref_def set_next_def set_prev_def ll_rep_def
          dlseg_append less_Suc_eq simp del: not_None_eq)
  qed
qed

lemma ll_rep_unlink:
  assumes rep: "ll_rep st l (us @ (a, x) # vs)" and ec: "st_cells st a = Some ec"
  shows "\<exists>st1 l1. llist_unlink st l (Some a) ec = Some (st1, l1) \<and>
           dlseg (st_cells st1) None (ll_head l1) (us @ vs) (ll_tail l1) None \<and> ll_dtor l1 = ll_dtor l \<and>
           st_brk st1 = st_brk st \<and> st_destroyed st1 = st_destroyed st"
proof -
  obtain m nx where seg: "dlseg (st_cells st) None (ll_head l) us m (Some a)"
    "st_cells st a = Some \<lparr>le_ptr = x, le_prev = m, le_next = nx\<rparr>"
    "dlseg (st_cells st) (Some a) nx vs (ll_tail l) None"
    using rep by (rule ll_rep_split)
  have dist: "distinct (map fst us)" "distinct (map fst vs)" "a \<notin> fst ` set us" "a \<notin> fst ` set vs"
    "fst ` set us \<inter> fst ` set vs = {}"
    using rep by (auto simp: ll_rep_def)
  have hd: "ll_head l = Some a \<longleftrightarrow> us = []" using seg dist by (cases us) auto
  show ?thesis
  proof (cases us rule: rev_cases)
    case Nil
    with seg dist hd ec show ?thesis
      by (cases vs) (auto simp: llist_unlink_def set_prev_def)
  next
    case (snoc ws v)
    obtain b y where v: "v = (b, y)" by force
    with seg snoc obtain n2 where nx: "m = Some b"
      "st_cells st b = Some \<lparr>le_ptr = y, le_prev = n2, le_next = Some a\<rparr>"
      "dlseg (st_cells st) None (ll_head l) ws n2 (Some b)" by (auto simp: dlseg_append)
    have "b \<noteq> a" "b \<notin> fst ` set ws" "b \<notin> fst ` set vs" using dist snoc v by auto
    with nx snoc v seg dist hd ec show ?thesis
      by (cases vs) (auto simp: llist_unlink_def set_next_def set_prev_def dlseg_append)
  qed
qed

lemma ll_rep_remove:
  assumes rep: "ll_rep st l (us @ (a, x) # vs)"
  shows "\<exists>st' l'. xdebug_llist_remove st l (Some a) = Some (st', l') \<and> ll_rep st' l' (us @ vs) \<and>
           st_cells st' a = None \<and> ll_dtor l' = ll_dtor l \<and>
           st_destroyed st' = (if ll_dtor l then st_destroyed st @ [x] else st_destroyed st)"
proof -
  obtain m nx where ec: "st_cells st a = Some \<lparr>le_ptr = x, le_prev = m, le_next = nx\<rparr>"
    using rep by (rule ll_rep_split)
  from ll_rep_unlink [OF rep ec] obtain st1 l1 where u:
    "llist_unlink st l (Some a) \<lparr>le_ptr = x, le_prev = m, le_next = nx\<rparr> = Some (st1, l1)"
    "dlseg (st_cells st1) None (ll_head l1) (us @ vs) (ll_tail l1) None" "ll_dtor l1 = ll_dtor l"
    "st_brk st1 = st_brk st" "st_destroyed st1 = st_destroyed st" by blast
  have "ll_size l1 = ll_size l" using u(1) by (rule llist_unlink_size)
  moreover have "a \<notin> fst ` set (us @ vs)" "distinct (map fst (us @ vs))" "ll_size l = Suc (length us + length vs)"
    "\<forall>b \<in> fst ` set (us @ vs). b < st_brk st"
    using rep by (auto simp: ll_rep_def)
  ultimately show ?thesis
    using u ec by (auto simp: xdebug_llist_remove_def deref_def ll_rep_def simp del: set_append)
qed

text \<open>Walking \<open>pos\<close> steps reaches the element at that index; one step past the end is NULL.\<close>

lemma llist_walk_next:
  "dlseg (st_cells st) p f xs l None \<Longrightarrow> pos \<le> length xs \<Longrightarrow>
   llist_walk st le_next pos f = Some (if pos < length xs then Some (fst (xs ! pos)) else None)"
proof (induction pos arbitrary: p f xs)
  case 0
  then show ?case by (cases xs) auto
next
  case (Suc pos)
  then obtain a x ys where "xs = (a, x) # ys" by (cases xs) auto
  with Suc show ?case by (auto simp: deref_def)
qed

lemma xdebug_llist_jump_head:
  "ll_rep st l xs \<Longrightarrow> pos \<le> length xs \<Longrightarrow>
   xdebug_llist_jump st l LIST_HEAD pos = Some (if pos < length xs then Some (fst (xs ! pos)) else None)"
  by (auto simp: xdebug_llist_jump_def ll_rep_def dest: llist_walk_next)

lemma llist_walk_next_beyond:
  "dlseg (st_cells st) p f xs l None \<Longrightarrow> length xs < pos \<Longrightarrow> llist_walk st le_next pos f = None"
proof (induction pos arbitrary: p f xs)
  case (Suc pos)
  then show ?case by (cases xs) (auto simp: deref_def)
qed simp

text \<open>Emptying terminates, releases every element from the tail on, and leaves the empty list.\<close>

lemma ll_rep_empty:
  "ll_rep st l xs \<Longrightarrow>
   \<exists>st' l'. xdebug_llist_empty st l = Some (st', l') \<and> ll_rep st' l' [] \<and> ll_dtor l' = ll_dtor l \<and>
     st_destroyed st' = st_destroyed st @ (if ll_dtor l then rev (map snd xs) else [])"
proof (induction xs arbitrary: st l rule: rev_induct)
  case Nil
  then show ?case
    by (subst xdebug_llist_empty.simps) (simp add: xdebug_llist_count_def ll_rep_def)
next
  case (snoc y xs)
  obtain a x where y: "y = (a, x)" by force
  have tail: "ll_tail l = Some a" "ll_size l = Suc (length xs)"
    using snoc.prems y by (auto simp: ll_rep_def dlseg_append)
  obtain st1 l1 where r: "xdebug_llist_remove st l (Some a) = Some (st1, l1)" "ll_rep st1 l1 xs"
    "ll_dtor l1 = ll_dtor l"
    "st_destroyed st1 = (if ll_dtor l then st_destroyed st @ [x] else st_destroyed st)"
    using ll_rep_remove [of st l xs a x "[]"] snoc.prems y by auto
  from snoc.IH [OF r(2)] r tail show ?case
    by (subst xdebug_llist_empty.simps) (auto simp: xdebug_llist_count_def y)
qed

end
