(* ===== verification/Xd_Hash.thy ===== *)
theory Xd_Hash
  imports Xd_Prelude
begin

text \<open>
  The hash table of \<open>src/lib/hash.c\<close> and \<open>src/lib/hash.h\<close>.  Each slot of the table is a chain; the
  chains are the abstract lists that \<open>Xd_Llist\<close> shows the linked list to implement, so appending
  at the tail is \<open>xdebug_llist_insert_next\<close> and dropping an element is \<open>xdebug_llist_remove\<close>.
  \<open>unsigned long\<close> is 64 bits wide.  The calls of the value destructor are recorded in the order
  they happen.  The refinement to a finite map is stated by \<open>hash_map\<close> and packaged for the
  clients in the locale \<open>map_store\<close>.
\<close>

unbundle bit_operations_syntax

section \<open>Keys and hashing\<close>

datatype hash_key = HStr string | HNum "64 word"

definition sext_char :: "char \<Rightarrow> 64 word" where
  "sext_char c = (scast (of_nat (ord c) :: 8 word) :: 64 word)"

definition xdebug_hash_str :: "string \<Rightarrow> 64 word" where
  "xdebug_hash_str key = foldl (\<lambda>h c. (let h = h + push_bit 5 h in h XOR sext_char c)) 5381 key"

definition xdebug_hash_num :: "64 word \<Rightarrow> 64 word" where
  "xdebug_hash_num key =
     (let key = key + NOT (push_bit 15 key);
          key = key XOR drop_bit 10 key;
          key = key + push_bit 3 key;
          key = key XOR drop_bit 6 key;
          key = key + push_bit 11 key;
          key = key XOR drop_bit 16 key
      in key)"

text \<open>\<open>KEY_CREATE\<close>: a string key if one is given, the number otherwise.\<close>

definition KEY_CREATE :: "string option \<Rightarrow> 64 word \<Rightarrow> hash_key" where
  "KEY_CREATE s_key n_key = (case s_key of Some s \<Rightarrow> HStr s | None \<Rightarrow> HNum n_key)"

definition FIND_SLOT :: "nat \<Rightarrow> string option \<Rightarrow> 64 word \<Rightarrow> nat" where
  "FIND_SLOT slots s_key n_key =
     unat (case s_key of Some s \<Rightarrow> xdebug_hash_str s | None \<Rightarrow> xdebug_hash_num n_key) mod slots"

text \<open>
  The code compares the lengths, then the first byte, then all bytes.  For keys of length 0 the
  first-byte test reads past the key; the model takes the two (absent) bytes as equal.
\<close>

fun xdebug_hash_key_compare :: "hash_key \<Rightarrow> hash_key \<Rightarrow> bool" where
  "xdebug_hash_key_compare (HNum n1) (HStr s2) = False"
| "xdebug_hash_key_compare (HNum n1) (HNum n2) = (n1 = n2)"
| "xdebug_hash_key_compare (HStr s1) (HNum n2) = False"
| "xdebug_hash_key_compare (HStr s1) (HStr s2) =
     (length s1 = length s2 \<and> take 1 s1 = take 1 s2 \<and> take (length s1) s1 = take (length s1) s2)"

lemma xdebug_hash_key_compare_eq [simp]: "xdebug_hash_key_compare k1 k2 \<longleftrightarrow> k1 = k2"
  by (cases k1; cases k2) auto

definition xdebug_hash_key_to_str :: "string \<Rightarrow> string \<times> nat" where
  "xdebug_hash_key_to_str s = (s @ [NUL], length s)"

section \<open>The table and its operations\<close>

type_synonym 'v chain = "(hash_key \<times> 'v) list"

record 'v xdebug_hash =
  h_table :: "'v chain list"
  h_dtor :: bool
  h_slots :: nat
  h_size :: nat
  h_destroyed :: "'v list"

definition xdebug_hash_alloc :: "nat \<Rightarrow> bool \<Rightarrow> 'v xdebug_hash" where
  "xdebug_hash_alloc slots dtor =
     \<lparr>h_table = replicate slots [], h_dtor = dtor, h_slots = slots, h_size = 0, h_destroyed = []\<rparr>"

definition call_dtor :: "'v xdebug_hash \<Rightarrow> 'v list \<Rightarrow> 'v xdebug_hash" where
  "call_dtor h vs = (if h_dtor h then h\<lparr>h_destroyed := h_destroyed h @ vs\<rparr> else h)"

text \<open>The scan of a chain: the value of the first element whose key matches.\<close>

fun chain_find :: "hash_key \<Rightarrow> 'v chain \<Rightarrow> 'v option" where
  "chain_find tmp [] = None"
| "chain_find tmp ((k, v) # le) = (if xdebug_hash_key_compare tmp k then Some v else chain_find tmp le)"

fun chain_set :: "hash_key \<Rightarrow> 'v \<Rightarrow> 'v chain \<Rightarrow> 'v chain" where
  "chain_set tmp p [] = []"
| "chain_set tmp p ((k, v) # le) =
     (if xdebug_hash_key_compare tmp k then (k, p) # le else (k, v) # chain_set tmp p le)"

fun chain_remove :: "hash_key \<Rightarrow> 'v chain \<Rightarrow> 'v chain" where
  "chain_remove tmp [] = []"
| "chain_remove tmp ((k, v) # le) = (if xdebug_hash_key_compare tmp k then le else (k, v) # chain_remove tmp le)"

definition xdebug_hash_add_or_update ::
    "'v xdebug_hash \<Rightarrow> string option \<Rightarrow> 64 word \<Rightarrow> 'v \<Rightarrow> 'v xdebug_hash \<times> bool" where
  "xdebug_hash_add_or_update h str_key num_key p =
     (let slot = FIND_SLOT (h_slots h) str_key num_key;
          l = h_table h ! slot;
          tmp = KEY_CREATE str_key num_key
      in case chain_find tmp l of
           Some old \<Rightarrow> ((call_dtor h [old])\<lparr>h_table := (h_table h)[slot := chain_set tmp p l]\<rparr>, True)
         | None \<Rightarrow> (h\<lparr>h_table := (h_table h)[slot := l @ [(tmp, p)]], h_size := h_size h + 1\<rparr>, True))"

definition xdebug_hash_extended_delete ::
    "'v xdebug_hash \<Rightarrow> string option \<Rightarrow> 64 word \<Rightarrow> 'v xdebug_hash \<times> bool" where
  "xdebug_hash_extended_delete h str_key num_key =
     (let slot = FIND_SLOT (h_slots h) str_key num_key;
          l = h_table h ! slot;
          tmp = KEY_CREATE str_key num_key
      in case chain_find tmp l of
           Some old \<Rightarrow>
             ((call_dtor h [old])\<lparr>h_table := (h_table h)[slot := chain_remove tmp l], h_size := h_size h - 1\<rparr>, True)
         | None \<Rightarrow> (h, False))"

definition xdebug_hash_extended_find :: "'v xdebug_hash \<Rightarrow> string option \<Rightarrow> 64 word \<Rightarrow> 'v option" where
  "xdebug_hash_extended_find h str_key num_key =
     chain_find (KEY_CREATE str_key num_key) (h_table h ! FIND_SLOT (h_slots h) str_key num_key)"

text \<open>The callbacks see the elements slot by slot, each chain from its head.\<close>

definition hash_elements :: "'v xdebug_hash \<Rightarrow> (hash_key \<times> 'v) list" where
  "hash_elements h = concat (take (h_slots h) (h_table h))"

definition xdebug_hash_apply :: "'v xdebug_hash \<Rightarrow> 's \<Rightarrow> ('s \<Rightarrow> hash_key \<times> 'v \<Rightarrow> 's) \<Rightarrow> 's" where
  "xdebug_hash_apply h user cb = foldl cb user (hash_elements h)"

definition xdebug_hash_apply_with_argument ::
    "'v xdebug_hash \<Rightarrow> ((hash_key \<times> 'v) list \<Rightarrow> (hash_key \<times> 'v) list) option \<Rightarrow> 's \<Rightarrow>
     ('s \<Rightarrow> hash_key \<times> 'v \<Rightarrow> 's) \<Rightarrow> 's" where
  "xdebug_hash_apply_with_argument h sorter user cb =
     (case sorter of
        Some qsort \<Rightarrow> foldl cb user (qsort (hash_elements h))
      | None \<Rightarrow> foldl cb user (hash_elements h))"

definition xdebug_hash_empty :: "'v xdebug_hash \<Rightarrow> 'v xdebug_hash" where
  "xdebug_hash_empty h =
     (call_dtor h (concat (map (rev \<circ> map snd) (h_table h))))\<lparr>h_table := map (\<lambda>_. []) (h_table h)\<rparr>"

definition xdebug_hash_destroy :: "'v xdebug_hash \<Rightarrow> 'v list" where
  "xdebug_hash_destroy h = h_destroyed (call_dtor h (concat (map (rev \<circ> map snd) (h_table h))))"

text \<open>The macros of \<open>hash.h\<close>.\<close>

definition xdebug_hash_find :: "'v xdebug_hash \<Rightarrow> string \<Rightarrow> 'v option" where
  "xdebug_hash_find h key = xdebug_hash_extended_find h (Some key) 0"

definition xdebug_hash_add :: "'v xdebug_hash \<Rightarrow> string \<Rightarrow> 'v \<Rightarrow> 'v xdebug_hash" where
  "xdebug_hash_add h key p = fst (xdebug_hash_add_or_update h (Some key) 0 p)"

definition xdebug_hash_delete :: "'v xdebug_hash \<Rightarrow> string \<Rightarrow> 'v xdebug_hash \<times> bool" where
  "xdebug_hash_delete h key = xdebug_hash_extended_delete h (Some key) 0"

definition xdebug_hash_index_find :: "'v xdebug_hash \<Rightarrow> 64 word \<Rightarrow> 'v option" where
  "xdebug_hash_index_find h key = xdebug_hash_extended_find h None key"

definition xdebug_hash_index_add :: "'v xdebug_hash \<Rightarrow> 64 word \<Rightarrow> 'v \<Rightarrow> 'v xdebug_hash" where
  "xdebug_hash_index_add h key p = fst (xdebug_hash_add_or_update h None key p)"

section \<open>Well-formed tables are finite maps\<close>

definition key_slot :: "nat \<Rightarrow> hash_key \<Rightarrow> nat" where
  "key_slot slots k = (case k of HStr s \<Rightarrow> FIND_SLOT slots (Some s) 0 | HNum n \<Rightarrow> FIND_SLOT slots None n)"

definition chains_ok :: "'v xdebug_hash \<Rightarrow> bool" where
  "chains_ok h \<longleftrightarrow>
     0 < h_slots h \<and> length (h_table h) = h_slots h \<and>
     (\<forall>i < h_slots h. distinct (map fst (h_table h ! i)) \<and>
                      (\<forall>k \<in> fst ` set (h_table h ! i). key_slot (h_slots h) k = i))"

definition hash_ok :: "'v xdebug_hash \<Rightarrow> bool" where
  "hash_ok h \<longleftrightarrow> chains_ok h \<and> h_size h = length (concat (h_table h))"

definition hash_map :: "'v xdebug_hash \<Rightarrow> hash_key \<Rightarrow> 'v option" where
  "hash_map h k = map_of (h_table h ! key_slot (h_slots h) k) k"

lemma key_slot_create: "key_slot slots (KEY_CREATE s n) = FIND_SLOT slots s n"
  by (cases s) (simp_all add: key_slot_def KEY_CREATE_def FIND_SLOT_def)

lemma key_slot_less: "0 < slots \<Longrightarrow> key_slot slots k < slots"
  by (cases k) (simp_all add: key_slot_def FIND_SLOT_def)

lemma chain_find_map_of: "chain_find k l = map_of l k"
  by (induction l) auto

lemma map_of_chain_set:
  "map_of (chain_set k p l) k' = (if k' = k \<and> map_of l k \<noteq> None then Some p else map_of l k')"
  by (induction l) auto

lemma fst_chain_set [simp]: "map fst (chain_set k p l) = map fst l"
  by (induction l) auto

lemma fst_set_chain_set [simp]: "fst ` set (chain_set k p l) = fst ` set l"
  using fst_chain_set [of k p l] by (metis list.set_map)

lemma length_chain_set [simp]: "length (chain_set k p l) = length l"
  using fst_chain_set [of k p l] by (metis length_map)

lemma map_of_chain_remove:
  "distinct (map fst l) \<Longrightarrow> map_of (chain_remove k l) = (map_of l)(k := None)"
proof (induction l)
  case (Cons a l)
  then show ?case
    by (cases a) (auto simp: fun_eq_iff map_of_eq_None_iff [THEN iffD2])
qed (simp add: fun_eq_iff)

lemma set_chain_remove_subset: "set (chain_remove k l) \<subseteq> set l"
  by (induction l) (auto split: if_splits)

lemma set_chain_remove: "fst ` set (chain_remove k l) \<subseteq> fst ` set l"
  using set_chain_remove_subset by (rule image_mono)

lemma distinct_chain_remove: "distinct (map fst l) \<Longrightarrow> distinct (map fst (chain_remove k l))"
proof (induction l)
  case (Cons a l)
  then show ?case using set_chain_remove [of k l] by (cases a) auto
qed simp

lemma length_chain_remove:
  "map_of l k \<noteq> None \<Longrightarrow> length (chain_remove k l) = length l - 1 \<and> 0 < length l"
  by (induction l) (auto split: if_splits)

lemma length_concat_update:
  "i < length xs \<Longrightarrow> length (concat (xs[i := y])) + length (xs ! i) = length (concat xs) + length y"
  by (induction xs arbitrary: i) (auto split: nat.splits)

lemma length_concat_ge: "i < length xs \<Longrightarrow> length (xs ! i) \<le> length (concat xs)"
  by (induction xs arbitrary: i) (auto simp: nth_Cons trans_le_add2 split: nat.splits)

text \<open>Replacing one chain by one that keeps its slot keeps the table well formed.\<close>

lemma chains_ok_update:
  assumes "chains_ok h" "i < h_slots h" "distinct (map fst c)"
    "\<forall>k \<in> fst ` set c. key_slot (h_slots h) k = i" "h_slots h' = h_slots h"
    "h_table h' = (h_table h)[i := c]"
  shows "chains_ok h'"
  using assms by (auto simp: chains_ok_def nth_list_update)

lemma hash_map_update:
  assumes "chains_ok h" "i = key_slot (h_slots h) k" "map_of c = (map_of (h_table h ! i))(k := v)"
    "h_slots h' = h_slots h" "h_table h' = (h_table h)[i := c]"
  shows "hash_map h' = (hash_map h)(k := v)"
proof
  fix k'
  have "i < length (h_table h)" using assms by (auto simp: chains_ok_def key_slot_less)
  then show "hash_map h' k' = ((hash_map h)(k := v)) k'"
    using assms by (cases "key_slot (h_slots h) k' = i") (auto simp: hash_map_def)
qed

lemma call_dtor_simps [simp]:
  "h_table (call_dtor h vs) = h_table h" "h_slots (call_dtor h vs) = h_slots h"
  "h_size (call_dtor h vs) = h_size h" "h_dtor (call_dtor h vs) = h_dtor h"
  "h_destroyed (call_dtor h vs) = (if h_dtor h then h_destroyed h @ vs else h_destroyed h)"
  by (simp_all add: call_dtor_def)

lemma hash_alloc_ok [simp]:
  "0 < slots \<Longrightarrow> hash_ok (xdebug_hash_alloc slots d)"
  "0 < slots \<Longrightarrow> hash_map (xdebug_hash_alloc slots d) = Map.empty"
  by (auto simp: hash_ok_def chains_ok_def xdebug_hash_alloc_def hash_map_def key_slot_less)

lemma find_hash_map: "xdebug_hash_extended_find h s n = hash_map h (KEY_CREATE s n)"
  by (simp add: xdebug_hash_extended_find_def hash_map_def chain_find_map_of key_slot_create)

lemma hash_slot:
  assumes "hash_ok h"
  shows "FIND_SLOT (h_slots h) s n < h_slots h" "FIND_SLOT (h_slots h) s n < length (h_table h)"
    "distinct (map fst (h_table h ! FIND_SLOT (h_slots h) s n))"
    "k \<in> fst ` set (h_table h ! FIND_SLOT (h_slots h) s n) \<Longrightarrow> key_slot (h_slots h) k = FIND_SLOT (h_slots h) s n"
proof -
  have ch: "chains_ok h" using assms by (simp add: hash_ok_def)
  then show *: "FIND_SLOT (h_slots h) s n < h_slots h"
    by (simp add: chains_ok_def FIND_SLOT_def)
  with ch show "FIND_SLOT (h_slots h) s n < length (h_table h)"
    "distinct (map fst (h_table h ! FIND_SLOT (h_slots h) s n))"
    by (simp_all only: chains_ok_def)
  assume "k \<in> fst ` set (h_table h ! FIND_SLOT (h_slots h) s n)"
  with ch * show "key_slot (h_slots h) k = FIND_SLOT (h_slots h) s n"
    unfolding chains_ok_def by blast
qed

lemma add_hash_map:
  fixes h :: "'v xdebug_hash" and s :: "string option" and n :: "64 word" and p :: 'v
  assumes ok: "hash_ok h"
  defines "k \<equiv> KEY_CREATE s n" and "h' \<equiv> fst (xdebug_hash_add_or_update h s n p)"
  shows "hash_ok h'" "hash_map h' = (hash_map h)(k \<mapsto> p)"
    "h_size h' = (if hash_map h k = None then h_size h + 1 else h_size h)"
    "h_destroyed h' = (if h_dtor h then h_destroyed h @ (case hash_map h k of None \<Rightarrow> [] | Some v \<Rightarrow> [v])
                       else h_destroyed h)"
    "h_slots h' = h_slots h" "h_dtor h' = h_dtor h"
proof -
  let ?i = "FIND_SLOT (h_slots h) s n" and ?l = "h_table h ! FIND_SLOT (h_slots h) s n"
  note slot = hash_slot [OF ok, where s = s and n = n]
  have hm: "hash_map h k = map_of ?l k"
    by (simp add: hash_map_def k_def key_slot_create)
  have ch: "chains_ok h" using ok by (simp add: hash_ok_def)
  define c where "c = (if map_of ?l k = None then ?l @ [(k, p)] else chain_set k p ?l)"
  have h': "h_table h' = (h_table h)[?i := c]" "h_slots h' = h_slots h" "h_dtor h' = h_dtor h"
    "h_size h' = (if map_of ?l k = None then h_size h + 1 else h_size h)"
    "h_destroyed h' = (if h_dtor h then h_destroyed h @ (case map_of ?l k of None \<Rightarrow> [] | Some v \<Rightarrow> [v])
                       else h_destroyed h)"
    by (auto simp: h'_def xdebug_hash_add_or_update_def Let_def chain_find_map_of k_def c_def split: option.split)
  have mem: "map_of ?l k = None \<longleftrightarrow> k \<notin> fst ` set ?l" by (simp add: map_of_eq_None_iff)
  have ks: "key_slot (h_slots h) k = ?i" by (simp add: k_def key_slot_create)
  have c: "distinct (map fst c)" "\<forall>k' \<in> fst ` set c. key_slot (h_slots h) k' = ?i"
  proof -
    show "distinct (map fst c)" using slot(3) mem by (simp add: c_def)
    show "\<forall>k' \<in> fst ` set c. key_slot (h_slots h) k' = ?i"
    proof
      fix k' assume "k' \<in> fst ` set c"
      then have "k' = k \<or> k' \<in> fst ` set ?l" by (simp add: c_def split: if_splits)
      with slot(4) ks show "key_slot (h_slots h) k' = ?i" by blast
    qed
  qed
  show "h_slots h' = h_slots h" "h_dtor h' = h_dtor h" by (fact h')+
  show "h_size h' = (if hash_map h k = None then h_size h + 1 else h_size h)"
    "h_destroyed h' = (if h_dtor h then h_destroyed h @ (case hash_map h k of None \<Rightarrow> [] | Some v \<Rightarrow> [v])
                       else h_destroyed h)"
    by (simp_all only: h' hm)
  have "chains_ok h'"
    by (rule chains_ok_update [OF ch _ c h'(2,1)]) (rule slot(1))
  moreover have "length c = (if map_of ?l k = None then length ?l + 1 else length ?l)"
    by (simp add: c_def)
  ultimately show "hash_ok h'"
    using h'(1,4) ok length_concat_update [OF slot(2), of c] by (simp add: hash_ok_def split: if_splits)
  have "map_of c = (map_of ?l)(k \<mapsto> p)"
  proof
    fix k' show "map_of c k' = ((map_of ?l)(k \<mapsto> p)) k'"
      by (auto simp: c_def map_of_chain_set map_add_def split: option.splits)
  qed
  then show "hash_map h' = (hash_map h)(k \<mapsto> p)"
    using hash_map_update [OF ch ks [symmetric] _ h'(2,1)] by blast
qed

lemma add_returns_true: "snd (xdebug_hash_add_or_update h s n p)"
  by (simp add: xdebug_hash_add_or_update_def Let_def split: option.splits)

lemma delete_hash_map:
  fixes h :: "'v xdebug_hash" and s :: "string option" and n :: "64 word"
  assumes ok: "hash_ok h"
  defines "k \<equiv> KEY_CREATE s n" and "h' \<equiv> fst (xdebug_hash_extended_delete h s n)"
  shows "hash_ok h'" "hash_map h' = (hash_map h)(k := None)"
    "snd (xdebug_hash_extended_delete h s n) \<longleftrightarrow> hash_map h k \<noteq> None"
    "h_destroyed h' = (if h_dtor h then h_destroyed h @ (case hash_map h k of None \<Rightarrow> [] | Some v \<Rightarrow> [v])
                       else h_destroyed h)"
proof -
  let ?i = "FIND_SLOT (h_slots h) s n" and ?l = "h_table h ! FIND_SLOT (h_slots h) s n"
  note slot = hash_slot [OF ok, where s = s and n = n]
  have ks: "key_slot (h_slots h) k = ?i" by (simp add: k_def key_slot_create)
  have hm: "hash_map h k = map_of ?l k" by (simp add: hash_map_def ks)
  have ch: "chains_ok h" using ok by (simp add: hash_ok_def)
  show "snd (xdebug_hash_extended_delete h s n) \<longleftrightarrow> hash_map h k \<noteq> None"
    unfolding hm by (simp add: xdebug_hash_extended_delete_def Let_def chain_find_map_of k_def split: option.splits)
  show "h_destroyed h' = (if h_dtor h then h_destroyed h @ (case hash_map h k of None \<Rightarrow> [] | Some v \<Rightarrow> [v])
                       else h_destroyed h)"
    unfolding hm h'_def
    by (simp add: xdebug_hash_extended_delete_def Let_def chain_find_map_of k_def split: option.splits)
  show "hash_ok h'" "hash_map h' = (hash_map h)(k := None)"
  proof -
    define c where "c = chain_remove k ?l"
    have c: "distinct (map fst c)" "\<forall>k' \<in> fst ` set c. key_slot (h_slots h) k' = ?i"
    proof -
      show "distinct (map fst c)" using slot(3) by (simp add: c_def distinct_chain_remove)
      show "\<forall>k' \<in> fst ` set c. key_slot (h_slots h) k' = ?i"
        using slot(4) set_chain_remove [of k ?l] unfolding c_def by blast
    qed
    have "hash_ok h' \<and> hash_map h' = (hash_map h)(k := None)"
    proof (cases "map_of ?l k")
      case None
      then have "h' = h"
        by (simp add: h'_def xdebug_hash_extended_delete_def Let_def chain_find_map_of k_def)
      with ok hm None show ?thesis by auto
    next
      case (Some v)
      then have h': "h_table h' = (h_table h)[?i := c]" "h_slots h' = h_slots h" "h_size h' = h_size h - 1"
        by (simp_all add: h'_def xdebug_hash_extended_delete_def Let_def chain_find_map_of k_def c_def)
      have "chains_ok h'" by (rule chains_ok_update [OF ch _ c h'(2,1)]) (rule slot(1))
      moreover have "length c = length ?l - 1" "0 < length ?l"
        using length_chain_remove [of ?l k] Some by (simp_all add: c_def)
      moreover have "length (concat (h_table h')) + length ?l = length (concat (h_table h)) + length c"
        unfolding h'(1) by (rule length_concat_update [OF slot(2)])
      ultimately have "hash_ok h'"
        using h'(3) ok unfolding hash_ok_def by linarith
      moreover have "hash_map h' = (hash_map h)(k := None)"
        using hash_map_update [OF ch ks [symmetric] _ h'(2,1)] map_of_chain_remove [OF slot(3), of k]
        by (simp add: c_def)
      ultimately show ?thesis by simp
    qed
    then show "hash_ok h'" "hash_map h' = (hash_map h)(k := None)" by blast+
  qed
qed

section \<open>What the callbacks see\<close>

lemma in_hash_elements:
  assumes "hash_ok h"
  shows "(k, v) \<in> set (hash_elements h) \<longleftrightarrow> hash_map h k = Some v"
proof -
  have ch: "chains_ok h" using assms by (simp add: hash_ok_def)
  let ?i = "key_slot (h_slots h) k"
  have i: "?i < length (h_table h)" "distinct (map fst (h_table h ! ?i))"
    using ch key_slot_less [of "h_slots h" k] by (simp_all only: chains_ok_def)
  have eq: "j = ?i" if "(k, v) \<in> set (h_table h ! j)" "j < length (h_table h)" for j
    using ch that by (force simp: chains_ok_def)
  have "set (hash_elements h) = (\<Union>c \<in> set (h_table h). set c)"
    using ch by (simp add: hash_elements_def chains_ok_def)
  then have "(k, v) \<in> set (hash_elements h) \<longleftrightarrow> (\<exists>j < length (h_table h). (k, v) \<in> set (h_table h ! j))"
    by (metis UN_iff in_set_conv_nth nth_mem)
  then have "(k, v) \<in> set (hash_elements h) \<longleftrightarrow> (k, v) \<in> set (h_table h ! ?i)"
    using eq i(1) by metis
  also have "\<dots> \<longleftrightarrow> hash_map h k = Some v"
    using i(2) by (simp add: hash_map_def)
  finally show ?thesis .
qed

lemma distinct_concat_chains:
  assumes "\<And>i. i < length cs \<Longrightarrow> distinct (map f (cs ! i))"
    and "\<And>i x. i < length cs \<Longrightarrow> x \<in> set (cs ! i) \<Longrightarrow> g (f x) = i + d"
  shows "distinct (map f (concat cs))"
  using assms
proof (induction cs arbitrary: d)
  case (Cons c cs)
  have "distinct (map f (concat cs))"
  proof (rule Cons.IH [of "Suc d"])
    show "i < length cs \<Longrightarrow> distinct (map f (cs ! i))" for i using Cons.prems(1) [of "Suc i"] by simp
    show "i < length cs \<Longrightarrow> x \<in> set (cs ! i) \<Longrightarrow> g (f x) = i + Suc d" for i x
      using Cons.prems(2) [of "Suc i" x] by simp
  qed
  moreover have "distinct (map f c)" using Cons.prems(1) [of 0] by simp
  moreover have "f x \<noteq> f y" if "x \<in> set c" "ys \<in> set cs" "y \<in> set ys" for x y ys
  proof -
    obtain j where "j < length cs" "ys = cs ! j" using \<open>ys \<in> set cs\<close> by (auto simp: in_set_conv_nth)
    then show ?thesis using Cons.prems(2) [of 0 x] Cons.prems(2) [of "Suc j" y] that by force
  qed
  ultimately show ?case by auto
qed simp

lemma hash_elements_distinct:
  assumes "hash_ok h" shows "distinct (map fst (hash_elements h))"
proof -
  have ch: "chains_ok h" using assms by (simp add: hash_ok_def)
  then have "distinct (map fst (concat (h_table h)))"
    by (intro distinct_concat_chains [where g = "key_slot (h_slots h)" and d = 0])
      (auto simp: chains_ok_def)
  with ch show ?thesis by (simp add: hash_elements_def chains_ok_def)
qed

lemma hash_elements_map_of:
  "hash_ok h \<Longrightarrow> map_of (hash_elements h) = hash_map h"
proof
  fix k assume ok: "hash_ok h"
  show "map_of (hash_elements h) k = hash_map h k"
    using in_hash_elements [OF ok, of k] hash_elements_distinct [OF ok]
    by (cases "hash_map h k") (auto simp: map_of_eq_None_iff)
qed

lemma hash_size_card:
  assumes "hash_ok h" shows "h_size h = card (dom (hash_map h))"
proof -
  have "dom (hash_map h) = fst ` set (hash_elements h)"
    using hash_elements_map_of [OF assms] dom_map_of_conv_image_fst by metis
  also have "card \<dots> = length (hash_elements h)"
    using hash_elements_distinct [OF assms] distinct_card [of "map fst (hash_elements h)"] by simp
  finally show ?thesis using assms by (simp add: hash_ok_def chains_ok_def hash_elements_def)
qed

lemma hash_destroy_all:
  assumes "hash_ok h" "h_dtor h"
  shows "\<exists>vs. xdebug_hash_destroy h = h_destroyed h @ vs \<and> set vs = ran (hash_map h) \<and> length vs = h_size h"
proof (intro exI conjI)
  let ?vs = "concat (map (rev \<circ> map snd) (h_table h))"
  show "xdebug_hash_destroy h = h_destroyed h @ ?vs" using assms by (simp add: xdebug_hash_destroy_def)
  have "set ?vs = snd ` set (hash_elements h)"
    using assms by (auto simp: hash_elements_def hash_ok_def chains_ok_def)
  also have "\<dots> = ran (hash_map h)"
    using in_hash_elements [OF assms(1)] by (force simp: ran_def)
  finally show "set ?vs = ran (hash_map h)" .
  show "length ?vs = h_size h"
    using assms by (simp add: hash_ok_def length_concat o_def)
qed

text \<open>
  \<open>xdebug_hash_empty\<close> releases every element but leaves the element count as it was, so the count is
  wrong afterwards unless the table was empty.
\<close>

lemma hash_empty_map: "chains_ok h \<Longrightarrow> chains_ok (xdebug_hash_empty h) \<and> hash_map (xdebug_hash_empty h) = Map.empty"
  by (auto simp: xdebug_hash_empty_def chains_ok_def hash_map_def key_slot_less)

lemma hash_empty_size: "hash_ok h \<Longrightarrow> hash_ok (xdebug_hash_empty h) \<longleftrightarrow> h_size h = 0"
proof -
  assume ok: "hash_ok h"
  have "concat (h_table (xdebug_hash_empty h)) = []" "h_size (xdebug_hash_empty h) = h_size h"
    by (simp_all add: xdebug_hash_empty_def)
  with ok hash_empty_map [of h] show ?thesis by (simp add: hash_ok_def del: concat_eq_Nil_conv)
qed

section \<open>String keys\<close>

text \<open>Replacing what a stored pointer points to: the table itself does not notice.\<close>

definition hash_poke :: "'v xdebug_hash \<Rightarrow> string \<Rightarrow> 'v \<Rightarrow> 'v xdebug_hash" where
  "hash_poke h key v = (xdebug_hash_add (h\<lparr>h_dtor := False\<rparr>) key v)\<lparr>h_dtor := h_dtor h\<rparr>"

lemma find_str_map: "xdebug_hash_find h key = hash_map h (HStr key)"
  by (simp add: xdebug_hash_find_def find_hash_map KEY_CREATE_def)

lemma add_str_map:
  assumes "hash_ok h"
  shows "hash_ok (xdebug_hash_add h key v)" "hash_map (xdebug_hash_add h key v) = (hash_map h)(HStr key \<mapsto> v)"
    "h_dtor (xdebug_hash_add h key v) = h_dtor h"
  using add_hash_map [OF assms, of "Some key" 0 v] by (simp_all add: xdebug_hash_add_def KEY_CREATE_def)

lemma hash_ok_dtor [simp]: "hash_ok (h\<lparr>h_dtor := d\<rparr>) = hash_ok h" "hash_map (h\<lparr>h_dtor := d\<rparr>) = hash_map h"
  by (simp_all add: hash_ok_def chains_ok_def hash_map_def fun_eq_iff)

lemma poke_map:
  assumes "hash_ok h"
  shows "hash_ok (hash_poke h key v)" "hash_map (hash_poke h key v) = (hash_map h)(HStr key \<mapsto> v)"
    "h_destroyed (hash_poke h key v) = h_destroyed h"
  using add_str_map [of "h\<lparr>h_dtor := False\<rparr>" key v] add_hash_map(4) [of "h\<lparr>h_dtor := False\<rparr>" "Some key" 0 v] assms
  by (simp_all add: hash_poke_def xdebug_hash_add_def)

section \<open>The interface the clients use\<close>

locale map_store =
  fixes find :: "'h \<Rightarrow> 'k \<Rightarrow> 'v option"
    and add :: "'h \<Rightarrow> 'k \<Rightarrow> 'v \<Rightarrow> 'h"
    and del :: "'h \<Rightarrow> 'k \<Rightarrow> 'h"
    and ok :: "'h \<Rightarrow> bool"
  assumes ok_add: "ok h \<Longrightarrow> ok (add h k v)"
    and ok_del: "ok h \<Longrightarrow> ok (del h k)"
    and find_add: "ok h \<Longrightarrow> find (add h k v) k' = (if k' = k then Some v else find h k')"
    and find_del: "ok h \<Longrightarrow> find (del h k) k' = (if k' = k then None else find h k')"
begin

definition add_all :: "'h \<Rightarrow> ('k \<times> 'v) list \<Rightarrow> 'h" where
  "add_all h kvs = foldl (\<lambda>h (k, v). add h k v) h kvs"

lemma ok_add_all: "ok h \<Longrightarrow> ok (add_all h kvs)"
  by (induction kvs arbitrary: h) (auto simp: add_all_def ok_add)

lemma find_add_all: "ok h \<Longrightarrow> find (add_all h kvs) k = (find h ++ map_of (rev kvs)) k"
  by (induction kvs arbitrary: h)
    (auto simp: add_all_def find_add ok_add map_add_def split: option.splits)

lemma find_del_add: "ok h \<Longrightarrow> find h k = None \<Longrightarrow> find (del (add h k v) k) k' = find h k'"
  by (auto simp: find_add find_del ok_add)

end

interpretation hash_str_store: map_store xdebug_hash_find xdebug_hash_add
    "\<lambda>h k. fst (xdebug_hash_delete h k)" hash_ok
  by unfold_locales
    (simp_all add: xdebug_hash_find_def xdebug_hash_add_def xdebug_hash_delete_def find_hash_map
      add_hash_map delete_hash_map KEY_CREATE_def)

end
