(* ===== verification/Xd_Set.thy ===== *)
theory Xd_Set
  imports Xd_Prelude
begin

text \<open>
  The bit sets of \<open>src/lib/set.c\<close>: \<open>xdebug_set\<close> (one bit per position, optionally growing) and
  \<open>xdebug_mset\<close> (one byte of flags per position).  \<open>unsigned int\<close> is 32 bits wide.  An access outside
  the allocated bytes is \<open>None\<close>.
\<close>

unbundle bit_operations_syntax

type_synonym byte = "8 word"

section \<open>Bit sets\<close>

definition MEM_SIZE :: "nat \<Rightarrow> nat" where
  "MEM_SIZE s = s div 8 + (if s mod 8 \<noteq> 0 then 1 else 0)"

record xdebug_set =
  set_size :: nat
  set_info :: "byte list"
  set_resizable :: bool

definition uint_succ :: "nat \<Rightarrow> nat" where
  "uint_succ p = (p + 1) mod 2 ^ 32"

text \<open>\<open>calloc\<close> the new size, copy the old bytes over; copying more than fits is \<open>None\<close>.\<close>

definition set_resize :: "xdebug_set \<Rightarrow> nat \<Rightarrow> xdebug_set option" where
  "set_resize st new_size =
     (let old_mem_size = MEM_SIZE (set_size st); new_mem_size = MEM_SIZE new_size in
      if new_mem_size = old_mem_size then Some (st\<lparr>set_size := new_size\<rparr>)
      else if old_mem_size > new_mem_size then None
      else Some (st\<lparr>set_info := take old_mem_size (set_info st) @ replicate (new_mem_size - old_mem_size) 0,
                    set_size := new_size\<rparr>))"

definition xdebug_set_create :: "nat \<Rightarrow> xdebug_set option" where
  "xdebug_set_create n = set_resize \<lparr>set_size = 0, set_info = [], set_resizable = False\<rparr> n"

definition xdebug_set_create_resizable :: "xdebug_set option" where
  "xdebug_set_create_resizable = map_option (\<lambda>s. s\<lparr>set_resizable := True\<rparr>) (xdebug_set_create 0)"

definition xdebug_set_clear :: "xdebug_set \<Rightarrow> xdebug_set" where
  "xdebug_set_clear st =
     st\<lparr>set_info := replicate (MEM_SIZE (set_size st)) 0 @ drop (MEM_SIZE (set_size st)) (set_info st)\<rparr>"

definition SET_RESIZE_AS_NEEDED :: "xdebug_set \<Rightarrow> nat \<Rightarrow> xdebug_set option" where
  "SET_RESIZE_AS_NEEDED s p =
     (if p \<ge> set_size s \<and> set_resizable s then set_resize s (uint_succ p) else Some s)"

definition set_update_byte :: "xdebug_set \<Rightarrow> nat \<Rightarrow> (byte \<Rightarrow> byte) \<Rightarrow> xdebug_set option" where
  "set_update_byte st i f =
     (if i < length (set_info st) then Some (st\<lparr>set_info := (set_info st)[i := f (set_info st ! i)]\<rparr>) else None)"

definition xdebug_set_add :: "xdebug_set \<Rightarrow> nat \<Rightarrow> xdebug_set option" where
  "xdebug_set_add st position =
     (case SET_RESIZE_AS_NEEDED st position of None \<Rightarrow> None
      | Some s1 \<Rightarrow> (let bit = position mod 8 in
                    set_update_byte s1 (position div 8) (\<lambda>b. b OR push_bit bit 1)))"

definition xdebug_set_remove :: "xdebug_set \<Rightarrow> nat \<Rightarrow> xdebug_set option" where
  "xdebug_set_remove st position =
     (case SET_RESIZE_AS_NEEDED st position of None \<Rightarrow> None
      | Some s1 \<Rightarrow> (let bit = position mod 8 in
                    set_update_byte s1 (position div 8) (\<lambda>b. b AND NOT (push_bit bit 1))))"

definition xdebug_set_in :: "xdebug_set \<Rightarrow> nat \<Rightarrow> int option" where
  "xdebug_set_in st position =
     (if position \<ge> set_size st then Some 0
      else if position div 8 < length (set_info st)
      then Some (uint (set_info st ! (position div 8) AND push_bit (position mod 8) 1))
      else None)"

text \<open>The positions \<open>xdebug_set_dump\<close> prints.\<close>

definition xdebug_set_dump :: "xdebug_set \<Rightarrow> nat list" where
  "xdebug_set_dump st = filter (\<lambda>i. case xdebug_set_in st i of Some v \<Rightarrow> v \<noteq> 0 | None \<Rightarrow> False) [0..<set_size st]"

definition set_ok :: "xdebug_set \<Rightarrow> bool" where
  "set_ok st \<longleftrightarrow> set_size st < 2 ^ 32 \<and> length (set_info st) = MEM_SIZE (set_size st) \<and>
     (\<forall>p. set_size st \<le> p \<and> p < 8 * MEM_SIZE (set_size st) \<longrightarrow> \<not> bit (set_info st ! (p div 8)) (p mod 8))"

definition elems :: "xdebug_set \<Rightarrow> nat set" where
  "elems st = {p. p < set_size st \<and> bit (set_info st ! (p div 8)) (p mod 8)}"

lemma MEM_SIZE_alt: "\<exists>q r. s = 8 * q + r \<and> r < 8 \<and> MEM_SIZE s = q + (if r = 0 then 0 else 1)"
  by (rule exI [of _ "s div 8"], rule exI [of _ "s mod 8"]) (simp add: MEM_SIZE_def)

lemma MEM_SIZE_bounds: "s \<le> 8 * MEM_SIZE s" "8 * MEM_SIZE s < s + 8"
  using MEM_SIZE_alt [of s] by (auto split: if_splits)

lemma index_less_8: "p div 8 < n \<longleftrightarrow> p < 8 * (n::nat)"
  by (simp add: div_less_iff_less_mult mult.commute)

lemma MEM_SIZE_mono: "s \<le> t \<Longrightarrow> MEM_SIZE s \<le> MEM_SIZE t"
  using MEM_SIZE_bounds [of s] MEM_SIZE_bounds [of t] by linarith

lemma MEM_SIZE_index: "p < s \<Longrightarrow> p div 8 < MEM_SIZE s"
  using MEM_SIZE_bounds [of s] by (simp add: index_less_8)

lemma bit_pow2_byte: "bit (2 ^ k :: byte) j \<longleftrightarrow> j = k \<and> k < 8"
  by (auto simp: bit_exp_iff)

lemma and_bit_zero_iff:
  assumes "k < 8" shows "(b AND 2 ^ k = (0::byte)) \<longleftrightarrow> \<not> bit b k"
proof
  assume "b AND 2 ^ k = 0"
  then have "\<not> bit (b AND 2 ^ k) k" by simp
  then show "\<not> bit b k" using assms by (simp add: bit_and_iff bit_pow2_byte)
next
  assume "\<not> bit b k"
  then show "b AND 2 ^ k = 0" by (auto intro!: bit_eqI simp: bit_and_iff bit_pow2_byte)
qed

lemma bit_or_mask: "k < 8 \<Longrightarrow> bit ((b::byte) OR 2 ^ k) j \<longleftrightarrow> bit b j \<or> j = k"
  by (auto simp: bit_or_iff bit_pow2_byte)

lemma bit_and_not_mask: "k < 8 \<Longrightarrow> j < 8 \<Longrightarrow> bit ((b::byte) AND NOT (2 ^ k)) j \<longleftrightarrow> bit b j \<and> j \<noteq> k"
  by (auto simp: bit_and_iff bit_not_iff bit_pow2_byte)

text \<open>Two positions are the same bit exactly when byte and bit agree.\<close>

lemma position_eq: "p div 8 = q div 8 \<Longrightarrow> p mod 8 = q mod 8 \<Longrightarrow> p = (q::nat)"
  by (metis div_mult_mod_eq)

definition holds :: "byte list \<Rightarrow> nat \<Rightarrow> bool" where
  "holds m p \<longleftrightarrow> p div 8 < length m \<and> bit (m ! (p div 8)) (p mod 8)"

lemma set_ok_holds:
  "set_ok st \<longleftrightarrow> set_size st < 2 ^ 32 \<and> length (set_info st) = MEM_SIZE (set_size st) \<and>
     (\<forall>p. holds (set_info st) p \<longrightarrow> p < set_size st)"
  by (auto simp: set_ok_def holds_def index_less_8 not_less)

lemma elems_holds: "set_ok st \<Longrightarrow> elems st = {p. holds (set_info st) p}"
  by (auto simp: elems_def set_ok_holds holds_def MEM_SIZE_index)

lemma holds_update_or:
  "i = p div 8 \<Longrightarrow> i < length m \<Longrightarrow>
   holds (m[i := m ! i OR push_bit (p mod 8) 1]) q \<longleftrightarrow> holds m q \<or> q = p"
  by (cases "q div 8 = i") (auto simp: holds_def bit_or_mask dest: position_eq)

lemma holds_update_and:
  "i = p div 8 \<Longrightarrow> i < length m \<Longrightarrow>
   holds (m[i := m ! i AND NOT (push_bit (p mod 8) 1)]) q \<longleftrightarrow> holds m q \<and> q \<noteq> p"
  by (cases "q div 8 = i") (auto simp: holds_def bit_and_not_mask dest: position_eq)

lemma holds_pad: "holds (m @ replicate k 0) q \<longleftrightarrow> holds m q"
  by (auto simp: holds_def nth_append)

lemma set_resize_ok:
  assumes "set_ok st" "set_size st \<le> n" "n < 2 ^ 32"
  shows "\<exists>st'. set_resize st n = Some st' \<and> set_ok st' \<and> elems st' = elems st \<and> set_size st' = n \<and>
           set_resizable st' = set_resizable st"
proof (cases "MEM_SIZE n = MEM_SIZE (set_size st)")
  case True
  let ?st = "st\<lparr>set_size := n\<rparr>"
  have "set_ok ?st" using assms True by (auto simp: set_ok_holds)
  moreover have "elems ?st = elems st"
    using elems_holds [OF \<open>set_ok ?st\<close>] elems_holds [OF assms(1)] by simp
  ultimately show ?thesis using True by (simp add: set_resize_def Let_def)
next
  case False
  let ?st = "st\<lparr>set_info := set_info st @ replicate (MEM_SIZE n - MEM_SIZE (set_size st)) 0, set_size := n\<rparr>"
  have le: "MEM_SIZE (set_size st) < MEM_SIZE n" using MEM_SIZE_mono [OF assms(2)] False by simp
  have ok: "set_ok ?st" using assms le by (auto simp: set_ok_holds holds_pad)
  moreover have "elems ?st = elems st"
    using elems_holds [OF ok] elems_holds [OF assms(1)] by (simp add: holds_pad)
  ultimately show ?thesis using False le assms(1) by (simp add: set_resize_def Let_def set_ok_def)
qed

lemma set_create_ok:
  assumes "n < 2 ^ 32"
  shows "\<exists>st. xdebug_set_create n = Some st \<and> set_ok st \<and> elems st = {} \<and> set_size st = n \<and> \<not> set_resizable st"
proof -
  let ?e = "\<lparr>set_size = 0, set_info = [], set_resizable = False\<rparr>"
  have "set_ok ?e" "elems ?e = {}" by (simp_all add: set_ok_holds holds_def MEM_SIZE_def elems_def)
  with set_resize_ok [of ?e n] assms show ?thesis by (simp add: xdebug_set_create_def)
qed

lemma resize_as_needed_ok:
  assumes "set_ok st" "p < set_size st \<or> set_resizable st \<and> p < 2 ^ 32 - 1"
  shows "\<exists>st'. SET_RESIZE_AS_NEEDED st p = Some st' \<and> set_ok st' \<and> elems st' = elems st \<and>
           set_size st' = max (set_size st) (p + 1) \<and> set_resizable st' = set_resizable st"
proof (cases "p < set_size st")
  case True
  with assms show ?thesis by (simp add: SET_RESIZE_AS_NEEDED_def max_def)
next
  case False
  with assms have "set_resizable st" "uint_succ p = p + 1" "p + 1 < 2 ^ 32" by (auto simp: uint_succ_def)
  with False set_resize_ok [of st "p + 1"] assms(1) show ?thesis
    by (simp add: SET_RESIZE_AS_NEEDED_def max_def)
qed

lemma set_update_ok:
  assumes "set_ok st" "p < set_size st"
    "\<And>q. holds ((set_info st)[p div 8 := f (set_info st ! (p div 8))]) q \<longleftrightarrow> q \<in> E"
    "E \<subseteq> insert p (elems st)"
  shows "\<exists>st'. set_update_byte st (p div 8) f = Some st' \<and> set_ok st' \<and> elems st' = E \<and> set_size st' = set_size st"
proof -
  let ?st = "st\<lparr>set_info := (set_info st)[p div 8 := f (set_info st ! (p div 8))]\<rparr>"
  have i: "p div 8 < length (set_info st)"
    using assms(1,2) by (simp add: set_ok_def MEM_SIZE_index)
  have "E \<subseteq> {q. q < set_size st}" using assms(2,4) by (auto simp: elems_def)
  then have ok: "set_ok ?st" using assms(1,3) by (auto simp: set_ok_holds)
  moreover have "elems ?st = E" using elems_holds [OF ok] assms(3) by simp
  ultimately show ?thesis using i by (simp add: set_update_byte_def)
qed

lemma xdebug_set_add_ok:
  assumes "set_ok st" "p < set_size st \<or> set_resizable st \<and> p < 2 ^ 32 - 1"
  shows "\<exists>st'. xdebug_set_add st p = Some st' \<and> set_ok st' \<and> elems st' = insert p (elems st) \<and>
           set_size st' = max (set_size st) (p + 1)"
proof -
  from resize_as_needed_ok [OF assms] obtain s1 where s1: "SET_RESIZE_AS_NEEDED st p = Some s1" "set_ok s1"
    "elems s1 = elems st" "set_size s1 = max (set_size st) (p + 1)" by blast
  have p: "p < set_size s1" using s1 by simp
  then have i: "p div 8 < length (set_info s1)" using s1 by (simp add: set_ok_def MEM_SIZE_index)
  have "holds ((set_info s1)[p div 8 := set_info s1 ! (p div 8) OR push_bit (p mod 8) 1]) q \<longleftrightarrow>
      q \<in> insert p (elems s1)" for q
    using holds_update_or [OF refl i] elems_holds [OF s1(2)] by auto
  with set_update_ok [OF s1(2) p, of "\<lambda>b. b OR push_bit (p mod 8) 1" "insert p (elems s1)"] s1
  show ?thesis by (simp add: xdebug_set_add_def Let_def)
qed

lemma xdebug_set_remove_ok:
  assumes "set_ok st" "p < set_size st \<or> set_resizable st \<and> p < 2 ^ 32 - 1"
  shows "\<exists>st'. xdebug_set_remove st p = Some st' \<and> set_ok st' \<and> elems st' = elems st - {p} \<and>
           set_size st' = max (set_size st) (p + 1)"
proof -
  from resize_as_needed_ok [OF assms] obtain s1 where s1: "SET_RESIZE_AS_NEEDED st p = Some s1" "set_ok s1"
    "elems s1 = elems st" "set_size s1 = max (set_size st) (p + 1)" by blast
  have p: "p < set_size s1" using s1 by simp
  then have i: "p div 8 < length (set_info s1)" using s1 by (simp add: set_ok_def MEM_SIZE_index)
  have "holds ((set_info s1)[p div 8 := set_info s1 ! (p div 8) AND NOT (push_bit (p mod 8) 1)]) q \<longleftrightarrow>
      q \<in> elems s1 - {p}" for q
    using holds_update_and [OF refl i] elems_holds [OF s1(2)] by auto
  with set_update_ok [OF s1(2) p, of "\<lambda>b. b AND NOT (push_bit (p mod 8) 1)" "elems s1 - {p}"] s1
  show ?thesis by (auto simp: xdebug_set_remove_def Let_def)
qed

lemma xdebug_set_in_ok:
  assumes "set_ok st"
  shows "\<exists>v. xdebug_set_in st p = Some v \<and> (v \<noteq> 0 \<longleftrightarrow> p \<in> elems st)"
  using assms by (auto simp: xdebug_set_in_def elems_def set_ok_def MEM_SIZE_index and_bit_zero_iff uint_0_iff)

lemma xdebug_set_clear_ok:
  assumes "set_ok st"
  shows "set_ok (xdebug_set_clear st) \<and> elems (xdebug_set_clear st) = {} \<and>
         set_size (xdebug_set_clear st) = set_size st"
  using assms by (auto simp: xdebug_set_clear_def set_ok_holds holds_def elems_def MEM_SIZE_index)

lemma xdebug_set_dump_elems: "set_ok st \<Longrightarrow> set (xdebug_set_dump st) = elems st"
proof -
  assume ok: "set_ok st"
  have "(case xdebug_set_in st i of Some v \<Rightarrow> v \<noteq> 0 | None \<Rightarrow> False) \<longleftrightarrow> i \<in> elems st" for i
    using xdebug_set_in_ok [OF ok, of i] by auto
  then show ?thesis by (auto simp: xdebug_set_dump_def elems_def)
qed

section \<open>Flag sets\<close>

record xdebug_mset =
  mset_size :: nat
  mset_info :: "byte list"

definition mset_resize :: "xdebug_mset \<Rightarrow> nat \<Rightarrow> xdebug_mset option" where
  "mset_resize mst new_size =
     (if mset_size mst > new_size then None
      else Some \<lparr>mset_size = new_size,
        mset_info = take (mset_size mst) (mset_info mst) @ replicate (new_size - mset_size mst) 0\<rparr>)"

definition xdebug_mset_create :: xdebug_mset where
  "xdebug_mset_create = \<lparr>mset_size = 0, mset_info = []\<rparr>"

definition xdebug_mset_add :: "xdebug_mset \<Rightarrow> nat \<Rightarrow> nat \<Rightarrow> xdebug_mset option" where
  "xdebug_mset_add mst pos bt =
     (case (if pos \<ge> mset_size mst then mset_resize mst (uint_succ pos) else Some mst) of None \<Rightarrow> None
      | Some m1 \<Rightarrow>
         if pos < length (mset_info m1)
         then Some (m1\<lparr>mset_info := (mset_info m1)[pos := mset_info m1 ! pos OR push_bit bt 1]\<rparr>) else None)"

definition xdebug_mset_in :: "xdebug_mset \<Rightarrow> nat \<Rightarrow> nat \<Rightarrow> int option" where
  "xdebug_mset_in mst pos bt =
     (if pos \<ge> mset_size mst then Some 0
      else if pos < length (mset_info mst) then Some (uint (mset_info mst ! pos AND push_bit bt 1)) else None)"

definition xdebug_mset_clear :: "xdebug_mset \<Rightarrow> xdebug_mset" where
  "xdebug_mset_clear mst = mst\<lparr>mset_info := replicate (mset_size mst) 0\<rparr>"

definition mset_ok :: "xdebug_mset \<Rightarrow> bool" where
  "mset_ok mst \<longleftrightarrow> mset_size mst < 2 ^ 32 \<and> length (mset_info mst) = mset_size mst"

lemma xdebug_mset_add_ok:
  assumes "mset_ok mst" "pos < 2 ^ 32 - 1" "bt < 8"
  shows "\<exists>m'. xdebug_mset_add mst pos bt = Some m' \<and> mset_ok m' \<and>
     (\<forall>q c. c < 8 \<longrightarrow> (\<exists>v. xdebug_mset_in m' q c = Some v \<and>
        (v \<noteq> 0 \<longleftrightarrow> (q = pos \<and> c = bt) \<or> (\<exists>w. xdebug_mset_in mst q c = Some w \<and> w \<noteq> 0))))"
proof -
  have u: "uint_succ pos = pos + 1" using assms(2) by (simp add: uint_succ_def)
  show ?thesis
  proof (cases "pos < mset_size mst")
    case True
    with assms show ?thesis
      by (auto simp: xdebug_mset_add_def mset_ok_def xdebug_mset_in_def and_bit_zero_iff uint_0_iff bit_or_mask
          nth_list_update)
  next
    case False
    with assms u show ?thesis
      by (auto simp: xdebug_mset_add_def mset_resize_def mset_ok_def xdebug_mset_in_def and_bit_zero_iff uint_0_iff
          bit_or_mask bit_pow2_byte nth_list_update nth_append)
  qed
qed

section \<open>The interface the clients use\<close>

locale growing_set =
  fixes ins :: "'s \<Rightarrow> nat \<Rightarrow> 's option" and mem :: "'s \<Rightarrow> nat \<Rightarrow> bool" and ok :: "'s \<Rightarrow> bool"
    and room :: "'s \<Rightarrow> nat \<Rightarrow> bool"
  assumes ins_ok: "ok s \<Longrightarrow> room s p \<Longrightarrow>
      \<exists>s'. ins s p = Some s' \<and> ok s' \<and> (\<forall>q. mem s' q \<longleftrightarrow> mem s q \<or> q = p) \<and> (\<forall>q. room s q \<longrightarrow> room s' q)"
begin

fun ins_all :: "'s \<Rightarrow> nat list \<Rightarrow> 's option" where
  "ins_all s [] = Some s"
| "ins_all s (p # ps) = (case ins s p of None \<Rightarrow> None | Some s' \<Rightarrow> ins_all s' ps)"

lemma ins_all_ok:
  "ok s \<Longrightarrow> (\<forall>p \<in> set ps. room s p) \<Longrightarrow>
   \<exists>s'. ins_all s ps = Some s' \<and> ok s' \<and> (\<forall>q. mem s' q \<longleftrightarrow> mem s q \<or> q \<in> set ps)"
proof (induction ps arbitrary: s)
  case (Cons p ps)
  then obtain s1 where s1: "ins s p = Some s1" "ok s1" "\<forall>q. mem s1 q \<longleftrightarrow> mem s q \<or> q = p"
    "\<forall>q. room s q \<longrightarrow> room s1 q" using ins_ok [of s p] by auto
  with Cons.prems(2) have "\<forall>q \<in> set ps. room s1 q" by simp
  with Cons.IH [OF s1(2)] s1 show ?case by auto
qed simp

end

interpretation bits: growing_set xdebug_set_add "\<lambda>s p. p \<in> elems s" set_ok "\<lambda>s p. p < set_size s"
  using xdebug_set_add_ok by unfold_locales fastforce

end
