(* ===== verification/Xd_Vector.thy ===== *)
theory Xd_Vector
  imports Xd_Prelude
begin

text \<open>
  The growable array of \<open>src/lib/vector.h\<close>, which holds the call stack and the line ranges of the path
  maps.  \<open>vec_data\<close> is the allocation, one entry per element slot; \<open>None\<close> is a slot nobody has written.
  An access to a slot outside the allocation, or a read of a slot that was never written, is \<open>None\<close>.
\<close>

section \<open>The structure and its operations\<close>

record 'a xdebug_vector =
  vec_capacity :: nat
  vec_count :: nat
  vec_data :: "'a option list"

definition vec_realloc :: "'a option list \<Rightarrow> nat \<Rightarrow> 'a option list" where
  "vec_realloc m n = take n m @ replicate (n - length m) None"

definition xdebug_grow_vector_if_needed :: "'a xdebug_vector \<Rightarrow> 'a xdebug_vector" where
  "xdebug_grow_vector_if_needed v =
     (if vec_count v + 1 > vec_capacity v
      then let cap = (if vec_capacity v = 0 then 32 else vec_capacity v * 3 div 2) in
           v\<lparr>vec_capacity := cap, vec_data := vec_realloc (vec_data v) cap\<rparr>
      else v)"

text \<open>The new top slot is cleared; \<open>z\<close> is the element whose bytes are all zero.\<close>

definition xdebug_vector_push :: "'a \<Rightarrow> 'a xdebug_vector \<Rightarrow> 'a xdebug_vector option" where
  "xdebug_vector_push z v =
     (let v1 = xdebug_grow_vector_if_needed v;
          v2 = v1\<lparr>vec_count := vec_count v1 + 1\<rparr>;
          top = vec_count v2 - 1
      in if top < length (vec_data v2) then Some (v2\<lparr>vec_data := (vec_data v2)[top := Some z]\<rparr>) else None)"

text \<open>The clients fill in the element that \<open>push\<close> returned a pointer to.\<close>

definition vector_store :: "'a xdebug_vector \<Rightarrow> nat \<Rightarrow> 'a \<Rightarrow> 'a xdebug_vector" where
  "vector_store v i x = v\<lparr>vec_data := (vec_data v)[i := Some x]\<rparr>"

text \<open>\<open>pop\<close> hands the last element to the destructor.\<close>

definition xdebug_vector_pop :: "'a xdebug_vector \<Rightarrow> ('a \<times> 'a xdebug_vector) option" where
  "xdebug_vector_pop v =
     (if vec_count v = 0 \<or> vec_count v - 1 \<ge> length (vec_data v) then None
      else (case vec_data v ! (vec_count v - 1) of None \<Rightarrow> None
            | Some x \<Rightarrow> Some (x, v\<lparr>vec_count := vec_count v - 1\<rparr>)))"

text \<open>The result is the slot's index, \<open>None\<close> where the code returns \<open>NULL\<close>.\<close>

definition xdebug_vector_element_get :: "'a xdebug_vector option \<Rightarrow> nat \<Rightarrow> nat option" where
  "xdebug_vector_element_get ov index =
     (case ov of None \<Rightarrow> None | Some v \<Rightarrow> if index \<ge> vec_count v then None else Some index)"

definition XDEBUG_VECTOR_HEAD :: "'a xdebug_vector \<Rightarrow> nat option" where
  "XDEBUG_VECTOR_HEAD v = xdebug_vector_element_get (Some v) 0"

definition XDEBUG_VECTOR_TAIL :: "'a xdebug_vector \<Rightarrow> nat option" where
  "XDEBUG_VECTOR_TAIL v = xdebug_vector_element_get (Some v) ((vec_count v + 2 ^ 64 - 1) mod 2 ^ 64)"

definition xdebug_vector_element_is_valid :: "'a xdebug_vector \<Rightarrow> int \<Rightarrow> bool" where
  "xdebug_vector_element_is_valid v e = (if e < 0 then False else if e > int (vec_count v) - 1 then False else True)"

definition xdebug_vector_alloc :: "'a xdebug_vector" where
  "xdebug_vector_alloc = \<lparr>vec_capacity = 0, vec_count = 0, vec_data = []\<rparr>"

text \<open>The elements given to the destructor, last one first.\<close>

function xdebug_vector_destroy :: "'a xdebug_vector \<Rightarrow> 'a list option" where
  "xdebug_vector_destroy v =
     (if vec_count v = 0 then Some []
      else (case xdebug_vector_pop v of None \<Rightarrow> None
            | Some (x, v') \<Rightarrow> map_option ((#) x) (xdebug_vector_destroy v')))"
  by pat_completeness auto
termination
  by (relation "measure vec_count") (auto simp: xdebug_vector_pop_def split: if_splits option.splits)

declare xdebug_vector_destroy.simps [simp del]

definition xdebug_vector_clone :: "'a xdebug_vector \<Rightarrow> 'a xdebug_vector" where
  "xdebug_vector_clone v =
     (let tmp = xdebug_vector_alloc in
      tmp\<lparr>vec_count := vec_count v,
          vec_data := take (vec_capacity v) (vec_data v) @ drop (vec_capacity v) (vec_realloc (vec_data tmp) (vec_capacity v))\<rparr>)"

section \<open>Well-formed vectors and their contents\<close>

definition vec_list :: "'a xdebug_vector \<Rightarrow> 'a list" where
  "vec_list v = map the (take (vec_count v) (vec_data v))"

definition vec_ok :: "'a xdebug_vector \<Rightarrow> bool" where
  "vec_ok v \<longleftrightarrow> length (vec_data v) = vec_capacity v \<and> vec_count v \<le> vec_capacity v \<and>
     (vec_capacity v = 0 \<or> 32 \<le> vec_capacity v) \<and> (\<forall>x \<in> set (take (vec_count v) (vec_data v)). x \<noteq> None)"

lemma vec_ok_alloc [simp]: "vec_ok xdebug_vector_alloc" "vec_list xdebug_vector_alloc = []"
  by (simp_all add: vec_ok_def vec_list_def xdebug_vector_alloc_def)

lemma vec_list_length: "vec_ok v \<Longrightarrow> length (vec_list v) = vec_count v"
  by (simp add: vec_ok_def vec_list_def)

lemma vec_data_list: "vec_ok v \<Longrightarrow> take (vec_count v) (vec_data v) = map Some (vec_list v)"
  unfolding vec_list_def by (rule map_Some_the [symmetric]) (simp add: vec_ok_def)

lemma vec_nth: "vec_ok v \<Longrightarrow> i < vec_count v \<Longrightarrow> vec_data v ! i = Some (vec_list v ! i)"
  using vec_data_list [of v] vec_list_length [of v]
  by (metis length_map nth_map nth_take)

lemma grow_ok:
  assumes "vec_ok v"
  defines "w \<equiv> xdebug_grow_vector_if_needed v"
  shows "vec_ok w" "vec_list w = vec_list v" "vec_count w = vec_count v" "vec_count w < vec_capacity w"
proof -
  have "vec_capacity v \<noteq> 0 \<Longrightarrow> vec_capacity v < vec_capacity v * 3 div 2" "32 \<le> vec_capacity v \<Longrightarrow> 32 \<le> vec_capacity v * 3 div 2"
    using assms(1) by (auto simp: vec_ok_def)
  then show "vec_ok w" "vec_list w = vec_list v" "vec_count w = vec_count v" "vec_count w < vec_capacity w"
    using assms(1) by (auto simp: w_def xdebug_grow_vector_if_needed_def vec_ok_def vec_list_def vec_realloc_def Let_def)
qed

lemma push_ok:
  assumes "vec_ok v"
  shows "\<exists>v'. xdebug_vector_push z v = Some v' \<and> vec_ok v' \<and> vec_list v' = vec_list v @ [z]"
proof -
  let ?w = "xdebug_grow_vector_if_needed v"
  let ?v = "?w\<lparr>vec_count := vec_count ?w + 1, vec_data := (vec_data ?w)[vec_count ?w := Some z]\<rparr>"
  note g = grow_ok [OF assms]
  have l: "vec_count ?w < length (vec_data ?w)" using g by (simp add: vec_ok_def)
  then have "xdebug_vector_push z v = Some ?v" by (simp add: xdebug_vector_push_def Let_def)
  moreover have t: "take (Suc (vec_count ?w)) (vec_data ?v) = take (vec_count ?w) (vec_data ?w) @ [Some z]"
    using l by (simp add: take_Suc_conv_app_nth)
  then have "vec_ok ?v" using g by (auto simp: vec_ok_def)
  moreover have "vec_list ?v = vec_list v @ [z]"
    using t g(2) by (simp add: vec_list_def)
  ultimately show ?thesis by blast
qed

lemma store_ok:
  assumes "vec_ok v" "i < vec_count v"
  shows "vec_ok (vector_store v i x)" "vec_list (vector_store v i x) = (vec_list v)[i := x]"
proof -
  have t: "take (vec_count v) (vec_data (vector_store v i x)) = map Some ((vec_list v)[i := x])"
    using vec_data_list [OF assms(1)] by (simp add: vector_store_def take_update_swap map_update)
  then show "vec_ok (vector_store v i x)"
    using assms(1) by (auto simp: vec_ok_def vector_store_def)
  show "vec_list (vector_store v i x) = (vec_list v)[i := x]"
    using t by (simp add: vec_list_def vector_store_def comp_def)
qed

lemma pop_ok:
  assumes "vec_ok v" "vec_list v = xs @ [x]"
  shows "\<exists>v'. xdebug_vector_pop v = Some (x, v') \<and> vec_ok v' \<and> vec_list v' = xs \<and> vec_count v' < vec_count v"
proof -
  have n: "vec_count v = Suc (length xs)" using vec_list_length [OF assms(1)] assms(2) by simp
  have "vec_data v ! length xs = Some x" using vec_nth [OF assms(1), of "length xs"] assms(2) n by simp
  moreover have "length xs < length (vec_data v)" using n assms(1) by (simp add: vec_ok_def)
  ultimately have "xdebug_vector_pop v = Some (x, v\<lparr>vec_count := length xs\<rparr>)"
    using n by (simp add: xdebug_vector_pop_def)
  moreover have t: "take (length xs) (vec_data v) = map Some xs"
    using vec_data_list [OF assms(1)] assms(2) n
    by (metis append_eq_conv_conj length_map lessI less_or_eq_imp_le map_append min.absorb1 take_take)
  then have "vec_ok (v\<lparr>vec_count := length xs\<rparr>)" using assms(1) n by (auto simp: vec_ok_def)
  moreover have "vec_list (v\<lparr>vec_count := length xs\<rparr>) = xs"
    using t by (simp add: vec_list_def comp_def)
  ultimately show ?thesis using n by auto
qed

lemma tail_ok:
  assumes "vec_count v < 2 ^ 64"
  shows "XDEBUG_VECTOR_TAIL v = (if vec_count v = 0 then None else Some (vec_count v - 1))"
proof (cases "vec_count v")
  case (Suc n)
  then have "(vec_count v + 2 ^ 64 - 1) mod 2 ^ 64 = n" using assms by simp
  with Suc show ?thesis by (simp add: XDEBUG_VECTOR_TAIL_def xdebug_vector_element_get_def)
qed (simp add: XDEBUG_VECTOR_TAIL_def xdebug_vector_element_get_def)

lemma destroy_vector: "vec_ok v \<Longrightarrow> xdebug_vector_destroy v = Some (rev (vec_list v))"
proof (induction v rule: xdebug_vector_destroy.induct)
  case (1 v)
  show ?case
  proof (cases "vec_list v" rule: rev_cases)
    case Nil
    then have "vec_count v = 0" using vec_list_length [OF 1(2)] by simp
    with Nil show ?thesis by (simp add: xdebug_vector_destroy.simps)
  next
    case (snoc xs x)
    then have n: "vec_count v \<noteq> 0" using vec_list_length [OF 1(2)] by simp
    obtain v' where v': "xdebug_vector_pop v = Some (x, v')" "vec_ok v'" "vec_list v' = xs"
      using pop_ok [OF 1(2) snoc] by blast
    have "xdebug_vector_destroy v' = Some (rev xs)" using 1(1) [OF n v'(1) refl v'(2)] v'(3) by simp
    with n v'(1) snoc show ?thesis by (subst xdebug_vector_destroy.simps) simp
  qed
qed

text \<open>
  \<open>clone\<close> copies the elements but not the capacity, so the copy is well formed only when the original has
  no capacity at all; a push onto a clone with more than 32 elements writes outside the allocation.
\<close>

lemma clone_ok:
  assumes "vec_ok v"
  shows "vec_list (xdebug_vector_clone v) = vec_list v"
    "vec_ok (xdebug_vector_clone v) \<longleftrightarrow> vec_capacity v = 0"
  using assms by (auto simp: xdebug_vector_clone_def vec_list_def vec_ok_def Let_def xdebug_vector_alloc_def
      vec_realloc_def)

lemma clone_push:
  assumes "vec_ok v"
  shows "xdebug_vector_push z (xdebug_vector_clone v) = None \<longleftrightarrow> 32 \<le> vec_count v"
  using assms by (auto simp: xdebug_vector_clone_def vec_ok_def Let_def xdebug_vector_alloc_def
      vec_realloc_def xdebug_vector_push_def xdebug_grow_vector_if_needed_def)

section \<open>The interface the clients use\<close>

locale stack_store =
  fixes push :: "'e \<Rightarrow> 's \<Rightarrow> 's option" and pop :: "'s \<Rightarrow> ('e \<times> 's) option"
    and items :: "'s \<Rightarrow> 'e list" and ok :: "'s \<Rightarrow> bool"
  assumes push_law: "ok s \<Longrightarrow> \<exists>s'. push x s = Some s' \<and> ok s' \<and> items s' = items s @ [x]"
    and pop_law: "ok s \<Longrightarrow> items s = xs @ [x] \<Longrightarrow> \<exists>s'. pop s = Some (x, s') \<and> ok s' \<and> items s' = xs"
begin

fun push_all :: "'e list \<Rightarrow> 's \<Rightarrow> 's option" where
  "push_all [] s = Some s"
| "push_all (x # xs) s = (case push x s of None \<Rightarrow> None | Some s' \<Rightarrow> push_all xs s')"

fun pop_all :: "nat \<Rightarrow> 's \<Rightarrow> ('e list \<times> 's) option" where
  "pop_all 0 s = Some ([], s)"
| "pop_all (Suc n) s = (case pop s of None \<Rightarrow> None
     | Some (x, s') \<Rightarrow> map_option (\<lambda>(xs, s''). (x # xs, s'')) (pop_all n s'))"

lemma push_all_ok: "ok s \<Longrightarrow> \<exists>s'. push_all xs s = Some s' \<and> ok s' \<and> items s' = items s @ xs"
proof (induction xs arbitrary: s)
  case (Cons x xs)
  then obtain s1 where s1: "push x s = Some s1" "ok s1" "items s1 = items s @ [x]" using push_law by blast
  with Cons.IH [OF s1(2)] show ?case by auto
qed simp

lemma pop_all_ok:
  "ok s \<Longrightarrow> items s = xs @ ys \<Longrightarrow> \<exists>s'. pop_all (length ys) s = Some (rev ys, s') \<and> ok s' \<and> items s' = xs"
proof (induction ys arbitrary: s rule: rev_induct)
  case (snoc y ys)
  then obtain s1 where s1: "pop s = Some (y, s1)" "ok s1" "items s1 = xs @ ys"
    using pop_law [of s "xs @ ys" y] by auto
  with snoc.IH [OF s1(2,3)] show ?case by auto
qed simp

lemma push_pop_all:
  assumes "ok s"
  shows "\<exists>s' s''. push_all xs s = Some s' \<and> pop_all (length xs) s' = Some (rev xs, s'') \<and> ok s'' \<and> items s'' = items s"
proof -
  obtain s' where s': "push_all xs s = Some s'" "ok s'" "items s' = items s @ xs"
    using push_all_ok [OF assms] by blast
  from pop_all_ok [OF s'(2,3)] s'(1) show ?thesis by blast
qed

end

interpretation vec: stack_store xdebug_vector_push xdebug_vector_pop vec_list vec_ok
proof unfold_locales
  show "\<exists>s'. xdebug_vector_push x s = Some s' \<and> vec_ok s' \<and> vec_list s' = vec_list s @ [x]" if "vec_ok s" for s and x :: 'a
    using that by (rule push_ok)
  show "\<exists>s'. xdebug_vector_pop s = Some (x, s') \<and> vec_ok s' \<and> vec_list s' = xs"
    if "vec_ok s" "vec_list s = xs @ [x]" for s xs and x :: 'a
    using pop_ok [OF that] by blast
qed

end
