(* ===== verification/Xd_Arg.thy ===== *)
theory Xd_Arg
  imports Xd_Str "HOL-Library.Monad_Syntax"
begin

text \<open>
  Splitting and joining of C strings: \<open>src/lib/arg.c\<close> (\<open>xdebug_explode\<close>, \<open>xdebug_join\<close>,
  \<open>xdebug_memnstr\<close>), \<open>src/lib/trim.c\<close>, \<open>src/lib/strrnchr.h\<close>, \<open>src/lib/xdebug_strndup.c\<close> and
  \<open>src/lib/crc32.c\<close>.  A C string is the list of its bytes without the terminator; pointers into one
  are offsets.
\<close>

section \<open>Searching\<close>

text \<open>The inner loop: move on to the next place the first byte of the needle stands.\<close>

function memnstr_skip :: "string \<Rightarrow> char \<Rightarrow> nat \<Rightarrow> nat \<Rightarrow> nat option" where
  "memnstr_skip h first e p =
     (if cget h p = first then Some p else if p + 1 > e then None else memnstr_skip h first e (p + 1))"
  by pat_completeness auto
termination
  by (relation "measure (\<lambda>(h, first, e, p). Suc e - p)") auto

declare memnstr_skip.simps [simp del]

lemma memnstr_skip_Some:
  "memnstr_skip h first e p = Some q \<Longrightarrow> p \<le> e \<Longrightarrow>
   p \<le> q \<and> q \<le> e \<and> cget h q = first \<and> (\<forall>i. p \<le> i \<longrightarrow> i < q \<longrightarrow> cget h i \<noteq> first)"
proof (induction h first e p rule: memnstr_skip.induct)
  case (1 h first e p)
  show ?case
  proof (cases "cget h p = first")
    case True
    with 1(2,3) show ?thesis by (subst (asm) memnstr_skip.simps) auto
  next
    case False
    with 1(2,3) have s: "\<not> p + 1 > e" "memnstr_skip h first e (p + 1) = Some q"
      by (subst (asm) memnstr_skip.simps; simp split: if_splits)+
    with 1(1) [OF False s] show ?thesis using False
      by (auto simp: not_less_eq_eq) (metis le_antisym not_less_eq_eq)
  qed
qed

lemma memnstr_skip_None:
  "memnstr_skip h first e p = None \<Longrightarrow> p \<le> i \<Longrightarrow> i \<le> e \<Longrightarrow> cget h i \<noteq> first"
proof (induction h first e p rule: memnstr_skip.induct)
  case (1 h first e p)
  from 1(2) have p: "cget h p \<noteq> first" by (subst (asm) memnstr_skip.simps) (auto split: if_splits)
  show ?case
  proof (cases "i = p")
    case False
    with 1(3,4) have "\<not> p + 1 > e" "p + 1 \<le> i" by simp_all
    moreover have "memnstr_skip h first e (p + 1) = None"
      using 1(2) p calculation by (subst (asm) memnstr_skip.simps) simp
    ultimately show ?thesis using 1(1) [OF p] 1(4) by blast
  qed (use p in simp)
qed

text \<open>\<open>e\<close> is the last offset the needle may start at.\<close>

function memnstr_loop :: "string \<Rightarrow> string \<Rightarrow> nat \<Rightarrow> nat \<Rightarrow> nat option" where
  "memnstr_loop h needle e p =
     (if p \<le> e then
        (case memnstr_skip h (cget needle 0) e p of
           None \<Rightarrow> None
         | Some q \<Rightarrow> if take (length needle) (drop q h) = needle then Some q
                     else memnstr_loop h needle e (q + 1))
      else None)"
  by pat_completeness auto
termination
  by (relation "measure (\<lambda>(h, n, e, p). Suc e - p)") (auto dest: memnstr_skip_Some)

declare memnstr_loop.simps [simp del]

definition xdebug_memnstr :: "string \<Rightarrow> string \<Rightarrow> nat option" where
  "xdebug_memnstr h needle =
     (if length needle \<le> length h then memnstr_loop h needle (length h - length needle) 0 else None)"

definition occurs_at :: "string \<Rightarrow> string \<Rightarrow> nat \<Rightarrow> bool" where
  "occurs_at h n i \<longleftrightarrow> take (length n) (drop i h) = n"

lemma occurs_at_length: "occurs_at h n i \<Longrightarrow> n \<noteq> [] \<Longrightarrow> i + length n \<le> length h"
proof -
  assume o: "occurs_at h n i" and n: "n \<noteq> []"
  from o have "length (take (length n) (drop i h)) = length n" by (simp add: occurs_at_def)
  moreover have "0 < length n" using n by simp
  ultimately show ?thesis by (simp add: min_def split: if_splits del: length_greater_0_conv)
qed

lemma occurs_at_cget: "occurs_at h n i \<Longrightarrow> n \<noteq> [] \<Longrightarrow> cget h i = cget n 0"
proof -
  assume a: "occurs_at h n i" "n \<noteq> []"
  then have "i < length h" using occurs_at_length [OF a] by (cases n) auto
  then have "drop i h = h ! i # drop (Suc i) h" by (simp add: Cons_nth_drop_Suc)
  with a \<open>i < length h\<close> show ?thesis by (cases n) (auto simp: occurs_at_def cget_def)
qed

lemma memnstr_loop_Some:
  "memnstr_loop h n e p = Some q \<Longrightarrow> n \<noteq> [] \<Longrightarrow>
   p \<le> q \<and> q \<le> e \<and> occurs_at h n q \<and> (\<forall>i. p \<le> i \<longrightarrow> i < q \<longrightarrow> \<not> occurs_at h n i)"
proof (induction h n e p rule: memnstr_loop.induct)
  case (1 h n e p)
  from 1(2) obtain r where pe: "p \<le> e" and r: "memnstr_skip h (cget n 0) e p = Some r"
    and k: "if occurs_at h n r then r = q else memnstr_loop h n e (r + 1) = Some q"
    by (subst (asm) memnstr_loop.simps) (auto split: if_splits option.splits simp: occurs_at_def)
  note s = memnstr_skip_Some [OF r pe]
  have pre: "\<not> occurs_at h n i" if "p \<le> i" "i < r" for i
    using s that occurs_at_cget [of h n i] 1(3) by auto
  show ?case
  proof (cases "occurs_at h n r")
    case True
    with k s pre show ?thesis by auto
  next
    case False
    then have ih: "r + 1 \<le> q \<and> q \<le> e \<and> occurs_at h n q \<and> (\<forall>i. r + 1 \<le> i \<longrightarrow> i < q \<longrightarrow> \<not> occurs_at h n i)"
      using 1(1) [OF pe r] k 1(3) by (simp add: occurs_at_def)
    moreover have "\<not> occurs_at h n i" if "p \<le> i" "i < q" for i
      using ih pre [of i] False that by (cases "i < r"; cases "i = r") auto
    ultimately show ?thesis using s by auto
  qed
qed

lemma memnstr_loop_None:
  "memnstr_loop h n e p = None \<Longrightarrow> n \<noteq> [] \<Longrightarrow> p \<le> i \<Longrightarrow> i \<le> e \<Longrightarrow> \<not> occurs_at h n i"
proof (induction h n e p rule: memnstr_loop.induct)
  case (1 h n e p)
  then have pe: "p \<le> e" by simp
  show ?case
  proof (cases "memnstr_skip h (cget n 0) e p")
    case None
    from memnstr_skip_None [OF None 1(4,5)] show ?thesis using occurs_at_cget [of h n i] 1(3) by auto
  next
    case (Some r)
    note s = memnstr_skip_Some [OF Some pe]
    have k: "\<not> occurs_at h n r" "memnstr_loop h n e (r + 1) = None"
      using 1(2) pe Some by (subst (asm) memnstr_loop.simps; simp add: occurs_at_def split: if_splits)+
    have "\<not> occurs_at h n i" if "r + 1 \<le> i"
      using 1(1) [OF pe Some _ k(2) 1(3) that 1(5)] k(1) by (simp add: occurs_at_def)
    moreover have "\<not> occurs_at h n i" if "i < r"
      using s that 1(4) occurs_at_cget [of h n i] 1(3) by auto
    ultimately show ?thesis using k(1) by (cases i r rule: linorder_cases) auto
  qed
qed

lemma memnstr_Some:
  assumes "xdebug_memnstr h n = Some q" "n \<noteq> []"
  shows "occurs_at h n q" "q + length n \<le> length h" "\<And>i. i < q \<Longrightarrow> \<not> occurs_at h n i"
  using assms memnstr_loop_Some [of h n "length h - length n" 0 q]
  by (auto simp: xdebug_memnstr_def split: if_splits)

lemma memnstr_None:
  assumes "xdebug_memnstr h n = None" "n \<noteq> []"
  shows "\<not> occurs_at h n i"
proof
  assume o: "occurs_at h n i"
  from occurs_at_length [OF this assms(2)] have "i + length n \<le> length h" .
  then have "i \<le> length h - length n" "length n \<le> length h" by simp_all
  with assms o memnstr_loop_None [of h n "length h - length n" 0 i] show False
    by (simp add: xdebug_memnstr_def)
qed

section \<open>Argument lists\<close>

record xdebug_arg =
  arg_c :: int
  arg_args :: "string list"

definition xdebug_arg_ctor :: xdebug_arg where
  "xdebug_arg_ctor = \<lparr>arg_c = 0, arg_args = []\<rparr>"

definition arg_append :: "xdebug_arg \<Rightarrow> string \<Rightarrow> xdebug_arg" where
  "arg_append args s = \<lparr>arg_c = arg_c args + 1, arg_args = arg_args args @ [s]\<rparr>"

definition arg_get :: "xdebug_arg \<Rightarrow> int \<Rightarrow> string option" where
  "arg_get args i = (if 0 \<le> i \<and> i < int (length (arg_args args)) then Some (arg_args args ! nat i) else None)"

definition arg_ok :: "xdebug_arg \<Rightarrow> bool" where
  "arg_ok args \<longleftrightarrow> arg_c args = int (length (arg_args args))"

lemma arg_ok_ctor [simp]: "arg_ok xdebug_arg_ctor" "arg_args xdebug_arg_ctor = []"
  by (simp_all add: arg_ok_def xdebug_arg_ctor_def)

lemma arg_ok_append [simp]: "arg_ok (arg_append args s) = arg_ok args"
  "arg_args (arg_append args s) = arg_args args @ [s]"
  by (simp_all add: arg_ok_def arg_append_def)

text \<open>The strings the destructor releases.\<close>

definition xdebug_arg_dtor :: "xdebug_arg \<Rightarrow> string option list" where
  "xdebug_arg_dtor args = map (arg_get args) [0..arg_c args - 1]"

fun join_loop :: "string \<Rightarrow> xdebug_arg \<Rightarrow> int list \<Rightarrow> xdebug_str \<Rightarrow> xdebug_str option" where
  "join_loop delim args [] ret = Some ret"
| "join_loop delim args (i # is) ret =
     do { s \<leftarrow> arg_get args i; r1 \<leftarrow> xdebug_str_add ret s; r2 \<leftarrow> xdebug_str_add r1 delim;
          join_loop delim args is r2 }"

definition xdebug_join :: "string \<Rightarrow> xdebug_arg \<Rightarrow> int \<Rightarrow> int \<Rightarrow> xdebug_str option" where
  "xdebug_join delim args begn endn =
     (let b = (if begn < 0 then 0 else begn);
          e = (if endn > arg_c args - 1 then arg_c args - 1 else endn)
      in do { ret \<leftarrow> join_loop delim args [b..e - 1] xdebug_str_new;
              s \<leftarrow> arg_get args e; xdebug_str_add ret s })"

text \<open>
  The \<open>do\<close> loop of \<open>xdebug_explode\<close>: \<open>p1\<close> and \<open>p2\<close> are offsets into the string.  It never ends for an
  empty delimiter and no limit, so it is a partial function whose divergence is \<open>None\<close>.
\<close>

partial_function (option) explode_loop ::
  "string \<Rightarrow> string \<Rightarrow> nat \<Rightarrow> nat \<Rightarrow> xdebug_arg \<Rightarrow> int \<Rightarrow> (nat \<times> xdebug_arg) option" where
  "explode_loop delim str p1 p2 args limit =
     (let args' = arg_append args (slice p1 p2 str);
          p1' = p2 + length delim
      in case xdebug_memnstr (drop p1' str) delim of
           None \<Rightarrow> Some (p1', args')
         | Some o2 \<Rightarrow>
             if limit = -1 then explode_loop delim str p1' (p1' + o2) args' limit
             else if limit - 1 > 1 then explode_loop delim str p1' (p1' + o2) args' (limit - 1)
             else Some (p1', args'))"

definition xdebug_explode :: "string \<Rightarrow> string \<Rightarrow> xdebug_arg \<Rightarrow> int \<Rightarrow> xdebug_arg option" where
  "xdebug_explode delim str args limit =
     (case xdebug_memnstr str delim of
        None \<Rightarrow> Some (arg_append args str)
      | Some p2 \<Rightarrow>
          (case explode_loop delim str 0 p2 args limit of
             None \<Rightarrow> None
           | Some (p1, args') \<Rightarrow>
               Some (if p1 \<le> length str then arg_append args' (slice p1 (length str) str) else args')))"

subsection \<open>What the pieces are\<close>

fun joined :: "string \<Rightarrow> string list \<Rightarrow> string" where
  "joined d [] = []"
| "joined d [s] = s"
| "joined d (s # t # ss) = s @ d @ joined d (t # ss)"

lemma joined_Cons: "ss \<noteq> [] \<Longrightarrow> joined d (s # ss) = s @ d @ joined d ss"
  by (cases ss) simp_all

text \<open>The reference splitter, by the first occurrence of the delimiter.\<close>

function split_at_delim :: "string \<Rightarrow> string \<Rightarrow> string list" where
  "split_at_delim d s =
     (if d = [] then [s] else
      case xdebug_memnstr s d of None \<Rightarrow> [s]
      | Some i \<Rightarrow> take i s # split_at_delim d (drop (i + length d) s))"
  by pat_completeness auto
termination
proof (relation "measure (length \<circ> snd)", goal_cases)
  case (2 d s i)
  then have "i + length d \<le> length s" "0 < length d" by (simp_all add: memnstr_Some)
  then show ?case by (simp del: length_greater_0_conv)
qed simp

declare split_at_delim.simps [simp del]

lemma split_nonempty [simp]: "split_at_delim d s \<noteq> []"
  by (subst split_at_delim.simps) (simp split: option.split)

lemma joined_split: "joined d (split_at_delim d s) = s"
proof (induction d s rule: split_at_delim.induct)
  case (1 d s)
  show ?case
  proof (cases "d = []")
    case False
    show ?thesis
    proof (cases "xdebug_memnstr s d")
      case (Some i)
      from memnstr_Some(1) [OF Some False] have "d = take (length d) (drop i s)" by (simp add: occurs_at_def)
      then have "take i s @ d @ drop (i + length d) s = s"
        by (metis append_take_drop_id drop_drop add.commute)
      with False Some 1 [OF False Some] show ?thesis
        by (subst split_at_delim.simps) (simp add: joined_Cons)
    qed (subst split_at_delim.simps, simp)
  qed (subst split_at_delim.simps, simp)
qed

lemma occurs_take: "occurs_at (take i s) d j \<Longrightarrow> d \<noteq> [] \<Longrightarrow> occurs_at s d j \<and> j < i"
proof -
  assume o: "occurs_at (take i s) d j" and d: "d \<noteq> []"
  from occurs_at_length [OF o d] have le: "j + length d \<le> i" by simp
  with o d have "take (length d) (take (i - j) (drop j s)) = d" by (simp add: occurs_at_def drop_take)
  with le have "occurs_at s d j" by (simp add: occurs_at_def min_def split: if_splits)
  moreover have "0 < length d" using d by simp
  ultimately show ?thesis using le by linarith
qed

lemma split_pieces: "d \<noteq> [] \<Longrightarrow> p \<in> set (split_at_delim d s) \<Longrightarrow> \<not> occurs_at p d i"
proof (induction d s rule: split_at_delim.induct)
  case (1 d s)
  show ?case
  proof (cases "xdebug_memnstr s d")
    case None
    with 1 have "p = s" by (subst (asm) (2) split_at_delim.simps) simp
    with memnstr_None [OF None 1(2)] show ?thesis by simp
  next
    case (Some j)
    with 1 have "p = take j s \<or> p \<in> set (split_at_delim d (drop (j + length d) s))"
      by (subst (asm) (2) split_at_delim.simps) simp
    then show ?thesis
    proof
      assume "p = take j s"
      then show ?thesis using occurs_take [of j s d i] memnstr_Some(3) [OF Some 1(2), of i] 1(2) by blast
    next
      assume "p \<in> set (split_at_delim d (drop (j + length d) s))"
      with 1(1) [OF 1(2) Some 1(2)] show ?thesis by blast
    qed
  qed
qed

lemma first_delim_unique:
  "c \<notin> set p \<Longrightarrow> c \<notin> set q \<Longrightarrow> p @ c # xs = q @ c # ys \<longleftrightarrow> p = q \<and> xs = ys"
proof (induction p arbitrary: q)
  case Nil then show ?case by (cases q) auto
next
  case (Cons x p) then show ?case by (cases q) auto
qed

text \<open>With a one-character delimiter the split is the only list of delimiter-free pieces.\<close>

lemma joined_unique:
  "ps \<noteq> [] \<Longrightarrow> qs \<noteq> [] \<Longrightarrow> \<forall>p \<in> set ps \<union> set qs. c \<notin> set p \<Longrightarrow> joined [c] ps = joined [c] qs \<Longrightarrow> ps = qs"
proof (induction ps arbitrary: qs)
  case (Cons p ps)
  then obtain q qs' where qs: "qs = q # qs'" by (cases qs) auto
  have c: "c \<notin> set p" "c \<notin> set q" using Cons.prems(3) qs by auto
  have eq: "joined [c] (p # ps) = joined [c] (q # qs')" using Cons.prems(4) qs by simp
  have in_iff: "c \<in> set (joined [c] (p # ps)) \<longleftrightarrow> ps \<noteq> []" "c \<in> set (joined [c] (q # qs')) \<longleftrightarrow> qs' \<noteq> []"
    using c by (cases ps; cases qs'; simp)+
  show ?case
  proof (cases ps)
    case Nil
    then have "qs' = []" using in_iff eq by simp
    with Nil eq qs show ?thesis by simp
  next
    case (Cons p' ps')
    then have ne: "ps \<noteq> []" "qs' \<noteq> []" using in_iff eq by auto
    then have "p @ c # joined [c] ps = q @ c # joined [c] qs'" using eq by (simp add: joined_Cons)
    with c have "p = q" "joined [c] ps = joined [c] qs'"
      by (simp_all add: first_delim_unique)
    moreover have "ps = qs'"
      by (rule Cons.IH [OF ne]) (use Cons.prems(3) qs calculation in auto)
    ultimately show ?thesis using qs by simp
  qed
qed simp

lemma split_joined:
  assumes "ps \<noteq> []" "\<forall>p \<in> set ps. c \<notin> set p"
  shows "split_at_delim [c] (joined [c] ps) = ps"
proof (rule joined_unique [of _ _ c])
  show "\<forall>p \<in> set (split_at_delim [c] (joined [c] ps)) \<union> set ps. c \<notin> set p"
  proof
    fix p assume p: "p \<in> set (split_at_delim [c] (joined [c] ps)) \<union> set ps"
    show "c \<notin> set p"
    proof
      assume "c \<in> set p"
      then obtain i where i: "i < length p" "p ! i = c" by (auto simp: in_set_conv_nth)
      then have "occurs_at p [c] i" by (simp add: occurs_at_def take_Suc_conv_app_nth)
      with split_pieces [of "[c]" p] p \<open>c \<in> set p\<close> assms(2) show False by auto
    qed
  qed
qed (simp_all add: assms joined_split)

subsection \<open>Exploding and joining\<close>

lemma explode_loop_split:
  assumes "d \<noteq> []" "p1 \<le> length str" "xdebug_memnstr (drop p1 str) d = Some o2"
  shows "\<exists>p args'. explode_loop d str p1 (p1 + o2) args (- 1) = Some (p, args') \<and> p \<le> length str \<and>
    arg_args args' @ [slice p (length str) str] = arg_args args @ split_at_delim d (drop p1 str) \<and>
    (arg_ok args \<longrightarrow> arg_ok args')"
  using assms(2,3)
proof (induction "length str - p1" arbitrary: p1 o2 args rule: less_induct)
  case less
  let ?p = "p1 + o2 + length d"
  let ?args = "arg_append args (slice p1 (p1 + o2) str)"
  have p: "?p \<le> length str" "0 < length d"
    using memnstr_Some(2) [OF less.prems(2) assms(1)] less.prems(1) assms(1) by simp_all
  have d: "drop (o2 + length d) (drop p1 str) = drop ?p str" by (simp add: ac_simps)
  have split: "split_at_delim d (drop p1 str) = slice p1 (p1 + o2) str # split_at_delim d (drop ?p str)"
    using assms(1) less.prems(2) d by (subst split_at_delim.simps) (simp add: slice_def)
  show ?case
  proof (cases "xdebug_memnstr (drop ?p str) d")
    case None
    then have "split_at_delim d (drop ?p str) = [drop ?p str]" by (subst split_at_delim.simps) simp
    with None p split show ?thesis
      by (subst explode_loop.simps) (simp add: Let_def slice_def)
  next
    case (Some o3)
    have lt: "length str - ?p < length str - p1" using p by linarith
    from less.hyps [OF lt p(1) Some, of ?args] obtain q args' where
      q: "explode_loop d str ?p (?p + o3) ?args (- 1) = Some (q, args')" "q \<le> length str"
        "arg_args args' @ [slice q (length str) str] = arg_args ?args @ split_at_delim d (drop ?p str)"
        "arg_ok ?args \<longrightarrow> arg_ok args'"
      by auto
    with Some split show ?thesis by (subst explode_loop.simps) (simp add: Let_def)
  qed
qed

lemma explode_split:
  assumes "d \<noteq> []"
  shows "\<exists>args'. xdebug_explode d str args (- 1) = Some args' \<and>
           arg_args args' = arg_args args @ split_at_delim d str \<and> (arg_ok args \<longrightarrow> arg_ok args')"
proof (cases "xdebug_memnstr str d")
  case None
  then show ?thesis using assms by (subst split_at_delim.simps) (simp add: xdebug_explode_def)
next
  case (Some p2)
  then obtain p args' where "explode_loop d str 0 p2 args (- 1) = Some (p, args')" "p \<le> length str"
    "arg_args args' @ [slice p (length str) str] = arg_args args @ split_at_delim d str"
    "arg_ok args \<longrightarrow> arg_ok args'"
    using explode_loop_split [of d 0 str p2 args] assms by auto
  with Some show ?thesis by (simp add: xdebug_explode_def)
qed

lemma bind_add:
  assumes "str_ok xs"
  obtains xs' where "xdebug_str_add xs s = Some xs'" "str_ok xs'" "str_text xs' = str_text xs @ c_str s"
  using xdebug_str_add_appends [OF assms, of s] by (auto simp: appends_def)

lemma join_loop_text:
  assumes "str_ok ret" "is_cstr d" "\<forall>i \<in> set is. \<exists>s. arg_get args i = Some s \<and> is_cstr s"
  shows "\<exists>r. join_loop d args is ret = Some r \<and> str_ok r \<and>
           str_text r = str_text ret @ concat (map (\<lambda>i. the (arg_get args i) @ d) is)"
  using assms(1,3)
proof (induction "is" arbitrary: ret)
  case (Cons i "is")
  then obtain s where s: "arg_get args i = Some s" "is_cstr s" by auto
  obtain r1 where r1: "xdebug_str_add ret s = Some r1" "str_ok r1" "str_text r1 = str_text ret @ s"
    using bind_add [OF Cons.prems(1), of s] s(2) by auto
  obtain r2 where r2: "xdebug_str_add r1 d = Some r2" "str_ok r2" "str_text r2 = str_text ret @ s @ d"
    using bind_add [OF r1(2), of d] assms(2) r1(3) by auto
  from Cons.IH [OF r2(2)] Cons.prems(2) s r1 r2 show ?case by auto
qed simp

lemma joined_snoc: "joined d (ss @ [s]) = concat (map (\<lambda>s. s @ d) ss) @ s"
proof (induction ss)
  case (Cons t ss)
  have "joined d ((t # ss) @ [s]) = t @ d @ joined d (ss @ [s])" by (simp add: joined_Cons)
  with Cons show ?case by simp
qed simp

lemma map_arg_get:
  "n \<le> length (arg_args args) \<Longrightarrow> map (\<lambda>i. the (arg_get args i)) [0..int n - 1] = take n (arg_args args)"
  by (rule nth_equalityI) (auto simp: arg_get_def)

text \<open>Joining everything, as the callers that pass \<open>0\<close> and \<open>c - 1\<close> do.\<close>

lemma join_all:
  assumes "arg_ok args" "arg_args args \<noteq> []" "is_cstr d" "\<forall>s \<in> set (arg_args args). is_cstr s"
    "arg_c args - 1 \<le> endn"
  shows "\<exists>r. xdebug_join d args 0 endn = Some r \<and> str_ok r \<and> str_text r = joined d (arg_args args)"
proof -
  let ?as = "arg_args args"
  obtain as s where snoc: "?as = as @ [s]" using assms(2) by (cases ?as rule: rev_cases) auto
  have c: "arg_c args = int (Suc (length as))" using assms(1) snoc by (simp add: arg_ok_def)
  have get: "arg_get args (int (length as)) = Some s" by (simp add: arg_get_def snoc)
  have all: "\<forall>i \<in> set [0..int (length as) - 1]. \<exists>s. arg_get args i = Some s \<and> is_cstr s"
    using assms(4) snoc by (auto simp: arg_get_def nth_append)
  from join_loop_text [OF str_ok_new assms(3) all] obtain r where
    r: "join_loop d args [0..int (length as) - 1] xdebug_str_new = Some r" "str_ok r"
      "str_text r = concat (map (\<lambda>i. the (arg_get args i) @ d) [0..int (length as) - 1])" by auto
  have "map (\<lambda>i. the (arg_get args i) @ d) [0..int (length as) - 1] =
      map (\<lambda>s. s @ d) (map (\<lambda>i. the (arg_get args i)) [0..int (length as) - 1])" by simp
  also have "map (\<lambda>i. the (arg_get args i)) [0..int (length as) - 1] = as"
    using map_arg_get [of "length as" args] snoc by simp
  finally have "str_text r = concat (map (\<lambda>s. s @ d) as)" using r(3) by simp
  moreover obtain r' where "xdebug_str_add r s = Some r'" "str_ok r'" "str_text r' = str_text r @ s"
    using bind_add [OF r(2), of s] assms(4) snoc by auto
  ultimately show ?thesis
    using r(1) get c snoc assms(5) by (auto simp: xdebug_join_def Let_def joined_snoc)
qed

text \<open>Joining the pieces from \<open>b\<close> to \<open>e\<close>.\<close>

lemma map_arg_get_slice:
  "b \<le> e \<Longrightarrow> e \<le> length (arg_args args) \<Longrightarrow>
   map (\<lambda>i. the (arg_get args i)) [int b..int e - 1] = slice b e (arg_args args)"
  by (rule nth_equalityI) (auto simp: arg_get_def slice_def nat_add_distrib)

lemma slice_snoc: "b \<le> e \<Longrightarrow> e < length xs \<Longrightarrow> slice b (Suc e) xs = slice b e xs @ [xs ! e]"
  by (simp add: slice_def Suc_diff_le take_Suc_conv_app_nth)

lemma join_range:
  assumes "arg_ok args" "b \<le> e" "e < length (arg_args args)" "is_cstr d" "\<forall>s \<in> set (arg_args args). is_cstr s"
  shows "\<exists>r. xdebug_join d args (int b) (int e) = Some r \<and> str_ok r \<and>
    str_text r = joined d (slice b (Suc e) (arg_args args))"
proof -
  have get: "arg_get args (int e) = Some (arg_args args ! e)" using assms(3) by (simp add: arg_get_def)
  have all: "\<forall>i \<in> set [int b..int e - 1]. \<exists>s. arg_get args i = Some s \<and> is_cstr s"
    using assms(3,5) by (auto simp: arg_get_def)
  from join_loop_text [OF str_ok_new assms(4) all] obtain r where
    r: "join_loop d args [int b..int e - 1] xdebug_str_new = Some r" "str_ok r"
      "str_text r = concat (map (\<lambda>i. the (arg_get args i) @ d) [int b..int e - 1])" by auto
  have "map (\<lambda>i. the (arg_get args i) @ d) [int b..int e - 1] =
      map (\<lambda>s. s @ d) (map (\<lambda>i. the (arg_get args i)) [int b..int e - 1])" by simp
  also have "map (\<lambda>i. the (arg_get args i)) [int b..int e - 1] = slice b e (arg_args args)"
    using map_arg_get_slice [of b e args] assms(2,3) by simp
  finally have "str_text r = concat (map (\<lambda>s. s @ d) (slice b e (arg_args args)))" using r(3) by simp
  moreover obtain r' where "xdebug_str_add r (arg_args args ! e) = Some r'" "str_ok r'"
    "str_text r' = str_text r @ arg_args args ! e"
    using bind_add [OF r(2), of "arg_args args ! e"] assms(3,5) by (metis c_str_id nth_mem)
  moreover have "\<not> arg_c args - 1 < int e" using assms(1,3) by (simp add: arg_ok_def)
  ultimately show ?thesis
    using r(1) get assms(2,3) by (auto simp: xdebug_join_def Let_def slice_snoc joined_snoc)
qed

end
