(* ===== verification/Xd_Textutil.thy ===== *)
theory Xd_Textutil
  imports Xd_Prelude
begin

text \<open>
  Small routines on C strings: \<open>src/lib/trim.c\<close>, \<open>src/lib/strrnchr.h\<close>, \<open>src/lib/xdebug_strndup.c\<close> and the
  in-place unescaping of \<open>src/lib/stripcslashes.c\<close>, which is compared with a reference that reads the
  escapes off a list.
\<close>

section \<open>\<open>xdebug_trim\<close>\<close>

function trim_begin :: "string \<Rightarrow> nat \<Rightarrow> nat" where
  "trim_begin str i = (if isspace (cget str i) then trim_begin str (i + 1) else i)"
  by pat_completeness auto
termination
  by (relation "measure (\<lambda>(str, i). Suc (length str) - i)") (auto simp: cget_def split: if_splits)

fun trim_end :: "string \<Rightarrow> nat \<Rightarrow> nat \<Rightarrow> nat" where
  "trim_end str begn endn = (if endn > begn \<and> isspace (cget str endn) then trim_end str begn (endn - 1) else endn)"

declare trim_begin.simps [simp del] trim_end.simps [simp del]

definition xdebug_trim :: "string \<Rightarrow> string" where
  "xdebug_trim str =
     (let begn = trim_begin str 0 in
      if cget str begn = NUL then []
      else let endn = trim_end str begn (begn + length (drop begn str) - 1) + 1
           in slice begn endn str)"

lemma trim_begin_drop: "drop (trim_begin str i) str = dropWhile isspace (drop i str) \<and> i \<le> trim_begin str i"
proof (induction str i rule: trim_begin.induct)
  case (1 str i)
  show ?case
  proof (cases "isspace (cget str i)")
    case True
    then have "i < length str" by (auto simp: cget_def split: if_splits)
    then have "drop i str = str ! i # drop (Suc i) str" by (simp add: Cons_nth_drop_Suc)
    with True 1 \<open>i < length str\<close> show ?thesis by (subst (1 2) trim_begin.simps) (auto simp: cget_def)
  next
    case False
    then have "drop i str = [] \<or> \<not> isspace (hd (drop i str))"
      by (auto simp: cget_def hd_drop_conv_nth split: if_splits)
    then have "dropWhile isspace (drop i str) = drop i str" by (cases "drop i str") auto
    with False show ?thesis by (simp add: trim_begin.simps)
  qed
qed

definition rtrim :: "string \<Rightarrow> string" where
  "rtrim s = rev (dropWhile isspace (rev s))"

lemma rtrim_snoc: "rtrim (s @ [c]) = (if isspace c then rtrim s else s @ [c])"
  by (simp add: rtrim_def)

lemma trim_end_slice:
  "b \<le> e \<Longrightarrow> e < length s \<Longrightarrow> \<not> isspace (s ! b) \<Longrightarrow> slice b (trim_end s b e + 1) s = rtrim (slice b (e + 1) s)"
proof (induction s b e rule: trim_end.induct)
  case (1 s b e)
  have sn: "slice b (Suc e) s = slice b e s @ [s ! e]"
    using "1.prems" by (simp add: slice_def Suc_diff_le take_Suc_conv_app_nth)
  show ?case
  proof (cases "e > b \<and> isspace (cget s e)")
    case True
    then have "b \<le> e - 1" "e - 1 < length s" "e - 1 + 1 = e" using "1.prems" by auto
    with "1.IH" [OF True this(1,2) "1.prems"(3)]
    have "slice b (trim_end s b (e - 1) + 1) s = rtrim (slice b e s)" by simp
    moreover have "isspace (s ! e)" using True "1.prems" by (simp add: cget_def)
    ultimately show ?thesis using True sn by (subst trim_end.simps) (simp add: rtrim_snoc)
  next
    case False
    then have "\<not> isspace (s ! e)" using "1.prems" by (cases "b = e") (auto simp: cget_def)
    with False sn show ?thesis by (subst trim_end.simps) (auto simp: rtrim_snoc)
  qed
qed

lemma trim_eq: "is_cstr str \<Longrightarrow> xdebug_trim str = rtrim (dropWhile isspace str)"
proof -
  assume c: "is_cstr str"
  let ?b = "trim_begin str 0"
  have d: "drop ?b str = dropWhile isspace str" using trim_begin_drop [of str 0] by simp
  show ?thesis
  proof (cases "?b < length str")
    case False
    then have "dropWhile isspace str = []" unfolding d [symmetric] by simp
    then have "rtrim (dropWhile isspace str) = []" by (simp only: rtrim_def) simp
    with False show ?thesis by (simp add: xdebug_trim_def Let_def cget_def)
  next
    case True
    then have nn: "cget str ?b \<noteq> NUL" using c by (simp add: cget_NUL_iff)
    have "hd (drop ?b str) = str ! ?b" using True by (simp add: hd_drop_conv_nth)
    moreover have "drop ?b str \<noteq> []" using True by simp
    ultimately have ns: "\<not> isspace (str ! ?b)" unfolding d by (metis hd_dropWhile)
    have "slice ?b (trim_end str ?b (length str - 1) + 1) str = rtrim (slice ?b (length str - 1 + 1) str)"
      using True ns by (intro trim_end_slice) auto
    moreover have "slice ?b (length str) str = dropWhile isspace str"
      unfolding d [symmetric] by (simp add: slice_def)
    moreover have "Suc (length str - Suc 0) = length str" using True by simp
    ultimately show ?thesis using True nn by (simp add: xdebug_trim_def Let_def)
  qed
qed

lemma trim_shape:
  assumes "is_cstr str"
  shows "\<exists>ls rs. str = ls @ xdebug_trim str @ rs \<and> (\<forall>c \<in> set ls \<union> set rs. isspace c)"
    "xdebug_trim str \<noteq> [] \<Longrightarrow> \<not> isspace (hd (xdebug_trim str)) \<and> \<not> isspace (last (xdebug_trim str))"
proof -
  let ?d = "dropWhile isspace str"
  have t: "xdebug_trim str = rtrim ?d" by (rule trim_eq [OF assms])
  have r: "?d = rtrim ?d @ rev (takeWhile isspace (rev ?d))"
    unfolding rtrim_def by (metis rev_append rev_rev_ident takeWhile_dropWhile_id)
  have l: "str = takeWhile isspace str @ ?d" by simp
  show "\<exists>ls rs. str = ls @ xdebug_trim str @ rs \<and> (\<forall>c \<in> set ls \<union> set rs. isspace c)"
  proof (intro exI conjI)
    show "str = takeWhile isspace str @ xdebug_trim str @ rev (takeWhile isspace (rev ?d))"
      using l r t by metis
    show "\<forall>c \<in> set (takeWhile isspace str) \<union> set (rev (takeWhile isspace (rev ?d))). isspace c"
      by (auto dest: set_takeWhileD)
  qed
  assume ne: "xdebug_trim str \<noteq> []"
  then have "dropWhile isspace (rev ?d) \<noteq> []" by (simp add: t rtrim_def)
  then have "\<not> isspace (last (xdebug_trim str))" unfolding t rtrim_def last_rev by (rule hd_dropWhile)
  moreover have "hd ?d = hd (xdebug_trim str)" "?d \<noteq> []" using r ne t by (metis hd_append2, force simp: rtrim_def)
  then have "\<not> isspace (hd (xdebug_trim str))" using hd_dropWhile [of isspace str] by simp
  ultimately show "\<not> isspace (hd (xdebug_trim str)) \<and> \<not> isspace (last (xdebug_trim str))" by simp
qed

lemma trim_cstr: "is_cstr str \<Longrightarrow> is_cstr (xdebug_trim str)"
  by (auto simp: trim_eq rtrim_def is_cstr_def dest!: set_dropWhileD)

section \<open>\<open>strrnchr\<close> and \<open>xdebug_strndup\<close>\<close>

text \<open>The last \<open>c\<close> among the first \<open>n\<close> bytes; the scan stops at the NUL.\<close>

function strrnchr_loop :: "string \<Rightarrow> char \<Rightarrow> nat \<Rightarrow> nat \<Rightarrow> nat option \<Rightarrow> nat option" where
  "strrnchr_loop s c n i r =
     (if i = n then r
      else let r' = (if cget s i = c then Some i else r) in
           if cget s i = NUL then r' else strrnchr_loop s c n (i + 1) r')"
  by pat_completeness auto
termination
  by (relation "measure (\<lambda>(s, c, n, i, r). Suc (length s) - i)") (auto simp: cget_def split: if_splits)

declare strrnchr_loop.simps [simp del]

definition strrnchr :: "string \<Rightarrow> char \<Rightarrow> nat \<Rightarrow> nat option" where
  "strrnchr s c n = strrnchr_loop s c n 0 None"

lemma strrchr_snoc: "strrchr (s @ [x]) c = (if x = c then Some (length s) else strrchr s c)"
  by (induction s) (auto split: option.splits)

lemma strrnchr_strrchr:
  assumes "is_cstr s" "n \<le> length s" "c \<noteq> NUL"
  shows "strrnchr s c n = strrchr (take n s) c"
proof -
  have "i \<le> n \<Longrightarrow> r = strrchr (take i s) c \<Longrightarrow> strrnchr_loop s c n i r = strrchr (take n s) c" for i r
  proof (induction "n - i" arbitrary: i r)
    case 0 then show ?case by (subst strrnchr_loop.simps) simp
  next
    case (Suc k)
    then have i: "i < n" "i < length s" using assms(2) by simp_all
    then have "cget s i \<noteq> NUL" using assms(1) by (simp add: cget_NUL_iff)
    moreover have "strrchr (take (Suc i) s) c = (if cget s i = c then Some i else r)"
      using i Suc.prems by (simp add: take_Suc_conv_app_nth strrchr_snoc cget_def)
    moreover have "strrnchr_loop s c n (i + 1) (if cget s i = c then Some i else r) = strrchr (take n s) c"
      by (rule Suc.hyps(1)) (use i Suc.hyps(2) calculation(2) in simp_all)
    ultimately show ?case using i by (subst strrnchr_loop.simps) (simp add: Let_def)
  qed
  from this [of 0 None] show ?thesis by (simp add: strrnchr_def)
qed

text \<open>\<open>None\<close>: a read past the terminator.\<close>

definition xdebug_strndup :: "string \<Rightarrow> nat \<Rightarrow> string option" where
  "xdebug_strndup s n = (if n \<le> length s + 1 then Some (c_str (take n (s @ [NUL]))) else None)"

section \<open>\<open>xdebug_stripcslashes\<close>\<close>

definition simple_escape :: "char \<Rightarrow> char option" where
  "simple_escape c =
     (if c = CHR ''n'' then Some (CHR 0x0A) else if c = CHR ''r'' then Some (CHR 0x0D)
      else if c = CHR ''a'' then Some (CHR 0x07) else if c = CHR ''t'' then Some (CHR 0x09)
      else if c = CHR ''v'' then Some (CHR 0x0B) else if c = CHR ''b'' then Some (CHR 0x08)
      else if c = CHR ''f'' then Some (CHR 0x0C) else if c = BSLASH then Some BSLASH else None)"

fun base_val :: "nat \<Rightarrow> nat \<Rightarrow> string \<Rightarrow> nat" where
  "base_val b acc [] = acc"
| "base_val b acc (c # cs) = base_val b (b * acc + hexval c) cs"

definition to_char :: "nat \<Rightarrow> char" where
  "to_char n = char_of (n mod 256)"

text \<open>
  One pass over \<open>buf\<close> with the read position \<open>source\<close>, the write position \<open>target\<close> and the length
  count; \<open>octals\<close> are the at most three octal digits at the read position.
\<close>

definition octals :: "string \<Rightarrow> nat \<Rightarrow> nat \<Rightarrow> string" where
  "octals buf source endp = takeWhile isoctal (take 3 (slice source endp buf))"

function stripc_loop :: "string \<Rightarrow> nat \<Rightarrow> nat \<Rightarrow> nat \<Rightarrow> int \<Rightarrow> string \<times> nat \<times> int" where
  "stripc_loop buf endp source target nlen =
     (if source < endp then
        (if buf ! source = BSLASH \<and> source + 1 < endp then
           (let s = source + 1; c = buf ! s in
            case simple_escape c of
              Some d \<Rightarrow> stripc_loop (buf[target := d]) endp (s + 1) (target + 1) (nlen - 1)
            | None \<Rightarrow>
                if c = CHR ''x'' \<and> s + 1 < endp \<and> isxdigit (buf ! (s + 1)) then
                  (if s + 2 < endp \<and> isxdigit (buf ! (s + 2))
                   then stripc_loop (buf[target := to_char (base_val 16 0 [buf ! (s + 1), buf ! (s + 2)])])
                          endp (s + 3) (target + 1) (nlen - 3)
                   else stripc_loop (buf[target := to_char (base_val 16 0 [buf ! (s + 1)])])
                          endp (s + 2) (target + 1) (nlen - 2))
                else
                  (let ds = octals buf s endp in
                   if ds \<noteq> []
                   then stripc_loop (buf[target := to_char (base_val 8 0 ds)])
                          endp (s + length ds) (target + 1) (nlen - int (length ds))
                   else stripc_loop (buf[target := c]) endp (s + 1) (target + 1) (nlen - 1)))
         else stripc_loop (buf[target := buf ! source]) endp (source + 1) (target + 1) nlen)
      else (buf, target, nlen))"
  by pat_completeness auto
termination
  by (relation "measure (\<lambda>(b, e, s, t, n). e - s)") auto

declare stripc_loop.simps [simp del]

text \<open>\<open>buf\<close> holds the string's bytes and the byte after them; the result is the buffer and the length.\<close>

definition xdebug_stripcslashes :: "string \<Rightarrow> nat \<Rightarrow> string \<times> int" where
  "xdebug_stripcslashes buf len =
     (let (b, target, nlen) = stripc_loop buf len 0 0 (int len)
      in (if nlen \<noteq> 0 then b[target := NUL] else b, nlen))"

subsection \<open>The reference: unescaping a list\<close>

definition octal_digits :: "string \<Rightarrow> string" where
  "octal_digits s = takeWhile isoctal (take 3 s)"

text \<open>What an escape sequence (after its backslash) denotes, and how many bytes it takes.\<close>

definition escape_of :: "string \<Rightarrow> char \<times> nat" where
  "escape_of s =
     (case simple_escape (hd s) of Some d \<Rightarrow> (d, 1)
      | None \<Rightarrow>
          if hd s = CHR ''x'' \<and> 1 < length s \<and> isxdigit (s ! 1) then
            (if 2 < length s \<and> isxdigit (s ! 2) then (to_char (base_val 16 0 [s ! 1, s ! 2]), 3)
             else (to_char (base_val 16 0 [s ! 1]), 2))
          else if octal_digits s \<noteq> [] then (to_char (base_val 8 0 (octal_digits s)), length (octal_digits s))
          else (hd s, 1))"

lemma octal_digits_length: "length (octal_digits s) \<le> length s" "length (octal_digits s) \<le> 3"
  unfolding octal_digits_def
  by (metis length_takeWhile_le length_take min.bounded_iff)+

lemma escape_of_length: "s \<noteq> [] \<Longrightarrow> 0 < snd (escape_of s) \<and> snd (escape_of s) \<le> length s"
  using octal_digits_length [of s] by (auto simp: escape_of_def Suc_le_eq split: option.split)

function unescape :: "string \<Rightarrow> string" where
  "unescape [] = []"
| "unescape (c # cs) =
     (if c = BSLASH \<and> cs \<noteq> [] then fst (escape_of cs) # unescape (drop (snd (escape_of cs)) cs)
      else c # unescape cs)"
  by pat_completeness auto
termination
  by (relation "measure length") auto

declare unescape.simps(2) [simp del]

lemma unescape_length: "length (unescape s) \<le> length s"
proof (induction s rule: unescape.induct)
  case (2 c cs)
  show ?case
  proof (cases "c = BSLASH \<and> cs \<noteq> []")
    case True
    with 2(1) have "length (unescape (drop (snd (escape_of cs)) cs)) \<le> length (drop (snd (escape_of cs)) cs)" by simp
    also have "\<dots> \<le> length cs" by simp
    finally show ?thesis using True by (simp add: unescape.simps(2))
  next
    case False
    with 2(2) show ?thesis by (simp add: unescape.simps(2))
  qed
qed simp

text \<open>One step of the loop, in the terms of the reference.\<close>

lemma stripc_step:
  assumes "source < endp" "endp \<le> length buf"
  shows "stripc_loop buf endp source target nlen =
    (if buf ! source = BSLASH \<and> source + 1 < endp
     then let (c, k) = escape_of (slice (source + 1) endp buf) in
          stripc_loop (buf[target := c]) endp (source + 1 + k) (target + 1) (nlen - int k)
     else stripc_loop (buf[target := buf ! source]) endp (source + 1) (target + 1) nlen)"
proof (cases "buf ! source = BSLASH \<and> source + 1 < endp")
  case True
  let ?s = "slice (source + 1) endp buf"
  have len: "length ?s = endp - (source + 1)" using assms by (simp add: slice_def)
  have nth: "?s ! i = buf ! (source + 1 + i)" if "source + 1 + i < endp" for i
    using that assms by (simp add: slice_def)
  have hd: "hd ?s = buf ! (source + 1)"
  proof -
    have "?s \<noteq> []" using len True by (metis length_greater_0_conv zero_less_diff)
    then show ?thesis using nth [of 0] True by (simp add: hd_conv_nth)
  qed
  have l1: "1 < length ?s \<longleftrightarrow> source + 2 < endp" "2 < length ?s \<longleftrightarrow> source + 3 < endp"
    unfolding len by linarith+
  have n1: "source + 2 < endp \<Longrightarrow> ?s ! 1 = buf ! (source + 2)" "source + 3 < endp \<Longrightarrow> ?s ! 2 = buf ! (source + 3)"
    using nth [of 1] nth [of 2] by (simp_all add: numeral_eq_Suc)
  have oct: "octals buf (source + 1) endp = octal_digits ?s" by (simp add: octals_def octal_digits_def)
  show ?thesis
    using True assms(1) hd l1 n1 oct
    by (subst stripc_loop.simps) (auto simp: Let_def escape_of_def add.commute numeral_eq_Suc split: option.split)
next
  case False
  with assms show ?thesis by (subst stripc_loop.simps) auto
qed

lemma slice_Cons: "i < j \<Longrightarrow> j \<le> length xs \<Longrightarrow> slice i j xs = xs ! i # slice (i + 1) j xs"
  by (simp add: slice_def Cons_nth_drop_Suc [symmetric] take_Cons' )

lemma slice_shift: "slice (i + k) j xs = drop k (slice i j xs)"
  by (simp add: slice_def drop_take add.commute)

lemma slice_update_before: "t < i \<Longrightarrow> slice i j (xs[t := x]) = slice i j xs"
  by (simp add: slice_def drop_update_cancel)

text \<open>
  The invariant: the bytes still to be read are untouched, the write position never overtakes the read
  position, and the count is what is written plus what is left.
\<close>

lemma stripc_loop_unescape:
  assumes "target \<le> source" "source \<le> endp" "endp \<le> length buf" "nlen = int target + int (endp - source)"
  shows "\<exists>b n. stripc_loop buf endp source target nlen = (b, n, int n) \<and> n \<le> endp \<and> length b = length buf \<and>
           take n b = take target buf @ unescape (slice source endp buf)"
  using assms
proof (induction "endp - source" arbitrary: buf source target nlen rule: less_induct)
  case less
  show ?case
  proof (cases "source < endp")
    case False
    with less.prems have "slice source endp buf = []" "nlen = int target" by (simp_all add: slice_def)
    with less.prems False show ?thesis by (subst stripc_loop.simps) simp
  next
    case True
    have sl: "slice source endp buf = buf ! source # slice (source + 1) endp buf"
      by (rule slice_Cons) (use True less.prems in auto)
    have t: "target < length buf" using True less.prems by simp
    have tk: "take (target + 1) (buf[target := c]) = take target buf @ [c]" for c
      using t by (simp add: take_Suc_conv_app_nth)
    let ?s = "slice (source + 1) endp buf"
    have ls: "length ?s = endp - (source + 1)" using less.prems by (simp add: slice_def)
    show ?thesis
    proof (cases "buf ! source = BSLASH \<and> source + 1 < endp")
      case esc: True
      obtain c k where ck: "escape_of ?s = (c, k)" by (cases "escape_of ?s")
      have ne: "?s \<noteq> []" using ls esc by (metis length_greater_0_conv zero_less_diff)
      then have k: "0 < k" "k \<le> endp - (source + 1)" using escape_of_length [OF ne] ck ls by simp_all
      have un: "unescape (slice source endp buf) = c # unescape (drop k ?s)"
        using sl esc ne ck by (simp add: unescape.simps(2))
      have step: "stripc_loop buf endp source target nlen =
          stripc_loop (buf[target := c]) endp (source + 1 + k) (target + 1) (nlen - int k)"
        using stripc_step [OF True less.prems(3)] esc ck by simp
      have sh: "slice (source + 1 + k) endp (buf[target := c]) = drop k ?s"
        using less.prems(1) slice_update_before [of target "source + 1 + k" endp buf c] slice_shift [of "source + 1" k endp buf] by simp
      have "endp - (source + 1 + k) < endp - source" "target + 1 \<le> source + 1 + k" "source + 1 + k \<le> endp"
        "endp \<le> length (buf[target := c])" "nlen - int k = int (target + 1) + int (endp - (source + 1 + k))"
        using True less.prems k by auto
      from less.hyps [OF this] show ?thesis unfolding step sh tk un by auto
    next
      case plain: False
      have un: "unescape (slice source endp buf) = buf ! source # unescape ?s"
      proof -
        have "\<not> (buf ! source = BSLASH \<and> ?s \<noteq> [])" using plain ls by auto
        then show ?thesis unfolding sl by (auto simp: unescape.simps(2))
      qed
      have step: "stripc_loop buf endp source target nlen =
          stripc_loop (buf[target := buf ! source]) endp (source + 1) (target + 1) nlen"
        by (subst stripc_step [OF True less.prems(3)]) (rule if_not_P [OF plain])
      have sh: "slice (source + 1) endp (buf[target := buf ! source]) = ?s"
        by (rule slice_update_before) (use less.prems in simp)
      have "endp - (source + 1) < endp - source" "target + 1 \<le> source + 1" "source + 1 \<le> endp"
        "endp \<le> length (buf[target := buf ! source])" "nlen = int (target + 1) + int (endp - (source + 1))"
        using True less.prems by auto
      from less.hyps [OF this] show ?thesis unfolding step sh tk un by auto
    qed
  qed
qed

lemma stripcslashes_unescape:
  assumes "length s < length buf" "take (length s) buf = s"
  shows "\<exists>b. xdebug_stripcslashes buf (length s) = (b, int (length (unescape s))) \<and> length b = length buf \<and>
           take (length (unescape s)) b = unescape s"
proof -
  have sl: "slice 0 (length s) buf = s" using assms by (simp add: slice_def)
  obtain b n where b: "stripc_loop buf (length s) 0 0 (int (length s)) = (b, n, int n)" "n \<le> length s"
    "length b = length buf" "take n b = unescape s"
    using stripc_loop_unescape [of 0 0 "length s" buf "int (length s)"] assms(1) sl by auto
  have "length (take n b) = n" using b(2,3) assms(1) by simp
  then have n: "n = length (unescape s)" unfolding b(4) by (rule sym)
  show ?thesis
    by (rule exI [of _ "if n \<noteq> 0 then b[n := NUL] else b"])
      (use b n in \<open>auto simp: xdebug_stripcslashes_def\<close>)
qed

text \<open>What a client has to write to get any text through: a backslash before backslashes and quotes.\<close>

fun escape_quoted :: "string \<Rightarrow> string" where
  "escape_quoted [] = []"
| "escape_quoted (c # cs) = (if c = BSLASH \<or> c = DQUOTE then BSLASH # c # escape_quoted cs else c # escape_quoted cs)"

lemma unescape_escape: "unescape (escape_quoted s) = s"
proof (induction s)
  case (Cons c s)
  have "escape_of (DQUOTE # t) = (DQUOTE, 1)" for t
    by (simp add: escape_of_def simple_escape_def octal_digits_def isoctal_def ord_def)
  moreover have "escape_of (BSLASH # t) = (BSLASH, 1)" for t
    by (simp add: escape_of_def simple_escape_def)
  ultimately show ?case using Cons by (auto simp: unescape.simps(2))
qed simp

end
