(* ===== verification/Xd_Crc32.thy ===== *)
theory Xd_Crc32
  imports Xd_Prelude
begin

text \<open>
  The checksum of \<open>src/lib/crc32.c\<close>, which names the trace and profiler output files (\<open>%c\<close>): the lookup
  table as the source spells it, the byte loop, and a proof that the table-driven loop computes the
  bit-by-bit CRC with the reversed polynomial \<open>0xEDB88320\<close>.  \<open>unsigned int\<close> is a 32-bit word.
\<close>

unbundle bit_operations_syntax

section \<open>The table and the loop\<close>

definition xdebug_crc32tab :: "32 word list" where
  "xdebug_crc32tab =
    [
     0x00000000, 0x77073096, 0xee0e612c, 0x990951ba, 0x076dc419, 0x706af48f, 0xe963a535, 0x9e6495a3,
     0x0edb8832, 0x79dcb8a4, 0xe0d5e91e, 0x97d2d988, 0x09b64c2b, 0x7eb17cbd, 0xe7b82d07, 0x90bf1d91,
     0x1db71064, 0x6ab020f2, 0xf3b97148, 0x84be41de, 0x1adad47d, 0x6ddde4eb, 0xf4d4b551, 0x83d385c7,
     0x136c9856, 0x646ba8c0, 0xfd62f97a, 0x8a65c9ec, 0x14015c4f, 0x63066cd9, 0xfa0f3d63, 0x8d080df5,
     0x3b6e20c8, 0x4c69105e, 0xd56041e4, 0xa2677172, 0x3c03e4d1, 0x4b04d447, 0xd20d85fd, 0xa50ab56b,
     0x35b5a8fa, 0x42b2986c, 0xdbbbc9d6, 0xacbcf940, 0x32d86ce3, 0x45df5c75, 0xdcd60dcf, 0xabd13d59,
     0x26d930ac, 0x51de003a, 0xc8d75180, 0xbfd06116, 0x21b4f4b5, 0x56b3c423, 0xcfba9599, 0xb8bda50f,
     0x2802b89e, 0x5f058808, 0xc60cd9b2, 0xb10be924, 0x2f6f7c87, 0x58684c11, 0xc1611dab, 0xb6662d3d,
     0x76dc4190, 0x01db7106, 0x98d220bc, 0xefd5102a, 0x71b18589, 0x06b6b51f, 0x9fbfe4a5, 0xe8b8d433,
     0x7807c9a2, 0x0f00f934, 0x9609a88e, 0xe10e9818, 0x7f6a0dbb, 0x086d3d2d, 0x91646c97, 0xe6635c01,
     0x6b6b51f4, 0x1c6c6162, 0x856530d8, 0xf262004e, 0x6c0695ed, 0x1b01a57b, 0x8208f4c1, 0xf50fc457,
     0x65b0d9c6, 0x12b7e950, 0x8bbeb8ea, 0xfcb9887c, 0x62dd1ddf, 0x15da2d49, 0x8cd37cf3, 0xfbd44c65,
     0x4db26158, 0x3ab551ce, 0xa3bc0074, 0xd4bb30e2, 0x4adfa541, 0x3dd895d7, 0xa4d1c46d, 0xd3d6f4fb,
     0x4369e96a, 0x346ed9fc, 0xad678846, 0xda60b8d0, 0x44042d73, 0x33031de5, 0xaa0a4c5f, 0xdd0d7cc9,
     0x5005713c, 0x270241aa, 0xbe0b1010, 0xc90c2086, 0x5768b525, 0x206f85b3, 0xb966d409, 0xce61e49f,
     0x5edef90e, 0x29d9c998, 0xb0d09822, 0xc7d7a8b4, 0x59b33d17, 0x2eb40d81, 0xb7bd5c3b, 0xc0ba6cad,
     0xedb88320, 0x9abfb3b6, 0x03b6e20c, 0x74b1d29a, 0xead54739, 0x9dd277af, 0x04db2615, 0x73dc1683,
     0xe3630b12, 0x94643b84, 0x0d6d6a3e, 0x7a6a5aa8, 0xe40ecf0b, 0x9309ff9d, 0x0a00ae27, 0x7d079eb1,
     0xf00f9344, 0x8708a3d2, 0x1e01f268, 0x6906c2fe, 0xf762575d, 0x806567cb, 0x196c3671, 0x6e6b06e7,
     0xfed41b76, 0x89d32be0, 0x10da7a5a, 0x67dd4acc, 0xf9b9df6f, 0x8ebeeff9, 0x17b7be43, 0x60b08ed5,
     0xd6d6a3e8, 0xa1d1937e, 0x38d8c2c4, 0x4fdff252, 0xd1bb67f1, 0xa6bc5767, 0x3fb506dd, 0x48b2364b,
     0xd80d2bda, 0xaf0a1b4c, 0x36034af6, 0x41047a60, 0xdf60efc3, 0xa867df55, 0x316e8eef, 0x4669be79,
     0xcb61b38c, 0xbc66831a, 0x256fd2a0, 0x5268e236, 0xcc0c7795, 0xbb0b4703, 0x220216b9, 0x5505262f,
     0xc5ba3bbe, 0xb2bd0b28, 0x2bb45a92, 0x5cb36a04, 0xc2d7ffa7, 0xb5d0cf31, 0x2cd99e8b, 0x5bdeae1d,
     0x9b64c2b0, 0xec63f226, 0x756aa39c, 0x026d930a, 0x9c0906a9, 0xeb0e363f, 0x72076785, 0x05005713,
     0x95bf4a82, 0xe2b87a14, 0x7bb12bae, 0x0cb61b38, 0x92d28e9b, 0xe5d5be0d, 0x7cdcefb7, 0x0bdbdf21,
     0x86d3d2d4, 0xf1d4e242, 0x68ddb3f8, 0x1fda836e, 0x81be16cd, 0xf6b9265b, 0x6fb077e1, 0x18b74777,
     0x88085ae6, 0xff0f6a70, 0x66063bca, 0x11010b5c, 0x8f659eff, 0xf862ae69, 0x616bffd3, 0x166ccf45,
     0xa00ae278, 0xd70dd2ee, 0x4e048354, 0x3903b3c2, 0xa7672661, 0xd06016f7, 0x4969474d, 0x3e6e77db,
     0xaed16a4a, 0xd9d65adc, 0x40df0b66, 0x37d83bf0, 0xa9bcae53, 0xdebb9ec5, 0x47b2cf7f, 0x30b5ffe9,
     0xbdbdf21c, 0xcabac28a, 0x53b39330, 0x24b4a3a6, 0xbad03605, 0xcdd70693, 0x54de5729, 0x23d967bf,
     0xb3667a2e, 0xc4614ab8, 0x5d681b02, 0x2a6f2b94, 0xb40bbe37, 0xc30c8ea1, 0x5a05df1b, 0x2d02ef8d]"

definition XDEBUG_CRC32 :: "32 word \<Rightarrow> char \<Rightarrow> 32 word" where
  "XDEBUG_CRC32 crc ch = drop_bit 8 crc XOR (xdebug_crc32tab ! unat ((crc XOR of_nat (ord ch)) AND 0xff))"

definition xdebug_crc32 :: "string \<Rightarrow> int" where
  "xdebug_crc32 s = uint (NOT (foldl XDEBUG_CRC32 (NOT 0) s))"

section \<open>The bit-by-bit reference\<close>

definition crc_bit :: "32 word \<Rightarrow> 32 word" where
  "crc_bit x = drop_bit 1 x XOR (if bit x 0 then 0xEDB88320 else 0)"

definition crc_byte :: "32 word \<Rightarrow> char \<Rightarrow> 32 word" where
  "crc_byte crc ch = (crc_bit ^^ 8) (crc XOR of_nat (ord ch))"

definition crc32_reference :: "string \<Rightarrow> int" where
  "crc32_reference s = uint (NOT (foldl crc_byte (NOT 0) s))"

lemma crc_table_length [simp]: "length xdebug_crc32tab = 256"
  by (simp only: xdebug_crc32tab_def) simp

text \<open>The table is checked entry by entry, on integers.\<close>

definition crc_bit_int :: "int \<Rightarrow> int" where
  "crc_bit_int k = (if even k then k div 2 else (k div 2) XOR 0xEDB88320)"

lemma crc_bit_int_simps [simp]:
  "crc_bit_int (numeral (num.Bit0 k)) = numeral k"
  "crc_bit_int (numeral (num.Bit1 k)) = numeral k XOR 0xEDB88320"
  "crc_bit_int 0 = 0" "crc_bit_int 1 = 0xEDB88320"
  by (simp_all add: crc_bit_int_def)

definition crc_byte_int :: "int \<Rightarrow> int" where
  "crc_byte_int k =
     crc_bit_int (crc_bit_int (crc_bit_int (crc_bit_int (crc_bit_int (crc_bit_int (crc_bit_int (crc_bit_int k)))))))"

lemma uint_crc_bit: "uint (crc_bit x) = crc_bit_int (uint x)"
proof -
  have "uint (drop_bit 1 x) = uint x div 2" by (simp add: drop_bit_eq_div uint_div_distrib)
  moreover have "bit x 0 \<longleftrightarrow> bit (uint x) 0" by (simp only: bit_unsigned_iff) simp
  then have "bit x 0 \<longleftrightarrow> odd (uint x)" by (simp only: bit_0)
  ultimately show ?thesis by (simp add: crc_bit_def crc_bit_int_def unsigned_xor_eq)
qed

lemma uint_crc_bits: "uint ((crc_bit ^^ 8) x) = crc_byte_int (uint x)"
  by (simp add: eval_nat_numeral uint_crc_bit crc_byte_int_def)

lemma crc_table_int: "map uint xdebug_crc32tab = map crc_byte_int [0..255]"
  by (simp add: xdebug_crc32tab_def crc_byte_int_def upto_rec1 [of 0] upto_rec1 [of 1] upto_rec_numeral)

lemma crc_table_nth:
  assumes "i < 256" shows "xdebug_crc32tab ! i = (crc_bit ^^ 8) (word_of_nat i)"
proof -
  have "uint (xdebug_crc32tab ! i) = map uint xdebug_crc32tab ! i" using assms by simp
  also have "\<dots> = crc_byte_int (int i)" using assms by (simp only: crc_table_int) simp
  also have "int i = uint (word_of_nat i :: 32 word)" using assms by (simp add: unsigned_of_nat take_bit_nat_eq_self)
  finally show ?thesis by (simp only: uint_crc_bits [symmetric] word_uint_eq_iff)
qed

lemma crc_bit_xor: "crc_bit (a XOR b) = crc_bit a XOR crc_bit b"
  by (rule bit_word_eqI) (auto simp: crc_bit_def bit_xor_iff bit_drop_bit_eq)

lemma crc_bits_xor: "(crc_bit ^^ n) (a XOR b) = (crc_bit ^^ n) a XOR (crc_bit ^^ n) b"
  by (induction n) (simp_all add: crc_bit_xor)

lemma crc_bits_high:
  "(\<And>i. i < n \<Longrightarrow> \<not> bit a i) \<Longrightarrow> (crc_bit ^^ n) a = drop_bit n a"
proof (induction n arbitrary: a)
  case (Suc n)
  have "crc_bit a = drop_bit 1 a" using Suc.prems [of 0] by (simp add: crc_bit_def)
  moreover have "(crc_bit ^^ n) (drop_bit 1 a) = drop_bit n (drop_bit 1 a)"
    by (rule Suc.IH) (use Suc.prems in \<open>auto simp: bit_drop_bit_eq\<close>)
  ultimately show ?case by (simp only: funpow_Suc_right comp_apply) (simp add: drop_bit_drop_bit)
qed simp

lemma crc_step: "XDEBUG_CRC32 crc ch = crc_byte crc ch"
proof -
  let ?x = "crc XOR of_nat (ord ch)"
  have lo: "unat (?x AND 0xff) < 256"
  proof -
    have "?x AND 0xff = take_bit 8 ?x" by (simp add: take_bit_eq_mask mask_eq_exp_minus_1)
    then show ?thesis by (simp only: unsigned_take_bit_eq) (rule take_bit_nat_less_exp [of 8, simplified])
  qed
  have x: "?x = (?x AND NOT 0xff) XOR (?x AND 0xff)"
    by (rule bit_word_eqI) (auto simp: bit_simps)
  have m: "bit (0xff :: 32 word) i \<longleftrightarrow> i < 8" for i
  proof -
    have "(0xff :: 32 word) = mask 8" by (simp add: mask_eq_exp_minus_1)
    then show ?thesis by (simp only: bit_mask_iff) (auto)
  qed
  have hi: "(crc_bit ^^ 8) (?x AND NOT 0xff) = drop_bit 8 (?x AND NOT 0xff)"
    by (rule crc_bits_high) (simp only: bit_and_iff bit_not_iff m, simp)
  have "drop_bit 8 (?x AND NOT 0xff) = drop_bit 8 crc"
  proof (rule bit_word_eqI)
    fix n assume "n < LENGTH(32)"
    have "\<not> bit (word_of_nat (ord ch) :: 32 word) (8 + n)"
    proof -
      have "ord ch < 2 ^ (8 + n)" using ord_less_256 [of ch] by (simp add: power_add) (metis One_nat_def ord_less_256 less_le_trans mult_le_mono2 mult.right_neutral one_le_power one_le_numeral)
      then have "\<not> bit (ord ch) (8 + n)" by (simp add: bit_iff_odd)
      then show ?thesis by (simp add: bit_of_nat_iff)
    qed
    then show "bit (drop_bit 8 (?x AND NOT 0xff)) n = bit (drop_bit 8 crc) n"
      by (auto simp only: bit_drop_bit_eq comp_apply bit_and_iff bit_not_iff bit_xor_iff m) (auto dest: bit_imp_le_length)
  qed
  moreover have "(crc_bit ^^ 8) (?x AND 0xff) = xdebug_crc32tab ! unat (?x AND 0xff)"
    using lo by (simp only: crc_table_nth of_nat_unat ucast_id)
  ultimately show ?thesis
    unfolding crc_byte_def by (subst x) (simp only: crc_bits_xor hi XDEBUG_CRC32_def)
qed

lemma crc32_loop: "foldl XDEBUG_CRC32 c s = foldl crc_byte c s"
  by (induction s arbitrary: c) (simp_all add: crc_step)

lemma crc32_bounds: "0 \<le> xdebug_crc32 s" "xdebug_crc32 s < 2 ^ 32"
  using unsigned_less [of "NOT (foldl XDEBUG_CRC32 (NOT 0) s)"] by (simp_all add: xdebug_crc32_def)

end
