(* ===== verification/Xd_Cmd_Parser.thy ===== *)
theory Xd_Cmd_Parser
  imports Xd_Str Xd_Textutil
begin

text \<open>
  The parser of DBGp command lines, \<open>src/lib/cmd_parser.c\<close> (and the slots of \<open>cmd_parser.h\<close>): the state
  machine over the bytes of a line, the option slots it fills, and the proof that every line written the
  way the protocol prescribes comes back as its options.
\<close>

section \<open>The parser\<close>

definition XDEBUG_ERROR_OK :: int where "XDEBUG_ERROR_OK = 0"
definition XDEBUG_ERROR_PARSE :: int where "XDEBUG_ERROR_PARSE = 1"
definition XDEBUG_ERROR_DUP_ARG :: int where "XDEBUG_ERROR_DUP_ARG = 2"
definition XDEBUG_ERROR_INVALID_ARGS :: int where "XDEBUG_ERROR_INVALID_ARGS = 3"
definition XDEBUG_ERROR_UNIMPLEMENTED :: int where "XDEBUG_ERROR_UNIMPLEMENTED = 4"
definition XDEBUG_ERROR_COMMAND_UNAVAILABLE :: int where "XDEBUG_ERROR_COMMAND_UNAVAILABLE = 5"

type_synonym xdebug_dbgp_arg = "xdebug_str option list"

definition dbgp_arg_empty :: xdebug_dbgp_arg where
  "dbgp_arg_empty = replicate 27 None"

definition opt_index :: "char \<Rightarrow> int" where
  "opt_index opt = (if opt = CHR ''-'' then 26 else int (ord opt) - 97)"

definition CMD_OPTION_SET :: "xdebug_dbgp_arg \<Rightarrow> char \<Rightarrow> bool" where
  "CMD_OPTION_SET args opt = (args ! nat (opt_index opt) \<noteq> None)"

definition CMD_OPTION_XDEBUG_STR :: "xdebug_dbgp_arg \<Rightarrow> char \<Rightarrow> xdebug_str option" where
  "CMD_OPTION_XDEBUG_STR args opt = args ! nat (opt_index opt)"

datatype cmd_state = STATE_NORMAL | STATE_QUOTED | STATE_OPT_FOLLOWS | STATE_SEP_FOLLOWS
  | STATE_VALUE_FOLLOWS_FIRST_CHAR | STATE_VALUE_FOLLOWS | STATE_SKIP_CHAR | STATE_ESCAPED_CHAR_FOLLOWS

record parser =
  pr_state :: cmd_state
  pr_opt :: char
  pr_begin :: nat
  pr_charescaped :: bool
  pr_args :: xdebug_dbgp_arg

datatype cmd_outcome = Goto_parse_error | Goto_duplicate_opts | Next parser

definition is_opt_letter :: "char \<Rightarrow> bool" where
  "is_opt_letter opt \<longleftrightarrow> \<not> ((ord opt < 97 \<or> ord opt > 122) \<and> opt \<noteq> CHR ''-'')"

text \<open>Fill the slot of the current option, unless it is taken; a slot outside the array is \<open>None\<close>.\<close>

definition store_option :: "parser \<Rightarrow> xdebug_str \<Rightarrow> cmd_state \<Rightarrow> cmd_outcome option" where
  "store_option ps v st =
     (let i = opt_index (pr_opt ps) in
      if i < 0 \<or> i \<ge> int (length (pr_args ps)) then None
      else if pr_args ps ! nat i \<noteq> None then Some Goto_duplicate_opts
      else Some (Next (ps\<lparr>pr_args := (pr_args ps)[nat i := Some v], pr_state := st\<rparr>)))"

text \<open>The value of a quoted option is unescaped inside its own buffer.\<close>

definition unescaped_str :: "string \<Rightarrow> xdebug_str" where
  "unescaped_str s =
     (let v = xdebug_str_create s; (d, len) = xdebug_stripcslashes (map the (str_mem v)) (length s)
      in v\<lparr>xs_d := Some (map Some d), xs_l := nat len\<rparr>)"

definition cmd_step :: "string \<Rightarrow> nat \<Rightarrow> parser \<Rightarrow> cmd_outcome option" where
  "cmd_step line ptr ps =
     (let c = cget line ptr in
      case pr_state ps of
        STATE_NORMAL \<Rightarrow>
          if c \<noteq> CHR ''-'' then Some Goto_parse_error else Some (Next (ps\<lparr>pr_state := STATE_OPT_FOLLOWS\<rparr>))
      | STATE_OPT_FOLLOWS \<Rightarrow>
          if is_opt_letter c then Some (Next (ps\<lparr>pr_opt := c, pr_state := STATE_SEP_FOLLOWS\<rparr>))
          else Some Goto_parse_error
      | STATE_SEP_FOLLOWS \<Rightarrow>
          if c \<noteq> CHR '' '' then Some Goto_parse_error
          else Some (Next (ps\<lparr>pr_state := STATE_VALUE_FOLLOWS_FIRST_CHAR, pr_begin := ptr + 1\<rparr>))
      | STATE_VALUE_FOLLOWS_FIRST_CHAR \<Rightarrow>
          if c = DQUOTE \<and> pr_opt ps \<noteq> CHR ''-''
          then Some (Next (ps\<lparr>pr_begin := ptr + 1, pr_state := STATE_QUOTED\<rparr>))
          else Some (Next (ps\<lparr>pr_state := STATE_VALUE_FOLLOWS\<rparr>))
      | STATE_VALUE_FOLLOWS \<Rightarrow>
          if (c = CHR '' '' \<and> pr_opt ps \<noteq> CHR ''-'') \<or> c = NUL
          then store_option ps (xdebug_str_create (slice (pr_begin ps) ptr line)) STATE_NORMAL
          else Some (Next ps)
      | STATE_QUOTED \<Rightarrow>
          if c = BSLASH then Some (Next (ps\<lparr>pr_state := STATE_ESCAPED_CHAR_FOLLOWS\<rparr>))
          else if c = DQUOTE then
            (if pr_charescaped ps then Some (Next (ps\<lparr>pr_charescaped := False\<rparr>))
             else store_option ps (unescaped_str (slice (pr_begin ps) ptr line)) STATE_SKIP_CHAR)
          else Some (Next ps)
      | STATE_SKIP_CHAR \<Rightarrow> Some (Next (ps\<lparr>pr_state := STATE_NORMAL\<rparr>))
      | STATE_ESCAPED_CHAR_FOLLOWS \<Rightarrow> Some (Next (ps\<lparr>pr_state := STATE_QUOTED\<rparr>)))"

function cmd_loop :: "string \<Rightarrow> nat \<Rightarrow> parser \<Rightarrow> (int \<times> xdebug_dbgp_arg) option" where
  "cmd_loop line ptr ps =
     (let p = ptr + 1 in
      case cmd_step line p ps of
        None \<Rightarrow> None
      | Some Goto_parse_error \<Rightarrow> Some (XDEBUG_ERROR_PARSE, pr_args ps)
      | Some Goto_duplicate_opts \<Rightarrow> Some (XDEBUG_ERROR_DUP_ARG, pr_args ps)
      | Some (Next ps') \<Rightarrow> if cget line p \<noteq> NUL then cmd_loop line p ps' else Some (XDEBUG_ERROR_OK, pr_args ps'))"
  by pat_completeness auto
termination
  by (relation "measure (\<lambda>(line, ptr, ps). length line - ptr)") (auto simp: cget_def split: if_splits)

declare cmd_loop.simps [simp del]

definition parser_start :: parser where
  "parser_start = \<lparr>pr_state = STATE_NORMAL, pr_opt = CHR '' '', pr_begin = 0, pr_charescaped = False,
                   pr_args = dbgp_arg_empty\<rparr>"

text \<open>The error code, the command (\<open>None\<close>: left at \<open>NULL\<close>) and the option slots.\<close>

definition xdebug_cmd_parse :: "string \<Rightarrow> (int \<times> string option \<times> xdebug_dbgp_arg) option" where
  "xdebug_cmd_parse line =
     (case strchr line (CHR '' '') of
        None \<Rightarrow> if length line \<noteq> 0 then Some (XDEBUG_ERROR_OK, Some line, dbgp_arg_empty)
                else Some (XDEBUG_ERROR_PARSE, None, dbgp_arg_empty)
      | Some ptr \<Rightarrow>
          (case cmd_loop line ptr parser_start of None \<Rightarrow> None
           | Some (code, args) \<Rightarrow> Some (code, Some (take ptr line), args)))"

text \<open>The slots whose strings the destructor releases.\<close>

definition xdebug_cmd_arg_dtor :: "xdebug_dbgp_arg \<Rightarrow> str_freed list" where
  "xdebug_cmd_arg_dtor arg = map (xdebug_str_free \<circ> the) (filter (\<lambda>v. v \<noteq> None) (take 27 arg))"

section \<open>The slots stay well formed\<close>

definition args_ok :: "xdebug_dbgp_arg \<Rightarrow> bool" where
  "args_ok args \<longleftrightarrow> length args = 27 \<and> (\<forall>v \<in> set args. v = None \<or> str_ok (the v))"

definition parser_ok :: "parser \<Rightarrow> bool" where
  "parser_ok ps \<longleftrightarrow> args_ok (pr_args ps) \<and> \<not> pr_charescaped ps \<and>
     (pr_state ps \<notin> {STATE_NORMAL, STATE_OPT_FOLLOWS, STATE_SKIP_CHAR} \<longrightarrow> is_opt_letter (pr_opt ps))"

lemma args_ok_empty [simp]: "args_ok dbgp_arg_empty"
  by (simp add: args_ok_def dbgp_arg_empty_def)

lemma opt_index_bounds: "is_opt_letter c \<Longrightarrow> 0 \<le> opt_index c \<and> opt_index c < 27"
  by (auto simp: is_opt_letter_def opt_index_def)

lemma opt_index_inject:
  "is_opt_letter c \<Longrightarrow> is_opt_letter d \<Longrightarrow> nat (opt_index c) = nat (opt_index d) \<longleftrightarrow> c = d"
  by (auto simp: is_opt_letter_def opt_index_def nat_diff_distrib split: if_splits)
    (metis add_diff_inverse_nat eq_diff_iff ord_inject not_less)+

lemma unescaped_str_ok: "str_ok (unescaped_str s)" "str_text (unescaped_str s) = unescape s"
proof -
  define v where "v = xdebug_str_create s"
  have mem: "map the (str_mem v) = s @ [NUL]" by (simp add: v_def xdebug_str_create_def str_mem_def)
  obtain b where b: "xdebug_stripcslashes (s @ [NUL]) (length s) = (b, int (length (unescape s)))"
    "length b = length (s @ [NUL])" "take (length (unescape s)) b = unescape s"
    using stripcslashes_unescape [of s "s @ [NUL]"] by auto
  have nul: "b ! length (unescape s) = NUL"
  proof (cases "unescape s = []")
    case True
    have "s = []"
    proof (cases s)
      case (Cons c cs)
      with True show ?thesis by (simp add: unescape.simps(2) split: if_splits)
    qed
    then show ?thesis using b(1) by (auto simp: xdebug_stripcslashes_def stripc_loop.simps)
  next
    case False
    then have "\<exists>b' n. xdebug_stripcslashes (s @ [NUL]) (length s) = (b'[n := NUL], int n) \<and> n < length b'"
      using stripc_loop_unescape [of 0 0 "length s" "s @ [NUL]" "int (length s)"] b(1)
      by (auto simp: xdebug_stripcslashes_def split: if_splits)
    with b(1) show ?thesis by auto
  qed
  have split: "b = unescape s @ NUL # drop (Suc (length (unescape s))) b"
    using id_take_nth_drop [of "length (unescape s)" b] b(2,3) nul unescape_length [of s] by simp
  have u: "unescaped_str s = v\<lparr>xs_d := Some (map Some b), xs_l := length (unescape s)\<rparr>"
    using mem b(1) by (simp add: unescaped_str_def v_def Let_def)
  have "map Some b = map Some (unescape s) @ Some NUL # map Some (drop (Suc (length (unescape s))) b)"
    by (subst split) simp
  then show "str_ok (unescaped_str s)" "str_text (unescaped_str s) = unescape s"
    using str_okI [of "unescaped_str s" "unescape s" "map Some (drop (Suc (length (unescape s))) b)"]
      b(2) unescape_length [of s]
    by (simp_all add: u v_def xdebug_str_create_def)
qed

lemma store_option_ok:
  assumes "parser_ok ps" "is_opt_letter (pr_opt ps)" "str_ok v" "st \<in> {STATE_NORMAL, STATE_SKIP_CHAR}"
  shows "store_option ps v st = Some Goto_duplicate_opts \<or>
         (\<exists>ps'. store_option ps v st = Some (Next ps') \<and> parser_ok ps')"
  using assms opt_index_bounds [OF assms(2)]
  by (auto simp: store_option_def Let_def parser_ok_def args_ok_def dest: set_update_subset_insert [THEN subsetD])

lemma cmd_step_ok:
  assumes "parser_ok ps"
  shows "cmd_step line ptr ps \<noteq> None \<and> (\<forall>ps'. cmd_step line ptr ps = Some (Next ps') \<longrightarrow> parser_ok ps')"
proof (cases "pr_state ps")
  case STATE_VALUE_FOLLOWS
  then have "is_opt_letter (pr_opt ps)" using assms by (simp add: parser_ok_def)
  with STATE_VALUE_FOLLOWS assms store_option_ok [OF assms, of "xdebug_str_create (slice (pr_begin ps) ptr line)" STATE_NORMAL]
  show ?thesis by (auto simp: cmd_step_def Let_def)
next
  case STATE_QUOTED
  then have "is_opt_letter (pr_opt ps)" "\<not> pr_charescaped ps" using assms by (simp_all add: parser_ok_def)
  with STATE_QUOTED assms store_option_ok [OF assms, of "unescaped_str (slice (pr_begin ps) ptr line)" STATE_SKIP_CHAR]
  show ?thesis by (auto simp: cmd_step_def Let_def unescaped_str_ok parser_ok_def)
qed (use assms in \<open>auto simp: cmd_step_def Let_def parser_ok_def\<close>)

lemma cmd_loop_ok:
  "parser_ok ps \<Longrightarrow> \<exists>code args. cmd_loop line ptr ps = Some (code, args) \<and> args_ok args \<and>
     code \<in> {XDEBUG_ERROR_OK, XDEBUG_ERROR_PARSE, XDEBUG_ERROR_DUP_ARG}"
proof (induction line ptr ps rule: cmd_loop.induct)
  case (1 line ptr ps)
  have a: "args_ok (pr_args ps)" using 1(2) by (simp add: parser_ok_def)
  show ?case
  proof (cases "cmd_step line (ptr + 1) ps")
    case None
    with cmd_step_ok [OF 1(2)] show ?thesis by blast
  next
    case (Some r)
    show ?thesis
    proof (cases r)
      case (Next ps')
      then have ok: "parser_ok ps'" using cmd_step_ok [OF 1(2)] Some by blast
      show ?thesis
      proof (cases "cget line (ptr + 1) = NUL")
        case True
        with Some Next ok show ?thesis by (subst cmd_loop.simps) (simp add: parser_ok_def)
      next
        case False
        from 1(1) [OF refl Some Next False ok] Some Next False show ?thesis
          by (subst cmd_loop.simps) simp
      qed
    qed (use Some a in \<open>subst cmd_loop.simps; simp\<close>)+
  qed
qed

lemma parser_ok_start [simp]: "parser_ok parser_start"
  by (simp add: parser_ok_def parser_start_def)

section \<open>Command lines and their options\<close>

text \<open>
  The protocol's way of writing an option: a letter with a bare word, a letter with a quoted text, or,
  last on the line, \<open>--\<close> with the data of the command.
\<close>

datatype cmd_option = Bare char string | Quoted char string

fun option_letter :: "cmd_option \<Rightarrow> char" where
  "option_letter (Bare c v) = c"
| "option_letter (Quoted c v) = c"

fun option_value :: "cmd_option \<Rightarrow> string" where
  "option_value (Bare c v) = v"
| "option_value (Quoted c v) = v"

fun option_text :: "cmd_option \<Rightarrow> string" where
  "option_text (Bare c v) = [CHR '' '', CHR ''-'', c, CHR '' ''] @ v"
| "option_text (Quoted c v) = [CHR '' '', CHR ''-'', c, CHR '' '', DQUOTE] @ escape_quoted v @ [DQUOTE]"

fun option_ok :: "cmd_option \<Rightarrow> bool" where
  "option_ok (Bare c v) \<longleftrightarrow> 97 \<le> ord c \<and> ord c \<le> 122 \<and> v \<noteq> [] \<and> hd v \<notin> {DQUOTE, CHR '' ''} \<and> CHR '' '' \<notin> set v \<and> NUL \<notin> set v"
| "option_ok (Quoted c v) \<longleftrightarrow> 97 \<le> ord c \<and> ord c \<le> 122 \<and> NUL \<notin> set v"

definition data_text :: "string option \<Rightarrow> string" where
  "data_text od = (case od of None \<Rightarrow> [] | Some d \<Rightarrow> [CHR '' '', CHR ''-'', CHR ''-'', CHR '' ''] @ d)"

definition cmd_line :: "string \<Rightarrow> cmd_option list \<Rightarrow> string option \<Rightarrow> string" where
  "cmd_line cmd opts od = cmd @ concat (map option_text opts) @ data_text od"

text \<open>The slots a list of options fills; the builders of the values are those of the parser.\<close>

fun option_str :: "cmd_option \<Rightarrow> xdebug_str" where
  "option_str (Bare c v) = xdebug_str_create v"
| "option_str (Quoted c v) = unescaped_str (escape_quoted v)"

lemma option_str_text: "str_text (option_str opt) = option_value opt"
  by (cases opt) (simp_all add: unescaped_str_ok unescape_escape)

lemma option_ok_letter: "option_ok opt \<Longrightarrow> is_opt_letter (option_letter opt) \<and> option_letter opt \<noteq> CHR ''-''"
  by (cases opt) (auto simp: is_opt_letter_def ord_def)

subsection \<open>Running the machine over known bytes\<close>

text \<open>
  \<open>runs ps bs ps'\<close>: from the byte before \<open>bs\<close>, wherever it stands in a line, the machine reads \<open>bs\<close> and is
  then in \<open>ps'\<close>; the positions in the state are relative to the line.
\<close>

definition at :: "string \<Rightarrow> nat \<Rightarrow> string \<Rightarrow> bool" where
  "at line p bs \<longleftrightarrow> take (length bs) (drop p line) = bs \<and> p + length bs \<le> length line"

lemma at_Nil [simp]: "at line p [] \<longleftrightarrow> p \<le> length line"
  by (simp add: at_def)

lemma at_Cons: "at line p (b # bs) \<longleftrightarrow> p < length line \<and> line ! p = b \<and> at line (p + 1) bs"
proof (cases "p < length line")
  case True
  then have "drop p line = line ! p # drop (p + 1) line" by (simp add: Cons_nth_drop_Suc)
  with True show ?thesis by (auto simp: at_def)
qed (simp add: at_def)

lemma at_append: "at line p (as @ bs) \<longleftrightarrow> at line p as \<and> at line (p + length as) bs"
  by (induction as arbitrary: p) (auto simp: at_Cons, auto simp: at_def)

lemma at_slice: "at line p bs \<Longrightarrow> slice p (p + length bs) line = bs"
  by (simp add: at_def slice_def)

lemma cmd_loop_next:
  "cmd_step line (ptr + 1) ps = Some (Next ps') \<Longrightarrow> cget line (ptr + 1) \<noteq> NUL \<Longrightarrow>
   cmd_loop line ptr ps = cmd_loop line (ptr + 1) ps'"
  by (subst cmd_loop.simps) simp

lemma cmd_loop_stay:
  assumes "at line (ptr + 1) bs" "\<forall>b \<in> set bs. b \<noteq> NUL"
    and stay: "\<And>i. cget line i \<in> set bs \<Longrightarrow> cmd_step line i ps = Some (Next ps)"
  shows "cmd_loop line ptr ps = cmd_loop line (ptr + length bs) ps"
proof -
  have "at line (ptr + 1) cs \<Longrightarrow> set cs \<subseteq> set bs \<Longrightarrow> cmd_loop line ptr ps = cmd_loop line (ptr + length cs) ps" for cs
  proof (induction cs arbitrary: ptr)
    case (Cons c cs)
    then have c: "cget line (ptr + 1) = c" "at line (ptr + 1 + 1) cs" by (simp_all add: at_Cons cget_def)
    then have "cmd_loop line ptr ps = cmd_loop line (ptr + 1) ps"
      using Cons.prems assms(2) stay by (intro cmd_loop_next) auto
    with Cons.IH [of "ptr + 1"] c Cons.prems show ?case by simp
  qed simp
  with assms(1) show ?thesis by blast
qed

text \<open>A quoted text, escapes included, keeps the machine inside the quotes.\<close>

lemma cmd_loop_quoted:
  assumes "pr_state ps = STATE_QUOTED" "at line (ptr + 1) (escape_quoted v)" "NUL \<notin> set v"
  shows "cmd_loop line ptr ps = cmd_loop line (ptr + length (escape_quoted v)) ps"
  using assms(2,3)
proof (induction v arbitrary: ptr)
  case (Cons c v)
  show ?case
  proof (cases "c = BSLASH \<or> c = DQUOTE")
    case True
    let ?esc = "ps\<lparr>pr_state := STATE_ESCAPED_CHAR_FOLLOWS\<rparr>"
    have q: "ps\<lparr>pr_state := STATE_QUOTED\<rparr> = ps" using assms(1) by (cases ps) simp
    have b: "cget line (ptr + 1) = BSLASH" "cget line (ptr + 1 + 1) = c" "at line (ptr + 1 + 1 + 1) (escape_quoted v)"
      using Cons.prems True by (auto simp: at_Cons cget_def)
    have "cmd_loop line ptr ps = cmd_loop line (ptr + 1) ?esc"
      by (rule cmd_loop_next) (use b assms(1) in \<open>simp_all add: cmd_step_def\<close>)
    also have "\<dots> = cmd_loop line (ptr + 1 + 1) ps"
      by (rule cmd_loop_next) (use b q Cons.prems in \<open>auto simp: cmd_step_def\<close>)
    finally show ?thesis using Cons.IH [OF b(3)] Cons.prems True by simp
  next
    case False
    then have b: "cget line (ptr + 1) = c" "at line (ptr + 1 + 1) (escape_quoted v)"
      using Cons.prems by (auto simp: at_Cons cget_def)
    have "cmd_loop line ptr ps = cmd_loop line (ptr + 1) ps"
      by (rule cmd_loop_next) (use b False assms(1) Cons.prems in \<open>auto simp: cmd_step_def\<close>)
    with Cons.IH [OF b(2)] Cons.prems False show ?thesis by simp
  qed
qed simp

text \<open>The three bytes before every value.\<close>

lemma cmd_loop_opt_head:
  assumes "pr_state ps = STATE_NORMAL" "at line (ptr + 1) [CHR ''-'', c, CHR '' '']" "is_opt_letter c" "c \<noteq> NUL"
  shows "cmd_loop line ptr ps = cmd_loop line (ptr + 3)
    (ps\<lparr>pr_opt := c, pr_state := STATE_VALUE_FOLLOWS_FIRST_CHAR, pr_begin := ptr + 4\<rparr>)"
proof -
  have g: "cget line (ptr + 1) = CHR ''-''" "cget line (ptr + 1 + 1) = c" "cget line (ptr + 1 + 1 + 1) = CHR '' ''"
    using assms(2) by (auto simp: at_Cons cget_def)
  have "cmd_loop line ptr ps = cmd_loop line (ptr + 1) (ps\<lparr>pr_state := STATE_OPT_FOLLOWS\<rparr>)"
    by (rule cmd_loop_next) (use g assms(1) in \<open>simp_all add: cmd_step_def\<close>)
  also have "\<dots> = cmd_loop line (ptr + 1 + 1) (ps\<lparr>pr_opt := c, pr_state := STATE_SEP_FOLLOWS\<rparr>)"
    by (rule cmd_loop_next) (use g assms in \<open>simp_all add: cmd_step_def\<close>)
  also have "\<dots> = cmd_loop line (ptr + 1 + 1 + 1)
      (ps\<lparr>pr_opt := c, pr_state := STATE_VALUE_FOLLOWS_FIRST_CHAR, pr_begin := ptr + 4\<rparr>)"
    by (rule cmd_loop_next) (use g in \<open>simp_all add: cmd_step_def\<close>)
  finally show ?thesis by (simp add: numeral_eq_Suc)
qed

definition fill :: "xdebug_dbgp_arg \<Rightarrow> char \<Rightarrow> xdebug_str \<Rightarrow> xdebug_dbgp_arg" where
  "fill args c v = args[nat (opt_index c) := Some v]"

definition free_slot :: "xdebug_dbgp_arg \<Rightarrow> char \<Rightarrow> bool" where
  "free_slot args c \<longleftrightarrow> args ! nat (opt_index c) = None"

lemma store_option_eq:
  assumes "is_opt_letter (pr_opt ps)" "length (pr_args ps) = 27"
  shows "store_option ps v st =
    (if free_slot (pr_args ps) (pr_opt ps)
     then Some (Next (ps\<lparr>pr_args := fill (pr_args ps) (pr_opt ps) v, pr_state := st\<rparr>))
     else Some Goto_duplicate_opts)"
  using opt_index_bounds [OF assms(1)] assms(2) by (auto simp: store_option_def Let_def free_slot_def fill_def)

text \<open>A bare value that ends at \<open>q\<close>, where the parser finds \<open>stop\<close>.\<close>

lemma cmd_loop_bare:
  assumes st: "pr_state ps = STATE_NORMAL" "length (pr_args ps) = 27"
    and c: "is_opt_letter c" "c \<noteq> NUL" and v: "v \<noteq> []" "NUL \<notin> set v"
    and v': "c = CHR ''-'' \<or> (hd v \<noteq> DQUOTE \<and> CHR '' '' \<notin> set v)"
    and at: "at line ptr ([CHR '' '', CHR ''-'', c, CHR '' ''] @ v)" and q: "q = ptr + 4 + length v"
    and stop: "cget line q = NUL \<or> cget line q = CHR '' '' \<and> c \<noteq> CHR ''-''"
  shows "cmd_loop line ptr ps =
    (if free_slot (pr_args ps) c then
       let ps' = ps\<lparr>pr_opt := c, pr_state := STATE_NORMAL, pr_begin := ptr + 4,
                     pr_args := fill (pr_args ps) c (xdebug_str_create v)\<rparr> in
       if cget line q \<noteq> NUL then cmd_loop line q ps' else Some (XDEBUG_ERROR_OK, pr_args ps')
     else Some (XDEBUG_ERROR_DUP_ARG, pr_args ps))"
proof -
  let ?v = "ps\<lparr>pr_opt := c, pr_state := STATE_VALUE_FOLLOWS, pr_begin := ptr + 4\<rparr>"
  obtain d ds where ds: "v = d # ds" using v(1) by (cases v) auto
  have a: "at line (ptr + 1) [CHR ''-'', c, CHR '' '']" "cget line (ptr + 3 + 1) = d" "at line (ptr + 4 + 1) ds"
    "at line (ptr + 4) v"
    using at unfolding ds at_append by (auto simp: at_Cons cget_def numeral_eq_Suc)
  have "cmd_loop line ptr ps = cmd_loop line (ptr + 3)
      (ps\<lparr>pr_opt := c, pr_state := STATE_VALUE_FOLLOWS_FIRST_CHAR, pr_begin := ptr + 4\<rparr>)"
    by (rule cmd_loop_opt_head [OF st(1) a(1) c])
  also have "\<dots> = cmd_loop line (ptr + 3 + 1) ?v"
    by (rule cmd_loop_next) (use a v v' ds in \<open>auto simp: cmd_step_def\<close>)
  also have "ptr + 3 + 1 = ptr + 4" by simp
  also have "cmd_loop line (ptr + 4) ?v = cmd_loop line (ptr + 4 + length ds) ?v"
  proof -
    have "cmd_step line i ?v = Some (Next ?v)" if "cget line i \<in> set ds" for i
    proof -
      have "cget line i \<noteq> NUL" "c = CHR ''-'' \<or> cget line i \<noteq> CHR '' ''" using that v v' ds by auto
      then show ?thesis by (auto simp: cmd_step_def Let_def)
    qed
    from cmd_loop_stay [OF a(3) _ this] v ds show ?thesis by auto
  qed
  also have "ptr + 4 + length ds = q - 1" using q ds by simp
  finally have 1: "cmd_loop line ptr ps = cmd_loop line (q - 1) ?v" .
  have "slice (ptr + 4) q line = v" using at_slice [OF a(4)] q by simp
  then have "cmd_step line q ?v = store_option ?v (xdebug_str_create v) STATE_NORMAL"
    using stop by (auto simp: cmd_step_def)
  also have "\<dots> = (if free_slot (pr_args ps) c
      then Some (Next (ps\<lparr>pr_opt := c, pr_state := STATE_NORMAL, pr_begin := ptr + 4,
                     pr_args := fill (pr_args ps) c (xdebug_str_create v)\<rparr>))
      else Some Goto_duplicate_opts)"
    by (subst store_option_eq) (use c st in simp_all)
  finally have 2: "cmd_step line q ?v = \<dots>" .
  have "q - 1 + 1 = q" using q by simp
  with 2 show ?thesis unfolding 1 by (subst cmd_loop.simps) (simp add: Let_def)
qed

lemma cmd_loop_quoted_value:
  assumes st: "pr_state ps = STATE_NORMAL" "length (pr_args ps) = 27" "\<not> pr_charescaped ps"
    and c: "is_opt_letter c" "c \<noteq> NUL" "c \<noteq> CHR ''-''" and v: "NUL \<notin> set v"
    and at: "at line ptr ([CHR '' '', CHR ''-'', c, CHR '' '', DQUOTE] @ escape_quoted v @ [DQUOTE])"
    and q: "q = ptr + 6 + length (escape_quoted v)"
  shows "cmd_loop line ptr ps =
    (if free_slot (pr_args ps) c then
       let ps' = ps\<lparr>pr_opt := c, pr_state := STATE_NORMAL, pr_begin := ptr + 5,
                     pr_args := fill (pr_args ps) c (unescaped_str (escape_quoted v))\<rparr> in
       if cget line q \<noteq> NUL then cmd_loop line q ps' else Some (XDEBUG_ERROR_OK, pr_args ps')
     else Some (XDEBUG_ERROR_DUP_ARG, pr_args ps))"
proof -
  let ?e = "escape_quoted v"
  let ?v = "ps\<lparr>pr_opt := c, pr_state := STATE_QUOTED, pr_begin := ptr + 5\<rparr>"
  have a: "at line (ptr + 1) [CHR ''-'', c, CHR '' '']" "cget line (ptr + 3 + 1) = DQUOTE" "at line (ptr + 4 + 1) ?e"
    "cget line (ptr + 5 + length ?e) = DQUOTE"
    using at unfolding at_append by (auto simp: at_Cons cget_def numeral_eq_Suc)
  have "cmd_loop line ptr ps = cmd_loop line (ptr + 3)
      (ps\<lparr>pr_opt := c, pr_state := STATE_VALUE_FOLLOWS_FIRST_CHAR, pr_begin := ptr + 4\<rparr>)"
    by (rule cmd_loop_opt_head [OF st(1) a(1) c(1,2)])
  also have "\<dots> = cmd_loop line (ptr + 3 + 1) ?v"
    by (rule cmd_loop_next) (use a c in \<open>auto simp: cmd_step_def\<close>)
  also have "ptr + 3 + 1 = ptr + 4" by simp
  also have "cmd_loop line (ptr + 4) ?v = cmd_loop line (ptr + 4 + length ?e) ?v"
    using cmd_loop_quoted [OF _ a(3) v, of ?v] by simp
  also have "ptr + 4 + length ?e = q - 1 - 1" using q by simp
  finally have 1: "cmd_loop line ptr ps = cmd_loop line (q - 1 - 1) ?v" .
  have "slice (ptr + 5) (q - 1) line = ?e" using at_slice [OF a(3)] q by (simp add: ac_simps)
  moreover have "cget line (q - 1) = DQUOTE" using a(4) q by (simp add: algebra_simps)
  ultimately have "cmd_step line (q - 1) ?v = store_option ?v (unescaped_str ?e) STATE_SKIP_CHAR"
    using st(3) by (simp add: cmd_step_def)
  also have "\<dots> = (if free_slot (pr_args ps) c
      then Some (Next (ps\<lparr>pr_opt := c, pr_state := STATE_SKIP_CHAR, pr_begin := ptr + 5,
                     pr_args := fill (pr_args ps) c (unescaped_str ?e)\<rparr>))
      else Some Goto_duplicate_opts)"
    by (subst store_option_eq) (use c st in simp_all)
  finally have 2: "cmd_step line (q - 1) ?v = \<dots>" .
  have n: "q - 1 - 1 + 1 = q - 1" "q - 1 + 1 = q" using q by simp_all
  show ?thesis
  proof (cases "free_slot (pr_args ps) c")
    case False
    with 2 n show ?thesis unfolding 1 by (subst cmd_loop.simps) (simp add: Let_def)
  next
    case True
    let ?w = "ps\<lparr>pr_opt := c, pr_state := STATE_SKIP_CHAR, pr_begin := ptr + 5, pr_args := fill (pr_args ps) c (unescaped_str ?e)\<rparr>"
    have "cmd_loop line (q - 1 - 1) ?v = cmd_loop line (q - 1) ?w"
      using cmd_loop_next [of line "q - 1 - 1" ?v ?w] 2 n(1) True \<open>cget line (q - 1) = DQUOTE\<close> by simp
    also have "\<dots> = (let ps' = ps\<lparr>pr_opt := c, pr_state := STATE_NORMAL, pr_begin := ptr + 5,
                     pr_args := fill (pr_args ps) c (unescaped_str ?e)\<rparr> in
       if cget line q \<noteq> NUL then cmd_loop line q ps' else Some (XDEBUG_ERROR_OK, pr_args ps'))"
      using n(2) by (cases ps) (subst cmd_loop.simps, simp add: Let_def cmd_step_def)
    finally show ?thesis using True 1 by simp
  qed
qed

text \<open>One option of either kind: its slot is filled and the machine is back between options.\<close>

lemma cmd_loop_option:
  assumes st: "pr_state ps = STATE_NORMAL" "length (pr_args ps) = 27" "\<not> pr_charescaped ps"
    and opt: "option_ok opt" and at: "at line ptr (option_text opt)" and q: "q = ptr + length (option_text opt)"
    and stop: "cget line q = NUL \<or> cget line q = CHR '' ''"
    and free: "free_slot (pr_args ps) (option_letter opt)"
  shows "\<exists>ps'. pr_state ps' = STATE_NORMAL \<and> \<not> pr_charescaped ps' \<and>
    pr_args ps' = fill (pr_args ps) (option_letter opt) (option_str opt) \<and>
    cmd_loop line ptr ps = (if cget line q \<noteq> NUL then cmd_loop line q ps' else Some (XDEBUG_ERROR_OK, pr_args ps'))"
proof (cases opt)
  case (Bare c v)
  have c: "is_opt_letter c" "c \<noteq> CHR ''-''" "c \<noteq> NUL" using option_ok_letter [OF opt] opt Bare by (auto simp: ord_def)
  have v: "v \<noteq> []" "NUL \<notin> set v" "hd v \<noteq> DQUOTE" "CHR '' '' \<notin> set v" using opt Bare by auto
  let ?ps = "ps\<lparr>pr_opt := c, pr_state := STATE_NORMAL, pr_begin := ptr + 4,
                     pr_args := fill (pr_args ps) c (xdebug_str_create v)\<rparr>"
  have "cmd_loop line ptr ps = (if cget line q \<noteq> NUL then cmd_loop line q ?ps else Some (XDEBUG_ERROR_OK, pr_args ?ps))"
    using cmd_loop_bare [OF st(1,2) c(1,3) v(1,2) _ _ _ _, of line ptr q] v c at q stop free Bare by (simp add: Let_def)
  then show ?thesis using st(3) Bare by (intro exI [of _ ?ps]) simp
next
  case (Quoted c v)
  have c: "is_opt_letter c" "c \<noteq> CHR ''-''" "c \<noteq> NUL" using option_ok_letter [OF opt] opt Quoted by (auto simp: ord_def)
  have v: "NUL \<notin> set v" using opt Quoted by simp
  let ?ps = "ps\<lparr>pr_opt := c, pr_state := STATE_NORMAL, pr_begin := ptr + 5,
                     pr_args := fill (pr_args ps) c (unescaped_str (escape_quoted v))\<rparr>"
  have "cmd_loop line ptr ps = (if cget line q \<noteq> NUL then cmd_loop line q ?ps else Some (XDEBUG_ERROR_OK, pr_args ?ps))"
    using cmd_loop_quoted_value [OF st c(1,3,2) v, of line ptr q] at q free Quoted by (simp add: Let_def)
  then show ?thesis using st(3) Quoted by (intro exI [of _ ?ps]) simp
qed

subsection \<open>Whole lines\<close>

fun fill_options :: "xdebug_dbgp_arg \<Rightarrow> cmd_option list \<Rightarrow> xdebug_dbgp_arg" where
  "fill_options args [] = args"
| "fill_options args (opt # opts) = fill_options (fill args (option_letter opt) (option_str opt)) opts"

definition fill_data :: "xdebug_dbgp_arg \<Rightarrow> string option \<Rightarrow> xdebug_dbgp_arg" where
  "fill_data args od = (case od of None \<Rightarrow> args | Some d \<Rightarrow> fill args (CHR ''-'') (xdebug_str_create d))"

definition data_ok :: "string option \<Rightarrow> bool" where
  "data_ok od \<longleftrightarrow> (case od of None \<Rightarrow> True | Some d \<Rightarrow> d \<noteq> [] \<and> NUL \<notin> set d)"

lemma fill_length [simp]: "length (fill args c v) = length args"
  by (simp add: fill_def)

lemma fill_options_length [simp]: "length (fill_options args opts) = length args"
  by (induction opts arbitrary: args) simp_all

lemma fill_nth:
  assumes "is_opt_letter c" "is_opt_letter d" "length args = 27"
  shows "fill args c v ! nat (opt_index d) = (if d = c then Some v else args ! nat (opt_index d))"
  using opt_index_bounds [OF assms(1)] opt_index_inject [OF assms(1,2)] assms(3) by (auto simp: fill_def)

lemma free_slot_fill:
  assumes "is_opt_letter c" "is_opt_letter d" "length args = 27" "c \<noteq> d"
  shows "free_slot (fill args c v) d = free_slot args d"
  using fill_nth [OF assms(1-3)] assms(4) by (auto simp: free_slot_def)

text \<open>What follows an option on the line: nothing, or the space before the next one.\<close>

lemma rest_stop:
  assumes "at line q (concat (map option_text opts) @ data_text od)"
    "q + length (concat (map option_text opts) @ data_text od) = length line"
  shows "cget line q = NUL \<or> cget line q = CHR '' ''"
    "NUL \<notin> set line \<Longrightarrow> cget line q = NUL \<longleftrightarrow> opts = [] \<and> od = None"
proof -
  have ne: "hd (option_text opt) = CHR '' '' \<and> option_text opt \<noteq> []" for opt by (cases opt) simp_all
  have hd: "concat (map option_text opts) @ data_text od = [] \<longleftrightarrow> opts = [] \<and> od = None"
    "concat (map option_text opts) @ data_text od \<noteq> [] \<Longrightarrow> hd (concat (map option_text opts) @ data_text od) = CHR '' ''"
    using ne by (cases opts; cases od; auto simp: data_text_def)+
  have c: "concat (map option_text opts) @ data_text od = b # bs \<Longrightarrow> cget line q = b" for b bs
    using assms(1) by (simp add: at_Cons cget_def)
  have n: "concat (map option_text opts) @ data_text od = [] \<Longrightarrow> cget line q = NUL"
    using assms(2) unfolding cget_def by (metis add.right_neutral less_irrefl list.size(3))
  show "cget line q = NUL \<or> cget line q = CHR '' ''"
    using hd(2) c n by (cases "concat (map option_text opts) @ data_text od") auto
  show "cget line q = NUL \<longleftrightarrow> opts = [] \<and> od = None"
    using hd c n by (cases "concat (map option_text opts) @ data_text od") auto
qed

lemma cmd_loop_options:
  assumes "pr_state ps = STATE_NORMAL" "length (pr_args ps) = 27" "\<not> pr_charescaped ps" "NUL \<notin> set line"
    "at line ptr (concat (map option_text opts) @ data_text od)"
    "ptr + length (concat (map option_text opts) @ data_text od) = length line"
    "opts \<noteq> [] \<or> od \<noteq> None" "data_ok od" "\<forall>opt \<in> set opts. option_ok opt"
    "distinct (map option_letter opts)" "\<forall>opt \<in> set opts. free_slot (pr_args ps) (option_letter opt)"
    "free_slot (pr_args ps) (CHR ''-'')"
  shows "cmd_loop line ptr ps = Some (XDEBUG_ERROR_OK, fill_data (fill_options (pr_args ps) opts) od)"
  using assms
proof (induction opts arbitrary: ptr ps)
  case Nil
  then obtain d where d: "od = Some d" "d \<noteq> []" "NUL \<notin> set d" by (auto simp: data_ok_def)
  have "is_opt_letter (CHR ''-'')" "CHR ''-'' \<noteq> NUL" by (simp_all add: is_opt_letter_def)
  moreover have "cget line (ptr + 4 + length d) = NUL" using Nil d by (simp add: cget_def data_text_def)
  ultimately show ?case
    using cmd_loop_bare [of ps "CHR ''-''" d line ptr "ptr + 4 + length d"] Nil d
    by (simp add: data_text_def fill_data_def Let_def)
next
  case (Cons opt opts)
  let ?q = "ptr + length (option_text opt)"
  have at: "at line ptr (option_text opt)" "at line ?q (concat (map option_text opts) @ data_text od)"
    using Cons.prems(5) by (simp_all add: at_append ac_simps)
  have len: "?q + length (concat (map option_text opts) @ data_text od) = length line"
    using Cons.prems(6) by (simp add: ac_simps)
  have ok: "option_ok opt" "is_opt_letter (option_letter opt)" "option_letter opt \<noteq> CHR ''-''"
    using Cons.prems(9) option_ok_letter by auto
  have letters: "is_opt_letter (option_letter o')" if "o' \<in> set opts" for o'
    using that Cons.prems(9) option_ok_letter by auto
  obtain ps' where ps': "pr_state ps' = STATE_NORMAL" "\<not> pr_charescaped ps'"
    "pr_args ps' = fill (pr_args ps) (option_letter opt) (option_str opt)"
    "cmd_loop line ptr ps = (if cget line ?q \<noteq> NUL then cmd_loop line ?q ps' else Some (XDEBUG_ERROR_OK, pr_args ps'))"
    using cmd_loop_option [OF Cons.prems(1-3) ok(1) at(1) refl rest_stop(1) [OF at(2) len]] Cons.prems(11) by auto
  have stop: "cget line ?q = NUL \<longleftrightarrow> opts = [] \<and> od = None" by (rule rest_stop(2) [OF at(2) len Cons.prems(4)])
  show ?case
  proof (cases "opts = [] \<and> od = None")
    case True
    with ps' stop show ?thesis by (simp add: fill_data_def)
  next
    case False
    have "cmd_loop line ?q ps' = Some (XDEBUG_ERROR_OK, fill_data (fill_options (pr_args ps') opts) od)"
    proof (rule Cons.IH [OF ps'(1) _ ps'(2) Cons.prems(4) at(2) len _ Cons.prems(8)])
      show "\<forall>o' \<in> set opts. free_slot (pr_args ps') (option_letter o')"
      proof
        fix o' assume o': "o' \<in> set opts"
        then have "option_letter o' \<noteq> option_letter opt" using Cons.prems(10) by (auto simp: image_iff)
        with o' ps'(3) Cons.prems(2,11) letters [OF o'] ok(2) show "free_slot (pr_args ps') (option_letter o')"
          by (simp add: free_slot_fill)
      qed
      show "free_slot (pr_args ps') (CHR ''-'')"
        using ps'(3) Cons.prems(2,12) ok by (simp add: free_slot_fill is_opt_letter_def)
    qed (use False ps' Cons.prems in auto)
    with False stop ps' show ?thesis by simp
  qed
qed

text \<open>The slots after \<open>fill_options\<close>, read back letter by letter.\<close>

lemma fill_options_nth:
  assumes "length args = 27" "\<forall>opt \<in> set opts. option_ok opt" "distinct (map option_letter opts)" "is_opt_letter c"
  shows "fill_options args opts ! nat (opt_index c) =
    (case map_of (map (\<lambda>opt. (option_letter opt, option_str opt)) opts) c of
       Some v \<Rightarrow> Some v | None \<Rightarrow> args ! nat (opt_index c))"
  using assms
proof (induction opts arbitrary: args)
  case (Cons opt opts)
  have "is_opt_letter (option_letter opt)" using Cons.prems(2) option_ok_letter by auto
  moreover have "c = option_letter opt \<Longrightarrow> map_of (map (\<lambda>opt. (option_letter opt, option_str opt)) opts) c = None"
    using Cons.prems(3) by (auto simp: map_of_eq_None_iff)
  ultimately show ?case using Cons by (auto simp: fill_nth split: option.split)
qed simp

lemma parse_cmd_line:
  assumes "CHR '' '' \<notin> set cmd" "is_cstr (cmd_line cmd opts od)" "opts \<noteq> [] \<or> od \<noteq> None" "data_ok od"
    "\<forall>opt \<in> set opts. option_ok opt" "distinct (map option_letter opts)"
  shows "xdebug_cmd_parse (cmd_line cmd opts od) =
    Some (XDEBUG_ERROR_OK, Some cmd, fill_data (fill_options dbgp_arg_empty opts) od)"
proof -
  let ?line = "cmd_line cmd opts od" and ?rest = "concat (map option_text opts) @ data_text od"
  have hd: "\<exists>t. ?rest = CHR '' '' # t"
  proof (cases opts)
    case Nil
    with assms(3) show ?thesis by (auto simp: data_text_def)
  next
    case (Cons opt opts')
    then show ?thesis by (cases opt) simp_all
  qed
  then have sp: "strchr ?line (CHR '' '') = Some (length cmd)"
  proof -
    from hd obtain t where "?line = cmd @ CHR '' '' # t" by (auto simp: cmd_line_def)
    with assms(1) show ?thesis by (simp add: strchr_append strchr_None [THEN iffD2])
  qed
  have at: "at ?line (length cmd) ?rest" by (simp add: cmd_line_def at_def)
  have free: "free_slot dbgp_arg_empty c" if "is_opt_letter c" for c
    using opt_index_bounds [OF that] by (simp add: free_slot_def dbgp_arg_empty_def nat_less_iff)
  have "cmd_loop ?line (length cmd) parser_start = Some (XDEBUG_ERROR_OK, fill_data (fill_options (pr_args parser_start) opts) od)"
  proof (rule cmd_loop_options [OF _ _ _ _ at])
    show "\<forall>opt \<in> set opts. free_slot (pr_args parser_start) (option_letter opt)"
      using assms(5) option_ok_letter free by (auto simp: parser_start_def)
    show "free_slot (pr_args parser_start) (CHR ''-'')"
      using free by (simp add: parser_start_def is_opt_letter_def)
  qed (use assms in \<open>auto simp: parser_start_def dbgp_arg_empty_def cmd_line_def is_cstr_def\<close>)
  with sp show ?thesis by (simp add: xdebug_cmd_parse_def parser_start_def) (simp add: cmd_line_def)
qed

text \<open>The value of a letter after the parse, as the text the client meant.\<close>

definition option_text_of :: "xdebug_dbgp_arg \<Rightarrow> char \<Rightarrow> string option" where
  "option_text_of args c = map_option str_text (CMD_OPTION_XDEBUG_STR args c)"

lemma parsed_option:
  assumes "\<forall>opt \<in> set opts. option_ok opt" "distinct (map option_letter opts)" "is_opt_letter c"
  shows "option_text_of (fill_data (fill_options dbgp_arg_empty opts) od) c =
    (if c = CHR ''-'' then od else map_of (map (\<lambda>opt. (option_letter opt, option_value opt)) opts) c)"
proof -
  let ?args = "fill_options dbgp_arg_empty opts"
  have len: "length dbgp_arg_empty = 27" by (simp add: dbgp_arg_empty_def)
  have e: "dbgp_arg_empty ! nat (opt_index c) = None"
    using opt_index_bounds [OF assms(3)] by (simp add: dbgp_arg_empty_def nat_less_iff)
  have m: "map_option str_text (map_of (map (\<lambda>opt. (option_letter opt, option_str opt)) opts) c) =
      map_of (map (\<lambda>opt. (option_letter opt, option_value opt)) opts) c"
    by (induction opts) (auto simp: option_str_text)
  have dash: "map_of (map (\<lambda>opt. (option_letter opt, option_str opt)) opts) (CHR ''-'') = None"
    using assms(1) option_ok_letter by (fastforce simp: map_of_eq_None_iff)
  have f: "?args ! nat (opt_index c) = map_of (map (\<lambda>opt. (option_letter opt, option_str opt)) opts) c"
    using fill_options_nth [OF len assms] e by (simp split: option.split)
  have d: "is_opt_letter (CHR ''-'')" by (simp add: is_opt_letter_def)
  show ?thesis
  proof (cases od)
    case None
    with f m dash show ?thesis by (auto simp: option_text_of_def CMD_OPTION_XDEBUG_STR_def fill_data_def)
  next
    case (Some v)
    with f m fill_nth [OF d assms(3), of ?args "xdebug_str_create v"] len show ?thesis
      by (auto simp: option_text_of_def CMD_OPTION_XDEBUG_STR_def fill_data_def)
  qed
qed

end
