(* ===== verification/Xd_Maps.thy ===== *)
theory Xd_Maps
  imports Xd_Vector Xd_Hash Xd_Textutil
begin

text \<open>
  The path maps of \<open>src/lib/maps/maps_private.c\<close>: line ranges, mappings, the two lookup tables and the
  two lookups.  A path is the text of the \<open>xdebug_str\<close> the code holds; reference counts are not
  modelled.  The binary searches over line ranges are shown to find the range a line lies in (locale
  \<open>range_search\<close>), and the directory loop to take the longest mapped directory.
\<close>

section \<open>Data\<close>

definition XDEBUG_PATH_MAP_TYPE_UNKNOWN :: nat where "XDEBUG_PATH_MAP_TYPE_UNKNOWN = 0x00"
definition XDEBUG_PATH_MAP_TYPE_DIRECTORY :: nat where "XDEBUG_PATH_MAP_TYPE_DIRECTORY = 0x01"
definition XDEBUG_PATH_MAP_TYPE_FILE :: nat where "XDEBUG_PATH_MAP_TYPE_FILE = 0x02"
definition XDEBUG_PATH_MAP_TYPE_LINES :: nat where "XDEBUG_PATH_MAP_TYPE_LINES = 0x03"
definition XDEBUG_PATH_MAP_FLAGS_SKIP :: nat where "XDEBUG_PATH_MAP_FLAGS_SKIP = 0x10"
definition XDEBUG_PATH_MAP_EOF :: int where "XDEBUG_PATH_MAP_EOF = 2 ^ 30"

text \<open>The bits of \<open>type\<close>: \<open>XDEBUG_PATH_MAP_TYPE_MASK\<close> is the low nibble, \<open>XDEBUG_PATH_MAP_FLAGS_MASK\<close> the next.\<close>

definition type_mask :: "nat \<Rightarrow> nat" where "type_mask t = t mod 16"
definition flags_mask :: "nat \<Rightarrow> nat" where "flags_mask t = (t div 16 mod 16) * 16"
definition has_skip :: "nat \<Rightarrow> bool" where "has_skip t \<longleftrightarrow> odd (t div 16)"

lemmas path_map_types = XDEBUG_PATH_MAP_TYPE_UNKNOWN_def XDEBUG_PATH_MAP_TYPE_DIRECTORY_def
  XDEBUG_PATH_MAP_TYPE_FILE_def XDEBUG_PATH_MAP_TYPE_LINES_def XDEBUG_PATH_MAP_FLAGS_SKIP_def

record path_map_range =
  remote_begin :: int
  remote_end :: int
  local_flags :: nat
  range_path :: "string option"
  local_begin :: int
  local_end :: int

text \<open>A range whose bytes are all zero, as \<open>xdebug_vector_push\<close> leaves it.\<close>

definition zero_range :: path_map_range where
  "zero_range = \<lparr>remote_begin = 0, remote_end = 0, local_flags = 0, range_path = None, local_begin = 0, local_end = 0\<rparr>"

definition xdebug_path_map_range_set :: "int \<Rightarrow> int \<Rightarrow> nat \<Rightarrow> string option \<Rightarrow> int \<Rightarrow> int \<Rightarrow> path_map_range" where
  "xdebug_path_map_range_set rb re flags path lb le =
     \<lparr>remote_begin = rb, remote_end = re, local_flags = flags, range_path = path, local_begin = lb, local_end = le\<rparr>"

definition xdebug_path_map_range_copy :: "path_map_range \<Rightarrow> path_map_range" where
  "xdebug_path_map_range_copy from =
     \<lparr>remote_begin = remote_begin from, remote_end = remote_end from, local_flags = local_flags from,
      range_path = range_path from, local_begin = local_begin from, local_end = local_end from\<rparr>"

text \<open>The union of \<open>xdebug_path_mapping\<close>; which member is in use depends on the type.\<close>

datatype mapping_target = Local_path "string option" | Line_ranges "path_map_range xdebug_vector option"

record path_mapping =
  pm_type :: nat
  pm_remote :: "string option"
  pm_target :: mapping_target

record path_maps =
  remote_to_local_map :: "path_mapping xdebug_hash"
  local_to_remote_map :: "path_mapping xdebug_hash"

definition xdebug_path_maps_ctor :: path_maps where
  "xdebug_path_maps_ctor =
     \<lparr>remote_to_local_map = xdebug_hash_alloc 128 True, local_to_remote_map = xdebug_hash_alloc 128 True\<rparr>"

text \<open>The mappings the destructor of the maps releases, table by table.\<close>

definition xdebug_path_maps_dtor :: "path_maps \<Rightarrow> path_mapping list \<times> path_mapping list" where
  "xdebug_path_maps_dtor maps =
     (xdebug_hash_destroy (remote_to_local_map maps), xdebug_hash_destroy (local_to_remote_map maps))"

text \<open>\<open>None\<close> is the failed assertion on flags in the type.\<close>

definition xdebug_path_mapping_ctor :: "nat \<Rightarrow> path_mapping option" where
  "xdebug_path_mapping_ctor t =
     (if flags_mask t \<noteq> 0 then None
      else Some \<lparr>pm_type = t, pm_remote = None,
             pm_target = (if type_mask t = XDEBUG_PATH_MAP_TYPE_LINES then Line_ranges (Some xdebug_vector_alloc)
                          else Local_path None)\<rparr>)"

text \<open>The paths a mapping's destructor releases.\<close>

definition xdebug_path_mapping_dtor :: "path_mapping \<Rightarrow> string list option" where
  "xdebug_path_mapping_dtor m =
     (let remote = (case pm_remote m of None \<Rightarrow> [] | Some p \<Rightarrow> [p]) in
      if pm_type m = XDEBUG_PATH_MAP_TYPE_LINES
      then (case pm_target m of
              Line_ranges (Some v) \<Rightarrow>
                map_option (\<lambda>rs. remote @ List.map_filter range_path rs) (xdebug_vector_destroy v)
            | Line_ranges None \<Rightarrow> Some remote
            | Local_path _ \<Rightarrow> None)
      else (case pm_target m of
              Local_path p \<Rightarrow> Some (remote @ (case p of None \<Rightarrow> [] | Some p \<Rightarrow> [p]))
            | Line_ranges _ \<Rightarrow> None))"

section \<open>Looking up a line in the ranges\<close>

text \<open>The conversion of an \<open>int\<close> to \<open>size_t\<close>.\<close>

definition to_size :: "int \<Rightarrow> nat" where
  "to_size i = nat (i mod 2 ^ 64)"

lemma to_size_nonneg [simp]: "0 \<le> i \<Longrightarrow> i < 2 ^ 64 \<Longrightarrow> to_size i = nat i"
  by (simp add: to_size_def)

definition range_at :: "path_map_range xdebug_vector \<Rightarrow> int \<Rightarrow> path_map_range option" where
  "range_at v i =
     (case xdebug_vector_element_get (Some v) (to_size i) of None \<Rightarrow> None
      | Some j \<Rightarrow> if j < length (vec_data v) then vec_data v ! j else None)"

text \<open>The outer \<open>None\<close> is an access through \<open>NULL\<close>, the inner one the result \<open>false\<close>.\<close>

function do_local_binary_search ::
  "path_map_range xdebug_vector \<Rightarrow> int \<Rightarrow> int \<Rightarrow> nat \<Rightarrow> (string option \<times> nat) option option" where
  "do_local_binary_search v low high remote_line =
     (if low \<le> high then
        let mid = low + (high - low) div 2 in
        case range_at v mid of None \<Rightarrow> None
        | Some p \<Rightarrow>
            if remote_begin p = remote_end p \<and> local_begin p = local_end p \<and> remote_line = to_size (remote_begin p)
            then Some (Some (range_path p, to_size (local_begin p)))
            else if local_begin p = local_end p \<and> remote_line \<ge> to_size (remote_begin p)
                      \<and> remote_line \<le> to_size (remote_end p)
            then Some (Some (range_path p, to_size (local_begin p)))
            else if remote_line \<ge> to_size (remote_begin p) \<and> remote_line \<le> to_size (remote_end p)
            then Some (Some (range_path p, to_size (int remote_line - remote_begin p + local_begin p)))
            else if remote_line < to_size (remote_begin p)
            then do_local_binary_search v low (mid - 1) remote_line
            else do_local_binary_search v (mid + 1) high remote_line
      else Some None)"
  by pat_completeness auto
termination
  by (relation "measure (\<lambda>(v, low, high, l). nat (high + 1 - low))") auto

declare do_local_binary_search.simps [simp del]

definition find_local_line_number_from_ranges ::
  "nat \<Rightarrow> path_map_range xdebug_vector \<Rightarrow> (string option \<times> nat) option option" where
  "find_local_line_number_from_ranges remote_line v =
     do_local_binary_search v 0 (int (vec_count v) - 1) remote_line"

function do_remote_binary_search ::
  "path_map_range xdebug_vector \<Rightarrow> int \<Rightarrow> int \<Rightarrow> nat \<Rightarrow> (string option \<times> nat) option option" where
  "do_remote_binary_search v low high local_line =
     (if low \<le> high then
        let mid = low + (high - low) div 2 in
        case range_at v mid of None \<Rightarrow> None
        | Some p \<Rightarrow>
            if local_begin p = local_end p \<and> remote_begin p = remote_end p \<and> local_line = to_size (local_begin p)
            then Some (Some (range_path p, to_size (remote_begin p)))
            else if remote_begin p = remote_end p \<and> local_line \<ge> to_size (local_begin p)
                      \<and> local_line \<le> to_size (local_end p)
            then Some (Some (range_path p, to_size (remote_begin p)))
            else if local_line \<ge> to_size (local_begin p) \<and> local_line \<le> to_size (local_end p)
            then Some (Some (range_path p, to_size (int local_line - local_begin p + remote_begin p)))
            else if local_line < to_size (local_begin p)
            then do_remote_binary_search v low (mid - 1) local_line
            else do_remote_binary_search v (mid + 1) high local_line
      else Some None)"
  by pat_completeness auto
termination
  by (relation "measure (\<lambda>(v, low, high, l). nat (high + 1 - low))") auto

declare do_remote_binary_search.simps [simp del]

definition find_remote_line_number_from_ranges ::
  "nat \<Rightarrow> path_map_range xdebug_vector \<Rightarrow> (string option \<times> nat) option option" where
  "find_remote_line_number_from_ranges local_line v =
     do_remote_binary_search v 0 (int (vec_count v) - 1) local_line"

section \<open>Binary search over ascending ranges\<close>

locale range_search =
  fixes search :: "'s \<Rightarrow> int \<Rightarrow> int \<Rightarrow> nat \<Rightarrow> 'a option option"
    and items :: "'s \<Rightarrow> 'r list" and ok :: "'s \<Rightarrow> bool"
    and lo :: "'r \<Rightarrow> nat" and hi :: "'r \<Rightarrow> nat" and out :: "'r \<Rightarrow> nat \<Rightarrow> 'a"
  assumes search_step: "ok s \<Longrightarrow> 0 \<le> low \<Longrightarrow> high < int (length (items s)) \<Longrightarrow>
    search s low high l =
      (if low \<le> high then
         let mid = low + (high - low) div 2; r = items s ! nat mid in
         if lo r \<le> l \<and> l \<le> hi r then Some (Some (out r l))
         else if l < lo r then search s low (mid - 1) l else search s (mid + 1) high l
       else Some None)"
begin

definition ascending :: "'r list \<Rightarrow> bool" where
  "ascending rs \<longleftrightarrow> (\<forall>r \<in> set rs. lo r \<le> hi r) \<and> sorted_wrt (\<lambda>a b. hi a < lo b) rs"

definition covers :: "nat \<Rightarrow> 'r \<Rightarrow> bool" where
  "covers l r \<longleftrightarrow> lo r \<le> l \<and> l \<le> hi r"

text \<open>In ascending ranges at most one covers a line.\<close>

lemma covers_unique:
  assumes "ascending rs" "i < length rs" "j < length rs" "covers l (rs ! i)" "covers l (rs ! j)"
  shows "i = j"
proof (rule ccontr)
  assume "i \<noteq> j"
  then have "hi (rs ! i) < lo (rs ! j) \<or> hi (rs ! j) < lo (rs ! i)"
    using assms by (cases i j rule: linorder_cases) (auto simp: ascending_def sorted_wrt_iff_nth_less)
  with assms(4,5) show False by (auto simp: covers_def)
qed

lemma find_covers:
  assumes "ascending rs" "i < length rs" "covers l (rs ! i)"
  shows "find (covers l) rs = Some (rs ! i)"
proof -
  have "j = i" if "j < length rs" "covers l (rs ! j)" for j
    using covers_unique [OF assms(1) that(1) assms(2) that(2) assms(3)] .
  then show ?thesis unfolding find_Some_iff using assms by (metis less_trans nat_neq_iff)
qed

text \<open>The window \<open>low..high\<close> always holds the covering range, if there is one.\<close>

lemma search_window:
  assumes "ok s" "ascending (items s)" "0 \<le> low" "high < int (length (items s))"
    "\<forall>i < length (items s). covers l (items s ! i) \<longrightarrow> low \<le> int i \<and> int i \<le> high"
  shows "search s low high l = Some (map_option (\<lambda>r. out r l) (find (covers l) (items s)))"
  using assms(3-)
proof (induction "nat (high + 1 - low)" arbitrary: low high rule: less_induct)
  case less
  note step = search_step [OF assms(1) less.prems(1,2), of l]
  let ?rs = "items s"
  show ?case
  proof (cases "low \<le> high")
    case False
    then have "find (covers l) ?rs = None"
      using less.prems(3) by (auto simp: find_None_iff in_set_conv_nth)
    with False show ?thesis unfolding step by simp
  next
    case True
    define mid where "mid = low + (high - low) div 2"
    let ?r = "?rs ! nat mid"
    have mid: "low \<le> mid" "mid \<le> high" using True by (simp_all add: mid_def)
    then have m: "nat mid < length ?rs" using less.prems by simp
    have r: "lo ?r \<le> hi ?r" using m assms(2) by (simp add: ascending_def)
    have sorted: "i < j \<Longrightarrow> j < length ?rs \<Longrightarrow> hi (?rs ! i) < lo (?rs ! j)" for i j
      using assms(2) by (simp add: ascending_def sorted_wrt_iff_nth_less)
    consider "covers l ?r" | "l < lo ?r" | "hi ?r < l" unfolding covers_def by linarith
    then show ?thesis
    proof cases
      case 1
      with find_covers [OF assms(2) m] show ?thesis
        unfolding step mid_def [symmetric] using True by (simp add: covers_def mid_def Let_def)
    next
      case 2
      have "search s low (mid - 1) l = Some (map_option (\<lambda>r. out r l) (find (covers l) ?rs))"
      proof (rule less.hyps)
        show "\<forall>i < length ?rs. covers l (?rs ! i) \<longrightarrow> low \<le> int i \<and> int i \<le> mid - 1"
        proof (intro allI impI conjI)
          fix i assume i: "i < length ?rs" "covers l (?rs ! i)"
          show "low \<le> int i" using less.prems(3) i by blast
          have "\<not> nat mid \<le> i"
          proof
            assume "nat mid \<le> i"
            then have "lo ?r \<le> lo (?rs ! i)" using sorted [of "nat mid" i] i(1) r by (cases "nat mid = i") auto
            with 2 i(2) show False by (simp add: covers_def)
          qed
          then show "int i \<le> mid - 1" using mid less.prems(1) by linarith
        qed
      qed (use mid less.prems True in auto)
      with 2 True show ?thesis unfolding step by (simp add: Let_def mid_def)
    next
      case 3
      have "search s (mid + 1) high l = Some (map_option (\<lambda>r. out r l) (find (covers l) ?rs))"
      proof (rule less.hyps)
        show "\<forall>i < length ?rs. covers l (?rs ! i) \<longrightarrow> mid + 1 \<le> int i \<and> int i \<le> high"
        proof (intro allI impI conjI)
          fix i assume i: "i < length ?rs" "covers l (?rs ! i)"
          show "int i \<le> high" using less.prems(3) i by blast
          have "\<not> i \<le> nat mid"
          proof
            assume "i \<le> nat mid"
            moreover have "lo (?rs ! i) \<le> hi (?rs ! i)" using assms(2) i(1) by (simp add: ascending_def)
            ultimately have "hi (?rs ! i) \<le> hi ?r" using sorted [of i "nat mid"] m r by (cases "nat mid = i") auto
            with 3 i(2) show False by (simp add: covers_def)
          qed
          then show "mid + 1 \<le> int i" using mid less.prems(1) by linarith
        qed
      qed (use mid less.prems True in auto)
      with 3 r True show ?thesis unfolding step by (simp add: Let_def mid_def)
    qed
  qed
qed

lemma search_all:
  assumes "ok s" "ascending (items s)"
  shows "search s 0 (int (length (items s)) - 1) l = Some (map_option (\<lambda>r. out r l) (find (covers l) (items s)))"
  by (rule search_window [OF assms]) auto

end

lemma range_at_nth:
  "vec_ok v \<Longrightarrow> 0 \<le> i \<Longrightarrow> i < int (vec_count v) \<Longrightarrow> vec_count v < 2 ^ 31 \<Longrightarrow> range_at v i = Some (vec_list v ! nat i)"
  using vec_nth [of v "nat i"]
  by (auto simp: range_at_def xdebug_vector_element_get_def vec_ok_def)

text \<open>Where a line of a range goes: to its one line, or shifted along.\<close>

definition local_of :: "path_map_range \<Rightarrow> nat \<Rightarrow> string option \<times> nat" where
  "local_of r l = (range_path r, if local_begin r = local_end r then to_size (local_begin r)
                                 else to_size (int l - remote_begin r + local_begin r))"

definition remote_of :: "path_map_range \<Rightarrow> nat \<Rightarrow> string option \<times> nat" where
  "remote_of r l = (range_path r, if remote_begin r = remote_end r then to_size (remote_begin r)
                                  else to_size (int l - local_begin r + remote_begin r))"

definition ranges_ok :: "path_map_range xdebug_vector \<Rightarrow> bool" where
  "ranges_ok v \<longleftrightarrow> vec_ok v \<and> vec_count v < 2 ^ 31"

interpretation by_remote: range_search do_local_binary_search vec_list ranges_ok
    "\<lambda>r. to_size (remote_begin r)" "\<lambda>r. to_size (remote_end r)" local_of
proof unfold_locales
  fix v and low high :: int and l assume "ranges_ok v" "0 \<le> low" "high < int (length (vec_list v))"
  then have "low \<le> high \<Longrightarrow> range_at v (low + (high - low) div 2) = Some (vec_list v ! nat (low + (high - low) div 2))"
    by (intro range_at_nth) (auto simp: ranges_ok_def vec_list_length)
  then show "do_local_binary_search v low high l =
      (if low \<le> high then
         let mid = low + (high - low) div 2; r = vec_list v ! nat mid in
         if to_size (remote_begin r) \<le> l \<and> l \<le> to_size (remote_end r) then Some (Some (local_of r l))
         else if l < to_size (remote_begin r) then do_local_binary_search v low (mid - 1) l
         else do_local_binary_search v (mid + 1) high l
       else Some None)"
    by (subst do_local_binary_search.simps) (auto simp: Let_def local_of_def)
qed

interpretation by_local: range_search do_remote_binary_search vec_list ranges_ok
    "\<lambda>r. to_size (local_begin r)" "\<lambda>r. to_size (local_end r)" remote_of
proof unfold_locales
  fix v and low high :: int and l assume "ranges_ok v" "0 \<le> low" "high < int (length (vec_list v))"
  then have "low \<le> high \<Longrightarrow> range_at v (low + (high - low) div 2) = Some (vec_list v ! nat (low + (high - low) div 2))"
    by (intro range_at_nth) (auto simp: ranges_ok_def vec_list_length)
  then show "do_remote_binary_search v low high l =
      (if low \<le> high then
         let mid = low + (high - low) div 2; r = vec_list v ! nat mid in
         if to_size (local_begin r) \<le> l \<and> l \<le> to_size (local_end r) then Some (Some (remote_of r l))
         else if l < to_size (local_begin r) then do_remote_binary_search v low (mid - 1) l
         else do_remote_binary_search v (mid + 1) high l
       else Some None)"
    by (subst do_remote_binary_search.simps) (auto simp: Let_def remote_of_def)
qed

lemma find_local_line:
  assumes "ranges_ok v" "by_remote.ascending (vec_list v)"
  shows "find_local_line_number_from_ranges l v =
    Some (map_option (\<lambda>r. local_of r l) (find (by_remote.covers l) (vec_list v)))"
  using by_remote.search_all [OF assms] assms(1)
  by (simp add: find_local_line_number_from_ranges_def ranges_ok_def vec_list_length)

lemma find_remote_line:
  assumes "ranges_ok v" "by_local.ascending (vec_list v)"
  shows "find_remote_line_number_from_ranges l v =
    Some (map_option (\<lambda>r. remote_of r l) (find (by_local.covers l) (vec_list v)))"
  using by_local.search_all [OF assms] assms(1)
  by (simp add: find_remote_line_number_from_ranges_def ranges_ok_def vec_list_length)

section \<open>The two lookups\<close>

text \<open>The result of a lookup: the type, and the outputs where the code sets them.\<close>

definition unknown_match :: "nat \<times> (string option \<times> nat) option" where
  "unknown_match = (XDEBUG_PATH_MAP_TYPE_UNKNOWN, None)"

definition skipped_match :: "nat \<times> (string option \<times> nat) option" where
  "skipped_match = (XDEBUG_PATH_MAP_FLAGS_SKIP, Some (None, to_size (- 1)))"

text \<open>The \<open>do\<close> loop over the directories: \<open>n\<close> is the length of the current one, slash included.\<close>

lemma strrnchr_loop_less: "strrnchr_loop s c n i r = Some j \<Longrightarrow> i \<le> n \<Longrightarrow> \<forall>k. r = Some k \<longrightarrow> k < n \<Longrightarrow> j < n"
proof (induction s c n i r rule: strrnchr_loop.induct)
  case (1 s c n i r)
  show ?case
  proof (cases "i = n")
    case True
    with 1(2,4) show ?thesis by (subst (asm) strrnchr_loop.simps) simp
  next
    case False
    let ?r = "if cget s i = c then Some i else r"
    have r: "\<forall>k. ?r = Some k \<longrightarrow> k < n" using False 1(3,4) by auto
    show ?thesis
    proof (cases "cget s i = NUL")
      case True
      with False 1(2) r show ?thesis by (subst (asm) strrnchr_loop.simps) (simp add: Let_def)
    next
      case nn: False
      have "strrnchr_loop s c n (i + 1) ?r = Some j"
        using False nn 1(2) by (subst (asm) strrnchr_loop.simps) (simp add: Let_def)
      then show ?thesis using 1(1) [OF False refl nn _ _ r] 1(3) False by simp
    qed
  qed
qed

lemma strrnchr_less: "strrnchr s c n = Some j \<Longrightarrow> j < n"
  using strrnchr_loop_less [of s c n 0 None j] by (simp add: strrnchr_def)

function remote_directory_search ::
  "path_mapping xdebug_hash \<Rightarrow> string \<Rightarrow> nat \<Rightarrow> string \<Rightarrow> nat \<Rightarrow> (nat \<times> (string option \<times> nat) option) option" where
  "remote_directory_search tbl remote_path remote_line directory end_slash =
     (let n = end_slash + 1;
          next = (case strrnchr directory SLASH (n - 1) of None \<Rightarrow> Some unknown_match
                  | Some e \<Rightarrow> remote_directory_search tbl remote_path remote_line directory e)
      in case xdebug_hash_find tbl (take n directory) of
           None \<Rightarrow> next
         | Some result \<Rightarrow>
             if has_skip (pm_type result) then Some skipped_match
             else if pm_type result = XDEBUG_PATH_MAP_TYPE_DIRECTORY
             then (case pm_target result of
                     Local_path (Some p) \<Rightarrow>
                       Some (XDEBUG_PATH_MAP_TYPE_DIRECTORY, Some (Some (p @ drop n remote_path), remote_line))
                   | _ \<Rightarrow> None)
             else next)"
  by pat_completeness auto
termination
  by (relation "measure (\<lambda>(m, p, l, d, e). e)") (auto dest: strrnchr_less)

declare remote_directory_search.simps [simp del]

text \<open>\<open>None\<close> is an access through \<open>NULL\<close> or a failed assertion.\<close>

definition remote_to_local :: "path_maps \<Rightarrow> string \<Rightarrow> nat \<Rightarrow> (nat \<times> (string option \<times> nat) option) option" where
  "remote_to_local maps remote_path remote_line =
     (let tbl = remote_to_local_map maps in
      case xdebug_hash_find tbl remote_path of
        None \<Rightarrow>
          (case strrchr remote_path SLASH of None \<Rightarrow> Some unknown_match
           | Some end_slash \<Rightarrow>
               let directory = take (end_slash + 1) remote_path in
               (case strrchr directory SLASH of None \<Rightarrow> None
                | Some e \<Rightarrow> remote_directory_search tbl remote_path remote_line directory e))
      | Some result \<Rightarrow>
          if has_skip (pm_type result) then Some skipped_match
          else if pm_type result = XDEBUG_PATH_MAP_TYPE_DIRECTORY \<or> pm_type result = XDEBUG_PATH_MAP_TYPE_FILE then
            (case pm_target result of
               Local_path (Some p) \<Rightarrow> Some (pm_type result, Some (Some p, remote_line))
             | _ \<Rightarrow> None)
          else if pm_type result = XDEBUG_PATH_MAP_TYPE_LINES then
            (case pm_target result of
               Line_ranges None \<Rightarrow> Some unknown_match
             | Line_ranges (Some v) \<Rightarrow>
                 (case find_local_line_number_from_ranges remote_line v of
                    None \<Rightarrow> None
                  | Some None \<Rightarrow> Some unknown_match
                  | Some (Some (None, line)) \<Rightarrow> Some skipped_match
                  | Some (Some (Some path, line)) \<Rightarrow> Some (pm_type result, Some (Some path, line)))
             | Local_path _ \<Rightarrow> None)
          else None)"

function local_directory_search ::
  "path_mapping xdebug_hash \<Rightarrow> string \<Rightarrow> nat \<Rightarrow> string \<Rightarrow> nat \<Rightarrow> (nat \<times> (string option \<times> nat) option) option" where
  "local_directory_search tbl local_path local_line directory end_slash =
     (let n = end_slash + 1;
          next = (case strrnchr directory SLASH (n - 1) of None \<Rightarrow> Some unknown_match
                  | Some e \<Rightarrow> local_directory_search tbl local_path local_line directory e)
      in case xdebug_hash_find tbl (take n directory) of
           None \<Rightarrow> next
         | Some result \<Rightarrow>
             if pm_type result = XDEBUG_PATH_MAP_TYPE_DIRECTORY
             then (case pm_remote result of
                     Some p \<Rightarrow>
                       Some (XDEBUG_PATH_MAP_TYPE_DIRECTORY, Some (Some (p @ drop n local_path), local_line))
                   | None \<Rightarrow> None)
             else next)"
  by pat_completeness auto
termination
  by (relation "measure (\<lambda>(m, p, l, d, e). e)") (auto dest: strrnchr_less)

declare local_directory_search.simps [simp del]

definition local_to_remote :: "path_maps \<Rightarrow> string \<Rightarrow> nat \<Rightarrow> (nat \<times> (string option \<times> nat) option) option" where
  "local_to_remote maps local_path local_line =
     (let tbl = local_to_remote_map maps in
      case xdebug_hash_find tbl local_path of
        None \<Rightarrow>
          (case strrchr local_path SLASH of None \<Rightarrow> Some unknown_match
           | Some end_slash \<Rightarrow>
               let directory = take (end_slash + 1) local_path in
               (case strrchr directory SLASH of None \<Rightarrow> None
                | Some e \<Rightarrow> local_directory_search tbl local_path local_line directory e))
      | Some result \<Rightarrow>
          if has_skip (pm_type result) then None
          else if pm_type result = XDEBUG_PATH_MAP_TYPE_DIRECTORY \<or> pm_type result = XDEBUG_PATH_MAP_TYPE_FILE then
            (case pm_remote result of
               Some p \<Rightarrow> Some (pm_type result, Some (Some p, local_line))
             | None \<Rightarrow> None)
          else if pm_type result = XDEBUG_PATH_MAP_TYPE_LINES then
            (case pm_target result of
               Line_ranges (Some v) \<Rightarrow>
                 (case find_remote_line_number_from_ranges local_line v of
                    None \<Rightarrow> None
                  | Some None \<Rightarrow> Some unknown_match
                  | Some (Some (None, line)) \<Rightarrow> None
                  | Some (Some (Some path, line)) \<Rightarrow> Some (pm_type result, Some (Some path, line)))
             | _ \<Rightarrow> None)
          else Some (pm_type result, None))"

section \<open>The longest mapped directory wins\<close>

locale directory_search =
  fixes search :: "string \<Rightarrow> nat \<Rightarrow> 'r" and hit :: "string \<Rightarrow> 'r option" and miss :: 'r
  assumes search_step: "e < length dir \<Longrightarrow> search dir e =
    (case hit (take (e + 1) dir) of Some r \<Rightarrow> r
     | None \<Rightarrow> (case strrnchr dir SLASH e of None \<Rightarrow> miss | Some e' \<Rightarrow> search dir e'))"
begin

text \<open>\<open>i\<close> is the last position of a slash up to \<open>e\<close> whose directory is a hit.\<close>

definition last_hit :: "string \<Rightarrow> nat \<Rightarrow> nat \<Rightarrow> 'r \<Rightarrow> bool" where
  "last_hit path e i r \<longleftrightarrow> i \<le> e \<and> path ! i = SLASH \<and> hit (take (i + 1) path) = Some r \<and>
     (\<forall>j. i < j \<longrightarrow> j \<le> e \<longrightarrow> path ! j = SLASH \<longrightarrow> hit (take (j + 1) path) = None)"

lemma next_slash:
  assumes "is_cstr path" "e < length path" "E < length path" "e \<le> E"
  shows "strrnchr (take (E + 1) path) SLASH e = strrchr (take e path) SLASH"
proof -
  have "is_cstr (take (E + 1) path)" using assms(1) by (auto simp: is_cstr_def dest: in_set_takeD)
  with strrnchr_strrchr [of "take (E + 1) path" e SLASH] assms show ?thesis by (simp add: min_def)
qed

lemma search_last_hit:
  assumes "is_cstr path" "E < length path"
  shows "e \<le> E \<Longrightarrow> path ! e = SLASH \<Longrightarrow> last_hit path e i r \<Longrightarrow> search (take (E + 1) path) e = r"
proof (induction e rule: less_induct)
  case (less e)
  have t: "take (e + 1) (take (E + 1) path) = take (e + 1) path" using less.prems(1) by (simp add: min_def)
  have e: "e < length (take (E + 1) path)" using less.prems(1) assms(2) by simp
  show ?case
  proof (cases "i = e")
    case True
    with less.prems(3) t show ?thesis by (subst search_step [OF e]) (simp add: last_hit_def)
  next
    case False
    then have ie: "i < e" "path ! i = SLASH" using less.prems(3) by (auto simp: last_hit_def)
    have no: "hit (take (e + 1) path) = None" using less.prems(2,3) ie by (auto simp: last_hit_def)
    have "i < length (take e path)" using ie less.prems(1) assms(2) by simp
    then have "SLASH \<in> set (take e path)" using ie by (auto simp: in_set_conv_nth)
    then obtain e' where e': "strrchr (take e path) SLASH = Some e'" using strrchr_None by (cases "strrchr (take e path) SLASH") auto
    then have f: "e' < e" "path ! e' = SLASH" "SLASH \<notin> set (drop (Suc e') (take e path))"
      using less.prems(1) assms(2) by (auto simp: strrchr_Some)
    have "i \<le> e'"
    proof (rule ccontr)
      assume "\<not> i \<le> e'"
      then have "drop (Suc e') (take e path) ! (i - Suc e') = SLASH" "i - Suc e' < length (drop (Suc e') (take e path))"
        using ie less.prems(1) assms(2) by auto
      then have "SLASH \<in> set (drop (Suc e') (take e path))" by (metis nth_mem)
      with f(3) show False by blast
    qed
    then have "last_hit path e' i r" using less.prems(3) f(1) by (auto simp: last_hit_def)
    with less.IH [OF f(1) _ f(2)] f(1) less.prems(1) have "search (take (E + 1) path) e' = r" by simp
    moreover have "strrnchr (take (E + 1) path) SLASH e = Some e'"
      using next_slash [OF assms(1) _ assms(2) less.prems(1)] e' less.prems(1) assms(2) by simp
    ultimately show ?thesis using no t by (subst search_step [OF e]) simp
  qed
qed

lemma search_no_hit:
  assumes "is_cstr path" "E < length path"
  shows "e \<le> E \<Longrightarrow> (\<And>j. j \<le> e \<Longrightarrow> path ! j = SLASH \<Longrightarrow> hit (take (j + 1) path) = None) \<Longrightarrow> path ! e = SLASH \<Longrightarrow>
    search (take (E + 1) path) e = miss"
proof (induction e rule: less_induct)
  case (less e)
  have t: "take (e + 1) (take (E + 1) path) = take (e + 1) path" using less.prems(1) by (simp add: min_def)
  have e: "e < length (take (E + 1) path)" using less.prems(1) assms(2) by simp
  have no: "hit (take (e + 1) path) = None" using less.prems(2,3) by blast
  have n: "strrnchr (take (E + 1) path) SLASH e = strrchr (take e path) SLASH"
    using next_slash [OF assms(1) _ assms(2) less.prems(1)] less.prems(1) assms(2) by simp
  show ?case
  proof (cases "strrchr (take e path) SLASH")
    case None
    with no t n show ?thesis by (subst search_step [OF e]) simp
  next
    case (Some e')
    then have f: "e' < e" "path ! e' = SLASH" using less.prems(1) assms(2) by (auto simp: strrchr_Some)
    then have "search (take (E + 1) path) e' = miss"
      using less.IH [OF f(1)] less.prems by auto
    with no t n Some show ?thesis by (subst search_step [OF e]) simp
  qed
qed

end

definition remote_hit ::
  "path_mapping xdebug_hash \<Rightarrow> string \<Rightarrow> nat \<Rightarrow> string \<Rightarrow> (nat \<times> (string option \<times> nat) option) option option" where
  "remote_hit tbl path line d =
     (case xdebug_hash_find tbl d of None \<Rightarrow> None
      | Some m \<Rightarrow>
          if has_skip (pm_type m) then Some (Some skipped_match)
          else if pm_type m = XDEBUG_PATH_MAP_TYPE_DIRECTORY
          then Some (case pm_target m of
                       Local_path (Some p) \<Rightarrow> Some (XDEBUG_PATH_MAP_TYPE_DIRECTORY, Some (Some (p @ drop (length d) path), line))
                     | _ \<Rightarrow> None)
          else None)"

definition local_hit ::
  "path_mapping xdebug_hash \<Rightarrow> string \<Rightarrow> nat \<Rightarrow> string \<Rightarrow> (nat \<times> (string option \<times> nat) option) option option" where
  "local_hit tbl path line d =
     (case xdebug_hash_find tbl d of None \<Rightarrow> None
      | Some m \<Rightarrow>
          if pm_type m = XDEBUG_PATH_MAP_TYPE_DIRECTORY
          then Some (case pm_remote m of
                       Some p \<Rightarrow> Some (XDEBUG_PATH_MAP_TYPE_DIRECTORY, Some (Some (p @ drop (length d) path), line))
                     | None \<Rightarrow> None)
          else None)"

interpretation remote_dirs: directory_search "remote_directory_search tbl path line" "remote_hit tbl path line"
    "Some unknown_match" for tbl path line
  by unfold_locales
    (subst remote_directory_search.simps,
      auto simp: Let_def remote_hit_def split: option.split mapping_target.split)

interpretation local_dirs: directory_search "local_directory_search tbl path line" "local_hit tbl path line"
    "Some unknown_match" for tbl path line
  by unfold_locales
    (subst local_directory_search.simps,
      auto simp: Let_def local_hit_def split: option.split mapping_target.split)

lemma last_slash_directory:
  assumes "strrchr path SLASH = Some e"
  shows "e < length path" "path ! e = SLASH" "strrchr (take (e + 1) path) SLASH = Some e"
  using assms by (auto simp: strrchr_Some nth_append)

text \<open>A path without a mapping of its own.\<close>

lemma remote_to_local_directory:
  assumes "is_cstr path" "xdebug_hash_find (remote_to_local_map maps) path = None" "strrchr path SLASH = Some e"
  shows "remote_dirs.last_hit (remote_to_local_map maps) path line path e i r \<Longrightarrow> remote_to_local maps path line = r"
    "(\<And>j. j \<le> e \<Longrightarrow> path ! j = SLASH \<Longrightarrow> remote_hit (remote_to_local_map maps) path line (take (j + 1) path) = None) \<Longrightarrow>
     remote_to_local maps path line = Some unknown_match"
proof -
  note e = last_slash_directory [OF assms(3)]
  have r: "remote_to_local maps path line =
      remote_directory_search (remote_to_local_map maps) path line (take (e + 1) path) e"
    using assms(2,3) e(3) by (simp add: remote_to_local_def Let_def)
  show "remote_dirs.last_hit (remote_to_local_map maps) path line path e i r \<Longrightarrow> remote_to_local maps path line = r"
    unfolding r by (rule remote_dirs.search_last_hit [OF assms(1) e(1) order_refl e(2)])
  show "(\<And>j. j \<le> e \<Longrightarrow> path ! j = SLASH \<Longrightarrow> remote_hit (remote_to_local_map maps) path line (take (j + 1) path) = None) \<Longrightarrow>
     remote_to_local maps path line = Some unknown_match"
    unfolding r by (rule remote_dirs.search_no_hit [OF assms(1) e(1) order_refl _ e(2)])
qed

lemma local_to_remote_directory:
  assumes "is_cstr path" "xdebug_hash_find (local_to_remote_map maps) path = None" "strrchr path SLASH = Some e"
  shows "local_dirs.last_hit (local_to_remote_map maps) path line path e i r \<Longrightarrow> local_to_remote maps path line = r"
    "(\<And>j. j \<le> e \<Longrightarrow> path ! j = SLASH \<Longrightarrow> local_hit (local_to_remote_map maps) path line (take (j + 1) path) = None) \<Longrightarrow>
     local_to_remote maps path line = Some unknown_match"
proof -
  note e = last_slash_directory [OF assms(3)]
  have r: "local_to_remote maps path line =
      local_directory_search (local_to_remote_map maps) path line (take (e + 1) path) e"
    using assms(2,3) e(3) by (simp add: local_to_remote_def Let_def)
  show "local_dirs.last_hit (local_to_remote_map maps) path line path e i r \<Longrightarrow> local_to_remote maps path line = r"
    unfolding r by (rule local_dirs.search_last_hit [OF assms(1) e(1) order_refl e(2)])
  show "(\<And>j. j \<le> e \<Longrightarrow> path ! j = SLASH \<Longrightarrow> local_hit (local_to_remote_map maps) path line (take (j + 1) path) = None) \<Longrightarrow>
     local_to_remote maps path line = Some unknown_match"
    unfolding r by (rule local_dirs.search_no_hit [OF assms(1) e(1) order_refl _ e(2)])
qed

end
