(* ===== verification/Xd_Maps_Parser.thy ===== *)
theory Xd_Maps_Parser
  imports Xd_Maps
begin

text \<open>
  The parser of path-map files, \<open>src/lib/maps/parser.c\<close>: prefixes, elements with line ranges, rules,
  the reading of a file and the copying of its rules into the two lookup tables.  The file system is a
  parameter: a file that can be opened is given by its contents.  Message texts are those of the code.
\<close>

section \<open>Parser state and errors\<close>

definition PATH_MAPS_OK :: nat where "PATH_MAPS_OK = 0x0000"
definition PATH_MAPS_CANT_OPEN_FILE :: nat where "PATH_MAPS_CANT_OPEN_FILE = 0x0001"
definition PATH_MAPS_NO_RULES :: nat where "PATH_MAPS_NO_RULES = 0x0002"
definition PATH_MAPS_EMPTY_LINE :: nat where "PATH_MAPS_EMPTY_LINE = 0x0003"
definition PATH_MAPS_NO_NEWLINE :: nat where "PATH_MAPS_NO_NEWLINE = 0x0004"
definition PATH_MAPS_GARBAGE :: nat where "PATH_MAPS_GARBAGE = 0x0005"
definition PATH_MAPS_INVALID_PREFIX :: nat where "PATH_MAPS_INVALID_PREFIX = 0x0006"
definition PATH_MAPS_DOUBLE_SEPARATOR :: nat where "PATH_MAPS_DOUBLE_SEPARATOR = 0x0007"
definition PATH_MAPS_NO_SEPARATOR :: nat where "PATH_MAPS_NO_SEPARATOR = 0x0008"
definition PATH_MAPS_MISMATCHED_TYPES :: nat where "PATH_MAPS_MISMATCHED_TYPES = 0x0009"
definition PATH_MAPS_WRONG_RANGE :: nat where "PATH_MAPS_WRONG_RANGE = 0x0010"
definition PATH_MAPS_DUPLICATE_RULES :: nat where "PATH_MAPS_DUPLICATE_RULES = 0x0011"
definition PATH_MAPS_MIXING_PATH_AND_LINES :: nat where "PATH_MAPS_MIXING_PATH_AND_LINES = 0x0013"

record parser_state =
  mp_error_code :: nat
  mp_error_line :: int
  mp_error_message :: "string option"
  mp_copy_error :: bool
  mp_local_prefix :: "string option"
  mp_remote_prefix :: "string option"
  mp_cwd :: "string option"
  mp_line_no :: nat
  mp_rules :: "path_mapping xdebug_hash"

text \<open>The constructor leaves \<open>error_line\<close> alone; it is set with every error before anyone reads it.\<close>

definition path_maps_parser_state_ctor :: parser_state where
  "path_maps_parser_state_ctor =
     \<lparr>mp_error_code = PATH_MAPS_OK, mp_error_line = 0, mp_error_message = None, mp_copy_error = False,
      mp_local_prefix = None, mp_remote_prefix = None, mp_cwd = None, mp_line_no = 0,
      mp_rules = xdebug_hash_alloc 256 True\<rparr>"

text \<open>What the destructor leaves behind, and the rules it releases.\<close>

definition path_maps_parser_state_dtor :: "parser_state \<Rightarrow> parser_state \<times> path_mapping list" where
  "path_maps_parser_state_dtor st =
     (st\<lparr>mp_error_code := PATH_MAPS_OK, mp_local_prefix := None, mp_remote_prefix := None, mp_cwd := None\<rparr>,
      xdebug_hash_destroy (mp_rules st))"

definition state_set_error :: "parser_state \<Rightarrow> nat \<Rightarrow> string \<Rightarrow> parser_state" where
  "state_set_error st error_code message =
     st\<lparr>mp_error_code := error_code, mp_error_line := to_int32 (int (mp_line_no st)),
        mp_error_message := Some message\<rparr>"

definition state_get_error_code :: "parser_state \<Rightarrow> nat" where "state_get_error_code st = mp_error_code st"
definition state_get_error_line :: "parser_state \<Rightarrow> int" where "state_get_error_line st = mp_error_line st"
definition state_get_error_message :: "parser_state \<Rightarrow> string option" where
  "state_get_error_message st = mp_error_message st"

definition state_open_file :: "parser_state \<Rightarrow> string option \<Rightarrow> parser_state \<times> bool" where
  "state_open_file st contents =
     (case contents of
        None \<Rightarrow> (state_set_error st PATH_MAPS_CANT_OPEN_FILE ''Can't open file'', False)
      | Some _ \<Rightarrow> (st, True))"

section \<open>Prefixes and separators\<close>

definition is_valid_prefix :: "parser_state \<Rightarrow> string \<Rightarrow> parser_state \<times> bool" where
  "is_valid_prefix st prefix =
     (if cget prefix 0 = NUL then (state_set_error st PATH_MAPS_INVALID_PREFIX ''Prefix is empty'', False)
      else if cget prefix 0 = CHR ''.'' then
        (if cget prefix 1 \<noteq> SLASH
         then (state_set_error st PATH_MAPS_INVALID_PREFIX
                 (''Prefix is not a valid relative path: '' @ [CHR 0x27] @ prefix @ [CHR 0x27]), False)
         else (st, True))
      else if cget prefix 0 \<noteq> SLASH
      then (state_set_error st PATH_MAPS_INVALID_PREFIX
              (''Prefix is not an absolute or relative path: '' @ [CHR 0x27] @ prefix @ [CHR 0x27]), False)
      else (st, True))"

definition state_set_remote_prefix :: "parser_state \<Rightarrow> string \<Rightarrow> parser_state \<times> bool" where
  "state_set_remote_prefix st prefix =
     (let trimmed = xdebug_trim prefix; (st1, valid) = is_valid_prefix st trimmed in
      if \<not> valid then (st1, False) else (st1\<lparr>mp_remote_prefix := Some trimmed\<rparr>, True))"

definition state_set_local_prefix :: "parser_state \<Rightarrow> string \<Rightarrow> parser_state \<times> bool" where
  "state_set_local_prefix st prefix =
     (let trimmed = xdebug_trim prefix; (st1, valid) = is_valid_prefix st trimmed in
      if \<not> valid then (st1, False) else (st1\<lparr>mp_local_prefix := Some trimmed\<rparr>, True))"

datatype map_element = REMOTE | LOCAL

definition element_name_as_string :: "map_element \<Rightarrow> string" where
  "element_name_as_string e = (case e of REMOTE \<Rightarrow> ''Remote'' | LOCAL \<Rightarrow> ''Local'')"

definition mapping_type_as_string :: "nat \<Rightarrow> string" where
  "mapping_type_as_string t = [''unknown'', ''directory'', ''file'', ''line-range'', ''skip''] ! t"

definition quote :: "string \<Rightarrow> string" where
  "quote s = [CHR 0x27] @ s @ [CHR 0x27]"

definition has_no_separator :: "parser_state \<Rightarrow> string option \<Rightarrow> string \<Rightarrow> map_element \<Rightarrow> parser_state \<times> bool" where
  "has_no_separator st prefix path element =
     (case prefix of None \<Rightarrow> (st, False)
      | Some p \<Rightarrow>
          if cget path 0 \<noteq> SLASH \<and> length p > 0 \<and> cget p (length p - 1) \<noteq> SLASH
          then (state_set_error st PATH_MAPS_NO_SEPARATOR
                  (element_name_as_string element @ '' prefix ('' @ quote p @
                   '') does not end with a separator, and mapping line does not begin with a separator ('' @
                   quote path @ '')''), True)
          else (st, False))"

definition has_double_separator :: "parser_state \<Rightarrow> string option \<Rightarrow> string \<Rightarrow> map_element \<Rightarrow> parser_state \<times> bool" where
  "has_double_separator st prefix path element =
     (case prefix of None \<Rightarrow> (st, False)
      | Some p \<Rightarrow>
          if cget path 0 = SLASH \<and> length p > 0 \<and> cget p (length p - 1) = SLASH
          then (state_set_error st PATH_MAPS_DOUBLE_SEPARATOR
                  (element_name_as_string element @ '' prefix ends with separator ('' @ quote p @
                   '') and mapping line begins with separator ('' @ quote path @ '')''), True)
          else (st, False))"

section \<open>Line ranges\<close>

text \<open>On success the element length, begin and end; those given in are kept when there is no range.\<close>

definition extract_line_range ::
  "parser_state \<Rightarrow> string \<Rightarrow> nat \<Rightarrow> int \<Rightarrow> int \<Rightarrow> map_element \<Rightarrow> parser_state \<times> (nat \<times> int \<times> int) option" where
  "extract_line_range st element element_length begn endn element_type =
     (let err = (\<lambda>msg arg. (state_set_error st PATH_MAPS_WRONG_RANGE
                   (element_name_as_string element_type @ msg @ quote arg), None))
      in case strrchr element (CHR '':'') of
           None \<Rightarrow> (st, Some (element_length, begn, endn))
         | Some i \<Rightarrow>
           (let colon = drop i element in
            if i = 0 then err '' element: Element only contains a range, but no path: '' colon
            else if i > 0 \<and> cget element (i - 1) = SLASH
            then err '' element: Ranges are not supported with directories: '' element
            else case strchr colon (CHR ''-'') of
              None \<Rightarrow>
                (let (n, end_ptr) = strtol10 (drop 1 colon); lineno = to_int32 n in
                 if cget end_ptr 0 \<noteq> NUL then err '' element: Non-number found as range: '' colon
                 else if lineno < 1 then err '' element: Line number much be larger than 0: '' element
                 else (st, Some (i, lineno, lineno)))
            | Some m \<Rightarrow>
                if m = 1 then err '' element: The starting line number must be provided: '' element
                else
                  (let (b, end_ptr) = strtol10 (drop 1 colon); begin_lineno = to_int32 b in
                   if cget end_ptr 0 \<noteq> CHR ''-'' then err '' element: Non-number found as begin range: '' colon
                   else
                     (let minus = drop m colon; eof = (drop 1 minus = ''EOF'');
                          (e, end_ptr2) = strtol10 (drop 1 minus);
                          end_lineno = (if eof then XDEBUG_PATH_MAP_EOF else to_int32 e)
                      in if \<not> eof \<and> cget end_ptr2 0 \<noteq> NUL
                         then err '' element: Non-number found as end range: '' colon
                         else if end_lineno < begin_lineno
                         then (state_set_error st PATH_MAPS_WRONG_RANGE
                                 (element_name_as_string element_type @ '' element: End of range ('' @
                                  dec_int begin_lineno @ '') is before start of range ('' @ dec_int end_lineno @
                                  ''): '' @ quote colon), None)
                         else (st, Some (i, begin_lineno, end_lineno))))))"

section \<open>The two sides of a rule\<close>

text \<open>The prefix, a leading \<open>.\<close> standing for the working directory.\<close>

definition assemble_path :: "parser_state \<Rightarrow> string option \<Rightarrow> string \<Rightarrow> nat \<Rightarrow> string option" where
  "assemble_path st prefix trimmed trimmed_length =
     (let start = (case prefix of
                     Some p \<Rightarrow> if cget p 0 = CHR ''.'' then map_option (\<lambda>cwd. cwd @ drop 1 p) (mp_cwd st) else Some p
                   | None \<Rightarrow> Some [])
      in case start of None \<Rightarrow> None
         | Some s \<Rightarrow>
             if cget trimmed 0 = CHR ''.'' \<and> cget trimmed 1 = SLASH
             then map_option (\<lambda>cwd. s @ cwd @ take (trimmed_length - 1) (drop 1 trimmed)) (mp_cwd st)
             else Some (s @ take trimmed_length trimmed))"

record element =
  el_path :: "string option"
  el_type :: nat
  el_begin :: int
  el_end :: int

text \<open>
  \<open>None\<close> in the second component is the result \<open>NULL\<close>; the outer \<open>None\<close> a \<open>NULL\<close> working directory.
\<close>

definition prepare_remote_element ::
  "parser_state \<Rightarrow> string \<Rightarrow> nat \<Rightarrow> (parser_state \<times> element option) option" where
  "prepare_remote_element st buffer equals =
     (let trimmed = xdebug_trim (take equals buffer); trimmed_length = length trimmed in
      if trimmed_length < 1 then Some (state_set_error st PATH_MAPS_GARBAGE ''Remote part is empty'', None)
      else
        (let (st1, no_sep) = has_no_separator st (mp_remote_prefix st) trimmed REMOTE in
         if no_sep then Some (st1, None)
         else
           (let (st2, double) = has_double_separator st1 (mp_remote_prefix st1) trimmed REMOTE in
            if double then Some (st2, None)
            else
              (case extract_line_range st2 trimmed trimmed_length 0 0 REMOTE of
                 (st3, None) \<Rightarrow> Some (st3, None)
               | (st3, Some (len, begn, endn)) \<Rightarrow>
                   (let t = (if begn > 0 then XDEBUG_PATH_MAP_TYPE_LINES else XDEBUG_PATH_MAP_TYPE_FILE);
                        t' = (if cget trimmed (len - 1) = SLASH then XDEBUG_PATH_MAP_TYPE_DIRECTORY else t);
                        rb = (if begn > 0 then begn else 0); re = (if begn > 0 then endn else 0)
                    in case assemble_path st3 (mp_remote_prefix st3) trimmed len of
                         None \<Rightarrow> None
                       | Some p \<Rightarrow>
                           Some (st3, Some \<lparr>el_path = Some p, el_type = t', el_begin = rb, el_end = re\<rparr>))))))"

text \<open>A failure here is the type \<open>UNKNOWN\<close>; a skip has no path and the lines \<open>-1\<close>.\<close>

definition prepare_local_element ::
  "parser_state \<Rightarrow> string \<Rightarrow> nat \<Rightarrow> (parser_state \<times> element option) option" where
  "prepare_local_element st buffer equals =
     (let trimmed = xdebug_trim (drop (equals + 1) buffer); trimmed_length = length trimmed in
      if trimmed_length < 1 then Some (state_set_error st PATH_MAPS_GARBAGE ''Local part is empty'', None)
      else if trimmed = ''SKIP''
      then Some (st, Some \<lparr>el_path = None, el_type = XDEBUG_PATH_MAP_FLAGS_SKIP, el_begin = -1, el_end = -1\<rparr>)
      else
        (let (st1, no_sep) = has_no_separator st (mp_local_prefix st) trimmed LOCAL in
         if no_sep then Some (st1, None)
         else
           (let (st2, double) = has_double_separator st1 (mp_local_prefix st1) trimmed LOCAL in
            if double then Some (st2, None)
            else
              (case extract_line_range st2 trimmed trimmed_length 0 0 LOCAL of
                 (st3, None) \<Rightarrow> Some (st3, None)
               | (st3, Some (len, begn, endn)) \<Rightarrow>
                   (let t = (if begn > 0 then XDEBUG_PATH_MAP_TYPE_LINES else XDEBUG_PATH_MAP_TYPE_FILE);
                        t' = (if cget trimmed (len - 1) = SLASH then XDEBUG_PATH_MAP_TYPE_DIRECTORY else t);
                        lb = (if begn > 0 then begn else 0); le = (if begn > 0 then endn else 0)
                    in case assemble_path st3 (mp_local_prefix st3) trimmed len of
                         None \<Rightarrow> None
                       | Some p \<Rightarrow>
                           Some (st3, Some \<lparr>el_path = Some p, el_type = t', el_begin = lb, el_end = le\<rparr>))))))"

section \<open>Adding a rule\<close>

text \<open>The text that \<open>%s\<close> prints for a pointer to an \<open>xdebug_str\<close>: the bytes of its first member, the length.\<close>

fun le_bytes :: "nat \<Rightarrow> nat \<Rightarrow> string" where
  "le_bytes 0 n = []"
| "le_bytes (Suc k) n = char_of (n mod 256) # le_bytes k (n div 256)"

definition printed_struct :: "string \<Rightarrow> string" where
  "printed_struct p = c_str (le_bytes 8 (length p))"

text \<open>
  The checks on types and spans for a rule that does not skip; the result is the end of the local range,
  which an open end moves, or \<open>None\<close> for an error.
\<close>

definition check_rule_spans :: "parser_state \<Rightarrow> element \<Rightarrow> element \<Rightarrow> parser_state \<times> int option" where
  "check_rule_spans st remote loc =
     (if has_skip (el_type loc) then (st, Some (el_end loc))
      else if el_type remote \<noteq> el_type loc
      then (state_set_error st PATH_MAPS_MISMATCHED_TYPES
              (''Remote mapping part ('' @ quote (the (el_path remote)) @ '') type ('' @
               mapping_type_as_string (el_type remote) @ '') must match local mapping part ('' @
               quote (the (el_path loc)) @ '') type ('' @ mapping_type_as_string (el_type loc) @ '')''), None)
      else
        (let open_end = (el_type remote = XDEBUG_PATH_MAP_TYPE_LINES \<and> el_begin remote \<noteq> el_end remote \<and>
                         el_end remote = XDEBUG_PATH_MAP_EOF \<and> el_begin loc \<noteq> el_end loc)
         in if open_end \<and> el_end loc \<noteq> XDEBUG_PATH_MAP_EOF
            then (state_set_error st PATH_MAPS_WRONG_RANGE
                    (''The local range span ('' @ dec_int (el_begin loc) @ ''-'' @ dec_int (el_end loc) @
                     '') needs to be a single line, or end in '' @ quote ''EOF''), None)
            else
              (let local_end = (if open_end then el_end loc + el_begin loc - el_begin remote else el_end loc) in
               if el_type remote = XDEBUG_PATH_MAP_TYPE_LINES \<and> el_begin loc \<noteq> local_end \<and>
                  el_end remote - el_begin remote \<noteq> local_end - el_begin loc
               then (state_set_error st PATH_MAPS_WRONG_RANGE
                       (''The remote range span ('' @ dec_int (el_begin remote) @ ''-'' @ dec_int (el_end remote) @
                        '') needs to have the same difference ('' @ dec_int (el_end remote - el_begin remote) @
                        '') as the local range span ('' @ dec_int (el_begin loc) @ ''-'' @ dec_int local_end @
                        '') difference ('' @ dec_int (local_end - el_begin loc) @ '')''), None)
               else (st, Some local_end))))"

text \<open>One more range behind the tail of an existing mapping for the same remote path.\<close>

definition add_range_to_existing ::
  "parser_state \<Rightarrow> path_mapping \<Rightarrow> string \<Rightarrow> path_map_range \<Rightarrow> (parser_state \<times> bool) option" where
  "add_range_to_existing st existing remote_path r =
     (if pm_type existing \<noteq> XDEBUG_PATH_MAP_TYPE_LINES
      then Some (state_set_error st PATH_MAPS_MIXING_PATH_AND_LINES
             (''An entry for '' @ quote (printed_struct remote_path) @
              '' is already present, but it is not a line range entry. You can'' @ [CHR 0x27] @ ''t mix them''), False)
      else
        case pm_target existing of
          Line_ranges (Some v) \<Rightarrow>
            (case (case XDEBUG_VECTOR_TAIL v of None \<Rightarrow> None | Some i \<Rightarrow> range_at v (int i)) of
               None \<Rightarrow> None
             | Some tail_range \<Rightarrow>
                 (let skip = has_skip (local_flags r) in
                  if \<not> skip \<and> \<not> has_skip (local_flags tail_range) \<and>
                     (range_path tail_range = None \<or> range_path r = None) then None
                  else if \<not> skip \<and> \<not> has_skip (local_flags tail_range) \<and> range_path tail_range \<noteq> range_path r
                  then Some (state_set_error st PATH_MAPS_WRONG_RANGE
                         (''The local path ('' @ the (range_path r) @ '') must match earlier local paths ('' @
                          the (range_path tail_range) @ '') for the same remote path ('' @ remote_path @ '')''), False)
                  else if \<not> skip \<and> remote_begin r \<le> remote_end tail_range
                  then Some (state_set_error st PATH_MAPS_WRONG_RANGE
                         (''The remote range begin line ('' @ dec_int (remote_begin r) @
                          '') must be higher than the previous range end line ('' @ dec_int (remote_end tail_range) @
                          '')''), False)
                  else if \<not> skip \<and> local_begin r \<le> local_end tail_range
                  then Some (state_set_error st PATH_MAPS_WRONG_RANGE
                         (''The local range begin line ('' @ dec_int (local_begin r) @
                          '') must be higher than the previous range end line ('' @ dec_int (local_end tail_range) @
                          '')''), False)
                  else
                    (case xdebug_vector_push zero_range v of
                       None \<Rightarrow> None
                     | Some v' \<Rightarrow>
                         Some (st\<lparr>mp_rules := hash_poke (mp_rules st) remote_path
                                 (existing\<lparr>pm_target := Line_ranges (Some (vector_store v' (vec_count v' - 1) r))\<rparr>)\<rparr>,
                               True))))
        | _ \<Rightarrow> None)"

definition add_new_mapping ::
  "parser_state \<Rightarrow> nat \<Rightarrow> nat \<Rightarrow> string \<Rightarrow> path_map_range \<Rightarrow> (parser_state \<times> bool) option" where
  "add_new_mapping st remote_type local_type remote_path r =
     (case xdebug_path_mapping_ctor remote_type of
        None \<Rightarrow> None
      | Some tmp0 \<Rightarrow>
          (let tmp = tmp0\<lparr>pm_remote := Some remote_path\<rparr> in
           case (if remote_type = XDEBUG_PATH_MAP_TYPE_LINES
                 then (case pm_target tmp of
                         Line_ranges (Some v) \<Rightarrow>
                           map_option (\<lambda>v'. tmp\<lparr>pm_target := Line_ranges (Some (vector_store v' (vec_count v' - 1) r))\<rparr>)
                             (xdebug_vector_push zero_range v)
                       | _ \<Rightarrow> None)
                 else Some (tmp\<lparr>pm_type := pm_type tmp OR flags_mask local_type,
                               pm_target := Local_path (range_path r)\<rparr>))
           of None \<Rightarrow> None
            | Some m \<Rightarrow> Some (st\<lparr>mp_rules := xdebug_hash_add (mp_rules st) remote_path m\<rparr>, True)))"

definition state_add_rule :: "parser_state \<Rightarrow> string \<Rightarrow> nat \<Rightarrow> (parser_state \<times> bool) option" where
  "state_add_rule st buffer equals =
     (case prepare_remote_element st buffer equals of
        None \<Rightarrow> None
      | Some (st1, None) \<Rightarrow> Some (st1, False)
      | Some (st1, Some remote) \<Rightarrow>
          (case prepare_local_element st1 buffer equals of
             None \<Rightarrow> None
           | Some (st2, None) \<Rightarrow> Some (st2, False)
           | Some (st2, Some loc) \<Rightarrow>
               (case check_rule_spans st2 remote loc of
                  (st3, None) \<Rightarrow> Some (st3, False)
                | (st3, Some lend) \<Rightarrow>
                    (case el_path remote of
                       None \<Rightarrow> None
                     | Some remote_path \<Rightarrow>
                         (let r = xdebug_path_map_range_set (el_begin remote) (el_end remote)
                                    (flags_mask (el_type loc)) (el_path loc) (el_begin loc) lend
                          in case xdebug_hash_find (mp_rules st3) remote_path of
                               Some existing \<Rightarrow> add_range_to_existing st3 existing remote_path r
                             | None \<Rightarrow> add_new_mapping st3 (el_type remote) (el_type loc) remote_path r)))))"

section \<open>Reading the file\<close>

text \<open>
  \<open>fgets(buffer, sizeof(buffer), file)\<close>: at most 2047 bytes, up to and including the first newline;
  \<open>None\<close> at the end of the file.
\<close>

definition fgets :: "string \<Rightarrow> (string \<times> string) option" where
  "fgets file =
     (if file = [] then None
      else let window = take 2047 file;
               n = (case strchr window NEWLINE of None \<Rightarrow> length window | Some i \<Rightarrow> i + 1)
           in Some (take n file, drop n file))"

lemma fgets_rest: "fgets file = Some (l, rest) \<Longrightarrow> length rest < length file"
  by (auto simp: fgets_def Let_def split: if_splits option.splits)

text \<open>One round of the loop, with the C string in the buffer.\<close>

definition state_line :: "parser_state \<Rightarrow> string \<Rightarrow> (parser_state \<times> bool) option" where
  "state_line st0 buffer =
     (let st = st0\<lparr>mp_line_no := mp_line_no st0 + 1\<rparr>; buffer_len = length buffer in
      if buffer_len = 0
      then Some (state_set_error st PATH_MAPS_EMPTY_LINE ''Empty line, which shouldn't be possible'', False)
      else if cget buffer (buffer_len - 1) \<noteq> NEWLINE
      then Some (state_set_error st PATH_MAPS_NO_NEWLINE ''Line does not end in a new line'', False)
      else if buffer_len = 1 then Some (st, True)
      else if strneq buffer ''remote_prefix:'' (length ''remote_prefix:'')
      then Some (state_set_remote_prefix st (drop (length ''remote_prefix:'') buffer))
      else if strneq buffer ''local_prefix:'' (length ''local_prefix:'')
      then Some (state_set_local_prefix st (drop (length ''local_prefix:'') buffer))
      else if cget buffer 0 = CHR ''#'' then Some (st, True)
      else case strchr buffer (CHR ''='') of
             None \<Rightarrow>
               Some (state_set_error st PATH_MAPS_GARBAGE
                       (''Line is not empty, and has no stanza, assignment, or starts with '' @ quote ''#''), False)
           | Some equals \<Rightarrow>
               if equals = 0
               then Some (state_set_error st PATH_MAPS_GARBAGE (''Line starts with a '' @ quote ''=''), False)
               else state_add_rule st buffer equals)"

function read_lines :: "parser_state \<Rightarrow> string \<Rightarrow> (parser_state \<times> bool) option" where
  "read_lines st file =
     (case fgets file of
        None \<Rightarrow> Some (st, True)
      | Some (line, rest) \<Rightarrow>
          (case state_line st (c_str line) of
             None \<Rightarrow> None
           | Some (st', ok) \<Rightarrow> if \<not> ok then Some (st', False) else read_lines st' rest))"
  by pat_completeness auto
termination
  by (relation "measure (length \<circ> snd)") (auto dest: fgets_rest)

declare read_lines.simps [simp del]

definition state_file_read_lines :: "parser_state \<Rightarrow> string \<Rightarrow> (parser_state \<times> bool) option" where
  "state_file_read_lines st file = read_lines (st\<lparr>mp_line_no := 0\<rparr>) file"

section \<open>Copying the rules into the lookup tables\<close>

type_synonym copy_state = "path_mapping xdebug_hash \<times> parser_state"

definition copy_rule :: "copy_state option \<Rightarrow> hash_key \<times> path_mapping \<Rightarrow> copy_state option" where
  "copy_rule us e =
     (case us of None \<Rightarrow> None
      | Some (ret, st) \<Rightarrow>
          (let new_rule = snd e in
           if mp_copy_error st then Some (ret, st)
           else case pm_remote new_rule of
                  None \<Rightarrow> None
                | Some path \<Rightarrow>
                    (case xdebug_hash_find ret path of
                       Some _ \<Rightarrow>
                         Some (ret, (state_set_error st PATH_MAPS_DUPLICATE_RULES
                                       (''Duplicate rules in multiple files for '' @ quote path))\<lparr>mp_copy_error := True\<rparr>)
                     | None \<Rightarrow> Some (xdebug_hash_add ret path new_rule, st))))"

text \<open>The slots of a vector from its head to its count.\<close>

definition vec_slots :: "'a xdebug_vector \<Rightarrow> 'a option list" where
  "vec_slots v = map (\<lambda>i. if i < length (vec_data v) then vec_data v ! i else None) [0..<vec_count v]"

fun reverse_ranges ::
  "string option \<Rightarrow> path_map_range option list \<Rightarrow> path_map_range xdebug_vector \<Rightarrow> string option \<Rightarrow>
   (path_map_range xdebug_vector \<times> string option) option" where
  "reverse_ranges remote [] v last_path = Some (v, last_path)"
| "reverse_ranges remote (None # rs) v last_path = None"
| "reverse_ranges remote (Some rg # rs) v last_path =
     (if has_skip (local_flags rg) then reverse_ranges remote rs v last_path
      else case xdebug_vector_push zero_range v of
             None \<Rightarrow> None
           | Some v' \<Rightarrow>
               reverse_ranges remote rs
                 (vector_store v' (vec_count v' - 1)
                   (xdebug_path_map_range_set (remote_begin rg) (remote_end rg)
                     (flags_mask (local_flags rg)) remote (local_begin rg) (local_end rg)))
                 (range_path rg))"

definition copy_rule_reverse :: "copy_state option \<Rightarrow> hash_key \<times> path_mapping \<Rightarrow> copy_state option" where
  "copy_rule_reverse us e =
     (case us of None \<Rightarrow> None
      | Some (ret, st) \<Rightarrow>
          (let new_rule = snd e; t = type_mask (pm_type new_rule) in
           if mp_copy_error st then Some (ret, st)
           else if has_skip (pm_type new_rule) then Some (ret, st)
           else if t = XDEBUG_PATH_MAP_TYPE_FILE \<or> t = XDEBUG_PATH_MAP_TYPE_DIRECTORY then
             (case pm_target new_rule of
                Local_path (Some path) \<Rightarrow>
                  (case xdebug_hash_find ret path of
                     Some _ \<Rightarrow>
                       Some (ret, (state_set_error st PATH_MAPS_DUPLICATE_RULES
                                     (''Duplicate rules in multiple files for '' @ quote path))\<lparr>mp_copy_error := True\<rparr>)
                   | None \<Rightarrow> Some (xdebug_hash_add ret path new_rule, st))
              | _ \<Rightarrow> None)
           else if t = XDEBUG_PATH_MAP_TYPE_LINES then
             (case pm_target new_rule of
                Line_ranges None \<Rightarrow> Some (ret, st)
              | Line_ranges (Some v) \<Rightarrow>
                  (if vec_count v = 0 then Some (ret, st)
                   else case xdebug_path_mapping_ctor XDEBUG_PATH_MAP_TYPE_LINES of
                     None \<Rightarrow> None
                   | Some reverse_map \<Rightarrow>
                       (case reverse_ranges (pm_remote new_rule) (vec_slots v) xdebug_vector_alloc None of
                          None \<Rightarrow> None
                        | Some (rv, last_path) \<Rightarrow>
                            if vec_count rv > 0
                            then (case last_path of None \<Rightarrow> None
                                  | Some path \<Rightarrow>
                                      Some (xdebug_hash_add ret path
                                              (reverse_map\<lparr>pm_target := Line_ranges (Some rv)\<rparr>), st))
                            else Some (ret, st)))
              | Local_path _ \<Rightarrow> None)
           else Some (ret, st)))"

text \<open>
  The maps after the call, and the error code, line and message of a call that failed.  The outer
  \<open>None\<close> is an access through \<open>NULL\<close>, which a missing working directory provokes on purpose.
\<close>

definition parse_failed :: "path_maps \<Rightarrow> parser_state \<Rightarrow> (path_maps \<times> (nat \<times> int \<times> string option) option) option" where
  "parse_failed maps st =
     Some (maps, Some (state_get_error_code st, state_get_error_line st, state_get_error_message st))"

definition xdebug_path_maps_parse_file ::
  "path_maps \<Rightarrow> string option \<Rightarrow> string option \<Rightarrow> (path_maps \<times> (nat \<times> int \<times> string option) option) option" where
  "xdebug_path_maps_parse_file maps cwd contents =
     (case cwd of None \<Rightarrow> None
      | Some dir \<Rightarrow>
        (let st0 = path_maps_parser_state_ctor\<lparr>mp_cwd := Some dir\<rparr>; (st1, opened) = state_open_file st0 contents in
         if \<not> opened then parse_failed maps st1
         else case state_file_read_lines st1 (the contents) of
           None \<Rightarrow> None
         | Some (st2, ok) \<Rightarrow>
             if \<not> ok then parse_failed maps st2
             else if h_size (mp_rules st2) = 0
             then parse_failed maps (state_set_error st2 PATH_MAPS_NO_RULES ''The map file did not provide any mappings'')
             else
               (case xdebug_hash_apply_with_argument (mp_rules st2) None
                       (Some (remote_to_local_map maps, st2\<lparr>mp_copy_error := False\<rparr>)) copy_rule of
                  None \<Rightarrow> None
                | Some (r2l, st3) \<Rightarrow>
                    (let maps1 = maps\<lparr>remote_to_local_map := r2l\<rparr> in
                     if mp_copy_error st3 then parse_failed maps1 st3
                     else
                       (case xdebug_hash_apply_with_argument (mp_rules st3) None
                               (Some (local_to_remote_map maps1, st3\<lparr>mp_copy_error := False\<rparr>)) copy_rule_reverse of
                          None \<Rightarrow> None
                        | Some (l2r, st4) \<Rightarrow>
                            (let maps2 = maps1\<lparr>local_to_remote_map := l2r\<rparr> in
                             if mp_copy_error st4 then parse_failed maps2 st4
                             else Some (maps2, None)))))))"

end
