(* ===== verification/Xd_Maps_Correct.thy ===== *)
theory Xd_Maps_Correct
  imports Xd_Maps_Parser
begin

text \<open>
  What the path-map parser guarantees: its functions never go through a \<open>NULL\<close> pointer, every rule it
  stores is a well-formed mapping, the line ranges of a rule without \<open>SKIP\<close> lines are ascending on both
  sides, so the lookups of \<open>Xd_Maps\<close> find the range of a line, and a successful parse adds exactly its
  rules to the remote-to-local table.
\<close>

section \<open>Functions that only touch the error\<close>

definition same_frame :: "parser_state \<Rightarrow> parser_state \<Rightarrow> bool" where
  "same_frame st st' \<longleftrightarrow> mp_rules st' = mp_rules st \<and> mp_cwd st' = mp_cwd st \<and> mp_line_no st' = mp_line_no st \<and>
     mp_local_prefix st' = mp_local_prefix st \<and> mp_remote_prefix st' = mp_remote_prefix st \<and>
     mp_copy_error st' = mp_copy_error st"

lemma same_frame_refl [simp]: "same_frame st st"
  by (simp add: same_frame_def)

lemma same_frame_trans: "same_frame a b \<Longrightarrow> same_frame b c \<Longrightarrow> same_frame a c"
  by (simp add: same_frame_def)

lemma same_frame_error [simp]: "same_frame st (state_set_error st code msg)"
  by (simp add: same_frame_def state_set_error_def)

lemma separators_frame:
  "same_frame st (fst (has_no_separator st p path e))" "same_frame st (fst (has_double_separator st p path e))"
  by (simp_all add: has_no_separator_def has_double_separator_def split: option.split)

lemma extract_frame: "same_frame st (fst (extract_line_range st el len b e t))"
  by (simp add: extract_line_range_def Let_def split: option.split prod.split)

lemma extract_range:
  assumes "extract_line_range st el len b e t = (st', Some (len', b', e'))"
  shows "(b' = b \<and> e' = e) \<or> (b' \<le> e' \<and> - (2 ^ 31) \<le> b' \<and> b' < 2 ^ 31 \<and> e' < 2 ^ 31)"
  using assms to_int32_bounds
  by (auto simp: extract_line_range_def Let_def XDEBUG_PATH_MAP_EOF_def split: option.splits prod.splits if_splits)

definition element_ok :: "element \<Rightarrow> bool" where
  "element_ok el \<longleftrightarrow> el_path el \<noteq> None \<and>
     el_type el \<in> {XDEBUG_PATH_MAP_TYPE_DIRECTORY, XDEBUG_PATH_MAP_TYPE_FILE, XDEBUG_PATH_MAP_TYPE_LINES} \<and>
     0 \<le> el_begin el \<and> el_begin el \<le> el_end el \<and> el_end el < 2 ^ 31 \<and>
     (el_type el = XDEBUG_PATH_MAP_TYPE_LINES \<longrightarrow> 0 < el_begin el)"

definition skip_element :: element where
  "skip_element = \<lparr>el_path = None, el_type = XDEBUG_PATH_MAP_FLAGS_SKIP, el_begin = -1, el_end = -1\<rparr>"

lemma assemble_some: "mp_cwd st \<noteq> None \<Longrightarrow> \<exists>p. assemble_path st prefix t n = Some p"
  by (auto simp: assemble_path_def Let_def split: option.split)

lemma prepare_remote_ok:
  assumes "mp_cwd st \<noteq> None"
  shows "\<exists>st' r. prepare_remote_element st buf eq = Some (st', r) \<and> same_frame st st' \<and>
           (\<forall>el. r = Some el \<longrightarrow> element_ok el)"
proof -
  define tr where "tr = xdebug_trim (take eq buf)"
  obtain st1 ns where 1: "has_no_separator st (mp_remote_prefix st) tr REMOTE = (st1, ns)" by fastforce
  obtain st2 db where 2: "has_double_separator st1 (mp_remote_prefix st1) tr REMOTE = (st2, db)" by fastforce
  obtain st3 r where 3: "extract_line_range st2 tr (length tr) 0 0 REMOTE = (st3, r)" by fastforce
  have f: "same_frame st st1" "same_frame st st2" "same_frame st st3"
    using separators_frame(1) [of st "mp_remote_prefix st" tr REMOTE] separators_frame(2) [of st1 "mp_remote_prefix st1" tr REMOTE]
      extract_frame [of st2 tr "length tr" 0 0 REMOTE] 1 2 3 by (auto intro: same_frame_trans)
  have c: "mp_cwd st3 \<noteq> None" using f(3) assms by (simp add: same_frame_def)
  show ?thesis
  proof (cases r)
    case None
    then show ?thesis using 1 2 3 f by (auto simp: prepare_remote_element_def Let_def tr_def)
  next
    case (Some x)
    obtain len b e where x: "x = (len, b, e)" by (cases x)
    obtain p where p: "assemble_path st3 (mp_remote_prefix st3) tr len = Some p" using assemble_some [OF c] by blast
    have "b \<le> e \<and> e < 2 ^ 31" using extract_range [OF 3 [unfolded Some x]] by auto
    with 1 2 3 f p Some x show ?thesis
      by (auto simp: prepare_remote_element_def Let_def tr_def [symmetric] element_ok_def path_map_types)
  qed
qed

lemma prepare_local_ok:
  assumes "mp_cwd st \<noteq> None"
  shows "\<exists>st' r. prepare_local_element st buf eq = Some (st', r) \<and> same_frame st st' \<and>
           (\<forall>el. r = Some el \<longrightarrow> element_ok el \<or> el = skip_element)"
proof -
  define tr where "tr = xdebug_trim (drop (Suc eq) buf)"
  obtain st1 ns where 1: "has_no_separator st (mp_local_prefix st) tr LOCAL = (st1, ns)" by fastforce
  obtain st2 db where 2: "has_double_separator st1 (mp_local_prefix st1) tr LOCAL = (st2, db)" by fastforce
  obtain st3 r where 3: "extract_line_range st2 tr (length tr) 0 0 LOCAL = (st3, r)" by fastforce
  have f: "same_frame st st1" "same_frame st st2" "same_frame st st3"
    using separators_frame(1) [of st "mp_local_prefix st" tr LOCAL] separators_frame(2) [of st1 "mp_local_prefix st1" tr LOCAL]
      extract_frame [of st2 tr "length tr" 0 0 LOCAL] 1 2 3 by (auto intro: same_frame_trans)
  have c: "mp_cwd st3 \<noteq> None" using f(3) assms by (simp add: same_frame_def)
  show ?thesis
  proof (cases r)
    case None
    then show ?thesis using 1 2 3 f
      by (auto simp: prepare_local_element_def Let_def tr_def [symmetric] skip_element_def)
  next
    case (Some x)
    obtain len b e where x: "x = (len, b, e)" by (cases x)
    obtain p where p: "assemble_path st3 (mp_local_prefix st3) tr len = Some p" using assemble_some [OF c] by blast
    have "b \<le> e \<and> e < 2 ^ 31" using extract_range [OF 3 [unfolded Some x]] by auto
    with 1 2 3 f p Some x show ?thesis
      by (auto simp: prepare_local_element_def Let_def tr_def [symmetric] element_ok_def skip_element_def path_map_types)
  qed
qed

lemma spans_frame: "same_frame st (fst (check_rule_spans st r l))"
  by (simp add: check_rule_spans_def Let_def)

lemma spans_ok:
  assumes "check_rule_spans st r l = (st', Some lend)" "element_ok r" "element_ok l"
  shows "el_type r = el_type l" "el_begin l \<le> lend" "lend < 2 ^ 33"
  using assms
  by (auto simp: check_rule_spans_def Let_def element_ok_def has_skip_def path_map_types XDEBUG_PATH_MAP_EOF_def
      split: if_splits)

section \<open>Well-formed rules\<close>

definition range_ok :: "path_map_range \<Rightarrow> bool" where
  "range_ok r \<longleftrightarrow> (if has_skip (local_flags r) then range_path r = None \<and> local_begin r = -1 \<and> local_end r = -1
     else range_path r \<noteq> None \<and> 0 \<le> remote_begin r \<and> remote_begin r \<le> remote_end r \<and> remote_end r < 2 ^ 31 \<and>
          0 \<le> local_begin r \<and> local_begin r \<le> local_end r \<and> local_end r < 2 ^ 33)"

definition no_skip :: "path_map_range list \<Rightarrow> bool" where
  "no_skip rs \<longleftrightarrow> (\<forall>r \<in> set rs. \<not> has_skip (local_flags r))"

definition in_order :: "path_map_range list \<Rightarrow> bool" where
  "in_order rs \<longleftrightarrow> sorted_wrt (\<lambda>a b. remote_end a < remote_begin b \<and> local_end a < local_begin b \<and> range_path a = range_path b) rs"

definition line_ranges_ok :: "nat \<Rightarrow> path_map_range xdebug_vector \<Rightarrow> bool" where
  "line_ranges_ok k v \<longleftrightarrow> vec_ok v \<and> vec_list v \<noteq> [] \<and> vec_count v \<le> k \<and> (\<forall>r \<in> set (vec_list v). range_ok r) \<and>
     (no_skip (vec_list v) \<longrightarrow> in_order (vec_list v))"

definition mapping_ok :: "nat \<Rightarrow> string \<Rightarrow> path_mapping \<Rightarrow> bool" where
  "mapping_ok k path m \<longleftrightarrow> pm_remote m = Some path \<and>
     ((pm_type m = XDEBUG_PATH_MAP_TYPE_LINES \<and> (\<exists>v. pm_target m = Line_ranges (Some v) \<and> line_ranges_ok k v)) \<or>
      (pm_type m \<in> {1, 2} \<and> (\<exists>p. pm_target m = Local_path (Some p))) \<or>
      (pm_type m \<in> {17, 18} \<and> pm_target m = Local_path None))"

definition rules_ok :: "nat \<Rightarrow> path_mapping xdebug_hash \<Rightarrow> bool" where
  "rules_ok k h \<longleftrightarrow> hash_ok h \<and> (\<forall>key m. hash_map h key = Some m \<longrightarrow> (\<exists>path. key = HStr path \<and> mapping_ok k path m))"

lemma mapping_ok_mono: "mapping_ok k path m \<Longrightarrow> k \<le> k' \<Longrightarrow> mapping_ok k' path m"
  by (auto simp: mapping_ok_def line_ranges_ok_def)

lemma rules_ok_mono: "rules_ok k h \<Longrightarrow> k \<le> k' \<Longrightarrow> rules_ok k' h"
  unfolding rules_ok_def using mapping_ok_mono by blast

lemma rules_ok_put:
  assumes "rules_ok k h" "mapping_ok k path m"
  shows "rules_ok k (xdebug_hash_add h path m)" "rules_ok k (hash_poke h path m)"
  using assms by (auto simp: rules_ok_def add_str_map poke_map)

lemma in_order_snoc:
  assumes "in_order (rs @ [t])" "no_skip (rs @ [t])" "\<forall>r \<in> set (rs @ [t]). range_ok r"
    "remote_end t < remote_begin r" "local_end t < local_begin r" "range_path t = range_path r"
  shows "in_order (rs @ [t] @ [r])"
proof -
  have t: "remote_begin t \<le> remote_end t" "local_begin t \<le> local_end t"
    using assms(2,3) by (auto simp: no_skip_def range_ok_def)
  have "remote_end a < remote_begin r \<and> local_end a < local_begin r \<and> range_path a = range_path r" if "a \<in> set rs" for a
    using assms(1,4-6) t that by (force simp: in_order_def sorted_wrt_append)
  with assms show ?thesis by (auto simp: in_order_def sorted_wrt_append)
qed

lemma push_store:
  assumes "vec_ok v"
  shows "\<exists>v'. xdebug_vector_push z v = Some v' \<and> vec_ok (vector_store v' (vec_count v' - 1) r) \<and>
    vec_list (vector_store v' (vec_count v' - 1) r) = vec_list v @ [r] \<and>
    vec_count (vector_store v' (vec_count v' - 1) r) = vec_count v + 1"
proof -
  obtain v' where v': "xdebug_vector_push z v = Some v'" "vec_ok v'" "vec_list v' = vec_list v @ [z]"
    using push_ok [OF assms] by blast
  have n: "vec_count v' = Suc (vec_count v)"
    using vec_list_length [OF v'(2)] vec_list_length [OF assms] v'(3) by simp
  have "vec_list (vector_store v' (vec_count v' - 1) r) = vec_list v @ [r]"
    using store_ok(2) [OF v'(2), of "vec_count v" r] v'(3) n vec_list_length [OF assms] by (metis diff_Suc_1 lessI list_update_length)
  then show ?thesis using v' n store_ok(1) [OF v'(2), of "vec_count v" r]
    by (intro exI [of _ v']) (simp add: vector_store_def)
qed

lemma add_range_to_existing_ok:
  assumes st: "rules_ok k (mp_rules st)" "k < 2 ^ 31" and m: "mapping_ok k path m" and r: "range_ok r"
  shows "\<exists>st' b. add_range_to_existing st m path r = Some (st', b) \<and> rules_ok (k + 1) (mp_rules st') \<and>
    mp_cwd st' = mp_cwd st \<and> mp_line_no st' = mp_line_no st"
proof (cases "pm_type m = XDEBUG_PATH_MAP_TYPE_LINES")
  case False
  then show ?thesis using st rules_ok_mono [of k _ "k + 1"]
    by (auto simp: add_range_to_existing_def state_set_error_def)
next
  case True
  then obtain v where v: "pm_target m = Line_ranges (Some v)" "line_ranges_ok k v" and mr: "pm_remote m = Some path"
    using m by (auto simp: mapping_ok_def path_map_types)
  have vok: "vec_ok v" "vec_count v < 2 ^ 31" "vec_list v \<noteq> []" using v(2) st(2) by (auto simp: line_ranges_ok_def)
  obtain rs t where rs: "vec_list v = rs @ [t]" using vok(3) by (cases "vec_list v" rule: rev_cases) auto
  have n: "vec_count v = Suc (length rs)" using vec_list_length [OF vok(1)] rs by simp
  have tail: "XDEBUG_VECTOR_TAIL v = Some (length rs)" using tail_ok [of v] n vok(2) by simp
  have at: "range_at v (int (length rs)) = Some t" using range_at_nth [OF vok(1), of "int (length rs)"] n vok(2) rs by simp
  have tok: "range_ok t" using v(2) rs by (simp add: line_ranges_ok_def)
  obtain v' where push: "xdebug_vector_push zero_range v = Some v'"
    and w: "vec_ok (vector_store v' (vec_count v' - 1) r)" "vec_list (vector_store v' (vec_count v' - 1) r) = rs @ [t] @ [r]"
      "vec_count (vector_store v' (vec_count v' - 1) r) = vec_count v + 1"
    using push_store [OF vok(1), of zero_range r] rs by auto
  let ?w = "vector_store v' (vec_count v' - 1) r"
  have good: "rules_ok (k + 1) (hash_poke (mp_rules st) path (m\<lparr>pm_target := Line_ranges (Some ?w)\<rparr>))"
    if "no_skip (rs @ [t] @ [r]) \<Longrightarrow> remote_end t < remote_begin r \<and> local_end t < local_begin r \<and> range_path t = range_path r"
  proof -
    have "no_skip (rs @ [t] @ [r]) \<Longrightarrow> in_order (rs @ [t] @ [r])"
      using in_order_snoc [of rs t r] that v(2) rs by (auto simp: line_ranges_ok_def no_skip_def)
    then have "line_ranges_ok (k + 1) ?w" using w v(2) rs r by (auto simp: line_ranges_ok_def)
    then have "mapping_ok (k + 1) path (m\<lparr>pm_target := Line_ranges (Some ?w)\<rparr>)" using True mr by (simp add: mapping_ok_def)
    then show ?thesis using rules_ok_put(2) rules_ok_mono [OF st(1), of "k + 1"] by simp
  qed
  have paths: "\<not> has_skip (local_flags r) \<Longrightarrow> range_path r \<noteq> None" "\<not> has_skip (local_flags t) \<Longrightarrow> range_path t \<noteq> None"
    using r tok by (auto simp: range_ok_def)
  show ?thesis
    using True v(1) tail at push paths good rules_ok_mono [OF st(1), of "k + 1"]
    by (auto simp: add_range_to_existing_def Let_def state_set_error_def no_skip_def)
qed

lemma add_new_mapping_ok:
  assumes st: "rules_ok k (mp_rules st)" and r: "range_ok r"
    and t: "rt \<in> {XDEBUG_PATH_MAP_TYPE_DIRECTORY, XDEBUG_PATH_MAP_TYPE_FILE, XDEBUG_PATH_MAP_TYPE_LINES}"
    and lt: "(has_skip (local_flags r) \<and> lt = XDEBUG_PATH_MAP_FLAGS_SKIP) \<or> (\<not> has_skip (local_flags r) \<and> lt = rt)"
  shows "\<exists>st' b. add_new_mapping st rt lt path r = Some (st', b) \<and> rules_ok (k + 1) (mp_rules st') \<and>
    mp_cwd st' = mp_cwd st \<and> mp_line_no st' = mp_line_no st"
proof (cases "rt = XDEBUG_PATH_MAP_TYPE_LINES")
  case True
  obtain v' where push: "xdebug_vector_push zero_range xdebug_vector_alloc = Some v'"
    and w: "vec_ok (vector_store v' (vec_count v' - 1) r)" "vec_list (vector_store v' (vec_count v' - 1) r) = [r]"
      "vec_count (vector_store v' (vec_count v' - 1) r) = 1"
    using push_store [OF vec_ok_alloc(1), of zero_range r] vec_ok_alloc by (auto simp: xdebug_vector_alloc_def)
  let ?w = "vector_store v' (vec_count v' - 1) r"
  let ?m = "\<lparr>pm_type = rt, pm_remote = Some path, pm_target = Line_ranges (Some ?w)\<rparr>"
  have "line_ranges_ok (k + 1) ?w" using w r by (simp add: line_ranges_ok_def in_order_def)
  then have "mapping_ok (k + 1) path ?m" using True by (simp add: mapping_ok_def)
  then have "rules_ok (k + 1) (xdebug_hash_add (mp_rules st) path ?m)"
    using rules_ok_put(1) rules_ok_mono [OF st, of "k + 1"] by simp
  then show ?thesis using True push
    by (auto simp: add_new_mapping_def xdebug_path_mapping_ctor_def flags_mask_def type_mask_def path_map_types)
next
  case False
  let ?m = "\<lparr>pm_type = rt OR flags_mask lt, pm_remote = Some path, pm_target = Local_path (range_path r)\<rparr>"
  have "mapping_ok (k + 1) path ?m" using False t lt r
    by (auto simp: mapping_ok_def range_ok_def flags_mask_def path_map_types)
  then have "rules_ok (k + 1) (xdebug_hash_add (mp_rules st) path ?m)"
    using rules_ok_put(1) rules_ok_mono [OF st, of "k + 1"] by simp
  then show ?thesis using False t
    by (auto simp: add_new_mapping_def xdebug_path_mapping_ctor_def flags_mask_def type_mask_def path_map_types Let_def)
qed

lemma skip_flags: "has_skip (flags_mask t) = has_skip t"
  by (simp add: has_skip_def flags_mask_def dvd_mod_iff)

lemma element_no_skip: "element_ok el \<Longrightarrow> \<not> has_skip (el_type el)"
  by (auto simp: element_ok_def has_skip_def path_map_types)

lemma rule_range_ok:
  assumes "element_ok remote" "(element_ok loc \<and> el_begin loc \<le> lend \<and> lend < 2 ^ 33) \<or> (loc = skip_element \<and> lend = -1)"
  shows "range_ok (xdebug_path_map_range_set (el_begin remote) (el_end remote) (flags_mask (el_type loc))
           (el_path loc) (el_begin loc) lend)"
  using assms(2)
proof
  assume "element_ok loc \<and> el_begin loc \<le> lend \<and> lend < 2 ^ 33"
  with assms(1) element_no_skip [of loc] show ?thesis
    by (auto simp: range_ok_def xdebug_path_map_range_set_def skip_flags element_ok_def)
next
  assume "loc = skip_element \<and> lend = -1"
  then show ?thesis
    by (simp add: range_ok_def xdebug_path_map_range_set_def skip_flags skip_element_def)
      (simp add: has_skip_def path_map_types)
qed

definition maps_parser_ok :: "nat \<Rightarrow> parser_state \<Rightarrow> bool" where
  "maps_parser_ok k st \<longleftrightarrow> rules_ok k (mp_rules st) \<and> mp_cwd st \<noteq> None"

lemma state_add_rule_ok:
  assumes "maps_parser_ok k st" "k < 2 ^ 31"
  shows "\<exists>st' b. state_add_rule st buf eq = Some (st', b) \<and> maps_parser_ok (k + 1) st' \<and> mp_line_no st' = mp_line_no st"
proof -
  have st: "rules_ok k (mp_rules st)" "mp_cwd st \<noteq> None" using assms(1) by (simp_all add: maps_parser_ok_def)
  have step: "same_frame st s \<Longrightarrow> maps_parser_ok (k + 1) s \<and> mp_line_no s = mp_line_no st" for s
    using st rules_ok_mono [of k _ "k + 1"] by (simp add: same_frame_def maps_parser_ok_def)
  obtain st1 r where r: "prepare_remote_element st buf eq = Some (st1, r)" "same_frame st st1"
    "\<forall>el. r = Some el \<longrightarrow> element_ok el" using prepare_remote_ok [OF st(2)] by blast
  show ?thesis
  proof (cases r)
    case None
    with r step [OF r(2)] show ?thesis by (auto simp: state_add_rule_def)
  next
    case (Some remote)
    then have rok: "element_ok remote" using r by blast
    have "mp_cwd st1 \<noteq> None" using r(2) st(2) by (simp add: same_frame_def)
    then obtain st2 l where l: "prepare_local_element st1 buf eq = Some (st2, l)" "same_frame st1 st2"
      "\<forall>el. l = Some el \<longrightarrow> element_ok el \<or> el = skip_element" using prepare_local_ok by blast
    have f2: "same_frame st st2" using r(2) l(2) by (rule same_frame_trans)
    show ?thesis
    proof (cases l)
      case None
      with r l Some step [OF f2] show ?thesis by (auto simp: state_add_rule_def)
    next
      case l': (Some loc)
      then have lok: "element_ok loc \<or> loc = skip_element" using l by blast
      obtain st3 q where q: "check_rule_spans st2 remote loc = (st3, q)" by fastforce
      have f3: "same_frame st st3" using spans_frame [of st2 remote loc] q f2 by (auto intro: same_frame_trans)
      show ?thesis
      proof (cases q)
        case None
        with r l Some l' q step [OF f3] show ?thesis by (auto simp: state_add_rule_def)
      next
        case q': (Some lend)
        let ?r = "xdebug_path_map_range_set (el_begin remote) (el_end remote) (flags_mask (el_type loc))
           (el_path loc) (el_begin loc) lend"
        have sp: "element_ok loc \<Longrightarrow> el_type remote = el_type loc \<and> el_begin loc \<le> lend \<and> lend < 2 ^ 33"
          using spans_ok [OF q [unfolded q'] rok] by blast
        have sk: "loc = skip_element \<Longrightarrow> lend = -1"
          using q q' by (simp add: check_rule_spans_def skip_element_def has_skip_def path_map_types)
        have rr: "range_ok ?r" by (rule rule_range_ok [OF rok]) (use sp sk lok in blast)
        obtain rp where rp: "el_path remote = Some rp" using rok by (auto simp: element_ok_def)
        have s3: "rules_ok k (mp_rules st3)" "mp_cwd st3 \<noteq> None" "mp_line_no st3 = mp_line_no st"
          using f3 st by (simp_all add: same_frame_def)
        show ?thesis
        proof (cases "xdebug_hash_find (mp_rules st3) rp")
          case None
          have "el_type remote \<in> {XDEBUG_PATH_MAP_TYPE_DIRECTORY, XDEBUG_PATH_MAP_TYPE_FILE, XDEBUG_PATH_MAP_TYPE_LINES}"
            using rok by (simp add: element_ok_def)
          moreover have "(has_skip (local_flags ?r) \<and> el_type loc = XDEBUG_PATH_MAP_FLAGS_SKIP) \<or>
              (\<not> has_skip (local_flags ?r) \<and> el_type loc = el_type remote)"
            using lok sp element_no_skip [of loc]
            by (auto simp: xdebug_path_map_range_set_def skip_flags skip_element_def)
              (simp_all add: has_skip_def path_map_types)
          ultimately obtain st4 b where "add_new_mapping st3 (el_type remote) (el_type loc) rp ?r = Some (st4, b)"
            "rules_ok (k + 1) (mp_rules st4)" "mp_cwd st4 = mp_cwd st3" "mp_line_no st4 = mp_line_no st3"
            using add_new_mapping_ok [OF s3(1) rr, of "el_type remote" "el_type loc" rp] by blast
          with None r l Some l' q q' rp s3 show ?thesis by (simp add: state_add_rule_def maps_parser_ok_def)
        next
          case m: (Some m)
          then have "mapping_ok k rp m" using s3(1) by (auto simp: rules_ok_def find_str_map)
          then obtain st4 b where "add_range_to_existing st3 m rp ?r = Some (st4, b)"
            "rules_ok (k + 1) (mp_rules st4)" "mp_cwd st4 = mp_cwd st3" "mp_line_no st4 = mp_line_no st3"
            using add_range_to_existing_ok [OF s3(1) assms(2) _ rr] by blast
          with m r l Some l' q q' rp s3 show ?thesis by (simp add: state_add_rule_def maps_parser_ok_def)
        qed
      qed
    qed
  qed
qed

lemma valid_prefix_frame: "same_frame st (fst (is_valid_prefix st p))"
  by (simp add: is_valid_prefix_def)

lemma set_prefix_ok:
  assumes "maps_parser_ok k st"
  shows "maps_parser_ok (k + 1) (fst (state_set_remote_prefix st p))" "maps_parser_ok (k + 1) (fst (state_set_local_prefix st p))"
    "mp_line_no (fst (state_set_remote_prefix st p)) = mp_line_no st"
    "mp_line_no (fst (state_set_local_prefix st p)) = mp_line_no st"
  using valid_prefix_frame [of st "xdebug_trim p"] assms rules_ok_mono [of k _ "k + 1"]
  by (auto simp: state_set_remote_prefix_def state_set_local_prefix_def Let_def maps_parser_ok_def same_frame_def
      split: prod.split)

lemma state_line_ok:
  assumes "maps_parser_ok k st" "k < 2 ^ 31"
  shows "\<exists>st' b. state_line st buf = Some (st', b) \<and> maps_parser_ok (k + 1) st' \<and> mp_line_no st' = mp_line_no st + 1"
proof -
  let ?st = "st\<lparr>mp_line_no := mp_line_no st + 1\<rparr>"
  have st: "maps_parser_ok k ?st" using assms(1) by (simp add: maps_parser_ok_def)
  have same: "same_frame ?st s \<Longrightarrow> maps_parser_ok (k + 1) s \<and> mp_line_no s = mp_line_no st + 1" for s
    using st rules_ok_mono [of k _ "k + 1"] by (simp add: same_frame_def maps_parser_ok_def)
  note err = same [OF same_frame_error] and self = same [OF same_frame_refl]
  note pre = set_prefix_ok [OF st]
  have rule: "\<exists>st' b. state_add_rule ?st buf eq = Some (st', b) \<and> maps_parser_ok (k + 1) st' \<and> mp_line_no st' = mp_line_no st + 1" for eq
    using state_add_rule_ok [OF st assms(2)] by auto
  consider "buf = []" | "buf \<noteq> []" "cget buf (length buf - 1) \<noteq> NEWLINE"
    | "buf \<noteq> []" "cget buf (length buf - 1) = NEWLINE" "length buf = 1"
    | "buf \<noteq> []" "cget buf (length buf - 1) = NEWLINE" "length buf \<noteq> 1" by blast
  then show ?thesis
  proof cases
    case 4
    show ?thesis
      unfolding state_line_def Let_def
      using 4 err self pre rule
      by (auto simp del: prod_eq_iff split: option.split intro!: surjective_pairing)
  qed (use err self in \<open>auto simp: state_line_def Let_def\<close>)
qed

lemma read_lines_ok:
  "maps_parser_ok k st \<Longrightarrow> k + length content < 2 ^ 31 \<Longrightarrow>
   \<exists>st' b. read_lines st content = Some (st', b) \<and> maps_parser_ok (k + length content) st'"
proof (induction st content arbitrary: k rule: read_lines.induct)
  case (1 st content)
  show ?case
  proof (cases "fgets content")
    case None
    with 1(2) rules_ok_mono [of k _ "k + length content"] show ?thesis
      by (subst read_lines.simps) (auto simp: maps_parser_ok_def)
  next
    case (Some x)
    obtain line rest where x: "x = (line, rest)" by (cases x)
    have len: "length rest < length content" using fgets_rest Some x by blast
    obtain st' b where l: "state_line st (c_str line) = Some (st', b)" "maps_parser_ok (k + 1) st'"
      using state_line_ok [OF 1(2), of "c_str line"] 1(3) by auto
    have mono: "maps_parser_ok (k + 1) st' \<Longrightarrow> maps_parser_ok (k + length content) st'"
      using rules_ok_mono [of "k + 1" _ "k + length content"] len by (simp add: maps_parser_ok_def)
    show ?thesis
    proof (cases b)
      case False
      with Some x l mono show ?thesis by (subst read_lines.simps) auto
    next
      case True
      have "k + 1 + length rest < 2 ^ 31" using 1(3) len by simp
      then obtain st'' b' where r: "read_lines st' rest = Some (st'', b')" "maps_parser_ok (k + 1 + length rest) st''"
        using 1(1) [OF Some x [symmetric] l(1) refl _ l(2)] True by auto
      moreover have "maps_parser_ok (k + length content) st''"
        using r(2) rules_ok_mono [of "k + 1 + length rest" _ "k + length content"] len by (simp add: maps_parser_ok_def)
      ultimately show ?thesis using Some x l(1) True by (subst read_lines.simps) simp
    qed
  qed
qed

section \<open>Copying\<close>

definition copy_rules :: "copy_state option \<Rightarrow> (hash_key \<times> path_mapping) list \<Rightarrow> copy_state option" where
  "copy_rules us es = foldl copy_rule us es"

definition rule_entry :: "nat \<Rightarrow> hash_key \<times> path_mapping \<Rightarrow> bool" where
  "rule_entry k e \<longleftrightarrow> (\<exists>path. fst e = HStr path \<and> mapping_ok k path (snd e))"

lemma copy_rules_stopped: "mp_copy_error st \<Longrightarrow> copy_rules (Some (ret, st)) es = Some (ret, st)"
  by (induction es) (auto simp: copy_rules_def copy_rule_def)

text \<open>Either no key of the file is in the table yet, and all rules are added, or the copy stops.\<close>

lemma copy_rules_all:
  assumes "hash_ok ret" "\<not> mp_copy_error st" "\<forall>e \<in> set es. rule_entry k e" "distinct (map fst es)"
  shows "\<exists>ret' st'. copy_rules (Some (ret, st)) es = Some (ret', st') \<and> hash_ok ret' \<and> mp_rules st' = mp_rules st \<and>
    (if fst ` set es \<inter> dom (hash_map ret) = {} then st' = st \<and> hash_map ret' = hash_map ret ++ map_of es
     else mp_copy_error st' \<and> mp_error_code st' = PATH_MAPS_DUPLICATE_RULES)"
  using assms
proof (induction es arbitrary: ret)
  case (Cons e es)
  obtain path m where e: "e = (HStr path, m)" "pm_remote m = Some path"
    using Cons.prems(3) by (cases e) (auto simp: rule_entry_def mapping_ok_def)
  show ?case
  proof (cases "hash_map ret (HStr path)")
    case (Some old)
    let ?st = "(state_set_error st PATH_MAPS_DUPLICATE_RULES (''Duplicate rules in multiple files for '' @ quote path))\<lparr>mp_copy_error := True\<rparr>"
    have "copy_rules (Some (ret, st)) (e # es) = copy_rules (Some (ret, ?st)) es"
      using Some e Cons.prems(2) by (simp add: copy_rules_def copy_rule_def find_str_map)
    also have "\<dots> = Some (ret, ?st)" by (rule copy_rules_stopped) simp
    finally show ?thesis using Some e Cons.prems(1) by (auto simp: state_set_error_def)
  next
    case None
    let ?ret = "xdebug_hash_add ret path m"
    note add = add_str_map [OF Cons.prems(1), of path m]
    have step: "copy_rules (Some (ret, st)) (e # es) = copy_rules (Some (?ret, st)) es"
      using None e Cons.prems(2) by (simp add: copy_rules_def copy_rule_def find_str_map)
    have nin: "HStr path \<notin> fst ` set es" using Cons.prems(4) e by simp
    then have dom: "fst ` set (e # es) \<inter> dom (hash_map ret) = {} \<longleftrightarrow> fst ` set es \<inter> dom (hash_map ?ret) = {}"
      using None e add(2) by auto
    have comb: "(hash_map ret)(HStr path \<mapsto> m) ++ map_of es = hash_map ret ++ map_of (e # es)"
    proof -
      have "map_of es (HStr path) = None" using nin by (simp add: map_of_eq_None_iff)
      then show ?thesis using e by (auto simp: fun_eq_iff map_add_def split: option.split)
    qed
    obtain ret' st' where ih: "copy_rules (Some (?ret, st)) es = Some (ret', st')" "hash_ok ret'" "mp_rules st' = mp_rules st"
      "if fst ` set es \<inter> dom (hash_map ?ret) = {} then st' = st \<and> hash_map ret' = hash_map ?ret ++ map_of es
       else mp_copy_error st' \<and> mp_error_code st' = PATH_MAPS_DUPLICATE_RULES"
      using Cons.IH [OF add(1) Cons.prems(2)] Cons.prems(3,4) by auto
    show ?thesis
      by (rule exI [of _ ret'], rule exI [of _ st']) (use step ih dom comb add(2) in simp)
  qed
qed (simp add: copy_rules_def)

lemma vec_slots_list: "vec_ok v \<Longrightarrow> vec_slots v = map Some (vec_list v)"
proof (rule nth_equalityI)
  assume ok: "vec_ok v"
  then show "length (vec_slots v) = length (map Some (vec_list v))"
    by (simp add: vec_slots_def vec_list_length)
  fix i assume "i < length (vec_slots v)"
  then have "i < vec_count v" by (simp add: vec_slots_def)
  moreover from this have "i < length (vec_data v)" using ok by (simp add: vec_ok_def)
  ultimately show "vec_slots v ! i = map Some (vec_list v) ! i"
    using vec_nth [OF ok] vec_list_length [OF ok] by (simp add: vec_slots_def)
qed

definition reverse_range :: "string option \<Rightarrow> path_map_range \<Rightarrow> path_map_range" where
  "reverse_range remote r = xdebug_path_map_range_set (remote_begin r) (remote_end r)
     (flags_mask (local_flags r)) remote (local_begin r) (local_end r)"

lemma reverse_ranges_ok:
  assumes "vec_ok v" "\<forall>r \<in> set rs. range_ok r" "vec_count v > 0 \<longrightarrow> lst \<noteq> None"
  shows "\<exists>rv lst'. reverse_ranges remote (map Some rs) v lst = Some (rv, lst') \<and> vec_ok rv \<and>
    (vec_count rv > 0 \<longrightarrow> lst' \<noteq> None) \<and>
    vec_list rv = vec_list v @ map (reverse_range remote) (filter (\<lambda>r. \<not> has_skip (local_flags r)) rs)"
  using assms
proof (induction rs arbitrary: v lst)
  case (Cons r rs)
  show ?case
  proof (cases "has_skip (local_flags r)")
    case True
    with Cons show ?thesis by simp
  next
    case False
    obtain v' where v': "xdebug_vector_push zero_range v = Some v'"
      "vec_ok (vector_store v' (vec_count v' - 1) (reverse_range remote r))"
      "vec_list (vector_store v' (vec_count v' - 1) (reverse_range remote r)) = vec_list v @ [reverse_range remote r]"
      using push_store [OF Cons.prems(1), of zero_range "reverse_range remote r"] by blast
    have "range_path r \<noteq> None" using Cons.prems(2) False by (auto simp: range_ok_def)
    with Cons.IH [OF v'(2), of "range_path r"] Cons.prems(2) False v'(1,3) show ?thesis
      by (auto simp: reverse_range_def)
  qed
qed simp

lemma copy_rule_reverse_ok:
  assumes "hash_ok ret" "rule_entry k e"
  shows "\<exists>ret' st'. copy_rule_reverse (Some (ret, st)) e = Some (ret', st') \<and> hash_ok ret' \<and>
    (mp_copy_error st \<longrightarrow> st' = st) \<and> mp_rules st' = mp_rules st \<and>
    (mp_copy_error st' \<longrightarrow> mp_copy_error st \<or> mp_error_code st' = PATH_MAPS_DUPLICATE_RULES)"
proof -
  obtain path m where e: "snd e = m" "mapping_ok k path m" using assms(2) by (auto simp: rule_entry_def)
  from e(2) consider (lines) v where "pm_type m = XDEBUG_PATH_MAP_TYPE_LINES" "pm_target m = Line_ranges (Some v)" "line_ranges_ok k v"
    | (plain) p where "pm_type m \<in> {1, 2}" "pm_target m = Local_path (Some p)"
    | (skip) "pm_type m \<in> {17, 18}" by (auto simp: mapping_ok_def)
  then show ?thesis
  proof cases
    case lines
    obtain rv l where rv: "reverse_ranges (pm_remote m) (map Some (vec_list v)) xdebug_vector_alloc None = Some (rv, l)"
      "vec_count rv > 0 \<longrightarrow> l \<noteq> None"
      using reverse_ranges_ok [OF vec_ok_alloc(1), of "vec_list v" None "pm_remote m"] lines(3)
      by (auto simp: line_ranges_ok_def xdebug_vector_alloc_def)
    have s: "vec_slots v = map Some (vec_list v)" by (rule vec_slots_list) (use lines(3) in \<open>simp add: line_ranges_ok_def\<close>)
    show ?thesis
      using lines e(1) rv s assms(1)
      by (auto simp: copy_rule_reverse_def Let_def has_skip_def type_mask_def path_map_types add_str_map
          xdebug_path_mapping_ctor_def flags_mask_def)
  next
    case plain
    then show ?thesis using e(1) assms(1)
      by (auto simp: copy_rule_reverse_def Let_def has_skip_def type_mask_def path_map_types add_str_map
          state_set_error_def split: option.split)
  next
    case skip
    then show ?thesis using e(1) assms(1)
      by (auto simp: copy_rule_reverse_def Let_def has_skip_def)
  qed
qed

lemma copy_reverse_all:
  assumes "hash_ok ret" "\<forall>e \<in> set es. rule_entry k e"
  shows "\<exists>ret' st'. foldl copy_rule_reverse (Some (ret, st)) es = Some (ret', st') \<and> hash_ok ret' \<and>
    (mp_copy_error st \<longrightarrow> st' = st) \<and>
    (mp_copy_error st' \<longrightarrow> mp_copy_error st \<or> mp_error_code st' = PATH_MAPS_DUPLICATE_RULES)"
  using assms
proof (induction es arbitrary: ret st)
  case (Cons e es)
  obtain ret1 st1 where 1: "copy_rule_reverse (Some (ret, st)) e = Some (ret1, st1)" "hash_ok ret1"
    "mp_copy_error st \<longrightarrow> st1 = st" "mp_copy_error st1 \<longrightarrow> mp_copy_error st \<or> mp_error_code st1 = PATH_MAPS_DUPLICATE_RULES"
    using copy_rule_reverse_ok [OF Cons.prems(1), of k e st] Cons.prems(2) by auto
  obtain ret2 st2 where 2: "foldl copy_rule_reverse (Some (ret1, st1)) es = Some (ret2, st2)" "hash_ok ret2"
    "mp_copy_error st1 \<longrightarrow> st2 = st1" "mp_copy_error st2 \<longrightarrow> mp_copy_error st1 \<or> mp_error_code st2 = PATH_MAPS_DUPLICATE_RULES"
    using Cons.IH [OF 1(2), of st1] Cons.prems(2) by auto
  show ?case
    by (rule exI [of _ ret2], rule exI [of _ st2]) (use 1 2 in auto)
qed simp

section \<open>Whole files\<close>

text \<open>What a call that returns promises about the maps.\<close>

definition parse_result_ok ::
  "path_maps \<Rightarrow> nat \<Rightarrow> path_maps \<Rightarrow> (nat \<times> int \<times> string option) option \<Rightarrow> bool" where
  "parse_result_ok maps k maps' err \<longleftrightarrow>
     hash_ok (remote_to_local_map maps') \<and> hash_ok (local_to_remote_map maps') \<and>
     (case err of
        None \<Rightarrow> (\<exists>rules. rules_ok k rules \<and> h_size rules \<noteq> 0 \<and>
                   dom (hash_map rules) \<inter> dom (hash_map (remote_to_local_map maps)) = {} \<and>
                   hash_map (remote_to_local_map maps') = hash_map (remote_to_local_map maps) ++ hash_map rules)
      | Some (code, line, msg) \<Rightarrow> code \<noteq> PATH_MAPS_DUPLICATE_RULES \<longrightarrow> maps' = maps)"

lemma rules_entries:
  assumes "rules_ok k h"
  shows "\<forall>e \<in> set (hash_elements h). rule_entry k e" "distinct (map fst (hash_elements h))"
    "map_of (hash_elements h) = hash_map h" "fst ` set (hash_elements h) = dom (hash_map h)"
proof -
  have ok: "hash_ok h" using assms by (simp add: rules_ok_def)
  show "\<forall>e \<in> set (hash_elements h). rule_entry k e"
    using assms in_hash_elements [OF ok] by (fastforce simp: rules_ok_def rule_entry_def)
  show "distinct (map fst (hash_elements h))" by (rule hash_elements_distinct [OF ok])
  show m: "map_of (hash_elements h) = hash_map h" by (rule hash_elements_map_of [OF ok])
  show "fst ` set (hash_elements h) = dom (hash_map h)" unfolding m [symmetric] by (rule dom_map_of_conv_image_fst [symmetric])
qed

lemma maps_parser_ok_start: "maps_parser_ok 0 (path_maps_parser_state_ctor\<lparr>mp_cwd := Some dir, mp_line_no := n\<rparr>)"
  by (simp add: maps_parser_ok_def rules_ok_def path_maps_parser_state_ctor_def)

lemma parse_contents_ok:
  assumes maps: "hash_ok (remote_to_local_map maps)" "hash_ok (local_to_remote_map maps)"
    and len: "length content < 2 ^ 31"
  shows "\<exists>maps' err. xdebug_path_maps_parse_file maps (Some dir) (Some content) = Some (maps', err) \<and>
    parse_result_ok maps (length content) maps' err"
proof -
  let ?st0 = "path_maps_parser_state_ctor\<lparr>mp_cwd := Some dir\<rparr>"
  obtain st2 b where rd: "state_file_read_lines ?st0 content = Some (st2, b)" "maps_parser_ok (length content) st2"
    using read_lines_ok [OF maps_parser_ok_start [of 0 dir], of content] len by (auto simp: state_file_read_lines_def)
  let ?open = "state_open_file ?st0 (Some content)"
  have op: "?open = (?st0, True)" by (simp add: state_open_file_def)
  have same: "parse_result_ok maps (length content) maps (Some (c, l, msg))" for c l msg
    using maps by (simp add: parse_result_ok_def)
  show ?thesis
  proof (cases "b \<and> h_size (mp_rules st2) \<noteq> 0")
    case False
    then show ?thesis using op rd(1) same
      by (auto simp: xdebug_path_maps_parse_file_def Let_def parse_failed_def)
  next
    case True
    have rules: "rules_ok (length content) (mp_rules st2)" using rd(2) by (simp add: maps_parser_ok_def)
    note ents = rules_entries [OF rules]
    let ?st = "st2\<lparr>mp_copy_error := False\<rparr>" and ?es = "hash_elements (mp_rules st2)"
    obtain r2l st3 where c1: "copy_rules (Some (remote_to_local_map maps, ?st)) ?es = Some (r2l, st3)" "hash_ok r2l"
      "mp_rules st3 = mp_rules st2"
      "if fst ` set ?es \<inter> dom (hash_map (remote_to_local_map maps)) = {}
       then st3 = ?st \<and> hash_map r2l = hash_map (remote_to_local_map maps) ++ map_of ?es
       else mp_copy_error st3 \<and> mp_error_code st3 = PATH_MAPS_DUPLICATE_RULES"
      using copy_rules_all [OF maps(1) _ ents(1,2), of ?st] by auto
    have a1: "xdebug_hash_apply_with_argument (mp_rules st2) None (Some (remote_to_local_map maps, ?st)) copy_rule = Some (r2l, st3)"
      using c1(1) by (simp add: xdebug_hash_apply_with_argument_def copy_rules_def)
    let ?maps1 = "maps\<lparr>remote_to_local_map := r2l\<rparr>"
    show ?thesis
    proof (cases "fst ` set ?es \<inter> dom (hash_map (remote_to_local_map maps)) = {}")
      case False
      then have st3: "mp_copy_error st3" "mp_error_code st3 = PATH_MAPS_DUPLICATE_RULES" using c1(4) by auto
      have "xdebug_path_maps_parse_file maps (Some dir) (Some content) = parse_failed ?maps1 st3"
        using op rd(1) True a1 st3(1) by (simp add: xdebug_path_maps_parse_file_def Let_def)
      then show ?thesis using st3(2) c1(2) maps(2)
        by (auto simp: parse_failed_def parse_result_ok_def state_get_error_code_def)
    next
      case dis: True
      then have st3: "st3 = ?st" "hash_map r2l = hash_map (remote_to_local_map maps) ++ hash_map (mp_rules st2)"
        using c1(4) ents(3) by auto
      have dom: "dom (hash_map (mp_rules st2)) \<inter> dom (hash_map (remote_to_local_map maps)) = {}"
        using dis ents(4) by simp
      obtain l2r st4 where c2: "foldl copy_rule_reverse (Some (local_to_remote_map maps, ?st)) ?es = Some (l2r, st4)"
        "hash_ok l2r" "mp_copy_error st4 \<longrightarrow> mp_error_code st4 = PATH_MAPS_DUPLICATE_RULES"
        using copy_reverse_all [OF maps(2) ents(1), of ?st] by auto
      have a2: "xdebug_hash_apply_with_argument (mp_rules st3) None
          (Some (local_to_remote_map ?maps1, st3\<lparr>mp_copy_error := False\<rparr>)) copy_rule_reverse = Some (l2r, st4)"
        using c2(1) st3(1) by (simp add: xdebug_hash_apply_with_argument_def)
      let ?maps2 = "?maps1\<lparr>local_to_remote_map := l2r\<rparr>"
      have ne: "\<not> mp_copy_error st3" using st3(1) by simp
      have res: "xdebug_path_maps_parse_file maps (Some dir) (Some content) =
          (if mp_copy_error st4 then parse_failed ?maps2 st4 else Some (?maps2, None))"
        using op rd(1) True a1 a2 ne by (simp add: xdebug_path_maps_parse_file_def Let_def)
      show ?thesis
      proof (cases "mp_copy_error st4")
        case True
        then show ?thesis using res c2 c1(2)
          by (simp add: parse_failed_def parse_result_ok_def state_get_error_code_def)
      next
        case False
        then show ?thesis using res c2 c1(2) st3(2) dom rules True by (auto simp: parse_result_ok_def)
      qed
    qed
  qed
qed

section \<open>Looking up what was parsed\<close>

lemma ranges_of_rule:
  assumes "line_ranges_ok k v" "no_skip (vec_list v)" "k < 2 ^ 31"
  shows "ranges_ok v" "by_remote.ascending (vec_list v)" "by_local.ascending (vec_list v)"
proof -
  have r: "\<forall>r \<in> set (vec_list v). 0 \<le> remote_begin r \<and> remote_begin r \<le> remote_end r \<and> remote_end r < 2 ^ 31 \<and>
      0 \<le> local_begin r \<and> local_begin r \<le> local_end r \<and> local_end r < 2 ^ 33"
    using assms(1,2) by (auto simp: line_ranges_ok_def no_skip_def range_ok_def)
  have o: "sorted_wrt (\<lambda>a b. remote_end a < remote_begin b \<and> local_end a < local_begin b \<and> range_path a = range_path b) (vec_list v)"
    using assms(1,2) by (simp add: line_ranges_ok_def in_order_def)
  show "ranges_ok v" using assms by (simp add: ranges_ok_def line_ranges_ok_def)
  have lt: "0 \<le> i \<Longrightarrow> i < j \<Longrightarrow> j < 2 ^ 33 \<Longrightarrow> to_size i < to_size j" for i j by simp
  have s1: "sorted_wrt (\<lambda>a b. to_size (remote_end a) < to_size (remote_begin b)) (vec_list v)"
    by (rule sorted_wrt_mono_rel [OF _ o], rule lt) (use r in force)+
  have s2: "sorted_wrt (\<lambda>a b. to_size (local_end a) < to_size (local_begin b)) (vec_list v)"
    by (rule sorted_wrt_mono_rel [OF _ o], rule lt) (use r in force)+
  show "by_remote.ascending (vec_list v)" "by_local.ascending (vec_list v)"
    using r s1 s2 by (auto simp: by_remote.ascending_def by_local.ascending_def)
qed

text \<open>The lookup of a line of a file whose rule has no \<open>SKIP\<close> lines.\<close>

lemma remote_to_local_lines:
  assumes "hash_map (remote_to_local_map maps) (HStr path) = Some m" "mapping_ok k path m" "k < 2 ^ 31"
    "pm_target m = Line_ranges (Some v)" "no_skip (vec_list v)"
  shows "remote_to_local maps path line =
    (case find (\<lambda>r. remote_begin r \<le> int line \<and> int line \<le> remote_end r) (vec_list v) of
       None \<Rightarrow> Some unknown_match
     | Some r \<Rightarrow> Some (XDEBUG_PATH_MAP_TYPE_LINES, Some (local_of r line)))"
proof -
  have m: "pm_type m = XDEBUG_PATH_MAP_TYPE_LINES" "line_ranges_ok k v"
    using assms(2,4) by (auto simp: mapping_ok_def)
  note v = ranges_of_rule [OF m(2) assms(5,3)]
  have ok: "\<forall>r \<in> set (vec_list v). range_ok r \<and> \<not> has_skip (local_flags r)"
    using m(2) assms(5) by (simp add: line_ranges_ok_def no_skip_def)
  have eq: "find (by_remote.covers line) (vec_list v) =
      find (\<lambda>r. remote_begin r \<le> int line \<and> int line \<le> remote_end r) (vec_list v)"
  proof (rule find_cong [OF refl])
    fix r assume "r \<in> set (vec_list v)"
    with ok have "0 \<le> remote_begin r" "remote_begin r \<le> remote_end r" "remote_end r < 2 ^ 31" by (auto simp: range_ok_def)
    then show "by_remote.covers line r = (remote_begin r \<le> int line \<and> int line \<le> remote_end r)"
      by (auto simp: by_remote.covers_def)
  qed
  have sp: "r \<in> set (vec_list v) \<Longrightarrow> \<exists>p. range_path r = Some p" for r using ok by (auto simp: range_ok_def)
  show ?thesis
  proof (cases "find (\<lambda>r. remote_begin r \<le> int line \<and> int line \<le> remote_end r) (vec_list v)")
    case None
    then show ?thesis
      using find_local_line [OF v(1,2), of line] eq assms(1,4) m(1)
      by (simp add: remote_to_local_def Let_def find_str_map has_skip_def path_map_types)
  next
    case (Some r)
    then have "r \<in> set (vec_list v)" by (auto simp: find_Some_iff)
    then obtain p where "range_path r = Some p" using sp by blast
    then show ?thesis
      using find_local_line [OF v(1,2), of line] eq assms(1,4) m(1) Some
      by (simp add: remote_to_local_def Let_def find_str_map has_skip_def path_map_types local_of_def)
  qed
qed

section \<open>A skipped line can hide a range\<close>

text \<open>
  The order of the ranges is only checked against rules that do not skip, so a \<open>SKIP\<close> rule for an earlier
  line breaks it.  \<open>skip_ranges\<close> is what the rules \<open>f:10-20\<close>, \<open>f:5=SKIP\<close>, \<open>f:30-40\<close> store.
\<close>

definition range_10_20 :: path_map_range where
  "range_10_20 = xdebug_path_map_range_set 10 20 0 (Some ''/l'') 10 20"

definition range_5_skip :: path_map_range where
  "range_5_skip = xdebug_path_map_range_set 5 5 (flags_mask XDEBUG_PATH_MAP_FLAGS_SKIP) None (-1) (-1)"

definition range_30_40 :: path_map_range where
  "range_30_40 = xdebug_path_map_range_set 30 40 0 (Some ''/l'') 30 40"

definition vec_of :: "path_map_range list \<Rightarrow> path_map_range xdebug_vector" where
  "vec_of rs = \<lparr>vec_capacity = 32, vec_count = length rs, vec_data = map Some rs @ replicate (32 - length rs) None\<rparr>"

definition lines_mapping :: "path_map_range list \<Rightarrow> path_mapping" where
  "lines_mapping rs = \<lparr>pm_type = XDEBUG_PATH_MAP_TYPE_LINES, pm_remote = Some ''/r'',
     pm_target = Line_ranges (Some (vec_of rs))\<rparr>"

lemma vec_of_ok: "length rs \<le> 32 \<Longrightarrow> vec_ok (vec_of rs) \<and> vec_list (vec_of rs) = rs"
  by (auto simp: vec_of_def vec_ok_def vec_list_def comp_def)

lemma vec_of_push:
  assumes "length rs < 32"
  shows "\<exists>v'. xdebug_vector_push zero_range (vec_of rs) = Some v' \<and> vector_store v' (vec_count v' - 1) r = vec_of (rs @ [r])"
proof -
  obtain n where n: "32 - length rs = Suc n" using assms by (metis Suc_pred' zero_less_diff)
  then have "31 - length rs = n" by simp
  then show ?thesis using assms n
    by (simp add: xdebug_vector_push_def xdebug_grow_vector_if_needed_def vec_of_def vector_store_def Let_def
        list_update_append)
qed

lemma vec_of_tail:
  assumes "length rs < 32"
  shows "XDEBUG_VECTOR_TAIL (vec_of (rs @ [t])) = Some (length rs)" "range_at (vec_of (rs @ [t])) (int (length rs)) = Some t"
  using tail_ok [of "vec_of (rs @ [t])"] range_at_nth [of "vec_of (rs @ [t])" "int (length rs)"] vec_of_ok [of "rs @ [t]"] assms
  by (simp_all add: vec_of_def)

lemma add_range_accepted:
  assumes "length rs < 31"
    "has_skip (local_flags r) \<or> (has_skip (local_flags t) \<and> remote_end t < remote_begin r \<and> local_end t < local_begin r)"
  shows "add_range_to_existing st (lines_mapping (rs @ [t])) ''/r'' r =
     Some (st\<lparr>mp_rules := hash_poke (mp_rules st) ''/r'' (lines_mapping (rs @ [t, r]))\<rparr>, True)"
proof -
  obtain v' where v': "xdebug_vector_push zero_range (vec_of (rs @ [t])) = Some v'"
    "vector_store v' (vec_count v' - 1) r = vec_of ((rs @ [t]) @ [r])"
    using vec_of_push [of "rs @ [t]" r] assms(1) by auto
  have len: "length rs < 32" using assms(1) by simp
  show ?thesis
    unfolding add_range_to_existing_def lines_mapping_def
    using v' vec_of_tail [OF len, of t] assms(2) by (auto simp: Let_def)
qed

lemma skip_rule_accepted:
  "add_range_to_existing st (lines_mapping [range_10_20]) ''/r'' range_5_skip =
     Some (st\<lparr>mp_rules := hash_poke (mp_rules st) ''/r'' (lines_mapping [range_10_20, range_5_skip])\<rparr>, True)"
  using add_range_accepted [of "[]" range_5_skip range_10_20 st]
  by (simp add: range_5_skip_def xdebug_path_map_range_set_def has_skip_def flags_mask_def path_map_types)

lemma range_after_skip_accepted:
  "add_range_to_existing st (lines_mapping [range_10_20, range_5_skip]) ''/r'' range_30_40 =
     Some (st\<lparr>mp_rules := hash_poke (mp_rules st) ''/r'' (lines_mapping [range_10_20, range_5_skip, range_30_40])\<rparr>, True)"
  using add_range_accepted [of "[range_10_20]" range_30_40 range_5_skip st]
  by (simp add: range_5_skip_def range_30_40_def xdebug_path_map_range_set_def has_skip_def flags_mask_def path_map_types)

lemma hidden_line:
  "find_local_line_number_from_ranges 15 (vec_of [range_10_20, range_5_skip, range_30_40]) = Some None"
proof -
  define v where "v = vec_of [range_10_20, range_5_skip, range_30_40]"
  have at: "range_at v 0 = Some range_10_20" "range_at v 1 = Some range_5_skip" "range_at v 2 = Some range_30_40"
    using range_at_nth [of v 0] range_at_nth [of v 1] range_at_nth [of v 2] v_def vec_of_ok [of "[range_10_20, range_5_skip, range_30_40]"]
    by (simp_all add: v_def vec_of_def)
  have "find_local_line_number_from_ranges 15 v = do_local_binary_search v 0 2 15"
    by (simp add: find_local_line_number_from_ranges_def v_def vec_of_def)
  also have "\<dots> = do_local_binary_search v 2 2 15"
    by (subst do_local_binary_search.simps)
      (simp add: at Let_def range_5_skip_def xdebug_path_map_range_set_def)
  also have "\<dots> = do_local_binary_search v 2 1 15"
    by (subst do_local_binary_search.simps)
      (simp add: at Let_def range_30_40_def xdebug_path_map_range_set_def)
  also have "\<dots> = Some None" by (subst do_local_binary_search.simps) simp
  finally show ?thesis by (simp only: v_def)
qed

end
