(* ===== verification/Xd_Base64.thy ===== *)
theory Xd_Base64
  imports Xd_Prelude
begin

text \<open>
  The base64 codec of \<open>src/lib/compat.c\<close>.  The encoder works on three octets at a time; the
  decoder is a loop over characters that keeps the number \<open>i\<close> of digits, the number of padding
  characters, and a write position \<open>j\<close> in a freshly allocated buffer.  The buffer is a list of
  \<open>nat option\<close>, where \<open>None\<close> is a byte nothing has written: a write outside the allocation or a
  read of an unwritten byte makes the result \<open>None\<close>.
\<close>

section \<open>Tables\<close>

definition base64_table :: string where
  "base64_table =
     ''ABCDEFGHIJKLM'' @ ''NOPQRSTUVWXYZ'' @ ''abcdefghijklm'' @ ''nopqrstuvwxyz'' @ ''0123456789+/'' @ [NUL]"

definition base64_pad :: char where
  "base64_pad = CHR ''=''"

definition base64_reverse_table :: "int list" where
  "base64_reverse_table =
    [-2, -2, -2, -2, -2, -2, -2, -2, -2, -1, -1, -2, -2, -1, -2, -2,
     -2, -2, -2, -2, -2, -2, -2, -2, -2, -2, -2, -2, -2, -2, -2, -2,
     -1, -2, -2, -2, -2, -2, -2, -2, -2, -2, -2, 62, -2, -2, -2, 63,
     52, 53, 54, 55, 56, 57, 58, 59, 60, 61, -2, -2, -2, -2, -2, -2,
     -2,  0,  1,  2,  3,  4,  5,  6,  7,  8,  9, 10, 11, 12, 13, 14,
     15, 16, 17, 18, 19, 20, 21, 22, 23, 24, 25, -2, -2, -2, -2, -2,
     -2, 26, 27, 28, 29, 30, 31, 32, 33, 34, 35, 36, 37, 38, 39, 40,
     41, 42, 43, 44, 45, 46, 47, 48, 49, 50, 51, -2, -2, -2, -2, -2]
     @ replicate 128 (-2)"

section \<open>Encoder\<close>

abbreviation digit64 :: "nat \<Rightarrow> char" where
  "digit64 n \<equiv> base64_table ! n"

fun base64_encode_impl :: "string \<Rightarrow> string" where
  "base64_encode_impl (x # y # z # inp) =
     digit64 (ord x div 4)
     # digit64 (ord x mod 4 * 16 + ord y div 16)
     # digit64 (ord y mod 16 * 4 + ord z div 64)
     # digit64 (ord z mod 64)
     # base64_encode_impl inp"
| "base64_encode_impl [x, y] =
     [digit64 (ord x div 4), digit64 (ord x mod 4 * 16 + ord y div 16), digit64 (ord y mod 16 * 4), base64_pad]"
| "base64_encode_impl [x] =
     [digit64 (ord x div 4), digit64 (ord x mod 4 * 16), base64_pad, base64_pad]"
| "base64_encode_impl [] = []"

text \<open>The allocation of the encoder, and what it returns: the text and its length.\<close>

definition base64_encode_alloc :: "nat \<Rightarrow> nat" where
  "base64_encode_alloc data_len = ((data_len + 2) div 3 + 1) * 4"

definition xdebug_base64_encode :: "string \<Rightarrow> string \<times> nat" where
  "xdebug_base64_encode data = (let r = base64_encode_impl data in (r, length r))"

section \<open>Decoder\<close>

record b64_state =
  b_i :: nat
  b_padding :: nat
  b_j :: nat
  b_out :: "nat option list"

definition out_set :: "nat \<Rightarrow> b64_state \<Rightarrow> b64_state option" where
  "out_set v s =
     (if b_j s < length (b_out s) then Some (s\<lparr>b_out := (b_out s)[b_j s := Some (v mod 256)]\<rparr>) else None)"

text \<open>\<open>out[j++] |= v\<close>\<close>

definition out_or :: "nat \<Rightarrow> b64_state \<Rightarrow> b64_state option" where
  "out_or v s =
     (if b_j s < length (b_out s)
      then (case b_out s ! b_j s of
              Some old \<Rightarrow> Some (s\<lparr>b_out := (b_out s)[b_j s := Some (or old v mod 256)], b_j := b_j s + 1\<rparr>)
            | None \<Rightarrow> None)
      else None)"

definition b64_digit :: "nat \<Rightarrow> b64_state \<Rightarrow> b64_state option" where
  "b64_digit ch s =
     (let r = (if b_i s mod 4 = 0 then out_set (ch * 4) s
               else if b_i s mod 4 = 1
                 then (case out_or (ch div 16) s of Some s1 \<Rightarrow> out_set (ch mod 16 * 16) s1 | None \<Rightarrow> None)
               else if b_i s mod 4 = 2
                 then (case out_or (ch div 4) s of Some s1 \<Rightarrow> out_set (ch mod 4 * 64) s1 | None \<Rightarrow> None)
               else out_or ch s)
      in map_option (\<lambda>s1. s1\<lparr>b_i := b_i s1 + 1\<rparr>) r)"

text \<open>One character: \<open>Some (Some s)\<close> goes on, \<open>Some None\<close> is the jump to \<open>fail\<close>.\<close>

definition b64_step :: "bool \<Rightarrow> char \<Rightarrow> b64_state \<Rightarrow> b64_state option option" where
  "b64_step strict c s =
     (if c = base64_pad then Some (Some (s\<lparr>b_padding := b_padding s + 1\<rparr>))
      else
        (let ch = base64_reverse_table ! ord c
         in if \<not> strict \<and> ch < 0 then Some (Some s)
            else if strict \<and> ch = -1 then Some (Some s)
            else if strict \<and> (ch = -2 \<or> b_padding s \<noteq> 0) then Some None
            else map_option Some (b64_digit (nat ch) s)))"

fun b64_loop :: "bool \<Rightarrow> string \<Rightarrow> b64_state \<Rightarrow> b64_state option option" where
  "b64_loop strict [] s = Some (Some s)"
| "b64_loop strict (c # inp) s =
     (case b64_step strict c s of
        Some (Some s1) \<Rightarrow> b64_loop strict inp s1
      | Some None \<Rightarrow> Some None
      | None \<Rightarrow> None)"

definition base64_decode_impl :: "bool \<Rightarrow> string \<Rightarrow> nat option list \<Rightarrow> nat \<Rightarrow> (nat option list \<times> nat) option option" where
  "base64_decode_impl strict inp out outl =
     (case b64_loop strict inp \<lparr>b_i = 0, b_padding = 0, b_j = outl, b_out = out\<rparr> of
        None \<Rightarrow> None
      | Some None \<Rightarrow> Some None
      | Some (Some s) \<Rightarrow>
          if strict \<and> b_i s mod 4 = 1 then Some None
          else if strict \<and> b_padding s \<noteq> 0 \<and> (b_padding s > 2 \<or> (b_i s + b_padding s) mod 4 \<noteq> 0) then Some None
          else (case out_set 0 s of Some s1 \<Rightarrow> Some (Some (b_out s1, b_j s1)) | None \<Rightarrow> None))"

text \<open>
  The outer result is \<open>None\<close> for a memory error; \<open>Some None\<close> is the NULL the function returns for
  text that is not base64, \<open>Some (Some bytes)\<close> the buffer up to \<open>*new_len\<close>, which callers
  initialise with 0.
\<close>

definition xdebug_base64_decode :: "string \<Rightarrow> string option option" where
  "xdebug_base64_decode data =
     (case base64_decode_impl True data (replicate (length data + 1) None) 0 of
        None \<Rightarrow> None
      | Some None \<Rightarrow> Some None
      | Some (Some (out, new_len)) \<Rightarrow>
          if list_all (\<lambda>b. b \<noteq> None) (take new_len out)
          then Some (Some (map (char_of \<circ> the) (take new_len out))) else None)"

section \<open>The decoder on lists\<close>

text \<open>
  What the loop has done so far: the finished bytes, and the byte it is building (only after a
  first, second or third digit of a group).
\<close>

definition dec_step :: "nat \<Rightarrow> nat list \<times> nat list \<Rightarrow> nat \<Rightarrow> nat list \<times> nat list" where
  "dec_step i dp ch =
     (case dp of (fin, part) \<Rightarrow>
        if i mod 4 = 0 then (fin, [ch * 4 mod 256])
        else if i mod 4 = 1 then (fin @ [or (hd part) (ch div 16) mod 256], [ch mod 16 * 16 mod 256])
        else if i mod 4 = 2 then (fin @ [or (hd part) (ch div 4) mod 256], [ch mod 4 * 64 mod 256])
        else (fin @ [or (hd part) ch mod 256], []))"

definition b64_rep :: "nat \<Rightarrow> b64_state \<Rightarrow> nat list \<Rightarrow> nat list \<Rightarrow> bool" where
  "b64_rep n s fin part \<longleftrightarrow>
     length (b_out s) = n \<and> b_j s = length fin \<and>
     take (length fin + length part) (b_out s) = map Some (fin @ part) \<and>
     length part = (if b_i s mod 4 = 0 then 0 else 1) \<and>
     length fin \<le> b_i s"

lemma take_snoc_nth: "i < length xs \<Longrightarrow> take (Suc i) xs = take i xs @ [xs ! i]"
  by (rule take_Suc_conv_app_nth)

lemma b64_digit_rep:
  assumes r: "b64_rep n s fin part" and room: "b_i s + 1 < n"
  shows "\<exists>s'. b64_digit ch s = Some s' \<and> b_i s' = b_i s + 1 \<and> b_padding s' = b_padding s \<and>
    b64_rep n s' (fst (dec_step (b_i s) (fin, part) ch)) (snd (dec_step (b_i s) (fin, part) ch))"
proof -
  have len: "length (b_out s) = n" and j: "b_j s = length fin" and fl: "length fin \<le> b_i s"
    and tk: "take (length fin + length part) (b_out s) = map Some (fin @ part)"
    using r by (auto simp: b64_rep_def)
  have jn: "length fin + 1 < n" using fl room by simp
  consider (0) "b_i s mod 4 = 0" | (1) "b_i s mod 4 = 1" | (2) "b_i s mod 4 = 2" | (3) "b_i s mod 4 = 3"
    by linarith
  then show ?thesis
  proof cases
    case 0
    then have "part = []" using r by (simp add: b64_rep_def)
    moreover have "(b_i s + 1) mod 4 = 1" using 0 by presburger
    ultimately show ?thesis
      using 0 len j jn tk fl
      by (auto simp: b64_digit_def out_set_def dec_step_def b64_rep_def take_snoc_nth)
  next
    case 1
    then obtain p where p: "part = [p]" using r by (auto simp: b64_rep_def length_Suc_conv)
    have nth: "b_out s ! length fin = Some p"
      using tk p jn len by (simp add: take_snoc_nth)
    have tk': "take (length fin) (b_out s) = map Some fin"
      using tk p jn len by (simp add: take_snoc_nth)
    have "(b_i s + 1) mod 4 = 2" using 1 by presburger
    with 1 p nth tk' len j jn fl show ?thesis
      by (auto simp: b64_digit_def out_set_def out_or_def dec_step_def b64_rep_def take_snoc_nth nth_append)
  next
    case 2
    then obtain p where p: "part = [p]" using r by (auto simp: b64_rep_def length_Suc_conv)
    have nth: "b_out s ! length fin = Some p"
      using tk p jn len by (simp add: take_snoc_nth)
    have tk': "take (length fin) (b_out s) = map Some fin"
      using tk p jn len by (simp add: take_snoc_nth)
    have "(b_i s + 1) mod 4 = 3" using 2 by presburger
    with 2 p nth tk' len j jn fl show ?thesis
      by (auto simp: b64_digit_def out_set_def out_or_def dec_step_def b64_rep_def take_snoc_nth nth_append)
  next
    case 3
    then obtain p where p: "part = [p]" using r by (auto simp: b64_rep_def length_Suc_conv)
    have nth: "b_out s ! length fin = Some p"
      using tk p jn len by (simp add: take_snoc_nth)
    have tk': "take (length fin) (b_out s) = map Some fin"
      using tk p jn len by (simp add: take_snoc_nth)
    have "(b_i s + 1) mod 4 = 0" using 3 by presburger
    with 3 p nth tk' len j jn fl show ?thesis
      by (auto simp: b64_digit_def out_set_def out_or_def dec_step_def b64_rep_def take_snoc_nth nth_append)
  qed
qed


section \<open>Memory safety\<close>

lemma b64_rep_padding: "b64_rep n (s\<lparr>b_padding := p\<rparr>) fin part = b64_rep n s fin part"
  by (simp add: b64_rep_def)

lemma b64_step_rep:
  assumes "b64_rep n s fin part" and "b_i s + 1 < n"
  shows "b64_step strict c s = Some None \<or>
    (\<exists>s' fin' part'. b64_step strict c s = Some (Some s') \<and> b_i s' \<le> b_i s + 1 \<and> b64_rep n s' fin' part')"
proof -
  obtain s' where "b64_digit (nat (base64_reverse_table ! ord c)) s = Some s'" "b_i s' = b_i s + 1"
    "b64_rep n s' (fst (dec_step (b_i s) (fin, part) (nat (base64_reverse_table ! ord c))))
       (snd (dec_step (b_i s) (fin, part) (nat (base64_reverse_table ! ord c))))"
    using b64_digit_rep [OF assms] by blast
  moreover have "b64_rep n (s\<lparr>b_padding := p\<rparr>) fin part" for p
    using assms(1) by (simp add: b64_rep_padding)
  moreover have "b64_step strict c s \<in>
      {Some None, Some (Some s), Some (Some (s\<lparr>b_padding := b_padding s + 1\<rparr>)),
       map_option Some (b64_digit (nat (base64_reverse_table ! ord c)) s)}"
    by (simp add: b64_step_def Let_def)
  ultimately show ?thesis
    using assms(1) by (elim insertE emptyE) (auto intro: exI)
qed

lemma b64_loop_rep:
  assumes "b64_rep n s fin part" and "b_i s + length inp < n"
  shows "b64_loop strict inp s = Some None \<or>
    (\<exists>s' fin' part'. b64_loop strict inp s = Some (Some s') \<and> b_i s' \<le> b_i s + length inp \<and> b64_rep n s' fin' part')"
  using assms
proof (induction inp arbitrary: s fin part)
  case (Cons c inp)
  have "b_i s + 1 < n" using Cons.prems(2) by (cases inp) auto
  from b64_step_rep [OF Cons.prems(1) this, of strict c] show ?case
  proof (elim disjE exE conjE)
    fix s' fin' part'
    assume s': "b64_step strict c s = Some (Some s')" "b_i s' \<le> b_i s + 1" "b64_rep n s' fin' part'"
    with Cons.prems(2) have "b_i s' + length inp < n" by simp
    from Cons.IH [OF s'(3) this] s'(1,2) show ?thesis by auto
  qed simp
qed auto

lemma b64_start_rep [simp]:
  "b64_rep n \<lparr>b_i = 0, b_padding = 0, b_j = 0, b_out = replicate n None\<rparr> [] []"
  by (simp add: b64_rep_def)

lemma b64_end:
  assumes "b64_rep n s fin part" and "b_i s < n"
  shows "out_set 0 s = Some (s\<lparr>b_out := (b_out s)[length fin := Some 0]\<rparr>)"
    and "take (b_j s) ((b_out s)[length fin := Some 0]) = map Some fin" and "b_j s = length fin"
proof -
  have "take (length fin + length part) (b_out s) = map Some (fin @ part)"
    using assms(1) unfolding b64_rep_def by blast
  then have "take (length fin) (take (length fin + length part) (b_out s)) = map Some fin" by simp
  then show "take (b_j s) ((b_out s)[length fin := Some 0]) = map Some fin"
    using assms(1) by (simp add: b64_rep_def min_def)
qed (use assms in \<open>auto simp: out_set_def b64_rep_def\<close>)

lemma xdebug_base64_decode_total: "\<exists>r. xdebug_base64_decode data = Some r"
proof -
  let ?n = "length data + 1"
  let ?s = "\<lparr>b_i = 0, b_padding = 0, b_j = 0, b_out = replicate ?n None\<rparr>"
  have "b_i ?s + length data < ?n" by simp
  from b64_loop_rep [OF b64_start_rep this, of True]
  show ?thesis
  proof (elim disjE exE conjE)
    assume "b64_loop True data ?s = Some None"
    then show ?thesis by (simp add: xdebug_base64_decode_def base64_decode_impl_def)
  next
    fix s' fin part
    assume s': "b64_loop True data ?s = Some (Some s')" "b_i s' \<le> b_i ?s + length data" "b64_rep ?n s' fin part"
    then have "b_i s' < ?n" by simp
    note e = b64_end [OF s'(3) this]
    show ?thesis
      using s'(1) e by (simp add: xdebug_base64_decode_def base64_decode_impl_def list.pred_map list.pred_True comp_def)
  qed
qed

section \<open>Decoding what was encoded\<close>

lemma base64_table_reverse: "\<forall>k \<in> set [0..<64]. base64_table ! k \<noteq> base64_pad \<and> base64_reverse_table ! ord (base64_table ! k) = int k"
  by code_simp

lemma b64_step_digit:
  assumes "k < 64" "b_padding s = 0"
  shows "b64_step True (base64_table ! k) s = map_option Some (b64_digit k s)"
proof -
  have "base64_table ! k \<noteq> base64_pad" "base64_reverse_table ! ord (base64_table ! k) = int k"
    using base64_table_reverse assms(1) by auto
  then show ?thesis using assms(2) by (simp add: b64_step_def)
qed

lemma b64_step_pad: "b64_step True base64_pad s = Some (Some (s\<lparr>b_padding := b_padding s + 1\<rparr>))"
  by (simp add: b64_step_def)

lemma or_disjoint: "y < 2 ^ k \<Longrightarrow> or (x * 2 ^ k) y = x * 2 ^ k + (y :: nat)"
proof -
  assume y: "y < 2 ^ k"
  have "\<not> bit (x * 2 ^ k) i \<or> \<not> bit y i" for i
  proof (cases "i < k")
    case True
    have "\<not> bit (push_bit k x) i" using True by (simp add: bit_push_bit_iff)
    then show ?thesis by (simp add: push_bit_eq_mult)
  next
    case False
    have "y = take_bit k y" using y by (simp add: take_bit_nat_eq_self)
    then have "\<not> bit y i" using False by (metis bit_take_bit_iff)
    then show ?thesis by simp
  qed
  then have "x * 2 ^ k + y = or (x * 2 ^ k) y" by (rule disjunctive_add)
  then show ?thesis by simp
qed

lemma or4: "y < 4 \<Longrightarrow> or (x * 4) y = x * 4 + (y :: nat)"
  using or_disjoint [of y 2 x] by simp

lemma or16: "y < 16 \<Longrightarrow> or (x * 16) y = x * 16 + (y :: nat)"
  using or_disjoint [of y 4 x] by simp

lemma or64: "y < 64 \<Longrightarrow> or (x * 64) y = x * 64 + (y :: nat)"
  using or_disjoint [of y 6 x] by simp

lemma group_bounds:
  fixes x y z :: nat
  assumes "x < 256" "y < 256" "z < 256"
  shows "x div 4 < 64" and "x mod 4 * 16 + y div 16 < 64" and "y mod 16 * 4 + z div 64 < 64" and "z mod 64 < 64"
proof -
  have "x mod 4 < 4" "y div 16 < 16" "y mod 16 < 16" "z div 64 < 4" using assms by simp_all
  then show "x mod 4 * 16 + y div 16 < 64" "y mod 16 * 4 + z div 64 < 64" by linarith+
qed (use assms in simp_all)

text \<open>The bytes a group of digits stands for.\<close>

lemma group_bytes:
  fixes x y z :: nat
  assumes "x < 256" "y < 256" "z < 256"
  shows "or (x div 4 * 4 mod 256) ((x mod 4 * 16 + y div 16) div 16) mod 256 = x"
    and "or ((x mod 4 * 16 + y div 16) mod 16 * 16 mod 256) ((y mod 16 * 4 + z div 64) div 4) mod 256 = y"
    and "or ((y mod 16 * 4 + z div 64) mod 4 * 64 mod 256) (z mod 64) mod 256 = z"
proof -
  have q: "y div 16 < 16" "z div 64 < 4" using assms by simp_all
  have a: "x div 4 * 4 mod 256 = x div 4 * 4" using assms(1) by simp
  have b: "(x mod 4 * 16 + y div 16) div 16 = x mod 4" using q by simp
  have c: "(x mod 4 * 16 + y div 16) mod 16 * 16 mod 256 = y div 16 * 16" using q by simp
  have d: "(y mod 16 * 4 + z div 64) div 4 = y mod 16" using q by simp
  have e: "(y mod 16 * 4 + z div 64) mod 4 * 64 mod 256 = z div 64 * 64" using q by simp
  show "or (x div 4 * 4 mod 256) ((x mod 4 * 16 + y div 16) div 16) mod 256 = x"
    unfolding a b using assms(1) by (subst or4) auto
  show "or ((x mod 4 * 16 + y div 16) mod 16 * 16 mod 256) ((y mod 16 * 4 + z div 64) div 4) mod 256 = y"
    unfolding c d using assms(2) by (subst or16) auto
  show "or ((y mod 16 * 4 + z div 64) mod 4 * 64 mod 256) (z mod 64) mod 256 = z"
    unfolding e using assms(3) by (subst or64) auto
qed

text \<open>Two, three and four digits in a row, from the start of a group.\<close>

definition run_digits :: "nat \<Rightarrow> nat list \<Rightarrow> nat list \<times> nat list \<Rightarrow> nat list \<times> nat list" where
  "run_digits i ks dp = fst (foldl (\<lambda>(dp, i) k. (dec_step i dp k, i + 1)) (dp, i) ks)"

lemma run_digits_simps [simp]:
  "run_digits i [] dp = dp"
  "run_digits i (k # ks) dp = run_digits (i + 1) ks (dec_step i dp k)"
  by (simp_all add: run_digits_def)

lemma b64_loop_digits:
  assumes "b64_rep n s fin part" "b_padding s = 0" "b_i s + length ks < n" "\<forall>k \<in> set ks. k < 64"
  shows "\<exists>s'. (\<forall>rest. b64_loop True (map (\<lambda>k. base64_table ! k) ks @ rest) s = b64_loop True rest s') \<and>
    b_i s' = b_i s + length ks \<and> b_padding s' = 0 \<and>
    b64_rep n s' (fst (run_digits (b_i s) ks (fin, part))) (snd (run_digits (b_i s) ks (fin, part)))"
  using assms
proof (induction ks arbitrary: s fin part)
  case (Cons k ks)
  have "b_i s + 1 < n" using Cons.prems(3) by (cases ks) auto
  then obtain s1 where s1: "b64_digit k s = Some s1" "b_i s1 = b_i s + 1" "b_padding s1 = b_padding s"
    "b64_rep n s1 (fst (dec_step (b_i s) (fin, part) k)) (snd (dec_step (b_i s) (fin, part) k))"
    using b64_digit_rep [OF Cons.prems(1)] by blast
  have st: "b64_step True (base64_table ! k) s = Some (Some s1)"
    using Cons.prems(2,4) s1(1) by (simp add: b64_step_digit)
  obtain s' where s': "\<forall>rest. b64_loop True (map (\<lambda>k. base64_table ! k) ks @ rest) s1 = b64_loop True rest s'"
    "b_i s' = b_i s1 + length ks" "b_padding s' = 0"
    "b64_rep n s' (fst (run_digits (b_i s1) ks (dec_step (b_i s) (fin, part) k)))
       (snd (run_digits (b_i s1) ks (dec_step (b_i s) (fin, part) k)))"
    using Cons.IH [OF s1(4)] Cons.prems s1(2,3) by auto
  show ?case
    by (rule exI [of _ s']) (use st s' s1(2) in auto)
qed auto

lemma b64_group:
  assumes "b64_rep n s fin part" "b_padding s = 0" "b_i s + length ks < n" "\<forall>k \<in> set ks. k < 64"
    and "fst (run_digits (b_i s) ks (fin, part)) = fin'" "snd (run_digits (b_i s) ks (fin, part)) = part'"
  obtains s' where "\<And>rest. b64_loop True (map (\<lambda>k. base64_table ! k) ks @ rest) s = b64_loop True rest s'"
    "b_i s' = b_i s + length ks" "b_padding s' = 0" "b64_rep n s' fin' part'"
  using b64_loop_digits [OF assms(1-4)] unfolding assms(5,6) by blast

lemma mod4_Suc: "i mod 4 = 0 \<Longrightarrow> Suc i mod 4 = 1 \<and> Suc (Suc i) mod 4 = 2 \<and> Suc (Suc (Suc i)) mod 4 = (3 :: nat)"
  by presburger

lemma run_group:
  assumes "i mod 4 = 0"
  shows "run_digits i [a, b, c, d] (fin, []) =
      (fin @ [or (a * 4 mod 256) (b div 16) mod 256, or (b mod 16 * 16 mod 256) (c div 4) mod 256,
              or (c mod 4 * 64 mod 256) d mod 256], [])"
    and "fst (run_digits i [a, b, c] (fin, [])) =
      fin @ [or (a * 4 mod 256) (b div 16) mod 256, or (b mod 16 * 16 mod 256) (c div 4) mod 256]"
    and "fst (run_digits i [a, b] (fin, [])) = fin @ [or (a * 4 mod 256) (b div 16) mod 256]"
  using assms mod4_Suc [OF assms] by (simp_all add: dec_step_def)

lemma b64_loop_encode:
  assumes "b64_rep n s fin []" "b_padding s = 0" "b_i s mod 4 = 0" "b_i s + length (base64_encode_impl inp) < n"
  shows "\<exists>s' part. b64_loop True (base64_encode_impl inp) s = Some (Some s') \<and> b64_rep n s' (fin @ map ord inp) part \<and>
    b_i s' mod 4 \<noteq> 1 \<and> b_i s' < n \<and> (b_padding s' \<noteq> 0 \<longrightarrow> b_padding s' \<le> 2 \<and> (b_i s' + b_padding s') mod 4 = 0)"
  using assms
proof (induction inp arbitrary: s fin rule: base64_encode_impl.induct)
  case (1 x y z inp)
  define ks where "ks = [ord x div 4, ord x mod 4 * 16 + ord y div 16, ord y mod 16 * 4 + ord z div 64, ord z mod 64]"
  have k: "\<forall>k \<in> set ks. k < 64" and ln: "length ks = 4"
    using group_bounds [OF ord_less_256 [of x] ord_less_256 [of y] ord_less_256 [of z]] by (simp_all add: ks_def)
  have run: "fst (run_digits (b_i s) ks (fin, [])) = fin @ [ord x, ord y, ord z]" "snd (run_digits (b_i s) ks (fin, [])) = []"
    unfolding ks_def run_group(1) [OF "1.prems"(3)] group_bytes [OF ord_less_256 [of x] ord_less_256 [of y] ord_less_256 [of z]]
    by (rule fst_conv snd_conv)+
  have room: "b_i s + length ks < n" using "1.prems"(4) ln by simp
  obtain s1 where s1: "\<And>rest. b64_loop True (map (\<lambda>k. base64_table ! k) ks @ rest) s = b64_loop True rest s1"
    "b_i s1 = b_i s + length ks" "b_padding s1 = 0" "b64_rep n s1 (fin @ [ord x, ord y, ord z]) []"
    by (rule b64_group [OF "1.prems"(1,2) room k run]) blast
  have "b_i s1 mod 4 = 0" "b_i s1 + length (base64_encode_impl inp) < n"
    using s1(2) ln "1.prems"(3,4) by auto
  from "1.IH" [OF s1(4,3) this]
  obtain s' part where s': "b64_loop True (base64_encode_impl inp) s1 = Some (Some s')"
    "b64_rep n s' ((fin @ [ord x, ord y, ord z]) @ map ord inp) part" "b_i s' mod 4 \<noteq> 1" "b_i s' < n"
    "b_padding s' \<noteq> 0 \<longrightarrow> b_padding s' \<le> 2 \<and> (b_i s' + b_padding s') mod 4 = 0" by (elim exE conjE) (rule that)
  have "base64_encode_impl (x # y # z # inp) = map (\<lambda>k. base64_table ! k) ks @ base64_encode_impl inp"
    by (simp add: ks_def)
  then have "b64_loop True (base64_encode_impl (x # y # z # inp)) s = Some (Some s')"
    by (simp only: s1(1) s'(1))
  moreover have "b64_rep n s' (fin @ map ord (x # y # z # inp)) part" using s'(2) by simp
  ultimately show ?case using s'(3,4,5) by (intro exI [of _ s'] exI [of _ part]) simp
next
  case (2 x y)
  define ks where "ks = [ord x div 4, ord x mod 4 * 16 + ord y div 16, ord y mod 16 * 4]"
  have k: "\<forall>k \<in> set ks. k < 64" and ln: "length ks = 3"
    using group_bounds [OF ord_less_256 [of x] ord_less_256 [of y], of 0] by (simp_all add: ks_def)
  have run: "fst (run_digits (b_i s) ks (fin, [])) = fin @ [ord x, ord y]"
    using group_bytes [OF ord_less_256 [of x] ord_less_256 [of y], of 0]
    unfolding ks_def run_group(2) [OF "2.prems"(3)] by (simp only: add_0_right div_0 zero_less_numeral simp_thms)
  have room: "b_i s + length ks < n" using "2.prems"(4) ln by simp
  obtain s1 where s1: "\<And>rest. b64_loop True (map (\<lambda>k. base64_table ! k) ks @ rest) s = b64_loop True rest s1"
    "b_i s1 = b_i s + length ks" "b_padding s1 = 0" "b64_rep n s1 (fin @ [ord x, ord y]) (snd (run_digits (b_i s) ks (fin, [])))"
    by (rule b64_group [OF "2.prems"(1,2) room k run refl]) blast
  have "base64_encode_impl [x, y] = map (\<lambda>k. base64_table ! k) ks @ [base64_pad]"
    by (simp add: ks_def)
  then have "b64_loop True (base64_encode_impl [x, y]) s = Some (Some (s1\<lparr>b_padding := 1\<rparr>))"
    by (simp only: s1(1)) (simp add: b64_step_pad s1(3))
  moreover have "(b_i s1 + 1) mod 4 = 0" "b_i s1 mod 4 \<noteq> 1" "b_i s1 < n"
    using s1(2) ln "2.prems"(3,4) room by presburger+
  ultimately show ?case using s1(4) by (force simp: b64_rep_padding)
next
  case (3 x)
  define ks where "ks = [ord x div 4, ord x mod 4 * 16]"
  have k: "\<forall>k \<in> set ks. k < 64" and ln: "length ks = 2"
    using group_bounds [OF ord_less_256 [of x], of 0 0] by (simp_all add: ks_def)
  have run: "fst (run_digits (b_i s) ks (fin, [])) = fin @ [ord x]"
    using group_bytes [OF ord_less_256 [of x], of 0 0]
    unfolding ks_def run_group(3) [OF "3.prems"(3)] by (simp only: add_0_right div_0 zero_less_numeral simp_thms)
  have room: "b_i s + length ks < n" using "3.prems"(4) ln by simp
  obtain s1 where s1: "\<And>rest. b64_loop True (map (\<lambda>k. base64_table ! k) ks @ rest) s = b64_loop True rest s1"
    "b_i s1 = b_i s + length ks" "b_padding s1 = 0" "b64_rep n s1 (fin @ [ord x]) (snd (run_digits (b_i s) ks (fin, [])))"
    by (rule b64_group [OF "3.prems"(1,2) room k run refl]) blast
  have "base64_encode_impl [x] = map (\<lambda>k. base64_table ! k) ks @ [base64_pad, base64_pad]"
    by (simp add: ks_def)
  then have "b64_loop True (base64_encode_impl [x]) s = Some (Some (s1\<lparr>b_padding := 2\<rparr>))"
    by (simp only: s1(1)) (simp add: b64_step_pad s1(3))
  moreover have "(b_i s1 + 2) mod 4 = 0" "b_i s1 mod 4 \<noteq> 1" "b_i s1 < n"
    using s1(2) ln "3.prems"(3,4) room by presburger+
  ultimately show ?case using s1(4) by (force simp: b64_rep_padding)
next
  case 4
  have "b64_loop True (base64_encode_impl []) s = Some (Some s)" by simp
  with "4.prems" show ?case by force
qed

lemma base64_decode_encode: "xdebug_base64_decode (fst (xdebug_base64_encode s)) = Some (Some s)"
proof -
  let ?e = "base64_encode_impl s"
  let ?n = "length ?e + 1"
  let ?s = "\<lparr>b_i = 0, b_padding = 0, b_j = 0, b_out = replicate ?n None\<rparr>"
  obtain s' part where s': "b64_loop True ?e ?s = Some (Some s')" "b64_rep ?n s' (map ord s) part"
    "b_i s' mod 4 \<noteq> 1" "b_i s' < ?n" "b_padding s' \<noteq> 0 \<longrightarrow> b_padding s' \<le> 2 \<and> (b_i s' + b_padding s') mod 4 = 0"
    using b64_loop_encode [OF b64_start_rep, of ?n s] by auto
  note e = b64_end [OF s'(2,4)]
  have "map (char_of \<circ> the) (map Some (map ord s)) = s"
    by (simp add: comp_def)
  then show ?thesis
    using s'(1,3,5) e
    by (auto simp: xdebug_base64_encode_def xdebug_base64_decode_def base64_decode_impl_def Let_def list.pred_map list.pred_True comp_def)
qed

lemma base64_encode_fits: "length (base64_encode_impl s) < base64_encode_alloc (length s)"
proof -
  have "(Suc (Suc (Suc n)) + 2) div 3 = Suc ((n + 2) div 3)" for n :: nat by simp
  then show ?thesis
    by (induction s rule: base64_encode_impl.induct) (simp_all add: base64_encode_alloc_def)
qed

lemma base64_encode_chars: "set (base64_encode_impl s) \<subseteq> insert base64_pad ((\<lambda>k. base64_table ! k) ` {..<64})"
proof (induction s rule: base64_encode_impl.induct)
  case (1 x y z inp)
  have "ord x div 4 < 64" "ord x mod 4 * 16 + ord y div 16 < 64" "ord y mod 16 * 4 + ord z div 64 < 64" "ord z mod 64 < 64"
    using group_bounds [OF ord_less_256 [of x] ord_less_256 [of y] ord_less_256 [of z]] by simp_all
  with 1 show ?case by auto
next
  case (2 x y)
  have "ord x div 4 < 64" "ord x mod 4 * 16 + ord y div 16 < 64" "ord y mod 16 * 4 < 64"
    using group_bounds [OF ord_less_256 [of x] ord_less_256 [of y], of 0] by simp_all
  then show ?case by auto
next
  case (3 x)
  have "ord x div 4 < 64" "ord x mod 4 * 16 < 64"
    using group_bounds [OF ord_less_256 [of x], of 0 0] by simp_all
  then show ?case by auto
qed simp

end
