(* ===== verification/Xd_Xml.thy ===== *)
theory Xd_Xml
  imports Xd_Prelude Xd_Base64
begin

text \<open>
  The XML writer of \<open>src/lib/xml.c\<close> and the escaping of \<open>src/lib/var.c\<close> it uses.  A node owns its
  attribute list, its text node and its chain of children, none of which is shared, so nodes are
  values; a chain linked by \<open>next\<close> is a list.
\<close>

section \<open>Escaping\<close>

definition xml_encode_count :: "nat list" where
  "xml_encode_count =
    [4, 1, 1, 1,  1, 1, 1, 1,  1, 1, 5, 1,  1, 5, 1, 1,
     1, 1, 1, 1,  1, 1, 1, 1,  1, 1, 1, 1,  1, 1, 1, 1,
     1, 1, 6, 1,  1, 1, 5, 5,  1, 1, 1, 1,  1, 1, 1, 1,
     1, 1, 1, 1,  1, 1, 1, 1,  1, 1, 1, 1,  4, 1, 4, 1] @ replicate 192 1"

definition xml_encode_map :: "string option list" where
  "xml_encode_map =
    [Some ''&#0;'', None, None, None, None, None, None, None, None, None, Some ''&#10;'', None, None, Some ''&#13;'', None, None,
     None, None, None, None, None, None, None, None, None, None, None, None, None, None, None, None,
     None, None, Some ''&quot;'', None, None, None, Some ''&amp;'', Some ''&#39;'', None, None, None, None, None, None, None, None,
     None, None, None, None, None, None, None, None, None, None, None, None, Some ''&lt;'', None, Some ''&gt;'', None]"

text \<open>What the copy loop writes for one byte; \<open>None\<close> is a NULL or out-of-range map entry.\<close>

definition xmlize_char :: "char \<Rightarrow> string option" where
  "xmlize_char c =
     (if xml_encode_count ! ord c \<noteq> 1
      then (if ord c < 64
            then (case xml_encode_map ! ord c of Some m \<Rightarrow> Some (take (xml_encode_count ! ord c) m) | None \<Rightarrow> None)
            else None)
      else Some [c])"

fun xmlize_copy :: "string \<Rightarrow> string option" where
  "xmlize_copy [] = Some []"
| "xmlize_copy (c # cs) =
     (case xmlize_char c of
        None \<Rightarrow> None
      | Some w \<Rightarrow> map_option ((@) w) (xmlize_copy cs))"

text \<open>
  The returned C string and \<open>*newlen\<close>; \<open>None\<close> when the copy loop would leave the tables or the
  allocation of \<open>encoded_string_length + 1\<close> bytes.
\<close>

definition xdebug_xmlize :: "string \<Rightarrow> nat \<Rightarrow> (string \<times> nat) option" where
  "xdebug_xmlize s_string len =
     (if len = 0 then Some ([], 0)
      else
        (let encoded_string_length = sum_list (map (\<lambda>c. xml_encode_count ! ord c) (take len s_string))
         in if encoded_string_length = len then Some (c_str s_string, len)
            else (case xmlize_copy (take len s_string) of
                    Some new_string \<Rightarrow>
                      if length new_string \<le> encoded_string_length
                      then Some (new_string, encoded_string_length) else None
                  | None \<Rightarrow> None)))"

section \<open>Nodes\<close>

datatype xml_text_node = XmlText (xt_text: string) (xt_encode: bool)

datatype xml_node =
  XmlNode (xn_tag: string) (xn_text: "xml_text_node option") (xn_attribute: "(string \<times> string) list")
          (xn_child: "xml_node list")

definition xdebug_xml_node_init :: "string \<Rightarrow> xml_node" where
  "xdebug_xml_node_init tag = XmlNode tag None [] []"

definition xdebug_xml_add_attribute :: "xml_node \<Rightarrow> string \<Rightarrow> string \<Rightarrow> xml_node" where
  "xdebug_xml_add_attribute xml attribute val =
     XmlNode (xn_tag xml) (xn_text xml) (xn_attribute xml @ [(attribute, val)]) (xn_child xml)"

definition xdebug_xml_get_attribute_value :: "xml_node \<Rightarrow> string \<Rightarrow> string option" where
  "xdebug_xml_get_attribute_value xml attribute = map_of (xn_attribute xml) attribute"

text \<open>\<open>xdebug_xml_expand_attribute_value\<close> appends to the value of the first such attribute.\<close>

fun expand_attr :: "string \<Rightarrow> string \<Rightarrow> (string \<times> string) list \<Rightarrow> (string \<times> string) list" where
  "expand_attr a v [] = []"
| "expand_attr a v ((n, w) # as) = (if n = a then (n, w @ '' '' @ v) # as else (n, w) # expand_attr a v as)"

definition xdebug_xml_expand_attribute_value :: "xml_node \<Rightarrow> string \<Rightarrow> string \<Rightarrow> xml_node" where
  "xdebug_xml_expand_attribute_value n a v =
     (case xdebug_xml_get_attribute_value n a of
        Some _ \<Rightarrow> XmlNode (xn_tag n) (xn_text n) (expand_attr a v (xn_attribute n)) (xn_child n)
      | None \<Rightarrow> xdebug_xml_add_attribute n a v)"

definition xdebug_xml_add_child :: "xml_node \<Rightarrow> xml_node \<Rightarrow> xml_node" where
  "xdebug_xml_add_child xml child = XmlNode (xn_tag xml) (xn_text xml) (xn_attribute xml) (xn_child xml @ [child])"

text \<open>\<open>strstr\<close> sees the text up to its first NUL.\<close>

definition xdebug_xml_add_text_ex :: "xml_node \<Rightarrow> string \<Rightarrow> bool \<Rightarrow> xml_node" where
  "xdebug_xml_add_text_ex xml t encode =
     XmlNode (xn_tag xml)
       (Some (XmlText t (encode \<or> strstr (c_str t) '']]>'' \<noteq> None))) (xn_attribute xml) (xn_child xml)"

definition xdebug_xml_add_text :: "xml_node \<Rightarrow> string \<Rightarrow> xml_node" where
  "xdebug_xml_add_text xml t = xdebug_xml_add_text_ex xml (c_str t) False"

definition xdebug_xml_add_text_encode :: "xml_node \<Rightarrow> string \<Rightarrow> xml_node" where
  "xdebug_xml_add_text_encode xml t = xdebug_xml_add_text_ex xml (c_str t) True"

section \<open>Output\<close>

fun xdebug_xml_return_attribute :: "(string \<times> string) list \<Rightarrow> string option" where
  "xdebug_xml_return_attribute [] = Some []"
| "xdebug_xml_return_attribute ((n, v) # as) =
     (case (xdebug_xmlize n (length n), xdebug_xmlize v (length v), xdebug_xml_return_attribute as) of
        (Some (name, newlen), Some (val, _), Some rest) \<Rightarrow>
          Some ('' '' @ take newlen name @ ''='' @ [DQUOTE] @ c_str val @ [DQUOTE] @ rest)
      | _ \<Rightarrow> None)"

definition xdebug_xml_return_text_node :: "xml_text_node \<Rightarrow> string" where
  "xdebug_xml_return_text_node node =
     ''<![CDATA['' @
     (if xt_encode node then fst (xdebug_base64_encode (xt_text node)) else c_str (xt_text node)) @
     '']]>''"

fun xdebug_xml_return_node :: "xml_node \<Rightarrow> string option" where
  "xdebug_xml_return_node (XmlNode tag txt attrs children) =
     (let attrs1 = (case txt of
                      Some t \<Rightarrow> if xt_encode t then attrs @ [(''encoding'', ''base64'')] else attrs
                    | None \<Rightarrow> attrs)
      in case (xdebug_xml_return_attribute attrs1, those (map xdebug_xml_return_node children)) of
           (Some a, Some cs) \<Rightarrow>
             Some (''<'' @ tag @ a @ ''>'' @ concat cs @
                   (case txt of Some t \<Rightarrow> xdebug_xml_return_text_node t | None \<Rightarrow> []) @
                   ''</'' @ tag @ ''>'')
         | _ \<Rightarrow> None)"


section \<open>Escaping is reversible\<close>

definition xml_escape :: "char \<Rightarrow> string" where
  "xml_escape c =
     (if c = NUL then ''&#0;'' else if c = NEWLINE then ''&#10;'' else if c = CHR 0x0D then ''&#13;''
      else if c = DQUOTE then ''&quot;'' else if c = CHR ''&'' then ''&amp;'' else if c = CHR 0x27 then ''&#39;''
      else if c = CHR ''<'' then ''&lt;'' else if c = CHR ''>'' then ''&gt;'' else [c])"

lemma xml_encode_count_table:
  "xml_encode_count =
    map (\<lambda>n. if n = 0 \<or> n = 60 \<or> n = 62 then 4 else if n = 10 \<or> n = 13 \<or> n = 38 \<or> n = 39 then 5
             else if n = 34 then 6 else 1) [0..<256]"
  by code_simp

lemma xml_encode_count_nth:
  "n < 256 \<Longrightarrow> xml_encode_count ! n =
    (if n = 0 \<or> n = 60 \<or> n = 62 then 4 else if n = 10 \<or> n = 13 \<or> n = 38 \<or> n = 39 then 5
     else if n = 34 then 6 else 1)"
  by (simp add: xml_encode_count_table)

lemma ord_vals: "ord NUL = 0" "ord NEWLINE = 10" "ord (CHR 0x0D) = 13" "ord DQUOTE = 34" "ord (CHR ''&'') = 38"
    "ord (CHR 0x27) = 39" "ord (CHR ''<'') = 60" "ord (CHR ''>'') = 62"
  by (simp_all add: ord_def)

lemma ord_special:
  "ord c = 0 \<longleftrightarrow> c = NUL" "ord c = 10 \<longleftrightarrow> c = NEWLINE" "ord c = 13 \<longleftrightarrow> c = CHR 0x0D" "ord c = 34 \<longleftrightarrow> c = DQUOTE"
  "ord c = 38 \<longleftrightarrow> c = CHR ''&''" "ord c = 39 \<longleftrightarrow> c = CHR 0x27" "ord c = 60 \<longleftrightarrow> c = CHR ''<''" "ord c = 62 \<longleftrightarrow> c = CHR ''>''"
  using ord_vals by (metis ord_inject)+

lemma xmlize_char_escape: "xmlize_char c = Some (xml_escape c)" "xml_encode_count ! ord c = length (xml_escape c)"
  by (cases "c \<in> {NUL, NEWLINE, CHR 0x0D, DQUOTE, CHR ''&'', CHR 0x27, CHR ''<'', CHR ''>''}";
      auto simp: xmlize_char_def xml_escape_def xml_encode_count_nth ord_special ord_vals xml_encode_map_def)+

lemma xmlize_copy_escape: "xmlize_copy s = Some (concat (map xml_escape s))"
  by (induction s) (simp_all add: xmlize_char_escape)

lemma xml_escape_pos: "1 \<le> length (xml_escape c)"
  by (simp add: xml_escape_def)

lemma xml_escape_one: "length (xml_escape c) = 1 \<Longrightarrow> xml_escape c = [c] \<and> c \<noteq> NUL"
  by (auto simp: xml_escape_def split: if_splits)

lemma escape_ge: "length s \<le> sum_list (map (\<lambda>c. length (xml_escape c)) s)"
proof (induction s)
  case (Cons c s)
  then show ?case using xml_escape_pos [of c] by (simp del: length_greater_0_conv One_nat_def)
qed simp

lemma escape_none:
  "sum_list (map (\<lambda>c. length (xml_escape c)) s) = length s \<Longrightarrow> concat (map xml_escape s) = s \<and> NUL \<notin> set s"
proof (induction s)
  case (Cons c s)
  from Cons.prems escape_ge [of s] xml_escape_pos [of c]
  have "length (xml_escape c) = 1" "sum_list (map (\<lambda>c. length (xml_escape c)) s) = length s"
    by (simp_all del: length_greater_0_conv One_nat_def)
  with Cons.IH xml_escape_one [of c] show ?case by auto
qed simp

lemma xdebug_xmlize_escape:
  "xdebug_xmlize s (length s) = Some (concat (map xml_escape s), length (concat (map xml_escape s)))"
proof -
  have l: "length (concat (map xml_escape s)) = sum_list (map (\<lambda>c. length (xml_escape c)) s)"
    by (simp add: length_concat comp_def)
  have c: "(\<lambda>c. xml_encode_count ! ord c) = (\<lambda>c. length (xml_escape c))"
    by (simp add: xmlize_char_escape)
  show ?thesis
  proof (cases "sum_list (map (\<lambda>c. length (xml_escape c)) s) = length s")
    case True
    with escape_none [OF True] l show ?thesis
      by (auto simp: xdebug_xmlize_def c is_cstr_def)
  next
    case False
    then show ?thesis by (auto simp: xdebug_xmlize_def c l xmlize_copy_escape)
  qed
qed

text \<open>What an XML reader makes of the references.\<close>

definition xml_entities :: "(string \<times> char) list" where
  "xml_entities =
     [(''#0;'', NUL), (''#10;'', NEWLINE), (''#13;'', CHR 0x0D), (''quot;'', DQUOTE), (''amp;'', CHR ''&''),
      (''#39;'', CHR 0x27), (''lt;'', CHR ''<''), (''gt;'', CHR ''>'')]"

fun xml_unescape :: "string \<Rightarrow> string" where
  "xml_unescape [] = []"
| "xml_unescape (c # cs) =
     (if c = CHR ''&''
      then (case find (\<lambda>(e, _). prefixb e cs) xml_entities of
              Some (e, d) \<Rightarrow> d # xml_unescape (drop (length e) cs)
            | None \<Rightarrow> c # xml_unescape cs)
      else c # xml_unescape cs)"

lemma xml_unescape_escape: "xml_unescape (xml_escape c @ r) = c # xml_unescape r"
  by (auto simp: xml_escape_def xml_entities_def prefixb_def)

lemma xml_unescape_all: "xml_unescape (concat (map xml_escape s)) = s"
  by (induction s) (simp_all add: xml_unescape_escape)

lemma xml_escape_safe: "c \<in> set (xml_escape d) \<Longrightarrow> c \<notin> {NUL, DQUOTE, CHR ''<'', CHR ''>'', CHR 0x27, NEWLINE, CHR 0x0D}"
  by (auto simp: xml_escape_def split: if_splits)

lemma c_str_escape [simp]: "c_str (concat (map xml_escape s)) = concat (map xml_escape s)"
  by (rule c_str_id) (use xml_escape_safe in \<open>fastforce simp: is_cstr_def\<close>)

section \<open>Output never fails\<close>

definition attr_text :: "string \<times> string \<Rightarrow> string" where
  "attr_text nv =
     '' '' @ concat (map xml_escape (fst nv)) @ ''='' @ [DQUOTE] @ concat (map xml_escape (snd nv)) @ [DQUOTE]"

lemma xml_return_attribute: "xdebug_xml_return_attribute as = Some (concat (map attr_text as))"
  by (induction as rule: xdebug_xml_return_attribute.induct)
    (simp_all add: xdebug_xmlize_escape attr_text_def)

lemma those_map_Some: "(\<And>x. x \<in> set xs \<Longrightarrow> \<exists>y. f x = Some y) \<Longrightarrow> \<exists>ys. those (map f xs) = Some ys"
  by (induction xs) (auto split: option.splits)

lemma xml_return_node_total: "\<exists>s. xdebug_xml_return_node n = Some s"
proof (induction n rule: xdebug_xml_return_node.induct)
  case (1 tag tx attrs children)
  have "\<exists>cs. those (map xdebug_xml_return_node children) = Some cs"
    by (rule those_map_Some) (use 1 in \<open>auto simp: xml_return_attribute\<close>)
  then show ?case by (auto simp: xml_return_attribute Let_def)
qed

section \<open>Text nodes\<close>

lemma no_early_end:
  assumes "strstr x '']]>'' = None"
  shows "strstr (x @ '']]>'' @ r) '']]>'' = Some (length x)"
proof (rule strstr_first)
  fix j assume j: "j < length x"
  show "\<not> prefixb '']]>'' (drop j (x @ '']]>'' @ r))"
  proof
    assume p: "prefixb '']]>'' (drop j (x @ '']]>'' @ r))"
    let ?y = "drop j x"
    have y: "drop j (x @ '']]>'' @ r) = ?y @ '']]>'' @ r" using j by simp
    have nz: "?y \<noteq> []" using j by simp
    have "\<not> prefixb '']]>'' ?y"
      using assms unfolding strstr_None prefixb_iff by (metis append_take_drop_id)
    then show False
      using p nz unfolding y prefixb_def
      by (cases ?y; cases "tl ?y"; cases "tl (tl ?y)") auto
  qed
qed (simp_all add: prefixb_def)

lemma base64_no_end: "strstr (base64_encode_impl s) '']]>'' = None"
proof -
  have "CHR '']'' \<notin> insert base64_pad ((\<lambda>k. base64_table ! k) ` {..<64})"
  proof -
    have "\<forall>k \<in> set [0..<64]. base64_table ! k \<noteq> CHR '']''" by code_simp
    then show ?thesis by (auto simp: base64_pad_def)
  qed
  then have "CHR '']'' \<notin> set (base64_encode_impl s)" using base64_encode_chars [of s] by blast
  then show ?thesis unfolding strstr_None by auto
qed

text \<open>Reading a CDATA section back: its content ends at the first terminator.\<close>

definition cdata_content :: "string \<Rightarrow> string option" where
  "cdata_content out =
     (if prefixb ''<![CDATA['' out
      then (case strstr (drop 9 out) '']]>'' of Some k \<Rightarrow> Some (take k (drop 9 out)) | None \<Rightarrow> None)
      else None)"

lemma cdata_content_read:
  assumes "strstr x '']]>'' = None" shows "cdata_content (''<![CDATA['' @ x @ '']]>'' @ r) = Some x"
  using no_early_end [OF assms, of r] by (simp add: cdata_content_def prefixb_def)

end
