(* ===== verification/Xd_Url.thy ===== *)
theory Xd_Url
  imports Xd_Prelude
begin

text \<open>
  The URL helpers of \<open>src/lib/usefulstuff.c\<close>: percent coding, file URLs, and two small string
  tests.  \<open>xdebug_raw_url_decode\<close> works in place, so it is modelled on the buffer.  The expansion of
  relative paths asks the PHP virtual working directory and is a parameter.
\<close>

section \<open>Character tests\<close>

definition isprint :: "char \<Rightarrow> bool" where
  "isprint c \<longleftrightarrow> 32 \<le> ord c \<and> ord c \<le> 126"

definition isupper :: "char \<Rightarrow> bool" where
  "isupper c \<longleftrightarrow> 65 \<le> ord c \<and> ord c \<le> 90"

fun xdebug_is_printable :: "string \<Rightarrow> bool" where
  "xdebug_is_printable [] = True"
| "xdebug_is_printable (c # str) = (if \<not> isprint c then False else xdebug_is_printable str)"

text \<open>
  The offset of the last occurrence: the loop restarts one byte behind each hit.  The search for
  an empty needle runs on behind the terminator, outside the string: the outer \<open>None\<close>.
\<close>

function strrstr_loop :: "string \<Rightarrow> string \<Rightarrow> nat \<Rightarrow> nat option \<Rightarrow> nat option option" where
  "strrstr_loop haystack needle pos loc =
     (if pos \<le> length haystack
      then (case strstr (drop pos haystack) needle of
              Some k \<Rightarrow> strrstr_loop haystack needle (pos + k + 1) (Some (pos + k))
            | None \<Rightarrow> Some loc)
      else None)"
  by auto
termination by (relation "measure (\<lambda>(haystack, needle, pos, loc). Suc (length haystack) - pos)") auto

declare strrstr_loop.simps [simp del]

definition xdebug_strrstr :: "string \<Rightarrow> string \<Rightarrow> nat option option" where
  "xdebug_strrstr haystack needle = strrstr_loop haystack needle 0 None"

section \<open>Percent decoding\<close>

definition hex_digit_value :: "char \<Rightarrow> int" where
  "hex_digit_value c0 =
     (let c = (if isupper c0 then tolower c0 else c0)
      in if 48 \<le> ord c \<and> ord c \<le> 57 then int (ord c) - 48 else int (ord c) - 97 + 10)"

definition xdebug_htoi :: "char \<Rightarrow> char \<Rightarrow> int" where
  "xdebug_htoi s0 s1 = hex_digit_value s0 * 16 + hex_digit_value s1"

text \<open>
  The loop of \<open>xdebug_raw_url_decode\<close>: the buffer, the read offset \<open>data\<close>, the write offset
  \<open>dest\<close>, and the bytes left.  \<open>None\<close> is an access outside the buffer.
\<close>

definition buf_put :: "string \<Rightarrow> nat \<Rightarrow> char \<Rightarrow> string option" where
  "buf_put buf i c = (if i < length buf then Some (buf[i := c]) else None)"

definition escape_at :: "string \<Rightarrow> nat \<Rightarrow> nat \<Rightarrow> bool option" where
  "escape_at buf data len =
     (if buf ! data = CHR ''%'' \<and> len \<ge> 2
      then (if data + 1 < length buf
            then (if isxdigit (buf ! (data + 1))
                  then (if data + 2 < length buf then Some (isxdigit (buf ! (data + 2))) else None)
                  else Some False)
            else None)
      else Some False)"

function url_decode_loop :: "string \<Rightarrow> nat \<Rightarrow> nat \<Rightarrow> nat \<Rightarrow> (string \<times> nat) option" where
  "url_decode_loop buf data dest 0 = map_option (\<lambda>b. (b, dest)) (buf_put buf dest NUL)"
| "url_decode_loop buf data dest (Suc len) =
     (if data < length buf
      then
        (case escape_at buf data len of
           None \<Rightarrow> None
         | Some True \<Rightarrow>
             (case buf_put buf dest (char_of (nat (xdebug_htoi (buf ! (data + 1)) (buf ! (data + 2)) mod 256))) of
                Some b \<Rightarrow> url_decode_loop b (data + 3) (dest + 1) (len - 2)
              | None \<Rightarrow> None)
         | Some False \<Rightarrow>
             (case buf_put buf dest (buf ! data) of
                Some b \<Rightarrow> url_decode_loop b (data + 1) (dest + 1) len
              | None \<Rightarrow> None))
      else None)"
  by pat_completeness auto
termination by (relation "measure (\<lambda>(buf, data, dest, len). len)") auto

definition xdebug_raw_url_decode :: "string \<Rightarrow> nat \<Rightarrow> (string \<times> nat) option" where
  "xdebug_raw_url_decode buf len = url_decode_loop buf 0 0 len"

text \<open>The same on values.\<close>

fun url_decode :: "string \<Rightarrow> string" where
  "url_decode (c # x # y # s) =
     (if c = CHR ''%'' \<and> isxdigit x \<and> isxdigit y
      then char_of (nat (xdebug_htoi x y mod 256)) # url_decode s
      else c # url_decode (x # y # s))"
| "url_decode s = s"

section \<open>Percent encoding\<close>

definition hexchars :: string where
  "hexchars = ''0123456789ABCDEF''"

definition url_must_encode :: "char \<Rightarrow> bool \<Rightarrow> bool" where
  "url_must_encode c skip_slash \<longleftrightarrow>
     (ord c < ord (CHR ''0'') \<and> c \<noteq> CHR ''-'' \<and> c \<noteq> CHR ''.'' \<and> (c \<noteq> SLASH \<or> \<not> skip_slash)) \<or>
     (ord c < ord (CHR ''A'') \<and> ord c > ord (CHR ''9'') \<and> c \<noteq> CHR '':'') \<or>
     (ord c > ord (CHR ''Z'') \<and> ord c < ord (CHR ''a'') \<and> c \<noteq> CHR ''_'' \<and> (c \<noteq> BSLASH \<or> \<not> skip_slash)) \<or>
     ord c > ord (CHR ''z'')"

fun xdebug_raw_url_encode :: "string \<Rightarrow> bool \<Rightarrow> string" where
  "xdebug_raw_url_encode [] skip_slash = []"
| "xdebug_raw_url_encode (c # s) skip_slash =
     (if url_must_encode c skip_slash
      then CHR ''%'' # hexchars ! (ord c div 16) # hexchars ! (ord c mod 16) # xdebug_raw_url_encode s skip_slash
      else c # xdebug_raw_url_encode s skip_slash)"

section \<open>File URLs\<close>

definition xdebug_path_from_url :: "string \<Rightarrow> string option" where
  "xdebug_path_from_url fileurl =
     (case xdebug_raw_url_decode (fileurl @ [NUL]) (length fileurl) of
        None \<Rightarrow> None
      | Some (dfp, _) \<Rightarrow>
          (let fp = c_str dfp
           in case strstr fp ''file://'' of
                Some k \<Rightarrow>
                  (let fp1 = drop (k + 7) fp
                   in Some (if cget fp1 0 = SLASH \<and> cget fp1 1 \<noteq> NUL \<and> cget fp1 2 = CHR '':'' then drop 1 fp1 else fp1))
              | None \<Rightarrow> Some fileurl))"

definition backslashes :: "string \<Rightarrow> string" where
  "backslashes s = map (\<lambda>c. if c = BSLASH then SLASH else c) s"

text \<open>
  \<open>expand\<close> is \<open>virtual_file_ex\<close> on the current directory; when it fails \<open>tmp\<close> stays NULL and
  \<open>strlen(NULL)\<close> is undefined.  Reading \<open>fileurl[1]\<close> of an empty path is outside the string.
\<close>

definition xdebug_path_to_url :: "(string \<Rightarrow> string option) \<Rightarrow> string \<Rightarrow> string option" where
  "xdebug_path_to_url expand fileurl =
     (let encoded_fileurl = xdebug_raw_url_encode fileurl True;
          tmp =
            (case (strstr fileurl ''://'', strstr fileurl ''/'') of
               (Some i, Some j) \<Rightarrow> if i < j then Some (Some fileurl) else None
             | _ \<Rightarrow> None)
      in map_option backslashes
           (case tmp of
              Some t \<Rightarrow> t
            | None \<Rightarrow>
                if fileurl = [] then None
                else if cget fileurl 0 \<noteq> SLASH \<and> cget fileurl 0 \<noteq> BSLASH \<and> cget fileurl 1 \<noteq> CHR '':''
                then map_option (\<lambda>s. ''file://'' @ s) (expand fileurl)
                else if cget fileurl 1 = SLASH \<or> cget fileurl 1 = BSLASH then Some (''file:'' @ encoded_fileurl)
                else if cget fileurl 0 = SLASH \<or> cget fileurl 0 = BSLASH then Some (''file://'' @ encoded_fileurl)
                else if cget fileurl 1 = CHR '':'' then Some (''file:///'' @ encoded_fileurl)
                else Some encoded_fileurl))"


section \<open>Decoding in place\<close>

lemma take_Suc_drop: "i < length xs \<Longrightarrow> take (Suc n) (drop i xs) = xs ! i # take n (drop (Suc i) xs)"
  by (simp add: Cons_nth_drop_Suc [symmetric])

lemma url_decode_step:
  assumes "data + Suc len < length buf"
  shows "escape_at buf data len = Some False \<and>
      url_decode (take (Suc len) (drop data buf)) = buf ! data # url_decode (take len (drop (data + 1) buf))
    \<or> escape_at buf data len = Some True \<and> 2 \<le> len \<and>
      url_decode (take (Suc len) (drop data buf)) =
        char_of (nat (xdebug_htoi (buf ! (data + 1)) (buf ! (data + 2)) mod 256)) # url_decode (take (len - 2) (drop (data + 3) buf))"
proof (cases "2 \<le> len")
  case True
  then obtain k where k: "len = Suc (Suc k)" by (metis Suc_diff_Suc diff_is_0_eq' le_add_diff_inverse2 less_eq_Suc_le numeral_2_eq_2 old.nat.exhaust zero_less_Suc)
  have "take (Suc len) (drop data buf) = buf ! data # buf ! (data + 1) # buf ! (data + 2) # take k (drop (data + 3) buf)"
    "take len (drop (data + 1) buf) = buf ! (data + 1) # buf ! (data + 2) # take k (drop (data + 3) buf)"
    using assms unfolding k by (simp_all add: take_Suc_drop numeral_2_eq_2 numeral_3_eq_3)
  then show ?thesis using assms k by (auto simp: escape_at_def)
next
  case False
  then consider "len = 0" | "len = 1" by linarith
  then show ?thesis
  proof cases
    case 1
    with assms show ?thesis by (simp add: escape_at_def take_Suc_drop)
  next
    case 2
    with assms show ?thesis by (simp add: escape_at_def take_Suc_drop)
  qed
qed

lemma url_decode_loop_value:
  assumes "dest \<le> data" "data + len < length buf"
  shows "\<exists>b. url_decode_loop buf data dest len = Some (b, dest + length (url_decode (take len (drop data buf)))) \<and>
    length b = length buf \<and>
    take (dest + length (url_decode (take len (drop data buf))) + 1) b =
      take dest buf @ url_decode (take len (drop data buf)) @ [NUL]"
  using assms
proof (induction buf data dest len rule: url_decode_loop.induct)
  case (1 buf data dest)
  then show ?case by (simp add: buf_put_def take_Suc_conv_app_nth)
next
  case (2 buf data dest len)
  have put: "buf_put buf dest c = Some (buf[dest := c])" for c
    using "2.prems" by (simp add: buf_put_def)
  have dr: "drop k (buf[dest := c]) = drop k buf" if "dest < k" for c k
    using that by simp
  have tk: "take (Suc dest) (buf[dest := c]) = take dest buf @ [c]" for c
    using "2.prems" by (simp add: take_Suc_conv_app_nth)
  from url_decode_step [OF "2.prems"(2)] show ?case
  proof (elim disjE conjE)
    assume e: "escape_at buf data len = Some False"
      and v: "url_decode (take (Suc len) (drop data buf)) = buf ! data # url_decode (take len (drop (data + 1) buf))"
    let ?b = "buf[dest := buf ! data]"
    have "dest + 1 \<le> data + 1" "data + 1 + len < length ?b" using "2.prems" by auto
    from "2.IH"(2) [OF _ e _ put this] "2.prems" dr [of "data + 1"]
    obtain b where "url_decode_loop ?b (data + 1) (dest + 1) len = Some (b, dest + 1 + length (url_decode (take len (drop (data + 1) buf))))"
      "length b = length ?b"
      "take (dest + 1 + length (url_decode (take len (drop (data + 1) buf))) + 1) b =
       take (dest + 1) ?b @ url_decode (take len (drop (data + 1) buf)) @ [NUL]" by auto
    with "2.prems" e v put tk show ?thesis by simp
  next
    let ?c = "char_of (nat (xdebug_htoi (buf ! (data + 1)) (buf ! (data + 2)) mod 256))"
    assume e: "escape_at buf data len = Some True" and l: "2 \<le> len"
      and v: "url_decode (take (Suc len) (drop data buf)) = ?c # url_decode (take (len - 2) (drop (data + 3) buf))"
    let ?b = "buf[dest := ?c]"
    have "dest + 1 \<le> data + 3" "data + 3 + (len - 2) < length ?b" using "2.prems" l by auto
    from "2.IH"(1) [OF _ e _ put this] "2.prems" dr [of "data + 3"]
    obtain b where "url_decode_loop ?b (data + 3) (dest + 1) (len - 2) = Some (b, dest + 1 + length (url_decode (take (len - 2) (drop (data + 3) buf))))"
      "length b = length ?b"
      "take (dest + 1 + length (url_decode (take (len - 2) (drop (data + 3) buf))) + 1) b =
       take (dest + 1) ?b @ url_decode (take (len - 2) (drop (data + 3) buf)) @ [NUL]" by auto
    with "2.prems" e v put tk show ?thesis by simp
  qed
qed

lemma xdebug_raw_url_decode_value:
  "\<exists>b. xdebug_raw_url_decode (s @ [NUL]) (length s) = Some (b, length (url_decode s)) \<and>
    length b = length s + 1 \<and> take (length (url_decode s) + 1) b = url_decode s @ [NUL]"
  using url_decode_loop_value [of 0 0 "length s" "s @ [NUL]"] by (simp add: xdebug_raw_url_decode_def)

lemma c_str_prefix:
  assumes "take (length r + 1) b = r @ [NUL]" shows "c_str b = c_str r"
proof -
  have w: "takeWhile (\<lambda>c. c \<noteq> NUL) (r @ NUL # q) = takeWhile (\<lambda>c. c \<noteq> NUL) r" for q
    by (induction r) auto
  have "b = (r @ [NUL]) @ drop (length r + 1) b" using assms by (metis append_take_drop_id)
  then have "c_str b = takeWhile (\<lambda>c. c \<noteq> NUL) (r @ NUL # drop (length r + 1) b)" by (simp add: c_str_def)
  then show ?thesis unfolding w by (simp add: c_str_def)
qed

lemma path_from_url_unfold:
  "xdebug_path_from_url u =
     Some (case strstr (c_str (url_decode u)) ''file://'' of
             Some k \<Rightarrow>
               (let fp1 = drop (k + 7) (c_str (url_decode u))
                in if cget fp1 0 = SLASH \<and> cget fp1 1 \<noteq> NUL \<and> cget fp1 2 = CHR '':'' then drop 1 fp1 else fp1)
           | None \<Rightarrow> u)"
proof -
  obtain b where b: "xdebug_raw_url_decode (u @ [NUL]) (length u) = Some (b, length (url_decode u))"
    "take (length (url_decode u) + 1) b = url_decode u @ [NUL]"
    using xdebug_raw_url_decode_value by blast
  have "c_str b = c_str (url_decode u)" by (rule c_str_prefix [OF b(2)])
  with b(1) show ?thesis by (simp add: xdebug_path_from_url_def Let_def split: option.split)
qed

section \<open>Encoding and decoding\<close>

lemma hexchars_table: "\<forall>k \<in> set [0..<16]. isxdigit (hexchars ! k) \<and> hex_digit_value (hexchars ! k) = int k"
  by code_simp

lemma hexchars_ok: "k < 16 \<Longrightarrow> isxdigit (hexchars ! k)" "k < 16 \<Longrightarrow> hex_digit_value (hexchars ! k) = int k"
  using hexchars_table by auto

lemma percent_must_encode [simp]: "url_must_encode (CHR ''%'') b"
  by (simp add: url_must_encode_def ord_def)

lemma htoi_hexchars: "xdebug_htoi (hexchars ! (ord c div 16)) (hexchars ! (ord c mod 16)) = int (ord c)"
proof -
  have "ord c div 16 < 16" "ord c mod 16 < 16" using ord_less_256 [of c] by (simp_all add: less_mult_imp_div_less)
  moreover have "int (ord c div 16) * 16 + int (ord c mod 16) = int (ord c)"
    by (metis div_mult_mod_eq of_nat_add of_nat_mult of_nat_numeral)
  ultimately show ?thesis by (simp only: xdebug_htoi_def hexchars_ok)
qed

lemma url_decode_plain: "c \<noteq> CHR ''%'' \<Longrightarrow> url_decode (c # s) = c # url_decode s"
  by (cases s; cases "tl s") auto

lemma url_decode_encode: "url_decode (xdebug_raw_url_encode s b) = s"
proof (induction s)
  case (Cons c s)
  show ?case
  proof (cases "url_must_encode c b")
    case True
    have "ord c div 16 < 16" "ord c mod 16 < 16" using ord_less_256 [of c] by (simp_all add: less_mult_imp_div_less)
    with True Cons.IH show ?thesis by (simp add: hexchars_ok htoi_hexchars)
  next
    case False
    then have "c \<noteq> CHR ''%''" by (metis percent_must_encode)
    with False Cons.IH show ?thesis by (simp add: url_decode_plain)
  qed
qed simp

lemma url_encode_length: "length (xdebug_raw_url_encode s b) \<le> 3 * length s"
  by (induction s) auto

lemma url_encode_chars: "c \<in> set (xdebug_raw_url_encode s b) \<Longrightarrow> c = CHR ''%'' \<or> isxdigit c \<or> (c \<in> set s \<and> \<not> url_must_encode c b)"
proof (induction s)
  case (Cons d s)
  have "ord d div 16 < 16" "ord d mod 16 < 16" using ord_less_256 [of d] by (simp_all add: less_mult_imp_div_less)
  then have "isxdigit (hexchars ! (ord d div 16))" "isxdigit (hexchars ! (ord d mod 16))" by (simp_all add: hexchars_ok)
  with Cons show ?case by (auto split: if_splits)
qed simp

lemma backslashes_id: "BSLASH \<notin> set s \<Longrightarrow> backslashes s = s"
  by (induction s) (auto simp: backslashes_def)

lemma url_encode_no_bslash: "BSLASH \<notin> set s \<Longrightarrow> BSLASH \<notin> set (xdebug_raw_url_encode s b)"
  using url_encode_chars [of BSLASH s b] by (auto simp: isxdigit_def isdigit_def ord_def)

text \<open>A path with one leading slash and no scheme.\<close>

definition unix_path :: "string \<Rightarrow> bool" where
  "unix_path p \<longleftrightarrow> is_cstr p \<and> BSLASH \<notin> set p \<and> cget p 0 = SLASH \<and> cget p 1 \<noteq> SLASH \<and> cget p 2 \<noteq> CHR '':''"

lemma strstr_head: "cget p 0 = d \<Longrightarrow> d \<noteq> NUL \<Longrightarrow> strstr p [d] = Some 0"
  by (cases p) (auto simp: prefixb_def)

lemma path_to_url_unix:
  assumes "unix_path p"
  shows "xdebug_path_to_url expand p = Some (''file://'' @ xdebug_raw_url_encode p True)"
proof -
  have p: "cget p 0 = SLASH" "cget p 1 \<noteq> SLASH" "BSLASH \<notin> set p" using assms by (auto simp: unix_path_def)
  have "cget p 1 \<noteq> BSLASH" using p(3) cget_in_set [of p 1] by auto
  moreover have "strstr p ''/'' = Some 0" by (rule strstr_head) (use p in auto)
  moreover have "p \<noteq> []" using p(1) by auto
  ultimately show ?thesis
    using p backslashes_id [of "''file://'' @ xdebug_raw_url_encode p True"] url_encode_no_bslash [OF p(3), of True]
    by (simp add: xdebug_path_to_url_def Let_def split: option.split)
qed

lemma url_decode_append_plain: "CHR ''%'' \<notin> set a \<Longrightarrow> url_decode (a @ s) = a @ url_decode s"
proof (induction a)
  case (Cons c a)
  then have "c \<noteq> CHR ''%''" by auto
  with Cons show ?case by (simp add: url_decode_plain)
qed simp

lemma path_from_to_url:
  assumes "unix_path p"
  shows "Option.bind (xdebug_path_to_url expand p) xdebug_path_from_url = Some p"
proof -
  have d: "url_decode (''file://'' @ xdebug_raw_url_encode p True) = ''file://'' @ p"
    by (subst url_decode_append_plain) (simp_all add: url_decode_encode)
  have "is_cstr (''file://'' @ p)" using assms by (auto simp: unix_path_def is_cstr_def)
  then have c: "c_str (''file://'' @ p) = ''file://'' @ p" by (rule c_str_id)
  have s: "strstr (''file://'' @ p) ''file://'' = Some 0" by (simp add: prefixb_def)
  have n: "drop (0 + 7) (''file://'' @ p) = p" by simp
  have "xdebug_path_from_url (''file://'' @ xdebug_raw_url_encode p True) = Some p"
    unfolding path_from_url_unfold d c s option.case Let_def n using assms by (simp add: unix_path_def)
  then show ?thesis unfolding path_to_url_unix [OF assms] bind.bind_lunit .
qed

end
