(* ===== verification/Xd_Format.thy ===== *)
theory Xd_Format
  imports Xd_Arg Xd_Crc32
begin

text \<open>
  The three format expanders of \<open>src/lib/usefulstuff.c\<close>: output file names, editor links and
  displayed file names.  The result is built in a growable string, whose contents the model keeps as
  a list.  What the expanders ask of the process (directory, pid, clock, random numbers, request
  data) is a record of inputs; a clock or random reading belongs to the specifier that has so many
  format characters behind it.
\<close>

section \<open>Numbers and replacements\<close>

fun hex_text :: "nat \<Rightarrow> string" where
  "hex_text n =
     (let d = char_of (if n mod 16 < 10 then 48 + n mod 16 else 87 + n mod 16)
      in if n < 16 then [d] else hex_text (n div 16) @ [d])"

declare hex_text.simps [simp del]

definition pad6 :: "string \<Rightarrow> string" where
  "pad6 s = replicate (6 - length s) (CHR ''0'') @ s"

text \<open>The \<open>strpbrk\<close> loops replace every character of the set; the dot is the last one.\<close>

definition replace_chars :: "char list \<Rightarrow> string \<Rightarrow> string" where
  "replace_chars cs s = map (\<lambda>c. if c \<in> set cs then CHR ''_'' else c) s"

definition replace_last_dot :: "string \<Rightarrow> string" where
  "replace_last_dot s = (case strrchr s (CHR ''.'') of Some i \<Rightarrow> s[i := CHR ''_''] | None \<Rightarrow> s)"

definition evil_chars :: string where
  "evil_chars = [SLASH, BSLASH] @ ''.?&+:*'' @ [DQUOTE] @ ''<>| ''"

section \<open>Output file names\<close>

record output_env =
  oe_cwd :: "string option"
  oe_pid :: nat
  oe_random :: "nat \<Rightarrow> nat"
  oe_nanotime :: "nat \<Rightarrow> nat"
  oe_server :: "(string \<Rightarrow> string option) option"
  oe_session_name :: "string option"
  oe_cookie :: "(string \<Rightarrow> string option) option"

definition NANOS_IN_SEC :: nat where
  "NANOS_IN_SEC = 1000000000"

definition NANOS_IN_MICROSEC :: nat where
  "NANOS_IN_MICROSEC = 1000"

definition server_value :: "output_env \<Rightarrow> string \<Rightarrow> string" where
  "server_value env name =
     (case oe_server env of
        Some tbl \<Rightarrow> (case tbl name of Some v \<Rightarrow> replace_chars evil_chars (c_str v) | None \<Rightarrow> [])
      | None \<Rightarrow> [])"

definition session_value :: "output_env \<Rightarrow> string" where
  "session_value env =
     (case (oe_session_name env, oe_cookie env) of
        (Some name, Some tbl) \<Rightarrow>
          (case tbl name of
             Some v \<Rightarrow> if length v < 100 then replace_chars ([SLASH, BSLASH] @ ''.?&+ '') (c_str v) else []
           | None \<Rightarrow> [])
      | _ \<Rightarrow> [])"

definition output_specifier :: "output_env \<Rightarrow> string option \<Rightarrow> char \<Rightarrow> nat \<Rightarrow> string" where
  "output_specifier env script_name c n =
     (if c = CHR ''c'' then (case oe_cwd env of Some cwd \<Rightarrow> dec (nat (xdebug_crc32 cwd)) | None \<Rightarrow> [])
      else if c = CHR ''p'' then dec (oe_pid env)
      else if c = CHR ''r'' then pad6 (hex_text (oe_random env n))
      else if c = CHR ''s''
        then (case script_name of
                Some s \<Rightarrow> replace_last_dot (replace_chars [SLASH, BSLASH, CHR '':'', CHR '' ''] s) | None \<Rightarrow> [])
      else if c = CHR ''t'' then dec (oe_nanotime env n div NANOS_IN_SEC)
      else if c = CHR ''u''
        then dec (oe_nanotime env n div NANOS_IN_SEC) @ ''.'' @
             pad6 (dec (oe_nanotime env n mod NANOS_IN_SEC div NANOS_IN_MICROSEC))
      else if c = CHR ''H'' then server_value env ''HTTP_HOST''
      else if c = CHR ''U'' then server_value env ''UNIQUE_ID''
      else if c = CHR ''R'' then server_value env ''REQUEST_URI''
      else if c = CHR ''S'' then session_value env
      else if c = CHR ''%'' then ''%''
      else [])"

text \<open>A trailing percent sign steps back onto itself and stands for itself.\<close>

fun format_loop :: "(char \<Rightarrow> nat \<Rightarrow> string) \<Rightarrow> string \<Rightarrow> string" where
  "format_loop spec [] = []"
| "format_loop spec [c] = [c]"
| "format_loop spec (c # d # fs) =
     (if c \<noteq> CHR ''%'' then c # format_loop spec (d # fs)
      else spec d (length fs) @ format_loop spec fs)"

definition xdebug_format_output_filename :: "output_env \<Rightarrow> string \<Rightarrow> string option \<Rightarrow> string" where
  "xdebug_format_output_filename env fmt script_name = format_loop (output_specifier env script_name) fmt"

section \<open>Editor links\<close>

definition link_specifier :: "string \<Rightarrow> int \<Rightarrow> char \<Rightarrow> nat \<Rightarrow> string" where
  "link_specifier error_filename error_lineno c n =
     (if c = CHR ''f'' then error_filename
      else if c = CHR ''l'' then dec_int error_lineno
      else if c = CHR ''%'' then ''%''
      else [])"

definition xdebug_format_file_link :: "string \<Rightarrow> string \<Rightarrow> int \<Rightarrow> string" where
  "xdebug_format_file_link file_link_format error_filename error_lineno =
     format_loop (link_specifier error_filename error_lineno) file_link_format"

section \<open>Displayed file names\<close>

definition name_specifier :: "string \<Rightarrow> string \<Rightarrow> string \<Rightarrow> string \<Rightarrow> char \<Rightarrow> nat \<Rightarrow> string" where
  "name_specifier name parent ancester full_filename c n =
     (if c = CHR ''n'' then name
      else if c = CHR ''p'' then parent
      else if c = CHR ''a'' then ancester
      else if c = CHR ''f'' then full_filename
      else if c = CHR ''s'' then [SLASH]
      else if c = CHR ''%'' then ''%''
      else [])"

definition xdebug_format_filename :: "string option \<Rightarrow> string \<Rightarrow> string \<Rightarrow> string option" where
  "xdebug_format_filename filename_format default_fmt full_filename =
     (let fmt = (case filename_format of Some f \<Rightarrow> if f \<noteq> [] then f else default_fmt | None \<Rightarrow> default_fmt)
      in do { parts \<leftarrow> xdebug_explode [SLASH] full_filename xdebug_arg_ctor (-1);
              name \<leftarrow> arg_get parts (arg_c parts - 1);
              parent \<leftarrow> (if arg_c parts > 1
                        then xdebug_join [SLASH] parts (arg_c parts - 2) (arg_c parts - 1)
                        else Some (xdebug_str_create_from_char name));
              ancester \<leftarrow> (if arg_c parts > 2
                          then xdebug_join [SLASH] parts (arg_c parts - 3) (arg_c parts - 1)
                          else Some (xdebug_str_copy parent));
              Some (format_loop (name_specifier name (str_text parent) (str_text ancester) full_filename) fmt) })"


section \<open>No slash from outside\<close>

definition slash_free :: "string \<Rightarrow> bool" where
  "slash_free s \<longleftrightarrow> SLASH \<notin> set s"

named_theorems slash_free_rules \<open>texts without a slash\<close>

lemma slash_free_simps [simp]:
  "slash_free []" "slash_free (c # s) \<longleftrightarrow> c \<noteq> SLASH \<and> slash_free s"
  "slash_free (s @ t) \<longleftrightarrow> slash_free s \<and> slash_free t"
  by (auto simp: slash_free_def)

lemma dec_slash_free [slash_free_rules]: "slash_free (dec n)"
  using dec_digits [of SLASH n] by (auto simp: slash_free_def isdigit_def ord_def)

lemma hex_text_slash_free [slash_free_rules]: "slash_free (hex_text n)"
proof (induction n rule: hex_text.induct)
  case (1 n)
  let ?d = "char_of (if n mod 16 < 10 then 48 + n mod 16 else 87 + n mod 16) :: char"
  have "ord ?d = (if n mod 16 < 10 then 48 + n mod 16 else 87 + n mod 16)"
    by (rule ord_char_of) (use mod_less_divisor [of 16 n] in auto)
  then have "ord ?d \<noteq> ord SLASH" using mod_less_divisor [of 16 n] by (auto simp: ord_def)
  then have "?d \<noteq> SLASH" by metis
  with 1 show ?case by (subst hex_text.simps) (auto simp: Let_def)
qed

lemma pad6_slash_free [slash_free_rules]: "slash_free s \<Longrightarrow> slash_free (pad6 s)"
  by (simp add: pad6_def slash_free_def)

lemma replace_slash_free [slash_free_rules]: "SLASH \<in> set cs \<Longrightarrow> slash_free (replace_chars cs s)"
  by (auto simp: replace_chars_def slash_free_def)

lemma replace_dot_slash_free [slash_free_rules]: "slash_free s \<Longrightarrow> slash_free (replace_last_dot s)"
  unfolding replace_last_dot_def slash_free_def
  by (auto split: option.split dest: set_update_subset_insert [THEN subsetD])

lemma server_slash_free [slash_free_rules]: "slash_free (server_value env name)"
  by (auto simp: server_value_def evil_chars_def intro: slash_free_rules split: option.split)

lemma session_slash_free [slash_free_rules]: "slash_free (session_value env)"
  by (auto simp: session_value_def intro: slash_free_rules split: option.split)

lemma output_specifier_slash_free [slash_free_rules]: "slash_free (output_specifier env script_name c n)"
  by (simp add: output_specifier_def slash_free_rules split: option.split)

lemma format_loop_slash_free:
  "slash_free fmt \<Longrightarrow> (\<And>c n. slash_free (spec c n)) \<Longrightarrow> slash_free (format_loop spec fmt)"
  by (induction spec fmt rule: format_loop.induct) auto

section \<open>The parts of a file name\<close>

definition last_n :: "nat \<Rightarrow> 'a list \<Rightarrow> 'a list" where
  "last_n k xs = drop (length xs - k) xs"

lemma slice_last: "k \<le> length xs \<Longrightarrow> slice (length xs - k) (length xs) xs = last_n k xs"
  by (simp add: slice_def last_n_def)

lemma split_cstr: "is_cstr s \<Longrightarrow> p \<in> set (split_at_delim d s) \<Longrightarrow> is_cstr p"
proof (induction d s rule: split_at_delim.induct)
  case (1 d s)
  show ?case
  proof (cases "d = [] \<or> xdebug_memnstr s d = None")
    case True
    with 1 show ?thesis by (subst (asm) (2) split_at_delim.simps) (auto split: if_splits)
  next
    case False
    then obtain q where q: "xdebug_memnstr s d = Some q" by auto
    have "set (take q s) \<subseteq> set s" "set (drop (q + length d) s) \<subseteq> set s" by (rule set_take_subset set_drop_subset)+
    with "1.prems"(1) have c: "is_cstr (take q s)" "is_cstr (drop (q + length d) s)" by (auto simp: is_cstr_def)
    from "1.prems"(2) False q have "p = take q s \<or> p \<in> set (split_at_delim d (drop (q + length d) s))"
      by (subst (asm) split_at_delim.simps) auto
    with 1 False q c show ?thesis by auto
  qed
qed

lemma str_text_copy: "str_text (xdebug_str_copy xs) = str_text xs"
  by (simp add: xdebug_str_copy_def str_text_def str_mem_def)

lemma format_filename_value:
  assumes "is_cstr path"
  defines "ps \<equiv> split_at_delim [SLASH] path"
  shows "xdebug_format_filename filename_format default_fmt path =
    Some (format_loop
      (name_specifier (last ps) (joined [SLASH] (last_n 2 ps)) (joined [SLASH] (last_n 3 ps)) path)
      (case filename_format of Some f \<Rightarrow> if f \<noteq> [] then f else default_fmt | None \<Rightarrow> default_fmt))"
proof -
  obtain parts where parts: "xdebug_explode [SLASH] path xdebug_arg_ctor (- 1) = Some parts"
    "arg_args parts = ps" "arg_ok parts"
    using explode_split [of "[SLASH]" path xdebug_arg_ctor] by (auto simp: ps_def)
  have ne: "ps \<noteq> []" by (simp add: ps_def)
  have c: "arg_c parts = int (length ps)" using parts by (simp add: arg_ok_def)
  have cs: "\<forall>s \<in> set (arg_args parts). is_cstr s" using split_cstr [OF assms(1)] by (simp add: parts(2) ps_def)
  have name: "arg_get parts (arg_c parts - 1) = Some (last ps)"
    using ne by (simp add: arg_get_def c parts(2) last_conv_nth nat_diff_distrib')
  have join: "\<exists>r. xdebug_join [SLASH] parts (arg_c parts - int k) (arg_c parts - 1) = Some r \<and>
      str_text r = joined [SLASH] (last_n k ps)" if k: "1 \<le> k" "k \<le> length ps" for k
  proof -
    have "Suc (length ps - 1) = length ps" using ne by (cases ps) auto
    moreover have "length ps - k \<le> length ps - 1" using k by simp
    moreover have "int (length ps - k) = arg_c parts - int k" "int (length ps - 1) = arg_c parts - 1"
      using k c by auto
    ultimately show ?thesis
      using join_range [OF parts(3), of "length ps - k" "length ps - 1" "[SLASH]"] k cs slice_last [of k ps]
      by (auto simp: parts(2) is_cstr_def)
  qed
  have one: "last_n k ps = [last ps]" if "length ps = 1" "1 \<le> k" for k
    using that by (cases ps) (auto simp: last_n_def)
  have two: "last_n 3 ps = last_n 2 ps" if "length ps \<le> 2"
    using that by (simp add: last_n_def)
  consider "length ps = 1" | "length ps = 2" | "3 \<le> length ps" 
  proof -
    have "length ps \<noteq> 0" using ne by simp
    then have "length ps = 1 \<or> length ps = 2 \<or> 3 \<le> length ps" by linarith
    then show thesis using that by blast
  qed
  then show ?thesis
  proof cases
    case 1
    have "is_cstr (last ps)" using cs ne by (simp add: parts(2))
    moreover have "arg_get parts 0 = Some (last ps)" using name c 1 by simp
    ultimately show ?thesis
      using 1 by (simp add: xdebug_format_filename_def parts(1) name c str_text_copy one)
  next
    case 2
    have "arg_get parts 1 = Some (last ps)" using name c 2 by simp
    with 2 show ?thesis using join [of 2] two
      by (auto simp: xdebug_format_filename_def parts(1) name c str_text_copy)
  next
    case 3
    have "arg_get parts (int (length ps) - 1) = Some (last ps)" using name c by simp
    with 3 show ?thesis using join [of 2] join [of 3]
      by (auto simp: xdebug_format_filename_def parts(1) name c)
  qed
qed

end
