(* ===== verification/Xd_Php.thy ===== *)
theory Xd_Php
  imports Xd_Prelude
begin

text \<open>
  The values of PHP and the frame of a running function, as far as \<open>src/lib\<close> and the debugger read them.
  Arrays, objects and references are shared and may be cyclic, so a value holds their address.
\<close>

section \<open>Values\<close>

text \<open>
  A float is known by the text the engine's formatter gives it, a resource by its handle and the name of its
  type, an \<open>IS_PTR\<close> (a property with hooks) by the name of its property.  \<open>IS_INDIRECT\<close> is a pointer to a
  slot, which nothing here changes.
\<close>

datatype pzval = IS_UNDEF | IS_NULL | IS_FALSE | IS_TRUE | IS_LONG int | IS_DOUBLE string | IS_STRING string
  | IS_ARRAY nat | IS_OBJECT nat | IS_RESOURCE int "string option" | IS_REFERENCE nat | IS_CONSTANT_AST
  | IS_INDIRECT pzval | IS_PTR string

datatype array_key = Key_num int | Key_str string

type_synonym hash_table = "(array_key \<times> pzval) list"

section \<open>Running functions\<close>

text \<open>
  \<open>zend_execute_data\<close>.  \<open>ed_func\<close>: whether the function is user code, and its compiled variables; \<open>ed_cvs\<close> their
  values; \<open>ed_intermediate\<close> the operand of the current opcode when that is a statement with an operand.
\<close>

record exec_data =
  ed_func :: "(bool \<times> string list option) option"
  ed_cvs :: "pzval list"
  ed_this :: pzval
  ed_intermediate :: "pzval option"

end
