(* ===== verification/Xd_Dbg_State.thy ===== *)
theory Xd_Dbg_State
  imports Xd_Hash Xd_Maps Xd_Set Xd_Xml Xd_Php
begin

text \<open>
  The state of the step debugger: \<open>src/debugger/handlers.h\<close>, \<open>handlers.c\<close>, \<open>debugger.h\<close>, the stack
  entry of \<open>src/lib/lib.h\<close> as far as the debugger reads it, and the status codes of
  \<open>handler_dbgp.c\<close>.

  Breakpoints are shared by pointer between their container and \<open>pending_breakpoint\<close>, and freed by
  the container, so they live in a store from addresses to \<open>xdebug_brk_info\<close>; an access to a freed
  address is \<open>None\<close>.  The two hash tables of breakpoints hold addresses, the linked list of line
  breakpoints is the list of its addresses.
\<close>

section \<open>Constants\<close>

definition XDEBUG_BREAKPOINT_TYPE_LINE :: int where "XDEBUG_BREAKPOINT_TYPE_LINE = 0x01"
definition XDEBUG_BREAKPOINT_TYPE_CONDITIONAL :: int where "XDEBUG_BREAKPOINT_TYPE_CONDITIONAL = 0x02"
definition XDEBUG_BREAKPOINT_TYPE_CALL :: int where "XDEBUG_BREAKPOINT_TYPE_CALL = 0x04"
definition XDEBUG_BREAKPOINT_TYPE_RETURN :: int where "XDEBUG_BREAKPOINT_TYPE_RETURN = 0x08"
definition XDEBUG_BREAKPOINT_TYPE_EXCEPTION :: int where "XDEBUG_BREAKPOINT_TYPE_EXCEPTION = 0x10"
definition XDEBUG_BREAKPOINT_TYPE_WATCH :: int where "XDEBUG_BREAKPOINT_TYPE_WATCH = 0x20"
definition XDEBUG_BREAKPOINT_TYPES_MASK :: int where "XDEBUG_BREAKPOINT_TYPES_MASK = 0x3F"
definition XDEBUG_BREAKPOINT_TYPE_EXTERNAL :: int where "XDEBUG_BREAKPOINT_TYPE_EXTERNAL = 0x40"

lemmas breakpoint_types = XDEBUG_BREAKPOINT_TYPE_LINE_def XDEBUG_BREAKPOINT_TYPE_CONDITIONAL_def
  XDEBUG_BREAKPOINT_TYPE_CALL_def XDEBUG_BREAKPOINT_TYPE_RETURN_def XDEBUG_BREAKPOINT_TYPE_EXCEPTION_def
  XDEBUG_BREAKPOINT_TYPE_WATCH_def

datatype hit_condition = XDEBUG_HIT_DISABLED | XDEBUG_HIT_GREATER_EQUAL | XDEBUG_HIT_EQUAL | XDEBUG_HIT_MOD

datatype dbgp_status = DBGP_STATUS_NONE | DBGP_STATUS_STARTING | DBGP_STATUS_STOPPING | DBGP_STATUS_STOPPED
  | DBGP_STATUS_RUNNING | DBGP_STATUS_BREAK | DBGP_STATUS_DETACHED

datatype dbgp_reason = DBGP_REASON_OK | DBGP_REASON_ERROR | DBGP_REASON_ABORTED | DBGP_REASON_EXCEPTION

fun xdebug_dbgp_status_strings :: "dbgp_status \<Rightarrow> string" where
  "xdebug_dbgp_status_strings DBGP_STATUS_NONE = ''''"
| "xdebug_dbgp_status_strings DBGP_STATUS_STARTING = ''starting''"
| "xdebug_dbgp_status_strings DBGP_STATUS_STOPPING = ''stopping''"
| "xdebug_dbgp_status_strings DBGP_STATUS_STOPPED = ''stopped''"
| "xdebug_dbgp_status_strings DBGP_STATUS_RUNNING = ''running''"
| "xdebug_dbgp_status_strings DBGP_STATUS_BREAK = ''break''"
| "xdebug_dbgp_status_strings DBGP_STATUS_DETACHED = ''detached''"

fun xdebug_dbgp_reason_strings :: "dbgp_reason \<Rightarrow> string" where
  "xdebug_dbgp_reason_strings DBGP_REASON_OK = ''ok''"
| "xdebug_dbgp_reason_strings DBGP_REASON_ERROR = ''error''"
| "xdebug_dbgp_reason_strings DBGP_REASON_ABORTED = ''aborted''"
| "xdebug_dbgp_reason_strings DBGP_REASON_EXCEPTION = ''exception''"

definition XFUNC_UNKNOWN :: int where "XFUNC_UNKNOWN = 0x00"
definition XFUNC_NORMAL :: int where "XFUNC_NORMAL = 0x01"
definition XFUNC_STATIC_MEMBER :: int where "XFUNC_STATIC_MEMBER = 0x02"
definition XFUNC_MEMBER :: int where "XFUNC_MEMBER = 0x03"
definition XFUNC_INCLUDES :: int where "XFUNC_INCLUDES = 0x10"
definition XFUNC_EVAL :: int where "XFUNC_EVAL = 0x10"
definition XFUNC_INCLUDE :: int where "XFUNC_INCLUDE = 0x11"
definition XFUNC_INCLUDE_ONCE :: int where "XFUNC_INCLUDE_ONCE = 0x12"
definition XFUNC_REQUIRE :: int where "XFUNC_REQUIRE = 0x13"
definition XFUNC_REQUIRE_ONCE :: int where "XFUNC_REQUIRE_ONCE = 0x14"
definition XFUNC_MAIN :: int where "XFUNC_MAIN = 0x15"
definition XFUNC_FIBER :: int where "XFUNC_FIBER = 0x16"
definition XFUNC_ZEND_PASS :: int where "XFUNC_ZEND_PASS = 0x20"

lemmas xfunc_types = XFUNC_UNKNOWN_def XFUNC_NORMAL_def XFUNC_STATIC_MEMBER_def XFUNC_MEMBER_def XFUNC_INCLUDES_def
  XFUNC_EVAL_def XFUNC_INCLUDE_def XFUNC_INCLUDE_ONCE_def XFUNC_REQUIRE_def XFUNC_REQUIRE_ONCE_def XFUNC_MAIN_def
  XFUNC_FIBER_def XFUNC_ZEND_PASS_def

section \<open>Breakpoints\<close>

record brk_info =
  bi_id :: int
  bi_brk_type :: int
  bi_resolved :: bool
  bi_classname :: "string option"
  bi_functionname :: "string option"
  bi_exceptionname :: "string option"
  bi_function_break_type :: int
  bi_filename :: "string option"
  bi_original_lineno :: int
  bi_resolved_lineno :: int
  bi_condition :: "string option"
  bi_disabled :: bool
  bi_temporary :: int
  bi_hit_count :: int
  bi_hit_value :: int
  bi_hit_condition :: hit_condition

definition xdebug_brk_info_ctor :: brk_info where
  "xdebug_brk_info_ctor =
     \<lparr>bi_id = -1, bi_brk_type = -1, bi_resolved = False, bi_classname = None, bi_functionname = None,
      bi_exceptionname = None, bi_function_break_type = 0, bi_filename = None, bi_original_lineno = 0,
      bi_resolved_lineno = 0, bi_condition = None, bi_disabled = False, bi_temporary = 0, bi_hit_count = 0,
      bi_hit_value = 0, bi_hit_condition = XDEBUG_HIT_DISABLED\<rparr>"

record brk_admin =
  ba_id :: int
  ba_type :: int
  ba_key :: string

text \<open>The counting of hits, in the order of the source: the counter first, then the condition.\<close>

definition xdebug_handle_hit_value :: "brk_info \<Rightarrow> brk_info \<times> bool" where
  "xdebug_handle_hit_value b =
     (let b1 = (if bi_temporary b \<noteq> 0 then b\<lparr>bi_disabled := True\<rparr> else b);
          b2 = b1\<lparr>bi_hit_count := to_int32 (bi_hit_count b1 + 1)\<rparr>
      in if bi_hit_value b2 = 0 then (b2, True)
         else (b2,
               case bi_hit_condition b2 of
                 XDEBUG_HIT_GREATER_EQUAL \<Rightarrow> bi_hit_count b2 \<ge> bi_hit_value b2
               | XDEBUG_HIT_EQUAL \<Rightarrow> bi_hit_count b2 = bi_hit_value b2
               | XDEBUG_HIT_MOD \<Rightarrow> bi_hit_count b2 mod bi_hit_value b2 = 0
               | XDEBUG_HIT_DISABLED \<Rightarrow> True))"

section \<open>The stack\<close>

text \<open>
  Compiled code of the PHP engine, as far as the debugger looks at it: the kind and line of each
  opcode, the lines of the function, and the functions declared inside.  A \<open>ZEND_RETURN\<close> says whether
  its operand is a constant.
\<close>

datatype opcode_kind = ZEND_EXT_STMT | ZEND_RETURN bool | ZEND_OTHER

datatype zend_op_array =
  Op_array (oa_line_start: nat) (oa_line_end: nat) (oa_opcodes: "(opcode_kind \<times> nat) list")
           (oa_dynamic_func_defs: "zend_op_array list")

record function_stack_entry =
  fse_function :: "string option"
  fse_object_class :: "string option"
  fse_scope_class :: "string option"
  fse_include_filename :: "string option"
  fse_type :: int
  fse_function_nr :: int
  fse_user_defined :: bool
  fse_level :: int
  fse_has_line_breakpoints :: bool
  fse_lineno :: int
  fse_filename :: string
  fse_op_array :: zend_op_array

section \<open>Breakable lines\<close>

record lines_map_item =
  li_line_start :: nat
  li_line_end :: nat
  li_line_span :: nat
  li_lines_breakable :: xdebug_set

type_synonym lines_list = "lines_map_item list"

section \<open>The options of variable export\<close>

text \<open>
  \<open>runtime\<close> is an array with one page number for each level of depth.  A PHP value is known by what
  \<open>xdebug_get_zval_value_xml_node\<close> makes of it under given options.
\<close>

record var_export_options =
  opt_max_children :: int
  opt_max_data :: int
  opt_max_depth :: int
  opt_show_hidden :: int
  opt_extended_properties :: int
  opt_encode_as_extended_property :: int
  opt_runtime :: "int list"

type_synonym php_value = "var_export_options \<Rightarrow> xml_node"

section \<open>The debugger's globals\<close>

text \<open>
  \<open>xdebug_con\<close> without its socket and buffer, then what \<open>XG_DBG\<close> and the few fields of \<open>XG_BASE\<close> and
  \<open>XG_LIB\<close> add that the debugger works on.  \<open>dbg_sent\<close> is what went to the client, oldest first.
  \<open>dbg_stack_id\<close> is the identity of the stack vector, which changes with the fiber.  The connection (socket
  and buffer) is passed beside this record; \<open>con_options\<close> is \<open>None\<close> while the session's tables are not
  allocated.  The evaluated code's information is owned by its two
  entries in the table, so its reference count is left out.
\<close>

text \<open>The scope in which the library looks up names, the \<open>active_\<close> globals of \<open>XG_LIB\<close>.\<close>

record lib_scope =
  sc_active_data :: "exec_data option"
  sc_active_stack_entry :: "function_stack_entry option"
  sc_active_symbol_table :: "hash_table option"

record eval_info =
  ei_id :: int
  ei_contents :: string

datatype recv_event = Recv string | Recv_interrupted | Recv_failed

record brk_store =
  con_heap :: "nat \<Rightarrow> brk_info option"
  con_next_addr :: nat
  con_breakpoint_list :: "brk_admin xdebug_hash"
  con_function_breakpoints :: "nat xdebug_hash"
  con_exception_breakpoints :: "nat xdebug_hash"
  con_line_breakpoints :: "nat list"

record xdebug_con = brk_store +
  con_do_break :: bool
  con_pending_breakpoint :: "nat option"
  con_next_stack :: "nat option"
  con_do_step :: bool
  con_do_next :: bool
  con_next_level :: int
  con_do_finish :: bool
  con_finish_level :: int
  con_finish_func_nr :: int
  con_send_notifications :: int
  con_inhibit_notifications :: bool
  con_resolved_breakpoints :: int
  con_breakpoint_details :: int
  con_include_return_value :: int
  con_virtual_exception_value :: int
  con_do_connect_to_client :: bool
  con_detached_message :: "string option"
  con_host_type :: int
  con_options :: "var_export_options option"
  con_program_name :: "string option"
  con_eval_id_lookup :: "eval_info xdebug_hash"
  con_eval_id_sequence :: int

record debugger = xdebug_con +
  dbg_status :: dbgp_status
  dbg_reason :: dbgp_reason
  dbg_lastcmd :: "string option"
  dbg_lasttransid :: "string option"
  dbg_connection_enabled :: bool
  dbg_breakpoints_allowed :: bool
  dbg_suppress_return_value_step :: bool
  dbg_detached :: bool
  dbg_breakpoint_count :: int
  dbg_breakable_lines_map :: "lines_list xdebug_hash"
  dbg_stdout_mode :: int
  dbg_stack :: "function_stack_entry list"
  dbg_stack_id :: nat
  dbg_path_maps :: "path_maps option"
  dbg_executed_filename :: "string option"
  dbg_executed_lineno :: int
  dbg_execute_data :: "(nat \<times> zend_op_array) option"
  dbg_ide_key :: "string option"
  dbg_current_return_value :: "php_value option"
  dbg_sent :: "xml_node list"
  dbg_scope :: lib_scope

text \<open>
  A file opened by the engine: its lines, each with its newline, and whether the end-of-file flag is set
  after so many calls of \<open>php_stream_gets\<close>.  A directory or a missing file is no stream.
\<close>

record php_stream =
  ps_lines :: "string list"
  ps_eof :: "nat \<Rightarrow> bool"

text \<open>
  The process and the PHP engine, as far as the handlers ask them.  Evaluated code ends in a value,
  known by whether it is \<open>true\<close> and by its description, or in a failure with perhaps a message.
\<close>

datatype eval_result = Eval_value bool php_value | Eval_failed "string option"

record dbg_env =
  env_pid :: nat
  env_php_version :: string
  env_realpath :: "string \<Rightarrow> string option"
  env_expand :: "string \<Rightarrow> string option"
  env_eval :: "string \<Rightarrow> eval_result"
  env_dbgp_cookie :: "string option"
  env_cloud_id :: "string option"
  env_control_socket :: "string option"
  env_profiler_filename :: "string option"
  env_open_file :: "string \<Rightarrow> php_stream option"
  env_ini_options :: var_export_options

definition stack_tail :: "'a debugger_scheme \<Rightarrow> function_stack_entry option" where
  "stack_tail s = (if dbg_stack s = [] then None else Some (last (dbg_stack s)))"

section \<open>The store\<close>

definition brk_at :: "'a brk_store_scheme \<Rightarrow> nat \<Rightarrow> brk_info option" where
  "brk_at s a = con_heap s a"

definition brk_put :: "'a brk_store_scheme \<Rightarrow> nat \<Rightarrow> brk_info \<Rightarrow> 'a brk_store_scheme option" where
  "brk_put s a b = (if con_heap s a = None then None else Some (s\<lparr>con_heap := (con_heap s)(a \<mapsto> b)\<rparr>))"

definition brk_new :: "'a brk_store_scheme \<Rightarrow> 'a brk_store_scheme \<times> nat" where
  "brk_new s =
     (s\<lparr>con_heap := (con_heap s)(con_next_addr s \<mapsto> xdebug_brk_info_ctor), con_next_addr := con_next_addr s + 1\<rparr>,
      con_next_addr s)"

text \<open>\<open>xdebug_brk_info_dtor\<close>; freeing a freed address is an error.\<close>

definition xdebug_brk_info_dtor :: "'a brk_store_scheme \<Rightarrow> nat \<Rightarrow> 'a brk_store_scheme option" where
  "xdebug_brk_info_dtor s a =
     (if con_heap s a = None then None else Some (s\<lparr>con_heap := (con_heap s)(a := None)\<rparr>))"

fun brk_dtor_all :: "'a brk_store_scheme \<Rightarrow> nat list \<Rightarrow> 'a brk_store_scheme option" where
  "brk_dtor_all s [] = Some s"
| "brk_dtor_all s (a # as) =
     (case xdebug_brk_info_dtor s a of Some s1 \<Rightarrow> brk_dtor_all s1 as | None \<Rightarrow> None)"

text \<open>
  The two tables of breakpoints run \<open>xdebug_hash_brk_dtor\<close> on a value they drop: the table records
  the dropped addresses, and they are freed right after.
\<close>

definition function_hash_set :: "nat xdebug_hash \<Rightarrow> 'a brk_store_scheme \<Rightarrow> 'a brk_store_scheme option" where
  "function_hash_set h s =
     brk_dtor_all (s\<lparr>con_function_breakpoints := h\<lparr>h_destroyed := []\<rparr>\<rparr>) (h_destroyed h)"

definition exception_hash_set :: "nat xdebug_hash \<Rightarrow> 'a brk_store_scheme \<Rightarrow> 'a brk_store_scheme option" where
  "exception_hash_set h s =
     brk_dtor_all (s\<lparr>con_exception_breakpoints := h\<lparr>h_destroyed := []\<rparr>\<rparr>) (h_destroyed h)"

end
