(* ===== verification/Xd_Breakpoints.thy ===== *)
theory Xd_Breakpoints
  imports Xd_Dbg_State Xd_Cmd_Parser Xd_Arg Xd_Url
begin

text \<open>
  The breakpoint commands of \<open>src/debugger/handler_dbgp.c\<close>: \<open>breakpoint_set\<close>, \<open>breakpoint_get\<close>,
  \<open>breakpoint_update\<close>, \<open>breakpoint_remove\<close>, \<open>breakpoint_list\<close>, and the resolving of line breakpoints.
  A handler maps the state, the options and the response node to the new state and response;
  \<open>None\<close> is an access through NULL, through a freed breakpoint, or outside an array.
\<close>

section \<open>Errors\<close>

definition XDEBUG_ERROR_CANT_OPEN_FILE :: int where "XDEBUG_ERROR_CANT_OPEN_FILE = 100"
definition XDEBUG_ERROR_BREAKPOINT_NOT_SET :: int where "XDEBUG_ERROR_BREAKPOINT_NOT_SET = 200"
definition XDEBUG_ERROR_BREAKPOINT_TYPE_NOT_SUPPORTED :: int where "XDEBUG_ERROR_BREAKPOINT_TYPE_NOT_SUPPORTED = 201"
definition XDEBUG_ERROR_NO_SUCH_BREAKPOINT :: int where "XDEBUG_ERROR_NO_SUCH_BREAKPOINT = 205"
definition XDEBUG_ERROR_EVALUATING_CODE :: int where "XDEBUG_ERROR_EVALUATING_CODE = 206"
definition XDEBUG_ERROR_STACK_DEPTH_INVALID :: int where "XDEBUG_ERROR_STACK_DEPTH_INVALID = 301"

lemmas dbgp_error_codes = XDEBUG_ERROR_OK_def XDEBUG_ERROR_PARSE_def XDEBUG_ERROR_DUP_ARG_def XDEBUG_ERROR_INVALID_ARGS_def
  XDEBUG_ERROR_UNIMPLEMENTED_def XDEBUG_ERROR_COMMAND_UNAVAILABLE_def XDEBUG_ERROR_CANT_OPEN_FILE_def
  XDEBUG_ERROR_BREAKPOINT_NOT_SET_def XDEBUG_ERROR_BREAKPOINT_TYPE_NOT_SUPPORTED_def
  XDEBUG_ERROR_NO_SUCH_BREAKPOINT_def XDEBUG_ERROR_EVALUATING_CODE_def XDEBUG_ERROR_STACK_DEPTH_INVALID_def

definition xdebug_error_codes :: "(int \<times> string) list" where
  "xdebug_error_codes =
    [(0, ''no error''), (1, ''parse error in command''), (2, ''duplicate arguments in command''),
     (3, ''invalid or missing options''), (4, ''unimplemented command''), (5, ''command is not available''),
     (100, ''can not open file''), (101, ''stream redirect failed''), (200, ''breakpoint could not be set''),
     (201, ''breakpoint type is not supported''), (202, ''invalid breakpoint line''),
     (203, ''no code on breakpoint line''), (204, ''invalid breakpoint state''), (205, ''no such breakpoint''),
     (206, ''error evaluating code''), (207, ''invalid expression''), (300, ''can not get property''),
     (301, ''stack depth invalid''), (302, ''context invalid''), (800, ''profiler not started''),
     (900, ''encoding not supported''), (998, ''an internal exception in the debugger''), (999, ''unknown error'')]"

definition error_message_from_code :: "int \<Rightarrow> string option" where
  "error_message_from_code code = map_of xdebug_error_codes code"

text \<open>The \<open>error\<close> element with its message, and the macro \<open>RETURN_RESULT\<close>.\<close>

definition error_node :: "int \<Rightarrow> xml_node option" where
  "error_node c =
     map_option (\<lambda>m. xdebug_xml_add_child (xdebug_xml_add_attribute (xdebug_xml_node_init ''error'') ''code'' (dec (nat c)))
                       (xdebug_xml_add_text (xdebug_xml_node_init ''message'') m))
       (error_message_from_code c)"

definition RETURN_RESULT :: "debugger \<Rightarrow> xml_node \<Rightarrow> int \<Rightarrow> (debugger \<times> xml_node) option" where
  "RETURN_RESULT s retval c =
     map_option
       (\<lambda>e. (s, xdebug_xml_add_child
                  (xdebug_xml_add_attribute
                     (xdebug_xml_add_attribute retval ''status'' (xdebug_dbgp_status_strings (dbg_status s)))
                     ''reason'' (xdebug_dbgp_reason_strings (dbg_reason s))) e))
       (error_node c)"

section \<open>Options and conversions\<close>

text \<open>\<open>CMD_OPTION_CHAR\<close> is a C string, \<open>CMD_OPTION_LEN\<close> the length of the whole value.\<close>

definition CMD_OPTION_CHAR :: "xdebug_dbgp_arg \<Rightarrow> char \<Rightarrow> string option" where
  "CMD_OPTION_CHAR args opt = map_option (\<lambda>v. c_str (str_text v)) (CMD_OPTION_XDEBUG_STR args opt)"

definition CMD_OPTION_BYTES :: "xdebug_dbgp_arg \<Rightarrow> char \<Rightarrow> string option" where
  "CMD_OPTION_BYTES args opt = map_option str_text (CMD_OPTION_XDEBUG_STR args opt)"

definition strtol_int :: "string \<Rightarrow> int" where
  "strtol_int s = to_int32 (fst (strtol10 s))"

text \<open>An \<open>int\<close> where the code prints \<open>%lu\<close>, compares with a \<open>size_t\<close>, or passes an \<open>unsigned int\<close>.\<close>

definition lu_of_int :: "int \<Rightarrow> string" where
  "lu_of_int i = dec (nat (i mod 2 ^ 32))"

definition size_of_int :: "int \<Rightarrow> nat" where
  "size_of_int i = nat (i mod 2 ^ 64)"

definition uint_of_int :: "int \<Rightarrow> nat" where
  "uint_of_int i = nat (i mod 2 ^ 32)"

definition is_dbgp_url :: "string \<Rightarrow> bool" where
  "is_dbgp_url filename = strneq filename ''dbgp://'' 7"

section \<open>Breakpoint identifiers\<close>

definition breakpoint_admin_add :: "dbg_env \<Rightarrow> debugger \<Rightarrow> int \<Rightarrow> string \<Rightarrow> debugger \<times> int" where
  "breakpoint_admin_add env s ty key =
     (let count = (dbg_breakpoint_count s + 1) mod 2 ^ 32;
          ident = to_int32 (int (env_pid env mod 0x20000) * 10000 + count);
          admin = \<lparr>ba_id = ident, ba_type = ty, ba_key = key\<rparr>
      in (s\<lparr>dbg_breakpoint_count := count,
            con_breakpoint_list := xdebug_hash_add (con_breakpoint_list s) (lu_of_int ident) admin\<rparr>, ident))"

definition breakpoint_admin_fetch :: "debugger \<Rightarrow> string \<Rightarrow> (int \<times> string) option" where
  "breakpoint_admin_fetch s hkey =
     map_option (\<lambda>admin. (ba_type admin, ba_key admin)) (xdebug_hash_find (con_breakpoint_list s) hkey)"

definition breakpoint_admin_remove :: "debugger \<Rightarrow> string \<Rightarrow> debugger \<times> bool" where
  "breakpoint_admin_remove s hkey =
     (case xdebug_hash_delete (con_breakpoint_list s) hkey of (h, ok) \<Rightarrow> (s\<lparr>con_breakpoint_list := h\<rparr>, ok))"

section \<open>Path mapping of breakpoints\<close>

text \<open>The local path must be readable: the code logs it without a test.\<close>

definition map_local_to_remote_replace :: "debugger \<Rightarrow> brk_info \<Rightarrow> brk_info option" where
  "map_local_to_remote_replace s b =
     (case dbg_path_maps s of
        None \<Rightarrow> Some b
      | Some maps \<Rightarrow>
          (case bi_filename b of
             None \<Rightarrow> None
           | Some filename \<Rightarrow>
               (case local_to_remote maps filename (size_of_int (bi_original_lineno b)) of
                  None \<Rightarrow> None
                | Some (ty, result) \<Rightarrow>
                    if ty \<noteq> XDEBUG_PATH_MAP_TYPE_UNKNOWN
                    then (case result of
                            Some (Some remote_path, remote_line) \<Rightarrow>
                              Some (b\<lparr>bi_filename := Some remote_path, bi_original_lineno := to_int32 (int remote_line),
                                      bi_resolved_lineno := to_int32 (int remote_line)\<rparr>)
                          | _ \<Rightarrow> None)
                    else Some b)))"

definition map_remote_brkinfo_to_local :: "debugger \<Rightarrow> brk_info \<Rightarrow> (string \<times> nat) option" where
  "map_remote_brkinfo_to_local s b =
     (case bi_filename b of
        None \<Rightarrow> None
      | Some filename \<Rightarrow>
          (case dbg_path_maps s of
             None \<Rightarrow> Some (filename, size_of_int (bi_resolved_lineno b))
           | Some maps \<Rightarrow>
               (case remote_to_local maps filename (size_of_int (bi_resolved_lineno b)) of
                  None \<Rightarrow> None
                | Some (ty, result) \<Rightarrow>
                    if ty \<noteq> XDEBUG_PATH_MAP_TYPE_UNKNOWN
                    then (case result of
                            Some (Some local_path, local_line) \<Rightarrow> Some (local_path, local_line)
                          | _ \<Rightarrow> None)
                    else Some (filename, size_of_int (bi_resolved_lineno b)))))"

section \<open>The description of a breakpoint\<close>

definition xdebug_breakpoint_types :: "(int \<times> string) list" where
  "xdebug_breakpoint_types =
    [(XDEBUG_BREAKPOINT_TYPE_LINE, ''line''), (XDEBUG_BREAKPOINT_TYPE_CONDITIONAL, ''conditional''),
     (XDEBUG_BREAKPOINT_TYPE_CALL, ''call''), (XDEBUG_BREAKPOINT_TYPE_RETURN, ''return''),
     (XDEBUG_BREAKPOINT_TYPE_EXCEPTION, ''exception''), (XDEBUG_BREAKPOINT_TYPE_WATCH, ''watch'')]"

text \<open>\<open>XDEBUG_BREAKPOINT_TYPE_NAME\<close> indexes the table by the logarithm of the type, a power of two.\<close>

definition XDEBUG_BREAKPOINT_TYPE_NAME :: "int \<Rightarrow> string option" where
  "XDEBUG_BREAKPOINT_TYPE_NAME v = map_of xdebug_breakpoint_types v"

definition breakpoint_brk_info_add_resolved :: "debugger \<Rightarrow> xml_node \<Rightarrow> brk_info \<Rightarrow> xml_node" where
  "breakpoint_brk_info_add_resolved s xml b =
     (if con_resolved_breakpoints s = 0 then xml
      else xdebug_xml_add_attribute xml ''resolved'' (if bi_resolved b then ''resolved'' else ''unresolved''))"

definition add_opt_attribute :: "string \<Rightarrow> string option \<Rightarrow> xml_node \<Rightarrow> xml_node" where
  "add_opt_attribute name v xml = (case v of Some x \<Rightarrow> xdebug_xml_add_attribute xml name x | None \<Rightarrow> xml)"

definition brk_location :: "dbg_env \<Rightarrow> debugger \<Rightarrow> brk_info \<Rightarrow> xml_node \<Rightarrow> xml_node option" where
  "brk_location env s b xml =
     (case bi_filename b of
        None \<Rightarrow> Some xml
      | Some filename \<Rightarrow>
          if bi_resolved_lineno b = 0 then Some xml
          else if is_dbgp_url filename
          then Some (xdebug_xml_add_attribute (xdebug_xml_add_attribute xml ''filename'' filename)
                       ''lineno'' (lu_of_int (bi_resolved_lineno b)))
          else do {
            (local_path, local_line) \<leftarrow> map_remote_brkinfo_to_local s b;
            url \<leftarrow> xdebug_path_to_url (env_expand env) local_path;
            Some (xdebug_xml_add_attribute (xdebug_xml_add_attribute xml ''filename'' url) ''lineno'' (dec local_line)) })"

definition brk_state_text :: "brk_info \<Rightarrow> string" where
  "brk_state_text b =
     (if bi_disabled b then ''disabled'' else if bi_temporary b \<noteq> 0 then ''temporary'' else ''enabled'')"

definition hit_condition_text :: "hit_condition \<Rightarrow> string option" where
  "hit_condition_text c =
     (case c of XDEBUG_HIT_GREATER_EQUAL \<Rightarrow> Some ''>='' | XDEBUG_HIT_EQUAL \<Rightarrow> Some ''=='' | XDEBUG_HIT_MOD \<Rightarrow> Some ''%''
      | XDEBUG_HIT_DISABLED \<Rightarrow> None)"

text \<open>The argument is a pointer that may be NULL.\<close>

definition breakpoint_brk_info_add :: "dbg_env \<Rightarrow> debugger \<Rightarrow> xml_node \<Rightarrow> nat option \<Rightarrow> xml_node option" where
  "breakpoint_brk_info_add env s xml ptr =
     do { a \<leftarrow> ptr;
          b \<leftarrow> brk_at s a;
          name \<leftarrow> XDEBUG_BREAKPOINT_TYPE_NAME (bi_brk_type b);
          x1 \<leftarrow> brk_location env s b
                 (breakpoint_brk_info_add_resolved s (xdebug_xml_add_attribute xml ''type'' name) b);
          let x2 = add_opt_attribute ''exception'' (bi_exceptionname b)
                     (add_opt_attribute ''class'' (bi_classname b)
                        (add_opt_attribute ''function'' (bi_functionname b) x1));
              x3 = xdebug_xml_add_attribute x2 ''state'' (brk_state_text b);
              x4 = add_opt_attribute ''hit_condition'' (hit_condition_text (bi_hit_condition b))
                     (xdebug_xml_add_attribute x3 ''hit_count'' (lu_of_int (bi_hit_count b)));
              x5 = (case bi_condition b of
                      Some c \<Rightarrow> xdebug_xml_add_child x4 (xdebug_xml_add_text_ex (xdebug_xml_node_init ''expression'') c True)
                    | None \<Rightarrow> x4)
          in Some (xdebug_xml_add_attribute (xdebug_xml_add_attribute x5 ''hit_value'' (lu_of_int (bi_hit_value b)))
                     ''id'' (lu_of_int (bi_id b))) }"

section \<open>Finding and removing by key\<close>

text \<open>
  \<open>memcmp(filename, args[0], ZSTR_LEN(filename)) == 0\<close>.  The piece ends in a NUL, so the comparison
  stops there unless the file name itself goes on with a NUL.
\<close>

definition memcmp_prefix :: "string \<Rightarrow> string \<Rightarrow> bool option" where
  "memcmp_prefix filename piece =
     (if length filename \<le> length piece + 1 then Some (take (length filename) (piece @ [NUL]) = filename)
      else if take (length piece + 1) filename = piece @ [NUL] then None else Some False)"

definition line_brk_matches :: "xdebug_arg \<Rightarrow> brk_info \<Rightarrow> bool option" where
  "line_brk_matches parts b =
     do { line \<leftarrow> arg_get parts 1;
          if atoi line = bi_original_lineno b
          then do { filename \<leftarrow> bi_filename b; piece \<leftarrow> arg_get parts 0; memcmp_prefix filename piece }
          else Some False }"

text \<open>
  The scan of the list: \<open>Some (ptr, True)\<close> at a match, \<open>Some (ptr, False)\<close> at the end, where
  \<open>ptr\<close> is what the variable \<open>brk_info\<close> was last set to.
\<close>

fun line_brk_scan :: "debugger \<Rightarrow> xdebug_arg \<Rightarrow> nat list \<Rightarrow> nat option \<Rightarrow> (nat option \<times> bool) option" where
  "line_brk_scan s parts [] ptr = Some (ptr, False)"
| "line_brk_scan s parts (a # le) ptr =
     do { b \<leftarrow> brk_at s a;
          m \<leftarrow> line_brk_matches parts b;
          if m then Some (Some a, True) else line_brk_scan s parts le (Some a) }"

definition breakpoint_brk_info_fetch :: "debugger \<Rightarrow> int \<Rightarrow> string \<Rightarrow> nat option option" where
  "breakpoint_brk_info_fetch s ty hkey =
     (if ty = XDEBUG_BREAKPOINT_TYPE_LINE \<or> ty = XDEBUG_BREAKPOINT_TYPE_CONDITIONAL
      then do { parts \<leftarrow> xdebug_explode ''$'' hkey xdebug_arg_ctor (-1);
                (ptr, found) \<leftarrow> line_brk_scan s parts (con_line_breakpoints s) None;
                Some ptr }
      else if ty = XDEBUG_BREAKPOINT_TYPE_CALL \<or> ty = XDEBUG_BREAKPOINT_TYPE_RETURN
      then Some (xdebug_hash_find (con_function_breakpoints s) hkey)
      else if ty = XDEBUG_BREAKPOINT_TYPE_EXCEPTION then Some (xdebug_hash_find (con_exception_breakpoints s) hkey)
      else Some None)"

definition breakpoint_remove :: "debugger \<Rightarrow> int \<Rightarrow> string \<Rightarrow> (debugger \<times> bool) option" where
  "breakpoint_remove s ty hkey =
     (if ty = XDEBUG_BREAKPOINT_TYPE_LINE \<or> ty = XDEBUG_BREAKPOINT_TYPE_CONDITIONAL
      then do { parts \<leftarrow> xdebug_explode ''$'' hkey xdebug_arg_ctor (-1);
                (ptr, found) \<leftarrow> line_brk_scan s parts (con_line_breakpoints s) None;
                if found
                then do { a \<leftarrow> ptr;
                          s1 \<leftarrow> xdebug_brk_info_dtor (s\<lparr>con_line_breakpoints := remove1 a (con_line_breakpoints s)\<rparr>) a;
                          Some (s1, True) }
                else Some (s, False) }
      else if ty = XDEBUG_BREAKPOINT_TYPE_CALL \<or> ty = XDEBUG_BREAKPOINT_TYPE_RETURN
      then (case xdebug_hash_delete (con_function_breakpoints s) hkey of
              (h, ok) \<Rightarrow> map_option (\<lambda>s1. (s1, ok)) (function_hash_set h s))
      else if ty = XDEBUG_BREAKPOINT_TYPE_EXCEPTION
      then (case xdebug_hash_delete (con_exception_breakpoints s) hkey of
              (h, ok) \<Rightarrow> map_option (\<lambda>s1. (s1, ok)) (exception_hash_set h s))
      else Some (s, False))"


section \<open>get, update, remove, list\<close>

datatype breakpoint_action = BREAKPOINT_ACTION_GET | BREAKPOINT_ACTION_REMOVE | BREAKPOINT_ACTION_UPDATE

text \<open>The two macros; \<open>None\<close> is their default case, which returns \<open>invalid or missing options\<close>.\<close>

definition BREAKPOINT_CHANGE_STATE :: "string \<Rightarrow> brk_info \<Rightarrow> brk_info option" where
  "BREAKPOINT_CHANGE_STATE v b =
     (if v = ''enabled'' then Some (b\<lparr>bi_disabled := False\<rparr>)
      else if v = ''disabled'' then Some (b\<lparr>bi_disabled := True\<rparr>)
      else None)"

definition BREAKPOINT_CHANGE_OPERATOR :: "string \<Rightarrow> brk_info \<Rightarrow> brk_info option" where
  "BREAKPOINT_CHANGE_OPERATOR v b =
     (if v = ''>='' then Some (b\<lparr>bi_hit_condition := XDEBUG_HIT_GREATER_EQUAL\<rparr>)
      else if v = ''=='' then Some (b\<lparr>bi_hit_condition := XDEBUG_HIT_EQUAL\<rparr>)
      else if v = ''%'' then Some (b\<lparr>bi_hit_condition := XDEBUG_HIT_MOD\<rparr>)
      else None)"

text \<open>
  The updates in their order.  The second component is false when a macro returned early, which
  leaves the updates before it in place.
\<close>

definition update_number :: "xdebug_dbgp_arg \<Rightarrow> char \<Rightarrow> (int \<Rightarrow> brk_info \<Rightarrow> brk_info) \<Rightarrow> brk_info \<Rightarrow> brk_info option" where
  "update_number args opt f b =
     (if CMD_OPTION_SET args opt then map_option (\<lambda>v. f (strtol_int v) b) (CMD_OPTION_CHAR args opt) else Some b)"

definition update_choice ::
  "xdebug_dbgp_arg \<Rightarrow> char \<Rightarrow> (string \<Rightarrow> brk_info \<Rightarrow> brk_info option) \<Rightarrow> brk_info \<Rightarrow> (brk_info \<times> bool) option" where
  "update_choice args opt f b =
     (if CMD_OPTION_SET args opt
      then map_option (\<lambda>v. case f v b of Some b1 \<Rightarrow> (b1, True) | None \<Rightarrow> (b, False)) (CMD_OPTION_CHAR args opt)
      else Some (b, True))"

definition update_brk_info :: "xdebug_dbgp_arg \<Rightarrow> brk_info \<Rightarrow> (brk_info \<times> bool) option" where
  "update_brk_info args b =
     do { (b1, ok) \<leftarrow> update_choice args (CHR ''s'') BREAKPOINT_CHANGE_STATE b;
          if \<not> ok then Some (b1, False)
          else do {
            b2 \<leftarrow> update_number args (CHR ''n'') (\<lambda>v b. b\<lparr>bi_original_lineno := v, bi_resolved_lineno := v\<rparr>) b1;
            b3 \<leftarrow> update_number args (CHR ''h'') (\<lambda>v b. b\<lparr>bi_hit_value := v\<rparr>) b2;
            update_choice args (CHR ''o'') BREAKPOINT_CHANGE_OPERATOR b3 } }"

definition breakpoint_do_action ::
  "dbg_env \<Rightarrow> debugger \<Rightarrow> xdebug_dbgp_arg \<Rightarrow> breakpoint_action \<Rightarrow> xml_node \<Rightarrow> (debugger \<times> xml_node) option" where
  "breakpoint_do_action env s args action retval =
     (if \<not> CMD_OPTION_SET args (CHR ''d'') then RETURN_RESULT s retval XDEBUG_ERROR_INVALID_ARGS
      else do {
        d \<leftarrow> CMD_OPTION_CHAR args (CHR ''d'');
        case breakpoint_admin_fetch s d of
          None \<Rightarrow> RETURN_RESULT s retval XDEBUG_ERROR_NO_SUCH_BREAKPOINT
        | Some (ty, hkey) \<Rightarrow> do {
            ptr \<leftarrow> breakpoint_brk_info_fetch s ty hkey;
            (s1, ok) \<leftarrow>
              (if action = BREAKPOINT_ACTION_UPDATE
               then do { a \<leftarrow> ptr;
                         b \<leftarrow> brk_at s a;
                         (b1, ok) \<leftarrow> update_brk_info args b;
                         s1 \<leftarrow> brk_put s a b1;
                         Some (s1, ok) }
               else Some (s, True));
            if \<not> ok then RETURN_RESULT s1 retval XDEBUG_ERROR_INVALID_ARGS
            else do {
              node \<leftarrow> breakpoint_brk_info_add env s1 (xdebug_xml_node_init ''breakpoint'') ptr;
              if action = BREAKPOINT_ACTION_REMOVE
              then do { (s2, removed) \<leftarrow> breakpoint_remove s1 ty hkey;
                        Some (fst (breakpoint_admin_remove s2 d), xdebug_xml_add_child retval node) }
              else Some (s1, xdebug_xml_add_child retval node) } } })"

definition xdebug_dbgp_handle_breakpoint_get ::
  "dbg_env \<Rightarrow> debugger \<Rightarrow> xdebug_dbgp_arg \<Rightarrow> xml_node \<Rightarrow> (debugger \<times> xml_node) option" where
  "xdebug_dbgp_handle_breakpoint_get env s args retval = breakpoint_do_action env s args BREAKPOINT_ACTION_GET retval"

definition xdebug_dbgp_handle_breakpoint_remove ::
  "dbg_env \<Rightarrow> debugger \<Rightarrow> xdebug_dbgp_arg \<Rightarrow> xml_node \<Rightarrow> (debugger \<times> xml_node) option" where
  "xdebug_dbgp_handle_breakpoint_remove env s args retval =
     breakpoint_do_action env s args BREAKPOINT_ACTION_REMOVE retval"

definition xdebug_dbgp_handle_breakpoint_update ::
  "dbg_env \<Rightarrow> debugger \<Rightarrow> xdebug_dbgp_arg \<Rightarrow> xml_node \<Rightarrow> (debugger \<times> xml_node) option" where
  "xdebug_dbgp_handle_breakpoint_update env s args retval =
     breakpoint_do_action env s args BREAKPOINT_ACTION_UPDATE retval"

text \<open>
  The list is sorted by \<open>xdebug_compare_brk_info\<close>: it reads the first field behind the first field
  of a hash element, which is the identifier of the \<open>admin\<close> entry.
\<close>

definition xdebug_compare_brk_info :: "hash_key \<times> brk_admin \<Rightarrow> hash_key \<times> brk_admin \<Rightarrow> int" where
  "xdebug_compare_brk_info a b = (if ba_id (snd a) > ba_id (snd b) then 1 else 0)"

definition qsort_brk :: "(hash_key \<times> brk_admin) list \<Rightarrow> (hash_key \<times> brk_admin) list" where
  "qsort_brk = sort_key (\<lambda>e. ba_id (snd e))"

definition breakpoint_list_helper ::
  "dbg_env \<Rightarrow> debugger \<Rightarrow> xml_node option \<Rightarrow> hash_key \<times> brk_admin \<Rightarrow> xml_node option" where
  "breakpoint_list_helper env s xml he =
     do { x \<leftarrow> xml;
          ptr \<leftarrow> breakpoint_brk_info_fetch s (ba_type (snd he)) (ba_key (snd he));
          child \<leftarrow> breakpoint_brk_info_add env s (xdebug_xml_node_init ''breakpoint'') ptr;
          Some (xdebug_xml_add_child x child) }"

definition xdebug_dbgp_handle_breakpoint_list ::
  "dbg_env \<Rightarrow> debugger \<Rightarrow> xdebug_dbgp_arg \<Rightarrow> xml_node \<Rightarrow> (debugger \<times> xml_node) option" where
  "xdebug_dbgp_handle_breakpoint_list env s args retval =
     map_option (\<lambda>x. (s, x))
       (xdebug_hash_apply_with_argument (con_breakpoint_list s) (Some qsort_brk) (Some retval)
          (breakpoint_list_helper env s))"

definition line_breakpoint_exists :: "debugger \<Rightarrow> string \<Rightarrow> bool" where
  "line_breakpoint_exists s key =
     xdebug_hash_apply_with_argument (con_breakpoint_list s) (Some qsort_brk) False
       (\<lambda>line_found he. if ba_key (snd he) = key then True else line_found)"

section \<open>Messages\<close>

text \<open>
  \<open>send_message\<close>: nothing is sent on a closed connection, except while starting.
\<close>

definition send_message :: "debugger \<Rightarrow> xml_node \<Rightarrow> debugger" where
  "send_message s message =
     (if dbg_status s \<noteq> DBGP_STATUS_STARTING \<and> \<not> dbg_connection_enabled s then s
      else s\<lparr>dbg_sent := dbg_sent s @ [message]\<rparr>)"

definition dbgp_node :: "string \<Rightarrow> xml_node" where
  "dbgp_node tag =
     xdebug_xml_add_attribute
       (xdebug_xml_add_attribute (xdebug_xml_node_init tag) ''xmlns'' ''urn:debugger_protocol_v1'')
       ''xmlns:xdebug'' ''https://xdebug.org/dbgp/xdebug''"

definition xdebug_dbgp_resolved_breakpoint_notification :: "dbg_env \<Rightarrow> debugger \<Rightarrow> nat \<Rightarrow> debugger option" where
  "xdebug_dbgp_resolved_breakpoint_notification env s a =
     (if con_send_notifications s = 0 then Some s
      else do {
        child \<leftarrow> breakpoint_brk_info_add env s (xdebug_xml_node_init ''breakpoint'') (Some a);
        Some (send_message s
               (xdebug_xml_add_child (xdebug_xml_add_attribute (dbgp_node ''notify'') ''name'' ''breakpoint_resolved'') child)) })"

section \<open>Resolving\<close>

definition XDEBUG_RESOLVED_SPAN_MAX :: int where "XDEBUG_RESOLVED_SPAN_MAX = 2147483647"
definition XDEBUG_DBGP_SCAN_RANGE :: int where "XDEBUG_DBGP_SCAN_RANGE = 5"

fun find_smallest_loop :: "int \<Rightarrow> lines_list \<Rightarrow> lines_map_item option \<Rightarrow> int \<Rightarrow> lines_map_item option" where
  "find_smallest_loop original_lineno [] found_item found_item_span = found_item"
| "find_smallest_loop original_lineno (item # items) found_item found_item_span =
     (if size_of_int original_lineno < li_line_start item \<or> size_of_int original_lineno > li_line_end item
      then find_smallest_loop original_lineno items found_item found_item_span
      else if li_line_span item < size_of_int found_item_span
      then find_smallest_loop original_lineno items (Some item) (to_int32 (int (li_line_span item)))
      else find_smallest_loop original_lineno items found_item found_item_span)"

definition find_smallest_range :: "lines_list \<Rightarrow> brk_info \<Rightarrow> lines_map_item option" where
  "find_smallest_range lines b = find_smallest_loop (bi_original_lineno b) lines None XDEBUG_RESOLVED_SPAN_MAX"

text \<open>The outer \<open>None\<close> is a read outside the set, the inner one that no line was found.\<close>

function scan_following :: "lines_map_item \<Rightarrow> int \<Rightarrow> int \<Rightarrow> int option option" where
  "scan_following item original_lineno tmp =
     (let tmp_lineno = tmp + 1 in
      case xdebug_set_in (li_lines_breakable item) (uint_of_int tmp_lineno) of
        None \<Rightarrow> None
      | Some v \<Rightarrow>
          if v \<noteq> 0 then Some (Some tmp_lineno)
          else if size_of_int tmp_lineno < li_line_end item \<and> tmp_lineno < original_lineno + XDEBUG_DBGP_SCAN_RANGE
          then scan_following item original_lineno tmp_lineno
          else Some None)"
  by auto
termination by (relation "measure (\<lambda>(item, original_lineno, tmp). nat (original_lineno + XDEBUG_DBGP_SCAN_RANGE - tmp))") auto

function scan_previous :: "lines_map_item \<Rightarrow> int \<Rightarrow> int \<Rightarrow> int option option" where
  "scan_previous item original_lineno tmp =
     (let tmp_lineno = tmp - 1 in
      case xdebug_set_in (li_lines_breakable item) (uint_of_int tmp_lineno) of
        None \<Rightarrow> None
      | Some v \<Rightarrow>
          if v \<noteq> 0 then Some (Some tmp_lineno)
          else if size_of_int tmp_lineno > li_line_start item \<and> tmp_lineno > original_lineno - XDEBUG_DBGP_SCAN_RANGE
          then scan_previous item original_lineno tmp_lineno
          else Some None)"
  by auto
termination by (relation "measure (\<lambda>(item, original_lineno, tmp). nat (tmp - (original_lineno - XDEBUG_DBGP_SCAN_RANGE)))") auto

declare scan_following.simps [simp del] scan_previous.simps [simp del]

text \<open>The line a breakpoint resolves to: its own, a following one, a previous one, in this order.\<close>

definition resolved_line :: "lines_list \<Rightarrow> brk_info \<Rightarrow> int option option" where
  "resolved_line lines b =
     (case find_smallest_range lines b of
        None \<Rightarrow> Some None
      | Some item \<Rightarrow>
          do { v \<leftarrow> xdebug_set_in (li_lines_breakable item) (uint_of_int (bi_original_lineno b));
               if v \<noteq> 0 then Some (Some (bi_original_lineno b))
               else do {
                 fwd \<leftarrow> scan_following item (bi_original_lineno b) (bi_original_lineno b);
                 case fwd of
                   Some l \<Rightarrow> Some (Some l)
                 | None \<Rightarrow> scan_previous item (bi_original_lineno b) (bi_original_lineno b) } })"

definition line_breakpoint_resolve_helper :: "dbg_env \<Rightarrow> debugger \<Rightarrow> lines_list \<Rightarrow> nat \<Rightarrow> debugger option" where
  "line_breakpoint_resolve_helper env s lines a =
     do { b \<leftarrow> brk_at s a;
          r \<leftarrow> resolved_line lines b;
          case r of
            None \<Rightarrow> Some s
          | Some l \<Rightarrow> do {
              s1 \<leftarrow> brk_put s a (b\<lparr>bi_resolved_lineno := l, bi_resolved := True\<rparr>);
              xdebug_dbgp_resolved_breakpoint_notification env s1 a } }"

definition breakpoint_resolve_helper ::
  "dbg_env \<Rightarrow> string \<Rightarrow> lines_list \<Rightarrow> debugger option \<Rightarrow> hash_key \<times> brk_admin \<Rightarrow> debugger option" where
  "breakpoint_resolve_helper env filename lines st he =
     do { s \<leftarrow> st;
          ptr \<leftarrow> breakpoint_brk_info_fetch s (ba_type (snd he)) (ba_key (snd he));
          a \<leftarrow> ptr;
          b \<leftarrow> brk_at s a;
          if bi_resolved b then Some s
          else if bi_brk_type b = XDEBUG_BREAKPOINT_TYPE_LINE \<or> bi_brk_type b = XDEBUG_BREAKPOINT_TYPE_CONDITIONAL
          then (if bi_filename b \<noteq> Some filename then Some s else line_breakpoint_resolve_helper env s lines a)
          else Some s }"

definition xdebug_dbgp_resolve_breakpoints :: "dbg_env \<Rightarrow> debugger \<Rightarrow> string \<Rightarrow> (debugger \<times> bool) option" where
  "xdebug_dbgp_resolve_breakpoints env s filename =
     (case xdebug_hash_find (dbg_breakable_lines_map s) filename of
        None \<Rightarrow> Some (s, False)
      | Some lines \<Rightarrow>
          map_option (\<lambda>s1. (s1, True))
            (xdebug_hash_apply_with_argument (con_breakpoint_list s) (Some qsort_brk) (Some s)
               (breakpoint_resolve_helper env filename lines)))"


section \<open>breakpoint_set\<close>

definition breakpoint_type_value :: "string \<Rightarrow> int option" where
  "breakpoint_type_value name = map_of (map (\<lambda>(v, n). (n, v)) xdebug_breakpoint_types) name"

definition xdebug_debugger_set_has_line_breakpoints :: "function_stack_entry \<Rightarrow> function_stack_entry" where
  "xdebug_debugger_set_has_line_breakpoints fse =
     (if fse_has_line_breakpoints fse then fse else fse\<lparr>fse_has_line_breakpoints := True\<rparr>)"

definition mark_all_frames :: "debugger \<Rightarrow> debugger" where
  "mark_all_frames s = s\<lparr>dbg_stack := map xdebug_debugger_set_has_line_breakpoints (dbg_stack s)\<rparr>"

text \<open>
  The options the types share.  The result is the breakpoint and whether a macro returned early;
  the response carries the \<open>state\<close> attribute.
\<close>

definition set_common_options :: "xdebug_dbgp_arg \<Rightarrow> brk_info \<Rightarrow> xml_node \<Rightarrow> (brk_info \<times> xml_node \<times> bool) option" where
  "set_common_options args b retval =
     do { (b1, ok) \<leftarrow> update_choice args (CHR ''s'') BREAKPOINT_CHANGE_STATE b;
          if \<not> ok then Some (b1, retval, False)
          else do {
            ret1 \<leftarrow> (if CMD_OPTION_SET args (CHR ''s'')
                    then map_option (xdebug_xml_add_attribute retval ''state'') (CMD_OPTION_CHAR args (CHR ''s''))
                    else Some retval);
            (b2, ok2) \<leftarrow>
              (if CMD_OPTION_SET args (CHR ''o'') \<and> CMD_OPTION_SET args (CHR ''h'')
               then do { (b2, ok2) \<leftarrow> update_choice args (CHR ''o'') BREAKPOINT_CHANGE_OPERATOR b1;
                         if \<not> ok2 then Some (b2, False)
                         else map_option (\<lambda>b3. (b3, True))
                                (update_number args (CHR ''h'') (\<lambda>v b. b\<lparr>bi_hit_value := v\<rparr>) b2) }
               else Some (b1, True));
            if \<not> ok2 then Some (b2, ret1, False)
            else map_option (\<lambda>b3. (b3, ret1, True))
                   (update_number args (CHR ''r'') (\<lambda>v b. b\<lparr>bi_temporary := v\<rparr>) b2) } }"

definition set_finish :: "debugger \<Rightarrow> brk_info \<Rightarrow> xml_node \<Rightarrow> (debugger \<times> xml_node) option" where
  "set_finish s b retval =
     Some (s, breakpoint_brk_info_add_resolved s (xdebug_xml_add_attribute retval ''id'' (lu_of_int (bi_id b))) b)"

text \<open>The file name of a line breakpoint; the inner \<open>None\<close> is an empty stack.\<close>

definition set_line_filename :: "dbg_env \<Rightarrow> debugger \<Rightarrow> xdebug_dbgp_arg \<Rightarrow> string option option" where
  "set_line_filename env s args =
     (if \<not> CMD_OPTION_SET args (CHR ''f'')
      then (case stack_tail s of
              None \<Rightarrow> Some None
            | Some fse \<Rightarrow> map_option Some (xdebug_path_from_url (c_str (fse_filename fse))))
      else do { f \<leftarrow> CMD_OPTION_CHAR args (CHR ''f'');
                path \<leftarrow> xdebug_path_from_url f;
                Some (Some (case env_realpath env path of Some r \<Rightarrow> r | None \<Rightarrow> path)) })"

text \<open>Text that is not base64 decodes to NULL, which is no condition.\<close>

definition set_line_condition :: "xdebug_dbgp_arg \<Rightarrow> brk_info \<Rightarrow> brk_info option" where
  "set_line_condition args b =
     (if CMD_OPTION_SET args (CHR ''-'')
      then do { bytes \<leftarrow> CMD_OPTION_BYTES args (CHR ''-'');
                r \<leftarrow> xdebug_base64_decode bytes;
                Some (b\<lparr>bi_condition := map_option c_str r\<rparr>) }
      else Some b)"

definition set_line_insert ::
  "dbg_env \<Rightarrow> debugger \<Rightarrow> bool \<Rightarrow> nat \<Rightarrow> brk_info \<Rightarrow> xml_node \<Rightarrow> (debugger \<times> xml_node) option" where
  "set_line_insert env s is_line a b retval =
     do { filename \<leftarrow> bi_filename b;
          let tmp_name = c_str filename @ ''$'' @ lu_of_int (bi_original_lineno b)
          in if line_breakpoint_exists s tmp_name
             then do { s1 \<leftarrow> xdebug_brk_info_dtor s a; RETURN_RESULT s1 retval XDEBUG_ERROR_BREAKPOINT_NOT_SET }
             else
               (let (s1, ident) = breakpoint_admin_add env s
                       (if is_line then XDEBUG_BREAKPOINT_TYPE_LINE else XDEBUG_BREAKPOINT_TYPE_CONDITIONAL) tmp_name
                in do {
                  s2 \<leftarrow> brk_put s1 a (b\<lparr>bi_id := ident\<rparr>);
                  let s3 = s2\<lparr>con_line_breakpoints := con_line_breakpoints s2 @ [a]\<rparr>;
                  s4 \<leftarrow> (if con_resolved_breakpoints s3 \<noteq> 0
                        then (case xdebug_hash_find (dbg_breakable_lines_map s3) filename of
                                Some lines \<Rightarrow> line_breakpoint_resolve_helper env s3 lines a
                              | None \<Rightarrow> Some s3)
                        else Some s3);
                  b1 \<leftarrow> brk_at s4 a;
                  set_finish (mark_all_frames s4) b1 retval }) }"

definition set_line_breakpoint ::
  "dbg_env \<Rightarrow> debugger \<Rightarrow> xdebug_dbgp_arg \<Rightarrow> bool \<Rightarrow> nat \<Rightarrow> brk_info \<Rightarrow> xml_node \<Rightarrow> (debugger \<times> xml_node) option" where
  "set_line_breakpoint env s args is_line a b retval =
     (if \<not> CMD_OPTION_SET args (CHR ''n'') then RETURN_RESULT s retval XDEBUG_ERROR_INVALID_ARGS
      else do {
        b1 \<leftarrow> update_number args (CHR ''n'') (\<lambda>v b. b\<lparr>bi_original_lineno := v, bi_resolved_lineno := v\<rparr>) b;
        fname \<leftarrow> set_line_filename env s args;
        case fname of
          None \<Rightarrow> RETURN_RESULT s retval XDEBUG_ERROR_STACK_DEPTH_INVALID
        | Some f \<Rightarrow> do {
            b2 \<leftarrow> map_local_to_remote_replace s (b1\<lparr>bi_filename := Some f\<rparr>);
            b3 \<leftarrow> set_line_condition args b2;
            set_line_insert env s is_line a b3 retval } })"

definition function_key :: "bool \<Rightarrow> string option \<Rightarrow> string \<Rightarrow> string" where
  "function_key is_call cls m =
     (if is_call then ''C/'' else ''R/'') @ (case cls of Some c \<Rightarrow> c @ ''::'' | None \<Rightarrow> []) @ m"

definition set_function_breakpoint ::
  "dbg_env \<Rightarrow> debugger \<Rightarrow> xdebug_dbgp_arg \<Rightarrow> bool \<Rightarrow> nat \<Rightarrow> brk_info \<Rightarrow> xml_node \<Rightarrow> (debugger \<times> xml_node) option" where
  "set_function_breakpoint env s args is_call a b retval =
     (let ty = (if is_call then XDEBUG_BREAKPOINT_TYPE_CALL else XDEBUG_BREAKPOINT_TYPE_RETURN) in
      if \<not> CMD_OPTION_SET args (CHR ''m'') then RETURN_RESULT s retval XDEBUG_ERROR_INVALID_ARGS
      else do {
        m \<leftarrow> CMD_OPTION_CHAR args (CHR ''m'');
        let cls = (if CMD_OPTION_SET args (CHR ''a'') then CMD_OPTION_CHAR args (CHR ''a'') else None);
        let tmp_name = function_key is_call cls m;
        if xdebug_hash_find (con_function_breakpoints s) tmp_name \<noteq> None
        then RETURN_RESULT s retval XDEBUG_ERROR_BREAKPOINT_NOT_SET
        else do {
          s1 \<leftarrow> function_hash_set (xdebug_hash_add (con_function_breakpoints s) tmp_name a) s;
          let (s2, ident) = breakpoint_admin_add env s1 ty tmp_name;
          let b1 = b\<lparr>bi_function_break_type := ty, bi_functionname := Some m, bi_classname := cls,
                     bi_id := ident, bi_resolved := True\<rparr>;
          s3 \<leftarrow> brk_put s2 a b1;
          set_finish s3 b1 retval } })"

definition set_exception_breakpoint ::
  "dbg_env \<Rightarrow> debugger \<Rightarrow> xdebug_dbgp_arg \<Rightarrow> nat \<Rightarrow> brk_info \<Rightarrow> xml_node \<Rightarrow> (debugger \<times> xml_node) option" where
  "set_exception_breakpoint env s args a b retval =
     (if \<not> CMD_OPTION_SET args (CHR ''x'') then RETURN_RESULT s retval XDEBUG_ERROR_INVALID_ARGS
      else do {
        x \<leftarrow> CMD_OPTION_CHAR args (CHR ''x'');
        key \<leftarrow> CMD_OPTION_BYTES args (CHR ''x'');
        s1 \<leftarrow> exception_hash_set (xdebug_hash_add (con_exception_breakpoints s) key a) s;
        let (s2, ident) = breakpoint_admin_add env s1 XDEBUG_BREAKPOINT_TYPE_EXCEPTION x;
        let b1 = b\<lparr>bi_exceptionname := Some x, bi_id := ident, bi_resolved := True\<rparr>;
        s3 \<leftarrow> brk_put s2 a b1;
        set_finish s3 b1 retval })"

text \<open>
  The handler.  A block that an early return leaks keeps its first contents in the store: nothing
  points to it any more.
\<close>

definition xdebug_dbgp_handle_breakpoint_set ::
  "dbg_env \<Rightarrow> debugger \<Rightarrow> xdebug_dbgp_arg \<Rightarrow> xml_node \<Rightarrow> (debugger \<times> xml_node) option" where
  "xdebug_dbgp_handle_breakpoint_set env s0 args retval =
     (let (s, a) = brk_new s0 in
      if \<not> CMD_OPTION_SET args (CHR ''t'')
      then do { s1 \<leftarrow> xdebug_brk_info_dtor s a; RETURN_RESULT s1 retval XDEBUG_ERROR_INVALID_ARGS }
      else do {
        t \<leftarrow> CMD_OPTION_CHAR args (CHR ''t'');
        case breakpoint_type_value t of
          None \<Rightarrow> do { s1 \<leftarrow> xdebug_brk_info_dtor s a; RETURN_RESULT s1 retval XDEBUG_ERROR_INVALID_ARGS }
        | Some ty \<Rightarrow> do {
            (b, ret1, ok) \<leftarrow> set_common_options args (xdebug_brk_info_ctor\<lparr>bi_brk_type := ty\<rparr>) retval;
            if \<not> ok then RETURN_RESULT s ret1 XDEBUG_ERROR_INVALID_ARGS
            else if t = ''line'' \<or> t = ''conditional'' then set_line_breakpoint env s args (t = ''line'') a b ret1
            else if t = ''call'' \<or> t = ''return'' then set_function_breakpoint env s args (t = ''call'') a b ret1
            else if t = ''exception'' then set_exception_breakpoint env s args a b ret1
            else RETURN_RESULT s ret1 XDEBUG_ERROR_BREAKPOINT_TYPE_NOT_SUPPORTED } })"

end
