(* ===== verification/Xd_Dbgp_Io.thy ===== *)
theory Xd_Dbgp_Io
  imports Xd_Dbg_State Xd_Url
begin

text \<open>
  The wire of the debugger protocol in \<open>src/debugger/handler_dbgp.c\<close>: reading one command line from the
  socket, and framing a message.  A connection holds the bytes read so far and what the coming
  \<open>recv\<close> calls deliver; one call delivers at most 128 bytes of the next arrival.
\<close>

section \<open>Reading a line\<close>

definition DBGP_READ_BUFFER_SIZE :: nat where "DBGP_READ_BUFFER_SIZE = 128"
definition DBGP_MAX_PACKET_SIZE :: nat where "DBGP_MAX_PACKET_SIZE = 64 * 1024"

record fd_conn =
  fc_buffer :: string
  fc_socket :: "recv_event list"

text \<open>One \<open>recv\<close>: what it returns, and what is left for the next one.\<close>

fun recv_some :: "recv_event list \<Rightarrow> recv_event \<times> recv_event list" where
  "recv_some [] = (Recv_failed, [])"
| "recv_some (Recv s # evs) =
     (if length s \<le> DBGP_READ_BUFFER_SIZE then (Recv s, evs)
      else (Recv (take DBGP_READ_BUFFER_SIZE s), Recv (drop DBGP_READ_BUFFER_SIZE s) # evs))"
| "recv_some (ev # evs) = (ev, evs)"

definition events_size :: "recv_event list \<Rightarrow> nat" where
  "events_size evs = sum_list (map (\<lambda>ev. case ev of Recv s \<Rightarrow> Suc (length s) | _ \<Rightarrow> 1) evs)"

lemma recv_some_less: "evs \<noteq> [] \<Longrightarrow> events_size (snd (recv_some evs)) < events_size evs"
  by (cases evs rule: recv_some.cases) (auto simp: events_size_def DBGP_READ_BUFFER_SIZE_def)

lemma recv_some_decreases: "evs \<noteq> [] \<Longrightarrow> (ev, evs1) = recv_some evs \<Longrightarrow> events_size evs1 < events_size evs"
  using recv_some_less [of evs] by (metis snd_conv)

text \<open>
  The loop that fills the buffer until it ends in the delimiter.  The result \<open>None\<close> means that the
  buffer was thrown away: a failed or closed socket, or a packet over the limit.  An empty list of
  events is a closed socket.
\<close>

function fd_fill :: "char \<Rightarrow> string \<Rightarrow> recv_event list \<Rightarrow> string option \<times> recv_event list" where
  "fd_fill delim buf evs =
     (if buf \<noteq> [] \<and> last buf = delim then (Some buf, evs)
      else if evs = [] then (None, [])
      else (let (ev, evs1) = recv_some evs in
            case ev of
              Recv s \<Rightarrow>
                if s = [] then (None, evs1)
                else if length buf + length s + 1 > DBGP_MAX_PACKET_SIZE then (None, evs1)
                else fd_fill delim (buf @ s) evs1
            | Recv_interrupted \<Rightarrow> fd_fill delim buf evs1
            | Recv_failed \<Rightarrow> (None, evs1)))"
  by auto
termination
proof (relation "measure (\<lambda>(delim, buf, evs). events_size evs)")
qed (auto intro: recv_some_decreases)

declare fd_fill.simps [simp del]

definition xdebug_fd_read_line_delim :: "char \<Rightarrow> fd_conn \<Rightarrow> string option \<times> fd_conn" where
  "xdebug_fd_read_line_delim delim c =
     (case fd_fill delim (fc_buffer c) (fc_socket c) of
        (None, evs) \<Rightarrow> (None, \<lparr>fc_buffer = [], fc_socket = evs\<rparr>)
      | (Some buf, evs) \<Rightarrow>
          (let size = length (takeWhile (\<lambda>x. x \<noteq> delim) buf)
           in (Some (take size buf), \<lparr>fc_buffer = drop (size + 1) buf, fc_socket = evs\<rparr>)))"

section \<open>Lines come back as they were sent\<close>

text \<open>The bytes that are to come, and arrivals that carry something.\<close>

definition arriving :: "recv_event list \<Rightarrow> string" where
  "arriving evs = concat (map (\<lambda>ev. case ev of Recv s \<Rightarrow> s | _ \<Rightarrow> []) evs)"

definition arrivals_ok :: "recv_event list \<Rightarrow> bool" where
  "arrivals_ok evs \<longleftrightarrow> (\<forall>ev \<in> set evs. ev \<noteq> Recv_failed \<and> ev \<noteq> Recv [])"

lemma arriving_simps [simp]:
  "arriving [] = []" "arriving (Recv s # evs) = s @ arriving evs" "arriving (Recv_interrupted # evs) = arriving evs"
  "arriving (Recv_failed # evs) = arriving evs"
  by (simp_all add: arriving_def)

lemma arrivals_ok_simps [simp]:
  "arrivals_ok []" "arrivals_ok (Recv s # evs) \<longleftrightarrow> s \<noteq> [] \<and> arrivals_ok evs"
  "arrivals_ok (Recv_interrupted # evs) \<longleftrightarrow> arrivals_ok evs" "\<not> arrivals_ok (Recv_failed # evs)"
  by (auto simp: arrivals_ok_def)

lemma recv_some_ok:
  assumes "arrivals_ok evs" "evs \<noteq> []" "recv_some evs = (ev, evs1)"
  shows "arrivals_ok evs1 \<and> (case ev of Recv s \<Rightarrow> s \<noteq> [] \<and> arriving evs = s @ arriving evs1
    | Recv_interrupted \<Rightarrow> arriving evs = arriving evs1 | Recv_failed \<Rightarrow> False)"
  using assms by (cases evs rule: recv_some.cases) (auto simp: DBGP_READ_BUFFER_SIZE_def split: if_splits)

lemma fd_fill_reads:
  "arrivals_ok evs \<Longrightarrow> buf @ arriving evs = xs @ [delim] \<Longrightarrow> length (buf @ arriving evs) < DBGP_MAX_PACKET_SIZE \<Longrightarrow>
   \<exists>pre evs'. fd_fill delim buf evs = (Some (pre @ [delim]), evs') \<and> arrivals_ok evs' \<and>
     pre @ [delim] @ arriving evs' = buf @ arriving evs"
proof (induction delim buf evs rule: fd_fill.induct)
  case (1 delim buf evs)
  show ?case
  proof (cases "buf \<noteq> [] \<and> last buf = delim")
    case True
    then have "butlast buf @ [delim] = buf" by (metis append_butlast_last_id)
    with True "1.prems" show ?thesis by (subst fd_fill.simps) (metis append.assoc)
  next
    case False
    with "1.prems"(2) have ne: "evs \<noteq> []" by auto
    obtain ev evs1 where r: "recv_some evs = (ev, evs1)" by fastforce
    note ok = recv_some_ok [OF "1.prems"(1) ne r]
    show ?thesis
    proof (cases ev)
      case (Recv s)
      with ok "1.prems"(3) have "length buf + length s + 1 \<le> DBGP_MAX_PACKET_SIZE" "s \<noteq> []" by auto
      with "1.IH"(1) [OF False ne refl r [symmetric] Recv] ok Recv "1.prems" False ne r show ?thesis
        by (subst fd_fill.simps) auto
    next
      case Recv_interrupted
      with "1.IH"(2) [OF False ne refl r [symmetric] Recv_interrupted] ok "1.prems" False ne r show ?thesis
        by (subst fd_fill.simps) auto
    next
      case Recv_failed
      with ok show ?thesis by simp
    qed
  qed
qed

lemma fd_fill_silent: "delim \<notin> set buf \<Longrightarrow> delim \<notin> set (arriving evs) \<Longrightarrow> fst (fd_fill delim buf evs) = None"
proof (induction delim buf evs rule: fd_fill.induct)
  case (1 delim buf evs)
  show ?case
  proof (cases "evs = []")
    case True
    with "1.prems" show ?thesis by (subst fd_fill.simps) auto
  next
    case False
    have nb: "\<not> (buf \<noteq> [] \<and> last buf = delim)" using "1.prems"(1) by auto
    obtain ev evs1 where r: "recv_some evs = (ev, evs1)" by fastforce
    have a: "set (arriving evs1) \<subseteq> set (arriving evs)" "\<And>s. ev = Recv s \<Longrightarrow> set s \<subseteq> set (arriving evs)"
      using r by (cases evs rule: recv_some.cases; auto simp: DBGP_READ_BUFFER_SIZE_def dest: in_set_takeD in_set_dropD split: if_splits)+
    with "1.prems" "1.IH"(1) [OF nb False refl r [symmetric]] "1.IH"(2) [OF nb False refl r [symmetric]] nb False r
    show ?thesis by (subst fd_fill.simps) (auto split: recv_event.split)
  qed
qed

text \<open>Reading several lines.\<close>

fun read_packets :: "nat \<Rightarrow> fd_conn \<Rightarrow> string list \<times> fd_conn" where
  "read_packets 0 c = ([], c)"
| "read_packets (Suc n) c =
     (case xdebug_fd_read_line_delim NUL c of
        (None, c1) \<Rightarrow> ([], c1)
      | (Some l, c1) \<Rightarrow> (case read_packets n c1 of (ls, c2) \<Rightarrow> (l # ls, c2)))"

definition packets :: "string list \<Rightarrow> string" where
  "packets ms = concat (map (\<lambda>m. m @ [NUL]) ms)"

lemma packets_snoc: "ms \<noteq> [] \<Longrightarrow> \<exists>xs. packets ms = xs @ [NUL]"
  by (cases ms rule: rev_cases) (simp_all add: packets_def)

lemma read_line_packet:
  assumes "arrivals_ok (fc_socket c)" "fc_buffer c @ arriving (fc_socket c) = packets (m # ms)" "is_cstr m"
    "length (packets (m # ms)) < DBGP_MAX_PACKET_SIZE"
  shows "\<exists>c'. xdebug_fd_read_line_delim NUL c = (Some m, c') \<and> arrivals_ok (fc_socket c') \<and>
    fc_buffer c' @ arriving (fc_socket c') = packets ms"
proof -
  obtain xs where "packets (m # ms) = xs @ [NUL]" using packets_snoc by blast
  with fd_fill_reads [OF assms(1), of "fc_buffer c" xs NUL] assms(2,4) obtain pre evs' where f:
    "fd_fill NUL (fc_buffer c) (fc_socket c) = (Some (pre @ [NUL]), evs')" "arrivals_ok evs'"
    "pre @ [NUL] @ arriving evs' = packets (m # ms)"
    by metis
  then have f3: "pre @ NUL # arriving evs' = m @ NUL # packets ms" by (simp add: packets_def)
  have n: "NUL \<notin> set m" using assms(3) by (simp add: is_cstr_def)
  obtain us where us: "pre @ [NUL] = m @ NUL # us" "us @ arriving evs' = packets ms"
  proof -
    from f3 consider (eq) "pre = m" "arriving evs' = packets ms"
      | (longer) ws where "pre = m @ NUL # ws" "ws @ NUL # arriving evs' = packets ms"
      using n by (auto simp: append_eq_append_conv2 Cons_eq_append_conv append_eq_Cons_conv)
    then show thesis by cases (use that in \<open>auto intro: that [of "_ @ [NUL]"]\<close>)
  qed
  have "takeWhile (\<lambda>x. x \<noteq> NUL) (m @ NUL # us) = m"
    using n by (auto simp: takeWhile_tail intro: takeWhile_append2 [THEN trans])
  with f(1,2) us show ?thesis by (simp add: xdebug_fd_read_line_delim_def)
qed

lemma read_packets_all:
  "arrivals_ok (fc_socket c) \<Longrightarrow> fc_buffer c @ arriving (fc_socket c) = packets ms \<Longrightarrow> \<forall>m \<in> set ms. is_cstr m \<Longrightarrow>
   length (packets ms) < DBGP_MAX_PACKET_SIZE \<Longrightarrow>
   \<exists>c'. read_packets (length ms) c = (ms, c') \<and> fc_buffer c' = [] \<and> arriving (fc_socket c') = []"
proof (induction ms arbitrary: c)
  case (Cons m ms)
  obtain c' where c': "xdebug_fd_read_line_delim NUL c = (Some m, c')" "arrivals_ok (fc_socket c')"
    "fc_buffer c' @ arriving (fc_socket c') = packets ms"
    using read_line_packet [OF Cons.prems(1,2)] Cons.prems(3,4) by auto
  from Cons.IH [OF c'(2,3)] Cons.prems(3,4) c'(1) show ?case by (auto simp: packets_def)
qed (simp add: packets_def)

section \<open>Each line read uses up bytes\<close>

definition conn_size :: "fd_conn \<Rightarrow> nat" where
  "conn_size c = length (fc_buffer c) + events_size (fc_socket c)"

lemma recv_some_size: "evs \<noteq> [] \<Longrightarrow> recv_some evs = (Recv s, evs1) \<Longrightarrow> length s + events_size evs1 \<le> events_size evs"
  by (cases evs rule: recv_some.cases) (auto simp: events_size_def DBGP_READ_BUFFER_SIZE_def split: if_splits)

lemma fd_fill_size:
  "fd_fill delim buf evs = (Some b, evs') \<Longrightarrow> b \<noteq> [] \<and> length b + events_size evs' \<le> length buf + events_size evs"
proof (induction delim buf evs rule: fd_fill.induct)
  case (1 delim buf evs)
  show ?case
  proof (cases "buf \<noteq> [] \<and> last buf = delim")
    case True
    with "1.prems" show ?thesis by (subst (asm) fd_fill.simps) auto
  next
    case False
    with "1.prems" have ne: "evs \<noteq> []" by (subst (asm) fd_fill.simps) auto
    obtain ev evs1 where r: "recv_some evs = (ev, evs1)" by fastforce
    have "events_size evs1 < events_size evs" using recv_some_less [OF ne] r by simp
    with "1.IH"(1) [OF False ne refl r [symmetric]] "1.IH"(2) [OF False ne refl r [symmetric]] "1.prems" False ne r
      recv_some_size [OF ne]
    show ?thesis by (subst (asm) (3) fd_fill.simps) (fastforce split: recv_event.splits if_splits)
  qed
qed

lemma read_line_decreases: "xdebug_fd_read_line_delim delim c = (Some l, c') \<Longrightarrow> conn_size c' < conn_size c"
proof -
  assume "xdebug_fd_read_line_delim delim c = (Some l, c')"
  then obtain b where b: "fd_fill delim (fc_buffer c) (fc_socket c) = (Some b, fc_socket c')"
    and c': "length (fc_buffer c') = length b - Suc (length (takeWhile (\<lambda>x. x \<noteq> delim) b))"
    by (auto simp: xdebug_fd_read_line_delim_def Let_def split: prod.splits option.splits)
  from fd_fill_size [OF b] have "0 < length b" by simp
  with c' have "length (fc_buffer c') < length b" by linarith
  with fd_fill_size [OF b] show ?thesis by (simp add: conn_size_def)
qed

section \<open>Messages\<close>

definition xml_prolog :: string where
  "xml_prolog = ''<?xml version='' @ [DQUOTE] @ ''1.0'' @ [DQUOTE] @ '' encoding='' @ [DQUOTE] @ ''iso-8859-1'' @ [DQUOTE] @ ''?>'' @ [NEWLINE]"

definition make_message :: "xml_node \<Rightarrow> string option" where
  "make_message message =
     map_option (\<lambda>xml_message. dec (length xml_message + length xml_prolog) @ [NUL] @ xml_prolog @ c_str xml_message @ [NUL])
       (xdebug_xml_return_node message)"

text \<open>How a client reads a frame: the decimal length, then so many bytes, each part ended by NUL.\<close>

definition frame_read :: "string \<Rightarrow> (string \<times> string) option" where
  "frame_read s =
     (let d = takeWhile (\<lambda>c. c \<noteq> NUL) s; n = digits_val 0 d; body = drop (length d + 1) s
      in if list_all isdigit d \<and> n < length body \<and> body ! n = NUL then Some (take n body, drop (n + 1) body) else None)"

text \<open>The tags of the messages are constants of the code; attribute names and values are escaped.\<close>

fun xml_tags_ok :: "xml_node \<Rightarrow> bool" where
  "xml_tags_ok (XmlNode tag tx attrs children) \<longleftrightarrow> is_cstr tag \<and> list_all xml_tags_ok children"

lemma is_cstr_simps: "is_cstr []" "is_cstr (c # s) \<longleftrightarrow> c \<noteq> NUL \<and> is_cstr s" "is_cstr (s @ u) \<longleftrightarrow> is_cstr s \<and> is_cstr u"
  by (auto simp: is_cstr_def)

lemma escape_cstr: "is_cstr (concat (map xml_escape s))"
  using xml_escape_safe by (fastforce simp: is_cstr_def)

lemma attr_text_cstr: "is_cstr (concat (map attr_text as))"
  by (induction as) (simp_all add: attr_text_def is_cstr_simps escape_cstr)

lemma base64_cstr: "is_cstr (base64_encode_impl s)"
proof -
  have "NUL \<notin> insert base64_pad ((\<lambda>k. base64_table ! k) ` {..<64})"
  proof -
    have "\<forall>k \<in> set [0..<64]. base64_table ! k \<noteq> NUL" by code_simp
    then show ?thesis by (auto simp: base64_pad_def)
  qed
  then show ?thesis using base64_encode_chars [of s] by (auto simp: is_cstr_def)
qed

lemma return_text_node_cstr: "is_cstr (xdebug_xml_return_text_node tn)"
  by (simp add: xdebug_xml_return_text_node_def is_cstr_simps xdebug_base64_encode_def Let_def base64_cstr)

lemma those_SomeD: "those xs = Some ys \<Longrightarrow> xs = map Some ys"
  by (induction xs arbitrary: ys) (auto split: option.splits)

lemma return_node_cstr: "xml_tags_ok n \<Longrightarrow> xdebug_xml_return_node n = Some s \<Longrightarrow> is_cstr s"
proof (induction n arbitrary: s rule: xdebug_xml_return_node.induct)
  case (1 tag tx attrs children)
  from 1(3) obtain a cs where a: "is_cstr a" and cs: "those (map xdebug_xml_return_node children) = Some cs"
    and s: "s = ''<'' @ tag @ a @ ''>'' @ concat cs @ (case tx of Some t \<Rightarrow> xdebug_xml_return_text_node t | None \<Rightarrow> []) @ ''</'' @ tag @ ''>''"
    by (cases tx) (auto simp: Let_def xml_return_attribute intro: attr_text_cstr split: option.splits prod.splits)
  have "is_cstr c" if "c \<in> set cs" for c
  proof -
    from those_SomeD [OF cs] that obtain ch where "ch \<in> set children" "xdebug_xml_return_node ch = Some c"
      by (metis (no_types, lifting) image_iff list.set_map)
    with 1(1,2) show ?thesis by (auto simp: list_all_iff)
  qed
  then have "is_cstr (concat cs)" by (auto simp: is_cstr_def)
  with a 1(2) s show ?case
    by (cases tx) (simp_all add: is_cstr_simps return_text_node_cstr)
qed

lemma frame_round_trip:
  assumes "xml_tags_ok n"
  shows "\<exists>x f. xdebug_xml_return_node n = Some x \<and> make_message n = Some f \<and> frame_read (f @ rest) = Some (xml_prolog @ x, rest)"
proof -
  obtain x where x: "xdebug_xml_return_node n = Some x" using xml_return_node_total by blast
  have c: "c_str x = x" using return_node_cstr [OF assms x] by simp
  let ?d = "dec (length x + length xml_prolog)"
  have dig: "list_all isdigit ?d" using dec_digits by (auto simp: list_all_iff)
  have nz: "\<forall>c \<in> set ?d. c \<noteq> NUL" using dec_digits [of NUL] by (auto simp: isdigit_def ord_vals)
  then have t: "takeWhile (\<lambda>c. c \<noteq> NUL) (?d @ NUL # r) = ?d" for r by (simp add: takeWhile_append2)
  define b where "b = xml_prolog @ x"
  have f: "frame_read (dec (length b) @ [NUL] @ b @ [NUL] @ rest) = Some (b, rest)"
    using t dig by (simp add: frame_read_def Let_def digits_val_dec b_def add.commute nth_append)
  show ?thesis
    using x c f by (simp add: make_message_def b_def add.commute)
qed

end
