(* ===== verification/Xd_Dbgp_Cmds.thy ===== *)
theory Xd_Dbgp_Cmds
  imports Xd_Breakpoints Xd_Dbgp_Io Xd_Format
begin

text \<open>
  The command handlers of \<open>src/debugger/handler_dbgp.c\<close> that are not about breakpoints, with the helpers
  of \<open>debugger.c\<close> they share with the stepping code.  As in \<open>Xd_Breakpoints\<close>, a handler maps the state, the
  options and the response to the new state and response, and \<open>None\<close> is an access outside an object.
\<close>

section \<open>Locations\<close>

text \<open>Code from \<open>eval\<close> is known to the client as \<open>dbgp://\<close> and a number.\<close>

definition eval_marker :: string where
  "eval_marker = ''eval()'' @ [CHR 0x27] @ ''d code''"

definition xdebug_debugger_check_evaled_code :: "debugger \<Rightarrow> string option \<Rightarrow> string option" where
  "xdebug_debugger_check_evaled_code s filename_in =
     (case filename_in of
        None \<Rightarrow> None
      | Some f \<Rightarrow>
          if length eval_marker \<le> length f \<and> drop (length f - length eval_marker) f = eval_marker
          then map_option (\<lambda>ei. ''dbgp://'' @ lu_of_int (ei_id ei)) (xdebug_hash_find (con_eval_id_lookup s) f)
          else None)"

definition XDEBUG_PATH_MAP_RESULT_OK :: int where "XDEBUG_PATH_MAP_RESULT_OK = 0"
definition XDEBUG_PATH_MAP_RESULT_SKIP :: int where "XDEBUG_PATH_MAP_RESULT_SKIP = 1"
definition XDEBUG_PATH_MAP_RESULT_UNKNOWN :: int where "XDEBUG_PATH_MAP_RESULT_UNKNOWN = 2"

text \<open>A mapped location without a local path would go through NULL when it is logged.\<close>

definition xdebug_debugger_map_remote_to_local :: "debugger \<Rightarrow> string \<Rightarrow> int \<Rightarrow> (int \<times> string \<times> nat) option" where
  "xdebug_debugger_map_remote_to_local s remote_filename remote_lineno =
     (case dbg_path_maps s of
        None \<Rightarrow> Some (XDEBUG_PATH_MAP_RESULT_UNKNOWN, remote_filename, size_of_int remote_lineno)
      | Some maps \<Rightarrow>
          (case remote_to_local maps (c_str remote_filename) (size_of_int remote_lineno) of
             None \<Rightarrow> None
           | Some (result, location) \<Rightarrow>
               if result = XDEBUG_PATH_MAP_TYPE_UNKNOWN
               then Some (XDEBUG_PATH_MAP_RESULT_UNKNOWN, remote_filename, size_of_int remote_lineno)
               else if odd (result div XDEBUG_PATH_MAP_FLAGS_SKIP)
               then Some (XDEBUG_PATH_MAP_RESULT_SKIP, remote_filename, size_of_int remote_lineno)
               else (case location of
                       Some (Some local_path, local_line) \<Rightarrow> Some (XDEBUG_PATH_MAP_RESULT_OK, local_path, local_line)
                     | _ \<Rightarrow> None)))"

definition add_path_map_action_facet :: "xml_node \<Rightarrow> int \<Rightarrow> xml_node" where
  "add_path_map_action_facet container action =
     (if action = XDEBUG_PATH_MAP_RESULT_SKIP
      then xdebug_xml_expand_attribute_value container ''xdebug:facet'' ''skipped''
      else if action = XDEBUG_PATH_MAP_RESULT_OK
      then xdebug_xml_expand_attribute_value container ''xdebug:facet'' ''mapped''
      else container)"

section \<open>Evaluation\<close>

text \<open>
  \<open>xdebug_do_eval\<close>: what the code does to the debugger's own state.  It leaves breakpoints allowed and
  notifications on, whatever they were before.
\<close>

definition xdebug_do_eval :: "dbg_env \<Rightarrow> debugger \<Rightarrow> string \<Rightarrow> debugger \<times> eval_result" where
  "xdebug_do_eval env s eval_string =
     (s\<lparr>con_inhibit_notifications := False, dbg_breakpoints_allowed := True, dbg_suppress_return_value_step := False\<rparr>,
      env_eval env (c_str eval_string))"

definition RETURN_RESULT_WITH_MESSAGE :: "debugger \<Rightarrow> xml_node \<Rightarrow> int \<Rightarrow> string \<Rightarrow> debugger \<times> xml_node" where
  "RETURN_RESULT_WITH_MESSAGE s retval c m =
     (s, xdebug_xml_add_child
           (xdebug_xml_add_attribute
              (xdebug_xml_add_attribute retval ''status'' (xdebug_dbgp_status_strings (dbg_status s)))
              ''reason'' (xdebug_dbgp_reason_strings (dbg_reason s)))
           (xdebug_xml_add_child (xdebug_xml_add_attribute (xdebug_xml_node_init ''error'') ''code'' (dec (nat c)))
              (xdebug_xml_add_text (xdebug_xml_node_init ''message'') m)))"

text \<open>\<open>options->runtime[0].page = v\<close>; the options may be freed, the array empty.\<close>

definition set_page :: "debugger \<Rightarrow> int \<Rightarrow> debugger option" where
  "set_page s v =
     do { opts \<leftarrow> con_options s;
          if opt_runtime opts = [] then None
          else Some (s\<lparr>con_options := Some (opts\<lparr>opt_runtime := (opt_runtime opts)[0 := v]\<rparr>)\<rparr>) }"

definition xdebug_dbgp_handle_eval :: "dbg_env \<Rightarrow> debugger \<Rightarrow> xdebug_dbgp_arg \<Rightarrow> xml_node \<Rightarrow> (debugger \<times> xml_node) option" where
  "xdebug_dbgp_handle_eval env s args retval =
     (if \<not> CMD_OPTION_SET args (CHR ''-'') then RETURN_RESULT s retval XDEBUG_ERROR_INVALID_ARGS
      else do {
        page \<leftarrow> (if CMD_OPTION_SET args (CHR ''p'') then map_option strtol_int (CMD_OPTION_CHAR args (CHR ''p'')) else Some 0);
        s1 \<leftarrow> set_page s page;
        bytes \<leftarrow> CMD_OPTION_BYTES args (CHR ''-'');
        decoded \<leftarrow> xdebug_base64_decode bytes;
        msg \<leftarrow> error_message_from_code XDEBUG_ERROR_EVALUATING_CODE;
        case decoded of
          None \<Rightarrow> Some (RETURN_RESULT_WITH_MESSAGE s1 retval XDEBUG_ERROR_EVALUATING_CODE
                         (msg @ '': '' @ ''invalid base64-encoded data value''))
        | Some eval_string \<Rightarrow>
            (case xdebug_do_eval env s1 eval_string of
               (s2, Eval_failed (Some return_message)) \<Rightarrow>
                 Some (RETURN_RESULT_WITH_MESSAGE s2 retval XDEBUG_ERROR_EVALUATING_CODE (msg @ '': '' @ c_str return_message))
             | (s2, Eval_failed None) \<Rightarrow> RETURN_RESULT s2 retval XDEBUG_ERROR_EVALUATING_CODE
             | (s2, Eval_value is_true v) \<Rightarrow>
                 map_option (\<lambda>opts. (s2, xdebug_xml_add_child retval (v opts))) (con_options s2)) })"

section \<open>Streams\<close>

definition xdebug_send_stream :: "debugger \<Rightarrow> string \<Rightarrow> string \<Rightarrow> debugger" where
  "xdebug_send_stream s name str =
     (if \<not> dbg_connection_enabled s then s
      else send_message s
             (xdebug_xml_add_text_ex (xdebug_xml_add_attribute (dbgp_node ''stream'') ''type'' name) str True))"

definition xdebug_dbgp_handle_stderr :: "debugger \<Rightarrow> xml_node \<Rightarrow> (debugger \<times> xml_node) option" where
  "xdebug_dbgp_handle_stderr s retval = Some (s, xdebug_xml_add_attribute retval ''success'' ''0'')"

definition xdebug_dbgp_handle_stdout :: "debugger \<Rightarrow> xdebug_dbgp_arg \<Rightarrow> xml_node \<Rightarrow> (debugger \<times> xml_node) option" where
  "xdebug_dbgp_handle_stdout s args retval =
     (if \<not> CMD_OPTION_SET args (CHR ''c'') then RETURN_RESULT s retval XDEBUG_ERROR_INVALID_ARGS
      else do { c \<leftarrow> CMD_OPTION_CHAR args (CHR ''c'');
                Some (s\<lparr>dbg_stdout_mode := strtol_int c\<rparr>, xdebug_xml_add_attribute retval ''success'' ''1'') })"

text \<open>Whether the hook of the output writer passes the text on: \<open>-1\<close> keeps it back.\<close>

definition xdebug_dbgp_stream_output :: "debugger \<Rightarrow> string \<Rightarrow> debugger \<times> int" where
  "xdebug_dbgp_stream_output s str =
     (if (dbg_stdout_mode s = 1 \<or> dbg_stdout_mode s = 2) \<and> str \<noteq> [] then xdebug_send_stream s ''stdout'' str else s,
      if dbg_stdout_mode s = 0 \<or> dbg_stdout_mode s = 1 then 0 else -1)"

text \<open>The text that reaches the original writer.\<close>

definition xdebug_ub_write :: "debugger \<Rightarrow> string \<Rightarrow> debugger \<times> string" where
  "xdebug_ub_write s str =
     (if dbg_connection_enabled s
      then (case xdebug_dbgp_stream_output s str of (s1, r) \<Rightarrow> if r = -1 then (s1, []) else (s1, str))
      else (s, str))"

section \<open>Continuation commands\<close>

definition status_reason :: "debugger \<Rightarrow> dbgp_status \<Rightarrow> xml_node \<Rightarrow> xml_node" where
  "status_reason s st xml =
     xdebug_xml_add_attribute (xdebug_xml_add_attribute xml ''status'' (xdebug_dbgp_status_strings st))
       ''reason'' (xdebug_dbgp_reason_strings (dbg_reason s))"

definition xdebug_dbgp_handle_stop :: "debugger \<Rightarrow> xml_node \<Rightarrow> (debugger \<times> xml_node) option" where
  "xdebug_dbgp_handle_stop s retval = Some (s\<lparr>dbg_status := DBGP_STATUS_STOPPED\<rparr>, status_reason s DBGP_STATUS_STOPPED retval)"

definition xdebug_dbgp_handle_run :: "debugger \<Rightarrow> xml_node \<Rightarrow> (debugger \<times> xml_node) option" where
  "xdebug_dbgp_handle_run s retval =
     map_option (\<lambda>name. (s, xdebug_xml_add_attribute retval ''filename'' (c_str name))) (con_program_name s)"

definition xdebug_dbgp_handle_step_into :: "debugger \<Rightarrow> xml_node \<Rightarrow> (debugger \<times> xml_node) option" where
  "xdebug_dbgp_handle_step_into s retval =
     Some (s\<lparr>con_do_next := False, con_do_step := True, con_do_finish := False\<rparr>, retval)"

definition xdebug_dbgp_handle_step_out :: "debugger \<Rightarrow> xml_node \<Rightarrow> (debugger \<times> xml_node) option" where
  "xdebug_dbgp_handle_step_out s retval =
     (let s1 = s\<lparr>con_do_next := False, con_do_step := False, con_do_finish := True\<rparr> in
      Some (case stack_tail s1 of
              Some fse \<Rightarrow> s1\<lparr>con_finish_level := fse_level fse, con_finish_func_nr := fse_function_nr fse\<rparr>
            | None \<Rightarrow> s1\<lparr>con_finish_level := -1, con_finish_func_nr := -1\<rparr>, retval))"

definition xdebug_dbgp_handle_step_over :: "debugger \<Rightarrow> xml_node \<Rightarrow> (debugger \<times> xml_node) option" where
  "xdebug_dbgp_handle_step_over s retval =
     (let s1 = s\<lparr>con_do_next := True, con_do_step := False, con_do_finish := False\<rparr> in
      Some (case stack_tail s1 of
              Some fse \<Rightarrow> s1\<lparr>con_next_level := fse_level fse, con_next_stack := Some (dbg_stack_id s1)\<rparr>
            | None \<Rightarrow> s1\<lparr>con_next_level := 0, con_next_stack := None\<rparr>, retval))"

section \<open>The end of a session\<close>

text \<open>
  \<open>xdebug_dbgp_deinit\<close> in three parts: the announcement, the command loop (not when the client detached;
  it is in \<open>Xd_Dbgp\<close>), and the release of the session's tables.  Freeing a breakpoint twice, or tables that
  are not there, is \<open>None\<close>.
\<close>

definition last_command :: "debugger \<Rightarrow> xml_node \<Rightarrow> xml_node" where
  "last_command s xml =
     (case (dbg_lastcmd s, dbg_lasttransid s) of
        (Some cmd, Some i) \<Rightarrow> xdebug_xml_add_attribute (xdebug_xml_add_attribute xml ''command'' cmd) ''transaction_id'' i
      | _ \<Rightarrow> xml)"

definition deinit_announce :: "debugger \<Rightarrow> debugger" where
  "deinit_announce s =
     (if \<not> dbg_connection_enabled s then s
      else (let s1 = s\<lparr>dbg_status := DBGP_STATUS_STOPPING, dbg_reason := DBGP_REASON_OK\<rparr>
            in send_message s1 (status_reason s1 (dbg_status s1) (last_command s1 (dbgp_node ''response'')))))"

definition release_tables :: "debugger \<Rightarrow> debugger option" where
  "release_tables s =
     do { opts \<leftarrow> con_options s;
          s1 \<leftarrow> brk_dtor_all s (xdebug_hash_destroy (con_function_breakpoints s));
          s2 \<leftarrow> brk_dtor_all s1 (xdebug_hash_destroy (con_exception_breakpoints s1));
          s3 \<leftarrow> brk_dtor_all s2 (rev (con_line_breakpoints s2));
          Some (s3\<lparr>con_options := None\<rparr>) }"

definition deinit_release :: "debugger \<Rightarrow> debugger option" where
  "deinit_release s =
     map_option (\<lambda>s1. s1\<lparr>dbg_lasttransid := None, dbg_connection_enabled := False\<rparr>)
       (if dbg_connection_enabled s then release_tables s else Some s)"

definition detach_message :: "string \<Rightarrow> string \<Rightarrow> string option" where
  "detach_message bytes c =
     map_option (\<lambda>r. case r of Some new_value \<Rightarrow> if xdebug_is_printable new_value then c_str new_value else c
                             | None \<Rightarrow> c)
       (xdebug_base64_decode bytes)"

definition xdebug_dbgp_handle_detach :: "debugger \<Rightarrow> xdebug_dbgp_arg \<Rightarrow> xml_node \<Rightarrow> (debugger \<times> xml_node) option" where
  "xdebug_dbgp_handle_detach s args retval =
     (let ret1 = status_reason s DBGP_STATUS_STOPPED retval in
      do { s1 \<leftarrow> deinit_release (deinit_announce (s\<lparr>dbg_status := DBGP_STATUS_DETACHED\<rparr>));
           let s2 = s1\<lparr>dbg_connection_enabled := False, dbg_stdout_mode := 0, dbg_detached := True\<rparr>;
           if CMD_OPTION_SET args (CHR ''-'')
           then do { bytes \<leftarrow> CMD_OPTION_BYTES args (CHR ''-'');
                     c \<leftarrow> CMD_OPTION_CHAR args (CHR ''-'');
                     if bytes = [] then Some (s2, ret1)
                     else do { m \<leftarrow> detach_message bytes c; Some (s2\<lparr>con_detached_message := Some m\<rparr>, ret1) } }
           else Some (s2, ret1) })"

section \<open>Features\<close>

definition DBGP_VERSION :: string where "DBGP_VERSION = ''1.0''"

definition XDEBUG_ERROR_ENCODING_NOT_SUPPORTED :: int where "XDEBUG_ERROR_ENCODING_NOT_SUPPORTED = 900"
definition XDEBUG_ERROR_PROFILING_NOT_STARTED :: int where "XDEBUG_ERROR_PROFILING_NOT_STARTED = 800"

definition feature_result :: "string option \<Rightarrow> string \<Rightarrow> xml_node \<Rightarrow> xml_node" where
  "feature_result value supported retval =
     xdebug_xml_add_attribute (case value of Some v \<Rightarrow> xdebug_xml_add_text retval v | None \<Rightarrow> retval) ''supported'' supported"

text \<open>The features with a value that can be set; the code prints each \<open>int\<close> with \<open>%ld\<close>.\<close>

definition feature_number :: "debugger \<Rightarrow> var_export_options \<Rightarrow> string \<Rightarrow> int option" where
  "feature_number s opts name =
     map_of
       [(''max_children'', opt_max_children opts), (''max_data'', opt_max_data opts), (''max_depth'', opt_max_depth opts),
        (''show_hidden'', opt_show_hidden opts), (''extended_properties'', opt_extended_properties opts),
        (''notify_ok'', con_send_notifications s), (''resolved_breakpoints'', con_resolved_breakpoints s),
        (''breakpoint_details'', con_breakpoint_details s), (''breakpoint_include_return_value'', con_include_return_value s),
        (''virtual_exception_value'', con_virtual_exception_value s)] name"

definition feature_constant :: "dbg_env \<Rightarrow> string \<Rightarrow> (string option \<times> string) option" where
  "feature_constant env name =
     map_of
       [(''breakpoint_languages'', (None, ''0'')),
        (''breakpoint_types'', (Some ''line conditional call return exception'', ''1'')),
        (''data_encoding'', (None, ''0'')),
        (''encoding'', (Some ''iso-8859-1'', ''1'')),
        (''language_name'', (Some ''PHP'', ''1'')),
        (''language_supports_threads'', (Some ''0'', ''1'')),
        (''multiple_sessions'', (Some ''0'', ''1'')),
        (''language_version'', (Some (env_php_version env), ''1'')),
        (''protocol_version'', (Some DBGP_VERSION, ''1'')),
        (''supported_encodings'', (Some ''iso-8859-1'', ''1'')),
        (''supports_async'', (Some ''0'', ''1'')),
        (''supports_postmortem'', (Some ''1'', ''1''))] name"

text \<open>The last argument tells which commands exist; see \<open>lookup_cmd\<close>.\<close>

definition xdebug_dbgp_handle_feature_get ::
  "dbg_env \<Rightarrow> (string \<Rightarrow> bool) \<Rightarrow> debugger \<Rightarrow> xdebug_dbgp_arg \<Rightarrow> xml_node \<Rightarrow> (debugger \<times> xml_node) option" where
  "xdebug_dbgp_handle_feature_get env command_exists s args retval =
     (if \<not> CMD_OPTION_SET args (CHR ''n'') then RETURN_RESULT s retval XDEBUG_ERROR_INVALID_ARGS
      else do {
        n \<leftarrow> CMD_OPTION_CHAR args (CHR ''n'');
        opts \<leftarrow> con_options s;
        let ret1 = xdebug_xml_add_attribute retval ''feature_name'' n;
        Some (s,
          case feature_constant env n of
            Some (v, supported) \<Rightarrow> feature_result v supported ret1
          | None \<Rightarrow>
              (case feature_number s opts n of
                 Some v \<Rightarrow> feature_result (Some (lu_of_int v)) ''1'' ret1
               | None \<Rightarrow> (let b = (if command_exists n then ''1'' else ''0'') in feature_result (Some b) b ret1))) })"

text \<open>A negative depth asks for more memory than there is; the array is then NULL.\<close>

definition set_max_depth :: "int \<Rightarrow> var_export_options \<Rightarrow> var_export_options" where
  "set_max_depth v opts = opts\<lparr>opt_max_depth := v, opt_runtime := replicate (nat v) 0\<rparr>"

definition feature_update :: "string \<Rightarrow> int \<Rightarrow> var_export_options \<Rightarrow> debugger \<Rightarrow> debugger option" where
  "feature_update name v opts s =
     (if name = ''max_children'' then Some (s\<lparr>con_options := Some (opts\<lparr>opt_max_children := v\<rparr>)\<rparr>)
      else if name = ''max_data'' then Some (s\<lparr>con_options := Some (opts\<lparr>opt_max_data := v\<rparr>)\<rparr>)
      else if name = ''max_depth'' then Some (s\<lparr>con_options := Some (set_max_depth v opts)\<rparr>)
      else if name = ''show_hidden'' then Some (s\<lparr>con_options := Some (opts\<lparr>opt_show_hidden := v\<rparr>)\<rparr>)
      else if name = ''extended_properties'' then Some (s\<lparr>con_options := Some (opts\<lparr>opt_extended_properties := v\<rparr>)\<rparr>)
      else if name = ''notify_ok'' then Some (s\<lparr>con_send_notifications := v\<rparr>)
      else if name = ''resolved_breakpoints'' then Some (s\<lparr>con_resolved_breakpoints := v\<rparr>)
      else if name = ''breakpoint_details'' then Some (s\<lparr>con_breakpoint_details := v\<rparr>)
      else if name = ''breakpoint_include_return_value'' then Some (s\<lparr>con_include_return_value := v\<rparr>)
      else if name = ''virtual_exception_value'' then Some (s\<lparr>con_virtual_exception_value := v\<rparr>)
      else None)"

definition xdebug_dbgp_handle_feature_set :: "debugger \<Rightarrow> xdebug_dbgp_arg \<Rightarrow> xml_node \<Rightarrow> (debugger \<times> xml_node) option" where
  "xdebug_dbgp_handle_feature_set s args retval =
     (if \<not> CMD_OPTION_SET args (CHR ''n'') \<or> \<not> CMD_OPTION_SET args (CHR ''v'')
      then RETURN_RESULT s retval XDEBUG_ERROR_INVALID_ARGS
      else do {
        n \<leftarrow> CMD_OPTION_CHAR args (CHR ''n'');
        v \<leftarrow> CMD_OPTION_CHAR args (CHR ''v'');
        opts \<leftarrow> con_options s;
        let done = (\<lambda>s1. (s1, xdebug_xml_add_attribute (xdebug_xml_add_attribute retval ''feature'' n) ''success'' ''1''));
        if n = ''encoding''
        then (if v \<noteq> ''iso-8859-1'' then RETURN_RESULT s retval XDEBUG_ERROR_ENCODING_NOT_SUPPORTED else Some (done s))
        else (case feature_update n (strtol_int v) opts s of
                Some s1 \<Rightarrow> Some (done s1)
              | None \<Rightarrow> RETURN_RESULT s retval XDEBUG_ERROR_INVALID_ARGS) })"

section \<open>Inspection\<close>

definition xdebug_dbgp_typemap :: "(string \<times> string \<times> string option) list" where
  "xdebug_dbgp_typemap =
    [(''bool'', ''bool'', Some ''xsd:boolean''), (''int'', ''int'', Some ''xsd:decimal''),
     (''float'', ''float'', Some ''xsd:double''), (''string'', ''string'', Some ''xsd:string''),
     (''null'', ''null'', None), (''hash'', ''array'', None), (''object'', ''object'', None),
     (''resource'', ''resource'', None)]"

definition typemap_node :: "string \<times> string \<times> string option \<Rightarrow> xml_node" where
  "typemap_node m =
     (case m of (common, lang, schema) \<Rightarrow>
        add_opt_attribute ''xsi:type'' schema
          (xdebug_xml_add_attribute (xdebug_xml_add_attribute (xdebug_xml_node_init ''map'') ''name'' lang) ''type'' common))"

definition xdebug_dbgp_handle_typemap_get :: "debugger \<Rightarrow> xml_node \<Rightarrow> (debugger \<times> xml_node) option" where
  "xdebug_dbgp_handle_typemap_get s retval =
     Some (s, fold (\<lambda>m xml. xdebug_xml_add_child xml (typemap_node m)) xdebug_dbgp_typemap
                (xdebug_xml_add_attribute
                   (xdebug_xml_add_attribute retval ''xmlns:xsi'' ''http://www.w3.org/2001/XMLSchema-instance'')
                   ''xmlns:xsd'' ''http://www.w3.org/2001/XMLSchema''))"

definition xdebug_dbgp_handle_status :: "debugger \<Rightarrow> xml_node \<Rightarrow> (debugger \<times> xml_node) option" where
  "xdebug_dbgp_handle_status s retval = Some (s, status_reason s (dbg_status s) retval)"

definition context_node :: "string \<Rightarrow> string \<Rightarrow> xml_node" where
  "context_node name ident =
     xdebug_xml_add_attribute (xdebug_xml_add_attribute (xdebug_xml_node_init ''context'') ''name'' name) ''id'' ident"

definition xdebug_dbgp_handle_context_names :: "debugger \<Rightarrow> xml_node \<Rightarrow> (debugger \<times> xml_node) option" where
  "xdebug_dbgp_handle_context_names s retval =
     Some (s, xdebug_xml_add_child
                (xdebug_xml_add_child (xdebug_xml_add_child retval (context_node ''Locals'' ''0'')) (context_node ''Superglobals'' ''1''))
                (context_node ''User defined constants'' ''2''))"

definition xdebug_dbgp_handle_stack_depth :: "debugger \<Rightarrow> xml_node \<Rightarrow> (debugger \<times> xml_node) option" where
  "xdebug_dbgp_handle_stack_depth s retval =
     Some (s, xdebug_xml_add_attribute retval ''depth'' (dec (length (dbg_stack s))))"

text \<open>Frame 0 is the top of the stack, the last element of the vector.\<close>

definition xdebug_get_stack_frame :: "debugger \<Rightarrow> int \<Rightarrow> function_stack_entry option" where
  "xdebug_get_stack_frame s nr =
     (if nr < 0 \<or> nr \<ge> int (length (dbg_stack s)) then None
      else Some (dbg_stack s ! (length (dbg_stack s) - nat nr - 1)))"

text \<open>
  \<open>xdebug_show_fname\<close> for plain text; the flags leave out the scope class and add the name of an
  included file.  A function without a name is a NULL dereference.
\<close>

definition include_name :: "bool \<Rightarrow> string \<Rightarrow> function_stack_entry \<Rightarrow> string option" where
  "include_name add_file_name what f =
     (if add_file_name
      then map_option (\<lambda>inc. ''{'' @ what @ '':'' @ c_str inc @ ''}'') (fse_include_filename f) else Some what)"

definition xdebug_show_fname :: "bool \<Rightarrow> bool \<Rightarrow> function_stack_entry \<Rightarrow> string option" where
  "xdebug_show_fname ignore_scope add_file_name f =
     (let ty = fse_type f;
          or_mark = (\<lambda>n. case n of Some x \<Rightarrow> c_str x | None \<Rightarrow> ''?'');
          arrow = (if ty = XFUNC_STATIC_MEMBER then ''::'' else ''->'')
      in if ty = XFUNC_NORMAL then map_option c_str (fse_function f)
         else if ty = XFUNC_STATIC_MEMBER \<or> ty = XFUNC_MEMBER
           then Some ((case fse_scope_class f of
                         Some sc \<Rightarrow> if ignore_scope then or_mark (fse_object_class f) else c_str sc
                       | None \<Rightarrow> or_mark (fse_object_class f)) @ arrow @ or_mark (fse_function f))
         else if ty = XFUNC_EVAL then Some ''eval''
         else if ty = XFUNC_INCLUDE then include_name add_file_name ''include'' f
         else if ty = XFUNC_INCLUDE_ONCE then include_name add_file_name ''include_once'' f
         else if ty = XFUNC_REQUIRE then include_name add_file_name ''require'' f
         else if ty = XFUNC_REQUIRE_ONCE then include_name add_file_name ''require_once'' f
         else if ty = XFUNC_MAIN then Some ''{main}''
         else if ty = XFUNC_ZEND_PASS then Some ''{zend_pass}''
         else if ty = XFUNC_FIBER then map_option c_str (fse_function f)
         else Some ''{unknown}'')"

text \<open>The location of a frame: a file the path maps may change, or evaluated code.\<close>

definition frame_location :: "dbg_env \<Rightarrow> debugger \<Rightarrow> string \<Rightarrow> int \<Rightarrow> xml_node \<Rightarrow> xml_node option" where
  "frame_location env s filename lineno tmp =
     (case xdebug_debugger_check_evaled_code s (Some filename) of
        Some f \<Rightarrow>
          Some (xdebug_xml_add_attribute
                 (xdebug_xml_add_attribute (xdebug_xml_add_attribute tmp ''type'' ''eval'') ''filename'' f)
                 ''lineno'' (lu_of_int lineno))
      | None \<Rightarrow> do {
          (res, local_path, local_line) \<leftarrow> xdebug_debugger_map_remote_to_local s filename lineno;
          url \<leftarrow> xdebug_path_to_url (env_expand env) local_path;
          Some (xdebug_xml_add_attribute
                 (xdebug_xml_add_attribute
                   (xdebug_xml_add_attribute (add_path_map_action_facet tmp res) ''type'' ''file'') ''filename'' url)
                 ''lineno'' (dec local_line)) })"

text \<open>A frame is where its callee was called from; the top frame is where the engine is.\<close>

definition return_stackframe :: "dbg_env \<Rightarrow> debugger \<Rightarrow> int \<Rightarrow> xml_node option" where
  "return_stackframe env s nr =
     do { fse \<leftarrow> xdebug_get_stack_frame s nr;
          fname \<leftarrow> xdebug_show_fname False False fse;
          let tmp = xdebug_xml_add_attribute
                      (xdebug_xml_add_attribute (xdebug_xml_node_init ''stack'') ''where'' fname)
                      ''level'' (dec_int nr);
          case xdebug_get_stack_frame s (nr - 1) of
            Some fse_prev \<Rightarrow> frame_location env s (fse_filename fse_prev) (fse_lineno fse_prev) tmp
          | None \<Rightarrow>
              (case dbg_executed_filename s of
                 Some f \<Rightarrow> frame_location env s f (dbg_executed_lineno s) tmp
               | None \<Rightarrow> Some tmp) }"

fun stackframes :: "dbg_env \<Rightarrow> debugger \<Rightarrow> int list \<Rightarrow> xml_node \<Rightarrow> xml_node option" where
  "stackframes env s [] retval = Some retval"
| "stackframes env s (i # is) retval =
     do { stackframe \<leftarrow> return_stackframe env s i; stackframes env s is (xdebug_xml_add_child retval stackframe) }"

definition valid_depth :: "debugger \<Rightarrow> int \<Rightarrow> bool" where
  "valid_depth s depth \<longleftrightarrow> depth \<ge> 0 \<and> depth < int (length (dbg_stack s))"

definition xdebug_dbgp_handle_stack_get :: "dbg_env \<Rightarrow> debugger \<Rightarrow> xdebug_dbgp_arg \<Rightarrow> xml_node \<Rightarrow> (debugger \<times> xml_node) option" where
  "xdebug_dbgp_handle_stack_get env s args retval =
     (if CMD_OPTION_SET args (CHR ''d'')
      then do { d \<leftarrow> CMD_OPTION_CHAR args (CHR ''d'');
                let depth = fst (strtol10 d);
                if valid_depth s depth
                then map_option (\<lambda>f. (s, xdebug_xml_add_child retval f)) (return_stackframe env s depth)
                else RETURN_RESULT s retval XDEBUG_ERROR_STACK_DEPTH_INVALID }
      else map_option (\<lambda>x. (s, x)) (stackframes env s (map int [0..<length (dbg_stack s)]) retval))"

section \<open>Source\<close>

definition create_eval_key_id :: "int \<Rightarrow> string" where
  "create_eval_key_id ident =
     (let h = hex_text (uint_of_int ident) in replicate (4 - length h) (CHR ''0'') @ h)"

definition return_eval_source :: "debugger \<Rightarrow> string \<Rightarrow> int \<Rightarrow> int \<Rightarrow> string option option" where
  "return_eval_source s ident begn endn =
     (case xdebug_hash_find (con_eval_id_lookup s) (create_eval_key_id (atoi ident)) of
        None \<Rightarrow> Some None
      | Some ei \<Rightarrow> do {
          parts \<leftarrow> xdebug_explode [NEWLINE] (c_str (ei_contents ei)) xdebug_arg_ctor (to_int32 (endn + 2));
          joined \<leftarrow> xdebug_join [NEWLINE] parts (if begn < 0 then 0 else begn) endn;
          Some (Some (str_text joined)) })"

text \<open>The two loops: skipping lines, then collecting; \<open>k\<close> counts the calls of \<open>php_stream_gets\<close>.\<close>

definition stream_gets :: "php_stream \<Rightarrow> nat \<Rightarrow> string option" where
  "stream_gets st k = (if k < length (ps_lines st) then Some (ps_lines st ! k) else None)"

fun skip_lines :: "php_stream \<Rightarrow> nat \<Rightarrow> nat \<Rightarrow> string option \<Rightarrow> nat \<times> nat \<times> string option" where
  "skip_lines st 0 k line = (0, k, line)"
| "skip_lines st (Suc i) k line = (if ps_eof st k then (Suc i, k, line) else skip_lines st i (k + 1) (stream_gets st k))"

function collect_lines :: "php_stream \<Rightarrow> int \<Rightarrow> int \<Rightarrow> nat \<Rightarrow> string option \<Rightarrow> string \<Rightarrow> string" where
  "collect_lines st stop i k line source =
     (let source1 = (case line of Some l \<Rightarrow> source @ c_str l | None \<Rightarrow> source) in
      if line \<noteq> None \<and> ps_eof st k then source1
      else if i + 1 < stop then collect_lines st stop (i + 1) (k + 1) (stream_gets st k) source1
      else source1)"
  by auto
termination by (relation "measure (\<lambda>(st, stop, i, k, line, source). nat (stop - i))") auto

declare collect_lines.simps [simp del]

definition return_file_source :: "dbg_env \<Rightarrow> string \<Rightarrow> int \<Rightarrow> int \<Rightarrow> string option option" where
  "return_file_source env filename begn endn =
     (let b = (if begn < 0 then 0 else begn) in
      do { path \<leftarrow> xdebug_path_from_url (c_str filename);
           case env_open_file env path of
             None \<Rightarrow> Some None
           | Some st \<Rightarrow>
               (case skip_lines st (nat b) 0 None of
                  (i, k, line) \<Rightarrow> Some (Some (collect_lines st (to_int32 (endn + 1 - b)) (int i) k line []))) })"

definition return_source :: "dbg_env \<Rightarrow> debugger \<Rightarrow> string \<Rightarrow> int \<Rightarrow> int \<Rightarrow> string option option" where
  "return_source env s filename begn endn =
     (if is_dbgp_url (c_str filename) then return_eval_source s (drop 7 (c_str filename)) begn endn
      else return_file_source env filename begn endn)"

definition source_line_option :: "xdebug_dbgp_arg \<Rightarrow> char \<Rightarrow> int \<Rightarrow> int option" where
  "source_line_option args opt dflt =
     (if CMD_OPTION_SET args opt then map_option strtol_int (CMD_OPTION_CHAR args opt) else Some dflt)"

definition xdebug_dbgp_handle_source :: "dbg_env \<Rightarrow> debugger \<Rightarrow> xdebug_dbgp_arg \<Rightarrow> xml_node \<Rightarrow> (debugger \<times> xml_node) option" where
  "xdebug_dbgp_handle_source env s args retval =
     do { fname \<leftarrow> (if CMD_OPTION_SET args (CHR ''f'') then map_option Some (CMD_OPTION_BYTES args (CHR ''f''))
                   else Some (map_option fse_filename (stack_tail s)));
          case fname of
            None \<Rightarrow> RETURN_RESULT s retval XDEBUG_ERROR_STACK_DEPTH_INVALID
          | Some filename \<Rightarrow> do {
              begn \<leftarrow> source_line_option args (CHR ''b'') 0;
              endn \<leftarrow> source_line_option args (CHR ''e'') 999999;
              source \<leftarrow> return_source env s filename begn endn;
              let s1 = s\<lparr>dbg_breakpoints_allowed := True\<rparr>;
              case source of
                None \<Rightarrow> RETURN_RESULT s1 retval XDEBUG_ERROR_CANT_OPEN_FILE
              | Some src \<Rightarrow> Some (s1, xdebug_xml_add_text_ex retval src True) } }"

section \<open>Extensions of the protocol\<close>

definition xdebug_dbgp_handle_xcmd_profiler_name_get :: "dbg_env \<Rightarrow> debugger \<Rightarrow> xml_node \<Rightarrow> (debugger \<times> xml_node) option" where
  "xdebug_dbgp_handle_xcmd_profiler_name_get env s retval =
     (case env_profiler_filename env of
        None \<Rightarrow> RETURN_RESULT s retval XDEBUG_ERROR_PROFILING_NOT_STARTED
      | Some filename \<Rightarrow> Some (s, xdebug_xml_add_text retval filename))"

definition executable_line_nodes :: "zend_op_array \<Rightarrow> xml_node list" where
  "executable_line_nodes opa =
     map (\<lambda>op. xdebug_xml_add_attribute (xdebug_xml_node_init ''xdebug:line'') ''lineno'' (dec (snd op)))
       (filter (\<lambda>op. fst op = ZEND_EXT_STMT) (oa_opcodes opa))"

definition xdebug_dbgp_handle_xcmd_get_executable_lines ::
  "debugger \<Rightarrow> xdebug_dbgp_arg \<Rightarrow> xml_node \<Rightarrow> (debugger \<times> xml_node) option" where
  "xdebug_dbgp_handle_xcmd_get_executable_lines s args retval =
     (if \<not> CMD_OPTION_SET args (CHR ''d'') then RETURN_RESULT s retval XDEBUG_ERROR_INVALID_ARGS
      else do {
        d \<leftarrow> CMD_OPTION_CHAR args (CHR ''d'');
        let depth = fst (strtol10 d);
        if valid_depth s depth
        then do { fse \<leftarrow> xdebug_get_stack_frame s depth;
                  Some (s, xdebug_xml_add_child retval
                             (fold (\<lambda>line xml. xdebug_xml_add_child xml line) (executable_line_nodes (fse_op_array fse))
                                (xdebug_xml_node_init ''xdebug:lines''))) }
        else RETURN_RESULT s retval XDEBUG_ERROR_STACK_DEPTH_INVALID })"

end
