(* ===== verification/Xd_Dbgp.thy ===== *)
theory Xd_Dbgp
  imports Xd_Dbgp_Cmds
begin

text \<open>
  The protocol engine of \<open>src/debugger/handler_dbgp.c\<close>: the table of commands, the execution of one command
  line, the command loop, and the operations of the handler that the debugger calls (start and end of a
  session, breaks, notifications).  The commands that show or change PHP variables (\<open>context_get\<close>,
  \<open>property_get\<close>, \<open>property_set\<close>, \<open>property_value\<close>) work on values of the engine; they are the parameter
  \<open>php\<close>, a handler for each name.
\<close>

section \<open>The table of commands\<close>

type_synonym command_handler = "debugger \<Rightarrow> xdebug_dbgp_arg \<Rightarrow> xml_node \<Rightarrow> (debugger \<times> xml_node) option"

definition XDEBUG_DBGP_NONE :: nat where "XDEBUG_DBGP_NONE = 1"
definition XDEBUG_DBGP_POST_MORTEM :: nat where "XDEBUG_DBGP_POST_MORTEM = 2"

record xdebug_dbgp_cmd =
  cmd_name :: string
  cmd_cont :: int
  cmd_flags :: nat

definition DBGP_FUNC_ENTRY :: "string \<Rightarrow> nat \<Rightarrow> xdebug_dbgp_cmd" where
  "DBGP_FUNC_ENTRY name flags = \<lparr>cmd_name = name, cmd_cont = 0, cmd_flags = flags\<rparr>"

definition DBGP_CONT_FUNC_ENTRY :: "string \<Rightarrow> nat \<Rightarrow> xdebug_dbgp_cmd" where
  "DBGP_CONT_FUNC_ENTRY name flags = \<lparr>cmd_name = name, cmd_cont = 1, cmd_flags = flags\<rparr>"

definition DBGP_STOP_FUNC_ENTRY :: "string \<Rightarrow> nat \<Rightarrow> xdebug_dbgp_cmd" where
  "DBGP_STOP_FUNC_ENTRY name flags = \<lparr>cmd_name = name, cmd_cont = 2, cmd_flags = flags\<rparr>"

definition dbgp_commands :: "xdebug_dbgp_cmd list" where
  "dbgp_commands =
    [DBGP_FUNC_ENTRY ''breakpoint_get'' XDEBUG_DBGP_NONE,
     DBGP_FUNC_ENTRY ''breakpoint_list'' XDEBUG_DBGP_POST_MORTEM,
     DBGP_FUNC_ENTRY ''breakpoint_remove'' XDEBUG_DBGP_NONE,
     DBGP_FUNC_ENTRY ''breakpoint_set'' XDEBUG_DBGP_NONE,
     DBGP_FUNC_ENTRY ''breakpoint_update'' XDEBUG_DBGP_NONE,
     DBGP_FUNC_ENTRY ''context_get'' XDEBUG_DBGP_NONE,
     DBGP_FUNC_ENTRY ''context_names'' XDEBUG_DBGP_POST_MORTEM,
     DBGP_FUNC_ENTRY ''eval'' XDEBUG_DBGP_NONE,
     DBGP_FUNC_ENTRY ''feature_get'' XDEBUG_DBGP_POST_MORTEM,
     DBGP_FUNC_ENTRY ''feature_set'' XDEBUG_DBGP_NONE,
     DBGP_FUNC_ENTRY ''typemap_get'' XDEBUG_DBGP_POST_MORTEM,
     DBGP_FUNC_ENTRY ''property_get'' XDEBUG_DBGP_NONE,
     DBGP_FUNC_ENTRY ''property_set'' XDEBUG_DBGP_NONE,
     DBGP_FUNC_ENTRY ''property_value'' XDEBUG_DBGP_NONE,
     DBGP_FUNC_ENTRY ''source'' XDEBUG_DBGP_NONE,
     DBGP_FUNC_ENTRY ''stack_depth'' XDEBUG_DBGP_NONE,
     DBGP_FUNC_ENTRY ''stack_get'' XDEBUG_DBGP_NONE,
     DBGP_FUNC_ENTRY ''status'' XDEBUG_DBGP_POST_MORTEM,
     DBGP_FUNC_ENTRY ''stderr'' XDEBUG_DBGP_NONE,
     DBGP_FUNC_ENTRY ''stdout'' XDEBUG_DBGP_NONE,
     DBGP_CONT_FUNC_ENTRY ''run'' XDEBUG_DBGP_NONE,
     DBGP_CONT_FUNC_ENTRY ''step_into'' XDEBUG_DBGP_NONE,
     DBGP_CONT_FUNC_ENTRY ''step_out'' XDEBUG_DBGP_NONE,
     DBGP_CONT_FUNC_ENTRY ''step_over'' XDEBUG_DBGP_NONE,
     DBGP_STOP_FUNC_ENTRY ''stop'' XDEBUG_DBGP_POST_MORTEM,
     DBGP_STOP_FUNC_ENTRY ''detach'' XDEBUG_DBGP_POST_MORTEM,
     DBGP_FUNC_ENTRY ''xcmd_profiler_name_get'' XDEBUG_DBGP_POST_MORTEM,
     DBGP_FUNC_ENTRY ''xcmd_get_executable_lines'' XDEBUG_DBGP_NONE]"

definition lookup_cmd :: "string \<Rightarrow> xdebug_dbgp_cmd option" where
  "lookup_cmd cmd = find (\<lambda>c. cmd_name c = cmd) dbgp_commands"

definition dbgp_handler :: "dbg_env \<Rightarrow> (string \<Rightarrow> command_handler) \<Rightarrow> string \<Rightarrow> command_handler" where
  "dbgp_handler env php name s args retval =
     (if name = ''breakpoint_get'' then xdebug_dbgp_handle_breakpoint_get env s args retval
      else if name = ''breakpoint_list'' then xdebug_dbgp_handle_breakpoint_list env s args retval
      else if name = ''breakpoint_remove'' then xdebug_dbgp_handle_breakpoint_remove env s args retval
      else if name = ''breakpoint_set'' then xdebug_dbgp_handle_breakpoint_set env s args retval
      else if name = ''breakpoint_update'' then xdebug_dbgp_handle_breakpoint_update env s args retval
      else if name = ''context_names'' then xdebug_dbgp_handle_context_names s retval
      else if name = ''eval'' then xdebug_dbgp_handle_eval env s args retval
      else if name = ''feature_get'' then xdebug_dbgp_handle_feature_get env (\<lambda>n. lookup_cmd n \<noteq> None) s args retval
      else if name = ''feature_set'' then xdebug_dbgp_handle_feature_set s args retval
      else if name = ''typemap_get'' then xdebug_dbgp_handle_typemap_get s retval
      else if name = ''source'' then xdebug_dbgp_handle_source env s args retval
      else if name = ''stack_depth'' then xdebug_dbgp_handle_stack_depth s retval
      else if name = ''stack_get'' then xdebug_dbgp_handle_stack_get env s args retval
      else if name = ''status'' then xdebug_dbgp_handle_status s retval
      else if name = ''stderr'' then xdebug_dbgp_handle_stderr s retval
      else if name = ''stdout'' then xdebug_dbgp_handle_stdout s args retval
      else if name = ''run'' then xdebug_dbgp_handle_run s retval
      else if name = ''step_into'' then xdebug_dbgp_handle_step_into s retval
      else if name = ''step_out'' then xdebug_dbgp_handle_step_out s retval
      else if name = ''step_over'' then xdebug_dbgp_handle_step_over s retval
      else if name = ''stop'' then xdebug_dbgp_handle_stop s retval
      else if name = ''detach'' then xdebug_dbgp_handle_detach s args retval
      else if name = ''xcmd_profiler_name_get'' then xdebug_dbgp_handle_xcmd_profiler_name_get env s retval
      else if name = ''xcmd_get_executable_lines'' then xdebug_dbgp_handle_xcmd_get_executable_lines s args retval
      else php name s args retval)"

section \<open>One command line\<close>

definition add_error :: "int \<Rightarrow> xml_node \<Rightarrow> xml_node option" where
  "add_error res retval = map_option (xdebug_xml_add_child retval) (error_node res)"

text \<open>
  A continuation command makes the status \<open>running\<close> before it is checked against \<open>stopping\<close>.  The result
  is -1 for a command that is unknown or not available.
\<close>

definition execute_command ::
  "dbg_env \<Rightarrow> (string \<Rightarrow> command_handler) \<Rightarrow> debugger \<Rightarrow> string \<Rightarrow> xdebug_dbgp_arg \<Rightarrow> xml_node \<Rightarrow> (debugger \<times> xml_node \<times> int) option" where
  "execute_command env php s cmd args retval =
     (case lookup_cmd cmd of
        None \<Rightarrow> map_option (\<lambda>r. (s, r, -1)) (add_error XDEBUG_ERROR_UNIMPLEMENTED retval)
      | Some command \<Rightarrow>
          do { i \<leftarrow> CMD_OPTION_CHAR args (CHR ''i'');
               let s1 = (if cmd_cont command \<noteq> 0 then s\<lparr>dbg_status := DBGP_STATUS_RUNNING, dbg_reason := DBGP_REASON_OK\<rparr>
                         else s);
                   s2 = s1\<lparr>dbg_lastcmd := Some (cmd_name command), dbg_lasttransid := Some i\<rparr>
               in if dbg_status s2 \<noteq> DBGP_STATUS_STOPPING \<or> cmd_flags command div XDEBUG_DBGP_POST_MORTEM mod 2 = 1
                  then map_option (\<lambda>(s3, r). (s3, r, cmd_cont command)) (dbgp_handler env php (cmd_name command) s2 args retval)
                  else map_option (\<lambda>r. (s2, r, -1)) (add_error XDEBUG_ERROR_COMMAND_UNAVAILABLE retval) })"

definition xdebug_dbgp_parse_option ::
  "dbg_env \<Rightarrow> (string \<Rightarrow> command_handler) \<Rightarrow> debugger \<Rightarrow> string \<Rightarrow> xml_node \<Rightarrow> (debugger \<times> xml_node \<times> int) option" where
  "xdebug_dbgp_parse_option env php s line retval =
     do { (res, cmd, args) \<leftarrow> xdebug_cmd_parse line;
          let ret1 = add_opt_attribute ''command'' cmd retval;
              res1 = (if CMD_OPTION_SET args (CHR ''i'') then res else XDEBUG_ERROR_INVALID_ARGS);
              ret2 = add_opt_attribute ''transaction_id'' (CMD_OPTION_CHAR args (CHR ''i'')) ret1
          in if res1 \<noteq> XDEBUG_ERROR_OK then map_option (\<lambda>r. (s, r, 0)) (add_error res1 ret2)
             else do { c \<leftarrow> cmd; execute_command env php s c args ret2 } }"

section \<open>The command loop\<close>

text \<open>The loop is left with a result, or by \<open>zend_bailout\<close>, which abandons the script.\<close>

datatype loop_result = Loop_returned int | Loop_bailout

function xdebug_dbgp_cmdloop ::
  "dbg_env \<Rightarrow> (string \<Rightarrow> command_handler) \<Rightarrow> bool \<Rightarrow> fd_conn \<Rightarrow> debugger \<Rightarrow> (debugger \<times> fd_conn \<times> loop_result) option" where
  "xdebug_dbgp_cmdloop env php bail c s =
     (let (line, c1) = xdebug_fd_read_line_delim NUL c in
      case line of
        None \<Rightarrow> Some (s\<lparr>dbg_connection_enabled := False\<rparr>, c1, Loop_returned 0)
      | Some option \<Rightarrow>
          (case xdebug_dbgp_parse_option env php s option (dbgp_node ''response'') of
             None \<Rightarrow> None
           | Some (s1, response, ret) \<Rightarrow>
               (let s2 = (if ret \<noteq> 1 then send_message s1 response else s1) in
                if ret = 0 then xdebug_dbgp_cmdloop env php bail c1 s2
                else if bail \<and> dbg_status s2 = DBGP_STATUS_STOPPED then Some (s2, c1, Loop_bailout)
                else Some (s2, c1, Loop_returned ret))))"
  by auto
termination
  by (relation "measure (\<lambda>(env, php, bail, c, s). conn_size c)") (auto intro: read_line_decreases [OF sym])

declare xdebug_dbgp_cmdloop.simps [simp del]

section \<open>Sessions\<close>

definition XDEBUG_JIT :: int where "XDEBUG_JIT = 1"
definition XDEBUG_REQ :: int where "XDEBUG_REQ = 2"
definition XDEBUG_NORMAL :: int where "XDEBUG_NORMAL = 1"
definition XDEBUG_CLOUD :: int where "XDEBUG_CLOUD = 2"
definition XDEBUG_CLOUD_FROM_TRIGGER_VALUE :: int where "XDEBUG_CLOUD_FROM_TRIGGER_VALUE = 3"

definition XDEBUG_NAME :: string where "XDEBUG_NAME = ''Xdebug''"
definition XDEBUG_VERSION :: string where "XDEBUG_VERSION = ''3.6.0alpha2-dev''"
definition XDEBUG_AUTHOR :: string where "XDEBUG_AUTHOR = ''Derick Rethans''"
definition XDEBUG_COPYRIGHT :: string where "XDEBUG_COPYRIGHT = ''Copyright (c) 2002-2026 by Derick Rethans''"
definition XDEBUG_URL :: string where "XDEBUG_URL = ''https://xdebug.org''"

definition text_child :: "string \<Rightarrow> string \<Rightarrow> xml_node \<Rightarrow> xml_node" where
  "text_child tag t xml = xdebug_xml_add_child xml (xdebug_xml_add_text (xdebug_xml_node_init tag) t)"

definition init_fileuri :: "dbg_env \<Rightarrow> debugger \<Rightarrow> string option" where
  "init_fileuri env s =
     do { name \<leftarrow> con_program_name s;
          if name = ''-'' \<or> name = ''Command line code'' then Some ''dbgp://stdin''
          else do { (res, local_path, local_line) \<leftarrow> xdebug_debugger_map_remote_to_local s name 1;
                    xdebug_path_to_url (env_expand env) local_path } }"

definition nonempty :: "string option \<Rightarrow> string option" where
  "nonempty v = (case v of Some x \<Rightarrow> if x = [] then None else Some x | None \<Rightarrow> None)"

definition init_message :: "dbg_env \<Rightarrow> debugger \<Rightarrow> xml_node option" where
  "init_message env s =
     do { fileuri \<leftarrow> init_fileuri env s;
          let engine = xdebug_xml_add_text
                 (xdebug_xml_add_attribute (xdebug_xml_node_init ''engine'') ''version'' XDEBUG_VERSION) XDEBUG_NAME;
              r1 = text_child ''copyright'' XDEBUG_COPYRIGHT (text_child ''url'' XDEBUG_URL
                     (text_child ''author'' XDEBUG_AUTHOR (xdebug_xml_add_child (dbgp_node ''init'') engine)));
              r2 = xdebug_xml_add_attribute (xdebug_xml_add_attribute r1 ''fileuri'' fileuri) ''language'' ''PHP'';
              r3 = xdebug_xml_add_attribute r2 ''xdebug:language_version'' (env_php_version env);
              r4 = xdebug_xml_add_attribute (xdebug_xml_add_attribute r3 ''protocol_version'' DBGP_VERSION)
                     ''appid'' (dec (env_pid env));
              r5 = add_opt_attribute ''session'' (env_dbgp_cookie env) r4;
              r6 = (if con_host_type s = XDEBUG_CLOUD
                    then add_opt_attribute ''xdebug:userid'' (nonempty (env_cloud_id env)) r5 else r5);
              r7 = (if con_host_type s = XDEBUG_CLOUD_FROM_TRIGGER_VALUE
                    then add_opt_attribute ''xdebug:userid'' (nonempty (dbg_ide_key s)) r6 else r6);
              r8 = (if con_host_type s = XDEBUG_NORMAL
                    then add_opt_attribute ''idekey'' (nonempty (dbg_ide_key s)) r7 else r7)
          in Some (add_opt_attribute ''xdebug:ctrl_socket'' (env_control_socket env) r8) }"

text \<open>The array of pages has one entry more than the depth; the entry the code leaves unset is 0 here.\<close>

definition init_options :: var_export_options where
  "init_options =
     \<lparr>opt_max_children = 32, opt_max_data = 1024, opt_max_depth = 1, opt_show_hidden = 0, opt_extended_properties = 0,
      opt_encode_as_extended_property = 0, opt_runtime = [0, 0]\<rparr>"

definition init_tables :: "debugger \<Rightarrow> debugger" where
  "init_tables s =
     s\<lparr>con_options := Some init_options, con_breakpoint_list := xdebug_hash_alloc 64 True,
       con_function_breakpoints := xdebug_hash_alloc 64 True, con_exception_breakpoints := xdebug_hash_alloc 64 True,
       con_line_breakpoints := [], con_eval_id_lookup := xdebug_hash_alloc 64 True, con_eval_id_sequence := 0,
       con_send_notifications := 0, con_inhibit_notifications := False, con_resolved_breakpoints := 0,
       con_breakpoint_details := 0, con_include_return_value := 0, con_virtual_exception_value := 0,
       dbg_connection_enabled := True\<rparr>"

definition init_status :: "int \<Rightarrow> debugger \<Rightarrow> debugger" where
  "init_status mode s =
     (let s1 = (if mode = XDEBUG_REQ then s\<lparr>dbg_status := DBGP_STATUS_STARTING, dbg_reason := DBGP_REASON_OK\<rparr>
                else if mode = XDEBUG_JIT then s\<lparr>dbg_status := DBGP_STATUS_BREAK, dbg_reason := DBGP_REASON_ERROR\<rparr>
                else s)
      in s1\<lparr>dbg_lastcmd := None, dbg_lasttransid := None\<rparr>)"

text \<open>\<open>evs\<close> is what the new socket will deliver.\<close>

definition xdebug_dbgp_init ::
  "dbg_env \<Rightarrow> (string \<Rightarrow> command_handler) \<Rightarrow> debugger \<Rightarrow> recv_event list \<Rightarrow> int \<Rightarrow> (debugger \<times> fd_conn \<times> loop_result) option" where
  "xdebug_dbgp_init env php s evs mode =
     (let s1 = init_status mode s in
      do { response \<leftarrow> init_message env s1;
           (s2, c, r) \<leftarrow> xdebug_dbgp_cmdloop env php True \<lparr>fc_buffer = [], fc_socket = evs\<rparr> (init_tables (send_message s1 response));
           Some (s2, c, (case r of Loop_bailout \<Rightarrow> Loop_bailout | Loop_returned _ \<Rightarrow> Loop_returned 1)) })"

definition xdebug_dbgp_deinit ::
  "dbg_env \<Rightarrow> (string \<Rightarrow> command_handler) \<Rightarrow> fd_conn \<Rightarrow> debugger \<Rightarrow> (debugger \<times> fd_conn) option" where
  "xdebug_dbgp_deinit env php c s =
     (let detaching = (dbg_status s = DBGP_STATUS_DETACHED); s1 = deinit_announce s in
      do { (s2, c1) \<leftarrow> (if dbg_connection_enabled s \<and> \<not> detaching
                       then map_option (\<lambda>(s2, c1, r). (s2, c1)) (xdebug_dbgp_cmdloop env php False c s1)
                       else Some (s1, c));
           map_option (\<lambda>s3. (s3, c1)) (deinit_release s2) })"

section \<open>Breaks\<close>

definition E_ERROR :: int where "E_ERROR = 1"
definition E_CORE_ERROR :: int where "E_CORE_ERROR = 16"
definition E_COMPILE_ERROR :: int where "E_COMPILE_ERROR = 64"
definition E_USER_ERROR :: int where "E_USER_ERROR = 256"

text \<open>Whether a line breakpoint is for this line.  A breakpoint without a file name is a NULL dereference.\<close>

definition equals_ci :: "string \<Rightarrow> string \<Rightarrow> bool" where
  "equals_ci a b = (map tolower a = map tolower b)"

definition xdebug_dbgp_break_on_line :: "debugger \<Rightarrow> brk_info \<Rightarrow> string \<Rightarrow> int \<Rightarrow> bool option" where
  "xdebug_dbgp_break_on_line s brk orig_filename lineno =
     do { filename \<leftarrow> bi_filename brk;
          if bi_disabled brk then Some False
          else
            (let resolved_filename =
                   (case xdebug_debugger_check_evaled_code s (Some orig_filename) of
                      Some f \<Rightarrow> if is_dbgp_url (c_str filename) then f else orig_filename
                    | None \<Rightarrow> orig_filename)
             in if bi_resolved_lineno brk \<noteq> lineno then Some False
                else Some (equals_ci filename resolved_filename)) }"

definition message_location :: "dbg_env \<Rightarrow> debugger \<Rightarrow> string option \<Rightarrow> nat \<Rightarrow> xml_node \<Rightarrow> xml_node option" where
  "message_location env s filename lineno xml =
     (case filename of
        None \<Rightarrow> Some xml
      | Some f \<Rightarrow> do {
          shown \<leftarrow> (case xdebug_debugger_check_evaled_code s (Some f) of
                    Some e \<Rightarrow> Some e
                  | None \<Rightarrow> xdebug_path_to_url (env_expand env) f);
          Some (xdebug_xml_add_attribute (xdebug_xml_add_attribute xml ''filename'' shown) ''lineno'' (dec lineno)) })"

record break_info =
  bk_filename :: "string option"
  bk_lineno :: nat
  bk_exception :: "string option"
  bk_code :: "string option"
  bk_message :: "string option"
  bk_brk_info :: "nat option"
  bk_return_value :: "php_value option"

definition break_message :: "dbg_env \<Rightarrow> debugger \<Rightarrow> break_info \<Rightarrow> xml_node option" where
  "break_message env s bk =
     do { m1 \<leftarrow> message_location env s (bk_filename bk) (bk_lineno bk) (xdebug_xml_node_init ''xdebug:message'');
          let m2 = add_opt_attribute ''code'' (bk_code bk) (add_opt_attribute ''exception'' (bk_exception bk) m1);
          let m3 = (case bk_message bk of Some t \<Rightarrow> xdebug_xml_add_text m2 t | None \<Rightarrow> m2);
          let r1 = xdebug_xml_add_child (status_reason s (dbg_status s) (last_command s (dbgp_node ''response''))) m3;
          r2 \<leftarrow> (case bk_return_value bk of
                  Some v \<Rightarrow>
                    if con_include_return_value s \<noteq> 0
                    then map_option (\<lambda>opts. xdebug_xml_add_child r1
                           (xdebug_xml_add_child (xdebug_xml_node_init ''xdebug:return_value'') (v opts))) (con_options s)
                    else Some r1
                | None \<Rightarrow> Some r1);
          if con_breakpoint_details s \<noteq> 0 \<and> bk_brk_info bk \<noteq> None
          then map_option (xdebug_xml_add_child r2)
                 (breakpoint_brk_info_add env s (xdebug_xml_node_init ''breakpoint'') (bk_brk_info bk))
          else Some r2 }"

text \<open>
  A break: the message, then commands until one continues.  The result is whether the connection is
  still there; a bailout leaves the return value in place.
\<close>

definition xdebug_dbgp_breakpoint ::
  "dbg_env \<Rightarrow> (string \<Rightarrow> command_handler) \<Rightarrow> fd_conn \<Rightarrow> debugger \<Rightarrow> break_info \<Rightarrow> (debugger \<times> fd_conn \<times> loop_result) option" where
  "xdebug_dbgp_breakpoint env php c s bk =
     (let s1 = s\<lparr>dbg_status := DBGP_STATUS_BREAK, dbg_reason := DBGP_REASON_OK\<rparr> in
      do { response \<leftarrow> break_message env s1 bk;
           let s2 = (send_message s1 response)\<lparr>dbg_lastcmd := None, dbg_lasttransid := None,
                      dbg_current_return_value := bk_return_value bk\<rparr>;
           (s3, c1, r) \<leftarrow> xdebug_dbgp_cmdloop env php True c s2;
           case r of
             Loop_bailout \<Rightarrow> Some (s3, c1, Loop_bailout)
           | Loop_returned _ \<Rightarrow>
               Some (s3\<lparr>dbg_current_return_value := None\<rparr>, c1, Loop_returned (if dbg_connection_enabled s3 then 1 else 0)) })"

text \<open>An error that ends the script makes the session stop; every other one is a break.\<close>

definition xdebug_dbgp_error ::
  "dbg_env \<Rightarrow> (string \<Rightarrow> command_handler) \<Rightarrow> fd_conn \<Rightarrow> debugger \<Rightarrow> int \<Rightarrow> string option \<Rightarrow> string \<Rightarrow> string \<Rightarrow>
   (debugger \<times> fd_conn \<times> loop_result) option" where
  "xdebug_dbgp_error env php c s ty exception_type error_type message =
     (let (st, reason) =
            (if exception_type \<noteq> None then (DBGP_STATUS_BREAK, DBGP_REASON_EXCEPTION)
             else if ty = E_CORE_ERROR \<or> ty = E_ERROR \<or> ty = E_COMPILE_ERROR \<or> ty = E_USER_ERROR
             then (DBGP_STATUS_STOPPING, DBGP_REASON_ABORTED) else (DBGP_STATUS_BREAK, DBGP_REASON_ERROR));
          s1 = s\<lparr>dbg_status := st, dbg_reason := reason\<rparr>;
          errortype = (case exception_type of Some e \<Rightarrow> e | None \<Rightarrow> error_type);
          error = xdebug_xml_add_text
                    (xdebug_xml_add_attribute
                       (xdebug_xml_add_attribute (xdebug_xml_node_init ''error'') ''code'' (lu_of_int ty)) ''exception'' errortype)
                    message;
          response = xdebug_xml_add_child (status_reason s1 st (last_command s1 (dbgp_node ''response''))) error
      in map_option (\<lambda>(s2, c1, r). (s2, c1, case r of Loop_bailout \<Rightarrow> Loop_bailout | Loop_returned _ \<Rightarrow> Loop_returned 1))
           (xdebug_dbgp_cmdloop env php True c (send_message s1 response)))"

section \<open>Notifications\<close>

definition xdebug_strip_php_stack_trace :: "string \<Rightarrow> string option option" where
  "xdebug_strip_php_stack_trace buffer =
     (if \<not> strneq buffer ''Uncaught '' 9 then Some None
      else if strchr buffer NEWLINE = None then Some (Some buffer)
      else (case xdebug_strrstr buffer '' in '' of
              None \<Rightarrow> None
            | Some None \<Rightarrow> Some (Some buffer)
            | Some (Some p) \<Rightarrow> Some (Some (take p buffer))))"

definition notification_text :: "int \<Rightarrow> string option \<Rightarrow> xml_node \<Rightarrow> xml_node option" where
  "notification_text ty message xml =
     (case message of
        None \<Rightarrow> Some xml
      | Some m \<Rightarrow>
          if ty = E_ERROR
          then map_option (\<lambda>r. case r of Some t \<Rightarrow> xdebug_xml_add_text xml t | None \<Rightarrow> xdebug_xml_add_text xml m)
                 (xdebug_strip_php_stack_trace m)
          else Some (xdebug_xml_add_text xml m))"

definition xdebug_dbgp_notification ::
  "dbg_env \<Rightarrow> debugger \<Rightarrow> string option \<Rightarrow> nat \<Rightarrow> int \<Rightarrow> string option \<Rightarrow> string option \<Rightarrow> debugger option" where
  "xdebug_dbgp_notification env s filename lineno ty type_string message =
     do { e1 \<leftarrow> message_location env s filename lineno (xdebug_xml_node_init ''xdebug:message'');
          e2 \<leftarrow> notification_text ty message (add_opt_attribute ''type'' type_string e1);
          Some (send_message s
                 (xdebug_xml_add_child (xdebug_xml_add_attribute (dbgp_node ''notify'') ''name'' ''error'') e2)) }"

definition xdebug_dbgp_user_notify :: "dbg_env \<Rightarrow> debugger \<Rightarrow> string option \<Rightarrow> nat \<Rightarrow> php_value \<Rightarrow> debugger option" where
  "xdebug_dbgp_user_notify env s filename lineno data =
     (if con_send_notifications s = 0 then Some s
      else do {
        l \<leftarrow> message_location env s filename lineno (xdebug_xml_node_init ''xdebug:location'');
        Some (send_message s
               (xdebug_xml_add_child
                  (xdebug_xml_add_child (xdebug_xml_add_attribute (dbgp_node ''notify'') ''name'' ''user'') l)
                  (data ((env_ini_options env)\<lparr>opt_extended_properties := 1\<rparr>)))) })"

section \<open>Evaluated code\<close>

definition create_eval_key_file :: "string \<Rightarrow> int \<Rightarrow> string" where
  "create_eval_key_file filename lineno =
     c_str filename @ ''('' @ dec_int lineno @ '') : eval()'' @ [CHR 0x27] @ ''d code''"

text \<open>The contents are registered under two keys: the engine's name for the code, and its number.\<close>

definition xdebug_dbgp_register_eval_id :: "debugger \<Rightarrow> function_stack_entry \<Rightarrow> (debugger \<times> int) option" where
  "xdebug_dbgp_register_eval_id s fse =
     do { contents \<leftarrow> fse_include_filename fse;
          let n = to_int32 (con_eval_id_sequence s + 1);
              ei = \<lparr>ei_id = n, ei_contents = contents\<rparr>;
              h1 = xdebug_hash_add (con_eval_id_lookup s) (create_eval_key_file (fse_filename fse) (fse_lineno fse)) ei;
              h2 = xdebug_hash_add h1 (create_eval_key_id n) ei
          in Some (s\<lparr>con_eval_id_sequence := n, con_eval_id_lookup := h2\<rparr>, n) }"

end
