(* ===== verification/Xd_Dbgp_Loop.thy ===== *)
theory Xd_Dbgp_Loop
  imports Xd_Dbgp
begin

text \<open>
  What a client sees of the command loop of \<open>Xd_Dbgp\<close>: a response is made from the node with the command
  and its transaction number by adding to it (\<open>extends\<close>), handlers send nothing themselves but
  notifications, and the loop depends on the lines that arrive, not on how their bytes are cut
  (\<open>cmdloop_serve\<close>).  So each line that asks and does not continue gets one response, in order
  (\<open>serve_answers\<close>).
\<close>

section \<open>What a handler may do\<close>

named_theorems extends_intros \<open>what keeps the head of a response\<close>

definition extends :: "debugger \<Rightarrow> xml_node \<Rightarrow> debugger \<Rightarrow> xml_node \<Rightarrow> bool" where
  "extends s retval s1 r \<longleftrightarrow>
     (\<exists>ns. dbg_sent s1 = dbg_sent s @ ns \<and> (\<forall>n \<in> set ns. xn_tag n = ''notify'')) \<and>
     (\<exists>more. xn_attribute r = xn_attribute retval @ more) \<and> xn_tag r = xn_tag retval \<and>
     dbg_connection_enabled s1 = dbg_connection_enabled s \<and> dbg_status s1 = dbg_status s"

lemma xml_build [simp]:
  "xn_tag (xdebug_xml_node_init t) = t" "xn_attribute (xdebug_xml_node_init t) = []"
  "xn_tag (xdebug_xml_add_attribute x a v) = xn_tag x"
  "xn_attribute (xdebug_xml_add_attribute x a v) = xn_attribute x @ [(a, v)]"
  "xn_tag (xdebug_xml_add_child x c) = xn_tag x" "xn_attribute (xdebug_xml_add_child x c) = xn_attribute x"
  "xn_tag (xdebug_xml_add_text x u) = xn_tag x" "xn_attribute (xdebug_xml_add_text x u) = xn_attribute x"
  "xn_tag (xdebug_xml_add_text_ex x u e) = xn_tag x" "xn_attribute (xdebug_xml_add_text_ex x u e) = xn_attribute x"
  by (simp_all add: xdebug_xml_node_init_def xdebug_xml_add_attribute_def xdebug_xml_add_child_def
      xdebug_xml_add_text_def xdebug_xml_add_text_ex_def)

lemma extends_refl [simp, extends_intros]: "extends s r s r" by (simp add: extends_def)

lemma extends_more [extends_intros]:
  "extends s x s1 r \<Longrightarrow> extends s x s1 (xdebug_xml_add_attribute r a v)"
  "extends s x s1 r \<Longrightarrow> extends s x s1 (xdebug_xml_add_child r c)"
  "extends s x s1 r \<Longrightarrow> extends s x s1 (xdebug_xml_add_text r u)"
  "extends s x s1 r \<Longrightarrow> extends s x s1 (xdebug_xml_add_text_ex r u e)"
  "extends s x s1 r \<Longrightarrow> extends s x s1 (breakpoint_brk_info_add_resolved s2 r b)"
  by (auto simp: extends_def breakpoint_brk_info_add_resolved_def)

lemma extends_trans: "extends s x s1 y \<Longrightarrow> extends s1 y s2 z \<Longrightarrow> extends s x s2 z"
  by (fastforce simp: extends_def)

lemma RETURN_RESULT_extends: "RETURN_RESULT s1 r c = Some (s2, r2) \<Longrightarrow> extends s x s1 r \<Longrightarrow> extends s x s2 r2"
  by (auto simp: RETURN_RESULT_def intro: extends_more)

text \<open>What a handler may do, as a condition on its result, with a rule for each construct it is made of.\<close>

definition answers :: "debugger \<Rightarrow> xml_node \<Rightarrow> (debugger \<times> xml_node) option \<Rightarrow> bool" where
  "answers s r res \<longleftrightarrow> post (\<lambda>(s1, r1). extends s r s1 r1) res"

named_theorems answer_rules \<open>the constructs handlers are made of\<close>

lemma answers_constructs [answer_rules]:
  "answers s r None"
  "extends s r s1 r1 \<Longrightarrow> answers s r (Some (s1, r1))"
  "(\<And>x. m = Some x \<Longrightarrow> answers s r (f x)) \<Longrightarrow> answers s r (Option.bind m f)"
  "(\<And>x. m = Some x \<Longrightarrow> extends s r s1 (g x)) \<Longrightarrow> answers s r (map_option (\<lambda>x. (s1, g x)) m)"
  "(c \<Longrightarrow> answers s r p) \<Longrightarrow> (\<not> c \<Longrightarrow> answers s r q) \<Longrightarrow> answers s r (if c then p else q)"
  "(o1 = None \<Longrightarrow> answers s r p) \<Longrightarrow> (\<And>x. o1 = Some x \<Longrightarrow> answers s r (f1 x)) \<Longrightarrow> answers s r (case o1 of None \<Rightarrow> p | Some x \<Rightarrow> f1 x)"
  "(\<And>x y. pr = (x, y) \<Longrightarrow> answers s r (h x y)) \<Longrightarrow> answers s r (case pr of (x, y) \<Rightarrow> h x y)"
  "(\<And>x. v = x \<Longrightarrow> answers s r (k x)) \<Longrightarrow> answers s r (let x = v in k x)"
  "extends s r s1 r1 \<Longrightarrow> answers s r (RETURN_RESULT s1 r1 c1)"
  "(\<And>b v. er = Eval_value b v \<Longrightarrow> answers s r (h1 b v)) \<Longrightarrow> (\<And>e. er = Eval_failed e \<Longrightarrow> answers s r (h2 e)) \<Longrightarrow>
   answers s r (case er of Eval_value b v \<Rightarrow> h1 b v | Eval_failed e \<Rightarrow> h2 e)"
  by (auto simp: answers_def post_def RETURN_RESULT_def Option.bind_eq_Some_conv Let_def intro: extends_more
      split: option.splits prod.splits eval_result.splits)

text \<open>States that differ in what no client sees.\<close>

definition same_session :: "debugger \<Rightarrow> debugger \<Rightarrow> bool" where
  "same_session s s1 \<longleftrightarrow> dbg_sent s1 = dbg_sent s \<and> dbg_connection_enabled s1 = dbg_connection_enabled s \<and> dbg_status s1 = dbg_status s"

lemma same_session_refl [simp]: "same_session s s" by (simp add: same_session_def)

lemma same_session_trans: "same_session s s1 \<Longrightarrow> same_session s1 s2 \<Longrightarrow> same_session s s2"
  by (simp add: same_session_def)

lemma extends_session: "same_session s1 s2 \<Longrightarrow> extends s r s1 r1 \<Longrightarrow> extends s r s2 r1"
  by (auto simp: same_session_def extends_def)

lemma same_session_extends: "same_session s s1 \<Longrightarrow> extends s r s1 r"
  by (auto simp: same_session_def extends_def)

lemma brk_put_session: "brk_put s a b = Some s1 \<Longrightarrow> same_session s s1"
  by (auto simp: brk_put_def same_session_def split: if_splits)

lemma brk_dtor_session: "xdebug_brk_info_dtor s a = Some s1 \<Longrightarrow> same_session s s1"
  by (auto simp: xdebug_brk_info_dtor_def same_session_def split: if_splits)

lemma brk_dtor_all_session: "brk_dtor_all s as = Some s1 \<Longrightarrow> same_session s s1"
proof (induction s as rule: brk_dtor_all.induct)
  case (2 s a as)
  then show ?case by (auto intro: same_session_trans brk_dtor_session split: option.splits)
qed simp

lemma tables_session:
  "function_hash_set h s = Some s1 \<Longrightarrow> same_session s s1"
  "exception_hash_set h s = Some s1 \<Longrightarrow> same_session s s1"
  unfolding function_hash_set_def exception_hash_set_def
  by (drule brk_dtor_all_session, simp add: same_session_def)+

lemma breakpoint_remove_session: "breakpoint_remove s ty k = Some (s1, ok) \<Longrightarrow> same_session s s1"
  unfolding breakpoint_remove_def
  by (auto simp: Option.bind_eq_Some_conv dest!: brk_dtor_session tables_session split: if_splits prod.splits)
    (auto simp: same_session_def)

lemma admin_session [simp]: "same_session s (fst (breakpoint_admin_remove s k))" "same_session s (fst (breakpoint_admin_add env s ty k))"
  by (auto simp: breakpoint_admin_remove_def breakpoint_admin_add_def same_session_def Let_def split: prod.splits)

lemma brk_new_session: "brk_new s = (s1, a) \<Longrightarrow> same_session s s1"
  by (auto simp: brk_new_def same_session_def)

lemma admin_add_session: "breakpoint_admin_add env s ty k = (s1, n) \<Longrightarrow> same_session s s1"
  using admin_session(2) [of s env ty k] by simp

lemma update_session:
  "(if action = BREAKPOINT_ACTION_UPDATE
               then do { a \<leftarrow> ptr;
                         b \<leftarrow> brk_at s a;
                         (b1, ok) \<leftarrow> update_brk_info args b;
                         s1 \<leftarrow> brk_put s a b1;
                         Some (s1, ok) }
               else Some (s, True)) = Some (s1, ok) \<Longrightarrow> same_session s s1"
  by (auto simp: Option.bind_eq_Some_conv intro: brk_put_session split: if_splits)

lemmas session_steps = brk_put_session brk_dtor_session tables_session breakpoint_remove_session brk_new_session
  admin_add_session update_session

lemmas session_facts = session_steps [unfolded same_session_def]

lemma updates_session [simp]:
  "dbg_sent (fst (breakpoint_admin_remove s k)) = dbg_sent s"
  "dbg_connection_enabled (fst (breakpoint_admin_remove s k)) = dbg_connection_enabled s"
  "dbg_status (fst (breakpoint_admin_remove s k)) = dbg_status s"
  "dbg_sent (mark_all_frames s) = dbg_sent s" "dbg_connection_enabled (mark_all_frames s) = dbg_connection_enabled s"
  "dbg_status (mark_all_frames s) = dbg_status s"
  using admin_session(1) by (simp_all add: same_session_def mark_all_frames_def)

lemma send_notify_extends: "xn_tag m = ''notify'' \<Longrightarrow> extends s r (send_message s m) r"
  by (simp add: send_message_def extends_def)

lemma resolve_helper_notifies:
  assumes "line_breakpoint_resolve_helper env s lines a = Some s1"
  shows "extends s r s1 r"
proof -
  from assms obtain b l where "brk_at s a = Some b" "resolved_line lines b = Some l"
    "(case l of None \<Rightarrow> Some s
      | Some l \<Rightarrow> do { s1 \<leftarrow> brk_put s a (b\<lparr>bi_resolved_lineno := l, bi_resolved := True\<rparr>);
                      xdebug_dbgp_resolved_breakpoint_notification env s1 a }) = Some s1"
    by (auto simp: line_breakpoint_resolve_helper_def Option.bind_eq_Some_conv)
  then show ?thesis
  proof (cases l)
    case (Some k)
    then obtain s2 where s2: "brk_put s a (b\<lparr>bi_resolved_lineno := k, bi_resolved := True\<rparr>) = Some s2"
      "xdebug_dbgp_resolved_breakpoint_notification env s2 a = Some s1"
      using \<open>(case l of None \<Rightarrow> _ | Some l \<Rightarrow> _ l) = Some s1\<close> by (auto simp: Option.bind_eq_Some_conv)
    have n: "xn_tag (xdebug_xml_add_child (xdebug_xml_add_attribute (dbgp_node ''notify'') ''name'' ''breakpoint_resolved'') c) = ''notify''" for c
      by (simp add: dbgp_node_def)
    have "extends s2 r s1 r"
    proof (cases "con_send_notifications s2 = 0")
      case False
      with s2(2) obtain c where "s1 = send_message s2
          (xdebug_xml_add_child (xdebug_xml_add_attribute (dbgp_node ''notify'') ''name'' ''breakpoint_resolved'') c)"
        by (auto simp: xdebug_dbgp_resolved_breakpoint_notification_def Option.bind_eq_Some_conv)
      with send_notify_extends [OF n] show ?thesis by simp
    qed (use s2(2) in \<open>simp add: xdebug_dbgp_resolved_breakpoint_notification_def\<close>)
    with same_session_extends [OF brk_put_session [OF s2(1)]] show ?thesis
      by (rule extends_trans)
  qed simp
qed

lemma resolve_if_asked:
  "(if c then (case o1 of Some lines \<Rightarrow> line_breakpoint_resolve_helper env s1 lines a | None \<Rightarrow> Some s1) else Some s1) = Some s2 \<Longrightarrow>
   extends s1 r s2 r"
  using resolve_helper_notifies by (auto split: if_splits option.splits)

lemma do_action_answers: "answers s r (breakpoint_do_action env s args action r)"
proof -
  have rest: "answers s r
     (if \<not> ok then RETURN_RESULT s1 r XDEBUG_ERROR_INVALID_ARGS
      else do {
        node \<leftarrow> breakpoint_brk_info_add env s1 (xdebug_xml_node_init ''breakpoint'') ptr;
        if action = BREAKPOINT_ACTION_REMOVE
        then do { (s2, removed) \<leftarrow> breakpoint_remove s1 ty hkey;
                  Some (fst (breakpoint_admin_remove s2 d), xdebug_xml_add_child r node) }
        else Some (s1, xdebug_xml_add_child r node) })"
    if "same_session s s1" for s1 ok ptr ty hkey d
    using that by (intro answer_rules; auto simp: extends_def same_session_def dest!: breakpoint_remove_session)
  note steps = answers_constructs(3) [where s = s and r = r] answers_constructs(5-7) [where s = s and r = r]
  show ?thesis
    unfolding breakpoint_do_action_def
    apply (rule steps(2), rule answers_constructs(9), simp, rule steps(1), rule steps(3), rule answers_constructs(9), simp)
    apply (rule steps(4), rule steps(1), rule steps(1), rule steps(4), rule rest)
    apply (hypsubst, erule update_session)
    done
qed

lemma set_finish_answers [answer_rules]: "extends s r s1 r1 \<Longrightarrow> answers s r (set_finish s1 b r1)"
  unfolding set_finish_def by (intro answer_rules extends_more)

lemma set_line_insert_answers [answer_rules]:
  "extends s r s1 r1 \<Longrightarrow> answers s r (set_line_insert env s1 is_line a b r1)"
  unfolding set_line_insert_def
  by (intro answer_rules; (drule resolve_if_asked)?; auto simp: extends_def dest!: session_facts)

lemma set_line_answers [answer_rules]:
  "extends s r s1 r1 \<Longrightarrow> answers s r (set_line_breakpoint env s1 args is_line a b r1)"
  unfolding set_line_breakpoint_def
  by (intro answer_rules; assumption)

lemma set_function_answers [answer_rules]:
  "extends s r s1 r1 \<Longrightarrow> answers s r (set_function_breakpoint env s1 args is_call a b r1)"
  unfolding set_function_breakpoint_def
  by (intro answer_rules; auto simp: extends_def dest!: session_facts)

lemma set_exception_answers [answer_rules]:
  "extends s r s1 r1 \<Longrightarrow> answers s r (set_exception_breakpoint env s1 args a b r1)"
  unfolding set_exception_breakpoint_def
  by (intro answer_rules; auto simp: extends_def dest!: session_facts)

lemma set_common_extends:
  "set_common_options args b r1 = Some (b1, r2, ok) \<Longrightarrow> \<exists>more. xn_attribute r2 = xn_attribute r1 @ more \<and> xn_tag r2 = xn_tag r1"
  unfolding set_common_options_def
  by (auto simp: Option.bind_eq_Some_conv split: if_splits prod.splits)

lemma breakpoint_set_answers [answer_rules]: "answers s r (xdebug_dbgp_handle_breakpoint_set env s args r)"
proof -
  obtain s1 a where n: "brk_new s = (s1, a)" by fastforce
  have e: "extends s r s1 r" by (rule same_session_extends [OF brk_new_session [OF n]])
  have d: "extends s r s2 r" if "xdebug_brk_info_dtor s1 a = Some s2" for s2
    using extends_session [OF brk_dtor_session [OF that] e] .
  have c: "extends s r s1 r2" if "set_common_options args b r = Some (b2, r2, ok)" for b b2 r2 ok
    using e set_common_extends [OF that] by (auto simp: extends_def)
  show ?thesis
    unfolding xdebug_dbgp_handle_breakpoint_set_def n
    by (intro answer_rules) (auto dest: d c)
qed


section \<open>The other commands\<close>

lemma add_children_extends:
  "extends s x s1 r \<Longrightarrow> extends s x s1 (fold (\<lambda>m xml. xdebug_xml_add_child xml (f m)) ms r)"
  by (induction ms arbitrary: r) (simp_all add: extends_more)

lemma stackframes_extends: "stackframes env s is r = Some r1 \<Longrightarrow> extends s r s r1"
proof (induction env s "is" r rule: stackframes.induct)
  case (2 env s i "is" r)
  then obtain f where f: "extends s (xdebug_xml_add_child r f) s r1"
    by (auto simp: Option.bind_eq_Some_conv)
  then show ?case by (auto simp: extends_def)
qed simp

lemma brk_list_extends: "foldl (breakpoint_list_helper env s) xml hes = Some r1 \<Longrightarrow> \<exists>r. xml = Some r \<and> extends s r s r1"
proof (induction hes arbitrary: xml)
  case (Cons he hes)
  then obtain r where "breakpoint_list_helper env s xml he = Some r" "extends s r s r1" by auto
  then show ?case by (auto simp: breakpoint_list_helper_def Option.bind_eq_Some_conv extends_def)
qed simp

lemma simple_answers [answer_rules]:
  "answers s r (xdebug_dbgp_handle_context_names s r)"
  "answers s r (xdebug_dbgp_handle_typemap_get s r)"
  "answers s r (xdebug_dbgp_handle_stack_depth s r)"
  "answers s r (xdebug_dbgp_handle_status s r)"
  "answers s r (xdebug_dbgp_handle_stderr s r)"
  unfolding xdebug_dbgp_handle_context_names_def xdebug_dbgp_handle_typemap_get_def
    xdebug_dbgp_handle_stack_depth_def xdebug_dbgp_handle_status_def xdebug_dbgp_handle_stderr_def status_reason_def
  by (intro answer_rules extends_more add_children_extends extends_refl)+

lemma stdout_answers [answer_rules]: "answers s r (xdebug_dbgp_handle_stdout s args r)"
  unfolding xdebug_dbgp_handle_stdout_def by (intro answer_rules) (auto simp: extends_def)

lemma profiler_answers [answer_rules]: "answers s r (xdebug_dbgp_handle_xcmd_profiler_name_get env s r)"
  unfolding xdebug_dbgp_handle_xcmd_profiler_name_get_def by (intro answer_rules extends_more) simp_all

lemma executable_lines_answers [answer_rules]: "answers s r (xdebug_dbgp_handle_xcmd_get_executable_lines s args r)"
  unfolding xdebug_dbgp_handle_xcmd_get_executable_lines_def by (intro answer_rules extends_more) simp_all

lemma stack_get_answers [answer_rules]: "answers s r (xdebug_dbgp_handle_stack_get env s args r)"
  unfolding xdebug_dbgp_handle_stack_get_def
  by (intro answer_rules extends_more) (simp_all add: stackframes_extends)

lemma source_answers [answer_rules]: "answers s r (xdebug_dbgp_handle_source env s args r)"
  unfolding xdebug_dbgp_handle_source_def
  by (intro answer_rules extends_more) (auto simp: extends_def)

lemma feature_get_answers [answer_rules]: "answers s r (xdebug_dbgp_handle_feature_get env ex s args r)"
proof -
  have "extends s r s (feature_result v sup (xdebug_xml_add_attribute r a n))" for v sup a n
    by (cases v) (simp_all add: feature_result_def extends_def)
  then show ?thesis
    unfolding xdebug_dbgp_handle_feature_get_def
    by (intro answer_rules) (auto simp: Let_def extends_def split: option.splits)
qed

lemma feature_update_session: "feature_update n v opts s = Some s1 \<Longrightarrow> same_session s s1"
  by (auto simp: feature_update_def same_session_def split: if_splits)

lemma feature_set_answers [answer_rules]: "answers s r (xdebug_dbgp_handle_feature_set s args r)"
proof -
  have "extends s r s1 (xdebug_xml_add_attribute (xdebug_xml_add_attribute r a n) b m)"
    if "feature_update n v opts s = Some s1" for v opts s1 a n b m n2
    using feature_update_session [OF that] same_session_extends extends_more(1) by metis
  then show ?thesis
    unfolding xdebug_dbgp_handle_feature_set_def Let_def
    by (intro answer_rules) (simp_all add: extends_def)
qed

lemma eval_answers [answer_rules]: "answers s r (xdebug_dbgp_handle_eval env s args r)"
proof -
  have p: "extends s x s1 x" if "set_page s page = Some s1" for s page s1 x
    using that by (auto simp: set_page_def extends_def Option.bind_eq_Some_conv split: if_splits)
  have e: "extends s x s2 x" if "xdebug_do_eval env s1 str = (s2, res)" "set_page s page = Some s1" for s page s1 s2 str res x
    using that by (auto simp: xdebug_do_eval_def set_page_def extends_def Option.bind_eq_Some_conv split: if_splits)
  show ?thesis
    unfolding xdebug_dbgp_handle_eval_def RETURN_RESULT_WITH_MESSAGE_def
    by (intro answer_rules) (auto simp: xdebug_do_eval_def set_page_def extends_def Option.bind_eq_Some_conv split: if_splits)
qed

lemma breakpoint_list_answers [answer_rules]: "answers s r (xdebug_dbgp_handle_breakpoint_list env s args r)"
  unfolding xdebug_dbgp_handle_breakpoint_list_def xdebug_hash_apply_with_argument_def
  by (intro answer_rules) (auto dest: brk_list_extends)

section \<open>The dispatch\<close>

definition php_commands :: "string set" where
  "php_commands = {''context_get'', ''property_get'', ''property_set'', ''property_value''}"

lemma breakpoint_actions_answer [answer_rules]:
  "answers s r (xdebug_dbgp_handle_breakpoint_get env s args r)"
  "answers s r (xdebug_dbgp_handle_breakpoint_remove env s args r)"
  "answers s r (xdebug_dbgp_handle_breakpoint_update env s args r)"
  unfolding xdebug_dbgp_handle_breakpoint_get_def xdebug_dbgp_handle_breakpoint_remove_def
    xdebug_dbgp_handle_breakpoint_update_def
  by (rule do_action_answers)+

definition asks_only :: "string \<Rightarrow> bool" where
  "asks_only cmd \<longleftrightarrow> cmd \<notin> php_commands \<and> (case lookup_cmd cmd of Some command \<Rightarrow> cmd_cont command = 0 | None \<Rightarrow> False)"

lemma lookup_cmd_in: "lookup_cmd cmd = Some command \<Longrightarrow> command \<in> set dbgp_commands \<and> cmd_name command = cmd"
  by (auto simp: lookup_cmd_def find_Some_iff)

lemma asks_only_names: "asks_only cmd \<Longrightarrow> cmd \<in> set
   [''breakpoint_get'', ''breakpoint_list'', ''breakpoint_remove'', ''breakpoint_set'', ''breakpoint_update'',
    ''context_names'', ''eval'', ''feature_get'', ''feature_set'', ''typemap_get'', ''source'', ''stack_depth'',
    ''stack_get'', ''status'', ''stderr'', ''stdout'', ''xcmd_profiler_name_get'', ''xcmd_get_executable_lines'']"
proof -
  have c: "list_all (\<lambda>c. cmd_cont c = 0 \<longrightarrow> cmd_name c \<in> set
     [''context_get'', ''property_get'', ''property_set'', ''property_value'',
      ''breakpoint_get'', ''breakpoint_list'', ''breakpoint_remove'', ''breakpoint_set'', ''breakpoint_update'',
      ''context_names'', ''eval'', ''feature_get'', ''feature_set'', ''typemap_get'', ''source'', ''stack_depth'',
      ''stack_get'', ''status'', ''stderr'', ''stdout'', ''xcmd_profiler_name_get'', ''xcmd_get_executable_lines'']) dbgp_commands"
    by code_simp
  assume a: "asks_only cmd"
  then obtain command where "command \<in> set dbgp_commands" "cmd_name command = cmd" "cmd_cont command = 0"
    using lookup_cmd_in by (auto simp: asks_only_def split: option.splits)
  with c a show ?thesis by (auto simp: list_all_iff asks_only_def php_commands_def)
qed

lemma handler_answers: "asks_only cmd \<Longrightarrow> answers s r (dbgp_handler env php cmd s args r)"
proof (drule asks_only_names)
  assume "cmd \<in> set
   [''breakpoint_get'', ''breakpoint_list'', ''breakpoint_remove'', ''breakpoint_set'', ''breakpoint_update'',
    ''context_names'', ''eval'', ''feature_get'', ''feature_set'', ''typemap_get'', ''source'', ''stack_depth'',
    ''stack_get'', ''status'', ''stderr'', ''stdout'', ''xcmd_profiler_name_get'', ''xcmd_get_executable_lines'']"
  then show "answers s r (dbgp_handler env php cmd s args r)"
    by (simp only: list.set insert_iff empty_iff, elim disjE FalseE; simp add: dbgp_handler_def answer_rules)
qed

lemma answersD: "answers s r (Some (s1, r1)) \<Longrightarrow> extends s r s1 r1"
  by (simp add: answers_def post_def)

lemma extends_put: "extends (s\<lparr>dbg_lastcmd := c, dbg_lasttransid := i\<rparr>) r s1 r1 \<Longrightarrow> extends s r s1 r1"
  by (simp add: extends_def)

lemma add_error_extends: "add_error e r = Some r1 \<Longrightarrow> extends s r s r1"
  by (auto simp: add_error_def extends_def)

lemma execute_extends:
  assumes "execute_command env php s cmd args r = Some (s1, r1, ret)" "asks_only cmd" "dbg_status s \<noteq> DBGP_STATUS_STOPPING"
  shows "extends s r s1 r1 \<and> ret = 0"
proof -
  from assms(2) obtain command where c: "lookup_cmd cmd = Some command" "cmd_cont command = 0" "cmd_name command = cmd"
    using lookup_cmd_in by (auto simp: asks_only_def split: option.splits)
  with assms(1,3) obtain i where
    "dbgp_handler env php cmd (s\<lparr>dbg_lastcmd := Some cmd, dbg_lasttransid := Some i\<rparr>) args r = Some (s1, r1)" "ret = 0"
    by (auto simp: execute_command_def Option.bind_eq_Some_conv Let_def split: prod.splits)
  then show ?thesis
    using handler_answers [OF assms(2), of "s\<lparr>dbg_lastcmd := Some cmd, dbg_lasttransid := Some i\<rparr>" r env php args]
    by (auto dest: answersD extends_put)
qed

section \<open>One line\<close>

text \<open>The attributes every response to a line begins with, and the lines that ask and do not continue.\<close>

definition response_head :: "string \<Rightarrow> (string \<times> string) list" where
  "response_head line =
     xn_attribute (dbgp_node ''response'') @
     (case xdebug_cmd_parse line of
        Some (res, cmd, args) \<Rightarrow>
          (case cmd of Some c \<Rightarrow> [(''command'', c)] | None \<Rightarrow> []) @
          (case CMD_OPTION_CHAR args (CHR ''i'') of Some i \<Rightarrow> [(''transaction_id'', i)] | None \<Rightarrow> [])
      | None \<Rightarrow> [])"

definition asking_line :: "string \<Rightarrow> bool" where
  "asking_line line \<longleftrightarrow>
     (case xdebug_cmd_parse line of
        Some (res, Some cmd, args) \<Rightarrow> res \<noteq> XDEBUG_ERROR_OK \<or> \<not> CMD_OPTION_SET args (CHR ''i'') \<or> asks_only cmd
      | Some (res, None, args) \<Rightarrow> True
      | None \<Rightarrow> False)"

lemma parse_option_extends:
  assumes "xdebug_dbgp_parse_option env php s line (dbgp_node ''response'') = Some (s1, r1, ret)"
    "asking_line line" "dbg_status s \<noteq> DBGP_STATUS_STOPPING"
  shows "ret = 0 \<and> xn_tag r1 = ''response'' \<and> (\<exists>more. xn_attribute r1 = response_head line @ more) \<and>
    dbg_status s1 = dbg_status s \<and> dbg_connection_enabled s1 = dbg_connection_enabled s \<and>
    (\<exists>ns. dbg_sent s1 = dbg_sent s @ ns \<and> (\<forall>n \<in> set ns. xn_tag n = ''notify''))"
proof -
  obtain res cmd args where p: "xdebug_cmd_parse line = Some (res, cmd, args)"
    using assms(1) by (auto simp: xdebug_dbgp_parse_option_def Option.bind_eq_Some_conv)
  let ?r = "add_opt_attribute ''transaction_id'' (CMD_OPTION_CHAR args (CHR ''i'')) (add_opt_attribute ''command'' cmd (dbgp_node ''response''))"
  have head: "xn_attribute ?r = response_head line" "xn_tag ?r = ''response''"
    by (auto simp: response_head_def p add_opt_attribute_def dbgp_node_def split: option.splits)
  have "extends s ?r s1 r1 \<and> ret = 0"
  proof (cases "(if CMD_OPTION_SET args (CHR ''i'') then res else XDEBUG_ERROR_INVALID_ARGS) = XDEBUG_ERROR_OK")
    case True
    with assms p obtain c where "cmd = Some c" "execute_command env php s c args ?r = Some (s1, r1, ret)" "asks_only c"
      by (auto simp: xdebug_dbgp_parse_option_def asking_line_def dbgp_error_codes Let_def Option.bind_eq_Some_conv split: if_splits)
    with execute_extends assms(3) show ?thesis by blast
  next
    case False
    with assms(1) p show ?thesis
      by (auto simp: xdebug_dbgp_parse_option_def Let_def dest: add_error_extends)
  qed
  with head show ?thesis by (auto simp: extends_def)
qed


section \<open>The loop on whole lines\<close>

text \<open>What the loop does with a list of lines, whatever the arrivals that bring their bytes; the lines left over come with the result.\<close>

fun serve ::
  "dbg_env \<Rightarrow> (string \<Rightarrow> command_handler) \<Rightarrow> bool \<Rightarrow> debugger \<Rightarrow> string list \<Rightarrow> (debugger \<times> string list \<times> loop_result) option" where
  "serve env php bail s [] = Some (s\<lparr>dbg_connection_enabled := False\<rparr>, [], Loop_returned 0)"
| "serve env php bail s (m # ms) =
     (case xdebug_dbgp_parse_option env php s m (dbgp_node ''response'') of
        None \<Rightarrow> None
      | Some (s1, response, ret) \<Rightarrow>
          (let s2 = (if ret \<noteq> 1 then send_message s1 response else s1) in
           if ret = 0 then serve env php bail s2 ms
           else Some (s2, ms, if bail \<and> dbg_status s2 = DBGP_STATUS_STOPPED then Loop_bailout else Loop_returned ret)))"

definition pending_bytes :: "fd_conn \<Rightarrow> string" where
  "pending_bytes c = fc_buffer c @ arriving (fc_socket c)"

lemma fd_fill_nothing: "arrivals_ok evs \<Longrightarrow> arriving evs = [] \<Longrightarrow> fd_fill delim [] evs = (None, [])"
proof (induction evs)
  case (Cons ev evs)
  then show ?case by (cases ev) (simp_all add: fd_fill.simps [of delim "[]" "Recv_interrupted # evs"])
qed (simp add: fd_fill.simps)

lemma packets_Nil [simp]: "packets [] = []" by (simp add: packets_def)

lemma cmdloop_serve:
  "arrivals_ok (fc_socket c) \<Longrightarrow> pending_bytes c = packets ms \<Longrightarrow> list_all is_cstr ms \<Longrightarrow>
   length (packets ms) < DBGP_MAX_PACKET_SIZE \<Longrightarrow>
   map_option (\<lambda>(s1, c1, r). (s1, pending_bytes c1, r)) (xdebug_dbgp_cmdloop env php bail c s) =
   map_option (\<lambda>(s1, rest, r). (s1, packets rest, r)) (serve env php bail s ms)"
proof (induction ms arbitrary: c s)
  case Nil
  then have "xdebug_fd_read_line_delim NUL c = (None, \<lparr>fc_buffer = [], fc_socket = []\<rparr>)"
    using fd_fill_nothing [of "fc_socket c" NUL] by (simp add: pending_bytes_def xdebug_fd_read_line_delim_def)
  then show ?case by (simp add: xdebug_dbgp_cmdloop.simps pending_bytes_def)
next
  case (Cons m ms)
  obtain c' where c': "xdebug_fd_read_line_delim NUL c = (Some m, c')" "arrivals_ok (fc_socket c')"
    "fc_buffer c' @ arriving (fc_socket c') = packets ms"
    using read_line_packet [OF Cons.prems(1), of m ms] Cons.prems(2-4) by (auto simp: pending_bytes_def)
  have l: "length (packets ms) < DBGP_MAX_PACKET_SIZE" using Cons.prems(4) by (simp add: packets_def)
  note IH = Cons.IH [OF c'(2) _ _ l, unfolded pending_bytes_def, OF c'(3)]
  show ?case
    using c'(1,3) IH Cons.prems(3)
    by (subst xdebug_dbgp_cmdloop.simps) (simp add: pending_bytes_def Let_def split: option.split prod.split)
qed

definition responses :: "xml_node list \<Rightarrow> xml_node list" where
  "responses out = filter (\<lambda>x. xn_tag x = ''response'') out"

definition responds :: "string \<Rightarrow> xml_node \<Rightarrow> bool" where
  "responds m x \<longleftrightarrow> (\<exists>more. xn_attribute x = response_head m @ more)"

lemma serve_answers:
  "serve env php bail s ms = Some (s1, rest, r) \<Longrightarrow> list_all asking_line ms \<Longrightarrow> dbg_connection_enabled s \<Longrightarrow>
   dbg_status s \<noteq> DBGP_STATUS_STOPPING \<Longrightarrow>
   rest = [] \<and> r = Loop_returned 0 \<and> (\<exists>out. dbg_sent s1 = dbg_sent s @ out \<and> list_all2 responds ms (responses out))"
proof (induction ms arbitrary: s)
  case Nil
  then show ?case by (auto simp: responses_def)
next
  case (Cons m ms)
  from Cons.prems(1) obtain s2 x ret where p: "xdebug_dbgp_parse_option env php s m (dbgp_node ''response'') = Some (s2, x, ret)"
    by (auto split: option.splits)
  from parse_option_extends [OF p] Cons.prems obtain ns where
    q: "ret = 0" "xn_tag x = ''response''" "responds m x" "dbg_status s2 = dbg_status s" "dbg_connection_enabled s2"
      "dbg_sent s2 = dbg_sent s @ ns" "responses ns = []"
    by (auto simp: responds_def responses_def)
  let ?s = "send_message s2 x"
  have s: "dbg_sent ?s = dbg_sent s @ ns @ [x]" "dbg_connection_enabled ?s" "dbg_status ?s = dbg_status s"
    using q by (simp_all add: send_message_def)
  from p q Cons.prems s have "rest = [] \<and> r = Loop_returned 0 \<and>
    (\<exists>out. dbg_sent s1 = dbg_sent ?s @ out \<and> list_all2 responds ms (responses out))"
    by (intro Cons.IH) simp_all
  then obtain out where "rest = []" "r = Loop_returned 0" "dbg_sent s1 = dbg_sent s @ (ns @ [x] @ out)" "list_all2 responds ms (responses out)"
    using s(1) by auto
  moreover have "responses (ns @ [x] @ out) = x # responses out" using q by (simp add: responses_def)
  ultimately show ?case using q(3) by (metis list_all2_Cons)
qed

end
