(* ===== verification/Xd_Zval.thy ===== *)
theory Xd_Zval
  imports Xd_Dbg_State Xd_Textutil
begin

text \<open>
  Arrays, objects and classes of PHP, as \<open>src/lib/var.c\<close> and \<open>src/lib/var_export_xml.c\<close> read them: the engine
  maps the addresses that values hold to contents.  Every function of the PHP engine that the code asks is a field of \<open>php_engine\<close>.  The branches
  for PHP 8.4 and later are the ones modelled.
\<close>

section \<open>Tables, classes and objects\<close>

record zend_array =
  za_elements :: hash_table
  za_immutable :: bool

record property_info =
  pi_name :: string
  pi_static :: bool
  pi_readonly :: bool
  pi_virtual :: bool
  pi_offset :: nat

datatype zend_class_entry =
  Class_entry (ce_name: string) (ce_internal: bool) (ce_enum: bool) (ce_immutable: bool)
    (ce_parent: "zend_class_entry option") (ce_properties_info: "(string \<times> property_info) list")
    (ce_default_static_members_count: nat) (ce_static_members: "pzval list option")

datatype lazy_state = Not_lazy | Lazy_proxy | Lazy_ghost bool

record closure_func =
  cf_user :: bool
  cf_static_variables :: bool
  cf_static_variables_ptr :: bool

text \<open>
  \<open>zend_get_properties_for\<close> gives the tables \<open>ob_debug_table\<close> and \<open>ob_export_table\<close>, \<open>Z_OBJPROP\<close> gives
  \<open>ob_properties\<close>, \<open>zend_get_properties_no_lazy_init\<close> gives \<open>ob_stored\<close>; \<open>ob_protected\<close> says whether the
  engine has the table protected against recursion.
\<close>

record php_object =
  ob_ce :: zend_class_entry
  ob_class_name :: string
  ob_lazy :: lazy_state
  ob_closure :: "closure_func option"
  ob_has_debug_info :: bool
  ob_properties :: hash_table
  ob_stored :: hash_table
  ob_debug_table :: "hash_table option"
  ob_export_table :: "hash_table option"
  ob_protected :: bool

text \<open>The result of \<open>zend_read_property\<close>: a slot, a value it stored in the caller's \<open>rv\<close>, or the engine's uninitialised value.\<close>

datatype read_result = Read_slot pzval | Read_rv pzval | Read_uninitialized

record php_engine =
  pe_array :: "nat \<Rightarrow> zend_array"
  pe_object :: "nat \<Rightarrow> php_object"
  pe_ref :: "nat \<Rightarrow> pzval"
  pe_fetch_class :: "string \<Rightarrow> zend_class_entry option"
  pe_class_init_statics :: "zend_class_entry \<Rightarrow> zend_class_entry"
  pe_property_info :: "zend_class_entry \<Rightarrow> string \<Rightarrow> property_info option"
  pe_unmangle :: "string \<Rightarrow> string option \<times> string"
  pe_read_property :: "zend_class_entry \<Rightarrow> nat \<Rightarrow> string \<Rightarrow> read_result"
  pe_numeric_key :: "string \<Rightarrow> int option"
  pe_hash_func :: "string \<Rightarrow> nat"
  pe_exception :: "nat option"
  pe_in_debug_info :: bool
  pe_constant :: "string \<Rightarrow> pzval option"
  pe_constants :: "(string \<times> bool \<times> pzval) list"

section \<open>Reading values\<close>

definition deref_indirect :: "pzval \<Rightarrow> pzval" where
  "deref_indirect z = (case z of IS_INDIRECT z1 \<Rightarrow> z1 | _ \<Rightarrow> z)"

definition deref_reference :: "php_engine \<Rightarrow> pzval \<Rightarrow> pzval" where
  "deref_reference pe z = (case z of IS_REFERENCE a \<Rightarrow> pe_ref pe a | _ \<Rightarrow> z)"

text \<open>The engine's tables: by a string key, by a number, and by a string that may be a number.\<close>

definition zend_hash_str_find :: "hash_table \<Rightarrow> string \<Rightarrow> pzval option" where
  "zend_hash_str_find ht k = map_of ht (Key_str k)"

definition zend_hash_index_find :: "hash_table \<Rightarrow> int \<Rightarrow> pzval option" where
  "zend_hash_index_find ht n = map_of ht (Key_num n)"

definition zend_symtable_str_find :: "php_engine \<Rightarrow> hash_table \<Rightarrow> string \<Rightarrow> pzval option" where
  "zend_symtable_str_find pe ht k =
     (case pe_numeric_key pe k of Some n \<Rightarrow> zend_hash_index_find ht n | None \<Rightarrow> zend_hash_str_find ht k)"

text \<open>\<open>ZEND_HASH_FOREACH_KEY_VAL_IND\<close>: slots are followed, undefined elements skipped.\<close>

definition foreach_ind :: "hash_table \<Rightarrow> hash_table" where
  "foreach_ind ht = filter (\<lambda>(k, z). z \<noteq> IS_UNDEF) (map (\<lambda>(k, z). (k, deref_indirect z)) ht)"

definition fetch_ht_from_zval :: "php_engine \<Rightarrow> pzval \<Rightarrow> hash_table option" where
  "fetch_ht_from_zval pe z =
     (case z of
        IS_ARRAY a \<Rightarrow> Some (za_elements (pe_array pe a))
      | IS_OBJECT a \<Rightarrow> Some (ob_properties (pe_object pe a))
      | _ \<Rightarrow> None)"

definition fetch_classname_from_zval :: "php_engine \<Rightarrow> pzval \<Rightarrow> (string \<times> zend_class_entry) option" where
  "fetch_classname_from_zval pe z =
     (case deref_reference pe (deref_indirect z) of
        IS_OBJECT a \<Rightarrow> Some (ob_class_name (pe_object pe a), ob_ce (pe_object pe a))
      | _ \<Rightarrow> None)"

definition is_objectish :: "php_engine \<Rightarrow> pzval \<Rightarrow> bool" where
  "is_objectish pe z =
     (case z of
        IS_OBJECT _ \<Rightarrow> True
      | IS_INDIRECT (IS_OBJECT _) \<Rightarrow> True
      | IS_REFERENCE a \<Rightarrow> (case pe_ref pe a of IS_OBJECT _ \<Rightarrow> True | _ \<Rightarrow> False)
      | _ \<Rightarrow> False)"

text \<open>\<open>CE_STATIC_MEMBERS(ce)[zpp->offset]\<close>: the members may not be there, the offset may be of another table.\<close>

definition static_member :: "zend_class_entry \<Rightarrow> property_info \<Rightarrow> pzval option" where
  "static_member ce zpp =
     (case ce_static_members ce of
        Some members \<Rightarrow> if pi_offset zpp < length members then Some (members ! pi_offset zpp) else None
      | None \<Rightarrow> None)"

section \<open>The table that describes an object\<close>

fun class_or_ancestor_is_internal :: "zend_class_entry \<Rightarrow> bool" where
  "class_or_ancestor_is_internal (Class_entry n internal en im parent infos cnt members) =
     (internal \<or> (case parent of Some p \<Rightarrow> class_or_ancestor_is_internal p | None \<Rightarrow> False))"

definition object_or_ancestor_is_internal :: "php_object \<Rightarrow> bool" where
  "object_or_ancestor_is_internal obj = class_or_ancestor_is_internal (ob_ce obj)"

definition object_with_missing_closure_variables :: "php_object \<Rightarrow> bool" where
  "object_with_missing_closure_variables obj =
     (ce_name (ob_ce obj) = ''Closure'' \<and>
      (case ob_closure obj of
         Some f \<Rightarrow> cf_user f \<and> cf_static_variables f \<and> \<not> cf_static_variables_ptr f
       | None \<Rightarrow> False))"

definition XDEBUG_VAR_OBJDEBUG_DEFAULT :: bool where "XDEBUG_VAR_OBJDEBUG_DEFAULT = False"

definition xdebug_objdebug_pp :: "php_engine \<Rightarrow> php_object \<Rightarrow> bool \<Rightarrow> hash_table option" where
  "xdebug_objdebug_pp pe obj use_debuginfo =
     (if \<not> pe_in_debug_info pe \<and> (object_or_ancestor_is_internal obj \<or> use_debuginfo) \<and>
         \<not> object_with_missing_closure_variables obj \<and> ob_has_debug_info obj \<and> pe_exception pe = None
      then ob_debug_table obj
      else ob_export_table obj)"

section \<open>Names of properties\<close>

text \<open>The unmangled name, the modifier and the class the mangled name carries.\<close>

definition xdebug_get_property_info :: "php_engine \<Rightarrow> string \<Rightarrow> string \<times> string \<times> string option" where
  "xdebug_get_property_info pe mangled_property =
     (let (cls_name, tmp_prop_name) = pe_unmangle pe mangled_property in
      (tmp_prop_name,
       case cls_name of
         Some c \<Rightarrow> if cget c 0 = CHR ''*'' then ''protected'' else ''private''
       | None \<Rightarrow> ''public'',
       map_option c_str cls_name))"

text \<open>The escaping of \<open>xdebug_addslashes\<close>: up to the first byte that needs it the bytes are copied.\<close>

definition needs_slash :: "char \<Rightarrow> bool" where
  "needs_slash c \<longleftrightarrow> c = NUL \<or> c = CHR 0x27 \<or> c = DQUOTE \<or> c = BSLASH"

fun slash_copy :: "string \<Rightarrow> string" where
  "slash_copy [] = []"
| "slash_copy (c # source) =
     (if c = NUL then BSLASH # CHR ''0'' # slash_copy source
      else if c = CHR 0x27 \<or> c = DQUOTE \<or> c = BSLASH then BSLASH # c # slash_copy source
      else c # slash_copy source)"

definition xdebug_addslashes :: "string \<Rightarrow> string" where
  "xdebug_addslashes str =
     (let offset = length (takeWhile (\<lambda>c. \<not> needs_slash c) str) in
      if offset = length str then str else take offset str @ slash_copy (drop offset str))"

lemma slash_copy_append: "slash_copy (s @ t) = slash_copy s @ slash_copy t"
  by (induction s) auto

lemma slash_copy_id: "list_all (\<lambda>c. \<not> needs_slash c) s \<Longrightarrow> slash_copy s = s"
  by (induction s) (auto simp: needs_slash_def)

lemma xdebug_addslashes_all: "xdebug_addslashes s = slash_copy s"
proof -
  let ?p = "takeWhile (\<lambda>c. \<not> needs_slash c) s"
  have p: "slash_copy ?p = ?p" by (rule slash_copy_id) (auto simp: list_all_iff dest: set_takeWhileD)
  have tk: "take (length ?p) s = ?p" by (metis takeWhile_eq_take)
  have s: "?p @ drop (length ?p) s = s" using tk by (metis append_take_drop_id)
  have "slash_copy s = ?p @ slash_copy (drop (length ?p) s)"
    using slash_copy_append [of ?p "drop (length ?p) s"] p s by simp
  moreover have "length ?p = length s \<Longrightarrow> ?p = s" using tk by simp
  ultimately show ?thesis using tk p by (auto simp: xdebug_addslashes_def Let_def)
qed

text \<open>
  Unescaping takes the slashes away again, unless a NUL is followed by an octal digit, which the escape
  sequence of the NUL would swallow.
\<close>

fun nul_then_octal :: "string \<Rightarrow> bool" where
  "nul_then_octal (c # d # s) = (c = NUL \<and> isoctal d \<or> nul_then_octal (d # s))"
| "nul_then_octal _ = False"

lemma escape_of_simple:
  "escape_of (BSLASH # t) = (BSLASH, 1)" "escape_of (DQUOTE # t) = (DQUOTE, 1)" "escape_of (CHR 0x27 # t) = (CHR 0x27, 1)"
  by (simp_all add: escape_of_def simple_escape_def octal_digits_def isoctal_def ord_def)

lemma isoctal_chars: "\<not> isoctal BSLASH" "isoctal (CHR ''0'')" "\<not> isoctal NUL" "\<not> isoctal DQUOTE" "\<not> isoctal (CHR 0x27)"
  by (simp_all add: isoctal_def ord_def)

lemma zero_char: "to_char (base_val 8 0 [CHR ''0'']) = NUL"
  by code_simp

lemma escape_of_zero:
  assumes "t = [] \<or> \<not> isoctal (hd t)" shows "escape_of (CHR ''0'' # t) = (NUL, 1)"
proof -
  have "octal_digits (CHR ''0'' # t) = [CHR ''0'']"
    using assms by (cases t) (simp_all add: octal_digits_def isoctal_chars)
  then show ?thesis using zero_char by (simp add: escape_of_def simple_escape_def)
qed

lemma slash_copy_hd: "slash_copy s \<noteq> [] \<Longrightarrow> isoctal (hd (slash_copy s)) \<Longrightarrow> s \<noteq> [] \<and> isoctal (hd s)"
  by (cases s) (auto simp: isoctal_chars split: if_splits)

lemma unescape_slash_copy: "\<not> nul_then_octal s \<Longrightarrow> unescape (slash_copy s) = s"
proof (induction s)
  case (Cons c s)
  then have s: "unescape (slash_copy s) = s" by (cases s) auto
  show ?case
  proof (cases "c = NUL")
    case True
    with Cons.prems have "slash_copy s = [] \<or> \<not> isoctal (hd (slash_copy s))"
      using slash_copy_hd [of s] by (cases s) auto
    then show ?thesis using True s by (simp add: unescape.simps(2) escape_of_zero)
  next
    case False
    then show ?thesis using s by (auto simp: unescape.simps(2) escape_of_simple)
  qed
qed simp

end
