(* ===== verification/Xd_Symbol.thy ===== *)
theory Xd_Symbol
  imports Xd_Zval "HOL-Library.Monad_Syntax"
begin

text \<open>
  Finding the value a debugger client names: \<open>xdebug_get_php_symbol\<close> of \<open>src/lib/var.c\<close>, which walks an
  expression such as \<open>$a->b["c"]\<close> with a state machine, and \<open>fetch_zval_from_symbol_table\<close>, which takes one step
  from a value to one of its parts.  \<open>None\<close> is an access outside of a string or of the table of static members.
\<close>

section \<open>Where names are looked up\<close>

datatype symbol_type = XF_ST_ROOT | XF_ST_ARRAY_INDEX_NUM | XF_ST_ARRAY_INDEX_ASSOC | XF_ST_OBJ_PROPERTY
  | XF_ST_STATIC_ROOT | XF_ST_STATIC_PROPERTY | XF_ST_ESCAPED_OBJ_PROPERTY

definition xdebug_lib_set_active_data :: "exec_data option \<Rightarrow> lib_scope \<Rightarrow> lib_scope" where
  "xdebug_lib_set_active_data data sc = sc\<lparr>sc_active_data := data\<rparr>"

definition xdebug_lib_set_active_stack_entry :: "function_stack_entry option \<Rightarrow> lib_scope \<Rightarrow> lib_scope" where
  "xdebug_lib_set_active_stack_entry fse sc = sc\<lparr>sc_active_stack_entry := fse\<rparr>"

definition xdebug_lib_set_active_symbol_table :: "hash_table option \<Rightarrow> lib_scope \<Rightarrow> lib_scope" where
  "xdebug_lib_set_active_symbol_table table sc = sc\<lparr>sc_active_symbol_table := table\<rparr>"

text \<open>\<open>active_object\<close> is set with the execute data, to its \<open>This\<close>.\<close>

definition xdebug_lib_get_active_object :: "lib_scope \<Rightarrow> pzval option" where
  "xdebug_lib_get_active_object sc = map_option ed_this (sc_active_data sc)"

text \<open>The scope, and what the debugger adds to it; \<open>sy_self_class\<close> is the class the engine fetches for \<open>self\<close>.\<close>

record symbol_env =
  sy_scope :: lib_scope
  sy_self_class :: "zend_class_entry option"
  sy_return_value :: "pzval option"
  sy_virtual_exception_value :: bool

definition XDEBUG_RETURN_VALUE_VAR_NAME :: string where "XDEBUG_RETURN_VALUE_VAR_NAME = ''__RETURN_VALUE''"
definition XDEBUG_EXCEPTION_VALUE_VAR_NAME :: string where "XDEBUG_EXCEPTION_VALUE_VAR_NAME = ''__EXCEPTION''"

section \<open>Keys\<close>

definition prepare_search_key :: "string \<Rightarrow> string option \<Rightarrow> nat \<Rightarrow> string option" where
  "prepare_search_key name prefix prefix_length =
     (if prefix_length = 0 then Some name
      else do { p \<leftarrow> prefix;
                let n = (if cget p 0 = CHR ''*'' then 1 else prefix_length);
                if n \<le> length p + 1 then Some (NUL # take n (p @ [NUL]) @ [NUL] @ name) else None })"

text \<open>The duplicate ends at the first NUL of the buffer, the loop runs to \<open>name_length\<close>.\<close>

definition replace_star_by_null :: "string \<Rightarrow> nat \<Rightarrow> string option" where
  "replace_star_by_null buf name_length =
     (let tmp = c_str buf @ [NUL] in
      if name_length \<le> length tmp
      then Some (map (\<lambda>c. if c = CHR ''*'' then NUL else c) (take name_length tmp))
      else None)"

definition strtoull10 :: "string \<Rightarrow> nat" where
  "strtoull10 s =
     (let t = dropWhile isspace s;
          u = (if cget t 0 = CHR ''-'' \<or> cget t 0 = CHR ''+'' then drop 1 t else t);
          n = digits_val 0 (takeWhile isdigit u)
      in if 2 ^ 64 \<le> n then 2 ^ 64 - 1
         else if cget t 0 = CHR ''-'' then (2 ^ 64 - n) mod 2 ^ 64 else n)"

text \<open>A 64-bit index as the engine's signed key.\<close>

definition signed64 :: "nat \<Rightarrow> int" where
  "signed64 n = (int n + 2 ^ 63) mod 2 ^ 64 - 2 ^ 63"

section \<open>One step\<close>

definition fetch_static :: "php_engine \<Rightarrow> zend_class_entry option \<Rightarrow> string \<Rightarrow> nat \<Rightarrow> pzval option" where
  "fetch_static pe cce buf name_length =
     (let cce1 = map_option (\<lambda>ce. if ce_internal ce \<or> ce_immutable ce then pe_class_init_statics pe ce else ce) cce;
          find_info = (\<lambda>element. case cce1 of Some ce \<Rightarrow> map_option (\<lambda>z. (ce, z)) (map_of (ce_properties_info ce) element)
                                           | None \<Rightarrow> None);
          starred =
            (if cget buf 0 = CHR ''*''
             then (case strstr (c_str (drop 1 buf)) ''*'' of
                     Some k \<Rightarrow>
                       if k + 2 \<le> name_length
                       then (case find_info (slice (k + 2) name_length buf) of
                               Some (ce, zpp) \<Rightarrow> static_member ce zpp
                             | None \<Rightarrow> Some IS_UNDEF)
                       else None
                   | None \<Rightarrow> Some IS_UNDEF)
             else Some IS_UNDEF)
      in case find_info (take name_length buf) of
           Some (ce, zpp) \<Rightarrow>
             if ce_default_static_members_count ce \<noteq> 0 \<and> ce_static_members ce \<noteq> None then static_member ce zpp else starred
         | None \<Rightarrow> starred)"

text \<open>The compiled variables: the first one with the name's hash, length and bytes.\<close>

fun find_compiled :: "(string \<Rightarrow> nat) \<Rightarrow> string \<Rightarrow> string list \<Rightarrow> pzval list \<Rightarrow> pzval option" where
  "find_compiled h element (v # vars) (z # cvs) =
     (if h v = h element \<and> length v = length element \<and> strneq (c_str v) (c_str element) (length element)
      then Some z else find_compiled h element vars cvs)"
| "find_compiled h element _ _ = None"

definition fetch_compiled :: "php_engine \<Rightarrow> symbol_env \<Rightarrow> string \<Rightarrow> pzval option" where
  "fetch_compiled pe sy element =
     (case sc_active_data (sy_scope sy) of
        Some data \<Rightarrow>
          (case ed_func data of
             Some (True, Some vars) \<Rightarrow> find_compiled (pe_hash_func pe) element vars (ed_cvs data)
           | _ \<Rightarrow> None)
      | None \<Rightarrow> None)"

definition fetch_assoc :: "symbol_env \<Rightarrow> bool \<Rightarrow> hash_table option \<Rightarrow> string \<Rightarrow> pzval" where
  "fetch_assoc sy root ht name =
     (let (element, n) = xdebug_stripcslashes (name @ [NUL]) (length name) in
      if root \<and> c_str element = ''this''
      then (case xdebug_lib_get_active_object (sy_scope sy) of Some this \<Rightarrow> this | None \<Rightarrow> IS_UNDEF)
      else (case ht of
              Some table \<Rightarrow> (case zend_hash_str_find table (take (nat n) element) of Some z \<Rightarrow> z | None \<Rightarrow> IS_UNDEF)
            | None \<Rightarrow> IS_UNDEF))"

definition fetch_root :: "php_engine \<Rightarrow> symbol_env \<Rightarrow> string \<Rightarrow> nat \<Rightarrow> pzval" where
  "fetch_root pe sy buf name_length =
     (case (sy_return_value sy, strneq (c_str buf) XDEBUG_RETURN_VALUE_VAR_NAME name_length) of
        (Some z, True) \<Rightarrow> z
      | _ \<Rightarrow>
        (case (pe_exception pe, sy_virtual_exception_value sy \<and> strneq (c_str buf) XDEBUG_EXCEPTION_VALUE_VAR_NAME name_length) of
           (Some a, True) \<Rightarrow> IS_OBJECT a
         | _ \<Rightarrow>
           (case fetch_compiled pe sy (take name_length buf) of
              Some z \<Rightarrow> z
            | None \<Rightarrow> fetch_assoc sy True (sc_active_symbol_table (sy_scope sy)) (take name_length buf))))"

definition fetch_index :: "hash_table option \<Rightarrow> string \<Rightarrow> pzval" where
  "fetch_index ht name =
     (case ht of
        Some table \<Rightarrow> (case zend_hash_index_find table (signed64 (strtoull10 (c_str name))) of Some z \<Rightarrow> z | None \<Rightarrow> IS_UNDEF)
      | None \<Rightarrow> IS_UNDEF)"

subsection \<open>Properties\<close>

definition spl_storages :: "(string \<times> string list) list" where
  "spl_storages =
     [(''storage'', [''ArrayObject'', ''ArrayIterator'', ''SplObjectStorage'']), (''dllist'', [''SplDoublyLinkedList'']),
      (''heap'', [''SplPriorityQueue''])]"

text \<open>The outer \<open>None\<close> is an access to a table that is not there, the inner one that nothing was found.\<close>

definition handle_spl_classes :: "php_object \<Rightarrow> string option \<Rightarrow> nat \<Rightarrow> string \<Rightarrow> nat \<Rightarrow> pzval option option" where
  "handle_spl_classes obj ccn ccnl prop_name prop_name_len =
     (case find (\<lambda>(p, cs). strneq (c_str prop_name) p prop_name_len) spl_storages of
        None \<Rightarrow> Some None
      | Some (p, cs) \<Rightarrow>
          (case find (\<lambda>c. strneq (case ccn of Some n \<Rightarrow> n | None \<Rightarrow> []) c ccnl) cs of
             None \<Rightarrow> Some None
           | Some c \<Rightarrow> map_option (\<lambda>table. zend_hash_str_find table (NUL # c @ [NUL] @ p)) (ob_debug_table obj)))"

text \<open>The table that describes the object: the name, then the name with NULs for stars; a hooked property ends the search.\<close>

definition fetch_described :: "php_engine \<Rightarrow> php_object \<Rightarrow> string \<Rightarrow> nat \<Rightarrow> pzval option option" where
  "fetch_described pe obj buf name_length =
     (case xdebug_objdebug_pp pe obj XDEBUG_VAR_OBJDEBUG_DEFAULT of
        None \<Rightarrow> Some None
      | Some myht \<Rightarrow>
          (case zend_symtable_str_find pe myht (take name_length buf) of
             Some (IS_PTR _) \<Rightarrow> Some None
           | Some z \<Rightarrow> Some (Some z)
           | None \<Rightarrow> map_option (zend_symtable_str_find pe myht) (replace_star_by_null buf name_length)))"

text \<open>Public, protected, private; then the storage of the classes of SPL.  \<open>rv\<close> is what \<open>zend_read_property\<close> left.\<close>

definition fetch_mangled :: "php_engine \<Rightarrow> php_object \<Rightarrow> string \<Rightarrow> nat \<Rightarrow> string option \<Rightarrow> nat \<Rightarrow> pzval \<Rightarrow> pzval option" where
  "fetch_mangled pe obj buf name_length ccn ccnl rv =
     (let ht = ob_properties obj; name = take name_length buf in
      case zend_symtable_str_find pe ht name of
        Some z \<Rightarrow> Some z
      | None \<Rightarrow> do {
          protected \<leftarrow> prepare_search_key name (Some ''*'') 1;
          case zend_hash_str_find ht protected of
            Some z \<Rightarrow> Some z
          | None \<Rightarrow> do {
              private_name \<leftarrow> prepare_search_key name ccn ccnl;
              case zend_hash_str_find ht private_name of
                Some z \<Rightarrow> Some z
              | None \<Rightarrow> map_option (\<lambda>r. case r of Some z \<Rightarrow> z | None \<Rightarrow> rv) (handle_spl_classes obj ccn ccnl buf name_length) } })"

definition fetch_property ::
    "php_engine \<Rightarrow> pzval \<Rightarrow> string \<Rightarrow> nat \<Rightarrow> string option \<Rightarrow> nat \<Rightarrow> zend_class_entry option \<Rightarrow> pzval option" where
  "fetch_property pe value_in buf name_length ccn ccnl cce =
     (case value_in of
        IS_OBJECT a \<Rightarrow>
          do { described \<leftarrow> fetch_described pe (pe_object pe a) buf name_length;
               case described of
                 Some z \<Rightarrow> Some z
               | None \<Rightarrow>
                   (case cce of
                      Some ce \<Rightarrow>
                        (case pe_read_property pe ce a (take name_length buf) of
                           Read_slot z \<Rightarrow> Some z
                         | Read_rv z \<Rightarrow> fetch_mangled pe (pe_object pe a) buf name_length ccn ccnl z
                         | Read_uninitialized \<Rightarrow> fetch_mangled pe (pe_object pe a) buf name_length ccn ccnl IS_UNDEF)
                    | None \<Rightarrow> fetch_mangled pe (pe_object pe a) buf name_length ccn ccnl IS_UNDEF) }
      | _ \<Rightarrow> Some IS_UNDEF)"

text \<open>The escaped form works on an unescaped copy of the name.\<close>

definition fetch_escaped_property ::
    "php_engine \<Rightarrow> pzval \<Rightarrow> string \<Rightarrow> nat \<Rightarrow> string option \<Rightarrow> nat \<Rightarrow> zend_class_entry option \<Rightarrow> pzval option" where
  "fetch_escaped_property pe value_in buf name_length ccn ccnl cce =
     (case xdebug_stripcslashes (take name_length buf @ [NUL]) name_length of
        (name, n) \<Rightarrow> fetch_property pe value_in name (nat n) ccn ccnl cce)"

definition fetch_zval_from_symbol_table ::
    "php_engine \<Rightarrow> symbol_env \<Rightarrow> pzval \<Rightarrow> string \<Rightarrow> nat \<Rightarrow> symbol_type \<Rightarrow> string option \<Rightarrow> nat \<Rightarrow>
     zend_class_entry option \<Rightarrow> pzval option" where
  "fetch_zval_from_symbol_table pe sy value_in buf name_length ty ccn ccnl cce =
     (let z = deref_reference pe (deref_indirect value_in); ht = fetch_ht_from_zval pe z in
      case ty of
        XF_ST_STATIC_ROOT \<Rightarrow> fetch_static pe cce buf name_length
      | XF_ST_STATIC_PROPERTY \<Rightarrow> fetch_static pe cce buf name_length
      | XF_ST_ROOT \<Rightarrow> Some (fetch_root pe sy buf name_length)
      | XF_ST_ARRAY_INDEX_ASSOC \<Rightarrow> Some (fetch_assoc sy False ht (take name_length buf))
      | XF_ST_ARRAY_INDEX_NUM \<Rightarrow> Some (fetch_index ht (take name_length buf))
      | XF_ST_ESCAPED_OBJ_PROPERTY \<Rightarrow> fetch_escaped_property pe z buf name_length ccn ccnl cce
      | XF_ST_OBJ_PROPERTY \<Rightarrow> fetch_property pe z buf name_length ccn ccnl cce)"

section \<open>The state machine\<close>

record sym =
  sm_state :: nat
  sm_keyword :: "nat option"
  sm_type :: symbol_type
  sm_classname :: "string option"
  sm_cc_length :: nat
  sm_ce :: "zend_class_entry option"
  sm_quotechar :: char
  sm_retval :: pzval

definition sym_start :: sym where
  "sym_start =
     \<lparr>sm_state = 0, sm_keyword = None, sm_type = XF_ST_ROOT, sm_classname = None, sm_cc_length = 0, sm_ce = None,
      sm_quotechar = NUL, sm_retval = IS_UNDEF\<rparr>"

text \<open>The fetch of the keyword that ends before \<open>ctr\<close>; the class name is dropped with it.\<close>

definition sym_fetch :: "php_engine \<Rightarrow> symbol_env \<Rightarrow> string \<Rightarrow> nat \<Rightarrow> sym \<Rightarrow> sym option" where
  "sym_fetch pe sy name ctr st =
     do { k \<leftarrow> sm_keyword st;
          z \<leftarrow> fetch_zval_from_symbol_table pe sy (sm_retval st) (drop k (name @ [NUL])) (ctr - k) (sm_type st)
                 (sm_classname st) (sm_cc_length st) (sm_ce st);
          Some (st\<lparr>sm_retval := z, sm_classname := None, sm_cc_length := 0, sm_keyword := None\<rparr>) }"

definition sym_take_class :: "php_engine \<Rightarrow> sym \<Rightarrow> sym" where
  "sym_take_class pe st =
     (if is_objectish pe (sm_retval st)
      then (case fetch_classname_from_zval pe (sm_retval st) of
              Some (n, ce) \<Rightarrow> st\<lparr>sm_classname := Some (c_str n), sm_cc_length := length n, sm_ce := Some ce\<rparr>
            | None \<Rightarrow> st)
      else st)"

definition sym_name :: "php_engine \<Rightarrow> symbol_env \<Rightarrow> string \<Rightarrow> nat \<Rightarrow> char \<Rightarrow> sym \<Rightarrow> sym option" where
  "sym_name pe sy name ctr c st =
     (let fetched = (if sm_keyword st = None then Some st else sym_fetch pe sy name ctr st); had = sm_keyword st \<noteq> None in
      if c = CHR ''['' then
        map_option (\<lambda>st1. (if had then st1\<lparr>sm_ce := None\<rparr> else st1)\<lparr>sm_state := 3\<rparr>) fetched
      else if c = CHR ''-'' then
        map_option (\<lambda>st1. (if had then sym_take_class pe (st1\<lparr>sm_ce := None\<rparr>) else st1)
                             \<lparr>sm_state := 2, sm_type := XF_ST_OBJ_PROPERTY\<rparr>) fetched
      else if c = CHR '':'' then
        map_option (\<lambda>st1. (if had then sym_take_class pe st1 else st1)\<lparr>sm_state := 8, sm_type := XF_ST_STATIC_PROPERTY\<rparr>) fetched
      else Some st)"

definition sym_index_start :: "nat \<Rightarrow> char \<Rightarrow> sym \<Rightarrow> sym" where
  "sym_index_start ctr c st =
     (if c = CHR 0x27 \<or> c = DQUOTE
      then st\<lparr>sm_state := 4, sm_keyword := Some (ctr + 1), sm_quotechar := c, sm_type := XF_ST_ARRAY_INDEX_ASSOC\<rparr>
      else if isdigit c
      then st\<lparr>sm_cc_length := 0, sm_state := 6, sm_keyword := Some ctr, sm_type := XF_ST_ARRAY_INDEX_NUM\<rparr>
      else if c = CHR ''-'' then st\<lparr>sm_state := 9, sm_keyword := Some ctr\<rparr>
      else st)"

text \<open>Inside quotes: \<open>escaped\<close> is the state after a backslash, \<open>closed\<close> the one after the closing quote.\<close>

definition sym_quoted :: "php_engine \<Rightarrow> symbol_env \<Rightarrow> string \<Rightarrow> nat \<Rightarrow> char \<Rightarrow> nat \<Rightarrow> nat \<Rightarrow> sym \<Rightarrow> sym option" where
  "sym_quoted pe sy name ctr c escaped closed st =
     (if c = BSLASH then Some (st\<lparr>sm_state := escaped\<rparr>)
      else if c = sm_quotechar st
      then map_option (sym_take_class pe) (sym_fetch pe sy name ctr (st\<lparr>sm_quotechar := NUL, sm_state := closed\<rparr>))
      else Some st)"

definition sym_self :: "symbol_env \<Rightarrow> string \<Rightarrow> nat \<Rightarrow> sym \<Rightarrow> sym option" where
  "sym_self sy name ctr st =
     do { k \<leftarrow> sm_keyword st;
          if strneq (c_str (drop k name)) ''::'' 2 \<and>
             (case sc_active_stack_entry (sy_scope sy) of Some fse \<Rightarrow> fse_object_class fse \<noteq> None | None \<Rightarrow> False)
          then do { ce \<leftarrow> sy_self_class sy;
                    Some (st\<lparr>sm_state := 1, sm_classname := Some (c_str (ce_name ce)), sm_cc_length := length (c_str (ce_name ce)),
                             sm_ce := Some ce, sm_keyword := Some (ctr + 1), sm_type := XF_ST_STATIC_ROOT\<rparr>) }
          else Some (st\<lparr>sm_state := 1, sm_keyword := None\<rparr>) }"

definition sym_step :: "php_engine \<Rightarrow> symbol_env \<Rightarrow> string \<Rightarrow> nat \<Rightarrow> sym \<Rightarrow> sym option" where
  "sym_step pe sy name ctr st =
     (let c = name ! ctr; s = sm_state st in
      if s = 0 then
        (if c = CHR ''$'' then Some (st\<lparr>sm_keyword := Some (ctr + 1)\<rparr>)
         else if c = CHR '':'' then Some (st\<lparr>sm_keyword := Some ctr, sm_state := 7\<rparr>)
         else sym_name pe sy name ctr c (st\<lparr>sm_keyword := Some ctr, sm_state := 1\<rparr>))
      else if s = 1 then sym_name pe sy name ctr c st
      else if s = 2 then
        Some (if c = CHR ''>'' then st
              else if c = CHR ''{'' then st\<lparr>sm_state := 11\<rparr>
              else st\<lparr>sm_keyword := Some ctr, sm_state := 1\<rparr>)
      else if s = 8 then Some (if c = CHR '':'' then st else st\<lparr>sm_keyword := Some ctr, sm_state := 1\<rparr>)
      else if s = 3 then Some (sym_index_start ctr c st)
      else if s = 9 then Some (if isdigit c then st\<lparr>sm_state := 6, sm_type := XF_ST_ARRAY_INDEX_NUM\<rparr> else st)
      else if s = 4 then sym_quoted pe sy name ctr c 10 5 st
      else if s = 10 then Some (st\<lparr>sm_state := 4\<rparr>)
      else if s = 5 then Some (if c = CHR '']'' then st\<lparr>sm_state := 1\<rparr> else st)
      else if s = 6 then
        (if c = CHR '']'' then map_option (sym_take_class pe) (sym_fetch pe sy name ctr (st\<lparr>sm_state := 1\<rparr>)) else Some st)
      else if s = 7 then (if c = CHR '':'' then sym_self sy name ctr st else Some st)
      else if s = 11 then
        Some (if c = CHR 0x27 \<or> c = DQUOTE
              then st\<lparr>sm_state := 12, sm_keyword := Some (ctr + 1), sm_quotechar := c, sm_type := XF_ST_ESCAPED_OBJ_PROPERTY\<rparr>
              else st)
      else if s = 12 then sym_quoted pe sy name ctr c 13 14 st
      else if s = 13 then Some (st\<lparr>sm_state := 12\<rparr>)
      else if s = 14 then Some (if c = CHR ''}'' then st\<lparr>sm_state := 1\<rparr> else st)
      else Some st)"

fun sym_run :: "php_engine \<Rightarrow> symbol_env \<Rightarrow> string \<Rightarrow> nat list \<Rightarrow> sym \<Rightarrow> sym option" where
  "sym_run pe sy name [] st = Some st"
| "sym_run pe sy name (ctr # ctrs) st = Option.bind (sym_step pe sy name ctr st) (sym_run pe sy name ctrs)"

definition xdebug_get_php_symbol :: "php_engine \<Rightarrow> symbol_env \<Rightarrow> string \<Rightarrow> pzval option" where
  "xdebug_get_php_symbol pe sy name =
     do { st \<leftarrow> sym_run pe sy name [0..<length name] sym_start;
          if sm_keyword st = None then Some (sm_retval st)
          else map_option sm_retval (sym_fetch pe sy name (length name) st) }"

end
