(* ===== verification/Xd_Var_Xml.thy ===== *)
theory Xd_Var_Xml
  imports Xd_Zval "HOL-Library.Monad_Syntax"
begin

text \<open>
  The XML a debugger client gets for a PHP value: \<open>src/lib/var_export_xml.c\<close>.

  Of the options only \<open>encode_as_extended_property\<close> is written to, so it is threaded as a flag.  Of the
  entry \<open>runtime[level]\<close> the page is read and the element numbers are local to one table.  The tables
  that are protected against recursion are a list of addresses.  \<open>None\<close> is an access outside of a string or
  table, or a class that the engine does not find.
\<close>

section \<open>Names and attributes\<close>

text \<open>The last two bytes are read even when there is only one.\<close>

definition prepare_variable_name :: "string \<Rightarrow> string option" where
  "prepare_variable_name name =
     (let tmp_name = (if cget name 0 = CHR ''$'' \<or> cget name 0 = CHR '':'' then name else CHR ''$'' # name); l = length tmp_name in
      if l < 2 then None
      else Some (if tmp_name ! (l - 2) = CHR '':'' \<and> tmp_name ! (l - 1) = CHR '':'' then take (l - 2) tmp_name else tmp_name))"

text \<open>\<open>char\<close> is signed on the platforms the code is built for, so every byte from 0x80 on is below 0x20.\<close>

definition schar :: "char \<Rightarrow> int" where
  "schar c = (if ord c < 128 then int (ord c) else int (ord c) - 256)"

definition encoding_requested :: "string \<Rightarrow> bool" where
  "encoding_requested value = list_ex (\<lambda>c. schar c < 0x20) value"

definition check_if_extended_properties_are_needed ::
    "php_engine \<Rightarrow> var_export_options \<Rightarrow> bool \<Rightarrow> string option \<Rightarrow> string option \<Rightarrow> pzval option \<Rightarrow> bool" where
  "check_if_extended_properties_are_needed pe opts enc name fullname value =
     (if opt_extended_properties opts = 0 \<or> enc then enc
      else (case name of Some n \<Rightarrow> encoding_requested n | None \<Rightarrow> False) \<or>
           (case fullname of Some n \<Rightarrow> encoding_requested n | None \<Rightarrow> False) \<or>
           (case value of
              Some (IS_STRING s) \<Rightarrow> encoding_requested s
            | Some (IS_OBJECT a) \<Rightarrow> encoding_requested (ce_name (ob_ce (pe_object pe a)))
            | _ \<Rightarrow> False))"

definition base64_element :: "string \<Rightarrow> string \<Rightarrow> xml_node" where
  "base64_element field value =
     xdebug_xml_add_text_ex (xdebug_xml_add_attribute (xdebug_xml_node_init field) ''encoding'' ''base64'')
       (fst (xdebug_base64_encode value)) False"

definition add_xml_attribute_or_element ::
    "var_export_options \<Rightarrow> bool \<Rightarrow> xml_node \<Rightarrow> string \<Rightarrow> string \<Rightarrow> xml_node \<times> bool" where
  "add_xml_attribute_or_element opts enc node field value =
     (if enc \<or> (encoding_requested value \<and> opt_extended_properties opts \<noteq> 0)
      then (xdebug_xml_add_child node (base64_element field value), True)
      else (xdebug_xml_add_attribute node field value, enc))"

definition add_unencoded_text_value_attribute_or_element :: "bool \<Rightarrow> xml_node \<Rightarrow> string \<Rightarrow> xml_node" where
  "add_unencoded_text_value_attribute_or_element enc node value =
     (if enc then xdebug_xml_add_child node (base64_element ''value'' (c_str value)) else xdebug_xml_add_text node value)"

definition add_encoded_text_value_attribute_or_element :: "bool \<Rightarrow> xml_node \<Rightarrow> string \<Rightarrow> xml_node" where
  "add_encoded_text_value_attribute_or_element enc node value =
     (if enc then xdebug_xml_add_child node (base64_element ''value'' value) else xdebug_xml_add_text_ex node value True)"

definition xdebug_var_xml_attach_uninitialized_var :: "var_export_options \<Rightarrow> xml_node \<Rightarrow> string \<Rightarrow> (xml_node \<times> bool) option" where
  "xdebug_var_xml_attach_uninitialized_var opts node name =
     do { tmp_name \<leftarrow> prepare_variable_name name;
          let (c1, e1) = add_xml_attribute_or_element opts False (xdebug_xml_node_init ''property'') ''name'' tmp_name;
          let (c2, e2) = add_xml_attribute_or_element opts e1 c1 ''fullname'' tmp_name;
          Some (xdebug_xml_add_child node (xdebug_xml_add_attribute c2 ''type'' ''uninitialized''), e2) }"

section \<open>Pages\<close>

definition page_attributes :: "var_export_options \<Rightarrow> nat \<Rightarrow> xml_node \<Rightarrow> xml_node option" where
  "page_attributes opts level node =
     (if level < length (opt_runtime opts)
      then Some (xdebug_xml_add_attribute
             (xdebug_xml_add_attribute node ''page'' (dec_int (opt_runtime opts ! level)))
             ''pagesize'' (dec_int (opt_max_children opts)))
      else None)"

definition page_start :: "var_export_options \<Rightarrow> nat \<Rightarrow> int" where
  "page_start opts level = (if level = 0 then to_int32 (opt_max_children opts * opt_runtime opts ! 0) else 0)"

definition page_end :: "var_export_options \<Rightarrow> nat \<Rightarrow> int" where
  "page_end opts level =
     (if level = 0 then to_int32 (opt_max_children opts * (opt_runtime opts ! 0 + 1)) else opt_max_children opts)"

text \<open>The elements of one table in order; \<open>nr\<close> is \<open>current_element_nr\<close>.\<close>

fun each_on_page ::
    "('e \<Rightarrow> xml_node \<Rightarrow> bool \<Rightarrow> (xml_node \<times> bool) option) \<Rightarrow> int \<Rightarrow> int \<Rightarrow> int \<Rightarrow> 'e list \<Rightarrow> xml_node \<Rightarrow> bool \<Rightarrow>
     (xml_node \<times> bool) option" where
  "each_on_page f start_nr end_nr nr [] node enc = Some (node, enc)"
| "each_on_page f start_nr end_nr nr (e # es) node enc =
     (if start_nr \<le> nr \<and> nr < end_nr
      then Option.bind (f e node enc) (\<lambda>(n, b). each_on_page f start_nr end_nr (nr + 1) es n b)
      else each_on_page f start_nr end_nr (nr + 1) es node enc)"

section \<open>The elements of an array\<close>

text \<open>\<open>export\<close> is the exporter, one level down: the value, its full name, the node, the flag.\<close>

type_synonym exporter = "pzval option \<Rightarrow> string option \<Rightarrow> xml_node \<Rightarrow> bool \<Rightarrow> (xml_node \<times> bool) option"

definition array_element_name :: "array_key \<Rightarrow> string" where
  "array_element_name k = (case k of Key_str s \<Rightarrow> s | Key_num n \<Rightarrow> dec_int n)"

definition array_element_fullname :: "string \<Rightarrow> array_key \<Rightarrow> string" where
  "array_element_fullname parent_name k =
     (case k of
        Key_str s \<Rightarrow> parent_name @ ''['' @ [DQUOTE] @ xdebug_addslashes s @ [DQUOTE] @ '']''
      | Key_num n \<Rightarrow> parent_name @ ''['' @ dec_int n @ '']'')"

definition xdebug_array_element_export_xml_node ::
    "php_engine \<Rightarrow> var_export_options \<Rightarrow> exporter \<Rightarrow> string option \<Rightarrow> array_key \<times> pzval \<Rightarrow> xml_node \<Rightarrow> bool \<Rightarrow>
     (xml_node \<times> bool) option" where
  "xdebug_array_element_export_xml_node pe opts export parent_name e parent enc =
     (let name = array_element_name (fst e);
          full_name = (case parent_name of Some p \<Rightarrow> array_element_fullname p (fst e) | None \<Rightarrow> []);
          e1 = check_if_extended_properties_are_needed pe opts False (Some name)
                 (if full_name = [] then None else Some full_name) (Some (snd e));
          (n2, e2) = add_xml_attribute_or_element opts e1 (xdebug_xml_node_init ''property'') ''name'' name;
          (n3, e3) = (if full_name = [] then (n2, e2) else add_xml_attribute_or_element opts e2 n2 ''fullname'' full_name)
      in do { (node, e4) \<leftarrow> export (Some (snd e)) (Some full_name) n3 e3;
              Some (xdebug_xml_add_child parent node, e4) })"

section \<open>The properties of an object\<close>

record xdebug_object_item =
  oi_static :: bool
  oi_readonly :: bool
  oi_name :: string
  oi_zv :: pzval

text \<open>A number key becomes its decimal text, so an item always has a name.\<close>

definition object_item_add_to_merged_hash :: "array_key \<Rightarrow> pzval \<Rightarrow> bool \<Rightarrow> xdebug_object_item" where
  "object_item_add_to_merged_hash k zv readonly =
     \<lparr>oi_static = False, oi_readonly = readonly, oi_name = array_element_name k, oi_zv = zv\<rparr>"

fun static_items :: "zend_class_entry \<Rightarrow> (string \<times> property_info) list \<Rightarrow> xdebug_object_item list option" where
  "static_items ce [] = Some []"
| "static_items ce ((k, zpp) # infos) =
     (if \<not> pi_static zpp then static_items ce infos
      else do { zv \<leftarrow> static_member ce zpp;
                rest \<leftarrow> static_items ce infos;
                Some (\<lparr>oi_static = True, oi_readonly = False, oi_name = pi_name zpp, oi_zv = zv\<rparr> # rest) })"

text \<open>Read-only properties are marked and virtual ones left out, unless the class is internal.\<close>

definition property_item :: "php_engine \<Rightarrow> zend_class_entry \<Rightarrow> php_object \<Rightarrow> array_key \<times> pzval \<Rightarrow> xdebug_object_item list" where
  "property_item pe ce obj e =
     (let info = (case fst e of
                    Key_str s \<Rightarrow> if ce_internal ce then None else pe_property_info pe (ob_ce obj) (snd (pe_unmangle pe s))
                  | Key_num _ \<Rightarrow> None)
      in case info of
           Some i \<Rightarrow> if pi_virtual i then [] else [object_item_add_to_merged_hash (fst e) (snd e) (pi_readonly i)]
         | None \<Rightarrow> [object_item_add_to_merged_hash (fst e) (snd e) False])"

definition merged_hash :: "php_engine \<Rightarrow> zend_class_entry \<Rightarrow> php_object \<Rightarrow> xdebug_object_item list option" where
  "merged_hash pe ce obj =
     do { statics \<leftarrow> static_items ce (ce_properties_info ce);
          Some (statics @ (case xdebug_objdebug_pp pe obj XDEBUG_VAR_OBJDEBUG_DEFAULT of
                             Some myht \<Rightarrow> concat (map (property_item pe ce obj) (foreach_ind myht))
                           | None \<Rightarrow> [])) }"

definition starred_name :: "string \<Rightarrow> string \<Rightarrow> string" where
  "starred_name prop_class_name property_name = ''*'' @ prop_class_name @ ''*'' @ property_name"

text \<open>A private property of another class (a parent) shows with its class between stars.\<close>

definition foreign_class :: "string \<Rightarrow> string \<Rightarrow> string option \<Rightarrow> string option" where
  "foreign_class class_name modifier prop_class_name =
     (if modifier = ''private''
      then (case prop_class_name of Some c \<Rightarrow> if c = c_str class_name then None else Some c | None \<Rightarrow> None)
      else None)"

definition property_member_name :: "string \<Rightarrow> string" where
  "property_member_name property_name =
     (if property_name = [] then ''{'' @ [DQUOTE, DQUOTE] @ ''}''
      else if CHR ''-'' \<notin> set property_name \<and> CHR ''['' \<notin> set property_name \<and> CHR ''{'' \<notin> set property_name
      then property_name
      else ''{'' @ [DQUOTE] @ xdebug_addslashes property_name @ [DQUOTE] @ ''}'')"

definition object_element_fullname :: "string \<Rightarrow> bool \<Rightarrow> string option \<Rightarrow> string \<Rightarrow> string" where
  "object_element_fullname parent_name static foreign property_name =
     parent_name @ (if static then ''::'' else ''->'') @
     (case foreign of Some c \<Rightarrow> starred_name c property_name | None \<Rightarrow> property_member_name property_name)"

definition item_facets :: "xdebug_object_item \<Rightarrow> string \<Rightarrow> xml_node \<Rightarrow> xml_node" where
  "item_facets item modifier node =
     (let n1 = (if oi_static item then xdebug_xml_expand_attribute_value node ''facet'' ''static'' else node);
          n2 = xdebug_xml_expand_attribute_value n1 ''facet'' modifier
      in if oi_readonly item then xdebug_xml_expand_attribute_value n2 ''facet'' ''readonly'' else n2)"

text \<open>The value of a property with hooks is the stored one.\<close>

definition item_value :: "php_engine \<Rightarrow> php_object \<Rightarrow> xdebug_object_item \<Rightarrow> pzval option" where
  "item_value pe obj item =
     (case oi_zv item of
        IS_PTR prop \<Rightarrow> if ce_internal (ob_ce obj) then Some (oi_zv item) else zend_symtable_str_find pe (ob_stored obj) prop
      | z \<Rightarrow> Some z)"

definition xdebug_object_element_export_xml_node ::
    "php_engine \<Rightarrow> var_export_options \<Rightarrow> exporter \<Rightarrow> php_object \<Rightarrow> string option \<Rightarrow> string \<Rightarrow> xdebug_object_item \<Rightarrow> xml_node \<Rightarrow>
     bool \<Rightarrow> (xml_node \<times> bool) option" where
  "xdebug_object_element_export_xml_node pe opts export obj parent_name class_name item parent enc =
     (let (property_name, modifier, prop_class_name) = xdebug_get_property_info pe (oi_name item);
          foreign = foreign_class class_name modifier prop_class_name;
          tmp_name = (case foreign of Some c \<Rightarrow> starred_name c property_name | None \<Rightarrow> property_name);
          tmp_fullname = map_option (\<lambda>p. object_element_fullname p (oi_static item) foreign property_name) parent_name;
          e1 = check_if_extended_properties_are_needed pe opts False (Some tmp_name) tmp_fullname (Some (oi_zv item));
          (n2, e2) = add_xml_attribute_or_element opts e1 (xdebug_xml_node_init ''property'') ''name'' tmp_name;
          (n3, e3) = (case tmp_fullname of Some f \<Rightarrow> add_xml_attribute_or_element opts e2 n2 ''fullname'' f | None \<Rightarrow> (n2, e2))
      in do { (node, e4) \<leftarrow> export (item_value pe obj item) tmp_fullname (item_facets item modifier n3) e3;
              Some (xdebug_xml_add_child parent node, e4) })"

section \<open>A value\<close>

definition export_string :: "var_export_options \<Rightarrow> string \<Rightarrow> xml_node \<Rightarrow> bool \<Rightarrow> xml_node" where
  "export_string opts s node enc =
     (let n1 = xdebug_xml_add_attribute node ''type'' ''string'';
          shown = (if opt_max_data opts = 0 \<or> length s \<le> nat (opt_max_data opts mod 2 ^ 64) then s
                   else take (nat (opt_max_data opts)) s)
      in xdebug_xml_add_attribute (add_encoded_text_value_attribute_or_element enc n1 shown) ''size'' (dec_int (to_int32 (int (length s)))))"

definition export_resource :: "int \<Rightarrow> string option \<Rightarrow> xml_node \<Rightarrow> xml_node" where
  "export_resource handle type_name node =
     xdebug_xml_add_text (xdebug_xml_add_attribute node ''type'' ''resource'')
       (''resource id='' @ [CHR 0x27] @ dec_int handle @ [CHR 0x27] @ '' type='' @ [CHR 0x27] @
        (case type_name of Some t \<Rightarrow> c_str t | None \<Rightarrow> ''Unknown'') @ [CHR 0x27])"

definition export_scalar :: "var_export_options \<Rightarrow> pzval \<Rightarrow> xml_node \<Rightarrow> bool \<Rightarrow> xml_node" where
  "export_scalar opts z node enc =
     (let text_value = (\<lambda>ty v. add_unencoded_text_value_attribute_or_element enc (xdebug_xml_add_attribute node ''type'' ty) v) in
      case z of
        IS_TRUE \<Rightarrow> text_value ''bool'' ''1''
      | IS_FALSE \<Rightarrow> text_value ''bool'' ''0''
      | IS_LONG n \<Rightarrow> text_value ''int'' (dec_int n)
      | IS_DOUBLE t \<Rightarrow> text_value ''float'' t
      | IS_STRING s \<Rightarrow> export_string opts s node enc
      | IS_RESOURCE handle ty \<Rightarrow> export_resource handle ty node
      | IS_UNDEF \<Rightarrow> xdebug_xml_add_attribute node ''type'' ''uninitialized''
      | _ \<Rightarrow> xdebug_xml_add_attribute node ''type'' ''null'')"

definition array_head :: "zend_array \<Rightarrow> xml_node \<Rightarrow> xml_node" where
  "array_head arr node =
     xdebug_xml_add_attribute (xdebug_xml_add_attribute node ''type'' ''array'') ''children''
       (if length (za_elements arr) > 0 then ''1'' else ''0'')"

definition numchildren :: "nat \<Rightarrow> xml_node \<Rightarrow> xml_node" where
  "numchildren n node = xdebug_xml_add_attribute node ''numchildren'' (dec_int (to_int32 (int n)))"

text \<open>The attributes of an object before its properties; a lazy ghost that is not initialised has only these.\<close>

definition object_head ::
    "var_export_options \<Rightarrow> php_object \<Rightarrow> string \<Rightarrow> nat \<Rightarrow> xml_node \<Rightarrow> bool \<Rightarrow> xml_node \<times> bool" where
  "object_head opts obj class_name count node enc =
     (let n1 = xdebug_xml_add_attribute node ''type'' ''object'';
          n2 = (if ce_enum (ob_ce obj) then xdebug_xml_expand_attribute_value n1 ''facet'' ''enum'' else n1);
          n3 = (if ce_name (ob_ce obj) = ''Closure'' then xdebug_xml_expand_attribute_value n2 ''facet'' ''closure'' else n2);
          (n4, e4) = add_xml_attribute_or_element opts enc n3 ''classname'' class_name
      in (xdebug_xml_add_attribute n4 ''children'' (if count > 0 then ''1'' else ''0''), e4))"

definition lazy_facet :: "zend_class_entry \<Rightarrow> php_object \<Rightarrow> xml_node \<Rightarrow> xml_node \<times> bool" where
  "lazy_facet ce obj node =
     (if ce_internal ce then (node, False)
      else (case ob_lazy obj of
              Lazy_proxy \<Rightarrow> (xdebug_xml_expand_attribute_value node ''facet'' ''lazy-proxy'', False)
            | Lazy_ghost False \<Rightarrow>
                (xdebug_xml_expand_attribute_value (xdebug_xml_add_attribute node ''type'' ''object'') ''facet'' ''lazy-ghost'', True)
            | _ \<Rightarrow> (node, False)))"

text \<open>
  The exporter.  A level is entered only below \<open>max_depth\<close>, which bounds the recursion whatever cycles the
  values have.
\<close>

function xdebug_var_export_xml_node ::
    "php_engine \<Rightarrow> var_export_options \<Rightarrow> nat \<Rightarrow> nat list \<Rightarrow> pzval option \<Rightarrow> string option \<Rightarrow> xml_node \<Rightarrow> bool \<Rightarrow>
     (xml_node \<times> bool) option" where
  "xdebug_var_export_xml_node pe opts level protected struc name node enc =
     (case struc of
        None \<Rightarrow> Some (xdebug_xml_add_attribute node ''type'' ''uninitialized'', enc)
      | Some z0 \<Rightarrow>
        (case deref_reference pe (deref_indirect z0) of
           IS_ARRAY a \<Rightarrow>
             (let arr = pe_array pe a; n1 = array_head arr node in
              if a \<in> set protected then Some (xdebug_xml_add_attribute n1 ''recursive'' ''1'', enc)
              else (let n2 = numchildren (length (za_elements arr)) n1 in
                    if int level < opt_max_depth opts
                    then do { n3 \<leftarrow> page_attributes opts level n2;
                              each_on_page
                                (xdebug_array_element_export_xml_node pe opts
                                  (xdebug_var_export_xml_node pe opts (level + 1) (if za_immutable arr then protected else a # protected))
                                  name)
                                (page_start opts level) (page_end opts level) 0 (foreach_ind (za_elements arr)) n3 enc }
                    else Some (n2, enc)))
         | IS_OBJECT a \<Rightarrow>
             (let obj = pe_object pe a; class_name = ce_name (ob_ce obj) in
              do { ce0 \<leftarrow> pe_fetch_class pe class_name;
                   let (n0, done) = lazy_facet ce0 obj node;
                   if done then Some (n0, enc)
                   else do {
                     let ce = pe_class_init_statics pe ce0;
                     items \<leftarrow> merged_hash pe ce obj;
                     let (n1, e1) = object_head opts obj class_name (length items) n0 enc;
                     if xdebug_objdebug_pp pe obj XDEBUG_VAR_OBJDEBUG_DEFAULT \<noteq> None \<and> ob_protected obj then Some (n1, e1)
                     else do {
                       let n2 = numchildren (length items) n1;
                       if int level < opt_max_depth opts
                       then do { n3 \<leftarrow> page_attributes opts level n2;
                                 each_on_page
                                   (xdebug_object_element_export_xml_node pe opts
                                     (xdebug_var_export_xml_node pe opts (level + 1) protected) obj name class_name)
                                   (page_start opts level) (page_end opts level) 0 items n3 e1 }
                       else Some (n2, e1) } } })
         | z \<Rightarrow> Some (export_scalar opts z node enc, enc)))"
  by pat_completeness auto
termination
  by (relation "measure (\<lambda>(pe, opts, level, p, s, n, x, e). nat (opt_max_depth opts - int level))") auto

declare xdebug_var_export_xml_node.simps [simp del]

section \<open>A variable\<close>

datatype var_type = XDEBUG_VAR_TYPE_NORMAL | XDEBUG_VAR_TYPE_STATIC | XDEBUG_VAR_TYPE_CONSTANT

definition variable_name :: "var_type \<Rightarrow> string \<Rightarrow> string option" where
  "variable_name ty name =
     (case ty of
        XDEBUG_VAR_TYPE_NORMAL \<Rightarrow> prepare_variable_name name
      | XDEBUG_VAR_TYPE_STATIC \<Rightarrow> Some (''::'' @ name)
      | XDEBUG_VAR_TYPE_CONSTANT \<Rightarrow> Some name)"

definition xdebug_get_zval_value_xml_node_ex ::
    "php_engine \<Rightarrow> var_export_options \<Rightarrow> string option \<Rightarrow> pzval \<Rightarrow> var_type \<Rightarrow> (xml_node \<times> bool) option" where
  "xdebug_get_zval_value_xml_node_ex pe opts name val ty =
     (let node = xdebug_xml_node_init ''property'' in
      case name of
        None \<Rightarrow> xdebug_var_export_xml_node pe opts 0 [] (Some val) None node False
      | Some n \<Rightarrow>
          do { full_name \<leftarrow> variable_name ty n;
               let e1 = check_if_extended_properties_are_needed pe opts False (Some full_name) (Some full_name) (Some val);
               let (n2, e2) = add_xml_attribute_or_element opts e1 node ''name'' full_name;
               let (n3, e3) = add_xml_attribute_or_element opts e2 n2 ''fullname'' full_name;
               xdebug_var_export_xml_node pe opts 0 [] (Some val) (Some full_name) n3 e3 })"

section \<open>The static members of a class\<close>

definition xdebug_var_xml_attach_property_with_contents ::
    "php_engine \<Rightarrow> var_export_options \<Rightarrow> zend_class_entry \<Rightarrow> property_info \<Rightarrow> xml_node \<times> nat \<times> bool \<Rightarrow> (xml_node \<times> nat \<times> bool) option" where
  "xdebug_var_xml_attach_property_with_contents pe opts ce prop_info st =
     (case st of (node, children_count, enc) \<Rightarrow>
      if \<not> pi_static prop_info then Some st
      else (let (property_name, modifier, prop_class_name) = xdebug_get_property_info pe (pi_name prop_info);
                shown = (case foreign_class (ce_name ce) modifier prop_class_name of
                           Some c \<Rightarrow> starred_name c property_name
                         | None \<Rightarrow> property_name)
            in do { zv \<leftarrow> static_member ce prop_info;
                    (contents, e) \<leftarrow> xdebug_get_zval_value_xml_node_ex pe opts (Some shown) zv XDEBUG_VAR_TYPE_STATIC;
                    let c2 = xdebug_xml_expand_attribute_value (xdebug_xml_expand_attribute_value contents ''facet'' ''static'')
                               ''facet'' modifier;
                    Some (xdebug_xml_add_child node c2, children_count + 1, e) }))"

fun attach_static_properties ::
    "php_engine \<Rightarrow> var_export_options \<Rightarrow> zend_class_entry \<Rightarrow> property_info list \<Rightarrow> xml_node \<times> nat \<times> bool \<Rightarrow> (xml_node \<times> nat \<times> bool) option" where
  "attach_static_properties pe opts ce [] st = Some st"
| "attach_static_properties pe opts ce (i # infos) st =
     Option.bind (xdebug_var_xml_attach_property_with_contents pe opts ce i st) (attach_static_properties pe opts ce infos)"

definition xdebug_var_xml_attach_static_vars ::
    "php_engine \<Rightarrow> var_export_options \<Rightarrow> zend_class_entry \<Rightarrow> xml_node \<Rightarrow> (xml_node \<times> bool) option" where
  "xdebug_var_xml_attach_static_vars pe opts ce0 node =
     (let c0 = xdebug_xml_add_attribute
                 (xdebug_xml_add_attribute
                   (xdebug_xml_add_attribute
                     (xdebug_xml_add_attribute (xdebug_xml_node_init ''property'') ''name'' ''::'') ''fullname'' ''::'')
                   ''type'' ''object'') ''classname'' (c_str (ce_name ce0));
          ce = (if ce_default_static_members_count ce0 \<noteq> 0 \<and> ce_static_members ce0 = None then pe_class_init_statics pe ce0
                else ce0)
      in do { (c1, children, enc) \<leftarrow> attach_static_properties pe opts ce (map snd (ce_properties_info ce)) (c0, 0, False);
              let c2 = xdebug_xml_add_attribute c1 ''children'' (if children > 0 then ''1'' else ''0'');
              let c3 = xdebug_xml_add_attribute c2 ''numchildren'' (dec_int (to_int32 (int children)));
              Some (xdebug_xml_add_child node c3, enc) })"

end
