(* ===== verification/Xd_Names.thy ===== *)
theory Xd_Names
  imports Xd_Symbol Xd_Var_Xml
begin

text \<open>
  The names under which the elements of arrays are shown to a client, and what the state machine of
  \<open>Xd_Symbol\<close> makes of them: a name that was reported is found again.
\<close>

section \<open>Numbers\<close>

lemma dec_chars: "list_all isdigit (dec n)"
  using dec_digits by (auto simp: list_all_iff)

lemma digit_neq: "isdigit c \<Longrightarrow> \<not> isspace c \<and> c \<noteq> CHR ''-'' \<and> c \<noteq> CHR ''+'' \<and> c \<noteq> CHR '']'' \<and> c \<noteq> NUL \<and> c \<noteq> DQUOTE \<and> c \<noteq> CHR 0x27"
  by (auto simp: isdigit_def isspace_def ord_def)

lemma dec_Cons: "\<exists>c cs. dec n = c # cs \<and> isdigit c \<and> list_all isdigit cs"
  using dec_chars [of n] by (cases "dec n") auto

lemma takeWhile_all: "list_all P xs \<Longrightarrow> takeWhile P xs = xs"
  by (induction xs) auto

lemma dec_is_cstr: "is_cstr (dec n)" "is_cstr (dec_int i)"
  using dec_digits digit_neq by (auto simp: is_cstr_def dec_int_def)

lemma strtoull10_dec: "n < 2 ^ 64 \<Longrightarrow> strtoull10 (dec n) = n"
proof -
  assume n: "n < 2 ^ 64"
  obtain c cs where d: "dec n = c # cs" "isdigit c" using dec_Cons by blast
  then have "dropWhile isspace (dec n) = dec n" "cget (dec n) 0 \<noteq> CHR ''-''" "cget (dec n) 0 \<noteq> CHR ''+''"
    using digit_neq by simp_all
  moreover have "takeWhile isdigit (dec n) = dec n" by (rule takeWhile_all) (rule dec_chars)
  ultimately show ?thesis using n by (simp add: strtoull10_def Let_def digits_val_dec del: takeWhile_eq_all_conv)
qed

lemma strtoull10_neg: "0 < n \<Longrightarrow> n \<le> 2 ^ 63 \<Longrightarrow> strtoull10 (CHR ''-'' # dec n) = 2 ^ 64 - n"
proof -
  assume n: "0 < n" "n \<le> 2 ^ 63"
  have "\<not> isspace (CHR ''-'')" by (simp add: isspace_def ord_def)
  moreover have "takeWhile isdigit (dec n) = dec n" by (rule takeWhile_all) (rule dec_chars)
  ultimately show ?thesis using n by (simp add: strtoull10_def Let_def digits_val_dec del: takeWhile_eq_all_conv)
qed

definition in_long :: "int \<Rightarrow> bool" where
  "in_long i \<longleftrightarrow> - (2 ^ 63) \<le> i \<and> i < 2 ^ 63"

lemma index_read_back: "in_long i \<Longrightarrow> signed64 (strtoull10 (dec_int i)) = i"
proof (cases "i < 0")
  case True
  assume "in_long i"
  with True have "strtoull10 (dec_int i) = 2 ^ 64 - nat (- i)"
    unfolding dec_int_def in_long_def by (simp add: strtoull10_neg)
  moreover have "int (2 ^ 64 - nat (- i)) = 2 ^ 64 + i"
    using \<open>in_long i\<close> True by (simp add: in_long_def)
  moreover have "(2 ^ 64 + i + 2 ^ 63) mod 2 ^ 64 = i + 2 ^ 63"
  proof -
    have "(2 ^ 64 + i + 2 ^ 63) mod 2 ^ 64 = (i + 2 ^ 63 + 2 ^ 64) mod 2 ^ 64" by (simp add: ac_simps)
    also have "\<dots> = (i + 2 ^ 63) mod 2 ^ 64" by (rule mod_add_self2)
    also have "\<dots> = i + 2 ^ 63" using \<open>in_long i\<close> True by (intro mod_pos_pos_trivial) (auto simp: in_long_def)
    finally show ?thesis .
  qed
  ultimately show ?thesis unfolding signed64_def by simp
next
  case False
  assume "in_long i"
  with False have "strtoull10 (dec_int i) = nat i"
    unfolding dec_int_def in_long_def by (simp add: strtoull10_dec)
  with \<open>in_long i\<close> False show ?thesis by (simp add: signed64_def in_long_def)
qed

section \<open>Running over a part of the name\<close>

lemma sym_run_append:
  "sym_run pe sy name (xs @ ys) st = Option.bind (sym_run pe sy name xs st) (sym_run pe sy name ys)"
  by (induction xs arbitrary: st) (simp_all split: Option.bind_split)

definition part :: "string \<Rightarrow> nat \<Rightarrow> string \<Rightarrow> bool" where
  "part name p u \<longleftrightarrow> (\<exists>pre rest. name = pre @ u @ rest \<and> length pre = p)"

definition run :: "php_engine \<Rightarrow> symbol_env \<Rightarrow> string \<Rightarrow> nat \<Rightarrow> string \<Rightarrow> sym \<Rightarrow> sym option" where
  "run pe sy name p u = sym_run pe sy name [p..<p + length u]"

lemma run_Nil [simp]: "run pe sy name p [] st = Some st"
  by (simp add: run_def)

lemma part_Cons: "part name p (c # u) \<longleftrightarrow> p < length name \<and> name ! p = c \<and> part name (Suc p) u"
proof
  assume "part name p (c # u)"
  then obtain pre rest where n: "name = pre @ (c # u) @ rest" "length pre = p" by (auto simp: part_def)
  then have "name = (pre @ [c]) @ u @ rest" "length (pre @ [c]) = Suc p" by auto
  then have "part name (Suc p) u" unfolding part_def by blast
  with n show "p < length name \<and> name ! p = c \<and> part name (Suc p) u" by auto
next
  assume a: "p < length name \<and> name ! p = c \<and> part name (Suc p) u"
  then obtain pre rest where n: "name = pre @ u @ rest" "length pre = Suc p" by (auto simp: part_def)
  then have pre: "pre = take p name @ [c]" using a by (metis append_eq_conv_conj take_Suc_conv_app_nth)
  have "name = take p name @ (c # u) @ rest" using n(1) pre by (metis append_Cons append_Nil append_assoc)
  moreover have "length (take p name) = p" using a by simp
  ultimately show "part name p (c # u)" unfolding part_def by blast
qed

lemma run_Cons:
  "part name p (c # u) \<Longrightarrow> run pe sy name p (c # u) st = Option.bind (sym_step pe sy name p st) (run pe sy name (Suc p) u)"
proof -
  have "[p..<p + length (c # u)] = p # [Suc p..<Suc p + length u]" by (simp add: upt_rec [of p] del: upt_Suc)
  then show ?thesis by (simp add: run_def del: upt_Suc split: Option.bind_split)
qed

lemma part_append: "part name p (u @ w) \<Longrightarrow> part name p u \<and> part name (p + length u) w"
proof -
  assume "part name p (u @ w)"
  then obtain pre rest where "name = pre @ (u @ w) @ rest" "length pre = p" by (auto simp: part_def)
  then have "name = pre @ u @ (w @ rest)" "name = (pre @ u) @ w @ rest" "length (pre @ u) = p + length u" by auto
  with \<open>length pre = p\<close> show ?thesis unfolding part_def by blast
qed

lemma run_append:
  "run pe sy name p (u @ w) st = Option.bind (run pe sy name p u st) (run pe sy name (p + length u) w)"
proof -
  have "[p..<p + length (u @ w)] = [p..<p + length u] @ [p + length u..<p + length u + length w]"
    using upt_add_eq_append [of p "p + length u" "length w"] by (simp add: add.assoc)
  then show ?thesis by (simp add: run_def sym_run_append)
qed

lemma part_bytes: "part name p u \<Longrightarrow> take (length u) (drop p (name @ [NUL])) = u"
  by (auto simp: part_def)

lemma part_length: "part name p u \<Longrightarrow> p + length u \<le> length name"
  by (auto simp: part_def)

section \<open>Values the machine has arrived at\<close>

text \<open>Between two parts of a name the machine either has the value, or the keyword that will give it.\<close>

definition at_value :: "php_engine \<Rightarrow> symbol_env \<Rightarrow> string \<Rightarrow> nat \<Rightarrow> sym \<Rightarrow> pzval \<Rightarrow> bool" where
  "at_value pe sy name p st z \<longleftrightarrow>
     sm_state st = 1 \<and>
     (if sm_keyword st = None then sm_retval st = z
      else (\<exists>st1. sym_fetch pe sy name p st = Some st1 \<and> sm_retval st1 = z))"

lemma sym_fetch_cleared: "sym_fetch pe sy name p st = Some st1 \<Longrightarrow> sm_keyword st1 = None \<and> sm_state st1 = sm_state st"
  by (auto simp: sym_fetch_def Option.bind_eq_Some_conv)

lemma take_class_keeps [simp]:
  "sm_state (sym_take_class pe st) = sm_state st" "sm_keyword (sym_take_class pe st) = sm_keyword st"
  "sm_retval (sym_take_class pe st) = sm_retval st"
  by (auto simp: sym_take_class_def split: option.split)

lemma open_bracket:
  assumes "at_value pe sy name p st z" "part name p (''['' @ u)"
  obtains st1 where "sym_step pe sy name p st = Some st1" "sm_state st1 = 3" "sm_retval st1 = z"
proof -
  have c: "name ! p = CHR ''[''" using assms(2) by (simp add: part_Cons)
  show ?thesis
  proof (cases "sm_keyword st")
    case None
    then show ?thesis using assms(1) c that by (auto simp: at_value_def sym_step_def sym_name_def)
  next
    case (Some k)
    with assms(1) obtain st1 where "sym_fetch pe sy name p st = Some st1" "sm_retval st1 = z" "sm_state st = 1"
      by (auto simp: at_value_def)
    with Some c that [of "st1\<lparr>sm_ce := None, sm_state := 3\<rparr>"] show ?thesis
      by (auto simp: sym_step_def sym_name_def)
  qed
qed

text \<open>Escaped text inside quotes is passed over.\<close>

lemma run_escaped:
  "part name p (slash_copy s) \<Longrightarrow> sm_state st = 4 \<Longrightarrow> sm_quotechar st = DQUOTE \<Longrightarrow>
   run pe sy name p (slash_copy s) st = Some st"
proof (induction s arbitrary: p)
  case (Cons c s)
  have same: "st\<lparr>sm_state := 4\<rparr> = st" using Cons.prems(2) by simp
  have esc: "run pe sy name p (BSLASH # d # slash_copy s) st = Some st" if "part name p (BSLASH # d # slash_copy s)" for d
  proof -
    from that have p1: "part name (Suc p) (d # slash_copy s)" "name ! p = BSLASH" by (simp_all add: part_Cons)
    then have p2: "part name (Suc (Suc p)) (slash_copy s)" by (simp add: part_Cons)
    have s1: "sym_step pe sy name p st = Some (st\<lparr>sm_state := 10\<rparr>)"
      using p1 Cons.prems by (simp add: sym_step_def sym_quoted_def)
    have s2: "sym_step pe sy name (Suc p) (st\<lparr>sm_state := 10\<rparr>) = Some st"
      using same by (simp add: sym_step_def)
    show ?thesis
      using run_Cons [OF that] run_Cons [OF p1(1)] s1 s2 Cons.IH [OF p2 Cons.prems(2,3)] by simp
  qed
  have plain: "run pe sy name p (c # slash_copy s) st = Some st"
    if "part name p (c # slash_copy s)" "c \<noteq> BSLASH" "c \<noteq> DQUOTE"
  proof -
    from that have p1: "part name (Suc p) (slash_copy s)" "name ! p = c" by (simp_all add: part_Cons)
    have "sym_step pe sy name p st = Some st"
      using p1 that Cons.prems by (simp add: sym_step_def sym_quoted_def)
    then show ?thesis using run_Cons [OF that(1)] Cons.IH [OF p1(1) Cons.prems(2,3)] by simp
  qed
  show ?case using Cons.prems(1) esc plain by auto
qed simp

lemma run_digits_index:
  "list_all isdigit u \<Longrightarrow> part name p u \<Longrightarrow> sm_state st = 6 \<Longrightarrow> run pe sy name p u st = Some st"
proof (induction u arbitrary: p)
  case (Cons c u)
  then have "part name (Suc p) u" "name ! p = c" "c \<noteq> CHR '']''"
    using digit_neq by (auto simp: part_Cons)
  moreover from this Cons.prems(3) have "sym_step pe sy name p st = Some st" by (simp add: sym_step_def)
  ultimately show ?case using Cons run_Cons [OF Cons.prems(2)] by simp
qed simp

section \<open>The names of elements\<close>

text \<open>The elements of an array, whatever leads to it.\<close>

definition elements_of :: "php_engine \<Rightarrow> pzval \<Rightarrow> hash_table" where
  "elements_of pe z =
     (case deref_reference pe (deref_indirect z) of IS_ARRAY a \<Rightarrow> za_elements (pe_array pe a) | _ \<Rightarrow> [])"

definition key_ok :: "array_key \<Rightarrow> bool" where
  "key_ok k = (case k of Key_str s \<Rightarrow> \<not> nul_then_octal s | Key_num i \<Rightarrow> in_long i)"

definition key_text :: "array_key \<Rightarrow> string" where
  "key_text k = (case k of Key_str s \<Rightarrow> ''['' @ [DQUOTE] @ slash_copy s @ [DQUOTE] @ '']'' | Key_num i \<Rightarrow> ''['' @ dec_int i @ '']'')"

lemma array_element_fullname_text: "array_element_fullname f k = f @ key_text k"
  by (simp add: array_element_fullname_def key_text_def xdebug_addslashes_all split: array_key.split)

lemma fetch_assoc_escaped:
  assumes "\<not> nul_then_octal s" "zend_hash_str_find ht s = Some z"
  shows "fetch_assoc sy False (Some ht) (slash_copy s) = z"
proof -
  obtain b where b: "xdebug_stripcslashes (slash_copy s @ [NUL]) (length (slash_copy s)) = (b, int (length (unescape (slash_copy s))))"
    "take (length (unescape (slash_copy s))) b = unescape (slash_copy s)"
    using stripcslashes_unescape [of "slash_copy s" "slash_copy s @ [NUL]"] by auto
  with assms show ?thesis by (simp add: fetch_assoc_def unescape_slash_copy)
qed

lemma fetch_index_dec:
  "in_long i \<Longrightarrow> zend_hash_index_find ht i = Some z \<Longrightarrow> fetch_index (Some ht) (dec_int i) = z"
  using dec_is_cstr(2) [of i] by (simp add: fetch_index_def index_read_back)

lemma fetch_ht_elements:
  "map_of (elements_of pe z) k = Some z' \<Longrightarrow> fetch_ht_from_zval pe (deref_reference pe (deref_indirect z)) = Some (elements_of pe z)"
  by (auto simp: elements_of_def fetch_ht_from_zval_def split: pzval.splits)

lemma fetch_element_str:
  "map_of (elements_of pe z) (Key_str s) = Some z' \<Longrightarrow> \<not> nul_then_octal s \<Longrightarrow> take n buf = slash_copy s \<Longrightarrow>
   fetch_zval_from_symbol_table pe sy z buf n XF_ST_ARRAY_INDEX_ASSOC c l ce = Some z'"
  by (simp add: fetch_zval_from_symbol_table_def fetch_ht_elements fetch_assoc_escaped zend_hash_str_find_def)

lemma fetch_element_num:
  "map_of (elements_of pe z) (Key_num i) = Some z' \<Longrightarrow> in_long i \<Longrightarrow> take n buf = dec_int i \<Longrightarrow>
   fetch_zval_from_symbol_table pe sy z buf n XF_ST_ARRAY_INDEX_NUM c l ce = Some z'"
  by (simp add: fetch_zval_from_symbol_table_def fetch_ht_elements fetch_index_dec zend_hash_index_find_def)

lemma quote_facts: "\<not> isdigit DQUOTE" "DQUOTE \<noteq> CHR ''-''" "DQUOTE \<noteq> BSLASH" "DQUOTE \<noteq> CHR 0x27"
  by (simp_all add: isdigit_def ord_def)

lemma run_key_str:
  assumes "at_value pe sy name p st z" "part name p (key_text (Key_str s))"
    "map_of (elements_of pe z) (Key_str s) = Some z'" "\<not> nul_then_octal s"
  obtains st1 where "run pe sy name p (key_text (Key_str s)) st = Some st1" "at_value pe sy name (p + length (key_text (Key_str s))) st1 z'"
proof -
  let ?e = "slash_copy s"
  let ?q = "p + 2 + length ?e"
  have k: "key_text (Key_str s) = CHR ''['' # DQUOTE # (?e @ [DQUOTE, CHR '']''])" by (simp add: key_text_def)
  have p0: "part name p (CHR ''['' # DQUOTE # (?e @ [DQUOTE, CHR '']'']))" using assms(2) k by simp
  then have p1: "part name (p + 1) (DQUOTE # (?e @ [DQUOTE, CHR '']'']))" by (simp add: part_Cons)
  then have p2: "part name (p + 2) (?e @ [DQUOTE, CHR '']''])" by (simp add: part_Cons)
  from part_append [OF this] have p3: "part name (p + 2) ?e" "part name ?q [DQUOTE, CHR '']'']" by auto
  then have p4: "part name (?q + 1) [CHR '']'']" "name ! ?q = DQUOTE" "name ! (?q + 1) = CHR '']''" by (simp_all add: part_Cons)
  obtain a where a: "sym_step pe sy name p st = Some a" "sm_state a = 3" "sm_retval a = z"
    using open_bracket [OF assms(1), of "DQUOTE # (?e @ [DQUOTE, CHR '']''])"] p0 by auto
  let ?b = "a\<lparr>sm_state := 4, sm_keyword := Some (p + 2), sm_quotechar := DQUOTE, sm_type := XF_ST_ARRAY_INDEX_ASSOC\<rparr>"
  have b: "sym_step pe sy name (p + 1) a = Some ?b"
    using a(2) p1 by (simp add: sym_step_def sym_index_start_def part_Cons)
  have e: "run pe sy name (p + 2) ?e ?b = Some ?b" by (rule run_escaped [OF p3(1)]) simp_all
  let ?c = "?b\<lparr>sm_quotechar := NUL, sm_state := 5\<rparr>"
  have f: "fetch_zval_from_symbol_table pe sy z (drop (p + 2) (name @ [NUL])) (length ?e) XF_ST_ARRAY_INDEX_ASSOC
      (sm_classname a) (sm_cc_length a) (sm_ce a) = Some z'"
    by (rule fetch_element_str [OF assms(3,4)]) (rule part_bytes [OF p3(1)])
  let ?d = "sym_take_class pe (?c\<lparr>sm_retval := z', sm_classname := None, sm_cc_length := 0, sm_keyword := None\<rparr>)"
  have d: "sym_step pe sy name ?q ?b = Some ?d"
    using p4 quote_facts f a(3) by (simp add: sym_step_def sym_quoted_def sym_fetch_def)
  have g: "sym_step pe sy name (?q + 1) ?d = Some (?d\<lparr>sm_state := 1\<rparr>)"
    using p4 by (simp add: sym_step_def)
  have r2: "run pe sy name ?q [DQUOTE, CHR '']''] ?b = Some (?d\<lparr>sm_state := 1\<rparr>)"
    using run_Cons [OF p3(2)] run_Cons [OF p4(1)] d g by simp
  have r1: "run pe sy name (p + 2) (?e @ [DQUOTE, CHR '']'']) ?b = Some (?d\<lparr>sm_state := 1\<rparr>)"
    using e r2 by (simp add: run_append)
  have "run pe sy name p (key_text (Key_str s)) st = Some (?d\<lparr>sm_state := 1\<rparr>)"
    using run_Cons [OF p0] run_Cons [OF p1] a(1) b r1 unfolding k by simp
  then show ?thesis by (rule that) (simp add: at_value_def)
qed

lemma run_key_num:
  assumes "at_value pe sy name p st z" "part name p (key_text (Key_num i))"
    "map_of (elements_of pe z) (Key_num i) = Some z'" "in_long i"
  obtains st1 where "run pe sy name p (key_text (Key_num i)) st = Some st1" "at_value pe sy name (p + length (key_text (Key_num i))) st1 z'"
proof -
  let ?e = "dec_int i"
  let ?q = "p + 1 + length ?e"
  have k: "key_text (Key_num i) = CHR ''['' # (?e @ [CHR '']''])" by (simp add: key_text_def)
  have p0: "part name p (CHR ''['' # (?e @ [CHR '']'']))" using assms(2) k by simp
  then have p1: "part name (p + 1) (?e @ [CHR '']''])" by (simp add: part_Cons)
  from part_append [OF this] have p2: "part name (p + 1) ?e" "part name ?q [CHR '']'']" by auto
  then have p3: "name ! ?q = CHR '']''" by (simp add: part_Cons)
  obtain a where a: "sym_step pe sy name p st = Some a" "sm_state a = 3" "sm_retval a = z"
    using open_bracket [OF assms(1), of "?e @ [CHR '']'']"] p0 by auto
  obtain b where b: "run pe sy name (p + 1) ?e a = Some b" "sm_state b = 6" "sm_retval b = z" "sm_keyword b = Some (p + 1)"
    "sm_type b = XF_ST_ARRAY_INDEX_NUM"
  proof (cases "i < 0")
    case True
    obtain c cs where d: "dec (nat (- i)) = c # cs" "isdigit c" "list_all isdigit cs" using dec_Cons by blast
    with True have e: "?e = CHR ''-'' # c # cs" by (simp add: dec_int_def)
    have q0: "part name (p + 1) (CHR ''-'' # c # cs)" using p2(1) e by simp
    then have q1: "part name (p + 2) (c # cs)" "name ! (p + 1) = CHR ''-''" by (simp_all add: part_Cons)
    then have q2: "part name (p + 3) cs" "name ! (p + 2) = c" by (simp_all add: part_Cons numeral_eq_Suc)
    have s1: "sym_step pe sy name (p + 1) a = Some (a\<lparr>sm_state := 9, sm_keyword := Some (p + 1)\<rparr>)"
      using a(2) q1(2) by (simp add: sym_step_def sym_index_start_def isdigit_def ord_def)
    let ?b = "a\<lparr>sm_state := 6, sm_keyword := Some (p + 1), sm_type := XF_ST_ARRAY_INDEX_NUM\<rparr>"
    have s2: "sym_step pe sy name (p + 2) (a\<lparr>sm_state := 9, sm_keyword := Some (p + 1)\<rparr>) = Some ?b"
      using q2(2) d(2) by (simp add: sym_step_def)
    have "run pe sy name (p + 3) cs ?b = Some ?b" by (rule run_digits_index [OF d(3) q2(1)]) simp
    then have "run pe sy name (p + 1) ?e a = Some ?b"
      using run_Cons [OF q0] run_Cons [OF q1(1)] s1 s2 unfolding e by (simp add: numeral_eq_Suc)
    then show ?thesis by (rule that) (simp_all add: a(3))
  next
    case False
    obtain c cs where d: "dec (nat i) = c # cs" "isdigit c" "list_all isdigit cs" using dec_Cons by blast
    with False have e: "?e = c # cs" by (simp add: dec_int_def)
    have q0: "part name (p + 1) (c # cs)" using p2(1) e by simp
    then have q1: "part name (p + 2) cs" "name ! (p + 1) = c" by (simp_all add: part_Cons)
    let ?b = "a\<lparr>sm_cc_length := 0, sm_state := 6, sm_keyword := Some (p + 1), sm_type := XF_ST_ARRAY_INDEX_NUM\<rparr>"
    have s1: "sym_step pe sy name (p + 1) a = Some ?b"
      using a(2) q1(2) d(2) digit_neq [OF d(2)] by (simp add: sym_step_def sym_index_start_def)
    have "run pe sy name (p + 2) cs ?b = Some ?b" by (rule run_digits_index [OF d(3) q1(1)]) simp
    then have "run pe sy name (p + 1) ?e a = Some ?b"
      using run_Cons [OF q0] s1 unfolding e by simp
    then show ?thesis by (rule that) (simp_all add: a(3))
  qed
  have f: "fetch_zval_from_symbol_table pe sy z (drop (p + 1) (name @ [NUL])) (length ?e) XF_ST_ARRAY_INDEX_NUM c l ce = Some z'" for c l ce
    by (rule fetch_element_num [OF assms(3,4)]) (rule part_bytes [OF p2(1)])
  let ?d = "sym_take_class pe (b\<lparr>sm_state := 1, sm_retval := z', sm_classname := None, sm_cc_length := 0, sm_keyword := None\<rparr>)"
  have d: "sym_step pe sy name ?q b = Some ?d"
    using p3 f b by (simp add: sym_step_def sym_fetch_def)
  have r1: "run pe sy name (p + 1) (?e @ [CHR '']'']) a = Some ?d"
    using b(1) d run_Cons [OF p2(2)] by (simp add: run_append)
  have "run pe sy name p (key_text (Key_num i)) st = Some ?d"
    using run_Cons [OF p0] a(1) r1 unfolding k by simp
  then show ?thesis by (rule that) (simp add: at_value_def)
qed

lemma run_key:
  assumes "at_value pe sy name p st z" "part name p (key_text k)" "map_of (elements_of pe z) k = Some z'" "key_ok k"
  obtains st1 where "run pe sy name p (key_text k) st = Some st1" "at_value pe sy name (p + length (key_text k)) st1 z'"
proof (cases k)
  case (Key_num i)
  from assms(4) Key_num have "in_long i" by (simp add: key_ok_def)
  from run_key_num [OF assms(1) assms(2,3) [unfolded Key_num] this] that Key_num show ?thesis by blast
next
  case (Key_str s)
  from assms(4) Key_str have "\<not> nul_then_octal s" by (simp add: key_ok_def)
  from run_key_str [OF assms(1) assms(2,3) [unfolded Key_str] this] that Key_str show ?thesis by blast
qed

section \<open>Paths\<close>

fun walk :: "php_engine \<Rightarrow> pzval \<Rightarrow> array_key list \<Rightarrow> pzval option" where
  "walk pe z [] = Some z"
| "walk pe z (k # ks) = (case map_of (elements_of pe z) k of Some z' \<Rightarrow> walk pe z' ks | None \<Rightarrow> None)"

lemma run_path:
  "at_value pe sy name p st z \<Longrightarrow> part name p (concat (map key_text path)) \<Longrightarrow> walk pe z path = Some z' \<Longrightarrow>
   list_all key_ok path \<Longrightarrow>
   \<exists>st1. run pe sy name p (concat (map key_text path)) st = Some st1 \<and>
         at_value pe sy name (p + length (concat (map key_text path))) st1 z'"
proof (induction path arbitrary: p st z)
  case (Cons k path)
  from Cons.prems(3) obtain y where y: "map_of (elements_of pe z) k = Some y" "walk pe y path = Some z'"
    by (auto split: option.splits)
  from Cons.prems(2) part_append have q: "part name p (key_text k)" "part name (p + length (key_text k)) (concat (map key_text path))"
    by auto
  from Cons.prems(4) obtain st1 where "run pe sy name p (key_text k) st = Some st1" "at_value pe sy name (p + length (key_text k)) st1 y"
    by (auto intro: run_key [OF Cons.prems(1) q(1) y(1)])
  with Cons.IH [OF _ q(2) y(2)] Cons.prems(4) show ?case by (fastforce simp: run_append add.assoc)
qed simp

text \<open>A variable's name that the state machine takes as a whole.\<close>

definition plain_name :: "string \<Rightarrow> bool" where
  "plain_name v \<longleftrightarrow>
     v \<noteq> [] \<and> hd v \<noteq> CHR ''$'' \<and> list_all (\<lambda>c. c \<noteq> NUL \<and> c \<noteq> CHR ''['' \<and> c \<noteq> CHR ''-'' \<and> c \<noteq> CHR '':'') v"

definition named :: sym where
  "named = sym_start\<lparr>sm_keyword := Some 1, sm_state := 1\<rparr>"

lemma run_plain:
  "part name p u \<Longrightarrow> list_all (\<lambda>c. c \<noteq> NUL \<and> c \<noteq> CHR ''['' \<and> c \<noteq> CHR ''-'' \<and> c \<noteq> CHR '':'') u \<Longrightarrow>
   run pe sy name p u named = Some named"
proof (induction u arbitrary: p)
  case (Cons c u)
  then have "part name (Suc p) u" "name ! p = c" by (simp_all add: part_Cons)
  moreover from this Cons.prems have "sym_step pe sy name p named = Some named"
    by (simp add: sym_step_def sym_name_def named_def)
  ultimately show ?case using Cons run_Cons [OF Cons.prems(1)] by simp
qed simp

lemma run_variable:
  assumes "part name 0 (CHR ''$'' # v)" "plain_name v"
  shows "run pe sy name 0 (CHR ''$'' # v) sym_start = Some named"
proof -
  obtain c u where v: "v = c # u" using assms(2) by (cases v) (auto simp: plain_name_def)
  have p1: "part name (Suc 0) (c # u)" "name ! 0 = CHR ''$''" using assms(1) v by (simp_all add: part_Cons)
  then have p2: "part name 2 u" "name ! 1 = c" by (simp_all add: part_Cons numeral_eq_Suc)
  have c: "c \<noteq> CHR ''$'' \<and> c \<noteq> CHR '':'' \<and> c \<noteq> CHR ''['' \<and> c \<noteq> CHR ''-''"
    "list_all (\<lambda>c. c \<noteq> NUL \<and> c \<noteq> CHR ''['' \<and> c \<noteq> CHR ''-'' \<and> c \<noteq> CHR '':'') u"
    using assms(2) v by (auto simp: plain_name_def)
  have s0: "sym_step pe sy name 0 sym_start = Some (sym_start\<lparr>sm_keyword := Some 1\<rparr>)"
    using p1(2) by (simp add: sym_step_def sym_start_def)
  have s1: "sym_step pe sy name 1 (sym_start\<lparr>sm_keyword := Some 1\<rparr>) = Some named"
    using p2(2) c(1) by (simp add: sym_step_def sym_start_def sym_name_def named_def)
  have "run pe sy name 2 u named = Some named" by (rule run_plain [OF p2(1) c(2)])
  then show ?thesis
    using run_Cons [of name 0 "CHR ''$''" v pe sy] run_Cons [OF p1(1)] assms(1) s0 s1 v by (simp add: numeral_eq_Suc)
qed

lemma fetch_root_prefix:
  assumes "NUL \<notin> set v"
  shows "fetch_root pe sy (v @ w) (length v) = fetch_root pe sy (v @ x) (length v)"
proof -
  have "strneq (c_str (v @ y)) X (length v) \<longleftrightarrow> v = take (length v) X" for y X
  proof -
    have "c_str (v @ y) = v @ c_str y" unfolding c_str_def by (rule takeWhile_append2) (use assms in auto)
    then show ?thesis by (simp add: strneq_def)
  qed
  moreover have "take (length v) (v @ y) = v" for y :: string by simp
  ultimately show ?thesis unfolding fetch_root_def by (simp only:)
qed

lemma named_fetch:
  assumes "plain_name v"
  shows "sym_fetch pe sy (CHR ''$'' # v @ w) (Suc (length v)) named =
    Some (named\<lparr>sm_retval := fetch_root pe sy (v @ [NUL]) (length v), sm_keyword := None\<rparr>)"
proof -
  have n: "NUL \<notin> set v" using assms by (auto simp: plain_name_def list_all_iff)
  show ?thesis
    using fetch_root_prefix [OF n, of pe sy "w @ [NUL]" "[NUL]"]
    by (simp add: sym_fetch_def named_def sym_start_def fetch_zval_from_symbol_table_def)
qed

lemma symbol_of_variable:
  "plain_name v \<Longrightarrow> xdebug_get_php_symbol pe sy (CHR ''$'' # v) = Some (fetch_root pe sy (v @ [NUL]) (length v))"
proof -
  assume v: "plain_name v"
  have "part (CHR ''$'' # v) 0 (CHR ''$'' # v)" by (auto simp: part_def)
  from run_variable [OF this v] have "sym_run pe sy (CHR ''$'' # v) [0..<length (CHR ''$'' # v)] sym_start = Some named"
    by (simp only: run_def add_0)
  with named_fetch [OF v, of pe sy "[]"] show ?thesis
    by (simp add: xdebug_get_php_symbol_def named_def del: upt_Suc)
qed

lemma foldl_fullname: "foldl array_element_fullname f path = f @ concat (map key_text path)"
  by (induction path arbitrary: f) (simp_all add: array_element_fullname_text)

lemma symbol_of_path:
  assumes "plain_name v" "xdebug_get_php_symbol pe sy (CHR ''$'' # v) = Some z" "walk pe z path = Some z'" "list_all key_ok path"
  shows "xdebug_get_php_symbol pe sy (foldl array_element_fullname (CHR ''$'' # v) path) = Some z'"
proof -
  let ?w = "concat (map key_text path)"
  let ?n = "CHR ''$'' # v @ ?w"
  have p: "part ?n 0 ((CHR ''$'' # v) @ ?w)" by (auto simp: part_def)
  from part_append [OF p] have q: "part ?n 0 (CHR ''$'' # v)" "part ?n (Suc (length v)) ?w" by auto
  have z: "z = fetch_root pe sy (v @ [NUL]) (length v)" using assms(1,2) symbol_of_variable by simp
  have "at_value pe sy ?n (Suc (length v)) named z"
    using named_fetch [OF assms(1)] z by (simp add: at_value_def named_def)
  from run_path [OF this q(2) assms(3,4)] obtain st1 where
    st1: "run pe sy ?n (Suc (length v)) ?w named = Some st1" "at_value pe sy ?n (length ?n) st1 z'" by auto
  have "run pe sy ?n 0 ((CHR ''$'' # v) @ ?w) sym_start = Some st1"
    using run_variable [OF q(1) assms(1)] st1(1) unfolding run_append by simp
  then have "sym_run pe sy ?n [0..<length ?n] sym_start = Some st1" by (simp add: run_def del: upt_Suc)
  with st1(2) show ?thesis
    by (auto simp: xdebug_get_php_symbol_def foldl_fullname at_value_def simp del: upt_Suc split: if_splits)
qed

end
