(* ===== verification/Xd_Export.thy ===== *)
theory Xd_Export
  imports Xd_Var_Xml
begin

text \<open>
  What the exporter of \<open>Xd_Var_Xml\<close> guarantees: it returns, with a tree no deeper than \<open>max_depth\<close> allows,
  whatever cycles the values have; and the pages of an array show each of its elements once, in order.
\<close>

section \<open>Pages are slices\<close>

fun each :: "('e \<Rightarrow> xml_node \<Rightarrow> bool \<Rightarrow> (xml_node \<times> bool) option) \<Rightarrow> 'e list \<Rightarrow> xml_node \<Rightarrow> bool \<Rightarrow> (xml_node \<times> bool) option" where
  "each f [] node enc = Some (node, enc)"
| "each f (e # es) node enc = Option.bind (f e node enc) (\<lambda>(n, b). each f es n b)"

lemma each_on_page_slice:
  "each_on_page f start_nr end_nr nr es node enc = each f (drop (nat (start_nr - nr)) (take (nat (end_nr - nr)) es)) node enc"
proof (induction es arbitrary: nr node enc)
  case (Cons e es)
  consider (before) "nr < start_nr" | (inside) "start_nr \<le> nr" "nr < end_nr" | (after) "start_nr \<le> nr" "end_nr \<le> nr" by linarith
  then show ?case
  proof cases
    case before
    then have s: "nat (start_nr - nr) = Suc (nat (start_nr - (nr + 1)))" by simp
    show ?thesis
    proof (cases "nr < end_nr")
      case True
      then have "nat (end_nr - nr) = Suc (nat (end_nr - (nr + 1)))" by simp
      with before s Cons show ?thesis by simp
    next
      case False
      with before Cons show ?thesis by simp
    qed
  next
    case inside
    then have "nat (start_nr - nr) = 0" "nat (start_nr - (nr + 1)) = 0" "nat (end_nr - nr) = Suc (nat (end_nr - (nr + 1)))" by simp_all
    with inside Cons show ?thesis by (simp split: Option.bind_split)
  next
    case after
    with Cons show ?thesis by simp
  qed
qed simp

section \<open>The depth of the tree\<close>

fun xml_depth :: "xml_node \<Rightarrow> nat" where
  "xml_depth (XmlNode tag txt attrs children) = Suc (fold max (map xml_depth children) 0)"

lemma fold_max: "fold max xs (m :: nat) = max m (fold max xs 0)"
proof (induction xs arbitrary: m)
  case (Cons x xs)
  show ?case using Cons [of "max x m"] Cons [of "max x 0"] by (simp add: max.assoc max.commute)
qed simp

lemma depth_init [simp]: "xml_depth (xdebug_xml_node_init t) = 1"
  by (simp add: xdebug_xml_node_init_def)

lemma depth_attribute [simp]: "xml_depth (xdebug_xml_add_attribute n a v) = xml_depth n"
  by (cases n) (simp add: xdebug_xml_add_attribute_def)

lemma depth_text [simp]: "xml_depth (xdebug_xml_add_text_ex n t e) = xml_depth n" "xml_depth (xdebug_xml_add_text n t) = xml_depth n"
  by (cases n; simp add: xdebug_xml_add_text_ex_def xdebug_xml_add_text_def)+

lemma depth_expand [simp]: "xml_depth (xdebug_xml_expand_attribute_value n a v) = xml_depth n"
  by (cases n) (simp add: xdebug_xml_expand_attribute_value_def split: option.split)

lemma depth_child [simp]: "xml_depth (xdebug_xml_add_child n c) = max (xml_depth n) (Suc (xml_depth c))"
  by (cases n) (simp add: xdebug_xml_add_child_def fold_max [of "[_]"])

lemma depth_base64 [simp]: "xml_depth (base64_element f v) = 1"
  by (simp add: base64_element_def)

lemma depth_attribute_or_element:
  "add_xml_attribute_or_element opts enc n f v = (n', e) \<Longrightarrow> xml_depth n \<le> d \<Longrightarrow> 2 \<le> d \<Longrightarrow> xml_depth n' \<le> d"
  by (auto simp: add_xml_attribute_or_element_def split: if_splits)

lemma depth_encoded: "xml_depth n \<le> d \<Longrightarrow> 2 \<le> d \<Longrightarrow> xml_depth (add_encoded_text_value_attribute_or_element e n v) \<le> d"
  by (simp add: add_encoded_text_value_attribute_or_element_def)

lemma depth_unencoded: "xml_depth n \<le> d \<Longrightarrow> 2 \<le> d \<Longrightarrow> xml_depth (add_unencoded_text_value_attribute_or_element e n v) \<le> d"
  by (simp add: add_unencoded_text_value_attribute_or_element_def)

lemma depth_scalar: "xml_depth n \<le> d \<Longrightarrow> 2 \<le> d \<Longrightarrow> xml_depth (export_scalar opts z n e) \<le> d"
  by (simp add: export_scalar_def export_string_def export_resource_def depth_encoded depth_unencoded Let_def split: pzval.split)

lemma depth_object_head:
  "object_head opts obj c k n e = (n', e') \<Longrightarrow> xml_depth n \<le> d \<Longrightarrow> 2 \<le> d \<Longrightarrow> xml_depth n' \<le> d"
  by (auto simp: object_head_def Let_def split: prod.splits; erule depth_attribute_or_element; simp)

lemma depth_lazy: "lazy_facet ce obj n = (n', b) \<Longrightarrow> xml_depth n' = xml_depth n"
  by (auto simp: lazy_facet_def split: if_splits lazy_state.splits bool.splits)

lemma depth_facets [simp]: "xml_depth (item_facets i m n) = xml_depth n"
  by (simp add: item_facets_def Let_def)

section \<open>The exporter returns\<close>

text \<open>
  What the engine promises: the class of an object is found, and after \<open>zend_class_init_statics\<close> its static
  properties have their slots.
\<close>

definition statics_ok :: "zend_class_entry \<Rightarrow> bool" where
  "statics_ok ce \<longleftrightarrow> list_all (\<lambda>(k, i). pi_static i \<longrightarrow> static_member ce i \<noteq> None) (ce_properties_info ce)"

definition engine_ok :: "php_engine \<Rightarrow> bool" where
  "engine_ok pe \<longleftrightarrow> (\<forall>c. case pe_fetch_class pe c of Some ce \<Rightarrow> statics_ok (pe_class_init_statics pe ce) | None \<Rightarrow> False)"

lemma engine_okD: "engine_ok pe \<Longrightarrow> \<exists>ce. pe_fetch_class pe c = Some ce \<and> statics_ok (pe_class_init_statics pe ce)"
  unfolding engine_ok_def by (drule spec [of _ c]) (auto split: option.splits)

lemma static_items_total:
  "list_all (\<lambda>(k, i). pi_static i \<longrightarrow> static_member ce i \<noteq> None) infos \<Longrightarrow> \<exists>items. static_items ce infos = Some items"
  by (induction ce infos rule: static_items.induct) auto

lemma merged_hash_total: "statics_ok ce \<Longrightarrow> \<exists>items. merged_hash pe ce obj = Some items"
  using static_items_total unfolding statics_ok_def merged_hash_def by fastforce

text \<open>An exporter that returns trees of at most depth \<open>d\<close>.\<close>

definition returns_within :: "nat \<Rightarrow> exporter \<Rightarrow> bool" where
  "returns_within d export \<longleftrightarrow>
     (\<forall>struc name node enc. xml_depth node \<le> 2 \<longrightarrow> (\<exists>n e. export struc name node enc = Some (n, e) \<and> xml_depth n \<le> d))"

lemma each_within:
  assumes "\<And>x n b. xml_depth n \<le> d \<Longrightarrow> \<exists>n' b'. f x n b = Some (n', b') \<and> xml_depth n' \<le> d"
  shows "xml_depth node \<le> d \<Longrightarrow> \<exists>n b. each f es node enc = Some (n, b) \<and> xml_depth n \<le> d"
proof (induction es arbitrary: node enc)
  case (Cons x es)
  obtain n' b' where "f x node enc = Some (n', b')" "xml_depth n' \<le> d" using assms [OF Cons.prems] by blast
  with Cons.IH show ?case by fastforce
qed simp

lemma array_element_within:
  assumes "returns_within d export" "2 \<le> d" "xml_depth parent \<le> Suc d"
  shows "\<exists>n b. xdebug_array_element_export_xml_node pe opts export pn x parent enc = Some (n, b) \<and> xml_depth n \<le> Suc d"
proof -
  let ?full = "case pn of Some p \<Rightarrow> array_element_fullname p (fst x) | None \<Rightarrow> []"
  let ?e1 = "check_if_extended_properties_are_needed pe opts False (Some (array_element_name (fst x)))
    (if ?full = [] then None else Some ?full) (Some (snd x))"
  obtain n2 e2 where n2: "add_xml_attribute_or_element opts ?e1 (xdebug_xml_node_init ''property'') ''name''
    (array_element_name (fst x)) = (n2, e2)" by fastforce
  obtain n3 e3 where n3: "(if ?full = [] then (n2, e2) else add_xml_attribute_or_element opts e2 n2 ''fullname'' ?full) = (n3, e3)"
    by fastforce
  have "xml_depth n2 \<le> 2" by (rule depth_attribute_or_element [OF n2]) simp_all
  then have "xml_depth n3 \<le> 2" using n3 depth_attribute_or_element by (cases "?full = []") auto
  with assms(1) obtain n e where "export (Some (snd x)) (Some ?full) n3 e3 = Some (n, e)" "xml_depth n \<le> d"
    unfolding returns_within_def by blast
  with n2 n3 assms(3) show ?thesis
    unfolding xdebug_array_element_export_xml_node_def by (simp add: Let_def)
qed

lemma object_element_within:
  assumes "returns_within d export" "2 \<le> d" "xml_depth parent \<le> Suc d"
  shows "\<exists>n b. xdebug_object_element_export_xml_node pe opts export obj pn c x parent enc = Some (n, b) \<and> xml_depth n \<le> Suc d"
proof -
  obtain pname modifier cls where i: "xdebug_get_property_info pe (oi_name x) = (pname, modifier, cls)" by (metis prod_cases3)
  define foreign where "foreign = foreign_class c modifier cls"
  define nm where "nm = (case foreign of Some c \<Rightarrow> starred_name c pname | None \<Rightarrow> pname)"
  define full where "full = map_option (\<lambda>p. object_element_fullname p (oi_static x) foreign pname) pn"
  define e1 where "e1 = check_if_extended_properties_are_needed pe opts False (Some nm) full (Some (oi_zv x))"
  obtain n2 e2 where n2: "add_xml_attribute_or_element opts e1 (xdebug_xml_node_init ''property'') ''name'' nm = (n2, e2)"
    by fastforce
  obtain n3 e3 where n3: "(case full of Some f \<Rightarrow> add_xml_attribute_or_element opts e2 n2 ''fullname'' f | None \<Rightarrow> (n2, e2)) = (n3, e3)"
    by fastforce
  have "xml_depth n2 \<le> 2" by (rule depth_attribute_or_element [OF n2]) simp_all
  then have "xml_depth n3 \<le> 2" using n3 depth_attribute_or_element by (cases full) auto
  then have "xml_depth (item_facets x modifier n3) \<le> 2" by simp
  with assms(1) obtain n e where "export (item_value pe obj x) full (item_facets x modifier n3) e3 = Some (n, e)" "xml_depth n \<le> d"
    unfolding returns_within_def by blast
  with i n2 n3 assms(3) show ?thesis
    unfolding xdebug_object_element_export_xml_node_def foreign_def nm_def full_def e1_def by (simp add: Let_def)
qed

lemma depth_heads [simp]: "xml_depth (array_head arr n) = xml_depth n" "xml_depth (numchildren k n) = xml_depth n"
  by (simp_all add: array_head_def numchildren_def)

lemma page_attributes_total:
  "opt_max_depth opts \<le> int (length (opt_runtime opts)) \<Longrightarrow> int level < opt_max_depth opts \<Longrightarrow>
   \<exists>m. page_attributes opts level n = Some m \<and> xml_depth m = xml_depth n"
  by (simp add: page_attributes_def)

lemma paged_within:
  assumes "opt_max_depth opts \<le> int (length (opt_runtime opts))" "xml_depth m \<le> 2" "2 \<le> d"
    and "\<And>x n b. int level < opt_max_depth opts \<Longrightarrow> xml_depth n \<le> Suc d \<Longrightarrow> \<exists>n' b'. f x n b = Some (n', b') \<and> xml_depth n' \<le> Suc d"
  shows "\<exists>n e. (if int level < opt_max_depth opts
        then do { n3 \<leftarrow> page_attributes opts level m; each_on_page f (page_start opts level) (page_end opts level) 0 es n3 b }
        else Some (m, b)) = Some (n, e) \<and> xml_depth n \<le> (if int level < opt_max_depth opts then Suc d else 2)"
proof (cases "int level < opt_max_depth opts")
  case True
  obtain n3 where n3: "page_attributes opts level m = Some n3" "xml_depth n3 \<le> Suc d"
    using page_attributes_total [OF assms(1) True, of m] assms(2,3) by auto
  from each_within [OF assms(4) [OF True] n3(2)] n3(1) True show ?thesis by (simp add: each_on_page_slice)
qed (use assms(2) in simp)

text \<open>One level: the elements come from an exporter one level down, if there is a level down.\<close>

lemma level_within:
  assumes ok: "engine_ok pe" "opt_max_depth opts \<le> int (length (opt_runtime opts))"
    and below: "\<And>p. int level < opt_max_depth opts \<Longrightarrow> returns_within d (xdebug_var_export_xml_node pe opts (level + 1) p)"
    and d: "2 \<le> d" "xml_depth node \<le> 2"
  shows "\<exists>n e. xdebug_var_export_xml_node pe opts level protected struc name node enc = Some (n, e) \<and>
    xml_depth n \<le> (if int level < opt_max_depth opts then Suc d else 2)"
proof (cases struc)
  case None
  with d show ?thesis by (simp add: xdebug_var_export_xml_node.simps)
next
  case (Some z0)
  define D where "D = (if int level < opt_max_depth opts then Suc d else 2)"
  have D: "2 \<le> D" using d by (simp add: D_def)
  note unfold = xdebug_var_export_xml_node.simps [of pe opts level protected "Some z0" name node enc]
  show ?thesis unfolding D_def [symmetric]
  proof (cases "deref_reference pe (deref_indirect z0)")
    case (IS_ARRAY a)
    show "\<exists>n e. xdebug_var_export_xml_node pe opts level protected struc name node enc = Some (n, e) \<and> xml_depth n \<le> D"
    proof (cases "a \<in> set protected")
      case True
      with Some IS_ARRAY d D show ?thesis by (simp add: unfold Let_def)
    next
      case False
      let ?arr = "pe_array pe a"
      let ?f = "xdebug_array_element_export_xml_node pe opts
        (xdebug_var_export_xml_node pe opts (level + 1) (if za_immutable ?arr then protected else a # protected)) name"
      have "\<exists>n e. (if int level < opt_max_depth opts
          then do { n3 \<leftarrow> page_attributes opts level (numchildren (length (za_elements ?arr)) (array_head ?arr node));
                    each_on_page ?f (page_start opts level) (page_end opts level) 0 (foreach_ind (za_elements ?arr)) n3 enc }
          else Some (numchildren (length (za_elements ?arr)) (array_head ?arr node), enc)) = Some (n, e) \<and>
        xml_depth n \<le> (if int level < opt_max_depth opts then Suc d else 2)"
        by (rule paged_within [OF ok(2) _ d(1)])
          (use d(2) in simp, rule array_element_within [OF below d(1)], assumption+)
      then show ?thesis using Some IS_ARRAY False by (simp add: unfold Let_def D_def del: One_nat_def)
    qed
  next
    case (IS_OBJECT a)
    let ?obj = "pe_object pe a"
    obtain ce where ce: "pe_fetch_class pe (ce_name (ob_ce ?obj)) = Some ce" "statics_ok (pe_class_init_statics pe ce)"
      using engine_okD [OF ok(1)] by blast
    obtain n0 b0 where l: "lazy_facet ce ?obj node = (n0, b0)" by fastforce
    have n0: "xml_depth n0 \<le> 2" using depth_lazy [OF l] d by simp
    obtain items where items: "merged_hash pe (pe_class_init_statics pe ce) ?obj = Some items"
      using merged_hash_total [OF ce(2)] by blast
    obtain n1 e1 where h: "object_head opts ?obj (ce_name (ob_ce ?obj)) (length items) n0 enc = (n1, e1)" by fastforce
    have n1: "xml_depth n1 \<le> 2" by (rule depth_object_head [OF h n0]) simp
    have "\<exists>n e. (if int level < opt_max_depth opts
        then do { n3 \<leftarrow> page_attributes opts level (numchildren (length items) n1);
                  each_on_page (xdebug_object_element_export_xml_node pe opts (xdebug_var_export_xml_node pe opts (level + 1) protected)
                    ?obj name (ce_name (ob_ce ?obj))) (page_start opts level) (page_end opts level) 0 items n3 e1 }
        else Some (numchildren (length items) n1, e1)) = Some (n, e) \<and> xml_depth n \<le> D"
      unfolding D_def
      by (rule paged_within [OF ok(2) _ d(1)])
        (use n1 in simp, rule object_element_within [OF below d(1)], assumption+)
    with Some IS_OBJECT ce(1) l items h n0 n1 D show "\<exists>n e. xdebug_var_export_xml_node pe opts level protected struc name node enc = Some (n, e) \<and> xml_depth n \<le> D"
      by (auto simp: unfold Let_def simp del: One_nat_def)
  qed (use Some d D in \<open>simp_all add: unfold depth_scalar order.trans [OF depth_scalar]\<close>)
qed

lemma export_within:
  assumes "engine_ok pe" "opt_max_depth opts \<le> int (length (opt_runtime opts))"
  shows "nat (opt_max_depth opts - int level) = k \<Longrightarrow> returns_within (2 + k) (xdebug_var_export_xml_node pe opts level protected)"
proof (induction k arbitrary: level protected)
  case 0
  then have "\<not> int level < opt_max_depth opts" by simp
  then show ?case unfolding returns_within_def
    using level_within [OF assms, where level = level and d = 2] by fastforce
next
  case (Suc k)
  then have l: "int level < opt_max_depth opts" "nat (opt_max_depth opts - int (level + 1)) = k" by simp_all
  then show ?case unfolding returns_within_def
    using level_within [OF assms Suc.IH [OF l(2)]] by simp
qed

section \<open>The names shown\<close>

definition shown_as :: "xml_node \<Rightarrow> string option \<times> string option" where
  "shown_as n = (xdebug_xml_get_attribute_value n ''name'', xdebug_xml_get_attribute_value n ''fullname'')"

lemma shown_attribute [simp]: "a \<noteq> ''name'' \<Longrightarrow> a \<noteq> ''fullname'' \<Longrightarrow> shown_as (xdebug_xml_add_attribute n a v) = shown_as n"
  by (auto simp: shown_as_def xdebug_xml_get_attribute_value_def xdebug_xml_add_attribute_def map_add_def split: option.split)

lemma shown_child [simp]: "shown_as (xdebug_xml_add_child n c) = shown_as n"
  by (simp add: shown_as_def xdebug_xml_get_attribute_value_def xdebug_xml_add_child_def)

lemma shown_text [simp]: "shown_as (xdebug_xml_add_text_ex n t e) = shown_as n" "shown_as (xdebug_xml_add_text n t) = shown_as n"
  by (simp_all add: shown_as_def xdebug_xml_get_attribute_value_def xdebug_xml_add_text_ex_def xdebug_xml_add_text_def)

lemma map_of_expand: "a \<noteq> f \<Longrightarrow> map_of (expand_attr f v as) a = map_of as a"
  by (induction f v as rule: expand_attr.induct) auto

lemma shown_expand [simp]: "shown_as (xdebug_xml_expand_attribute_value n ''facet'' v) = shown_as n"
proof (cases "xdebug_xml_get_attribute_value n ''facet''")
  case (Some w)
  then show ?thesis
    by (simp add: xdebug_xml_expand_attribute_value_def shown_as_def xdebug_xml_get_attribute_value_def map_of_expand)
qed (simp add: xdebug_xml_expand_attribute_value_def)

lemma shown_class:
  "add_xml_attribute_or_element opts enc n ''classname'' v = (n', e) \<Longrightarrow> shown_as n' = shown_as n"
  by (auto simp: add_xml_attribute_or_element_def split: if_splits)

lemma shown_scalar [simp]: "shown_as (export_scalar opts z n e) = shown_as n"
  by (simp add: export_scalar_def export_string_def export_resource_def add_encoded_text_value_attribute_or_element_def
      add_unencoded_text_value_attribute_or_element_def Let_def split: pzval.split)

lemma shown_heads [simp]: "shown_as (array_head arr n) = shown_as n" "shown_as (numchildren k n) = shown_as n"
  by (simp_all add: array_head_def numchildren_def)

lemma shown_object_head: "object_head opts obj c k n e = (n', e') \<Longrightarrow> shown_as n' = shown_as n"
  by (auto simp: object_head_def Let_def split: prod.splits if_splits dest!: shown_class)

lemma shown_lazy: "lazy_facet ce obj n = (n', b) \<Longrightarrow> shown_as n' = shown_as n"
  by (auto simp: lazy_facet_def split: if_splits lazy_state.splits bool.splits)

lemma shown_page: "page_attributes opts level n = Some m \<Longrightarrow> shown_as m = shown_as n"
  by (auto simp: page_attributes_def split: if_splits)

text \<open>What one element does to its parent: a child, shown under the element's names.\<close>

definition adds_child :: "('e \<Rightarrow> xml_node \<Rightarrow> bool \<Rightarrow> (xml_node \<times> bool) option) \<Rightarrow> bool" where
  "adds_child f \<longleftrightarrow> (\<forall>x n b n' b'. f x n b = Some (n', b') \<longrightarrow> (\<exists>c. n' = xdebug_xml_add_child n c))"

lemma array_adds_child: "adds_child (xdebug_array_element_export_xml_node pe opts export pn)"
  by (auto simp: adds_child_def xdebug_array_element_export_xml_node_def Let_def Option.bind_eq_Some_conv split: prod.splits)

lemma object_adds_child: "adds_child (xdebug_object_element_export_xml_node pe opts export obj pn c)"
  by (auto simp: adds_child_def xdebug_object_element_export_xml_node_def Let_def Option.bind_eq_Some_conv split: prod.splits)

lemma each_shown: "adds_child f \<Longrightarrow> each f es n b = Some (n', b') \<Longrightarrow> shown_as n' = shown_as n"
proof (induction es arbitrary: n b)
  case (Cons x es)
  from Cons.prems(2) obtain n1 b1 where x: "f x n b = Some (n1, b1)" "each f es n1 b1 = Some (n', b')"
    by (auto simp: Option.bind_eq_Some_conv)
  with Cons.prems(1) have "shown_as n1 = shown_as n" unfolding adds_child_def by (metis shown_child)
  with Cons.IH [OF Cons.prems(1) x(2)] show ?case by simp
qed simp

lemma export_shown:
  assumes "xdebug_var_export_xml_node pe opts level protected struc name node enc = Some (n, e)"
  shows "shown_as n = shown_as node"
proof (cases struc)
  case None
  with assms show ?thesis by (auto simp: xdebug_var_export_xml_node.simps)
next
  case (Some z0)
  note unfold = xdebug_var_export_xml_node.simps [of pe opts level protected "Some z0" name node enc]
  show ?thesis
  proof (cases "deref_reference pe (deref_indirect z0)")
    case (IS_ARRAY a)
    with assms Some show ?thesis
      by (auto simp: unfold Let_def each_on_page_slice Option.bind_eq_Some_conv dest!: shown_page each_shown [OF array_adds_child]
          split: if_splits)
  next
    case (IS_OBJECT a)
    let ?obj = "pe_object pe a"
    from assms Some IS_OBJECT obtain ce where ce: "pe_fetch_class pe (ce_name (ob_ce ?obj)) = Some ce"
      by (cases "pe_fetch_class pe (ce_name (ob_ce ?obj))") (simp_all add: unfold Let_def)
    obtain n0 b0 where l: "lazy_facet ce ?obj node = (n0, b0)" by fastforce
    show ?thesis
    proof (cases b0)
      case True
      with assms Some IS_OBJECT ce l shown_lazy [OF l] show ?thesis by (simp add: unfold Let_def)
    next
      case False
      with assms Some IS_OBJECT ce l obtain items where items: "merged_hash pe (pe_class_init_statics pe ce) ?obj = Some items"
        by (cases "merged_hash pe (pe_class_init_statics pe ce) ?obj") (simp_all add: unfold Let_def)
      obtain n1 e1 where h: "object_head opts ?obj (ce_name (ob_ce ?obj)) (length items) n0 enc = (n1, e1)" by fastforce
      from assms Some IS_OBJECT ce l False items h have "shown_as n = shown_as n1"
        by (auto simp: unfold Let_def each_on_page_slice Option.bind_eq_Some_conv dest!: shown_page each_shown [OF object_adds_child]
            split: if_splits)
      with shown_object_head [OF h] shown_lazy [OF l] show ?thesis by simp
    qed
  qed (use assms Some in \<open>auto simp: unfold\<close>)
qed

lemma array_element_shown:
  assumes "xdebug_array_element_export_xml_node pe opts (xdebug_var_export_xml_node pe opts level protected) (Some f) x parent enc = Some (n, e)"
    "opt_extended_properties opts = 0"
  shows "\<exists>c. n = xdebug_xml_add_child parent c \<and>
    shown_as c = (Some (array_element_name (fst x)), Some (array_element_fullname f (fst x)))"
proof -
  have full: "array_element_fullname f (fst x) \<noteq> []" by (simp add: array_element_fullname_def split: array_key.split)
  let ?n3 = "xdebug_xml_add_attribute (xdebug_xml_add_attribute (xdebug_xml_node_init ''property'') ''name'' (array_element_name (fst x)))
    ''fullname'' (array_element_fullname f (fst x))"
  from assms full obtain c b where c: "xdebug_var_export_xml_node pe opts level protected (Some (snd x))
      (Some (array_element_fullname f (fst x))) ?n3 False = Some (c, b)" "n = xdebug_xml_add_child parent c"
    by (auto simp: xdebug_array_element_export_xml_node_def check_if_extended_properties_are_needed_def
        add_xml_attribute_or_element_def Let_def Option.bind_eq_Some_conv)
  have "shown_as ?n3 = (Some (array_element_name (fst x)), Some (array_element_fullname f (fst x)))"
    by (simp add: shown_as_def xdebug_xml_get_attribute_value_def xdebug_xml_add_attribute_def xdebug_xml_node_init_def)
  with export_shown [OF c(1)] c(2) show ?thesis by auto
qed

lemma each_names:
  assumes "\<And>x n b n' b'. f x n b = Some (n', b') \<Longrightarrow> \<exists>c. n' = xdebug_xml_add_child n c \<and> shown_as c = nm x"
  shows "each f es n b = Some (n', b') \<Longrightarrow> map shown_as (xn_child n') = map shown_as (xn_child n) @ map nm es"
proof (induction es arbitrary: n b)
  case (Cons x es)
  from Cons.prems obtain n1 b1 where x: "f x n b = Some (n1, b1)" "each f es n1 b1 = Some (n', b')"
    by (auto simp: Option.bind_eq_Some_conv)
  from assms [OF x(1)] obtain c where "n1 = xdebug_xml_add_child n c" "shown_as c = nm x" by blast
  with Cons.IH [OF x(2)] show ?case by (simp add: xdebug_xml_add_child_def)
qed simp

section \<open>The pages of an array\<close>

definition page_of :: "var_export_options \<Rightarrow> nat \<Rightarrow> var_export_options" where
  "page_of opts p = opts\<lparr>opt_runtime := (opt_runtime opts)[0 := int p]\<rparr>"

definition children_shown :: "(xml_node \<times> bool) option \<Rightarrow> (string option \<times> string option) list" where
  "children_shown r = (case r of Some (n, e) \<Rightarrow> map shown_as (xn_child n) | None \<Rightarrow> [])"

definition element_names :: "string \<Rightarrow> array_key \<times> pzval \<Rightarrow> string option \<times> string option" where
  "element_names f x = (Some (array_element_name (fst x)), Some (array_element_fullname f (fst x)))"

lemma children_keep [simp]:
  "xn_child (xdebug_xml_add_attribute n a v) = xn_child n" "xn_child (array_head arr n) = xn_child n" "xn_child (numchildren k n) = xn_child n"
  "xn_child (xdebug_xml_node_init t) = []"
  by (simp_all add: array_head_def numchildren_def xdebug_xml_add_attribute_def xdebug_xml_node_init_def)

lemma page_shows_slice:
  assumes ok: "engine_ok pe" "opt_max_depth opts \<le> int (length (opt_runtime opts))"
    and opts: "0 < opt_max_depth opts" "opt_extended_properties opts = 0" "0 < opt_max_children opts"
    and small: "opt_max_children opts * (int p + 1) < 2 ^ 31"
    and node: "xml_depth node \<le> 2" "xn_child node = []"
  shows "children_shown (xdebug_var_export_xml_node pe (page_of opts p) 0 [] (Some (IS_ARRAY a)) (Some f) node enc) =
    map (element_names f) (take (nat (opt_max_children opts)) (drop (p * nat (opt_max_children opts)) (foreach_ind (za_elements (pe_array pe a)))))"
proof -
  let ?o = "page_of opts p" and ?m = "opt_max_children opts" and ?arr = "pe_array pe a"
  have len: "0 < length (opt_runtime opts)" using ok(2) opts(1) by linarith
  have o: "opt_max_depth ?o = opt_max_depth opts" "opt_max_children ?o = ?m" "opt_extended_properties ?o = 0"
    "length (opt_runtime ?o) = length (opt_runtime opts)" "opt_runtime ?o ! 0 = int p"
    using opts len by (simp_all add: page_of_def)
  have nn: "0 \<le> ?m * int p" using opts(3) by simp
  have lt: "?m * int p \<le> ?m * (int p + 1)" using opts(3) by (simp add: distrib_left)
  have se: "page_start ?o 0 = ?m * int p" "page_end ?o 0 = ?m * (int p + 1)"
  proof -
    have "to_int32 (?m * int p) = ?m * int p" "to_int32 (?m * (int p + 1)) = ?m * (int p + 1)"
      by (rule to_int32_id; use nn lt small in linarith)+
    then show "page_start ?o 0 = ?m * int p" "page_end ?o 0 = ?m * (int p + 1)"
      unfolding page_start_def page_end_def o(2,5) by simp_all
  qed
  let ?f = "xdebug_array_element_export_xml_node pe ?o
    (xdebug_var_export_xml_node pe ?o 1 (if za_immutable ?arr then [] else [a])) (Some f)"
  obtain n e where r: "xdebug_var_export_xml_node pe ?o 0 [] (Some (IS_ARRAY a)) (Some f) node enc = Some (n, e)"
    using export_within [OF ok(1), of ?o 0] o ok(2) node(1) unfolding returns_within_def by fastforce
  let ?es = "foreach_ind (za_elements ?arr)"
  have "\<exists>n3. page_attributes ?o 0 (numchildren (length (za_elements ?arr)) (array_head ?arr node)) = Some n3 \<and> xn_child n3 = [] \<and>
      each ?f (drop (nat (?m * int p)) (take (nat (?m * (int p + 1))) ?es)) n3 enc = Some (n, e)"
    using r o opts(1) len node(2)
    by (auto simp: xdebug_var_export_xml_node.simps [of pe ?o 0] deref_reference_def deref_indirect_def Let_def each_on_page_slice se
        page_attributes_def)
  then obtain n3 where n3: "xn_child n3 = []"
    "each ?f (drop (nat (?m * int p)) (take (nat (?m * (int p + 1))) ?es)) n3 enc = Some (n, e)" by blast
  have "map shown_as (xn_child n) = map shown_as (xn_child n3) @
      map (element_names f) (drop (nat (?m * int p)) (take (nat (?m * (int p + 1))) ?es))"
    by (rule each_names [OF _ n3(2)]) (drule array_element_shown [OF _ o(3)], simp add: element_names_def)
  then have "map shown_as (xn_child n) = map (element_names f) (drop (nat (?m * int p)) (take (nat (?m * (int p + 1))) ?es))"
    by (simp add: n3(1))
  moreover have "drop (nat (?m * int p)) (take (nat (?m * (int p + 1))) ?es) = take (nat ?m) (drop (p * nat ?m) ?es)"
  proof -
    have "nat (?m * int p) = p * nat ?m" "nat (?m * (int p + 1)) = p * nat ?m + nat ?m"
      using opts(3) by (simp_all add: nat_mult_distrib nat_add_distrib distrib_left mult.commute)
    then show ?thesis by (simp add: drop_take)
  qed
  ultimately show ?thesis by (simp add: children_shown_def r)
qed

lemma slices_concat: "concat (map (\<lambda>p. take m (drop (p * m) xs)) [0..<k]) = take (k * m) xs"
proof (induction k)
  case (Suc k)
  have "take (Suc k * m) xs = take (k * m) xs @ take m (drop (k * m) xs)"
    using take_add [of "k * m" m xs] by (simp add: add.commute)
  with Suc show ?case by simp
qed simp

lemma plain_names:
  assumes "opt_extended_properties opts = 0"
  shows "xdebug_get_zval_value_xml_node_ex pe opts (Some name) z ty =
    (case variable_name ty name of
       Some f \<Rightarrow> xdebug_var_export_xml_node pe opts 0 [] (Some z) (Some f)
                  (xdebug_xml_add_attribute (xdebug_xml_add_attribute (xdebug_xml_node_init ''property'') ''name'' f) ''fullname'' f) False
     | None \<Rightarrow> None)"
  using assms
  by (simp add: xdebug_get_zval_value_xml_node_ex_def check_if_extended_properties_are_needed_def add_xml_attribute_or_element_def
      split: option.split)

lemma all_pages:
  assumes "engine_ok pe" "opt_max_depth opts \<le> int (length (opt_runtime opts))" "0 < opt_max_depth opts"
    "opt_extended_properties opts = 0" "0 < opt_max_children opts" "opt_max_children opts * int k < 2 ^ 31"
    "prepare_variable_name name = Some f" "length (foreach_ind (za_elements (pe_array pe a))) \<le> k * nat (opt_max_children opts)"
  shows "concat (map (\<lambda>p. children_shown
           (xdebug_get_zval_value_xml_node_ex pe (page_of opts p) (Some name) (IS_ARRAY a) XDEBUG_VAR_TYPE_NORMAL)) [0..<k]) =
         map (element_names f) (foreach_ind (za_elements (pe_array pe a)))"
proof -
  let ?es = "foreach_ind (za_elements (pe_array pe a))" and ?m = "nat (opt_max_children opts)"
  have page: "children_shown (xdebug_get_zval_value_xml_node_ex pe (page_of opts p) (Some name) (IS_ARRAY a) XDEBUG_VAR_TYPE_NORMAL) =
      map (element_names f) (take ?m (drop (p * ?m) ?es))" if "p < k" for p
  proof -
    have "opt_max_children opts * (int p + 1) \<le> opt_max_children opts * int k"
      using that assms(5) by (intro mult_left_mono) auto
    then have "opt_max_children opts * (int p + 1) < 2 ^ 31" using assms(6) by linarith
    moreover have "opt_extended_properties (page_of opts p) = 0" using assms(4) by (simp add: page_of_def)
    ultimately show ?thesis
      using assms page_shows_slice [OF assms(1,2,3,4,5)] by (simp add: plain_names variable_name_def)
  qed
  have "concat (map (\<lambda>p. children_shown
           (xdebug_get_zval_value_xml_node_ex pe (page_of opts p) (Some name) (IS_ARRAY a) XDEBUG_VAR_TYPE_NORMAL)) [0..<k]) =
        concat (map (\<lambda>p. map (element_names f) (take ?m (drop (p * ?m) ?es))) [0..<k])"
    by (intro arg_cong [of _ _ concat] map_cong refl page) simp
  also have "\<dots> = map (element_names f) (concat (map (\<lambda>p. take ?m (drop (p * ?m) ?es)) [0..<k]))"
    by (simp add: map_concat comp_def)
  also have "\<dots> = map (element_names f) ?es" using assms(8) by (simp add: slices_concat)
  finally show ?thesis .
qed

lemma value_node_within:
  assumes "engine_ok pe" "opt_max_depth opts \<le> int (length (opt_runtime opts))" "variable_name ty name = Some f"
  shows "\<exists>n e. xdebug_get_zval_value_xml_node_ex pe opts (Some name) z ty = Some (n, e) \<and> xml_depth n \<le> 2 + nat (opt_max_depth opts)"
proof -
  obtain n2 e2 where n2: "add_xml_attribute_or_element opts
      (check_if_extended_properties_are_needed pe opts False (Some f) (Some f) (Some z)) (xdebug_xml_node_init ''property'') ''name'' f = (n2, e2)"
    by fastforce
  obtain n3 e3 where n3: "add_xml_attribute_or_element opts e2 n2 ''fullname'' f = (n3, e3)" by fastforce
  have "xml_depth n2 \<le> 2" by (rule depth_attribute_or_element [OF n2]) simp_all
  then have "xml_depth n3 \<le> 2" by (rule depth_attribute_or_element [OF n3]) simp
  with export_within [OF assms(1,2), of 0 "nat (opt_max_depth opts)" "[]"]
  have "\<exists>n e. xdebug_var_export_xml_node pe opts 0 [] (Some z) (Some f) n3 e3 = Some (n, e) \<and> xml_depth n \<le> 2 + nat (opt_max_depth opts)"
    unfolding returns_within_def by simp
  with n2 n3 assms(3) show ?thesis by (simp add: xdebug_get_zval_value_xml_node_ex_def)
qed

end
