(* ===== verification/Xd_Property.thy ===== *)
theory Xd_Property
  imports Xd_Symbol Xd_Var_Xml Xd_Dbgp
begin

text \<open>
  The commands of \<open>src/debugger/handler_dbgp.c\<close> that show variables: \<open>property_get\<close>, \<open>property_set\<close>,
  \<open>property_value\<close> and \<open>context_get\<close>.  They select the scope in which the library looks names up, and leave it
  selected.  A record gives the engine's variables beside the debugger's stack.
\<close>

section \<open>Variables of the stack\<close>

record frame_vars =
  fv_symbol_table :: "hash_table option"
  fv_execute_data :: "exec_data option"
  fv_vars :: "string list option"

text \<open>
  \<open>ve_frames\<close> runs beside the stack; \<open>ve_current\<close> is \<open>EG(current_execute_data)\<close>, \<open>ve_globals\<close> \<open>EG(symbol_table)\<close>,
  \<open>ve_return_value\<close> the value behind \<open>XG_DBG(current_return_value)\<close>.
\<close>

record var_env =
  ve_php :: php_engine
  ve_frames :: "frame_vars list"
  ve_current :: "exec_data option"
  ve_globals :: hash_table
  ve_self_class :: "zend_class_entry option"
  ve_return_value :: "pzval option"

definition frame_vars_at :: "var_env \<Rightarrow> debugger \<Rightarrow> int \<Rightarrow> frame_vars option" where
  "frame_vars_at ve s nr =
     (if nr < 0 \<or> nr \<ge> int (length (dbg_stack s)) then None
      else (let i = nat (int (length (dbg_stack s)) - nr - 1) in
            if i < length (ve_frames ve) then Some (ve_frames ve ! i) else None))"

definition set_scope :: "(lib_scope \<Rightarrow> lib_scope) \<Rightarrow> debugger \<Rightarrow> debugger" where
  "set_scope f s = s\<lparr>dbg_scope := f (dbg_scope s)\<rparr>"

definition symbol_env_of :: "var_env \<Rightarrow> debugger \<Rightarrow> symbol_env" where
  "symbol_env_of ve s =
     \<lparr>sy_scope = dbg_scope s, sy_self_class = ve_self_class ve, sy_return_value = ve_return_value ve,
      sy_virtual_exception_value = (con_virtual_exception_value s \<noteq> 0)\<rparr>"

text \<open>The execute data of a frame is the one of the frame above, of the top frame the engine's current one.\<close>

definition frame_data :: "var_env \<Rightarrow> debugger \<Rightarrow> int \<Rightarrow> exec_data option option" where
  "frame_data ve s depth =
     (if depth > 0 then map_option fv_execute_data (frame_vars_at ve s (depth - 1)) else Some (ve_current ve))"

definition select_locals :: "var_env \<Rightarrow> debugger \<Rightarrow> int \<Rightarrow> function_stack_entry \<Rightarrow> debugger option" where
  "select_locals ve s depth fse =
     do { data \<leftarrow> frame_data ve s depth;
          fv \<leftarrow> frame_vars_at ve s depth;
          Some (set_scope (xdebug_lib_set_active_symbol_table (fv_symbol_table fv) \<circ>
                           xdebug_lib_set_active_stack_entry (Some fse) \<circ> xdebug_lib_set_active_data data) s) }"

definition select_superglobals :: "var_env \<Rightarrow> debugger \<Rightarrow> debugger" where
  "select_superglobals ve s = set_scope (xdebug_lib_set_active_symbol_table (Some (ve_globals ve))) s"

section \<open>Reading a variable\<close>

definition set_encode :: "bool \<Rightarrow> debugger \<Rightarrow> debugger" where
  "set_encode e s =
     s\<lparr>con_options := map_option (\<lambda>o1. o1\<lparr>opt_encode_as_extended_property := (if e then 1 else 0)\<rparr>) (con_options s)\<rparr>"

text \<open>The inner \<open>None\<close> is NULL.\<close>

definition get_symbol ::
    "var_env \<Rightarrow> debugger \<Rightarrow> var_export_options \<Rightarrow> string \<Rightarrow> (debugger \<times> xml_node option) option" where
  "get_symbol ve s opts name =
     do { retval \<leftarrow> xdebug_get_php_symbol (ve_php ve) (symbol_env_of ve s) name;
          if retval = IS_UNDEF \<or> (c_str name = ''this'' \<and> retval = IS_NULL) then Some (s, None)
          else do { (tmp_node, e) \<leftarrow> xdebug_get_zval_value_xml_node_ex (ve_php ve) opts (Some name) retval XDEBUG_VAR_TYPE_NORMAL;
                    Some (set_encode e s, Some tmp_node) } }"

text \<open>The value alone, written one level down into \<open>node\<close>, with the flag as the last export left it.\<close>

definition get_symbol_contents ::
    "var_env \<Rightarrow> debugger \<Rightarrow> var_export_options \<Rightarrow> string \<Rightarrow> xml_node \<Rightarrow> (debugger \<times> xml_node option) option" where
  "get_symbol_contents ve s opts name node =
     do { retval \<leftarrow> xdebug_get_php_symbol (ve_php ve) (symbol_env_of ve s) name;
          if retval = IS_UNDEF then Some (s, None)
          else do { (n, e) \<leftarrow> xdebug_var_export_xml_node (ve_php ve) opts 1 [] (Some retval) (Some name) node
                                (opt_encode_as_extended_property opts \<noteq> 0);
                    Some (set_encode e s, Some n) } }"

definition add_variable_node ::
    "var_env \<Rightarrow> debugger \<Rightarrow> var_export_options \<Rightarrow> string \<Rightarrow> xml_node \<Rightarrow> (debugger \<times> xml_node option) option" where
  "add_variable_node ve s opts name node =
     map_option (\<lambda>(s1, contents). (s1, map_option (xdebug_xml_add_child node) contents)) (get_symbol ve s opts name)"

definition add_constant_node ::
    "var_env \<Rightarrow> debugger \<Rightarrow> var_export_options \<Rightarrow> string \<Rightarrow> pzval \<Rightarrow> xml_node \<Rightarrow> (debugger \<times> xml_node) option" where
  "add_constant_node ve s opts name const_val node =
     do { (contents, e) \<leftarrow> xdebug_get_zval_value_xml_node_ex (ve_php ve) opts (Some name) const_val XDEBUG_VAR_TYPE_CONSTANT;
          Some (set_encode e s, xdebug_xml_add_child node (xdebug_xml_expand_attribute_value contents ''facet'' ''constant'')) }"

section \<open>Arguments\<close>

definition int_option :: "xdebug_dbgp_arg \<Rightarrow> char \<Rightarrow> int \<Rightarrow> int option" where
  "int_option args opt dflt =
     (if CMD_OPTION_SET args opt then map_option strtol_int (CMD_OPTION_CHAR args opt) else Some dflt)"

definition XDEBUG_ERROR_PROPERTY_NON_EXISTENT :: int where "XDEBUG_ERROR_PROPERTY_NON_EXISTENT = 300"

text \<open>
  What the three property commands do first: \<open>Inl\<close> the error, \<open>Inr\<close> the debugger with its scope.  \<open>constants\<close>
  says whether context 2 is one of its own; other numbers are the superglobals, or an error.
\<close>

definition select_context :: "bool \<Rightarrow> var_env \<Rightarrow> debugger \<Rightarrow> int \<Rightarrow> int \<Rightarrow> (int + debugger) option" where
  "select_context constants ve s depth context_nr =
     (if context_nr = 0 then
        (case xdebug_get_stack_frame s depth of
           Some fse \<Rightarrow> map_option Inr (select_locals ve s depth fse)
         | None \<Rightarrow> Some (Inl XDEBUG_ERROR_STACK_DEPTH_INVALID))
      else if \<not> constants \<or> context_nr = 1 then Some (Inr (select_superglobals ve s))
      else if context_nr = 2 then Some (Inr s)
      else Some (Inl XDEBUG_ERROR_INVALID_ARGS))"

section \<open>\<open>property_get\<close>\<close>

definition property_get_node ::
    "var_env \<Rightarrow> debugger \<Rightarrow> var_export_options \<Rightarrow> int \<Rightarrow> string \<Rightarrow> xml_node \<Rightarrow> (debugger \<times> xml_node option) option" where
  "property_get_node ve s opts context_nr name retval =
     (if context_nr = 2
      then (case pe_constant (ve_php ve) name of
              None \<Rightarrow> Some (s, None)
            | Some z \<Rightarrow> map_option (\<lambda>(s1, r). (s1, Some r)) (add_constant_node ve s opts name z retval))
      else map_option (\<lambda>(s1, r). (s1\<lparr>con_inhibit_notifications := False\<rparr>, r)) (add_variable_node ve s opts name retval))"

definition xdebug_dbgp_handle_property_get :: "var_env \<Rightarrow> debugger \<Rightarrow> xdebug_dbgp_arg \<Rightarrow> xml_node \<Rightarrow> (debugger \<times> xml_node) option" where
  "xdebug_dbgp_handle_property_get ve s args retval =
     (if \<not> CMD_OPTION_SET args (CHR ''n'') then RETURN_RESULT s retval XDEBUG_ERROR_INVALID_ARGS
      else do {
        depth \<leftarrow> int_option args (CHR ''d'') 0;
        context_nr \<leftarrow> int_option args (CHR ''c'') 0;
        selected \<leftarrow> select_context True ve s depth context_nr;
        case selected of
          Inl e \<Rightarrow> RETURN_RESULT s retval e
        | Inr s1 \<Rightarrow> do {
            page \<leftarrow> int_option args (CHR ''p'') 0;
            s2 \<leftarrow> set_page s1 page;
            opts \<leftarrow> con_options s2;
            max_data \<leftarrow> int_option args (CHR ''m'') (opt_max_data opts);
            name \<leftarrow> CMD_OPTION_BYTES args (CHR ''n'');
            (s3, r) \<leftarrow> property_get_node ve s2 (opts\<lparr>opt_max_data := max_data\<rparr>) context_nr name retval;
            case r of
              Some ret1 \<Rightarrow> Some (s3, ret1)
            | None \<Rightarrow> RETURN_RESULT s3 retval XDEBUG_ERROR_PROPERTY_NON_EXISTENT } })"

section \<open>\<open>property_value\<close>\<close>

definition xdebug_dbgp_handle_property_value :: "var_env \<Rightarrow> debugger \<Rightarrow> xdebug_dbgp_arg \<Rightarrow> xml_node \<Rightarrow> (debugger \<times> xml_node) option" where
  "xdebug_dbgp_handle_property_value ve s args retval =
     (if \<not> CMD_OPTION_SET args (CHR ''n'') then RETURN_RESULT s retval XDEBUG_ERROR_INVALID_ARGS
      else do {
        depth \<leftarrow> int_option args (CHR ''d'') 0;
        context_nr \<leftarrow> int_option args (CHR ''c'') 0;
        selected \<leftarrow> select_context False ve s depth context_nr;
        case selected of
          Inl e \<Rightarrow> RETURN_RESULT s retval e
        | Inr s1 \<Rightarrow> do {
            page \<leftarrow> int_option args (CHR ''p'') 0;
            s2 \<leftarrow> set_page s1 page;
            opts \<leftarrow> con_options s2;
            max_data \<leftarrow> int_option args (CHR ''m'') (opt_max_data opts);
            if max_data < 0 then RETURN_RESULT s2 retval XDEBUG_ERROR_INVALID_ARGS
            else do {
              name \<leftarrow> CMD_OPTION_BYTES args (CHR ''n'');
              (s3, r) \<leftarrow> get_symbol_contents ve s2 (opts\<lparr>opt_max_data := max_data\<rparr>) name retval;
              case r of
                Some ret1 \<Rightarrow> Some (s3, ret1)
              | None \<Rightarrow> RETURN_RESULT s3 retval XDEBUG_ERROR_PROPERTY_NON_EXISTENT } } })"

section \<open>\<open>property_set\<close>\<close>

text \<open>The cast, and whether the type is one the code knows; an unknown one is reported, and the value set anyway.\<close>

definition cast_for_type :: "string \<Rightarrow> string \<times> bool" where
  "cast_for_type ty =
     (if ty = ''bool'' then (''(bool) '', True) else if ty = ''int'' then (''(int) '', True)
      else if ty = ''float'' then (''(float) '', True) else if ty = ''string'' then (''(string) '', True)
      else ('''', False))"

definition assign_code :: "string \<Rightarrow> string \<Rightarrow> string \<Rightarrow> string" where
  "assign_code name cast_as new_value = name @ '' = '' @ cast_as @ '' '' @ c_str new_value"

definition xdebug_dbgp_handle_property_set ::
    "dbg_env \<Rightarrow> var_env \<Rightarrow> debugger \<Rightarrow> xdebug_dbgp_arg \<Rightarrow> xml_node \<Rightarrow> (debugger \<times> xml_node) option" where
  "xdebug_dbgp_handle_property_set env ve s args retval =
     (if \<not> CMD_OPTION_SET args (CHR ''n'') \<or> \<not> CMD_OPTION_SET args (CHR ''-'')
      then RETURN_RESULT s retval XDEBUG_ERROR_INVALID_ARGS
      else do {
        depth \<leftarrow> int_option args (CHR ''d'') 0;
        context_nr \<leftarrow> int_option args (CHR ''c'') 0;
        selected \<leftarrow> select_context False ve s depth context_nr;
        case selected of
          Inl e \<Rightarrow> RETURN_RESULT s retval e
        | Inr s1 \<Rightarrow> do {
            page \<leftarrow> int_option args (CHR ''p'') 0;
            s2 \<leftarrow> set_page s1 page;
            bytes \<leftarrow> CMD_OPTION_BYTES args (CHR ''-'');
            decoded \<leftarrow> xdebug_base64_decode bytes;
            msg \<leftarrow> error_message_from_code XDEBUG_ERROR_EVALUATING_CODE;
            case decoded of
              None \<Rightarrow> Some (RETURN_RESULT_WITH_MESSAGE s2 retval XDEBUG_ERROR_EVALUATING_CODE
                             (msg @ '': '' @ ''invalid base64-encoded data value''))
            | Some new_value \<Rightarrow> do {
                (cast_as, known) \<leftarrow> (if CMD_OPTION_SET args (CHR ''t'')
                                     then map_option cast_for_type (CMD_OPTION_CHAR args (CHR ''t'')) else Some ('''', True));
                let ret1 = (if known then retval else xdebug_xml_add_attribute retval ''success'' ''0'');
                name \<leftarrow> CMD_OPTION_CHAR args (CHR ''n'');
                (case xdebug_do_eval env s2 (assign_code name cast_as new_value) of
                   (s3, Eval_failed _) \<Rightarrow> Some (s3, xdebug_xml_add_attribute ret1 ''success'' ''0'')
                 | (s3, Eval_value _ _) \<Rightarrow> Some (s3, xdebug_xml_add_attribute ret1 ''success'' ''1'')) } } })"

section \<open>\<open>context_get\<close>\<close>

text \<open>Variables of the symbol table that are no superglobals join the compiled ones.\<close>

definition hidden_globals :: "string list" where
  "hidden_globals =
     [''argc'', ''argv'', ''_COOKIE'', ''_ENV'', ''_FILES'', ''_GET'', ''_POST'', ''_REQUEST'', ''_SERVER'', ''_SESSION'',
      ''HTTP_COOKIE_VARS'', ''HTTP_ENV_VARS'', ''HTTP_GET_VARS'', ''HTTP_POST_VARS'', ''HTTP_POST_FILES'',
      ''HTTP_RAW_POST_DATA'', ''HTTP_SERVER_VARS'', ''HTTP_SESSION_VARS'', ''GLOBALS'']"

definition xdebug_add_filtered_symboltable_var :: "string xdebug_hash \<Rightarrow> array_key \<times> pzval \<Rightarrow> string xdebug_hash" where
  "xdebug_add_filtered_symboltable_var tmp_hash e =
     (case fst e of
        Key_num _ \<Rightarrow> tmp_hash
      | Key_str k \<Rightarrow>
          if cget k 0 = NUL \<or> c_str k \<in> set hidden_globals then tmp_hash else xdebug_hash_add tmp_hash k k)"

definition xdebug_declared_var_hash_from_llist :: "string list \<Rightarrow> string xdebug_hash" where
  "xdebug_declared_var_hash_from_llist names = foldl (\<lambda>h n. xdebug_hash_add h n n) (xdebug_hash_alloc 32 True) names"

text \<open>\<open>strcmp\<close> on the names; equal names stay in the order of the table.\<close>

fun strcmp_less :: "string \<Rightarrow> string \<Rightarrow> bool" where
  "strcmp_less _ [] = False"
| "strcmp_less [] (_ # _) = True"
| "strcmp_less (a # as) (b # bs) = (ord a < ord b \<or> (a = b \<and> strcmp_less as bs))"

fun insert_name :: "hash_key \<times> string \<Rightarrow> (hash_key \<times> string) list \<Rightarrow> (hash_key \<times> string) list" where
  "insert_name x [] = [x]"
| "insert_name x (y # ys) = (if strcmp_less (c_str (snd x)) (c_str (snd y)) then x # y # ys else y # insert_name x ys)"

definition sort_names :: "(hash_key \<times> string) list \<Rightarrow> (hash_key \<times> string) list" where
  "sort_names xs = fold insert_name xs []"

definition attach_declared_var_with_contents ::
    "var_env \<Rightarrow> var_export_options \<Rightarrow> (debugger \<times> xml_node) option \<Rightarrow> hash_key \<times> string \<Rightarrow> (debugger \<times> xml_node) option" where
  "attach_declared_var_with_contents ve opts st he =
     do { (s, node) \<leftarrow> st;
          (s1, contents) \<leftarrow> get_symbol ve s opts (snd he);
          case contents of
            Some c \<Rightarrow> Some (s1, xdebug_xml_add_child node c)
          | None \<Rightarrow> map_option (\<lambda>(n, e). (set_encode e s1, n)) (xdebug_var_xml_attach_uninitialized_var opts node (snd he)) }"

fun attach_globals :: "var_env \<Rightarrow> var_export_options \<Rightarrow> array_key list \<Rightarrow> debugger \<times> xml_node \<Rightarrow> (debugger \<times> xml_node) option" where
  "attach_globals ve opts [] st = Some st"
| "attach_globals ve opts (Key_num _ # ks) st = attach_globals ve opts ks st"
| "attach_globals ve opts (Key_str k # ks) (s, node) =
     do { (s1, r) \<leftarrow> add_variable_node ve s opts (c_str k) node;
          attach_globals ve opts ks (s1, case r of Some n \<Rightarrow> n | None \<Rightarrow> node) }"

fun attach_constants ::
    "var_env \<Rightarrow> var_export_options \<Rightarrow> (string \<times> bool \<times> pzval) list \<Rightarrow> debugger \<times> xml_node \<Rightarrow> (debugger \<times> xml_node) option" where
  "attach_constants ve opts [] st = Some st"
| "attach_constants ve opts ((name, user, z) # cs) (s, node) =
     (if user then Option.bind (add_constant_node ve s opts name z node) (attach_constants ve opts cs)
      else attach_constants ve opts cs (s, node))"

definition attach_virtual ::
    "var_env \<Rightarrow> var_export_options \<Rightarrow> string \<Rightarrow> string \<Rightarrow> pzval \<Rightarrow> debugger \<times> xml_node \<Rightarrow> (debugger \<times> xml_node) option" where
  "attach_virtual ve opts name facet z st =
     (case st of (s, node) \<Rightarrow>
      do { (tmp_node, e) \<leftarrow> xdebug_get_zval_value_xml_node_ex (ve_php ve) opts (Some (CHR ''$'' # name)) z XDEBUG_VAR_TYPE_NORMAL;
           Some (set_encode e s, xdebug_xml_add_child node (xdebug_xml_expand_attribute_value tmp_node ''facet'' facet)) })"

text \<open>The compiled variables and those of the symbol table, sorted by name, then \<open>$this\<close> if it was not among them.\<close>

definition attach_declared ::
    "var_env \<Rightarrow> var_export_options \<Rightarrow> frame_vars \<Rightarrow> debugger \<times> xml_node \<Rightarrow> (debugger \<times> xml_node) option" where
  "attach_declared ve opts fv st =
     do { (st1, must_add_this) \<leftarrow>
            (case fv_vars fv of
               None \<Rightarrow> Some (st, True)
             | Some vars \<Rightarrow>
                 (let h = xdebug_declared_var_hash_from_llist vars;
                      tmp_hash = (case sc_active_symbol_table (dbg_scope (fst st)) of
                                    Some table \<Rightarrow> foldl xdebug_add_filtered_symboltable_var h table
                                  | None \<Rightarrow> h)
                  in map_option (\<lambda>st1. (st1, xdebug_hash_find tmp_hash ''this'' = None))
                       (xdebug_hash_apply_with_argument tmp_hash (Some sort_names) (Some st)
                          (attach_declared_var_with_contents ve opts))));
          if must_add_this
          then do { (s2, r) \<leftarrow> add_variable_node ve (fst st1) opts ''this'' (snd st1);
                    Some (s2, case r of Some n \<Rightarrow> n | None \<Rightarrow> snd st1) }
          else Some st1 }"

definition attach_statics ::
    "var_env \<Rightarrow> var_export_options \<Rightarrow> function_stack_entry \<Rightarrow> debugger \<times> xml_node \<Rightarrow> (debugger \<times> xml_node) option" where
  "attach_statics ve opts fse st =
     (if fse_type fse = XFUNC_STATIC_MEMBER
      then do { c \<leftarrow> fse_object_class fse;
                ce \<leftarrow> pe_fetch_class (ve_php ve) c;
                (n, e) \<leftarrow> xdebug_var_xml_attach_static_vars (ve_php ve) opts
                            (if ce_internal ce \<or> ce_immutable ce then pe_class_init_statics (ve_php ve) ce else ce) (snd st);
                Some (set_encode e (fst st), n) }
      else Some st)"

definition leave_scope :: "debugger \<Rightarrow> debugger" where
  "leave_scope s = set_scope (xdebug_lib_set_active_symbol_table None \<circ> xdebug_lib_set_active_data None) s"

text \<open>The locals; the inner \<open>None\<close> is a depth without a frame.\<close>

definition attach_locals ::
    "var_env \<Rightarrow> var_export_options \<Rightarrow> int \<Rightarrow> debugger \<times> xml_node \<Rightarrow> (debugger \<times> xml_node) option option" where
  "attach_locals ve opts depth st =
     (case st of (s, node) \<Rightarrow>
      case xdebug_get_stack_frame s depth of
        None \<Rightarrow> Some None
      | Some fse \<Rightarrow> do {
          data \<leftarrow> frame_data ve s depth;
          fv \<leftarrow> frame_vars_at ve s depth;
          let s1 = set_scope (xdebug_lib_set_active_symbol_table (fv_symbol_table fv) \<circ> xdebug_lib_set_active_data data) s;
          st2 \<leftarrow> attach_declared ve opts fv (s1, node);
          st3 \<leftarrow> attach_statics ve opts fse st2;
          Some (Some (leave_scope (fst st3), snd st3)) })"

text \<open>The result is 1 for a depth without a frame; the variables added before it stay in the answer.\<close>

definition attach_context_vars ::
    "var_env \<Rightarrow> debugger \<Rightarrow> var_export_options \<Rightarrow> int \<Rightarrow> int \<Rightarrow> xml_node \<Rightarrow> (debugger \<times> xml_node \<times> int) option" where
  "attach_context_vars ve s opts context_id depth node =
     (if context_id = 1 then
        do { let s1 = set_scope (xdebug_lib_set_active_data None \<circ> xdebug_lib_set_active_symbol_table (Some (ve_globals ve))) s;
             (s2, n) \<leftarrow> attach_globals ve opts (map fst (ve_globals ve)) (s1, node);
             Some (set_scope (xdebug_lib_set_active_symbol_table None) s2, n, 0) }
      else if context_id = 2 then
        map_option (\<lambda>(s1, n). (s1, n, 0)) (attach_constants ve opts (pe_constants (ve_php ve)) (s, node))
      else
        (case (ve_return_value ve, con_include_return_value s \<noteq> 0 \<and> depth = 0) of
           (Some z, True) \<Rightarrow>
             map_option (\<lambda>(s1, n). (s1, n, 0))
               (attach_virtual ve opts XDEBUG_RETURN_VALUE_VAR_NAME ''readonly return_value virtual'' z (s, node))
         | _ \<Rightarrow> do {
             data \<leftarrow> ve_current ve;
             func \<leftarrow> ed_func data;
             st1 \<leftarrow> (case (ed_intermediate data, fst func) of
                       (Some z, True) \<Rightarrow>
                         attach_virtual ve opts ''__INTERMEDIATE_VALUE'' ''readonly intermediate_value virtual'' z (s, node)
                     | _ \<Rightarrow> Some (s, node));
             st2 \<leftarrow> (case (pe_exception (ve_php ve), con_virtual_exception_value s \<noteq> 0 \<and> depth = 0) of
                       (Some a, True) \<Rightarrow>
                         attach_virtual ve opts XDEBUG_EXCEPTION_VALUE_VAR_NAME ''readonly virtual'' (IS_OBJECT a) st1
                     | _ \<Rightarrow> Some st1);
             found \<leftarrow> attach_locals ve opts depth st2;
             Some (case found of Some (s3, n) \<Rightarrow> (s3, n, 0) | None \<Rightarrow> (fst st2, snd st2, 1)) }))"

definition xdebug_dbgp_handle_context_get :: "var_env \<Rightarrow> debugger \<Rightarrow> xdebug_dbgp_arg \<Rightarrow> xml_node \<Rightarrow> (debugger \<times> xml_node) option" where
  "xdebug_dbgp_handle_context_get ve s args retval =
     do { context_id \<leftarrow> int_option args (CHR ''c'') 0;
          depth \<leftarrow> int_option args (CHR ''d'') 0;
          s1 \<leftarrow> set_page s 0;
          opts \<leftarrow> con_options s1;
          (s2, ret1, res) \<leftarrow> attach_context_vars ve s1 opts context_id depth retval;
          if res = 1 then RETURN_RESULT s2 ret1 XDEBUG_ERROR_STACK_DEPTH_INVALID
          else Some (s2, xdebug_xml_add_attribute ret1 ''context'' (dec_int context_id)) }"

section \<open>All commands\<close>

definition variable_handlers :: "dbg_env \<Rightarrow> var_env \<Rightarrow> string \<Rightarrow> command_handler" where
  "variable_handlers env ve name s args retval =
     (if name = ''context_get'' then xdebug_dbgp_handle_context_get ve s args retval
      else if name = ''property_get'' then xdebug_dbgp_handle_property_get ve s args retval
      else if name = ''property_set'' then xdebug_dbgp_handle_property_set env ve s args retval
      else if name = ''property_value'' then xdebug_dbgp_handle_property_value ve s args retval
      else None)"

end
