(* ===== verification/Xd_Property_Spec.thy ===== *)
theory Xd_Property_Spec
  imports Xd_Property Xd_Names Xd_Export
begin

text \<open>
  What the commands of \<open>Xd_Property\<close> do to the debugger, and where they do not do what they are asked.
\<close>

section \<open>Showing variables changes nothing else\<close>

text \<open>The limits of an export are those set by the client; the page and the flag may differ.\<close>

definition same_limits :: "var_export_options option \<Rightarrow> var_export_options option \<Rightarrow> bool" where
  "same_limits o1 o2 =
     (case (o1, o2) of
        (Some a, Some b) \<Rightarrow>
          opt_max_children b = opt_max_children a \<and> opt_max_data b = opt_max_data a \<and> opt_max_depth b = opt_max_depth a \<and>
          opt_show_hidden b = opt_show_hidden a \<and> opt_extended_properties b = opt_extended_properties a \<and>
          length (opt_runtime b) = length (opt_runtime a)
      | (None, None) \<Rightarrow> True
      | _ \<Rightarrow> False)"

definition only_read :: "debugger \<Rightarrow> debugger \<Rightarrow> bool" where
  "only_read s s' \<longleftrightarrow>
     same_limits (con_options s) (con_options s') \<and>
     s' = s\<lparr>dbg_scope := dbg_scope s', con_options := con_options s', con_inhibit_notifications := con_inhibit_notifications s'\<rparr>"

lemma same_limits_refl [simp]: "same_limits o1 o1"
  by (simp add: same_limits_def split: option.split)

lemma same_limits_trans: "same_limits a b \<Longrightarrow> same_limits b c \<Longrightarrow> same_limits a c"
  by (auto simp: same_limits_def split: option.splits)

lemma only_read_refl [simp]: "only_read s s"
  by (simp add: only_read_def)

lemma only_read_trans: "only_read s t \<Longrightarrow> only_read t u \<Longrightarrow> only_read s u"
proof -
  assume a: "only_read s t" "only_read t u"
  then have u: "u = t\<lparr>dbg_scope := dbg_scope u, con_options := con_options u, con_inhibit_notifications := con_inhibit_notifications u\<rparr>"
    and t: "t = s\<lparr>dbg_scope := dbg_scope t, con_options := con_options t, con_inhibit_notifications := con_inhibit_notifications t\<rparr>"
    by (simp_all add: only_read_def)
  have "u = s\<lparr>dbg_scope := dbg_scope u, con_options := con_options u, con_inhibit_notifications := con_inhibit_notifications u\<rparr>"
    by (subst u, subst t) simp
  with a show ?thesis using same_limits_trans unfolding only_read_def by blast
qed

lemma only_read_scope [simp]: "only_read s (set_scope f s)"
  by (simp add: only_read_def set_scope_def)

lemma only_read_encode [simp]: "only_read s (set_encode e s)"
  by (simp add: only_read_def set_encode_def same_limits_def split: option.split)

lemma only_read_inhibit [simp]: "only_read s (s\<lparr>con_inhibit_notifications := b\<rparr>)"
  by (simp add: only_read_def)

lemma only_read_page: "set_page s v = Some t \<Longrightarrow> only_read s t"
  by (auto simp: set_page_def only_read_def same_limits_def Option.bind_eq_Some_conv split: if_splits)

lemma only_read_set_page: "post (only_read s) (set_page s v)"
  by (auto simp: post_def intro: only_read_page)

text \<open>A fallible step that only reads; \<open>reads_rules\<close> carries it through the constructs of the code.\<close>

definition reads :: "debugger \<Rightarrow> (debugger \<times> 'r) option \<Rightarrow> bool" where
  "reads s res \<longleftrightarrow> post (\<lambda>(t, r). only_read s t) res"

lemma readsD: "reads s res \<Longrightarrow> res = Some (t, r) \<Longrightarrow> only_read s t"
  by (auto simp: reads_def post_def)

lemma reads_rules:
  "reads s None"
  "only_read s t \<Longrightarrow> reads s (Some (t, r))"
  "(\<And>y. m = Some y \<Longrightarrow> reads s (f y)) \<Longrightarrow> reads s (Option.bind m f)"
  "(c \<Longrightarrow> reads s p) \<Longrightarrow> (\<not> c \<Longrightarrow> reads s q) \<Longrightarrow> reads s (if c then p else q)"
  "(o1 = None \<Longrightarrow> reads s p) \<Longrightarrow> (\<And>y. o1 = Some y \<Longrightarrow> reads s (f1 y)) \<Longrightarrow> reads s (case o1 of None \<Rightarrow> p | Some y \<Rightarrow> f1 y)"
  "(\<And>y z. pr = (y, z) \<Longrightarrow> reads s (h y z)) \<Longrightarrow> reads s (case pr of (y, z) \<Rightarrow> h y z)"
  "(\<And>e. sm = Inl e \<Longrightarrow> reads s (k e)) \<Longrightarrow> (\<And>t. sm = Inr t \<Longrightarrow> reads s (l t)) \<Longrightarrow>
   reads s (case sm of Inl e \<Rightarrow> k e | Inr t \<Rightarrow> l t)"
  by (auto simp: reads_def post_def Option.bind_eq_Some_conv split: option.splits prod.splits sum.splits)

lemma reads_from: "only_read s t \<Longrightarrow> reads t res \<Longrightarrow> reads s res"
  using only_read_trans by (fastforce simp: reads_def post_def)

lemma reads_bind:
  "reads s m \<Longrightarrow> (\<And>t r. m = Some (t, r) \<Longrightarrow> only_read s t \<Longrightarrow> reads s (f (t, r))) \<Longrightarrow> reads s (Option.bind m f)"
  by (cases m) (auto simp: reads_def post_def)

lemma reads_map:
  assumes "reads s m" "\<And>t r. only_read s t \<Longrightarrow> only_read s (fst (f (t, r)))" shows "reads s (map_option f m)"
proof (cases m)
  case (Some p)
  obtain t r where p: "p = (t, r)" by fastforce
  obtain t' r' where f: "f p = (t', r')" by fastforce
  have "only_read s t" using assms(1) Some p by (simp add: readsD)
  from assms(2) [OF this, of r] f Some p show ?thesis by (simp add: reads_rules)
qed (simp add: reads_rules)

lemma reads_result: "only_read s t \<Longrightarrow> reads s (RETURN_RESULT t r c)"
  by (auto simp: reads_def post_def RETURN_RESULT_def)

lemma only_read_step: "only_read s t \<Longrightarrow> only_read s (set_encode e t)" "only_read s t \<Longrightarrow> only_read s (set_scope f t)"
    "only_read s t \<Longrightarrow> only_read s (t\<lparr>con_inhibit_notifications := b\<rparr>)"
  using only_read_trans only_read_encode only_read_scope only_read_inhibit by blast+

lemma get_symbol_reads: "reads s (get_symbol ve s opts name)"
  unfolding get_symbol_def by (intro reads_rules only_read_refl only_read_step)

lemma get_symbol_contents_reads: "reads s (get_symbol_contents ve s opts name node)"
  unfolding get_symbol_contents_def by (intro reads_rules only_read_refl only_read_step)

lemma add_variable_reads: "reads s (add_variable_node ve s opts name node)"
  unfolding add_variable_node_def by (rule reads_map [OF get_symbol_reads]) simp

lemma add_constant_reads: "reads s (add_constant_node ve s opts name z node)"
  unfolding add_constant_node_def by (intro reads_rules only_read_refl only_read_step)

lemma select_context_reads: "select_context c ve s depth nr = Some (Inr t) \<Longrightarrow> only_read s t"
  by (auto simp: select_context_def select_locals_def select_superglobals_def Option.bind_eq_Some_conv
      split: if_splits option.splits)

lemma property_get_node_reads: "reads s (property_get_node ve s opts nr name r)"
  unfolding property_get_node_def
  by (intro reads_rules only_read_refl reads_map [OF add_constant_reads] reads_map [OF add_variable_reads]) (auto intro: only_read_step)

text \<open>The scope is selected and the page set; from there on a command only reads.\<close>

lemma selected_reads: "select_context c ve s depth nr = Some (Inr s1) \<Longrightarrow> set_page s1 page = Some s2 \<Longrightarrow> only_read s s2"
  by (rule only_read_trans [OF select_context_reads only_read_page])

lemma property_get_done:
  "select_context c ve s depth nr = Some (Inr s1) \<Longrightarrow> set_page s1 page = Some s2 \<Longrightarrow>
   property_get_node ve s2 opts nr name r = Some (s3, res) \<Longrightarrow> only_read s s3"
  by (rule only_read_trans [OF selected_reads readsD [OF property_get_node_reads]])

lemma property_value_done:
  "select_context c ve s depth nr = Some (Inr s1) \<Longrightarrow> set_page s1 page = Some s2 \<Longrightarrow>
   get_symbol_contents ve s2 opts name r = Some (s3, res) \<Longrightarrow> only_read s s3"
  by (rule only_read_trans [OF selected_reads readsD [OF get_symbol_contents_reads]])

lemma property_get_reads: "reads s (xdebug_dbgp_handle_property_get ve s args r)"
  unfolding xdebug_dbgp_handle_property_get_def
  by (intro reads_rules reads_result) (auto intro: property_get_done)

lemma property_value_reads: "reads s (xdebug_dbgp_handle_property_value ve s args r)"
  unfolding xdebug_dbgp_handle_property_value_def
  by (intro reads_rules reads_result) (auto intro: property_value_done selected_reads)

lemma attach_declared_reads:
  "reads s st \<Longrightarrow> reads s (attach_declared_var_with_contents ve opts st he)"
  unfolding attach_declared_var_with_contents_def
  by (rule reads_bind, assumption, clarsimp, rule reads_bind, erule reads_from, rule get_symbol_reads)
    (auto simp: reads_def post_def intro: only_read_step split: option.splits)

lemma attach_all_declared_reads:
  "reads s st \<Longrightarrow> reads s (foldl (attach_declared_var_with_contents ve opts) st hes)"
  by (induction hes arbitrary: st) (simp_all add: attach_declared_reads)

lemma attach_globals_reads: "only_read s (fst st) \<Longrightarrow> reads s (attach_globals ve opts ks st)"
proof (induction ve opts ks st rule: attach_globals.induct)
  case (3 ve opts k ks t node)
  then show ?case
    by (auto intro!: reads_bind reads_from [OF _ add_variable_reads] split: prod.split)
qed (auto intro: reads_rules(2))

lemma attach_constants_reads: "only_read s (fst st) \<Longrightarrow> reads s (attach_constants ve opts cs st)"
proof (induction ve opts cs st rule: attach_constants.induct)
  case (2 ve opts name user z cs t node)
  then show ?case
    by (auto intro!: reads_bind reads_from [OF _ add_constant_reads])
qed (auto intro: reads_rules(2))

lemma attach_virtual_reads: "only_read s (fst st) \<Longrightarrow> reads s (attach_virtual ve opts name facet z st)"
  unfolding attach_virtual_def by (intro reads_rules only_read_step) auto

lemma attach_declared_all_reads: "only_read s (fst st) \<Longrightarrow> reads s (attach_declared ve opts fv st)"
proof -
  assume st: "only_read s (fst st)"
  then have start: "reads s (Some st)" by (cases st) (simp add: reads_rules)
  define all where "all = (case fv_vars fv of
        None \<Rightarrow> Some (st, True)
      | Some vars \<Rightarrow>
          (let h = xdebug_declared_var_hash_from_llist vars;
               tmp_hash = (case sc_active_symbol_table (dbg_scope (fst st)) of
                             Some table \<Rightarrow> foldl xdebug_add_filtered_symboltable_var h table
                           | None \<Rightarrow> h)
           in map_option (\<lambda>st1. (st1, xdebug_hash_find tmp_hash ''this'' = None))
                (xdebug_hash_apply_with_argument tmp_hash (Some sort_names) (Some st)
                   (attach_declared_var_with_contents ve opts))))"
  have all: "only_read s (fst st1)" if "all = Some (st1, b)" for st1 b
    using that st readsD [OF attach_all_declared_reads [OF start]]
    by (cases st1) (auto simp: all_def xdebug_hash_apply_with_argument_def Let_def split: option.splits)
  show ?thesis unfolding attach_declared_def all_def [symmetric]
    by (intro reads_rules)
      (use all in \<open>auto simp: reads_def post_def dest!: readsD [OF add_variable_reads] intro: only_read_trans\<close>)
qed

lemma attach_statics_reads: "only_read s (fst st) \<Longrightarrow> reads s (attach_statics ve opts fse st)"
proof -
  assume st: "only_read s (fst st)"
  then have "reads s (Some st)" by (cases st) (simp add: reads_rules)
  with st show ?thesis unfolding attach_statics_def by (intro reads_rules only_read_step) auto
qed

lemma attach_locals_done:
  assumes "only_read s s1" "attach_declared ve opts fv (s1, n) = Some st2" "attach_statics ve opts fse st2 = Some st3"
  shows "only_read s (leave_scope (fst st3))"
proof -
  have "only_read s (fst st2)"
    using readsD [OF attach_declared_all_reads, of s "(s1, n)"] assms(1,2) by (cases st2) auto
  then have "only_read s (fst st3)"
    using readsD [OF attach_statics_reads] assms(3) by (cases st3) auto
  then show ?thesis unfolding leave_scope_def by (rule only_read_step)
qed

lemma attach_locals_reads:
  assumes "only_read s (fst st)"
  shows "post (\<lambda>r. case r of Some (t, n) \<Rightarrow> only_read s t | None \<Rightarrow> True) (attach_locals ve opts depth st)"
  unfolding attach_locals_def
  by (intro post_rules) (use assms in \<open>auto intro: attach_locals_done only_read_step\<close>)

lemma virtual_step:
  assumes "(case (v, b) of (Some z, True) \<Rightarrow> attach_virtual ve opts nm facet z st | _ \<Rightarrow> Some st) = Some st1" "only_read s (fst st)"
  shows "only_read s (fst st1)"
  using assms readsD [OF attach_virtual_reads [OF assms(2)]] by (cases st1) (auto split: option.splits bool.splits)

lemma attach_context_vars_reads: "reads s (attach_context_vars ve s opts ctx depth node)"
proof -
  let ?locals = "do {
             data \<leftarrow> ve_current ve;
             func \<leftarrow> ed_func data;
             st1 \<leftarrow> (case (ed_intermediate data, fst func) of
                       (Some z, True) \<Rightarrow>
                         attach_virtual ve opts ''__INTERMEDIATE_VALUE'' ''readonly intermediate_value virtual'' z (s, node)
                     | _ \<Rightarrow> Some (s, node));
             st2 \<leftarrow> (case (pe_exception (ve_php ve), con_virtual_exception_value s \<noteq> 0 \<and> depth = 0) of
                       (Some a, True) \<Rightarrow>
                         attach_virtual ve opts XDEBUG_EXCEPTION_VALUE_VAR_NAME ''readonly virtual'' (IS_OBJECT a) st1
                     | _ \<Rightarrow> Some st1);
             found \<leftarrow> attach_locals ve opts depth st2;
             Some (case found of Some (s3, n) \<Rightarrow> (s3, n, 0) | None \<Rightarrow> (fst st2, snd st2, 1)) }"
  have exc: "only_read s (fst st2)"
    if "(case (pe_exception (ve_php ve), b) of (Some a, True) \<Rightarrow> attach_virtual ve opts nm facet (IS_OBJECT a) st1 | _ \<Rightarrow> Some st1) = Some st2"
      "only_read s (fst st1)" for st1 st2 nm facet b
    using that virtual_step [where v = "map_option IS_OBJECT (pe_exception (ve_php ve))" and st = st1 and ?st1.0 = st2]
    by (auto split: option.splits bool.splits)
  have locals: "reads s ?locals"
  proof (intro reads_rules(3))
    fix data func st1 st2 found
    assume 1: "(case (ed_intermediate data, fst func) of
          (Some z, True) \<Rightarrow> attach_virtual ve opts ''__INTERMEDIATE_VALUE'' ''readonly intermediate_value virtual'' z (s, node)
        | _ \<Rightarrow> Some (s, node)) = Some st1"
      and 2: "(case (pe_exception (ve_php ve), con_virtual_exception_value s \<noteq> 0 \<and> depth = 0) of
          (Some a, True) \<Rightarrow> attach_virtual ve opts XDEBUG_EXCEPTION_VALUE_VAR_NAME ''readonly virtual'' (IS_OBJECT a) st1
        | _ \<Rightarrow> Some st1) = Some st2"
      and 3: "attach_locals ve opts depth st2 = Some found"
    have "only_read s (fst st1)" by (rule virtual_step [OF 1]) simp
    with exc [OF 2] have st2: "only_read s (fst st2)" by simp
    with postD [OF attach_locals_reads [OF st2] 3] show "reads s (Some (case found of Some (s3, n) \<Rightarrow> (s3, n, 0) | None \<Rightarrow> (fst st2, snd st2, 1)))"
      by (auto simp: reads_def post_def split: option.splits)
  qed
  have ret: "reads s (case (v, b) of (Some z, True) \<Rightarrow> map_option (\<lambda>(s1, n). (s1, n, 0)) (attach_virtual ve opts nm facet z (s, node)) | _ \<Rightarrow> ?locals)"
    for v b nm facet
    using locals by (auto split: option.split bool.split intro!: reads_map [OF attach_virtual_reads])
  show ?thesis unfolding attach_context_vars_def Let_def
    by (intro reads_rules(4) ret reads_map [OF attach_constants_reads] reads_bind [OF attach_globals_reads])
      (auto intro: reads_rules(2) only_read_step)
qed

lemma context_get_reads: "reads s (xdebug_dbgp_handle_context_get ve s args r)"
  unfolding xdebug_dbgp_handle_context_get_def
  by (intro reads_rules reads_result)
    (auto intro: only_read_trans [OF only_read_page readsD [OF attach_context_vars_reads]])

section \<open>The page of a value\<close>

lemma page_of_fields [simp]:
  "opt_max_children (page_of o1 p) = opt_max_children o1" "opt_max_data (page_of o1 p) = opt_max_data o1"
  "opt_max_depth (page_of o1 p) = opt_max_depth o1" "opt_extended_properties (page_of o1 p) = opt_extended_properties o1"
  "length (opt_runtime (page_of o1 p)) = length (opt_runtime o1)" "0 < l \<Longrightarrow> opt_runtime (page_of o1 p) ! l = opt_runtime o1 ! l"
  by (simp_all add: page_of_def)

lemma page_of_uses:
  "add_xml_attribute_or_element (page_of opts p) = add_xml_attribute_or_element opts"
  "check_if_extended_properties_are_needed pe (page_of opts p) = check_if_extended_properties_are_needed pe opts"
  "export_scalar (page_of opts p) = export_scalar opts"
  "xdebug_array_element_export_xml_node pe (page_of opts p) = xdebug_array_element_export_xml_node pe opts"
  "xdebug_object_element_export_xml_node pe (page_of opts p) = xdebug_object_element_export_xml_node pe opts"
  "object_head (page_of opts p) = object_head opts"
  "0 < l \<Longrightarrow> page_attributes (page_of opts p) l = page_attributes opts l"
  "0 < l \<Longrightarrow> page_start (page_of opts p) l = page_start opts l" "0 < l \<Longrightarrow> page_end (page_of opts p) l = page_end opts l"
proof -
  show a: "add_xml_attribute_or_element (page_of opts p) = add_xml_attribute_or_element opts"
    by (intro ext) (simp add: add_xml_attribute_or_element_def)
  show c: "check_if_extended_properties_are_needed pe (page_of opts p) = check_if_extended_properties_are_needed pe opts"
    by (intro ext) (simp add: check_if_extended_properties_are_needed_def)
  show "export_scalar (page_of opts p) = export_scalar opts"
    by (intro ext) (simp only: export_scalar_def export_string_def page_of_fields)
  show "xdebug_array_element_export_xml_node pe (page_of opts p) = xdebug_array_element_export_xml_node pe opts"
    by (intro ext) (simp only: xdebug_array_element_export_xml_node_def a c)
  show "xdebug_object_element_export_xml_node pe (page_of opts p) = xdebug_object_element_export_xml_node pe opts"
    by (intro ext) (simp only: xdebug_object_element_export_xml_node_def a c)
  show "object_head (page_of opts p) = object_head opts"
    by (intro ext) (simp only: object_head_def a)
qed (auto simp: page_attributes_def page_start_def page_end_def)

lemma export_below_ignores_page:
  "nat (opt_max_depth opts - int level) = k \<Longrightarrow> 0 < level \<Longrightarrow>
   xdebug_var_export_xml_node pe (page_of opts p) level = xdebug_var_export_xml_node pe opts level"
proof (induction k arbitrary: level)
  case 0
  then have "\<not> int level < opt_max_depth opts" by simp
  then have l: "(if int level < opt_max_depth opts then x else y) = y" for x y :: "'b" by simp
  show ?case
    by (intro ext) (simp only: xdebug_var_export_xml_node.simps [of pe _ level] page_of_uses(1-6) page_of_fields l)
next
  case (Suc k)
  then have "nat (opt_max_depth opts - int (level + 1)) = k" by simp
  from Suc.IH [OF this] have "xdebug_var_export_xml_node pe (page_of opts p) (level + 1) = xdebug_var_export_xml_node pe opts (level + 1)"
    by simp
  then show ?case
    by (intro ext)
      (simp only: xdebug_var_export_xml_node.simps [of pe _ level] page_of_uses(1-6) page_of_uses(7-9) [OF Suc.prems(2)] page_of_fields)
qed

lemma contents_ignore_page:
  "get_symbol_contents ve s (page_of opts p) name node = get_symbol_contents ve s opts name node"
proof -
  have "opt_encode_as_extended_property (page_of opts p) = opt_encode_as_extended_property opts" by (simp add: page_of_def)
  then show ?thesis
    by (simp only: get_symbol_contents_def export_below_ignores_page [OF refl, where level = 1, OF zero_less_one])
qed

section \<open>Values that hide others\<close>

lemma return_value_hides:
  assumes "plain_name v" "take (length v) XDEBUG_RETURN_VALUE_VAR_NAME = v" "sy_return_value sy = Some z"
  shows "xdebug_get_php_symbol pe sy (CHR ''$'' # v) = Some z"
proof -
  have "NUL \<notin> set v" using assms(1) by (auto simp: plain_name_def list_all_iff)
  then have "strneq (c_str (v @ [NUL])) XDEBUG_RETURN_VALUE_VAR_NAME (length v)"
    using assms(2) by (simp add: strneq_def c_str_def takeWhile_append)
  then show ?thesis using assms(3) by (simp add: symbol_of_variable [OF assms(1)] fetch_root_def)
qed

lemma compiled_hides_globals:
  assumes "plain_name v" "sy_return_value sy = None" "pe_exception pe = None"
    "sc_active_data (sy_scope sy) = Some data" "ed_func data = Some (True, Some vars)"
    "find_compiled (pe_hash_func pe) v vars (ed_cvs data) = Some z"
  shows "xdebug_get_php_symbol pe sy (CHR ''$'' # v) = Some z"
  using assms by (simp add: symbol_of_variable [OF assms(1)] fetch_root_def fetch_compiled_def)

lemma error_message_evaluating:
  "error_message_from_code XDEBUG_ERROR_EVALUATING_CODE = Some ''error evaluating code''"
  by code_simp

end
