(* ===== verification/Xd_Dbgp_Spec.thy ===== *)
theory Xd_Dbgp_Spec
  imports Xd_Dbgp_Loop
begin

text \<open>
  What single commands of the protocol promise: a feature that was set is read back, evaluated code is
  found again under the name the client was given, and two cases that end a session early (a
  \<open>max_depth\<close> of 0, an unknown command).
\<close>

section \<open>Features\<close>

lemma feature_update_number:
  assumes "feature_update name v opts s = Some s1" "con_options s = Some opts"
  shows "\<exists>opts1. con_options s1 = Some opts1 \<and> feature_number s1 opts1 name = Some v"
  using assms by (auto simp: feature_update_def feature_number_def set_max_depth_def split: if_splits)

lemma feature_update_not_constant: "feature_update name v opts s = Some s1 \<Longrightarrow> feature_constant env name = None"
  by (auto simp: feature_update_def feature_constant_def split: if_splits)

lemma feature_set_get:
  assumes "con_options s = Some opts" "CMD_OPTION_CHAR args (CHR ''n'') = Some name" "CMD_OPTION_CHAR args (CHR ''v'') = Some v"
    "CMD_OPTION_SET args (CHR ''n'')" "CMD_OPTION_SET args (CHR ''v'')" "feature_update name (strtol_int v) opts s \<noteq> None" "name \<noteq> ''encoding''"
  shows "\<exists>s1 r1. xdebug_dbgp_handle_feature_set s args r = Some (s1, r1) \<and>
    xdebug_dbgp_handle_feature_get env ex s1 args r =
      Some (s1, feature_result (Some (lu_of_int (strtol_int v))) ''1'' (xdebug_xml_add_attribute r ''feature_name'' name))"
proof -
  obtain s1 where u: "feature_update name (strtol_int v) opts s = Some s1" using assms(6) by auto
  obtain opts1 where o: "con_options s1 = Some opts1" "feature_number s1 opts1 name = Some (strtol_int v)"
    using feature_update_number [OF u assms(1)] by auto
  show ?thesis
    using assms u o feature_update_not_constant [OF u, of env]
    by (auto simp: xdebug_dbgp_handle_feature_set_def xdebug_dbgp_handle_feature_get_def Let_def)
qed

lemma max_depth_then_eval:
  assumes "feature_update ''max_depth'' v opts s = Some s1" "v \<le> 0" "CMD_OPTION_SET args (CHR ''-'')"
  shows "xdebug_dbgp_handle_eval env s1 args r = None"
  using assms
  by (auto simp: feature_update_def set_max_depth_def xdebug_dbgp_handle_eval_def set_page_def Option.bind_eq_None_conv)

section \<open>Evaluated code\<close>

lemma eval_key_marker:
  "length eval_marker \<le> length (create_eval_key_file f l) \<and>
   drop (length (create_eval_key_file f l) - length eval_marker) (create_eval_key_file f l) = eval_marker"
proof -
  have "create_eval_key_file f l = (c_str f @ ''('' @ dec_int l @ '') : '') @ eval_marker"
    by (simp add: create_eval_key_file_def eval_marker_def)
  then show ?thesis by (simp del: append_assoc)
qed

lemma eval_registered:
  assumes "hash_ok (con_eval_id_lookup s)" "fse_include_filename fse = Some contents"
  shows "\<exists>s1 n ei. xdebug_dbgp_register_eval_id s fse = Some (s1, n) \<and> ei_id ei = n \<and> ei_contents ei = contents \<and>
    xdebug_debugger_check_evaled_code s1 (Some (create_eval_key_file (fse_filename fse) (fse_lineno fse))) =
      Some (''dbgp://'' @ lu_of_int n) \<and>
    xdebug_hash_find (con_eval_id_lookup s1) (create_eval_key_id n) = Some ei"
proof -
  let ?n = "to_int32 (con_eval_id_sequence s + 1)"
  let ?ei = "\<lparr>ei_id = ?n, ei_contents = contents\<rparr>"
  let ?k1 = "create_eval_key_file (fse_filename fse) (fse_lineno fse)" and ?k2 = "create_eval_key_id ?n"
  let ?h1 = "xdebug_hash_add (con_eval_id_lookup s) ?k1 ?ei"
  let ?s1 = "s\<lparr>con_eval_id_sequence := ?n, con_eval_id_lookup := xdebug_hash_add ?h1 ?k2 ?ei\<rparr>"
  have r: "xdebug_dbgp_register_eval_id s fse = Some (?s1, ?n)"
    using assms(2) by (simp add: xdebug_dbgp_register_eval_id_def Let_def)
  have h1: "hash_ok ?h1" using hash_str_store.ok_add [OF assms(1)] .
  have f: "xdebug_hash_find (xdebug_hash_add ?h1 ?k2 ?ei) k = (if k = ?k2 \<or> k = ?k1 then Some ?ei else xdebug_hash_find (con_eval_id_lookup s) k)" for k
    using hash_str_store.find_add [OF h1] hash_str_store.find_add [OF assms(1)] by simp
  have "xdebug_debugger_check_evaled_code ?s1 (Some ?k1) = Some (''dbgp://'' @ lu_of_int ?n)"
    using eval_key_marker f [of ?k1] by (simp add: xdebug_debugger_check_evaled_code_def)
  with r f [of ?k2] show ?thesis by (intro exI [of _ ?s1] exI [of _ ?n] exI [of _ ?ei]) simp
qed

lemma lu_of_int_atoi: "0 \<le> n \<Longrightarrow> n < 2 ^ 31 \<Longrightarrow> atoi (lu_of_int n) = n"
  using strtol10_dec [of "nat n"] by (simp add: atoi_def lu_of_int_def to_int32_def nat_less_iff)

lemma dbgp_url_eval: "is_dbgp_url (''dbgp://'' @ k) \<and> drop 7 (''dbgp://'' @ k) = k"
  by (simp add: is_dbgp_url_def strneq_def)

section \<open>Unknown commands\<close>

lemma unknown_leaves_loop:
  assumes "xdebug_cmd_parse m = Some (XDEBUG_ERROR_OK, Some cmd, args)" "CMD_OPTION_SET args (CHR ''i'')" "lookup_cmd cmd = None"
    "dbg_status s \<noteq> DBGP_STATUS_STOPPED" "dbg_connection_enabled s"
  shows "\<exists>x s1. serve env php bail s (m # ms) = Some (s1, ms, Loop_returned (- 1)) \<and> dbg_sent s1 = dbg_sent s @ [x] \<and> responds m x"
proof -
  have e: "\<exists>n. error_node XDEBUG_ERROR_UNIMPLEMENTED = Some n"
    by (simp add: error_node_def error_message_from_code_def xdebug_error_codes_def dbgp_error_codes)
  then obtain n where n: "error_node XDEBUG_ERROR_UNIMPLEMENTED = Some n" by auto
  let ?x = "xdebug_xml_add_child (add_opt_attribute ''transaction_id'' (CMD_OPTION_CHAR args (CHR ''i''))
     (add_opt_attribute ''command'' (Some cmd) (dbgp_node ''response''))) n"
  have p: "xdebug_dbgp_parse_option env php s m (dbgp_node ''response'') = Some (s, ?x, -1)"
    using assms n by (simp add: xdebug_dbgp_parse_option_def execute_command_def add_error_def)
  have "responds m ?x"
    using assms(1) by (auto simp: responds_def response_head_def add_opt_attribute_def split: option.split)
  with p assms(4,5) show ?thesis by (auto simp: send_message_def)
qed

end
