(* ===== verification/Xd_Mode.thy ===== *)
theory Xd_Mode
  imports Xd_Textutil Xd_Arg
begin

text \<open>
  The settings of \<open>src/lib/lib.c\<close> that decide which features run: the mode, \<open>start_with_request\<close>,
  \<open>start_upon_error\<close>, and the triggers with their shared secrets.  The global mode is a set of flags; a
  setting is a value of its own state, \<open>lib_globals\<close>, the request and the environment are
  \<open>lib_env\<close>.
\<close>

section \<open>The mode\<close>

definition XDEBUG_MODE_OFF :: nat where "XDEBUG_MODE_OFF = 0"
definition XDEBUG_MODE_DEVELOP :: nat where "XDEBUG_MODE_DEVELOP = 1"
definition XDEBUG_MODE_COVERAGE :: nat where "XDEBUG_MODE_COVERAGE = 2"
definition XDEBUG_MODE_STEP_DEBUG :: nat where "XDEBUG_MODE_STEP_DEBUG = 4"
definition XDEBUG_MODE_GCSTATS :: nat where "XDEBUG_MODE_GCSTATS = 8"
definition XDEBUG_MODE_PROFILING :: nat where "XDEBUG_MODE_PROFILING = 16"
definition XDEBUG_MODE_TRACING :: nat where "XDEBUG_MODE_TRACING = 32"

lemmas xdebug_modes = XDEBUG_MODE_OFF_def XDEBUG_MODE_DEVELOP_def XDEBUG_MODE_COVERAGE_def
  XDEBUG_MODE_STEP_DEBUG_def XDEBUG_MODE_GCSTATS_def XDEBUG_MODE_PROFILING_def XDEBUG_MODE_TRACING_def

definition XDEBUG_MODE_IS :: "nat \<Rightarrow> nat \<Rightarrow> bool" where
  "XDEBUG_MODE_IS mode v \<longleftrightarrow> and mode v \<noteq> 0"

definition xdebug_lib_mode_from_value :: "nat \<Rightarrow> string" where
  "xdebug_lib_mode_from_value mode =
     (if mode = XDEBUG_MODE_DEVELOP then ''develop'' else if mode = XDEBUG_MODE_COVERAGE then ''coverage''
      else if mode = XDEBUG_MODE_STEP_DEBUG then ''debug'' else if mode = XDEBUG_MODE_GCSTATS then ''gcstats''
      else if mode = XDEBUG_MODE_PROFILING then ''profile'' else if mode = XDEBUG_MODE_TRACING then ''trace''
      else ''?'')"

text \<open>The new mode and whether the item is known; only \<open>len\<close> bytes are compared.\<close>

definition xdebug_lib_set_mode_item :: "string \<Rightarrow> nat \<Rightarrow> nat \<Rightarrow> nat \<times> bool" where
  "xdebug_lib_set_mode_item mode len global =
     (if strneq mode ''off'' len then (or global XDEBUG_MODE_OFF, True)
      else if strneq mode ''develop'' len then (or global XDEBUG_MODE_DEVELOP, True)
      else if strneq mode ''coverage'' len then (or global XDEBUG_MODE_COVERAGE, True)
      else if strneq mode ''debug'' len then (or global XDEBUG_MODE_STEP_DEBUG, True)
      else if strneq mode ''gcstats'' len then (or global XDEBUG_MODE_GCSTATS, True)
      else if strneq mode ''profile'' len then (or global XDEBUG_MODE_PROFILING, True)
      else if strneq mode ''trace'' len then (or global XDEBUG_MODE_TRACING, True)
      else (global, False))"

function mode_loop :: "string \<Rightarrow> nat \<Rightarrow> nat \<Rightarrow> nat \<times> nat" where
  "mode_loop mode_ptr global errors =
     (case strchr mode_ptr (CHR '','') of
        None \<Rightarrow>
          (case xdebug_lib_set_mode_item mode_ptr (length mode_ptr) global of
             (g, ok) \<Rightarrow> (g, errors + (if ok then 0 else 1)))
      | Some comma \<Rightarrow>
          (case xdebug_lib_set_mode_item mode_ptr comma global of
             (g, ok) \<Rightarrow>
               mode_loop (dropWhile (\<lambda>c. c = CHR '' '') (drop (comma + 1) mode_ptr)) g (errors + (if ok then 0 else 1))))"
  by pat_completeness auto
termination
proof (relation "measure (\<lambda>(p, g, e). length p)", goal_cases)
  case (2 p g e comma)
  have "length (dropWhile (\<lambda>c. c = CHR '' '') (drop (comma + 1) p)) \<le> length (drop (comma + 1) p)"
    by (rule length_dropWhile_le)
  moreover have "comma < length p" using 2 by (simp add: strchr_Some)
  ultimately have "length (dropWhile (\<lambda>c. c = CHR '' '') (drop (comma + 1) p)) < length p" by simp
  then show ?case by simp
qed simp

declare mode_loop.simps [simp del]

definition xdebug_lib_set_mode_from_setting :: "string \<Rightarrow> nat \<times> bool" where
  "xdebug_lib_set_mode_from_setting mode = (case mode_loop mode 0 0 of (g, errors) \<Rightarrow> (g, errors = 0))"

text \<open>
  The reference: the pieces between the commas, without the blanks that follow a comma; each names the
  first mode it is the beginning of.
\<close>

definition mode_names :: "(string \<times> nat) list" where
  "mode_names = [(''off'', XDEBUG_MODE_OFF), (''develop'', XDEBUG_MODE_DEVELOP), (''coverage'', XDEBUG_MODE_COVERAGE),
     (''debug'', XDEBUG_MODE_STEP_DEBUG), (''gcstats'', XDEBUG_MODE_GCSTATS), (''profile'', XDEBUG_MODE_PROFILING),
     (''trace'', XDEBUG_MODE_TRACING)]"

definition mode_of_item :: "string \<Rightarrow> nat option" where
  "mode_of_item item = map_option snd (find (\<lambda>(name, m). prefixb item name) mode_names)"

abbreviation no_blanks :: "string \<Rightarrow> string" where
  "no_blanks \<equiv> dropWhile (\<lambda>c. c = CHR '' '')"

definition mode_items :: "string \<Rightarrow> string list" where
  "mode_items s = (case split_at_delim '','' s of p # ps \<Rightarrow> p # map no_blanks ps | [] \<Rightarrow> [])"

definition mode_flags :: "string list \<Rightarrow> nat \<Rightarrow> nat" where
  "mode_flags items g = fold (\<lambda>item g. case mode_of_item item of Some m \<Rightarrow> or g m | None \<Rightarrow> g) items g"

lemma memnstr_strchr: "xdebug_memnstr s [c] = strchr s c"
proof (cases "xdebug_memnstr s [c]")
  case None
  have "c \<notin> set s"
  proof
    assume "c \<in> set s"
    then obtain i where "i < length s" "s ! i = c" by (auto simp: in_set_conv_nth)
    then have "occurs_at s [c] i" by (simp add: occurs_at_def take_Suc_conv_app_nth)
    with memnstr_None [OF None] show False by simp
  qed
  with None show ?thesis by (metis strchr_None)
next
  case (Some i)
  note m = memnstr_Some [OF Some, simplified]
  have at: "s ! j = c \<longleftrightarrow> occurs_at s [c] j" if "j < length s" for j
    using that by (simp add: occurs_at_def take_Suc_conv_app_nth)
  have "strchr s c = Some i"
    using m at by (auto simp: strchr_Some in_set_conv_nth)
  with Some show ?thesis by simp
qed

lemma split_Cons:
  "split_at_delim [c] (x # s) =
     (if x = c then [] # split_at_delim [c] s else (x # hd (split_at_delim [c] s)) # tl (split_at_delim [c] s))"
proof (cases "x = c")
  case True
  then show ?thesis by (subst split_at_delim.simps) (simp add: memnstr_strchr)
next
  case False
  then show ?thesis
    by (subst (1 2 3) split_at_delim.simps) (simp add: memnstr_strchr split: option.split)
qed

lemma split_no_blanks:
  "split_at_delim '','' (no_blanks s) = no_blanks (hd (split_at_delim '','' s)) # tl (split_at_delim '','' s)"
proof (induction s)
  case Nil
  then show ?case by (simp add: split_at_delim.simps memnstr_strchr)
next
  case (Cons x s)
  then show ?case
    using split_nonempty [of "'',''" s] by (cases "split_at_delim '','' s") (auto simp: split_Cons)
qed

lemma set_mode_item:
  assumes "len \<le> length mode"
  shows "xdebug_lib_set_mode_item mode len g =
    (case mode_of_item (take len mode) of Some m \<Rightarrow> (or g m, True) | None \<Rightarrow> (g, False))"
proof -
  have "strneq mode name len = prefixb (take len mode) name" for name
    using assms by (auto simp: strneq_def prefixb_def min_def)
  then show ?thesis
    by (simp add: xdebug_lib_set_mode_item_def mode_of_item_def mode_names_def)
qed

lemma mode_loop_items:
  "mode_loop p g e =
     (mode_flags (mode_items p) g, e + length (filter (\<lambda>i. mode_of_item i = None) (mode_items p)))"
proof (induction p g e rule: mode_loop.induct)
  case (1 p g e)
  show ?case
  proof (cases "strchr p (CHR '','')")
    case None
    then have "mode_items p = [p]"
      by (simp add: mode_items_def split_at_delim.simps memnstr_strchr)
    with None show ?thesis
      by (subst mode_loop.simps) (simp add: set_mode_item mode_flags_def split: option.split)
  next
    case (Some i)
    let ?p' = "no_blanks (drop (i + 1) p)"
    have len: "i \<le> length p" using Some by (simp add: strchr_Some)
    obtain q qs where q: "split_at_delim '','' (drop (Suc i) p) = q # qs"
      using split_nonempty by (cases "split_at_delim '','' (drop (Suc i) p)") auto
    have "split_at_delim '','' p = take i p # q # qs"
      using Some q by (subst split_at_delim.simps) (simp add: memnstr_strchr)
    moreover have "split_at_delim '','' ?p' = no_blanks q # qs"
      using q by (simp add: split_no_blanks)
    ultimately have items: "mode_items p = take i p # mode_items ?p'"
      by (simp add: mode_items_def)
    obtain g' ok where o: "xdebug_lib_set_mode_item p i g = (g', ok)" by fastforce
    show ?thesis
      using 1 [OF Some o [symmetric]] Some items o set_mode_item [OF len, of g]
      by (subst mode_loop.simps) (auto simp: mode_flags_def split: option.splits)
  qed
qed

lemma mode_flags_known:
  "\<forall>i \<in> set items. mode_of_item i \<noteq> None \<Longrightarrow> mode_flags items g = fold (\<lambda>i g. or g (the (mode_of_item i))) items g"
  by (induction items arbitrary: g) (auto simp: mode_flags_def)

lemma set_mode_spec:
  "xdebug_lib_set_mode_from_setting s =
     (mode_flags (mode_items s) 0, \<forall>i \<in> set (mode_items s). mode_of_item i \<noteq> None)"
  by (auto simp: xdebug_lib_set_mode_from_setting_def mode_loop_items filter_empty_conv)

text \<open>The names the settings are printed with, one for each flag, are read back.\<close>

definition mode_values :: "nat set" where
  "mode_values = {XDEBUG_MODE_DEVELOP, XDEBUG_MODE_COVERAGE, XDEBUG_MODE_STEP_DEBUG, XDEBUG_MODE_GCSTATS,
     XDEBUG_MODE_PROFILING, XDEBUG_MODE_TRACING}"

lemma mode_value_name:
  assumes "m \<in> mode_values"
  shows "mode_of_item (xdebug_lib_mode_from_value m) = Some m"
    and "CHR '','' \<notin> set (xdebug_lib_mode_from_value m)"
    and "no_blanks (xdebug_lib_mode_from_value m) = xdebug_lib_mode_from_value m"
  using assms
  by (auto simp: mode_values_def xdebug_modes mode_of_item_def mode_names_def xdebug_lib_mode_from_value_def prefixb_def)

lemma set_mode_names:
  assumes "ms \<noteq> []" "set ms \<subseteq> mode_values"
  shows "xdebug_lib_set_mode_from_setting (joined '','' (map xdebug_lib_mode_from_value ms)) = (fold or ms 0, True)"
proof -
  have "split_at_delim '','' (joined '','' (map xdebug_lib_mode_from_value ms)) = map xdebug_lib_mode_from_value ms"
    by (rule split_joined) (use assms mode_value_name(2) in auto)
  then have items: "mode_items (joined '','' (map xdebug_lib_mode_from_value ms)) = map xdebug_lib_mode_from_value ms"
    using assms mode_value_name(3) by (cases ms) (auto simp: mode_items_def)
  have "fold (\<lambda>item g. case mode_of_item item of Some m \<Rightarrow> or g m | None \<Rightarrow> g) (map xdebug_lib_mode_from_value ms) g
          = fold or ms g" for g
    using assms(2) by (induction ms arbitrary: g) (auto simp: mode_value_name(1) or.commute)
  with assms(2) items show ?thesis
    by (auto simp: set_mode_spec mode_flags_def mode_value_name(1))
qed

section \<open>The request, its environment, and the settings\<close>

text \<open>
  A value in one of PHP's arrays is a string or something else, known by the string it converts to;
  reading the text of something else (\<open>Z_STRVAL_P\<close>) goes through a pointer that is none.
\<close>

datatype zval = Zval_string string | Zval_other string

fun Z_STRVAL_P :: "zval \<Rightarrow> string option" where
  "Z_STRVAL_P (Zval_string s) = Some s"
| "Z_STRVAL_P (Zval_other t) = None"

fun convert_to_string :: "zval \<Rightarrow> string" where
  "convert_to_string (Zval_string s) = s"
| "convert_to_string (Zval_other t) = t"

datatype track_vars = TRACK_VARS_GET | TRACK_VARS_POST | TRACK_VARS_COOKIE | TRACK_VARS_ENV | TRACK_VARS_SERVER

record lib_env =
  le_getenv :: "string \<Rightarrow> string option"
  le_symbol_table :: "string \<Rightarrow> string \<Rightarrow> zval option"
  le_http_globals :: "track_vars \<Rightarrow> string \<Rightarrow> zval option"
  le_headers_sent :: bool
  le_trigger_value :: "string option"

definition XDEBUG_START_WITH_REQUEST_DEFAULT :: int where "XDEBUG_START_WITH_REQUEST_DEFAULT = 1"
definition XDEBUG_START_WITH_REQUEST_YES :: int where "XDEBUG_START_WITH_REQUEST_YES = 2"
definition XDEBUG_START_WITH_REQUEST_NO :: int where "XDEBUG_START_WITH_REQUEST_NO = 3"
definition XDEBUG_START_WITH_REQUEST_TRIGGER :: int where "XDEBUG_START_WITH_REQUEST_TRIGGER = 4"
definition XDEBUG_START_UPON_ERROR_DEFAULT :: int where "XDEBUG_START_UPON_ERROR_DEFAULT = 1"
definition XDEBUG_START_UPON_ERROR_YES :: int where "XDEBUG_START_UPON_ERROR_YES = 2"
definition XDEBUG_START_UPON_ERROR_NO :: int where "XDEBUG_START_UPON_ERROR_NO = 3"

lemmas start_settings = XDEBUG_START_WITH_REQUEST_DEFAULT_def XDEBUG_START_WITH_REQUEST_YES_def
  XDEBUG_START_WITH_REQUEST_NO_def XDEBUG_START_WITH_REQUEST_TRIGGER_def XDEBUG_START_UPON_ERROR_DEFAULT_def
  XDEBUG_START_UPON_ERROR_YES_def XDEBUG_START_UPON_ERROR_NO_def

record lib_globals =
  xg_mode :: nat
  xg_mode_from_environment :: bool
  xg_start_with_request :: int
  xg_start_upon_error :: int

definition xdebug_lib_set_mode :: "lib_env \<Rightarrow> string \<Rightarrow> lib_globals \<Rightarrow> lib_globals \<times> bool" where
  "xdebug_lib_set_mode env mode lib =
     (let from_setting = (\<lambda>l. case xdebug_lib_set_mode_from_setting mode of (g, ok) \<Rightarrow> (l\<lparr>xg_mode := g\<rparr>, ok)) in
      case le_getenv env ''XDEBUG_MODE'' of
        Some config \<Rightarrow>
          if config = [] then from_setting lib
          else (case xdebug_lib_set_mode_from_setting config of
                  (g, True) \<Rightarrow> (lib\<lparr>xg_mode := g, xg_mode_from_environment := True\<rparr>, True)
                | (g, False) \<Rightarrow> from_setting (lib\<lparr>xg_mode := g\<rparr>))
      | None \<Rightarrow> from_setting lib)"

definition xdebug_lib_get_start_with_request :: "lib_globals \<Rightarrow> int" where
  "xdebug_lib_get_start_with_request lib = xg_start_with_request lib"

definition xdebug_lib_set_start_with_request :: "string \<Rightarrow> lib_globals \<Rightarrow> lib_globals \<times> bool" where
  "xdebug_lib_set_start_with_request v lib =
     (if v = ''default'' then (lib\<lparr>xg_start_with_request := XDEBUG_START_WITH_REQUEST_DEFAULT\<rparr>, True)
      else if v = ''yes'' \<or> v = ''1'' then (lib\<lparr>xg_start_with_request := XDEBUG_START_WITH_REQUEST_YES\<rparr>, True)
      else if v = ''no'' \<or> v = [] then (lib\<lparr>xg_start_with_request := XDEBUG_START_WITH_REQUEST_NO\<rparr>, True)
      else if v = ''trigger'' then (lib\<lparr>xg_start_with_request := XDEBUG_START_WITH_REQUEST_TRIGGER\<rparr>, True)
      else (lib, False))"

definition xdebug_lib_start_with_request :: "lib_globals \<Rightarrow> nat \<Rightarrow> bool" where
  "xdebug_lib_start_with_request lib for_mode =
     (xg_start_with_request lib = XDEBUG_START_WITH_REQUEST_YES \<or>
      (xg_start_with_request lib = XDEBUG_START_WITH_REQUEST_DEFAULT \<and>
       for_mode = XDEBUG_MODE_PROFILING \<and> XDEBUG_MODE_IS (xg_mode lib) XDEBUG_MODE_PROFILING))"

definition xdebug_lib_never_start_with_request :: "lib_globals \<Rightarrow> bool" where
  "xdebug_lib_never_start_with_request lib = (xg_start_with_request lib = XDEBUG_START_WITH_REQUEST_NO)"

definition xdebug_lib_get_start_upon_error :: "lib_globals \<Rightarrow> int" where
  "xdebug_lib_get_start_upon_error lib = xg_start_upon_error lib"

definition xdebug_lib_set_start_upon_error :: "string \<Rightarrow> lib_globals \<Rightarrow> lib_globals \<times> bool" where
  "xdebug_lib_set_start_upon_error v lib =
     (if v = ''default'' then (lib\<lparr>xg_start_upon_error := XDEBUG_START_UPON_ERROR_DEFAULT\<rparr>, True)
      else if v = ''yes'' \<or> v = ''1'' then (lib\<lparr>xg_start_upon_error := XDEBUG_START_UPON_ERROR_YES\<rparr>, True)
      else if v = ''no'' \<or> v = [] then (lib\<lparr>xg_start_upon_error := XDEBUG_START_UPON_ERROR_NO\<rparr>, True)
      else (lib, False))"

definition xdebug_lib_start_upon_error :: "lib_globals \<Rightarrow> bool" where
  "xdebug_lib_start_upon_error lib = (xg_start_upon_error lib = XDEBUG_START_UPON_ERROR_YES)"

text \<open>The control socket's setting: how often it is served, and the threshold when it is set.\<close>

datatype control_socket = XDEBUG_CONTROL_SOCKET_OFF | XDEBUG_CONTROL_SOCKET_DEFAULT | XDEBUG_CONTROL_SOCKET_TIME

definition xdebug_lib_set_control_socket_granularity :: "string \<Rightarrow> control_socket \<times> int \<Rightarrow> (control_socket \<times> int) \<times> bool" where
  "xdebug_lib_set_control_socket_granularity v old =
     (if v = ''no'' \<or> v = [] then ((XDEBUG_CONTROL_SOCKET_OFF, snd old), True)
      else if v = ''default'' then ((XDEBUG_CONTROL_SOCKET_DEFAULT, 25), True)
      else if v = ''time'' then ((XDEBUG_CONTROL_SOCKET_TIME, 25), True)
      else (old, False))"

section \<open>Triggers\<close>

text \<open>The first place that has the element.  The outer \<open>None\<close> is a value that is no string.\<close>

fun first_of :: "(zval option \<times> string) list \<Rightarrow> (string \<times> string) option option" where
  "first_of [] = Some None"
| "first_of ((Some v, where_found) # rest) = map_option (\<lambda>s. Some (s, where_found)) (Z_STRVAL_P v)"
| "first_of ((None, where_found) # rest) = first_of rest"

definition xdebug_lib_find_in_globals :: "lib_env \<Rightarrow> string \<Rightarrow> (string \<times> string) option option" where
  "xdebug_lib_find_in_globals env element =
     first_of
       [(le_symbol_table env ''_GET'' element, ''GET''),
        (le_symbol_table env ''_POST'' element, ''POST''),
        (le_symbol_table env ''_COOKIE'' element, ''COOKIE''),
        (le_http_globals env TRACK_VARS_GET element, ''GET''),
        (le_http_globals env TRACK_VARS_POST element, ''POST''),
        (le_http_globals env TRACK_VARS_COOKIE element, ''COOKIE''),
        (map_option Zval_string (le_getenv env element), ''ENV''),
        (le_symbol_table env ''_ENV'' element, ''ENV''),
        (le_http_globals env TRACK_VARS_ENV element, ''ENV'')]"

definition xdebug_lib_has_shared_secret :: "lib_env \<Rightarrow> bool" where
  "xdebug_lib_has_shared_secret env = (case le_trigger_value env of Some s \<Rightarrow> s \<noteq> [] | None \<Rightarrow> False)"

definition does_shared_secret_match_single :: "string \<Rightarrow> string \<Rightarrow> string option" where
  "does_shared_secret_match_single trimmed_trigger_value trimmed_shared_secret =
     (if trimmed_shared_secret = trimmed_trigger_value then Some trimmed_trigger_value else None)"

fun match_any :: "string \<Rightarrow> string list \<Rightarrow> string option" where
  "match_any v [] = None"
| "match_any v (a # as) =
     (case does_shared_secret_match_single v (xdebug_trim a) of Some t \<Rightarrow> Some t | None \<Rightarrow> match_any v as)"

text \<open>The value that matched.  A missing secret is a NULL dereference.\<close>

definition does_shared_secret_match :: "lib_env \<Rightarrow> string \<Rightarrow> string option option" where
  "does_shared_secret_match env trigger_value =
     (case le_trigger_value env of
        None \<Rightarrow> None
      | Some shared_secret \<Rightarrow>
          (let trimmed = xdebug_trim trigger_value in
           if CHR '','' \<in> set shared_secret
           then map_option (\<lambda>values. match_any trimmed (arg_args values)) (xdebug_explode '','' shared_secret xdebug_arg_ctor (-1))
           else Some (does_shared_secret_match_single trimmed (xdebug_trim shared_secret))))"

definition fallback_trigger :: "lib_globals \<Rightarrow> nat \<Rightarrow> string" where
  "fallback_trigger lib for_mode =
     (if XDEBUG_MODE_IS (xg_mode lib) XDEBUG_MODE_PROFILING \<and> for_mode = XDEBUG_MODE_PROFILING then ''XDEBUG_PROFILE''
      else if XDEBUG_MODE_IS (xg_mode lib) XDEBUG_MODE_TRACING \<and> for_mode = XDEBUG_MODE_TRACING then ''XDEBUG_TRACE''
      else if XDEBUG_MODE_IS (xg_mode lib) XDEBUG_MODE_STEP_DEBUG \<and> for_mode = XDEBUG_MODE_STEP_DEBUG then ''XDEBUG_SESSION''
      else ''XDEBUG_TRIGGER'')"

definition trigger_enabled :: "lib_env \<Rightarrow> lib_globals \<Rightarrow> nat \<Rightarrow> string option option" where
  "trigger_enabled env lib for_mode =
     do { generic \<leftarrow> xdebug_lib_find_in_globals env ''XDEBUG_TRIGGER'';
          found \<leftarrow> (case generic of Some r \<Rightarrow> Some (Some r)
                   | None \<Rightarrow> xdebug_lib_find_in_globals env (fallback_trigger lib for_mode));
          case found of
            None \<Rightarrow> Some None
          | Some (trigger_value, found_in_global) \<Rightarrow>
              if \<not> xdebug_lib_has_shared_secret env then Some (Some trigger_value)
              else does_shared_secret_match env trigger_value }"

text \<open>The result is whether to start, and the value found.\<close>

definition is_mode_trigger_and_enabled :: "lib_env \<Rightarrow> lib_globals \<Rightarrow> nat \<Rightarrow> bool \<Rightarrow> (bool \<times> string option) option" where
  "is_mode_trigger_and_enabled env lib for_mode force_trigger =
     (if xg_start_with_request lib = XDEBUG_START_WITH_REQUEST_TRIGGER \<or>
         (xg_start_with_request lib = XDEBUG_START_WITH_REQUEST_DEFAULT \<and>
          (XDEBUG_MODE_IS (xg_mode lib) XDEBUG_MODE_STEP_DEBUG \<or> XDEBUG_MODE_IS (xg_mode lib) XDEBUG_MODE_TRACING))
      then (if force_trigger then Some (True, None)
            else map_option (\<lambda>v. (v \<noteq> None, v)) (trigger_enabled env lib for_mode))
      else Some (False, None))"

definition xdebug_lib_start_with_trigger :: "lib_env \<Rightarrow> lib_globals \<Rightarrow> nat \<Rightarrow> (bool \<times> string option) option" where
  "xdebug_lib_start_with_trigger env lib for_mode = is_mode_trigger_and_enabled env lib for_mode False"

definition xdebug_lib_start_if_mode_is_trigger :: "lib_env \<Rightarrow> lib_globals \<Rightarrow> nat \<Rightarrow> bool option" where
  "xdebug_lib_start_if_mode_is_trigger env lib for_mode =
     map_option fst (is_mode_trigger_and_enabled env lib for_mode True)"

section \<open>What a secret protects\<close>

lemma match_any_iff: "match_any v as \<noteq> None \<longleftrightarrow> v \<in> set (map xdebug_trim as)"
  by (induction as) (auto simp: does_shared_secret_match_single_def split: option.split)

text \<open>With a secret, the value must be one of its pieces, up to white space at the ends.\<close>

definition secret_pieces :: "string \<Rightarrow> string list" where
  "secret_pieces secret = map xdebug_trim (split_at_delim '','' secret)"

lemma split_single: "c \<notin> set s \<Longrightarrow> split_at_delim [c] s = [s]"
  by (subst split_at_delim.simps) (simp add: memnstr_strchr strchr_None [THEN iffD2])

lemma shared_secret_match:
  assumes "le_trigger_value env = Some secret"
  shows "\<exists>r. does_shared_secret_match env v = Some r \<and> (r \<noteq> None \<longleftrightarrow> xdebug_trim v \<in> set (secret_pieces secret))"
proof (cases "CHR '','' \<in> set secret")
  case True
  obtain args where "xdebug_explode '','' secret xdebug_arg_ctor (- 1) = Some args"
    "arg_args args = split_at_delim '','' secret"
    using explode_split [of "'',''" secret xdebug_arg_ctor] by auto
  with True assms match_any_iff [of "xdebug_trim v" "arg_args args"] show ?thesis
    by (auto simp: does_shared_secret_match_def secret_pieces_def)
next
  case False
  with assms show ?thesis
    by (auto simp: does_shared_secret_match_def secret_pieces_def split_single does_shared_secret_match_single_def Let_def)
qed

lemma trigger_needs_secret:
  assumes "le_trigger_value env = Some secret" "secret \<noteq> []"
    and "trigger_enabled env lib m = Some (Some v)"
  shows "\<exists>t name. name \<in> {''XDEBUG_TRIGGER'', fallback_trigger lib m} \<and>
    xdebug_lib_find_in_globals env name = Some (Some t) \<and> xdebug_trim (fst t) \<in> set (secret_pieces secret)"
proof -
  obtain generic where g: "xdebug_lib_find_in_globals env ''XDEBUG_TRIGGER'' = Some generic"
    using assms(3) by (cases "xdebug_lib_find_in_globals env ''XDEBUG_TRIGGER''") (simp_all add: trigger_enabled_def)
  then obtain found where f:
    "(case generic of Some r \<Rightarrow> Some (Some r) | None \<Rightarrow> xdebug_lib_find_in_globals env (fallback_trigger lib m)) = Some found"
    using assms(3)
    by (cases "case generic of Some r \<Rightarrow> Some (Some r) | None \<Rightarrow> xdebug_lib_find_in_globals env (fallback_trigger lib m)")
      (simp_all add: trigger_enabled_def)
  with g assms(3) obtain t w where t: "found = Some (t, w)"
    by (cases found) (auto simp: trigger_enabled_def)
  have "does_shared_secret_match env t = Some (Some v)"
    using assms(1,2,3) g f t by (simp add: trigger_enabled_def xdebug_lib_has_shared_secret_def)
  with shared_secret_match [OF assms(1), of t] have "xdebug_trim t \<in> set (secret_pieces secret)" by auto
  moreover have "xdebug_lib_find_in_globals env ''XDEBUG_TRIGGER'' = Some (Some (t, w)) \<or>
      xdebug_lib_find_in_globals env (fallback_trigger lib m) = Some (Some (t, w))"
    using g f t by (simp split: option.splits)
  ultimately show ?thesis by (metis fst_conv insertCI)
qed

text \<open>An element that is an array in the request's parameters is read as if it were a string.\<close>

lemma find_in_globals_array:
  "le_symbol_table env ''_GET'' element = Some (Zval_other t) \<Longrightarrow> xdebug_lib_find_in_globals env element = None"
  by (simp add: xdebug_lib_find_in_globals_def)

end
