(* ===== verification/Xd_Session.thy ===== *)
theory Xd_Session
  imports Xd_Mode Xd_Crc32 Xd_Dbgp
begin

text \<open>
  When a debugging session starts and ends: the decisions of \<open>src/debugger/com.c\<close>, and the request
  hooks and PHP functions of \<open>src/debugger/debugger.c\<close> that lead to them.  Opening a socket is a
  parameter of the environment; what an open socket delivers is its list of events.
\<close>

section \<open>State\<close>

datatype socket_result = Connected "recv_event list" | Not_connected int

text \<open>\<open>se_php\<close> are the handlers of the commands on PHP variables, as in \<open>Xd_Dbgp\<close>.\<close>

record sess_env =
  se_dbg :: dbg_env
  se_lib :: lib_env
  se_php :: "string \<Rightarrow> command_handler"
  se_ide_key_setting :: "string option"
  se_cloud_id :: string
  se_client_host :: string
  se_client_port :: int
  se_discover_client_host :: bool
  se_discovery_header :: string
  se_gateway_ip :: "string option"
  se_nameserver :: "string option"
  se_create_socket :: "string \<Rightarrow> int \<Rightarrow> socket_result"

text \<open>
  The debugger with its open connection, the settings, and the globals of other parts that the sessions
  write: whether the statement handler runs, the cookies set (all are \<open>XDEBUG_SESSION\<close>), whether
  the time limit of scripts is on.
\<close>

record engine =
  en_dbg :: debugger
  en_conn :: fd_conn
  en_lib :: lib_globals
  en_remote_pid :: nat
  en_statement_handler :: bool
  en_cookies :: "string list"
  en_time_limit :: bool
  en_no_exec :: bool
  en_function_count :: nat
  en_class_count :: nat

text \<open>
  What an operation of the debugger gives: the new state, and whether the script was abandoned by
  \<open>zend_bailout\<close>, which leaves every function between; \<open>None\<close> is an invalid access.
\<close>

type_synonym flow = "(engine \<times> bool) option"

definition flow_then :: "flow \<Rightarrow> (engine \<Rightarrow> flow) \<Rightarrow> flow" where
  "flow_then r f = (case r of Some (e, False) \<Rightarrow> f e | _ \<Rightarrow> r)"

definition flow_on :: "engine \<Rightarrow> flow" where
  "flow_on e = Some (e, False)"

lemma flow_then_on [simp]: "flow_then (flow_on e) f = f e"
  by (simp add: flow_then_def flow_on_def)

definition put_dbg :: "engine \<Rightarrow> debugger \<Rightarrow> engine" where
  "put_dbg e s = e\<lparr>en_dbg := s\<rparr>"

definition active :: "engine \<Rightarrow> bool" where
  "active e = dbg_connection_enabled (en_dbg e)"

definition is_mode :: "engine \<Rightarrow> nat \<Rightarrow> bool" where
  "is_mode e m = XDEBUG_MODE_IS (xg_mode (en_lib e)) m"

definition xdebug_mark_debug_connection_active :: "sess_env \<Rightarrow> engine \<Rightarrow> engine" where
  "xdebug_mark_debug_connection_active env e =
     e\<lparr>en_dbg := (en_dbg e)\<lparr>dbg_connection_enabled := True\<rparr>, en_remote_pid := env_pid (se_dbg env)\<rparr>"

definition xdebug_mark_debug_connection_pending :: "engine \<Rightarrow> engine" where
  "xdebug_mark_debug_connection_pending e =
     e\<lparr>en_dbg := (en_dbg e)\<lparr>dbg_connection_enabled := False\<rparr>, en_remote_pid := 0\<rparr>"

definition xdebug_mark_debug_connection_not_active :: "engine \<Rightarrow> engine" where
  "xdebug_mark_debug_connection_not_active e =
     e\<lparr>en_dbg := (en_dbg e)\<lparr>dbg_connection_enabled := False\<rparr>, en_remote_pid := 0\<rparr>"

text \<open>The globals at the start of the process.\<close>

definition init_context :: "debugger \<Rightarrow> debugger" where
  "init_context s =
     s\<lparr>con_program_name := None, con_do_break := False, con_pending_breakpoint := None, con_do_step := False,
       con_do_next := False, con_do_finish := False, con_do_connect_to_client := False, con_detached_message := None\<rparr>"

definition xdebug_init_debugger_globals :: "engine \<Rightarrow> engine" where
  "xdebug_init_debugger_globals e =
     e\<lparr>en_dbg := (init_context (en_dbg e))
         \<lparr>dbg_breakpoint_count := 0, dbg_ide_key := None, dbg_stdout_mode := 0, dbg_connection_enabled := False,
          dbg_breakpoints_allowed := False, dbg_suppress_return_value_step := False\<rparr>,
       en_no_exec := False, en_remote_pid := 0\<rparr>"

section \<open>Connecting\<close>

definition XDEBUG_CLOUD_PORT :: int where "XDEBUG_CLOUD_PORT = 9020"

definition resolve_pseudo_hosts :: "sess_env \<Rightarrow> string \<Rightarrow> string option" where
  "resolve_pseudo_hosts env requested_hostname =
     (if \<not> strneq requested_hostname ''xdebug://'' 9 then None
      else if requested_hostname = ''xdebug://gateway'' then se_gateway_ip env
      else if requested_hostname = ''xdebug://nameserver'' then se_nameserver env
      else None)"

fun discovery_loop :: "sess_env \<Rightarrow> string list \<Rightarrow> zval option" where
  "discovery_loop env [] = None"
| "discovery_loop env (h # hs) =
     (case le_http_globals (se_lib env) TRACK_VARS_SERVER (xdebug_trim h) of
        Some remote_addr \<Rightarrow> Some remote_addr
      | None \<Rightarrow> discovery_loop env hs)"

definition get_client_discovery_address :: "sess_env \<Rightarrow> zval option option" where
  "get_client_discovery_address env =
     map_option (\<lambda>headers. discovery_loop env (arg_args headers))
       (xdebug_explode '','' (se_discovery_header env) xdebug_arg_ctor (-1))"

definition connect_configured :: "sess_env \<Rightarrow> socket_result" where
  "connect_configured env = se_create_socket env (se_client_host env) (se_client_port env)"

text \<open>The first of several addresses is used; the configured host is the fallback.\<close>

definition connect_discovered :: "sess_env \<Rightarrow> string \<Rightarrow> socket_result" where
  "connect_discovered env addr =
     (let host = (case strchr addr (CHR '','') of Some cp \<Rightarrow> take cp addr | None \<Rightarrow> addr) in
      case se_create_socket env host (se_client_port env) of
        Connected evs \<Rightarrow> Connected evs
      | Not_connected _ \<Rightarrow> connect_configured env)"

definition xdebug_init_normal_debugger :: "sess_env \<Rightarrow> socket_result option" where
  "xdebug_init_normal_debugger env =
     (if \<not> se_discover_client_host env
      then Some (case resolve_pseudo_hosts env (se_client_host env) of
                   Some pseudo_hostname \<Rightarrow> se_create_socket env pseudo_hostname (se_client_port env)
                 | None \<Rightarrow> connect_configured env)
      else do {
        found \<leftarrow> get_client_discovery_address env;
        case found of
          None \<Rightarrow> Some (connect_configured env)
        | Some remote_addr \<Rightarrow> do {
            addr \<leftarrow> Z_STRVAL_P remote_addr;
            Some (if strstr (c_str addr) ''://'' \<noteq> None then connect_configured env
                  else connect_discovered env (c_str addr)) } })"

definition cloud_host :: "string \<Rightarrow> string" where
  "cloud_host cloud_id = char_of (nat (xdebug_crc32 cloud_id mod 16) + ord (CHR ''a'')) # ''.cloud.xdebug.com''"

definition xdebug_init_cloud_debugger :: "sess_env \<Rightarrow> string \<Rightarrow> socket_result" where
  "xdebug_init_cloud_debugger env cloud_id = se_create_socket env (cloud_host cloud_id) XDEBUG_CLOUD_PORT"

definition ide_key_is_cloud_id :: "string \<Rightarrow> bool" where
  "ide_key_is_cloud_id k \<longleftrightarrow>
     length k = 36 \<and> k ! 8 = CHR ''-'' \<and> k ! 13 = CHR ''-'' \<and> k ! 18 = CHR ''-'' \<and> k ! 23 = CHR ''-''"

text \<open>The socket and the type of host.\<close>

definition open_connection :: "sess_env \<Rightarrow> engine \<Rightarrow> (socket_result \<times> int) option" where
  "open_connection env e =
     (case (se_cloud_id env, dbg_ide_key (en_dbg e)) of
        ([], Some k) \<Rightarrow>
          if ide_key_is_cloud_id k then Some (xdebug_init_cloud_debugger env k, XDEBUG_CLOUD_FROM_TRIGGER_VALUE)
          else map_option (\<lambda>r. (r, XDEBUG_NORMAL)) (xdebug_init_normal_debugger env)
      | ([], None) \<Rightarrow> map_option (\<lambda>r. (r, XDEBUG_NORMAL)) (xdebug_init_normal_debugger env)
      | (cloud_id, _) \<Rightarrow> Some (xdebug_init_cloud_debugger env cloud_id, XDEBUG_CLOUD))"

definition remote_init :: "sess_env \<Rightarrow> engine \<Rightarrow> recv_event list \<Rightarrow> flow" where
  "remote_init env e evs =
     map_option
       (\<lambda>(s, c, r). (e\<lparr>en_dbg := s, en_conn := c, en_remote_pid := env_pid (se_dbg env)\<rparr>, r = Loop_bailout))
       (xdebug_dbgp_init (se_dbg env) (se_php env) (en_dbg e) evs XDEBUG_REQ)"

definition update_statement_handler :: "engine \<Rightarrow> engine" where
  "update_statement_handler e =
     (if is_mode e XDEBUG_MODE_COVERAGE then e else e\<lparr>en_statement_handler := active e\<rparr>)"

definition xdebug_init_debugger :: "sess_env \<Rightarrow> engine \<Rightarrow> flow" where
  "xdebug_init_debugger env e =
     do { (sock, host_type) \<leftarrow> open_connection env e;
          let e1 = e\<lparr>en_dbg := (en_dbg e)\<lparr>con_host_type := host_type\<rparr>\<rparr>;
          case sock of
            Connected evs \<Rightarrow>
              flow_then (remote_init env (xdebug_mark_debug_connection_pending e1) evs)
                (\<lambda>e2. flow_on (update_statement_handler (e2\<lparr>en_time_limit := False\<rparr>)))
          | Not_connected _ \<Rightarrow> flow_on (update_statement_handler e1) }"

definition xdebug_abort_debugger :: "engine \<Rightarrow> engine" where
  "xdebug_abort_debugger e = (if active e then xdebug_mark_debug_connection_not_active e else e)"

definition xdebug_restart_debugger :: "sess_env \<Rightarrow> engine \<Rightarrow> flow" where
  "xdebug_restart_debugger env e = xdebug_init_debugger env (xdebug_abort_debugger e)"

section \<open>The decision to start\<close>

definition xdebug_should_ignore :: "sess_env \<Rightarrow> bool option" where
  "xdebug_should_ignore env =
     map_option
       (\<lambda>r. case r of None \<Rightarrow> False | Some (ignore_value, w) \<Rightarrow> \<not> (c_str ignore_value = ''no'' \<or> c_str ignore_value = ''0''))
       (xdebug_lib_find_in_globals (se_lib env) ''XDEBUG_IGNORE'')"

definition xdebug_debug_init_if_requested_on_connect_to_client :: "sess_env \<Rightarrow> engine \<Rightarrow> flow" where
  "xdebug_debug_init_if_requested_on_connect_to_client env e =
     (if \<not> is_mode e XDEBUG_MODE_STEP_DEBUG then flow_on e
      else do { ignore \<leftarrow> xdebug_should_ignore env;
                if ignore \<or> active e then flow_on e else xdebug_init_debugger env e })"

definition xdebug_debug_init_if_requested_on_error :: "sess_env \<Rightarrow> engine \<Rightarrow> flow" where
  "xdebug_debug_init_if_requested_on_error env e =
     (if \<not> is_mode e XDEBUG_MODE_STEP_DEBUG \<or> \<not> xdebug_lib_start_upon_error (en_lib e) \<or> active e then flow_on e
      else xdebug_init_debugger env e)"

definition xdebug_debug_init_if_requested_on_xdebug_break :: "sess_env \<Rightarrow> engine \<Rightarrow> flow" where
  "xdebug_debug_init_if_requested_on_xdebug_break env e =
     (if \<not> is_mode e XDEBUG_MODE_STEP_DEBUG \<or> active e then flow_on e
      else do { start \<leftarrow> xdebug_lib_start_if_mode_is_trigger (se_lib env) (en_lib e) XDEBUG_MODE_STEP_DEBUG;
                if start then xdebug_init_debugger env e else flow_on e })"

definition xdebug_update_ide_key :: "string \<Rightarrow> engine \<Rightarrow> engine" where
  "xdebug_update_ide_key new_key e = e\<lparr>en_dbg := (en_dbg e)\<lparr>dbg_ide_key := Some new_key\<rparr>\<rparr>"

definition set_session_cookie :: "string \<Rightarrow> engine \<Rightarrow> engine" where
  "set_session_cookie v e = e\<lparr>en_cookies := en_cookies e @ [v]\<rparr>"

fun first_var :: "zval option list \<Rightarrow> zval option" where
  "first_var [] = None"
| "first_var (Some v # rest) = Some v"
| "first_var (None # rest) = first_var rest"

text \<open>The key and the cookie are set before the secret is looked at.\<close>

definition xdebug_handle_start_session :: "sess_env \<Rightarrow> engine \<Rightarrow> engine \<times> bool" where
  "xdebug_handle_start_session env e =
     (let lib = se_lib env;
          dummy = first_var [le_http_globals lib TRACK_VARS_ENV ''XDEBUG_SESSION_START'',
                    le_http_globals lib TRACK_VARS_GET ''XDEBUG_SESSION_START'',
                    le_http_globals lib TRACK_VARS_POST ''XDEBUG_SESSION_START''];
          (e1, activate_session) =
            (case (dummy, le_headers_sent lib) of
               (Some v, False) \<Rightarrow>
                 (set_session_cookie (convert_to_string v) (xdebug_update_ide_key (c_str (convert_to_string v)) e), True)
             | _ \<Rightarrow>
                 (case le_getenv lib ''XDEBUG_SESSION_START'' of
                    Some dummy_env \<Rightarrow>
                      (let e1 = xdebug_update_ide_key dummy_env e
                       in (if le_headers_sent lib then e1 else set_session_cookie dummy_env e1, True))
                  | None \<Rightarrow>
                      (case (le_getenv lib ''XDEBUG_CONFIG'', nonempty (dbg_ide_key (en_dbg e))) of
                         (Some _, Some k) \<Rightarrow> if le_headers_sent lib then (e, False) else (set_session_cookie k e, True)
                       | _ \<Rightarrow> (e, False))))
      in (e1, activate_session \<and> \<not> xdebug_lib_has_shared_secret lib))"

definition xdebug_handle_stop_session :: "sess_env \<Rightarrow> engine \<Rightarrow> engine" where
  "xdebug_handle_stop_session env e =
     (let lib = se_lib env in
      if (le_http_globals lib TRACK_VARS_GET ''XDEBUG_SESSION_STOP'' \<noteq> None \<or>
          le_http_globals lib TRACK_VARS_POST ''XDEBUG_SESSION_STOP'' \<noteq> None) \<and> \<not> le_headers_sent lib
      then set_session_cookie [] e else e)"

text \<open>The three ways to ask for a session, tried in this order, and the value of the trigger.\<close>

definition startup_requested :: "sess_env \<Rightarrow> engine \<Rightarrow> (engine \<times> bool \<times> string option) option" where
  "startup_requested env e =
     (if xdebug_lib_start_with_request (en_lib e) XDEBUG_MODE_STEP_DEBUG then Some (e, True, None)
      else
        (let (e1, legacy) = (if xdebug_lib_never_start_with_request (en_lib e) then (e, False)
                             else xdebug_handle_start_session env e)
         in if legacy then Some (e1, True, None)
            else map_option (\<lambda>(start, v). (e1, start, v))
                   (xdebug_lib_start_with_trigger (se_lib env) (en_lib e1) XDEBUG_MODE_STEP_DEBUG)))"

definition xdebug_debug_init_if_requested_at_startup :: "sess_env \<Rightarrow> engine \<Rightarrow> flow" where
  "xdebug_debug_init_if_requested_at_startup env e =
     (if dbg_detached (en_dbg e) \<or> active e then flow_on e
      else do {
        ignore \<leftarrow> xdebug_should_ignore env;
        if ignore then flow_on e
        else do {
          (e1, start, found_trigger_value) \<leftarrow> startup_requested env e;
          let e2 = (case found_trigger_value of Some v \<Rightarrow> xdebug_update_ide_key v e1 | None \<Rightarrow> e1);
          flow_then
            (if start then xdebug_init_debugger env e2
             else flow_on (if is_mode e1 XDEBUG_MODE_COVERAGE then e1 else e1\<lparr>en_statement_handler := False\<rparr>))
            (\<lambda>e3. flow_on (xdebug_handle_stop_session env e3)) } })"

section \<open>The request\<close>

definition xdebug_debugger_get_ide_key :: "sess_env \<Rightarrow> string option" where
  "xdebug_debugger_get_ide_key env =
     (case nonempty (se_ide_key_setting env) of
        Some k \<Rightarrow> Some k
      | None \<Rightarrow> nonempty (le_getenv (se_lib env) ''DBGP_IDEKEY''))"

definition xdebug_debugger_reset_ide_key :: "string \<Rightarrow> engine \<Rightarrow> engine" where
  "xdebug_debugger_reset_ide_key envval e = xdebug_update_ide_key envval e"

definition xdebug_debugger_bailout_if_no_exec_requested :: "engine \<Rightarrow> bool" where
  "xdebug_debugger_bailout_if_no_exec_requested e = en_no_exec e"

definition xdebug_debugger_set_program_name :: "string \<Rightarrow> engine \<Rightarrow> engine" where
  "xdebug_debugger_set_program_name filename e =
     (if con_program_name (en_dbg e) = None then put_dbg e ((en_dbg e)\<lparr>con_program_name := Some filename\<rparr>) else e)"

definition rinit_context :: "debugger \<Rightarrow> debugger" where
  "rinit_context s =
     s\<lparr>dbg_breakpoints_allowed := True, dbg_suppress_return_value_step := False, dbg_detached := False,
       dbg_breakable_lines_map := xdebug_hash_alloc 2048 True, con_program_name := None, con_do_break := False,
       con_pending_breakpoint := None, con_do_step := False, con_do_next := False, con_do_finish := False,
       con_do_connect_to_client := False, con_detached_message := None\<rparr>"

definition xdebug_debugger_rinit :: "sess_env \<Rightarrow> engine \<Rightarrow> engine" where
  "xdebug_debugger_rinit env e =
     (let lib = se_lib env;
          e1 = put_dbg e ((en_dbg e)\<lparr>dbg_ide_key := xdebug_debugger_get_ide_key env,
                                   dbg_scope := (dbg_scope (en_dbg e))\<lparr>sc_active_symbol_table := None\<rparr>\<rparr>);
          stop = (le_http_globals lib TRACK_VARS_GET ''XDEBUG_SESSION_STOP_NO_EXEC'' \<noteq> None \<or>
                  le_http_globals lib TRACK_VARS_POST ''XDEBUG_SESSION_STOP_NO_EXEC'' \<noteq> None) \<and> \<not> le_headers_sent lib;
          e2 = (if stop then (set_session_cookie [] e1)\<lparr>en_no_exec := True\<rparr> else e1\<lparr>en_no_exec := False\<rparr>);
          e3 = xdebug_mark_debug_connection_not_active e2
      in e3\<lparr>en_dbg := rinit_context (en_dbg e3), en_function_count := 0, en_class_count := 0\<rparr>)"

definition post_deactivate_context :: "debugger \<Rightarrow> debugger" where
  "post_deactivate_context s =
     s\<lparr>con_program_name := None, dbg_ide_key := None, dbg_breakable_lines_map := xdebug_hash_alloc 2048 True,
       con_detached_message := None\<rparr>"

text \<open>The map of breakable lines is destroyed; the next request allocates it anew.\<close>

definition xdebug_debugger_post_deactivate :: "sess_env \<Rightarrow> engine \<Rightarrow> engine option" where
  "xdebug_debugger_post_deactivate env e =
     map_option (\<lambda>e1. e1\<lparr>en_dbg := post_deactivate_context (en_dbg e1)\<rparr>)
       (if active e
        then map_option (\<lambda>(s, c). e\<lparr>en_dbg := s, en_conn := c\<rparr>)
               (xdebug_dbgp_deinit (se_dbg env) (se_php env) (en_conn e) (en_dbg e))
        else Some e)"

definition xdebug_debugger_restart_if_pid_changed :: "sess_env \<Rightarrow> engine \<Rightarrow> flow" where
  "xdebug_debugger_restart_if_pid_changed env e =
     (if \<not> active e \<or> en_remote_pid e = env_pid (se_dbg env) then flow_on e else xdebug_restart_debugger env e)"

section \<open>Functions for scripts\<close>

text \<open>The second component is what the PHP function returns; a bailout returns nothing.\<close>

definition xdebug_break :: "sess_env \<Rightarrow> engine \<Rightarrow> (engine \<times> bool option) option" where
  "xdebug_break env e =
     (if \<not> is_mode e XDEBUG_MODE_STEP_DEBUG then Some (e, Some False)
      else map_option
             (\<lambda>(e1, bail).
                if bail then (e1, None)
                else if \<not> active e1 then (e1, Some False)
                else (put_dbg e1 ((en_dbg e1)\<lparr>con_do_break := True, con_pending_breakpoint := None\<rparr>), Some True))
             (xdebug_debug_init_if_requested_on_xdebug_break env e))"

definition xdebug_connect_to_client :: "engine \<Rightarrow> engine \<times> bool" where
  "xdebug_connect_to_client e =
     (if \<not> is_mode e XDEBUG_MODE_STEP_DEBUG then (e, False)
      else (e\<lparr>en_dbg := (en_dbg e)\<lparr>con_do_connect_to_client := True\<rparr>, en_statement_handler := True\<rparr>, True))"

definition xdebug_is_debugger_active :: "engine \<Rightarrow> bool" where
  "xdebug_is_debugger_active e = active e"

definition xdebug_notify :: "sess_env \<Rightarrow> engine \<Rightarrow> php_value \<Rightarrow> (engine \<times> bool) option" where
  "xdebug_notify env e data =
     (if \<not> is_mode e XDEBUG_MODE_STEP_DEBUG \<or> \<not> active e then Some (e, False)
      else do { fse \<leftarrow> xdebug_get_stack_frame (en_dbg e) 0;
                s \<leftarrow> xdebug_dbgp_user_notify (se_dbg env) (en_dbg e) (Some (fse_filename fse)) (size_of_int (fse_lineno fse)) data;
                Some (put_dbg e s, True) })"

section \<open>What a secret protects\<close>

definition same_session_state :: "engine \<Rightarrow> engine \<Rightarrow> bool" where
  "same_session_state e e1 \<longleftrightarrow> active e1 = active e \<and> dbg_sent (en_dbg e1) = dbg_sent (en_dbg e) \<and> en_lib e1 = en_lib e"

lemma key_and_cookie [simp]:
  "same_session_state e e" "same_session_state e (xdebug_update_ide_key k e)" "same_session_state e (set_session_cookie v e)"
  "same_session_state e (set_session_cookie v (xdebug_update_ide_key k e))" "same_session_state e (xdebug_handle_stop_session env e2) = same_session_state e e2"
  "same_session_state e (e2\<lparr>en_statement_handler := h\<rparr>) = same_session_state e e2"
  by (simp_all add: same_session_state_def xdebug_update_ide_key_def set_session_cookie_def xdebug_handle_stop_session_def
      active_def Let_def)

lemma start_session_state: "same_session_state e (fst (xdebug_handle_start_session env e))"
  by (auto simp: xdebug_handle_start_session_def Let_def split: option.split bool.split)

lemma start_session_secret: "xdebug_lib_has_shared_secret (se_lib env) \<Longrightarrow> \<not> snd (xdebug_handle_start_session env e)"
  by (simp add: xdebug_handle_start_session_def Let_def split: prod.split)

definition trigger_matches :: "sess_env \<Rightarrow> lib_globals \<Rightarrow> string \<Rightarrow> bool" where
  "trigger_matches env lib secret \<longleftrightarrow>
     (\<exists>name t. name \<in> {''XDEBUG_TRIGGER'', fallback_trigger lib XDEBUG_MODE_STEP_DEBUG} \<and>
        xdebug_lib_find_in_globals (se_lib env) name = Some (Some t) \<and> xdebug_trim (fst t) \<in> set (secret_pieces secret))"

lemma no_match_no_start:
  assumes "le_trigger_value (se_lib env) = Some secret" "secret \<noteq> []" "\<not> trigger_matches env lib secret"
    "xdebug_lib_start_with_trigger (se_lib env) lib XDEBUG_MODE_STEP_DEBUG = Some (start, v)"
  shows "\<not> start \<and> v = None"
  using assms(4) trigger_needs_secret [OF assms(1,2), of lib XDEBUG_MODE_STEP_DEBUG] assms(3)
  by (auto simp: xdebug_lib_start_with_trigger_def is_mode_trigger_and_enabled_def trigger_matches_def split: if_splits)

lemma startup_needs_secret:
  assumes "le_trigger_value (se_lib env) = Some secret" "secret \<noteq> []" "\<not> trigger_matches env (en_lib e) secret"
    "xg_start_with_request (en_lib e) \<noteq> XDEBUG_START_WITH_REQUEST_YES"
    "xdebug_debug_init_if_requested_at_startup env e = Some (e1, bail)"
  shows "same_session_state e e1 \<and> \<not> bail"
proof -
  have s: "xdebug_lib_has_shared_secret (se_lib env)" using assms(1,2) by (simp add: xdebug_lib_has_shared_secret_def)
  have w: "\<not> xdebug_lib_start_with_request (en_lib e) XDEBUG_MODE_STEP_DEBUG"
    using assms(4) by (simp add: xdebug_lib_start_with_request_def xdebug_modes)
  have q: "same_session_state e e2 \<and> \<not> start \<and> v = None" if "startup_requested env e = Some (e2, start, v)" for e2 start v
  proof -
    obtain e3 legacy where l: "(if xdebug_lib_never_start_with_request (en_lib e) then (e, False) else xdebug_handle_start_session env e) = (e3, legacy)"
      by fastforce
    then have "same_session_state e e3" "\<not> legacy"
      using start_session_state [of e env] start_session_secret [OF s, of e] by (auto split: if_splits)
    moreover then have "\<not> trigger_matches env (en_lib e3) secret" using assms(3) by (simp add: same_session_state_def)
    ultimately show ?thesis
      using that w l no_match_no_start [OF assms(1,2), of "en_lib e3"] by (auto simp: startup_requested_def)
  qed
  show ?thesis
    using assms(5)
    by (auto simp: xdebug_debug_init_if_requested_at_startup_def Option.bind_eq_Some_conv flow_on_def flow_then_def
        dest!: q split: if_splits)
qed

end
