(* ===== verification/Xd_Lines.thy ===== *)
theory Xd_Lines
  imports Xd_Session
begin

text \<open>
  The breakable lines of compiled code, \<open>src/debugger/debugger.c\<close>: collecting them when a file or an
  evaluated string is compiled, and resolving the breakpoints that wait for them.  The engine's tables of
  functions and classes are lists of slots, where an empty slot is \<open>None\<close>.  The map of lines is there from
  the start of the request; a compilation before it, which the code ignores, is outside the model.
\<close>

fun add_ext_stmts :: "xdebug_set \<Rightarrow> (opcode_kind \<times> nat) list \<Rightarrow> xdebug_set option" where
  "add_ext_stmts tmp [] = Some tmp"
| "add_ext_stmts tmp ((opcode, lineno) # ops) =
     (if opcode = ZEND_EXT_STMT
      then (case xdebug_set_add tmp lineno of None \<Rightarrow> None | Some tmp1 \<Rightarrow> add_ext_stmts tmp1 ops)
      else add_ext_stmts tmp ops)"

definition xdebug_debugger_get_breakable_lines_from_oparray :: "zend_op_array \<Rightarrow> xdebug_set option" where
  "xdebug_debugger_get_breakable_lines_from_oparray opa =
     (case xdebug_set_create (oa_line_end opa + 1) of
        None \<Rightarrow> None
      | Some tmp \<Rightarrow> add_ext_stmts tmp (oa_opcodes opa))"

section \<open>The map of lines\<close>

text \<open>The list of a file, made empty if there is none; storing through the pointer keeps the entry.\<close>

definition get_file_function_line_list :: "lines_list xdebug_hash \<Rightarrow> string \<Rightarrow> lines_list xdebug_hash \<times> lines_list" where
  "get_file_function_line_list h filename =
     (case xdebug_hash_find h filename of
        Some lines \<Rightarrow> (h, lines)
      | None \<Rightarrow> (xdebug_hash_add h filename [], []))"

definition lines_put :: "lines_list xdebug_hash \<Rightarrow> string \<Rightarrow> lines_list \<Rightarrow> lines_list xdebug_hash" where
  "lines_put h filename lines = (xdebug_hash_add h filename lines)\<lparr>h_destroyed := h_destroyed h\<rparr>"

definition lines_item :: "zend_op_array \<Rightarrow> lines_map_item option" where
  "lines_item opa =
     map_option
       (\<lambda>lines. \<lparr>li_line_start = oa_line_start opa, li_line_end = oa_line_end opa,
                 li_line_span = nat ((int (oa_line_end opa) - int (oa_line_start opa)) mod 2 ^ 32),
                 li_lines_breakable = lines\<rparr>)
       (xdebug_debugger_get_breakable_lines_from_oparray opa)"

text \<open>A function, then the functions declared inside it.\<close>

fun add_function_to_lines_list :: "lines_list \<Rightarrow> zend_op_array \<Rightarrow> lines_list option"
  and add_dynamic_functions :: "lines_list \<Rightarrow> zend_op_array list \<Rightarrow> lines_list option" where
  "add_function_to_lines_list lines (Op_array st en ops defs) =
     (case lines_item (Op_array st en ops defs) of
        None \<Rightarrow> None
      | Some item \<Rightarrow> add_dynamic_functions (lines @ [item]) defs)"
| "add_dynamic_functions lines [] = Some lines"
| "add_dynamic_functions lines (d # ds) =
     (case add_function_to_lines_list lines d of None \<Rightarrow> None | Some lines1 \<Rightarrow> add_dynamic_functions lines1 ds)"

definition resolve_breakpoints_for_function :: "lines_list \<Rightarrow> zend_op_array \<Rightarrow> lines_list option" where
  "resolve_breakpoints_for_function lines opa = add_function_to_lines_list lines opa"

section \<open>Functions and classes of a file\<close>

record user_function =
  uf_user_code :: bool
  uf_filename :: string
  uf_op_array :: zend_op_array

record class_entry =
  ce_internal :: bool
  ce_function_table :: "user_function list"
  ce_hooks :: "user_function list"

fun resolve_class_functions :: "lines_list \<Rightarrow> string \<Rightarrow> user_function list \<Rightarrow> lines_list option" where
  "resolve_class_functions lines filename [] = Some lines"
| "resolve_class_functions lines filename (f # fs) =
     (if \<not> uf_user_code f \<or> length filename \<noteq> length (uf_filename f) \<or> c_str filename \<noteq> c_str (uf_filename f)
      then resolve_class_functions lines filename fs
      else (case resolve_breakpoints_for_function lines (uf_op_array f) of
              None \<Rightarrow> None
            | Some lines1 \<Rightarrow> resolve_class_functions lines1 filename fs))"

definition resolve_breakpoints_for_property_hooks :: "lines_list \<Rightarrow> class_entry \<Rightarrow> string \<Rightarrow> lines_list option" where
  "resolve_breakpoints_for_property_hooks lines ce filename = resolve_class_functions lines filename (ce_hooks ce)"

definition resolve_breakpoints_for_class :: "lines_list \<Rightarrow> class_entry \<Rightarrow> string \<Rightarrow> lines_list option" where
  "resolve_breakpoints_for_class lines ce filename =
     do { lines1 \<leftarrow> resolve_class_functions lines filename (ce_function_table ce);
          resolve_breakpoints_for_property_hooks lines1 ce filename }"

text \<open>
  \<open>ZEND_HASH_REVERSE_FOREACH\<close>, from the last slot to the first; the loop of the code stops at the slot
  number where the last compilation ended, if that slot is in use.
\<close>

fun slots_from :: "nat \<Rightarrow> 'a option list \<Rightarrow> 'a list" where
  "slots_from stop [] = []"
| "slots_from stop (x # rev_slots) =
     (case x of
        None \<Rightarrow> slots_from stop rev_slots
      | Some v \<Rightarrow> if Suc (length rev_slots) = stop then [] else v # slots_from stop rev_slots)"

definition reverse_foreach :: "nat \<Rightarrow> 'a option list \<Rightarrow> 'a list" where
  "reverse_foreach stop slots = slots_from stop (rev slots)"

fun resolve_functions :: "lines_list \<Rightarrow> user_function list \<Rightarrow> lines_list option" where
  "resolve_functions lines [] = Some lines"
| "resolve_functions lines (f # fs) =
     (if \<not> uf_user_code f then resolve_functions lines fs
      else (case resolve_breakpoints_for_function lines (uf_op_array f) of
              None \<Rightarrow> None
            | Some lines1 \<Rightarrow> resolve_functions lines1 fs))"

fun resolve_classes :: "lines_list \<Rightarrow> string \<Rightarrow> class_entry list \<Rightarrow> lines_list option" where
  "resolve_classes lines filename [] = Some lines"
| "resolve_classes lines filename (ce # ces) =
     (if ce_internal ce then resolve_classes lines filename ces
      else (case resolve_breakpoints_for_class lines ce filename of
              None \<Rightarrow> None
            | Some lines1 \<Rightarrow> resolve_classes lines1 filename ces))"

record compiled =
  cp_filename :: string
  cp_op_array :: zend_op_array
  cp_function_table :: "user_function option list"
  cp_class_table :: "class_entry option list"

definition compiled_lines :: "engine \<Rightarrow> compiled \<Rightarrow> lines_list \<Rightarrow> lines_list option" where
  "compiled_lines e cp lines =
     do { lines1 \<leftarrow> resolve_functions lines (reverse_foreach (en_function_count e) (cp_function_table cp));
          lines2 \<leftarrow> resolve_classes lines1 (cp_filename cp) (reverse_foreach (en_class_count e) (cp_class_table cp));
          add_function_to_lines_list lines2 (cp_op_array cp) }"

definition resolve_if_active :: "sess_env \<Rightarrow> engine \<Rightarrow> string \<Rightarrow> engine option" where
  "resolve_if_active env e filename =
     (if \<not> active e then Some e
      else map_option (\<lambda>(s, r). put_dbg e s) (xdebug_dbgp_resolve_breakpoints (se_dbg env) (en_dbg e) filename))"

definition store_lines :: "engine \<Rightarrow> lines_list xdebug_hash \<Rightarrow> string \<Rightarrow> lines_list \<Rightarrow> engine" where
  "store_lines e h filename lines =
     put_dbg e ((en_dbg e)\<lparr>dbg_breakable_lines_map := lines_put h filename lines\<rparr>)"

definition xdebug_debugger_compile_file :: "sess_env \<Rightarrow> engine \<Rightarrow> compiled \<Rightarrow> engine option" where
  "xdebug_debugger_compile_file env e cp =
     (if \<not> is_mode e XDEBUG_MODE_STEP_DEBUG then Some e
      else
        (let (h, lines) = get_file_function_line_list (dbg_breakable_lines_map (en_dbg e)) (cp_filename cp) in
         do { lines1 \<leftarrow> compiled_lines e cp lines;
              resolve_if_active env
                ((store_lines e h (cp_filename cp) lines1)
                   \<lparr>en_function_count := length (cp_function_table cp), en_class_count := length (cp_class_table cp)\<rparr>)
                (cp_filename cp) }))"

section \<open>Evaluated code\<close>

text \<open>The function is added twice, once directly.\<close>

definition resolve_breakpoints_for_eval :: "sess_env \<Rightarrow> engine \<Rightarrow> int \<Rightarrow> zend_op_array \<Rightarrow> engine option" where
  "resolve_breakpoints_for_eval env e eval_id opa =
     (let eval_filename = ''dbgp://'' @ dec_int eval_id;
          (h, lines) = get_file_function_line_list (dbg_breakable_lines_map (en_dbg e)) eval_filename
      in do { lines1 \<leftarrow> add_function_to_lines_list lines opa;
              lines2 \<leftarrow> resolve_breakpoints_for_function lines1 opa;
              resolve_if_active env (store_lines e h eval_filename lines2) eval_filename })"

definition xdebug_debugger_register_eval :: "sess_env \<Rightarrow> engine \<Rightarrow> function_stack_entry \<Rightarrow> engine option" where
  "xdebug_debugger_register_eval env e fse =
     (if \<not> active e then Some e
      else do { (s, eval_id) \<leftarrow> xdebug_dbgp_register_eval_id (en_dbg e) fse;
                resolve_breakpoints_for_eval env (put_dbg e s) eval_id (fse_op_array fse) })"

section \<open>Which lines are in the map\<close>

definition op_array_ok :: "zend_op_array \<Rightarrow> bool" where
  "op_array_ok opa \<longleftrightarrow>
     oa_line_end opa + 1 < 2 ^ 32 \<and> (\<forall>(k, l) \<in> set (oa_opcodes opa). k = ZEND_EXT_STMT \<longrightarrow> l \<le> oa_line_end opa)"

definition stmt_lines :: "zend_op_array \<Rightarrow> nat set" where
  "stmt_lines opa = {l. (ZEND_EXT_STMT, l) \<in> set (oa_opcodes opa)}"

lemma add_ext_stmts_elems:
  assumes "set_ok tmp" "\<forall>(k, l) \<in> set ops. k = ZEND_EXT_STMT \<longrightarrow> l < set_size tmp"
  shows "\<exists>st. add_ext_stmts tmp ops = Some st \<and> set_ok st \<and> set_size st = set_size tmp \<and>
    elems st = elems tmp \<union> {l. (ZEND_EXT_STMT, l) \<in> set ops}"
  using assms
proof (induction tmp ops rule: add_ext_stmts.induct)
  case (2 tmp opcode lineno ops)
  show ?case
  proof (cases "opcode = ZEND_EXT_STMT")
    case True
    with 2 have "lineno < set_size tmp" by auto
    with xdebug_set_add_ok [OF 2(3), of lineno] obtain tmp1 where
      t: "xdebug_set_add tmp lineno = Some tmp1" "set_ok tmp1" "set_size tmp1 = set_size tmp"
        "elems tmp1 = insert lineno (elems tmp)"
      by (auto simp: max_def)
    with 2 True have "\<exists>st. add_ext_stmts tmp1 ops = Some st \<and> set_ok st \<and> set_size st = set_size tmp1 \<and>
      elems st = elems tmp1 \<union> {l. (ZEND_EXT_STMT, l) \<in> set ops}"
      by auto
    with True t show ?thesis by auto
  next
    case False
    with 2 show ?thesis by auto
  qed
qed auto

lemma breakable_lines:
  assumes "op_array_ok opa"
  shows "\<exists>st. xdebug_debugger_get_breakable_lines_from_oparray opa = Some st \<and> set_ok st \<and>
    set_size st = oa_line_end opa + 1 \<and> elems st = stmt_lines opa"
proof -
  obtain tmp where tmp: "xdebug_set_create (oa_line_end opa + 1) = Some tmp" "set_ok tmp"
    "set_size tmp = oa_line_end opa + 1" "elems tmp = {}"
    using set_create_ok [of "oa_line_end opa + 1"] assms by (auto simp: op_array_ok_def)
  have "\<exists>st. add_ext_stmts tmp (oa_opcodes opa) = Some st \<and> set_ok st \<and> set_size st = set_size tmp \<and>
      elems st = elems tmp \<union> {l. (ZEND_EXT_STMT, l) \<in> set (oa_opcodes opa)}"
    by (rule add_ext_stmts_elems) (use assms tmp in \<open>auto simp: op_array_ok_def\<close>)
  with tmp show ?thesis
    by (auto simp: xdebug_debugger_get_breakable_lines_from_oparray_def stmt_lines_def)
qed

end
