(* ===== verification/Xd_Resolve.thy ===== *)
theory Xd_Resolve
  imports Xd_Lines
begin

text \<open>
  Where a line breakpoint goes, \<open>line_breakpoint_resolve_helper\<close> and \<open>find_smallest_range\<close> of
  \<open>src/debugger/handler_dbgp.c\<close>: the scans never read outside the set of breakable lines, and find the
  nearest breakable line after the wanted one, or the nearest before it, in the smallest function around
  it.
\<close>

section \<open>Where a line breakpoint goes\<close>

definition lines_item_ok :: "lines_map_item \<Rightarrow> bool" where
  "lines_item_ok item \<longleftrightarrow>
     set_ok (li_lines_breakable item) \<and> elems (li_lines_breakable item) \<subseteq> {..li_line_end item} \<and>
     li_line_end item < 2 ^ 31 - 1 \<and>
     (li_line_start item \<le> li_line_end item \<longrightarrow> li_line_span item = li_line_end item - li_line_start item)"

definition in_item :: "nat \<Rightarrow> lines_map_item \<Rightarrow> bool" where
  "in_item l item \<longleftrightarrow> li_line_start item \<le> l \<and> l \<le> li_line_end item"

lemma compiled_item_ok:
  assumes "op_array_ok opa" "oa_line_end opa < 2 ^ 31 - 1"
  shows "\<exists>item. lines_item opa = Some item \<and> lines_item_ok item \<and> elems (li_lines_breakable item) = stmt_lines opa"
proof -
  obtain st where st: "xdebug_debugger_get_breakable_lines_from_oparray opa = Some st" "set_ok st"
    "set_size st = oa_line_end opa + 1" "elems st = stmt_lines opa"
    using breakable_lines [OF assms(1)] by blast
  have "elems st \<subseteq> {..oa_line_end opa}" using st(3) by (auto simp: elems_def)
  moreover have "nat ((int (oa_line_end opa) - int (oa_line_start opa)) mod 2 ^ 32) = oa_line_end opa - oa_line_start opa"
    if "oa_line_start opa \<le> oa_line_end opa"
    using that assms(2) by (simp add: nat_diff_distrib)
  ultimately show ?thesis
    using st assms(2) by (auto simp: lines_item_def lines_item_ok_def)
qed

lemma small_int: "0 \<le> i \<Longrightarrow> i < 2 ^ 31 \<Longrightarrow> size_of_int i = nat i \<and> uint_of_int i = nat i \<and> to_int32 i = i"
  by (simp add: size_of_int_def uint_of_int_def to_int32_def)

lemma smallest_loop:
  assumes "0 \<le> orig" "orig < 2 ^ 31" "list_all lines_item_ok items"
    "found = None \<and> sp = XDEBUG_RESOLVED_SPAN_MAX \<or>
     (\<exists>g. found = Some g \<and> sp = int (li_line_span g) \<and> in_item (nat orig) g \<and> li_line_span g < 2 ^ 31 - 1)"
  shows "case find_smallest_loop orig items found sp of
     None \<Rightarrow> found = None \<and> (\<forall>i \<in> set items. \<not> in_item (nat orig) i)
   | Some g \<Rightarrow> g \<in> set items \<union> set_option found \<and> in_item (nat orig) g \<and>
       (\<forall>i \<in> set items \<union> set_option found. in_item (nat orig) i \<longrightarrow> li_line_span g \<le> li_line_span i)"
  using assms
proof (induction orig items found sp rule: find_smallest_loop.induct)
  case (1 orig found sp)
  then show ?case by (auto split: option.split)
next
  case (2 orig item items found sp)
  have o: "size_of_int orig = nat orig" using small_int 2(4,5) by simp
  have it: "lines_item_ok item" "list_all lines_item_ok items" using 2(6) by simp_all
  show ?case
  proof (cases "in_item (nat orig) item")
    case False
    then have "size_of_int orig < li_line_start item \<or> size_of_int orig > li_line_end item" by (auto simp: in_item_def o)
    with 2(1) [OF this 2(4,5) it(2) 2(7)] False show ?thesis by (auto split: option.splits)
  next
    case True
    then have n: "\<not> (size_of_int orig < li_line_start item \<or> size_of_int orig > li_line_end item)" by (auto simp: in_item_def o)
    have span: "li_line_span item < 2 ^ 31 - 1" using True it(1) by (auto simp: lines_item_ok_def in_item_def)
    then have i32: "to_int32 (int (li_line_span item)) = int (li_line_span item)" by (simp add: to_int32_def)
    show ?thesis
    proof (cases "li_line_span item < size_of_int sp")
      case less: True
      have "case find_smallest_loop orig items (Some item) (to_int32 (int (li_line_span item))) of
          None \<Rightarrow> Some item = None \<and> (\<forall>i \<in> set items. \<not> in_item (nat orig) i)
        | Some g \<Rightarrow> g \<in> set items \<union> set_option (Some item) \<and> in_item (nat orig) g \<and>
            (\<forall>i \<in> set items \<union> set_option (Some item). in_item (nat orig) i \<longrightarrow> li_line_span g \<le> li_line_span i)"
        using 2(4,5) it(2) True span by (intro 2(2) [OF n less]) (auto simp: i32)
      then obtain g where g: "find_smallest_loop orig items (Some item) (to_int32 (int (li_line_span item))) = Some g"
        "g \<in> insert item (set items)" "in_item (nat orig) g" "li_line_span g \<le> li_line_span item"
        "\<forall>i \<in> set items. in_item (nat orig) i \<longrightarrow> li_line_span g \<le> li_line_span i"
        using True by (auto split: option.splits)
      have "li_line_span item \<le> li_line_span f" if "found = Some f" for f
        using less 2(7) that by (auto simp: size_of_int_def)
      then have "li_line_span g \<le> li_line_span f" if "found = Some f" for f using g(4) that by force
      then show ?thesis using n less g by auto
    next
      case ge: False
      then obtain f where f: "found = Some f" "li_line_span f \<le> li_line_span item" "in_item (nat orig) f"
        using 2(7) span by (auto simp: size_of_int_def XDEBUG_RESOLVED_SPAN_MAX_def)
      from 2(3) [OF n ge 2(4,5) it(2) 2(7)] f obtain g where g: "find_smallest_loop orig items found sp = Some g"
        "g \<in> insert f (set items)" "in_item (nat orig) g" "li_line_span g \<le> li_line_span f"
        "\<forall>i \<in> set items. in_item (nat orig) i \<longrightarrow> li_line_span g \<le> li_line_span i"
        by (auto split: option.splits)
      moreover have "li_line_span g \<le> li_line_span item" using g(4) f(2) by simp
      ultimately show ?thesis using n ge f(1) by auto
    qed
  qed
qed

lemma smallest_range:
  assumes "0 \<le> bi_original_lineno b" "bi_original_lineno b < 2 ^ 31" "list_all lines_item_ok lines"
  shows "case find_smallest_range lines b of
     None \<Rightarrow> \<forall>i \<in> set lines. \<not> in_item (nat (bi_original_lineno b)) i
   | Some g \<Rightarrow> g \<in> set lines \<and> in_item (nat (bi_original_lineno b)) g \<and>
       (\<forall>i \<in> set lines. in_item (nat (bi_original_lineno b)) i \<longrightarrow> li_line_span g \<le> li_line_span i)"
  using smallest_loop [OF assms, of None XDEBUG_RESOLVED_SPAN_MAX]
  by (auto simp: find_smallest_range_def split: option.splits)

lemma scan_following_spec:
  assumes "set_ok (li_lines_breakable item)" "elems (li_lines_breakable item) \<subseteq> {..li_line_end item}"
    "0 \<le> tmp" "tmp < orig + XDEBUG_DBGP_SCAN_RANGE" "orig + XDEBUG_DBGP_SCAN_RANGE < 2 ^ 31"
  shows "\<exists>r. scan_following item orig tmp = Some r \<and>
    (case r of Some l \<Rightarrow> tmp < l \<and> l \<le> orig + XDEBUG_DBGP_SCAN_RANGE \<and> nat l \<in> elems (li_lines_breakable item) \<and>
        (\<forall>k. tmp < k \<and> k < l \<longrightarrow> nat k \<notin> elems (li_lines_breakable item))
     | None \<Rightarrow> \<forall>k. tmp < k \<and> k \<le> orig + XDEBUG_DBGP_SCAN_RANGE \<longrightarrow> nat k \<notin> elems (li_lines_breakable item))"
  using assms
proof (induction item orig tmp rule: scan_following.induct)
  case (1 item orig tmp)
  let ?E = "elems (li_lines_breakable item)"
  have s: "size_of_int (tmp + 1) = nat (tmp + 1)" "uint_of_int (tmp + 1) = nat (tmp + 1)"
    using small_int [of "tmp + 1"] 1(4-6) by auto
  obtain v where v: "xdebug_set_in (li_lines_breakable item) (uint_of_int (tmp + 1)) = Some v" "v \<noteq> 0 \<longleftrightarrow> nat (tmp + 1) \<in> ?E"
    using xdebug_set_in_ok [OF 1(2), of "nat (tmp + 1)"] s by auto
  show ?case
  proof (cases "v \<noteq> 0")
    case True
    with v 1(5) show ?thesis by (subst scan_following.simps) auto
  next
    case False
    show ?thesis
    proof (cases "size_of_int (tmp + 1) < li_line_end item \<and> tmp + 1 < orig + XDEBUG_DBGP_SCAN_RANGE")
      case cont: True
      have "\<exists>r. scan_following item orig (tmp + 1) = Some r \<and>
        (case r of Some l \<Rightarrow> tmp + 1 < l \<and> l \<le> orig + XDEBUG_DBGP_SCAN_RANGE \<and> nat l \<in> ?E \<and> (\<forall>k. tmp + 1 < k \<and> k < l \<longrightarrow> nat k \<notin> ?E)
         | None \<Rightarrow> \<forall>k. tmp + 1 < k \<and> k \<le> orig + XDEBUG_DBGP_SCAN_RANGE \<longrightarrow> nat k \<notin> ?E)"
        using 1(2-6) cont False by (intro 1(1) [OF refl v(1)]) auto
      then obtain r where r: "scan_following item orig (tmp + 1) = Some r"
        "case r of Some l \<Rightarrow> tmp + 1 < l \<and> l \<le> orig + XDEBUG_DBGP_SCAN_RANGE \<and> nat l \<in> ?E \<and> (\<forall>k. tmp + 1 < k \<and> k < l \<longrightarrow> nat k \<notin> ?E)
         | None \<Rightarrow> \<forall>k. tmp + 1 < k \<and> k \<le> orig + XDEBUG_DBGP_SCAN_RANGE \<longrightarrow> nat k \<notin> ?E" by blast
      have k: "tmp < k \<longleftrightarrow> k = tmp + 1 \<or> tmp + 1 < k" for k by auto
      from r False v cont show ?thesis
        by (subst scan_following.simps) (auto simp: k split: option.splits)
    next
      case stop: False
      have "nat k \<notin> ?E" if "tmp < k" "k \<le> orig + XDEBUG_DBGP_SCAN_RANGE" for k
      proof (cases "k = tmp + 1")
        case True with False v show ?thesis by simp
      next
        case ne: False
        with that stop have "li_line_end item \<le> nat (tmp + 1)" using s by auto
        with that ne 1(4) have "li_line_end item < nat k" by linarith
        with 1(3) show ?thesis by auto
      qed
      with False v stop show ?thesis by (subst scan_following.simps) (auto simp: Let_def)
    qed
  qed
qed

lemma scan_previous_spec:
  assumes "set_ok (li_lines_breakable item)" "tmp \<le> orig" "orig - XDEBUG_DBGP_SCAN_RANGE < tmp" "orig < 2 ^ 31"
    "XDEBUG_DBGP_SCAN_RANGE \<le> orig"
  shows "\<exists>r. scan_previous item orig tmp = Some r \<and>
    (case r of Some l \<Rightarrow> l < tmp \<and> orig - XDEBUG_DBGP_SCAN_RANGE \<le> l \<and> nat l \<in> elems (li_lines_breakable item) \<and>
        (\<forall>k. l < k \<and> k < tmp \<longrightarrow> nat k \<notin> elems (li_lines_breakable item))
     | None \<Rightarrow> \<forall>k. k < tmp \<and> orig - XDEBUG_DBGP_SCAN_RANGE \<le> k \<and> int (li_line_start item) \<le> k \<longrightarrow>
          nat k \<notin> elems (li_lines_breakable item))"
  using assms
proof (induction item orig tmp rule: scan_previous.induct)
  case (1 item orig tmp)
  let ?E = "elems (li_lines_breakable item)"
  have p: "0 \<le> tmp - 1" "tmp - 1 < 2 ^ 31" using 1(3-6) by (auto simp: XDEBUG_DBGP_SCAN_RANGE_def)
  have s: "size_of_int (tmp - 1) = nat (tmp - 1)" "uint_of_int (tmp - 1) = nat (tmp - 1)"
    using small_int [OF p] by auto
  obtain v where v: "xdebug_set_in (li_lines_breakable item) (uint_of_int (tmp - 1)) = Some v" "v \<noteq> 0 \<longleftrightarrow> nat (tmp - 1) \<in> ?E"
    using xdebug_set_in_ok [OF 1(2), of "nat (tmp - 1)"] s by auto
  show ?case
  proof (cases "v \<noteq> 0")
    case True
    with v 1(4) show ?thesis by (subst scan_previous.simps) auto
  next
    case False
    show ?thesis
    proof (cases "size_of_int (tmp - 1) > li_line_start item \<and> tmp - 1 > orig - XDEBUG_DBGP_SCAN_RANGE")
      case cont: True
      have "\<exists>r. scan_previous item orig (tmp - 1) = Some r \<and>
        (case r of Some l \<Rightarrow> l < tmp - 1 \<and> orig - XDEBUG_DBGP_SCAN_RANGE \<le> l \<and> nat l \<in> ?E \<and> (\<forall>k. l < k \<and> k < tmp - 1 \<longrightarrow> nat k \<notin> ?E)
         | None \<Rightarrow> \<forall>k. k < tmp - 1 \<and> orig - XDEBUG_DBGP_SCAN_RANGE \<le> k \<and> int (li_line_start item) \<le> k \<longrightarrow> nat k \<notin> ?E)"
        using 1(2-6) cont False by (intro 1(1) [OF refl v(1)]) auto
      then obtain r where r: "scan_previous item orig (tmp - 1) = Some r"
        "case r of Some l \<Rightarrow> l < tmp - 1 \<and> orig - XDEBUG_DBGP_SCAN_RANGE \<le> l \<and> nat l \<in> ?E \<and> (\<forall>k. l < k \<and> k < tmp - 1 \<longrightarrow> nat k \<notin> ?E)
         | None \<Rightarrow> \<forall>k. k < tmp - 1 \<and> orig - XDEBUG_DBGP_SCAN_RANGE \<le> k \<and> int (li_line_start item) \<le> k \<longrightarrow> nat k \<notin> ?E" by blast
      have k: "k < tmp \<longleftrightarrow> k = tmp - 1 \<or> k < tmp - 1" for k by auto
      from r False v cont show ?thesis
        by (subst scan_previous.simps) (auto simp: k split: option.splits)
    next
      case stop: False
      have "nat k \<notin> ?E" if "k < tmp" "orig - XDEBUG_DBGP_SCAN_RANGE \<le> k" "int (li_line_start item) \<le> k" for k
      proof (cases "k = tmp - 1")
        case True with False v show ?thesis by simp
      next
        case ne: False
        with that stop p s show ?thesis by auto
      qed
      with False v stop show ?thesis by (subst scan_previous.simps) (auto simp: Let_def)
    qed
  qed
qed


text \<open>The line a breakpoint goes to, from the smallest function around its own line.\<close>

definition goes_to :: "lines_map_item \<Rightarrow> int \<Rightarrow> int option \<Rightarrow> bool" where
  "goes_to item orig r \<longleftrightarrow>
     (let breakable = (\<lambda>k. nat k \<in> elems (li_lines_breakable item)) in
      case r of
        Some l \<Rightarrow> breakable l \<and> \<bar>l - orig\<bar> \<le> XDEBUG_DBGP_SCAN_RANGE \<and>
          (if orig \<le> l then \<forall>k. orig \<le> k \<and> k < l \<longrightarrow> \<not> breakable k
           else \<forall>k. l < k \<and> k \<le> orig + XDEBUG_DBGP_SCAN_RANGE \<longrightarrow> \<not> breakable k)
      | None \<Rightarrow> \<forall>k. orig - XDEBUG_DBGP_SCAN_RANGE \<le> k \<and> k \<le> orig + XDEBUG_DBGP_SCAN_RANGE \<and>
          int (li_line_start item) \<le> k \<longrightarrow> \<not> breakable k)"

lemma resolved_line_spec:
  assumes "XDEBUG_DBGP_SCAN_RANGE \<le> bi_original_lineno b" "bi_original_lineno b + XDEBUG_DBGP_SCAN_RANGE < 2 ^ 31"
    "list_all lines_item_ok lines"
  shows "\<exists>r. resolved_line lines b = Some r \<and>
    (case find_smallest_range lines b of None \<Rightarrow> r = None | Some item \<Rightarrow> goes_to item (bi_original_lineno b) r)"
proof (cases "find_smallest_range lines b")
  case None
  then show ?thesis by (simp add: resolved_line_def)
next
  case (Some item)
  let ?o = "bi_original_lineno b" and ?E = "elems (li_lines_breakable item)"
  have o: "0 \<le> ?o" "?o < 2 ^ 31" using assms(1,2) by (auto simp: XDEBUG_DBGP_SCAN_RANGE_def)
  have it: "lines_item_ok item"
    using smallest_range [OF o assms(3)] Some assms(3) by (auto simp: list_all_iff)
  then have ok: "set_ok (li_lines_breakable item)" "?E \<subseteq> {..li_line_end item}" by (auto simp: lines_item_ok_def)
  obtain v where v: "xdebug_set_in (li_lines_breakable item) (uint_of_int ?o) = Some v" "v \<noteq> 0 \<longleftrightarrow> nat ?o \<in> ?E"
    using xdebug_set_in_ok [OF ok(1), of "uint_of_int ?o"] small_int [OF o] by auto
  have R: "0 < XDEBUG_DBGP_SCAN_RANGE" by (simp add: XDEBUG_DBGP_SCAN_RANGE_def)
  obtain f where f: "scan_following item ?o ?o = Some f"
    "case f of Some l \<Rightarrow> ?o < l \<and> l \<le> ?o + XDEBUG_DBGP_SCAN_RANGE \<and> nat l \<in> ?E \<and> (\<forall>k. ?o < k \<and> k < l \<longrightarrow> nat k \<notin> ?E)
     | None \<Rightarrow> \<forall>k. ?o < k \<and> k \<le> ?o + XDEBUG_DBGP_SCAN_RANGE \<longrightarrow> nat k \<notin> ?E"
    using scan_following_spec [OF ok o(1), of ?o] R assms(2) by auto
  obtain p where p: "scan_previous item ?o ?o = Some p"
    "case p of Some l \<Rightarrow> l < ?o \<and> ?o - XDEBUG_DBGP_SCAN_RANGE \<le> l \<and> nat l \<in> ?E \<and> (\<forall>k. l < k \<and> k < ?o \<longrightarrow> nat k \<notin> ?E)
     | None \<Rightarrow> \<forall>k. k < ?o \<and> ?o - XDEBUG_DBGP_SCAN_RANGE \<le> k \<and> int (li_line_start item) \<le> k \<longrightarrow> nat k \<notin> ?E"
    using scan_previous_spec [OF ok(1), of ?o ?o] R o assms(1) by auto
  show ?thesis
  proof (cases "v \<noteq> 0")
    case True
    with Some v show ?thesis by (auto simp: resolved_line_def goes_to_def XDEBUG_DBGP_SCAN_RANGE_def)
  next
    case False
    then have n: "nat ?o \<notin> ?E" using v(2) by simp
    have ge: "?o \<le> k \<longleftrightarrow> k = ?o \<or> ?o < k" for k by auto
    show ?thesis
    proof (cases f)
      case (Some l)
      with f False v \<open>find_smallest_range lines b = Some item\<close> n show ?thesis
        by (auto simp: resolved_line_def goes_to_def ge)
    next
      case None
      have "resolved_line lines b = Some p"
        using f(1) p(1) False v None \<open>find_smallest_range lines b = Some item\<close> by (simp add: resolved_line_def)
      moreover have "goes_to item ?o p"
      proof (cases p)
        case (Some l)
        have "nat k \<notin> ?E" if "l < k" "k \<le> ?o + XDEBUG_DBGP_SCAN_RANGE" for k
          using that n p(2) f(2) Some None by (cases k ?o rule: linorder_cases) auto
        with Some p(2) show ?thesis by (auto simp: goes_to_def)
      next
        case pn: None
        have "nat k \<notin> ?E" if "?o - XDEBUG_DBGP_SCAN_RANGE \<le> k" "k \<le> ?o + XDEBUG_DBGP_SCAN_RANGE" "int (li_line_start item) \<le> k" for k
          using that n p(2) f(2) pn None by (cases k ?o rule: linorder_cases) auto
        with pn show ?thesis by (auto simp: goes_to_def)
      qed
      ultimately show ?thesis using \<open>find_smallest_range lines b = Some item\<close> by simp
    qed
  qed
qed

end
