(* ===== verification/Xd_Stepping.thy ===== *)
theory Xd_Stepping
  imports Xd_Lines
begin

text \<open>
  What the debugger does while the script runs, \<open>src/debugger/debugger.c\<close>: at each statement, at the start
  and end of each function, at an exception and at an error.  Breaking enters the command loop of
  \<open>Xd_Dbgp\<close>; a connection that is gone after it is marked so.
\<close>

section \<open>Conditions of stepping\<close>

definition next_condition_met :: "debugger \<Rightarrow> function_stack_entry \<Rightarrow> bool" where
  "next_condition_met s fse =
     (case con_next_stack s of
        Some stack \<Rightarrow> stack = dbg_stack_id s \<and> con_next_level s \<ge> fse_level fse
      | None \<Rightarrow> con_next_level s \<ge> fse_level fse)"

definition finish_condition_met :: "debugger \<Rightarrow> function_stack_entry \<Rightarrow> bool \<Rightarrow> bool" where
  "finish_condition_met s fse break_at_return_scope =
     (\<not> break_at_return_scope \<and> fse_level fse < con_finish_level s \<or>
      break_at_return_scope \<and> fse_level fse \<le> con_finish_level s \<or>
      fse_level fse = con_finish_level s \<and> fse_function_nr fse > con_finish_func_nr s)"

section \<open>Breaks\<close>

definition plain_break :: "string \<Rightarrow> nat \<Rightarrow> break_info" where
  "plain_break path lineno =
     \<lparr>bk_filename = Some path, bk_lineno = lineno, bk_exception = None, bk_code = None, bk_message = None,
      bk_brk_info = None, bk_return_value = None\<rparr>"

text \<open>\<open>remote_breakpoint\<close> of the handler: its result, or a bailout.\<close>

definition remote_breakpoint :: "sess_env \<Rightarrow> engine \<Rightarrow> break_info \<Rightarrow> (engine \<times> loop_result) option" where
  "remote_breakpoint env e bk =
     map_option (\<lambda>(s, c, r). (e\<lparr>en_dbg := s, en_conn := c\<rparr>, r))
       (xdebug_dbgp_breakpoint (se_dbg env) (se_php env) (en_conn e) (en_dbg e) bk)"

definition break_or_close :: "sess_env \<Rightarrow> engine \<Rightarrow> break_info \<Rightarrow> flow" where
  "break_or_close env e bk =
     map_option
       (\<lambda>(e1, r). case r of
          Loop_bailout \<Rightarrow> (e1, True)
        | Loop_returned n \<Rightarrow> (if n = 0 then xdebug_mark_debug_connection_not_active e1 else e1, False))
       (remote_breakpoint env e bk)"

text \<open>
  The statement before the implicit return of an included file: user code of the file's main function,
  at the last opcode but one, where the last returns a constant.
\<close>

definition at_default_return :: "debugger \<Rightarrow> function_stack_entry \<Rightarrow> bool option" where
  "at_default_return s fse =
     (if fse_user_defined fse \<and> fse_type fse div XFUNC_INCLUDES mod 2 = 1
      then map_option
             (\<lambda>(opline, opa).
                length (oa_opcodes opa) \<ge> 2 \<and> opline = length (oa_opcodes opa) - 2 \<and>
                fst (last (oa_opcodes opa)) = ZEND_RETURN True)
             (dbg_execute_data s)
      else Some False)"

section \<open>A statement\<close>

text \<open>Whether the condition of a line breakpoint lets it break.\<close>

definition condition_ok :: "dbg_env \<Rightarrow> debugger \<Rightarrow> brk_info \<Rightarrow> debugger \<times> bool" where
  "condition_ok env s b =
     (case bi_condition b of
        None \<Rightarrow> (s, True)
      | Some c \<Rightarrow>
          (case xdebug_do_eval env s c of
             (s1, Eval_value is_true v) \<Rightarrow> (s1, is_true)
           | (s1, Eval_failed m) \<Rightarrow> (s1, False)))"

definition count_hit :: "debugger \<Rightarrow> nat \<Rightarrow> (debugger \<times> bool) option" where
  "count_hit s a =
     do { b \<leftarrow> brk_at s a;
          let (b1, ok) = xdebug_handle_hit_value b;
          s1 \<leftarrow> brk_put s a b1;
          Some (s1, ok) }"

text \<open>One line breakpoint: the new state, and whether it is the one to break at.\<close>

definition line_breakpoint_hit :: "dbg_env \<Rightarrow> debugger \<Rightarrow> string \<Rightarrow> int \<Rightarrow> nat \<Rightarrow> (debugger \<times> bool) option" where
  "line_breakpoint_hit env s filename lineno a =
     do { b \<leftarrow> brk_at s a;
          here \<leftarrow> xdebug_dbgp_break_on_line s b filename lineno;
          if \<not> here then Some (s, False)
          else (case condition_ok env s b of (s1, break_ok) \<Rightarrow> if break_ok then count_hit s1 a else Some (s1, False)) }"

fun find_line_breakpoint :: "dbg_env \<Rightarrow> debugger \<Rightarrow> string \<Rightarrow> int \<Rightarrow> nat list \<Rightarrow> (debugger \<times> nat option) option" where
  "find_line_breakpoint env s filename lineno [] = Some (s, None)"
| "find_line_breakpoint env s filename lineno (a # le) =
     do { (s1, hit) \<leftarrow> line_breakpoint_hit env s filename lineno a;
          if hit then Some (s1, Some a) else find_line_breakpoint env s1 filename lineno le }"

definition line_breakpoints :: "sess_env \<Rightarrow> engine \<Rightarrow> string \<Rightarrow> int \<Rightarrow> string \<Rightarrow> nat \<Rightarrow> flow" where
  "line_breakpoints env e filename lineno mapped_path mapped_lineno =
     do { (s, found) \<leftarrow> find_line_breakpoint (se_dbg env) (en_dbg e) filename lineno (con_line_breakpoints (en_dbg e));
          case found of
            None \<Rightarrow> flow_on (put_dbg e s)
          | Some a \<Rightarrow> break_or_close env (put_dbg e s) ((plain_break mapped_path mapped_lineno)\<lparr>bk_brk_info := Some a\<rparr>) }"

text \<open>The reasons to break, in the order of the code.\<close>

definition statement_breaks :: "sess_env \<Rightarrow> engine \<Rightarrow> function_stack_entry \<Rightarrow> string \<Rightarrow> int \<Rightarrow> string \<Rightarrow> nat \<Rightarrow> flow" where
  "statement_breaks env e fse filename lineno mapped_path mapped_lineno =
     (let s = en_dbg e; here = plain_break mapped_path mapped_lineno in
      if con_do_break s
      then break_or_close env (put_dbg e (s\<lparr>con_do_break := False, con_pending_breakpoint := None\<rparr>))
             (here\<lparr>bk_brk_info := con_pending_breakpoint s\<rparr>)
      else if con_do_finish s \<and> finish_condition_met s fse False
      then break_or_close env (put_dbg e (s\<lparr>con_do_finish := False\<rparr>)) here
      else if con_do_next s \<and> next_condition_met s fse
      then break_or_close env (put_dbg e (s\<lparr>con_do_next := False\<rparr>)) here
      else if con_do_step s
      then break_or_close env (put_dbg e (s\<lparr>con_do_step := False\<rparr>)) here
      else if fse_has_line_breakpoints fse
      then line_breakpoints env e filename lineno mapped_path mapped_lineno
      else flow_on e)"

definition active_statement :: "sess_env \<Rightarrow> engine \<Rightarrow> string \<Rightarrow> int \<Rightarrow> flow" where
  "active_statement env e filename lineno =
     (case stack_tail (en_dbg e) of
        None \<Rightarrow> flow_on e
      | Some fse \<Rightarrow> do {
          (result, mapped_path, mapped_lineno) \<leftarrow> xdebug_debugger_map_remote_to_local (en_dbg e) filename lineno;
          if result = XDEBUG_PATH_MAP_RESULT_SKIP then flow_on e
          else do {
            default_return \<leftarrow> at_default_return (en_dbg e) fse;
            if default_return then flow_on e
            else statement_breaks env (put_dbg e ((en_dbg e)\<lparr>dbg_suppress_return_value_step := False\<rparr>)) fse
                   filename lineno mapped_path mapped_lineno } })"

definition connect_if_asked :: "sess_env \<Rightarrow> engine \<Rightarrow> flow" where
  "connect_if_asked env e =
     (if \<not> con_do_connect_to_client (en_dbg e) then flow_on e
      else flow_then
             (xdebug_debug_init_if_requested_on_connect_to_client env
                (put_dbg e ((en_dbg e)\<lparr>con_do_connect_to_client := False\<rparr>)))
             (xdebug_debug_init_if_requested_on_xdebug_break env))"

definition xdebug_debugger_statement_call :: "sess_env \<Rightarrow> engine \<Rightarrow> string \<Rightarrow> int \<Rightarrow> flow" where
  "xdebug_debugger_statement_call env e filename lineno =
     flow_then (connect_if_asked env e)
       (\<lambda>e1. if \<not> active e1 then flow_on e1 else active_statement env e1 filename lineno)"

section \<open>Exceptions and errors\<close>

text \<open>A breakpoint on every exception, or on the class or one of its parents.\<close>

fun find_exception_breakpoint :: "nat xdebug_hash \<Rightarrow> string list \<Rightarrow> nat option" where
  "find_exception_breakpoint h [] = None"
| "find_exception_breakpoint h (ce # parents) =
     (case xdebug_hash_find h ce of Some a \<Rightarrow> Some a | None \<Rightarrow> find_exception_breakpoint h parents)"

definition exception_breakpoint_for :: "nat xdebug_hash \<Rightarrow> string list \<Rightarrow> nat option" where
  "exception_breakpoint_for h classes =
     (case xdebug_hash_find h ''*'' of Some a \<Rightarrow> Some a | None \<Rightarrow> find_exception_breakpoint h classes)"

definition exception_code :: "string option \<Rightarrow> zval option \<Rightarrow> string option" where
  "exception_code code_str code =
     (case code_str of
        Some c \<Rightarrow> Some c
      | None \<Rightarrow> (case code of Some (Zval_string c) \<Rightarrow> Some (c_str c) | _ \<Rightarrow> None))"

text \<open>Counts a hit; breaks when it is the one that counts.\<close>

definition break_if_counted :: "sess_env \<Rightarrow> engine \<Rightarrow> nat \<Rightarrow> break_info \<Rightarrow> flow" where
  "break_if_counted env e a bk =
     do { (s, ok) \<leftarrow> count_hit (en_dbg e) a;
          if ok then break_or_close env (put_dbg e s) (bk\<lparr>bk_brk_info := Some a\<rparr>) else flow_on (put_dbg e s) }"

text \<open>\<open>classes\<close> are the names of the exception's class and of its parents, the class itself first.\<close>

definition exception_break :: "sess_env \<Rightarrow> engine \<Rightarrow> string list \<Rightarrow> zval option \<Rightarrow> string option \<Rightarrow> string option \<Rightarrow> flow" where
  "exception_break env e classes code code_str message =
     do { filename \<leftarrow> dbg_executed_filename (en_dbg e);
          (result, mapped_path, mapped_lineno) \<leftarrow>
            xdebug_debugger_map_remote_to_local (en_dbg e) filename (dbg_executed_lineno (en_dbg e));
          if result = XDEBUG_PATH_MAP_RESULT_SKIP then flow_on e
          else
            (let s = (en_dbg e)\<lparr>dbg_suppress_return_value_step := True\<rparr> in
             case exception_breakpoint_for (con_exception_breakpoints s) classes of
               None \<Rightarrow> flow_on (put_dbg e s)
             | Some a \<Rightarrow>
                 break_if_counted env (put_dbg e s) a
                   ((plain_break mapped_path mapped_lineno)
                      \<lparr>bk_exception := Some (c_str (hd classes)), bk_code := exception_code code_str code,
                       bk_message := Some (case message of Some m \<Rightarrow> c_str m | None \<Rightarrow> [])\<rparr>)) }"

definition xdebug_debugger_throw_exception_hook ::
  "sess_env \<Rightarrow> engine \<Rightarrow> string list \<Rightarrow> zval option \<Rightarrow> string option \<Rightarrow> string option \<Rightarrow> flow" where
  "xdebug_debugger_throw_exception_hook env e classes code code_str message =
     flow_then (xdebug_debug_init_if_requested_on_error env e)
       (\<lambda>e1. if \<not> active e1 \<or> \<not> dbg_breakpoints_allowed (en_dbg e1) then flow_on e1
             else exception_break env e1 classes code code_str message)"

definition notify_error :: "sess_env \<Rightarrow> engine \<Rightarrow> string \<Rightarrow> nat \<Rightarrow> int \<Rightarrow> string \<Rightarrow> string \<Rightarrow> engine option" where
  "notify_error env e path lineno ty error_type_str buffer =
     (if con_send_notifications (en_dbg e) \<noteq> 0 \<and> \<not> con_inhibit_notifications (en_dbg e)
      then map_option (put_dbg e)
             (xdebug_dbgp_notification (se_dbg env) (en_dbg e) (Some path) lineno ty (Some error_type_str) (Some buffer))
      else Some e)"

text \<open>A breakpoint on the kind of error counts before the one on everything.\<close>

definition error_breakpoint_for :: "nat xdebug_hash \<Rightarrow> string \<Rightarrow> nat option" where
  "error_breakpoint_for h error_type_str =
     (case xdebug_hash_find h error_type_str of Some a \<Rightarrow> Some a | None \<Rightarrow> xdebug_hash_find h ''*'')"

definition error_break :: "sess_env \<Rightarrow> engine \<Rightarrow> string \<Rightarrow> int \<Rightarrow> int \<Rightarrow> string \<Rightarrow> string \<Rightarrow> flow" where
  "error_break env e error_filename error_lineno ty error_type_str buffer =
     do { (result, mapped_path, mapped_lineno) \<leftarrow> xdebug_debugger_map_remote_to_local (en_dbg e) error_filename error_lineno;
          if result = XDEBUG_PATH_MAP_RESULT_SKIP then flow_on e
          else do {
            e1 \<leftarrow> notify_error env e mapped_path mapped_lineno ty error_type_str buffer;
            case error_breakpoint_for (con_exception_breakpoints (en_dbg e1)) error_type_str of
              None \<Rightarrow> flow_on e1
            | Some a \<Rightarrow>
                break_if_counted env e1 a
                  ((plain_break mapped_path mapped_lineno)
                     \<lparr>bk_exception := Some error_type_str, bk_code := Some (dec_int ty), bk_message := Some buffer\<rparr>) } }"

definition xdebug_debugger_error_cb :: "sess_env \<Rightarrow> engine \<Rightarrow> string \<Rightarrow> int \<Rightarrow> int \<Rightarrow> string \<Rightarrow> string \<Rightarrow> flow" where
  "xdebug_debugger_error_cb env e error_filename error_lineno ty error_type_str buffer =
     flow_then (xdebug_debug_init_if_requested_on_error env e)
       (\<lambda>e1. if \<not> active e1 \<or> \<not> dbg_breakpoints_allowed (en_dbg e1) then flow_on e1
             else error_break env e1 error_filename error_lineno ty error_type_str buffer)"

section \<open>Functions\<close>

definition bit_set :: "int \<Rightarrow> int \<Rightarrow> bool" where
  "bit_set v flag \<longleftrightarrow> v div flag mod 2 = 1"

text \<open>
  The key a function is looked up by.  The length that goes with it is that of the whole names, so a
  name with a NUL leaves bytes of the key that nothing has written: \<open>None\<close>.  The inner \<open>None\<close> is
  an entry that is no function.
\<close>

definition breakpoint_key :: "function_stack_entry \<Rightarrow> int \<Rightarrow> string option option" where
  "breakpoint_key fse breakpoint_type =
     (let c = (if bit_set breakpoint_type XDEBUG_BREAKPOINT_TYPE_CALL then ''C/'' else ''R/'');
          key = (\<lambda>cls m. if is_cstr cls \<and> is_cstr m then Some (Some (c @ cls @ m)) else None)
      in if fse_type fse = XFUNC_NORMAL then do { m \<leftarrow> fse_function fse; key [] m }
         else if fse_type fse = XFUNC_MEMBER \<or> fse_type fse = XFUNC_STATIC_MEMBER
         then do { cls \<leftarrow> fse_object_class fse; m \<leftarrow> fse_function fse; key (cls @ ''::'') m }
         else Some None)"

text \<open>The result: the state, whether all is well, and whether the script was abandoned.\<close>

type_synonym check = "(engine \<times> bool \<times> bool) option"

definition remote_check :: "sess_env \<Rightarrow> engine \<Rightarrow> break_info \<Rightarrow> check" where
  "remote_check env e bk =
     map_option (\<lambda>(e1, r). case r of Loop_bailout \<Rightarrow> (e1, True, True) | Loop_returned n \<Rightarrow> (e1, n \<noteq> 0, False))
       (remote_breakpoint env e bk)"

definition function_breakpoint_hit ::
  "sess_env \<Rightarrow> engine \<Rightarrow> function_stack_entry \<Rightarrow> int \<Rightarrow> php_value option \<Rightarrow> nat \<Rightarrow> string \<Rightarrow> nat \<Rightarrow> check" where
  "function_breakpoint_hit env e fse breakpoint_type return_value a mapped_path mapped_lineno =
     do { b \<leftarrow> brk_at (en_dbg e) a;
          if bi_disabled b \<or> bi_function_break_type b \<noteq> breakpoint_type mod (XDEBUG_BREAKPOINT_TYPES_MASK + 1)
          then Some (e, True, False)
          else do {
            (s, ok) \<leftarrow> count_hit (en_dbg e) a;
            if \<not> ok then Some (put_dbg e s, True, False)
            else if \<not> fse_user_defined fse \<or> bit_set breakpoint_type XDEBUG_BREAKPOINT_TYPE_RETURN
            then remote_check env (put_dbg e s)
                   ((plain_break mapped_path mapped_lineno)\<lparr>bk_brk_info := Some a, bk_return_value := return_value\<rparr>)
            else Some (put_dbg e (s\<lparr>con_do_break := True, con_pending_breakpoint := Some a\<rparr>), True, False) } }"

definition handle_function_breakpoints ::
  "sess_env \<Rightarrow> engine \<Rightarrow> function_stack_entry \<Rightarrow> int \<Rightarrow> php_value option \<Rightarrow> check" where
  "handle_function_breakpoints env e fse breakpoint_type return_value =
     (let s = en_dbg e; fine = Some (e, True, False) in
      if h_size (con_function_breakpoints s) = 0 then fine
      else do {
        (result, mapped_path, mapped_lineno) \<leftarrow> xdebug_debugger_map_remote_to_local s (fse_filename fse) (fse_lineno fse);
        if result = XDEBUG_PATH_MAP_RESULT_SKIP then fine
        else do {
          key \<leftarrow> breakpoint_key fse breakpoint_type;
          case key of
            None \<Rightarrow> fine
          | Some tmp_name \<Rightarrow>
              (case xdebug_hash_find (con_function_breakpoints s) tmp_name of
                 None \<Rightarrow> fine
               | Some a \<Rightarrow>
                   function_breakpoint_hit env e fse breakpoint_type return_value a mapped_path mapped_lineno) } })"

text \<open>
  Whether some line breakpoint lies in the lines of the function.  A breakpoint without a file name is
  a NULL dereference.
\<close>

definition brk_in_function :: "debugger \<Rightarrow> function_stack_entry \<Rightarrow> brk_info \<Rightarrow> bool option" where
  "brk_in_function s fse b =
     (case dbg_executed_filename s of
        None \<Rightarrow> Some False
      | Some executed_filename \<Rightarrow>
          (let in_lines = uint_of_int (bi_resolved_lineno b) \<ge> oa_line_start (fse_op_array fse) \<and>
                          uint_of_int (bi_resolved_lineno b) \<le> oa_line_end (fse_op_array fse)
           in if fse_type fse = XFUNC_EVAL
              then (case xdebug_debugger_check_evaled_code s (Some executed_filename) of
                      None \<Rightarrow> Some False
                    | Some resolved_filename \<Rightarrow>
                        map_option (\<lambda>filename. filename = resolved_filename \<and> in_lines) (bi_filename b))
              else map_option (\<lambda>filename. filename = executed_filename \<and> in_lines) (bi_filename b)))"

fun some_brk_in_function :: "debugger \<Rightarrow> function_stack_entry \<Rightarrow> nat list \<Rightarrow> bool option" where
  "some_brk_in_function s fse [] = Some False"
| "some_brk_in_function s fse (a # le) =
     do { b \<leftarrow> brk_at s a;
          found \<leftarrow> brk_in_function s fse b;
          if found then Some True else some_brk_in_function s fse le }"

definition mark_fse_as_having_line_breakpoints :: "debugger \<Rightarrow> function_stack_entry \<Rightarrow> function_stack_entry option" where
  "mark_fse_as_having_line_breakpoints s fse =
     (if con_line_breakpoints s = [] \<or> \<not> fse_user_defined fse then Some fse
      else map_option (\<lambda>found. if found then xdebug_debugger_set_has_line_breakpoints fse else fse)
             (some_brk_in_function s fse (con_line_breakpoints s)))"

text \<open>A break at the return of a function, to show its return value, when stepping.\<close>

definition return_value_break ::
  "sess_env \<Rightarrow> engine \<Rightarrow> function_stack_entry \<Rightarrow> php_value \<Rightarrow> string \<Rightarrow> nat \<Rightarrow> check" where
  "return_value_break env e fse return_value mapped_path mapped_lineno =
     (let s = en_dbg e; bk = (plain_break mapped_path mapped_lineno)\<lparr>bk_return_value := Some return_value\<rparr> in
      if con_do_step s then remote_check env (put_dbg e (s\<lparr>con_do_step := False\<rparr>)) bk
      else if con_do_finish s \<and> finish_condition_met s fse True
      then remote_check env (put_dbg e (s\<lparr>con_do_finish := False\<rparr>)) bk
      else Some (e, True, False))"

definition skipped_at_executed :: "debugger \<Rightarrow> bool option" where
  "skipped_at_executed s =
     (case dbg_executed_filename s of
        None \<Rightarrow> Some False
      | Some f \<Rightarrow>
          map_option (\<lambda>(result, p, l). result = XDEBUG_PATH_MAP_RESULT_SKIP)
            (xdebug_debugger_map_remote_to_local s f (dbg_executed_lineno s)))"

definition handle_return_value :: "sess_env \<Rightarrow> engine \<Rightarrow> function_stack_entry \<Rightarrow> int \<Rightarrow> php_value option \<Rightarrow> check" where
  "handle_return_value env e fse breakpoint_type return_value =
     (case return_value of
        None \<Rightarrow> Some (e, True, False)
      | Some v \<Rightarrow>
          (let s = en_dbg e in
           if con_include_return_value s = 0 \<or> \<not> bit_set breakpoint_type XDEBUG_BREAKPOINT_TYPE_RETURN \<or>
              dbg_suppress_return_value_step s
           then Some (e, True, False)
           else do {
             skipped \<leftarrow> skipped_at_executed s;
             if skipped then Some (e, True, False)
             else do {
               (result, mapped_path, mapped_lineno) \<leftarrow> xdebug_debugger_map_remote_to_local s (fse_filename fse) (fse_lineno fse);
               if result = XDEBUG_PATH_MAP_RESULT_SKIP then Some (e, True, False)
               else return_value_break env e fse v mapped_path mapped_lineno } }))"

text \<open>The function is the top entry of the stack.\<close>

definition put_top :: "debugger \<Rightarrow> function_stack_entry \<Rightarrow> debugger" where
  "put_top s fse = s\<lparr>dbg_stack := butlast (dbg_stack s) @ [fse]\<rparr>"

definition handle_breakpoints :: "sess_env \<Rightarrow> engine \<Rightarrow> int \<Rightarrow> php_value option \<Rightarrow> check" where
  "handle_breakpoints env e breakpoint_type return_value =
     do { fse0 \<leftarrow> stack_tail (en_dbg e);
          fse \<leftarrow> (if fse_has_line_breakpoints fse0 then Some fse0
                 else mark_fse_as_having_line_breakpoints (en_dbg e) fse0);
          (e1, ok, bail) \<leftarrow>
            handle_function_breakpoints env (put_dbg e (put_top (en_dbg e) fse)) fse breakpoint_type return_value;
          if bail \<or> \<not> ok then Some (e1, ok, bail)
          else handle_return_value env e1 fse breakpoint_type return_value }"

definition xdebug_debugger_handle_breakpoints :: "sess_env \<Rightarrow> engine \<Rightarrow> int \<Rightarrow> php_value option \<Rightarrow> flow" where
  "xdebug_debugger_handle_breakpoints env e breakpoint_type return_value =
     (if active e \<and> dbg_breakpoints_allowed (en_dbg e)
      then map_option
             (\<lambda>(e1, ok, bail).
                if bail then (e1, True)
                else (if ok then e1 else xdebug_mark_debug_connection_not_active e1, False))
             (handle_breakpoints env e breakpoint_type return_value)
      else flow_on e)"

end
