(* ===== verification/Xd_Step_Spec.thy ===== *)
theory Xd_Step_Spec
  imports Xd_Stepping
begin

text \<open>
  What the breaks of \<open>Xd_Stepping\<close> promise: the counting of hits against the options \<open>-h\<close> and \<open>-o\<close> of a
  breakpoint, where the three step commands break next, and two cases the code does not handle (the state
  of an exception breakpoint, a pending breakpoint that was removed).
\<close>

section \<open>Counting hits\<close>

text \<open>What the first hits of a breakpoint answer, and what the options of the client say about the hit of a number.\<close>

fun hits :: "nat \<Rightarrow> brk_info \<Rightarrow> bool list" where
  "hits 0 b = []"
| "hits (Suc n) b = (case xdebug_handle_hit_value b of (b1, ok) \<Rightarrow> ok # hits n b1)"

definition hit_counts :: "brk_info \<Rightarrow> int \<Rightarrow> bool" where
  "hit_counts b k \<longleftrightarrow> bi_hit_value b = 0 \<or>
     (case bi_hit_condition b of
        XDEBUG_HIT_GREATER_EQUAL \<Rightarrow> bi_hit_value b \<le> k
      | XDEBUG_HIT_EQUAL \<Rightarrow> k = bi_hit_value b
      | XDEBUG_HIT_MOD \<Rightarrow> bi_hit_value b dvd k
      | XDEBUG_HIT_DISABLED \<Rightarrow> True)"

lemma hits_count:
  "0 \<le> bi_hit_count b \<Longrightarrow> bi_hit_count b + int n < 2 ^ 31 \<Longrightarrow>
   hits n b = map (\<lambda>i. hit_counts b (bi_hit_count b + 1 + int i)) [0..<n]"
proof (induction n arbitrary: b)
  case (Suc n)
  obtain b1 ok where h: "xdebug_handle_hit_value b = (b1, ok)" by fastforce
  have t: "to_int32 (bi_hit_count b + 1) = bi_hit_count b + 1" using Suc.prems by (simp add: to_int32_def)
  have b1: "bi_hit_count b1 = bi_hit_count b + 1" "bi_hit_value b1 = bi_hit_value b" "bi_hit_condition b1 = bi_hit_condition b"
    "ok = hit_counts b (bi_hit_count b + 1)"
    using h t by (auto simp: xdebug_handle_hit_value_def Let_def hit_counts_def dvd_eq_mod_eq_0 split: if_splits hit_condition.splits)
  have "hits n b1 = map (\<lambda>i. hit_counts b1 (bi_hit_count b1 + 1 + int i)) [0..<n]"
    using Suc b1 by auto
  also have "hit_counts b1 = hit_counts b"
    by (cases "bi_hit_condition b") (simp_all add: fun_eq_iff hit_counts_def b1)
  also have "map (\<lambda>i. hit_counts b (bi_hit_count b1 + 1 + int i)) [0..<n] =
      map (\<lambda>i. hit_counts b (bi_hit_count b + 1 + int i)) (map Suc [0..<n])"
    by (simp add: b1 algebra_simps)
  finally have "hits n b1 = map (\<lambda>i. hit_counts b (bi_hit_count b + 1 + int i)) (map Suc [0..<n])" .
  then show ?case using h b1(4) by (simp only: hits.simps prod.case map_Suc_upt upt_conv_Cons list.map) simp
qed simp

section \<open>Stepping\<close>

text \<open>
  A statement the debugger looks at: a session, no wish to connect, a file that is not skipped, and not the
  implicit return of an included file.
\<close>

definition at_statement :: "engine \<Rightarrow> string \<Rightarrow> int \<Rightarrow> function_stack_entry \<Rightarrow> string \<Rightarrow> nat \<Rightarrow> bool" where
  "at_statement e filename lineno fse path line \<longleftrightarrow>
     active e \<and> \<not> con_do_connect_to_client (en_dbg e) \<and> stack_tail (en_dbg e) = Some fse \<and>
     at_default_return (en_dbg e) fse = Some False \<and>
     (\<exists>r. xdebug_debugger_map_remote_to_local (en_dbg e) filename lineno = Some (r, path, line) \<and> r \<noteq> XDEBUG_PATH_MAP_RESULT_SKIP)"

lemma statement_at:
  "at_statement e filename lineno fse path line \<Longrightarrow>
   xdebug_debugger_statement_call env e filename lineno =
   statement_breaks env (put_dbg e ((en_dbg e)\<lparr>dbg_suppress_return_value_step := False\<rparr>)) fse filename lineno path line"
  by (auto simp: at_statement_def xdebug_debugger_statement_call_def connect_if_asked_def active_statement_def)

text \<open>What the client asked for, which the script does not change.\<close>

definition same_request :: "debugger \<Rightarrow> debugger \<Rightarrow> bool" where
  "same_request s s1 \<longleftrightarrow>
     con_do_break s1 = con_do_break s \<and> con_do_step s1 = con_do_step s \<and> con_do_next s1 = con_do_next s \<and>
     con_do_finish s1 = con_do_finish s \<and> con_next_level s1 = con_next_level s \<and> con_next_stack s1 = con_next_stack s \<and>
     con_finish_level s1 = con_finish_level s \<and> con_finish_func_nr s1 = con_finish_func_nr s"

text \<open>A break that takes back the request by \<open>done\<close>.\<close>

definition break_here :: "sess_env \<Rightarrow> engine \<Rightarrow> (debugger \<Rightarrow> debugger) \<Rightarrow> string \<Rightarrow> nat \<Rightarrow> flow" where
  "break_here env e done path line =
     break_or_close env (put_dbg e (done ((en_dbg e)\<lparr>dbg_suppress_return_value_step := False\<rparr>))) (plain_break path line)"

lemma step_into_breaks:
  assumes "xdebug_dbgp_handle_step_into s r = Some (s1, r1)" "same_request s1 (en_dbg e)" "\<not> con_do_break s"
    "at_statement e filename lineno fse path line"
  shows "xdebug_debugger_statement_call env e filename lineno = break_here env e (\<lambda>s. s\<lparr>con_do_step := False\<rparr>) path line"
proof -
  have f: "\<not> con_do_break (en_dbg e)" "\<not> con_do_finish (en_dbg e)" "\<not> con_do_next (en_dbg e)" "con_do_step (en_dbg e)"
    using assms(1-3) by (auto simp: xdebug_dbgp_handle_step_into_def same_request_def)
  show ?thesis
    unfolding statement_at [OF assms(4)] break_here_def using f by (simp add: statement_breaks_def Let_def put_dbg_def)
qed

lemma step_over_breaks:
  assumes "xdebug_dbgp_handle_step_over s r = Some (s1, r1)" "same_request s1 (en_dbg e)" "\<not> con_do_break s"
    "stack_tail s = Some caller" "at_statement e filename lineno fse path line" "\<not> fse_has_line_breakpoints fse"
  shows "xdebug_debugger_statement_call env e filename lineno =
    (if dbg_stack_id s = dbg_stack_id (en_dbg e) \<and> fse_level fse \<le> fse_level caller
     then break_here env e (\<lambda>s. s\<lparr>con_do_next := False\<rparr>) path line
     else flow_on (put_dbg e ((en_dbg e)\<lparr>dbg_suppress_return_value_step := False\<rparr>)))"
proof -
  have f: "\<not> con_do_break (en_dbg e)" "\<not> con_do_finish (en_dbg e)" "con_do_next (en_dbg e)" "\<not> con_do_step (en_dbg e)"
    "con_next_level (en_dbg e) = fse_level caller" "con_next_stack (en_dbg e) = Some (dbg_stack_id s)"
    using assms(1-4) by (auto simp: xdebug_dbgp_handle_step_over_def same_request_def Let_def stack_tail_def split: if_splits)
  show ?thesis
    unfolding statement_at [OF assms(5)] break_here_def
    using f assms(6) by (simp add: statement_breaks_def Let_def put_dbg_def next_condition_met_def)
qed

lemma step_out_breaks:
  assumes "xdebug_dbgp_handle_step_out s r = Some (s1, r1)" "same_request s1 (en_dbg e)" "\<not> con_do_break s"
    "stack_tail s = Some callee" "at_statement e filename lineno fse path line" "\<not> fse_has_line_breakpoints fse"
  shows "xdebug_debugger_statement_call env e filename lineno =
    (if fse_level fse < fse_level callee \<or> fse_level fse = fse_level callee \<and> fse_function_nr callee < fse_function_nr fse
     then break_here env e (\<lambda>s. s\<lparr>con_do_finish := False\<rparr>) path line
     else flow_on (put_dbg e ((en_dbg e)\<lparr>dbg_suppress_return_value_step := False\<rparr>)))"
proof -
  have f: "\<not> con_do_break (en_dbg e)" "con_do_finish (en_dbg e)" "\<not> con_do_next (en_dbg e)" "\<not> con_do_step (en_dbg e)"
    "con_finish_level (en_dbg e) = fse_level callee" "con_finish_func_nr (en_dbg e) = fse_function_nr callee"
    using assms(1-4) by (auto simp: xdebug_dbgp_handle_step_out_def same_request_def Let_def stack_tail_def split: if_splits)
  show ?thesis
    unfolding statement_at [OF assms(5)] break_here_def
    using f assms(6) by (simp add: statement_breaks_def Let_def put_dbg_def finish_condition_met_def)
qed

section \<open>Exception breakpoints\<close>

text \<open>The state of a breakpoint plays no part at an exception.\<close>

lemma exception_break_ignores_state:
  assumes "exception_breakpoint_for (con_exception_breakpoints (en_dbg e)) classes = Some a"
    "brk_at (en_dbg e) a = Some b" "bi_hit_value b = 0" "dbg_executed_filename (en_dbg e) = Some f"
    "xdebug_debugger_map_remote_to_local (en_dbg e) f (dbg_executed_lineno (en_dbg e)) = Some (r, path, line)"
    "r \<noteq> XDEBUG_PATH_MAP_RESULT_SKIP"
  shows "\<exists>s bk. exception_break env e classes code code_str message = break_or_close env (put_dbg e s) bk \<and>
    bk_brk_info bk = Some a \<and> bk_exception bk = Some (c_str (hd classes))"
proof -
  have "snd (xdebug_handle_hit_value b)" using assms(3) by (simp add: xdebug_handle_hit_value_def Let_def)
  then obtain b1 where h: "xdebug_handle_hit_value b = (b1, True)" by (cases "xdebug_handle_hit_value b") simp
  let ?s = "(en_dbg e)\<lparr>dbg_suppress_return_value_step := True\<rparr>"
  have "con_heap ?s a = Some b" using assms(2) by (simp add: brk_at_def)
  then have c: "count_hit ?s a = Some (?s\<lparr>con_heap := (con_heap ?s)(a \<mapsto> b1)\<rparr>, True)"
    by (simp only: count_hit_def brk_put_def brk_at_def Option.bind.simps h Let_def prod.case if_False option.distinct)
  let ?bk = "(plain_break path line)\<lparr>bk_exception := Some (c_str (hd classes)), bk_code := exception_code code_str code,
       bk_message := Some (case message of Some m \<Rightarrow> c_str m | None \<Rightarrow> [])\<rparr>"
  have "exception_break env e classes code code_str message = break_if_counted env (put_dbg e ?s) a ?bk"
    using assms(6) by (simp add: exception_break_def assms(1,4,5) Let_def)
  also have "\<dots> = break_or_close env (put_dbg e (?s\<lparr>con_heap := (con_heap ?s)(a \<mapsto> b1)\<rparr>)) (?bk\<lparr>bk_brk_info := Some a\<rparr>)"
    using c by (simp add: break_if_counted_def put_dbg_def)
  finally show ?thesis by (intro exI [of _ "?s\<lparr>con_heap := (con_heap ?s)(a \<mapsto> b1)\<rparr>"] exI [of _ "?bk\<lparr>bk_brk_info := Some a\<rparr>"]) simp
qed

section \<open>The pending breakpoint\<close>

lemma pending_freed:
  assumes "con_do_break (en_dbg e)" "con_pending_breakpoint (en_dbg e) = Some a" "brk_at (en_dbg e) a = None"
    "con_breakpoint_details (en_dbg e) \<noteq> 0"
  shows "statement_breaks env e fse filename lineno path line = None"
proof -
  have "breakpoint_brk_info_add d s x (Some a) = None" if "brk_at s a = None" for d s x
    using that by (simp add: breakpoint_brk_info_add_def)
  then have "break_message (se_dbg env) s bk = None"
    if "brk_at s a = None" "con_breakpoint_details s \<noteq> 0" "bk_brk_info bk = Some a" for s bk
    using that by (auto simp: break_message_def Let_def Option.bind_eq_None_conv split: option.splits)
  with assms show ?thesis
    by (simp add: statement_breaks_def Let_def break_or_close_def remote_breakpoint_def xdebug_dbgp_breakpoint_def
        put_dbg_def brk_at_def)
qed

end
