(* ===== verification/Xd_Store.thy ===== *)
theory Xd_Store
  imports Xd_Dbgp_Loop Xd_Stepping
begin

text \<open>
  The ownership of breakpoints, \<open>src/debugger/handler_dbgp.c\<close> with \<open>handlers.c\<close>: a breakpoint is held by
  the list of line breakpoints, by the table of function breakpoints or by the table of exception
  breakpoints, by one of them, once, and is live while it is held (\<open>brk_store_ok\<close>).  Every command keeps this,
  so that the release of the tables at the end of a session frees each breakpoint exactly once.
\<close>

section \<open>Tables\<close>

text \<open>A table whose destructor runs and which holds each address under one key.\<close>

definition table_ok :: "nat xdebug_hash \<Rightarrow> bool" where
  "table_ok h \<longleftrightarrow> hash_ok h \<and> h_dtor h \<and> h_destroyed h = [] \<and> inj_on (hash_map h) (dom (hash_map h))"

lemma hash_clear [simp]:
  "hash_ok (h\<lparr>h_destroyed := ds\<rparr>) \<longleftrightarrow> hash_ok h" "hash_map (h\<lparr>h_destroyed := ds\<rparr>) = hash_map h"
  by (simp_all add: hash_ok_def chains_ok_def hash_map_def fun_eq_iff)

lemma inj_on_map_upd:
  "inj_on m (dom m) \<Longrightarrow> a \<notin> ran m \<Longrightarrow> inj_on (m(k \<mapsto> a)) (dom (m(k \<mapsto> a)))"
  by (auto simp: inj_on_def ran_def dom_def)

lemma inj_on_map_del: "inj_on m (dom m) \<Longrightarrow> inj_on (m(k := None)) (dom (m(k := None)))"
  by (auto simp: inj_on_def)

lemma ran_del: "inj_on m (dom m) \<Longrightarrow> ran (m(k := None)) = ran m - (case m k of None \<Rightarrow> {} | Some v \<Rightarrow> {v})"
proof (rule set_eqI)
  fix x assume i: "inj_on m (dom m)"
  have "x \<in> ran (m(k := None)) \<longleftrightarrow> (\<exists>a. a \<noteq> k \<and> m a = Some x)" by (auto simp: ran_def)
  also have "\<dots> \<longleftrightarrow> x \<in> ran m - (case m k of None \<Rightarrow> {} | Some v \<Rightarrow> {v})"
  proof (cases "m k")
    case None
    then show ?thesis by (auto simp: ran_def) (metis option.distinct(1))
  next
    case (Some v)
    have k: "a = k" if "m a = Some v" for a using inj_onD [OF i, of a k] Some that by (simp add: domIff)
    have "(\<exists>a. a \<noteq> k \<and> m a = Some x) \<longleftrightarrow> (\<exists>a. m a = Some x) \<and> x \<noteq> v"
    proof
      assume "\<exists>a. a \<noteq> k \<and> m a = Some x"
      with k show "(\<exists>a. m a = Some x) \<and> x \<noteq> v" by blast
    next
      assume "(\<exists>a. m a = Some x) \<and> x \<noteq> v"
      with Some show "\<exists>a. a \<noteq> k \<and> m a = Some x" by (metis option.inject)
    qed
    with Some show ?thesis by (simp add: ran_def)
  qed
  finally show "x \<in> ran (m(k := None)) \<longleftrightarrow> x \<in> ran m - (case m k of None \<Rightarrow> {} | Some v \<Rightarrow> {v})" .
qed

lemma ran_upd: "inj_on m (dom m) \<Longrightarrow> ran (m(k \<mapsto> a)) = insert a (ran m - (case m k of None \<Rightarrow> {} | Some v \<Rightarrow> {v}))"
proof -
  assume "inj_on m (dom m)"
  moreover have "ran (m(k \<mapsto> a)) = insert a (ran (m(k := None)))" by (auto simp: ran_def)
  ultimately show ?thesis by (simp add: ran_del)
qed

lemma table_add:
  assumes "table_ok h" "a \<notin> ran (hash_map h)" "h' = xdebug_hash_add h key a"
  shows "table_ok (h'\<lparr>h_destroyed := []\<rparr>)" "distinct (h_destroyed h')" "set (h_destroyed h') \<subseteq> ran (hash_map h)"
    "ran (hash_map h') = insert a (ran (hash_map h) - set (h_destroyed h'))"
proof -
  have ok: "hash_ok h" "h_dtor h" "h_destroyed h = []" "inj_on (hash_map h) (dom (hash_map h))"
    using assms(1) by (simp_all add: table_ok_def)
  note a = add_hash_map [OF ok(1), where s = "Some key" and n = 0 and p = a, folded xdebug_hash_add_def, folded assms(3)]
  let ?k = "KEY_CREATE (Some key) 0"
  show "table_ok (h'\<lparr>h_destroyed := []\<rparr>)"
    using a ok assms(2) inj_on_map_upd [OF ok(4) assms(2), of ?k] by (simp add: table_ok_def)
  show "distinct (h_destroyed h')" "set (h_destroyed h') \<subseteq> ran (hash_map h)"
    using a(4) ok by (auto simp: ran_def split: option.splits)
  show "ran (hash_map h') = insert a (ran (hash_map h) - set (h_destroyed h'))"
    using a(2,4) ran_upd [OF ok(4), of ?k a] ok by (auto split: option.splits)
qed

lemma table_delete:
  assumes "table_ok h" "h' = fst (xdebug_hash_delete h key)"
  shows "table_ok (h'\<lparr>h_destroyed := []\<rparr>)" "distinct (h_destroyed h')" "set (h_destroyed h') \<subseteq> ran (hash_map h)"
    "ran (hash_map h') = ran (hash_map h) - set (h_destroyed h')"
proof -
  have ok: "hash_ok h" "h_dtor h" "h_destroyed h = []" "inj_on (hash_map h) (dom (hash_map h))"
    using assms(1) by (simp_all add: table_ok_def)
  note a = delete_hash_map [OF ok(1), where s = "Some key" and n = 0, folded xdebug_hash_delete_def, folded assms(2)]
  let ?k = "KEY_CREATE (Some key) 0"
  have d: "h_dtor h'"
    using ok(2) by (simp add: assms(2) xdebug_hash_delete_def xdebug_hash_extended_delete_def Let_def split: option.split)
  show "table_ok (h'\<lparr>h_destroyed := []\<rparr>)"
    using a ok d inj_on_map_del [OF ok(4), of ?k] by (simp add: table_ok_def)
  show "distinct (h_destroyed h')" "set (h_destroyed h') \<subseteq> ran (hash_map h)"
    using a(4) ok by (auto simp: ran_def split: option.splits)
  show "ran (hash_map h') = ran (hash_map h) - set (h_destroyed h')"
    using a(2,4) ran_del [OF ok(4), of ?k] ok by (auto split: option.splits)
qed

section \<open>The store\<close>

abbreviation functions_of :: "'a brk_store_scheme \<Rightarrow> nat set" where
  "functions_of s \<equiv> ran (hash_map (con_function_breakpoints s))"

abbreviation exceptions_of :: "'a brk_store_scheme \<Rightarrow> nat set" where
  "exceptions_of s \<equiv> ran (hash_map (con_exception_breakpoints s))"

text \<open>The three holders share nothing, and hold live addresses; addresses to come are free.\<close>

definition holders_ok :: "nat set \<Rightarrow> nat set \<Rightarrow> nat set \<Rightarrow> nat set \<Rightarrow> nat \<Rightarrow> bool" where
  "holders_ok l f e live n \<longleftrightarrow>
     l \<inter> f = {} \<and> l \<inter> e = {} \<and> f \<inter> e = {} \<and> l \<union> f \<union> e \<subseteq> live \<and> (\<forall>a \<ge> n. a \<notin> live)"

definition brk_store_ok :: "'a brk_store_scheme \<Rightarrow> bool" where
  "brk_store_ok s \<longleftrightarrow>
     table_ok (con_function_breakpoints s) \<and> table_ok (con_exception_breakpoints s) \<and> distinct (con_line_breakpoints s) \<and>
     holders_ok (set (con_line_breakpoints s)) (functions_of s) (exceptions_of s) (dom (con_heap s)) (con_next_addr s)"

text \<open>A block that no holder has.\<close>

definition unheld :: "'a brk_store_scheme \<Rightarrow> nat \<Rightarrow> bool" where
  "unheld s a \<longleftrightarrow> a \<in> dom (con_heap s) - set (con_line_breakpoints s) - functions_of s - exceptions_of s"

lemma dtor_all_distinct:
  "distinct as \<Longrightarrow> set as \<subseteq> dom (con_heap s) \<Longrightarrow>
   brk_dtor_all s as = Some (s\<lparr>con_heap := con_heap s |` (- set as)\<rparr>)"
proof (induction as arbitrary: s)
  case Nil
  have "con_heap s |` UNIV = con_heap s" by (simp add: fun_eq_iff)
  then show ?case by simp
next
  case (Cons a as)
  let ?s = "s\<lparr>con_heap := (con_heap s)(a := None)\<rparr>"
  have d: "xdebug_brk_info_dtor s a = Some ?s" using Cons.prems by (auto simp: xdebug_brk_info_dtor_def)
  have "brk_dtor_all ?s as = Some (?s\<lparr>con_heap := con_heap ?s |` (- set as)\<rparr>)"
    using Cons.prems by (intro Cons.IH) auto
  moreover have "((con_heap s)(a := None)) |` (- set as) = con_heap s |` (- set (a # as))"
    by (auto simp: restrict_map_def fun_eq_iff)
  ultimately show ?case using d by simp
qed

lemma store_new: "brk_store_ok s \<Longrightarrow> brk_new s = (s1, a) \<Longrightarrow> brk_store_ok s1 \<and> unheld s1 a"
proof -
  assume s: "brk_store_ok s" and n: "brk_new s = (s1, a)"
  then have a: "a = con_next_addr s" "a \<notin> dom (con_heap s)" by (auto simp: brk_new_def brk_store_ok_def holders_ok_def)
  have "dom (con_heap s1) = insert a (dom (con_heap s))" "con_next_addr s1 = a + 1"
    "con_line_breakpoints s1 = con_line_breakpoints s" "con_function_breakpoints s1 = con_function_breakpoints s"
    "con_exception_breakpoints s1 = con_exception_breakpoints s"
    using n by (auto simp: brk_new_def)
  with s a show ?thesis by (auto simp: brk_store_ok_def unheld_def holders_ok_def simp del: domIff)
qed

lemma put_same_store:
  assumes "brk_put s a b = Some s1"
  shows "dom (con_heap s1) = dom (con_heap s)" "con_next_addr s1 = con_next_addr s"
    "con_line_breakpoints s1 = con_line_breakpoints s" "con_function_breakpoints s1 = con_function_breakpoints s"
    "con_exception_breakpoints s1 = con_exception_breakpoints s"
  using assms by (auto simp: brk_put_def split: if_splits)

lemma store_put: "brk_put s a b = Some s1 \<Longrightarrow> brk_store_ok s1 \<longleftrightarrow> brk_store_ok s" "brk_put s a b = Some s1 \<Longrightarrow> unheld s1 c \<longleftrightarrow> unheld s c"
  by (simp_all add: brk_store_ok_def unheld_def put_same_store [of s a b s1] del: domIff)

lemma store_free: "brk_store_ok s \<Longrightarrow> unheld s a \<Longrightarrow> xdebug_brk_info_dtor s a = Some s1 \<Longrightarrow> brk_store_ok s1"
proof -
  assume s: "brk_store_ok s" "unheld s a" and d: "xdebug_brk_info_dtor s a = Some s1"
  then have s1: "s1 = s\<lparr>con_heap := (con_heap s)(a := None)\<rparr>" by (simp add: xdebug_brk_info_dtor_def split: if_splits)
  have "holders_ok (set (con_line_breakpoints s)) (functions_of s) (exceptions_of s) (dom (con_heap s) - {a}) (con_next_addr s)"
    using s by (auto simp: brk_store_ok_def unheld_def holders_ok_def simp del: domIff)
  with s s1 show ?thesis by (simp add: brk_store_ok_def del: domIff)
qed

lemma store_push_line:
  "brk_store_ok s \<Longrightarrow> unheld s a \<Longrightarrow> brk_store_ok (s\<lparr>con_line_breakpoints := con_line_breakpoints s @ [a]\<rparr>)"
  by (auto simp: brk_store_ok_def unheld_def holders_ok_def simp del: domIff)

lemma store_remove_line:
  "brk_store_ok s \<Longrightarrow> a \<in> set (con_line_breakpoints s) \<Longrightarrow>
   brk_store_ok (s\<lparr>con_line_breakpoints := remove1 a (con_line_breakpoints s)\<rparr>) \<and>
   unheld (s\<lparr>con_line_breakpoints := remove1 a (con_line_breakpoints s)\<rparr>) a"
  by (auto simp: brk_store_ok_def holders_ok_def unheld_def simp del: domIff)

text \<open>A change of one of the tables: what it drops is freed, what it takes in was unheld.\<close>

definition table_change :: "nat xdebug_hash \<Rightarrow> nat xdebug_hash \<Rightarrow> nat set \<Rightarrow> bool" where
  "table_change h h' new \<longleftrightarrow>
     table_ok (h'\<lparr>h_destroyed := []\<rparr>) \<and> distinct (h_destroyed h') \<and> set (h_destroyed h') \<subseteq> ran (hash_map h) \<and>
     ran (hash_map h') = new \<union> (ran (hash_map h) - set (h_destroyed h'))"

lemma holders_drop:
  "holders_ok l f e live n \<Longrightarrow> d \<subseteq> f \<Longrightarrow> new \<subseteq> live - l - f - e \<Longrightarrow> holders_ok l (new \<union> (f - d)) e (live - d) n"
  "holders_ok l f e live n \<Longrightarrow> d \<subseteq> e \<Longrightarrow> new \<subseteq> live - l - f - e \<Longrightarrow> holders_ok l f (new \<union> (e - d)) (live - d) n"
  by (auto simp: holders_ok_def)

lemma store_function_set:
  assumes "brk_store_ok s" "table_change (con_function_breakpoints s) h new" "\<forall>a \<in> new. unheld s a"
  shows "\<exists>s1. function_hash_set h s = Some s1 \<and> brk_store_ok s1 \<and> con_line_breakpoints s1 = con_line_breakpoints s"
proof -
  have n: "new \<subseteq> dom (con_heap s) - set (con_line_breakpoints s) - functions_of s - exceptions_of s"
    using assms(3) by (auto simp: unheld_def)
  have d: "set (h_destroyed h) \<subseteq> functions_of s" "distinct (h_destroyed h)" "functions_of s \<subseteq> dom (con_heap s)"
    using assms by (auto simp: table_change_def brk_store_ok_def holders_ok_def)
  let ?s = "s\<lparr>con_function_breakpoints := h\<lparr>h_destroyed := []\<rparr>\<rparr>"
  have "function_hash_set h s = Some (?s\<lparr>con_heap := con_heap ?s |` (- set (h_destroyed h))\<rparr>)"
    unfolding function_hash_set_def using d by (intro dtor_all_distinct) auto
  moreover have "brk_store_ok (?s\<lparr>con_heap := con_heap ?s |` (- set (h_destroyed h))\<rparr>)"
    using assms(1,2) holders_drop(1) [OF _ d(1) n] by (simp add: brk_store_ok_def table_change_def Diff_eq [symmetric] del: domIff)
  ultimately show ?thesis by simp
qed

lemma store_exception_set:
  assumes "brk_store_ok s" "table_change (con_exception_breakpoints s) h new" "\<forall>a \<in> new. unheld s a"
  shows "\<exists>s1. exception_hash_set h s = Some s1 \<and> brk_store_ok s1 \<and> con_line_breakpoints s1 = con_line_breakpoints s"
proof -
  have n: "new \<subseteq> dom (con_heap s) - set (con_line_breakpoints s) - functions_of s - exceptions_of s"
    using assms(3) by (auto simp: unheld_def)
  have d: "set (h_destroyed h) \<subseteq> exceptions_of s" "distinct (h_destroyed h)" "exceptions_of s \<subseteq> dom (con_heap s)"
    using assms by (auto simp: table_change_def brk_store_ok_def holders_ok_def)
  let ?s = "s\<lparr>con_exception_breakpoints := h\<lparr>h_destroyed := []\<rparr>\<rparr>"
  have "exception_hash_set h s = Some (?s\<lparr>con_heap := con_heap ?s |` (- set (h_destroyed h))\<rparr>)"
    unfolding exception_hash_set_def using d by (intro dtor_all_distinct) auto
  moreover have "brk_store_ok (?s\<lparr>con_heap := con_heap ?s |` (- set (h_destroyed h))\<rparr>)"
    using assms(1,2) holders_drop(2) [OF _ d(1) n] by (simp add: brk_store_ok_def table_change_def Diff_eq [symmetric] del: domIff)
  ultimately show ?thesis by simp
qed

lemma add_change: "table_ok h \<Longrightarrow> a \<notin> ran (hash_map h) \<Longrightarrow> table_change h (xdebug_hash_add h key a) {a}"
  using table_add [OF _ _ refl, of h a key] by (simp add: table_change_def)

lemma delete_change: "table_ok h \<Longrightarrow> table_change h (fst (xdebug_hash_delete h key)) {}"
  using table_delete [OF _ refl, of h key] by (simp add: table_change_def)


section \<open>States with the same holders\<close>

definition same_store :: "'a brk_store_scheme \<Rightarrow> 'a brk_store_scheme \<Rightarrow> bool" where
  "same_store s s1 \<longleftrightarrow>
     dom (con_heap s1) = dom (con_heap s) \<and> con_next_addr s1 = con_next_addr s \<and>
     con_line_breakpoints s1 = con_line_breakpoints s \<and> con_function_breakpoints s1 = con_function_breakpoints s \<and>
     con_exception_breakpoints s1 = con_exception_breakpoints s"

lemma same_store_ok: "same_store s s1 \<Longrightarrow> brk_store_ok s1 \<longleftrightarrow> brk_store_ok s" "same_store s s1 \<Longrightarrow> unheld s1 a \<longleftrightarrow> unheld s a"
  by (simp_all add: same_store_def brk_store_ok_def unheld_def del: domIff)

lemma same_store_refl [simp]: "same_store s s" by (simp add: same_store_def)

lemma same_store_trans: "same_store s s1 \<Longrightarrow> same_store s1 s2 \<Longrightarrow> same_store s s2"
  by (simp add: same_store_def)

lemma put_store: "brk_put s a b = Some s1 \<Longrightarrow> same_store s s1"
  by (simp add: same_store_def put_same_store [of s a b s1] del: domIff)

lemma other_fields [simp]:
  "same_store s (s\<lparr>dbg_sent := v\<rparr>)" "same_store s (mark_all_frames s)"
  "same_store s (send_message s m)" "same_store s (fst (breakpoint_admin_remove s k))"
  by (simp_all add: same_store_def mark_all_frames_def send_message_def breakpoint_admin_remove_def split: prod.splits)

lemma admin_add_store: "breakpoint_admin_add env s ty k = (s1, n) \<Longrightarrow> same_store s s1"
  by (auto simp: breakpoint_admin_add_def same_store_def Let_def)

lemma resolve_helper_store: "line_breakpoint_resolve_helper env s lines a = Some s1 \<Longrightarrow> same_store s s1"
  by (auto simp: line_breakpoint_resolve_helper_def xdebug_dbgp_resolved_breakpoint_notification_def
      Option.bind_eq_Some_conv dest!: put_store intro: same_store_trans [OF _ other_fields(3)] split: option.splits if_splits)

lemma resolve_asked_store:
  "(if c then (case o1 of Some lines \<Rightarrow> line_breakpoint_resolve_helper env s1 lines a | None \<Rightarrow> Some s1) else Some s1) = Some s2 \<Longrightarrow>
   same_store s1 s2"
  using resolve_helper_store by (auto split: if_splits option.splits)

section \<open>The commands keep the store\<close>

abbreviation keeps :: "(debugger \<times> xml_node) option \<Rightarrow> bool" where
  "keeps res \<equiv> post (\<lambda>p. brk_store_ok (fst p)) res"

lemma RETURN_RESULT_keeps [post_rules]: "brk_store_ok s \<Longrightarrow> keeps (RETURN_RESULT s r c)"
  by (auto simp: RETURN_RESULT_def post_def)

lemma set_finish_keeps [post_rules]: "brk_store_ok s \<Longrightarrow> keeps (set_finish s b r)"
  by (simp add: set_finish_def post_def)

lemma brk_scan_in: "line_brk_scan s parts as ptr = Some (p, True) \<Longrightarrow> \<exists>a. p = Some a \<and> a \<in> set as"
proof (induction s parts as ptr rule: line_brk_scan.induct)
  case (2 s parts a le ptr)
  then obtain b m where b: "brk_at s a = Some b" "line_brk_matches parts b = Some m"
    "(if m then Some (Some a, True) else line_brk_scan s parts le (Some a)) = Some (p, True)"
    by (auto simp: Option.bind_eq_Some_conv)
  then show ?case using 2(1) [OF b(1,2)] by (cases m) auto
qed simp

lemma added_store:
  "brk_store_ok s \<Longrightarrow> breakpoint_admin_add env s ty k = (s1, n) \<Longrightarrow> brk_put s1 a b = Some s2 \<Longrightarrow> brk_store_ok s2"
  using same_store_trans [OF admin_add_store put_store] same_store_ok(1) by blast

lemma remove_keeps: "brk_store_ok s \<Longrightarrow> breakpoint_remove s ty k = Some (s1, ok) \<Longrightarrow> brk_store_ok s1"
proof -
  assume s: "brk_store_ok s" and r: "breakpoint_remove s ty k = Some (s1, ok)"
  have t: "table_ok (con_function_breakpoints s)" "table_ok (con_exception_breakpoints s)"
    using s by (simp_all add: brk_store_ok_def)
  have f: "brk_store_ok s2" if "xdebug_hash_delete (con_function_breakpoints s) k = (h, ok)" "function_hash_set h s = Some s2" for h s2
    using store_function_set [OF s delete_change [OF t(1), of k]] that by auto
  have e: "brk_store_ok s2" if "xdebug_hash_delete (con_exception_breakpoints s) k = (h, ok)" "exception_hash_set h s = Some s2" for h s2
    using store_exception_set [OF s delete_change [OF t(2), of k]] that by auto
  have l: "brk_store_ok s2" if "line_brk_scan s parts (con_line_breakpoints s) None = Some (Some a, True)"
    "xdebug_brk_info_dtor (s\<lparr>con_line_breakpoints := remove1 a (con_line_breakpoints s)\<rparr>) a = Some s2" for parts a s2
    using brk_scan_in [OF that(1)] store_remove_line [OF s] store_free [OF _ _ that(2)] by auto
  show ?thesis
    using r s unfolding breakpoint_remove_def
    by (auto simp: Option.bind_eq_Some_conv dest: l split: if_splits prod.splits intro: f e)
qed

lemma update_store:
  "(if action = BREAKPOINT_ACTION_UPDATE
               then do { a \<leftarrow> ptr;
                         b \<leftarrow> brk_at s a;
                         (b1, ok) \<leftarrow> update_brk_info args b;
                         s1 \<leftarrow> brk_put s a b1;
                         Some (s1, ok) }
               else Some (s, True)) = Some (s1, ok) \<Longrightarrow> same_store s s1"
  by (auto simp: Option.bind_eq_Some_conv intro: put_store split: if_splits)

lemma do_action_keeps: "brk_store_ok s \<Longrightarrow> keeps (breakpoint_do_action env s args action r)"
proof -
  assume s: "brk_store_ok s"
  have rest: "keeps
     (if \<not> ok then RETURN_RESULT s1 r XDEBUG_ERROR_INVALID_ARGS
      else do {
        node \<leftarrow> breakpoint_brk_info_add env s1 (xdebug_xml_node_init ''breakpoint'') ptr;
        if action = BREAKPOINT_ACTION_REMOVE
        then do { (s2, removed) \<leftarrow> breakpoint_remove s1 ty hkey;
                  Some (fst (breakpoint_admin_remove s2 d), xdebug_xml_add_child r node) }
        else Some (s1, xdebug_xml_add_child r node) })"
    if "brk_store_ok s1" for s1 ok ptr ty hkey d
    using that by (intro post_rules) (auto simp: same_store_ok(1) [OF other_fields(4)] dest: remove_keeps)
  note steps = post_constructs(3,5-7) [where Q = "\<lambda>p. brk_store_ok (fst p)"]
  show ?thesis
    unfolding breakpoint_do_action_def
    apply (rule steps(2), rule RETURN_RESULT_keeps [OF s], rule steps(1), rule steps(3), rule RETURN_RESULT_keeps [OF s])
    apply (rule steps(4), rule steps(1), rule steps(1), rule steps(4), rule rest)
    apply (hypsubst, drule update_store)
    apply (simp add: same_store_ok s)
    done
qed

lemma set_line_insert_keeps [post_rules]:
  assumes "brk_store_ok s" "unheld s a"
  shows "keeps (set_line_insert env s is_line a b r)"
proof -
  have l: "brk_store_ok (s2\<lparr>con_line_breakpoints := con_line_breakpoints s2 @ [a]\<rparr>)"
    if "breakpoint_admin_add env s ty k = (s1, n)" "brk_put s1 a b1 = Some s2" for ty k s1 n b1 s2
    using same_store_trans [OF admin_add_store [OF that(1)] put_store [OF that(2)]] assms
    by (intro store_push_line) (simp_all add: same_store_ok)
  show ?thesis
    unfolding set_line_insert_def
    apply (intro post_rules)
     apply (erule store_free [OF assms])
    apply (drule resolve_asked_store)
    apply (auto dest: l simp: same_store_ok same_store_ok(1) [OF other_fields(2)])
    done
qed

lemma set_line_keeps [post_rules]:
  "brk_store_ok s \<Longrightarrow> unheld s a \<Longrightarrow> keeps (set_line_breakpoint env s args is_line a b r)"
  unfolding set_line_breakpoint_def by (intro post_rules)

lemma set_function_keeps [post_rules]:
  assumes "brk_store_ok s" "unheld s a"
  shows "keeps (set_function_breakpoint env s args is_call a b r)"
proof -
  have "table_change (con_function_breakpoints s) (xdebug_hash_add (con_function_breakpoints s) k a) {a}" for k
    using assms by (intro add_change) (auto simp: brk_store_ok_def unheld_def)
  from store_function_set [OF assms(1) this] assms(2)
  have ex: "\<exists>s1. function_hash_set (xdebug_hash_add (con_function_breakpoints s) k a) s = Some s1 \<and> brk_store_ok s1" for k
    by blast
  have f: "brk_store_ok s1" if "function_hash_set (xdebug_hash_add (con_function_breakpoints s) k a) s = Some s1" for k s1
    using ex [of k] that by auto
  show ?thesis
    unfolding set_function_breakpoint_def
    by (intro post_rules) (auto dest!: f intro: added_store simp: assms)
qed

lemma set_exception_keeps [post_rules]:
  assumes "brk_store_ok s" "unheld s a"
  shows "keeps (set_exception_breakpoint env s args a b r)"
proof -
  have "table_change (con_exception_breakpoints s) (xdebug_hash_add (con_exception_breakpoints s) k a) {a}" for k
    using assms by (intro add_change) (auto simp: brk_store_ok_def unheld_def)
  from store_exception_set [OF assms(1) this] assms(2)
  have ex: "\<exists>s1. exception_hash_set (xdebug_hash_add (con_exception_breakpoints s) k a) s = Some s1 \<and> brk_store_ok s1" for k
    by blast
  have f: "brk_store_ok s1" if "exception_hash_set (xdebug_hash_add (con_exception_breakpoints s) k a) s = Some s1" for k s1
    using ex [of k] that by auto
  show ?thesis
    unfolding set_exception_breakpoint_def
    by (intro post_rules) (auto dest!: f intro: added_store simp: assms)
qed

lemma breakpoint_set_keeps: "brk_store_ok s \<Longrightarrow> keeps (xdebug_dbgp_handle_breakpoint_set env s args r)"
proof -
  assume "brk_store_ok s"
  moreover obtain s1 a where n: "brk_new s = (s1, a)" by fastforce
  ultimately have u: "brk_store_ok s1" "unheld s1 a" using store_new by auto
  show ?thesis
    unfolding xdebug_dbgp_handle_breakpoint_set_def n
    by (intro post_rules) (auto intro: u dest: store_free [OF u])
qed


section \<open>Every command\<close>

lemma other_keeps:
  "brk_store_ok s \<Longrightarrow> keeps (xdebug_dbgp_handle_breakpoint_list env s args r)"
  "brk_store_ok s \<Longrightarrow> keeps (xdebug_dbgp_handle_context_names s r)"
  "brk_store_ok s \<Longrightarrow> keeps (xdebug_dbgp_handle_typemap_get s r)"
  "brk_store_ok s \<Longrightarrow> keeps (xdebug_dbgp_handle_stack_depth s r)"
  "brk_store_ok s \<Longrightarrow> keeps (xdebug_dbgp_handle_status s r)"
  "brk_store_ok s \<Longrightarrow> keeps (xdebug_dbgp_handle_stderr s r)"
  "brk_store_ok s \<Longrightarrow> keeps (xdebug_dbgp_handle_run s r)"
  by (auto simp: post_def xdebug_dbgp_handle_breakpoint_list_def xdebug_dbgp_handle_context_names_def
      xdebug_dbgp_handle_typemap_get_def xdebug_dbgp_handle_stack_depth_def xdebug_dbgp_handle_status_def
      xdebug_dbgp_handle_stderr_def xdebug_dbgp_handle_run_def)

lemma store_fields:
  "brk_store_ok (s\<lparr>dbg_stdout_mode := v1\<rparr>) = brk_store_ok s" "brk_store_ok (s\<lparr>dbg_breakpoints_allowed := v2\<rparr>) = brk_store_ok s"
  "brk_store_ok (s\<lparr>dbg_status := v3\<rparr>) = brk_store_ok s" "brk_store_ok (s\<lparr>dbg_lastcmd := v4\<rparr>) = brk_store_ok s"
  "brk_store_ok (s\<lparr>dbg_lasttransid := v5\<rparr>) = brk_store_ok s" "brk_store_ok (s\<lparr>dbg_reason := v6\<rparr>) = brk_store_ok s"
  "brk_store_ok (s\<lparr>dbg_suppress_return_value_step := v7\<rparr>) = brk_store_ok s" "brk_store_ok (s\<lparr>dbg_connection_enabled := v8\<rparr>) = brk_store_ok s"
  "brk_store_ok (s\<lparr>dbg_sent := v9\<rparr>) = brk_store_ok s" "brk_store_ok (s\<lparr>dbg_current_return_value := v10\<rparr>) = brk_store_ok s"
  by (simp_all add: brk_store_ok_def)

lemma con_fields:
  "brk_store_ok (s\<lparr>con_inhibit_notifications := v1\<rparr>) = brk_store_ok s" "brk_store_ok (s\<lparr>con_options := v2\<rparr>) = brk_store_ok s"
  "brk_store_ok (s\<lparr>con_do_step := v3\<rparr>) = brk_store_ok s" "brk_store_ok (s\<lparr>con_do_next := v4\<rparr>) = brk_store_ok s"
  "brk_store_ok (s\<lparr>con_do_finish := v5\<rparr>) = brk_store_ok s" "brk_store_ok (s\<lparr>con_finish_level := v6\<rparr>) = brk_store_ok s"
  "brk_store_ok (s\<lparr>con_finish_func_nr := v7\<rparr>) = brk_store_ok s" "brk_store_ok (s\<lparr>con_next_level := v8\<rparr>) = brk_store_ok s"
  "brk_store_ok (s\<lparr>con_next_stack := v9\<rparr>) = brk_store_ok s" "brk_store_ok (s\<lparr>con_send_notifications := v10\<rparr>) = brk_store_ok s"
  "brk_store_ok (s\<lparr>con_resolved_breakpoints := v11\<rparr>) = brk_store_ok s" "brk_store_ok (s\<lparr>con_breakpoint_details := v12\<rparr>) = brk_store_ok s"
  "brk_store_ok (s\<lparr>con_include_return_value := v13\<rparr>) = brk_store_ok s" "brk_store_ok (s\<lparr>con_virtual_exception_value := v14\<rparr>) = brk_store_ok s"
  by (simp_all add: brk_store_ok_def)

lemma step_keeps:
  "brk_store_ok s \<Longrightarrow> keeps (xdebug_dbgp_handle_step_into s r)" "brk_store_ok s \<Longrightarrow> keeps (xdebug_dbgp_handle_step_out s r)"
  "brk_store_ok s \<Longrightarrow> keeps (xdebug_dbgp_handle_step_over s r)" "brk_store_ok s \<Longrightarrow> keeps (xdebug_dbgp_handle_stop s r)"
  "brk_store_ok s \<Longrightarrow> keeps (xdebug_dbgp_handle_stdout s args r)"
  unfolding xdebug_dbgp_handle_step_into_def xdebug_dbgp_handle_step_out_def xdebug_dbgp_handle_step_over_def
    xdebug_dbgp_handle_stop_def xdebug_dbgp_handle_stdout_def Let_def
  by (intro post_rules; auto simp: store_fields con_fields split: option.split)+

lemma inspect_keeps:
  "brk_store_ok s \<Longrightarrow> keeps (xdebug_dbgp_handle_xcmd_profiler_name_get env s r)"
  "brk_store_ok s \<Longrightarrow> keeps (xdebug_dbgp_handle_xcmd_get_executable_lines s args r)"
  "brk_store_ok s \<Longrightarrow> keeps (xdebug_dbgp_handle_stack_get env s args r)"
  "brk_store_ok s \<Longrightarrow> keeps (xdebug_dbgp_handle_source env s args r)"
  "brk_store_ok s \<Longrightarrow> keeps (xdebug_dbgp_handle_feature_get env ex s args r)"
  unfolding xdebug_dbgp_handle_xcmd_profiler_name_get_def xdebug_dbgp_handle_xcmd_get_executable_lines_def
    xdebug_dbgp_handle_stack_get_def xdebug_dbgp_handle_source_def xdebug_dbgp_handle_feature_get_def
  by (intro post_rules; auto simp: store_fields)+

lemma feature_update_keeps: "brk_store_ok s \<Longrightarrow> feature_update n v opts s = Some s1 \<Longrightarrow> brk_store_ok s1"
  by (auto simp: feature_update_def con_fields split: if_splits)

lemma feature_set_keeps: "brk_store_ok s \<Longrightarrow> keeps (xdebug_dbgp_handle_feature_set s args r)"
  unfolding xdebug_dbgp_handle_feature_set_def Let_def
  by (intro post_rules; auto intro: feature_update_keeps)

lemma eval_keeps: "brk_store_ok s \<Longrightarrow> keeps (xdebug_dbgp_handle_eval env s args r)"
  unfolding xdebug_dbgp_handle_eval_def RETURN_RESULT_WITH_MESSAGE_def xdebug_do_eval_def
  by (intro post_rules; auto simp: set_page_def store_fields con_fields post_def RETURN_RESULT_def Option.bind_eq_Some_conv
      split: eval_result.splits option.splits if_splits)


lemma breakpoint_commands_keep:
  "brk_store_ok s \<Longrightarrow> keeps (xdebug_dbgp_handle_breakpoint_get env s args r)"
  "brk_store_ok s \<Longrightarrow> keeps (xdebug_dbgp_handle_breakpoint_remove env s args r)"
  "brk_store_ok s \<Longrightarrow> keeps (xdebug_dbgp_handle_breakpoint_update env s args r)"
  unfolding xdebug_dbgp_handle_breakpoint_get_def xdebug_dbgp_handle_breakpoint_remove_def
    xdebug_dbgp_handle_breakpoint_update_def
  by (rule do_action_keeps, assumption)+

lemmas command_keeps = other_keeps step_keeps inspect_keeps feature_set_keeps eval_keeps breakpoint_commands_keep
  breakpoint_set_keeps

definition plain_command :: "string \<Rightarrow> bool" where
  "plain_command cmd \<longleftrightarrow> cmd \<notin> php_commands \<and> cmd \<noteq> ''detach''"

lemma lookup_names: "lookup_cmd cmd = Some command \<Longrightarrow> cmd_name command = cmd \<and> cmd \<in> set (map cmd_name dbgp_commands)"
  by (auto simp: lookup_cmd_def find_Some_iff)

lemma handler_keeps:
  assumes "lookup_cmd cmd = Some command" "plain_command cmd" "brk_store_ok s"
  shows "keeps (dbgp_handler env php cmd s args r)"
proof -
  have "map cmd_name dbgp_commands =
     [''breakpoint_get'', ''breakpoint_list'', ''breakpoint_remove'', ''breakpoint_set'', ''breakpoint_update'', ''context_get'',
      ''context_names'', ''eval'', ''feature_get'', ''feature_set'', ''typemap_get'', ''property_get'', ''property_set'',
      ''property_value'', ''source'', ''stack_depth'', ''stack_get'', ''status'', ''stderr'', ''stdout'', ''run'', ''step_into'',
      ''step_out'', ''step_over'', ''stop'', ''detach'', ''xcmd_profiler_name_get'', ''xcmd_get_executable_lines'']"
    by code_simp
  with lookup_names [OF assms(1)] assms(2) have "cmd \<in> set
     [''breakpoint_get'', ''breakpoint_list'', ''breakpoint_remove'', ''breakpoint_set'', ''breakpoint_update'',
      ''context_names'', ''eval'', ''feature_get'', ''feature_set'', ''typemap_get'', ''source'', ''stack_depth'',
      ''stack_get'', ''status'', ''stderr'', ''stdout'', ''run'', ''step_into'', ''step_out'', ''step_over'', ''stop'',
      ''xcmd_profiler_name_get'', ''xcmd_get_executable_lines'']"
    by (simp only: plain_command_def php_commands_def list.set insert_iff empty_iff) (elim conjE disjE FalseE; simp)
  then show ?thesis
    by (simp only: list.set insert_iff empty_iff, elim disjE FalseE; simp add: dbgp_handler_def command_keeps assms(3))
qed

lemma add_error_keeps: "brk_store_ok s \<Longrightarrow> post (\<lambda>x. brk_store_ok (fst x)) (map_option (\<lambda>r. (s, r, c)) (add_error e r))"
  by (auto simp: post_def)

lemma execute_keeps:
  assumes "brk_store_ok s" "plain_command cmd"
  shows "post (\<lambda>x. brk_store_ok (fst x)) (execute_command env php s cmd args r)"
proof (cases "lookup_cmd cmd")
  case None
  then show ?thesis using assms by (auto simp: execute_command_def post_def)
next
  case (Some command)
  have h: "post (\<lambda>x. brk_store_ok (fst x)) (map_option (\<lambda>(s3, r). (s3, r, c)) (dbgp_handler env php (cmd_name command) s2 args r))"
    if "brk_store_ok s2" for s2 c
    using handler_keeps [OF Some assms(2) that, of env php args r] lookup_names [OF Some]
    by (auto simp: post_def)
  show ?thesis
    unfolding execute_command_def Some option.case Let_def
    by (intro post_constructs(3,5) h add_error_keeps) (use assms(1) in \<open>auto simp: store_fields\<close>)
qed

definition plain_line :: "string \<Rightarrow> bool" where
  "plain_line m \<longleftrightarrow> (case xdebug_cmd_parse m of Some (res, Some cmd, args) \<Rightarrow> plain_command cmd | _ \<Rightarrow> True)"

lemma parse_option_keeps:
  "brk_store_ok s \<Longrightarrow> plain_line m \<Longrightarrow> post (\<lambda>x. brk_store_ok (fst x)) (xdebug_dbgp_parse_option env php s m r)"
  unfolding xdebug_dbgp_parse_option_def
  by (intro post_rules add_error_keeps execute_keeps) (auto simp: plain_line_def)

lemma send_keeps: "brk_store_ok (send_message s m) = brk_store_ok s"
  by (rule same_store_ok(1)) simp


section \<open>Sessions\<close>

lemma serve_keeps:
  "list_all plain_line ms \<Longrightarrow> brk_store_ok s \<Longrightarrow> post (\<lambda>x. brk_store_ok (fst x)) (serve env php bail s ms)"
proof (induction ms arbitrary: s)
  case (Cons m ms)
  have p: "brk_store_ok s1" if "xdebug_dbgp_parse_option env php s m (dbgp_node ''response'') = Some (s1, x, ret)" for s1 x ret
    using postD [OF parse_option_keeps that] Cons.prems by simp
  show ?case
    using Cons.IH p Cons.prems(1)
    by (simp add: Let_def) (intro post_rules; auto simp: send_keeps split: if_splits)
qed (simp add: post_def store_fields)

lemma count_hit_store: "count_hit s a = Some (s1, ok) \<Longrightarrow> same_store s s1"
  by (auto simp: count_hit_def Option.bind_eq_Some_conv Let_def case_prod_beta dest: put_store)

lemma resolve_helper_same: "breakpoint_resolve_helper env f lines (Some s) he = Some s1 \<Longrightarrow> same_store s s1"
  by (auto simp: breakpoint_resolve_helper_def Option.bind_eq_Some_conv dest: resolve_helper_store split: if_splits)

lemma resolve_all_same: "foldl (breakpoint_resolve_helper env f lines) st hes = Some s1 \<Longrightarrow> \<exists>s. st = Some s \<and> same_store s s1"
proof (induction hes arbitrary: st)
  case (Cons he hes)
  then obtain s where s: "breakpoint_resolve_helper env f lines st he = Some s" "same_store s s1" by auto
  then obtain s0 where "st = Some s0" by (cases st) (auto simp: breakpoint_resolve_helper_def)
  with s show ?case by (auto dest: resolve_helper_same intro: same_store_trans)
qed simp

lemma resolve_same: "xdebug_dbgp_resolve_breakpoints env s f = Some (s1, b) \<Longrightarrow> same_store s s1"
  by (auto simp: xdebug_dbgp_resolve_breakpoints_def xdebug_hash_apply_with_argument_def dest: resolve_all_same split: option.splits)

text \<open>
  What can happen between the start and the end of a session: lines of the client, hits of breakpoints,
  the resolving of breakpoints when code is compiled, and the script, which changes what is not the store.
\<close>

inductive session :: "dbg_env \<Rightarrow> (string \<Rightarrow> command_handler) \<Rightarrow> debugger \<Rightarrow> debugger \<Rightarrow> bool" for env php where
  session_start: "session env php s s"
| session_lines: "session env php s s1 \<Longrightarrow> list_all plain_line ms \<Longrightarrow> serve env php bail s1 ms = Some (s2, rest, r) \<Longrightarrow> session env php s s2"
| session_hit: "session env php s s1 \<Longrightarrow> count_hit s1 a = Some (s2, ok) \<Longrightarrow> session env php s s2"
| session_resolve: "session env php s s1 \<Longrightarrow> xdebug_dbgp_resolve_breakpoints env s1 f = Some (s2, found) \<Longrightarrow> session env php s s2"
| session_script: "session env php s s1 \<Longrightarrow> same_store s1 s2 \<Longrightarrow> session env php s s2"

lemma session_store_ok: "session env php s s1 \<Longrightarrow> brk_store_ok s \<Longrightarrow> brk_store_ok s1"
proof (induction rule: session.induct)
  case (session_lines s s1 ms bail s2 rest r)
  with postD [OF serve_keeps [OF session_lines(2)]] show ?case by fastforce
qed (auto dest: count_hit_store resolve_same simp: same_store_ok)

lemma alloc_table_ok: "table_ok (xdebug_hash_alloc 64 True)"
  by (simp add: table_ok_def) (simp add: xdebug_hash_alloc_def)

lemma init_store_ok: "\<forall>a \<ge> con_next_addr s. con_heap s a = None \<Longrightarrow> brk_store_ok (init_tables s)"
  using alloc_table_ok by (auto simp: brk_store_ok_def init_tables_def holders_ok_def)

section \<open>The end of a session\<close>

lemma destroy_distinct:
  assumes "table_ok h"
  shows "distinct (xdebug_hash_destroy h)" "set (xdebug_hash_destroy h) = ran (hash_map h)"
proof -
  have h: "hash_ok h" "h_dtor h" "h_destroyed h = []" "inj_on (hash_map h) (dom (hash_map h))"
    using assms by (simp_all add: table_ok_def)
  from hash_destroy_all [OF h(1,2)] h(3) have d: "set (xdebug_hash_destroy h) = ran (hash_map h)"
    "length (xdebug_hash_destroy h) = h_size h" by auto
  show "set (xdebug_hash_destroy h) = ran (hash_map h)" by (rule d)
  have "Some ` ran (hash_map h) = hash_map h ` dom (hash_map h)"
    by (auto simp: ran_def image_iff) (metis domI)
  then have "card (ran (hash_map h)) = card (dom (hash_map h))"
    using card_image [OF h(4)] card_image [of Some "ran (hash_map h)"] by simp
  with d hash_size_card [OF h(1)] show "distinct (xdebug_hash_destroy h)"
    by (intro card_distinct) simp
qed

lemma release_frees_all:
  assumes "brk_store_ok s" "con_options s = Some opts"
  shows "\<exists>s1. release_tables s = Some s1 \<and>
    dom (con_heap s1) = dom (con_heap s) - (set (con_line_breakpoints s) \<union> functions_of s \<union> exceptions_of s)"
proof -
  have t: "table_ok (con_function_breakpoints s)" "table_ok (con_exception_breakpoints s)" "distinct (con_line_breakpoints s)"
    and h: "holders_ok (set (con_line_breakpoints s)) (functions_of s) (exceptions_of s) (dom (con_heap s)) (con_next_addr s)"
    using assms(1) by (simp_all add: brk_store_ok_def)
  let ?f = "xdebug_hash_destroy (con_function_breakpoints s)" and ?e = "xdebug_hash_destroy (con_exception_breakpoints s)"
  let ?s1 = "s\<lparr>con_heap := con_heap s |` (- set ?f)\<rparr>"
  let ?s2 = "?s1\<lparr>con_heap := con_heap ?s1 |` (- set ?e)\<rparr>"
  let ?s3 = "?s2\<lparr>con_heap := con_heap ?s2 |` (- set (rev (con_line_breakpoints s)))\<rparr>"
  note d = destroy_distinct [OF t(1)] destroy_distinct [OF t(2)]
  have "brk_dtor_all s ?f = Some ?s1" "brk_dtor_all ?s1 ?e = Some ?s2"
    "brk_dtor_all ?s2 (rev (con_line_breakpoints s)) = Some ?s3"
    using h by (intro dtor_all_distinct; auto simp: d t(3) holders_ok_def simp del: domIff)+
  then have "release_tables s = Some (?s3\<lparr>con_options := None\<rparr>)"
    using assms(2) by (simp add: release_tables_def)
  moreover have "dom (con_heap ?s3) = dom (con_heap s) - (set (con_line_breakpoints s) \<union> functions_of s \<union> exceptions_of s)"
    by (auto simp: d simp del: domIff)
  ultimately show ?thesis by auto
qed

end
