(* ===== verification/Xd_Examples.thy ===== *)
theory Xd_Examples
  imports Xd_Store Xd_Step_Spec Xd_Dbgp_Spec Xd_Resolve Xd_Property_Spec "HOL-Library.Code_Target_Nat"
begin

text \<open>
  Concrete states: the globals as the process starts with them, an environment in which nothing is set, and
  an engine in the middle of a script.  The examples of the root theory are run on them.
\<close>

definition zeroed_op_array :: zend_op_array where
  "zeroed_op_array = Op_array 0 0 [] []"

definition zeroed_debugger :: debugger where
  "zeroed_debugger =
     \<lparr>con_heap = Map.empty, con_next_addr = 0, con_breakpoint_list = xdebug_hash_alloc 64 True,
      con_function_breakpoints = xdebug_hash_alloc 64 True, con_exception_breakpoints = xdebug_hash_alloc 64 True,
      con_line_breakpoints = [], con_do_break = False, con_pending_breakpoint = None, con_next_stack = None,
      con_do_step = False, con_do_next = False, con_next_level = 0, con_do_finish = False, con_finish_level = 0,
      con_finish_func_nr = 0, con_send_notifications = 0, con_inhibit_notifications = False,
      con_resolved_breakpoints = 0, con_breakpoint_details = 0, con_include_return_value = 0,
      con_virtual_exception_value = 0, con_do_connect_to_client = False, con_detached_message = None,
      con_host_type = 0, con_options = None, con_program_name = None,
      con_eval_id_lookup = xdebug_hash_alloc 64 True, con_eval_id_sequence = 0,
      dbg_status = DBGP_STATUS_NONE, dbg_reason = DBGP_REASON_OK, dbg_lastcmd = None, dbg_lasttransid = None,
      dbg_connection_enabled = False, dbg_breakpoints_allowed = False, dbg_suppress_return_value_step = False,
      dbg_detached = False, dbg_breakpoint_count = 0, dbg_breakable_lines_map = xdebug_hash_alloc 16 True,
      dbg_stdout_mode = 0, dbg_stack = [], dbg_stack_id = 0, dbg_path_maps = None, dbg_executed_filename = None,
      dbg_executed_lineno = 0, dbg_execute_data = None, dbg_ide_key = None, dbg_current_return_value = None,
      dbg_sent = [],
      dbg_scope = \<lparr>sc_active_data = None, sc_active_stack_entry = None, sc_active_symbol_table = None\<rparr>\<rparr>"

definition plain_env :: dbg_env where
  "plain_env =
     \<lparr>env_pid = 42, env_php_version = ''8.4.1'', env_realpath = (\<lambda>p. None), env_expand = Some,
      env_eval = (\<lambda>c. Eval_failed None), env_dbgp_cookie = None, env_cloud_id = None, env_control_socket = None,
      env_profiler_filename = None, env_open_file = (\<lambda>p. None), env_ini_options = init_options\<rparr>"

definition plain_lib_env :: lib_env where
  "plain_lib_env =
     \<lparr>le_getenv = (\<lambda>n. None), le_symbol_table = (\<lambda>t n. None), le_http_globals = (\<lambda>t n. None), le_headers_sent = False,
      le_trigger_value = None\<rparr>"

definition no_php :: "string \<Rightarrow> command_handler" where
  "no_php name s args r = None"

definition plain_sess_env :: sess_env where
  "plain_sess_env =
     \<lparr>se_dbg = plain_env, se_lib = plain_lib_env, se_php = no_php, se_ide_key_setting = None, se_cloud_id = [],
      se_client_host = ''localhost'', se_client_port = 9003, se_discover_client_host = False, se_discovery_header = [],
      se_gateway_ip = None, se_nameserver = None, se_create_socket = (\<lambda>h p. Not_connected (- 1))\<rparr>"

definition in_session :: debugger where
  "in_session = (init_tables zeroed_debugger)\<lparr>dbg_status := DBGP_STATUS_BREAK, con_program_name := Some ''/app/index.php''\<rparr>"

definition frame_of :: "string \<Rightarrow> int \<Rightarrow> int \<Rightarrow> function_stack_entry" where
  "frame_of name lev nr =
     \<lparr>fse_function = Some name, fse_object_class = None, fse_scope_class = None, fse_include_filename = None,
      fse_type = XFUNC_NORMAL, fse_function_nr = nr, fse_user_defined = True, fse_level = lev,
      fse_has_line_breakpoints = False, fse_lineno = 1, fse_filename = ''/app/index.php'', fse_op_array = zeroed_op_array\<rparr>"

definition plain_engine :: "debugger \<Rightarrow> engine" where
  "plain_engine s =
     \<lparr>en_dbg = s, en_conn = \<lparr>fc_buffer = [], fc_socket = []\<rparr>,
      en_lib = \<lparr>xg_mode = XDEBUG_MODE_STEP_DEBUG, xg_mode_from_environment = False, xg_start_with_request = XDEBUG_START_WITH_REQUEST_DEFAULT,
                xg_start_upon_error = XDEBUG_START_UPON_ERROR_DEFAULT\<rparr>,
      en_remote_pid = 42, en_statement_handler = True, en_cookies = [], en_time_limit = True, en_no_exec = False,
      en_function_count = 0, en_class_count = 0\<rparr>"

definition args_of :: "string \<Rightarrow> xdebug_dbgp_arg" where
  "args_of line = (case xdebug_cmd_parse line of Some (res, cmd, args) \<Rightarrow> args | None \<Rightarrow> dbgp_arg_empty)"

lemmas example_states = plain_engine_def in_session_def init_tables_def zeroed_debugger_def frame_of_def

lemma at_statement_facts:
  "dbg_connection_enabled (en_dbg e) \<Longrightarrow> dbg_path_maps (en_dbg e) = None \<Longrightarrow> \<not> con_do_connect_to_client (en_dbg e) \<Longrightarrow>
   dbg_stack (en_dbg e) \<noteq> [] \<Longrightarrow> fse_type fse = XFUNC_NORMAL \<Longrightarrow> fse = last (dbg_stack (en_dbg e)) \<Longrightarrow>
   path = f \<Longrightarrow> line = size_of_int l \<Longrightarrow> at_statement e f l fse path line"
  by (auto simp: at_statement_def active_def stack_tail_def at_default_return_def xfunc_types
      xdebug_debugger_map_remote_to_local_def XDEBUG_PATH_MAP_RESULT_UNKNOWN_def XDEBUG_PATH_MAP_RESULT_SKIP_def)

section \<open>An engine with a few values\<close>

text \<open>Array 0 is \<open>["x" => array 1, 7 => 1, "q" => 2]\<close>, array 1 \<open>[-5 => "deep"]\<close>; every class is found and has no static members.\<close>

definition plain_class :: "string \<Rightarrow> zend_class_entry" where
  "plain_class c = Class_entry c False False False None [] 0 None"

definition plain_object :: php_object where
  "plain_object =
     \<lparr>ob_ce = plain_class ''C'', ob_class_name = ''C'', ob_lazy = Not_lazy, ob_closure = None, ob_has_debug_info = True,
      ob_properties = [], ob_stored = [], ob_debug_table = Some [], ob_export_table = Some [], ob_protected = False\<rparr>"

definition plain_php :: php_engine where
  "plain_php =
     \<lparr>pe_array = (\<lambda>a. if a = 0
         then \<lparr>za_elements = [(Key_str ''x'', IS_ARRAY 1), (Key_num 7, IS_LONG 1), (Key_str ''q'', IS_LONG 2)], za_immutable = False\<rparr>
         else \<lparr>za_elements = [(Key_num (- 5), IS_STRING ''deep'')], za_immutable = False\<rparr>),
      pe_object = (\<lambda>a. plain_object), pe_ref = (\<lambda>a. IS_NULL), pe_fetch_class = (\<lambda>c. Some (plain_class c)),
      pe_class_init_statics = (\<lambda>c. c), pe_property_info = (\<lambda>c n. None), pe_unmangle = (\<lambda>n. (None, n)),
      pe_read_property = (\<lambda>c a n. Read_uninitialized), pe_numeric_key = (\<lambda>n. None), pe_hash_func = length,
      pe_exception = None, pe_in_debug_info = False, pe_constant = (\<lambda>n. None), pe_constants = []\<rparr>"

definition plain_data :: exec_data where
  "plain_data = \<lparr>ed_func = Some (True, Some [''a'']), ed_cvs = [IS_ARRAY 0], ed_this = IS_UNDEF, ed_intermediate = None\<rparr>"

definition plain_scope :: lib_scope where
  "plain_scope = \<lparr>sc_active_data = Some plain_data, sc_active_stack_entry = None, sc_active_symbol_table = None\<rparr>"

definition plain_symbols :: "pzval option \<Rightarrow> symbol_env" where
  "plain_symbols ret = \<lparr>sy_scope = plain_scope, sy_self_class = None, sy_return_value = ret, sy_virtual_exception_value = False\<rparr>"

definition plain_vars :: var_env where
  "plain_vars =
     \<lparr>ve_php = plain_php, ve_frames = [\<lparr>fv_symbol_table = None, fv_execute_data = Some plain_data, fv_vars = Some [''a'']\<rparr>],
      ve_current = Some plain_data, ve_globals = [(Key_str ''a'', IS_LONG 3)], ve_self_class = None, ve_return_value = None\<rparr>"

definition plain_options :: var_export_options where
  "plain_options =
     \<lparr>opt_max_children = 2, opt_max_data = 100, opt_max_depth = 3, opt_show_hidden = 0, opt_extended_properties = 0,
      opt_encode_as_extended_property = 0, opt_runtime = [0, 0, 0, 0]\<rparr>"

definition showing :: debugger where
  "showing = in_session\<lparr>con_options := Some plain_options, dbg_stack := [frame_of ''main'' 1 1]\<rparr>"

lemma plain_engine_ok: "engine_ok plain_php"
  by (simp add: engine_ok_def plain_php_def statics_ok_def plain_class_def)

end
