(* ===== verification/Xd_Opcodes.thy ===== *)
theory Xd_Opcodes
  imports Xd_Prelude
begin

text \<open>
  PHP's compiled code as the coverage analysis sees it (\<open>src/coverage/code_coverage.c\<close>): opcodes, functions, and the
  jumps of an opcode.  Opcodes the analysis does not tell apart are \<open>ZEND_OP\<close> with their name.  Branch targets are the
  byte offsets the 64-bit engine stores, in units of \<open>sizeof(zend_op)\<close> after the division.
\<close>

datatype (plugins only: code) zend_opcode =
    ZEND_NOP | ZEND_EXT_NOP | ZEND_RECV | ZEND_RECV_INIT | ZEND_OP_DATA | ZEND_TICKS | ZEND_FAST_CALL | ZEND_RECV_VARIADIC
  | ZEND_FREE | ZEND_JMP | ZEND_JMPZ | ZEND_JMPNZ | ZEND_JMPZ_EX | ZEND_JMPNZ_EX | ZEND_FE_FETCH_R | ZEND_FE_FETCH_RW
  | ZEND_FE_RESET_R | ZEND_FE_RESET_RW | ZEND_CATCH | ZEND_GOTO | ZEND_FAST_RET | ZEND_JMP_FRAMELESS | ZEND_GENERATOR_RETURN
  | ZEND_THROW | ZEND_MATCH_ERROR | ZEND_RETURN | ZEND_RETURN_BY_REF | ZEND_INIT_FCALL | ZEND_INIT_FCALL_BY_NAME
  | ZEND_INIT_NS_FCALL_BY_NAME | ZEND_INIT_DYNAMIC_CALL | ZEND_INIT_USER_CALL | ZEND_INIT_METHOD_CALL
  | ZEND_INIT_STATIC_METHOD_CALL | ZEND_INIT_PARENT_PROPERTY_HOOK_CALL | ZEND_NEW | ZEND_DO_FCALL | ZEND_DO_FCALL_BY_NAME
  | ZEND_DO_ICALL | ZEND_DO_UCALL | ZEND_MATCH | ZEND_SWITCH_LONG | ZEND_SWITCH_STRING | ZEND_FETCH_CLASS
  | ZEND_HANDLE_EXCEPTION | ZEND_INCLUDE_OR_EVAL | ZEND_OP string

text \<open>The literal of the second operand: the name of a called function, or a table of jump offsets.\<close>

datatype rt_constant = No_constant | Const_string string | Const_table "int list"

record zend_op =
  op_opcode :: zend_opcode
  op_lineno :: nat
  op_op1_jmp :: int
  op_op2_jmp :: int
  op_extended_value :: nat
  op_constant :: rt_constant

text \<open>
  A function: \<open>ca_id\<close> is its address; \<open>ca_scope\<close> its class and whether that is a trait.  Its two slots for extensions
  (filtered, and scanned already) are kept by the coverage state.
\<close>

datatype cov_op_array =
  Cov_array (ca_id: nat) (ca_filename: string) (ca_function_name: "string option") (ca_scope: "(string \<times> bool) option")
    (ca_closure: bool) (ca_trait_clone: bool) (ca_abstract: bool) (ca_pass_two: bool) (ca_user: bool)
    (ca_line_start: nat) (ca_line_end: nat) (ca_opcodes: "zend_op list") (ca_dynamic_func_defs: "cov_op_array list")

definition op_at :: "cov_op_array \<Rightarrow> nat \<Rightarrow> zend_op option" where
  "op_at opa position = (if position < length (ca_opcodes opa) then Some (ca_opcodes opa ! position) else None)"

section \<open>Jumps\<close>

definition SIZEOF_ZEND_OP :: int where "SIZEOF_ZEND_OP = 32"

text \<open>An \<open>int\<close> divided by \<open>sizeof\<close> is converted to 64 bits without sign first; the result is cut to 32 bits.\<close>

definition size_div :: "int \<Rightarrow> int" where
  "size_div n = (n mod 2 ^ 64) div SIZEOF_ZEND_OP"

definition XDEBUG_ZNODE_JMP_LINE :: "int \<Rightarrow> nat \<Rightarrow> int" where
  "XDEBUG_ZNODE_JMP_LINE jmp_offset opline = to_int32 (size_div jmp_offset + int opline)"

definition XDEBUG_JMP_NOT_SET :: int where "XDEBUG_JMP_NOT_SET = 2 ^ 31 - 1 - 1"
definition XDEBUG_JMP_EXIT :: int where "XDEBUG_JMP_EXIT = 2 ^ 31 - 1 - 2"
definition XDEBUG_BRANCH_MAX_OUTS :: nat where "XDEBUG_BRANCH_MAX_OUTS = 64"
definition ZEND_LAST_CATCH :: "nat \<Rightarrow> bool" where "ZEND_LAST_CATCH extended_value = odd extended_value"

definition uint_of :: "int \<Rightarrow> nat" where
  "uint_of n = nat (n mod 2 ^ 32)"

text \<open>The \<open>DO\<close> opcode of the call that a call of \<open>exit\<close> belongs to; calls in its arguments are skipped.\<close>

definition begins_call :: "zend_opcode \<Rightarrow> bool" where
  "begins_call c \<longleftrightarrow>
     c = ZEND_INIT_FCALL \<or> c = ZEND_INIT_FCALL_BY_NAME \<or> c = ZEND_INIT_NS_FCALL_BY_NAME \<or> c = ZEND_INIT_DYNAMIC_CALL \<or>
     c = ZEND_INIT_USER_CALL \<or> c = ZEND_INIT_METHOD_CALL \<or> c = ZEND_INIT_STATIC_METHOD_CALL \<or>
     c = ZEND_INIT_PARENT_PROPERTY_HOOK_CALL \<or> c = ZEND_NEW"

definition does_call :: "zend_opcode \<Rightarrow> bool" where
  "does_call c \<longleftrightarrow> c = ZEND_DO_FCALL \<or> c = ZEND_DO_FCALL_BY_NAME \<or> c = ZEND_DO_ICALL \<or> c = ZEND_DO_UCALL"

fun exit_call_done :: "zend_op list \<Rightarrow> int \<Rightarrow> bool" where
  "exit_call_done [] level = False"
| "exit_call_done (opcode # ops) level =
     (if begins_call (op_opcode opcode) then exit_call_done ops (level + 1)
      else if does_call (op_opcode opcode) then level = 0 \<or> exit_call_done ops (level - 1)
      else exit_call_done ops level)"

text \<open>The cases of a \<open>match\<close> or \<open>switch\<close>: no more than leave room for two.\<close>

definition case_jumps :: "nat \<Rightarrow> int list \<Rightarrow> int list" where
  "case_jumps position table =
     take (XDEBUG_BRANCH_MAX_OUTS - 2) (map (\<lambda>v. to_int32 (int position + size_div v)) table)"

text \<open>
  \<open>xdebug_find_jumps\<close>: the inner \<open>None\<close> is the result 0, a list the filled part of \<open>jumps\<close>; the outer \<open>None\<close> is a read
  outside the opcodes, or of a literal that is not of the kind the opcode has.
\<close>

definition find_catch_jumps :: "zend_op \<Rightarrow> nat \<Rightarrow> int list" where
  "find_catch_jumps opcode position =
     (let next_op = to_int32 (int position + 1) in
      if ZEND_LAST_CATCH (op_extended_value opcode) then [next_op, XDEBUG_JMP_EXIT]
      else (let target = XDEBUG_ZNODE_JMP_LINE (op_op2_jmp opcode) position in
            if target = next_op then [next_op] else [next_op, target]))"

definition find_switch_jumps :: "zend_op \<Rightarrow> nat \<Rightarrow> int list option" where
  "find_switch_jumps opcode position =
     (case op_constant opcode of
        Const_table table \<Rightarrow>
          Some (case_jumps position table @
                [to_int32 (int position + size_div (int (op_extended_value opcode)))] @
                (if op_opcode opcode \<noteq> ZEND_MATCH then [to_int32 (int position + 1)] else []))
      | _ \<Rightarrow> None)"

definition xdebug_find_jumps :: "cov_op_array \<Rightarrow> nat \<Rightarrow> int list option option" where
  "xdebug_find_jumps opa position =
     (case op_at opa position of
        None \<Rightarrow> None
      | Some opcode \<Rightarrow>
          (let c = op_opcode opcode; next_op = to_int32 (int position + 1);
               op1 = XDEBUG_ZNODE_JMP_LINE (op_op1_jmp opcode) position;
               op2 = XDEBUG_ZNODE_JMP_LINE (op_op2_jmp opcode) position in
           if c = ZEND_JMP then Some (Some [op1])
           else if c = ZEND_JMPZ \<or> c = ZEND_JMPNZ \<or> c = ZEND_JMPZ_EX \<or> c = ZEND_JMPNZ_EX then Some (Some [next_op, op2])
           else if c = ZEND_FE_FETCH_R \<or> c = ZEND_FE_FETCH_RW
             then Some (Some [next_op, to_int32 (int position + size_div (int (op_extended_value opcode)))])
           else if c = ZEND_FE_RESET_R \<or> c = ZEND_FE_RESET_RW then Some (Some [next_op, op2])
           else if c = ZEND_CATCH then Some (Some (find_catch_jumps opcode position))
           else if c = ZEND_GOTO then Some (Some [op1])
           else if c = ZEND_FAST_CALL then Some (Some [op1, next_op])
           else if c = ZEND_FAST_RET then Some (Some [XDEBUG_JMP_EXIT])
           else if c = ZEND_JMP_FRAMELESS then Some (Some [next_op, op2])
           else if c = ZEND_GENERATOR_RETURN \<or> c = ZEND_THROW \<or> c = ZEND_MATCH_ERROR \<or> c = ZEND_RETURN
             then Some (Some [XDEBUG_JMP_EXIT])
           else if c = ZEND_INIT_FCALL then
             (case op_constant opcode of
                Const_string func_name \<Rightarrow>
                  if func_name = ''exit''
                  then if exit_call_done (drop (position + 1) (ca_opcodes opa)) 0 then Some (Some [XDEBUG_JMP_EXIT]) else None
                  else Some None
              | _ \<Rightarrow> None)
           else if c = ZEND_MATCH \<or> c = ZEND_SWITCH_LONG \<or> c = ZEND_SWITCH_STRING
             then map_option Some (find_switch_jumps opcode position)
           else Some None))"

text \<open>The array that takes the jumps has room for them, and each is an \<open>int\<close>.\<close>

definition jumps_good :: "int list option \<Rightarrow> bool" where
  "jumps_good r \<longleftrightarrow> (\<forall>js. r = Some js \<longrightarrow> 0 < length js \<and> length js \<le> XDEBUG_BRANCH_MAX_OUTS \<and>
     list_all (\<lambda>t. - (2 ^ 31) \<le> t \<and> t < 2 ^ 31) js)"

lemma int32_range [simp]: "- 2147483648 \<le> to_int32 n" "to_int32 n < 2147483648"
  using to_int32_bounds [of n] by simp_all

lemma post_constant [post_rules]:
  "(c = No_constant \<Longrightarrow> post Q a) \<Longrightarrow> (\<And>s. c = Const_string s \<Longrightarrow> post Q (f s)) \<Longrightarrow> (\<And>t. c = Const_table t \<Longrightarrow> post Q (g t)) \<Longrightarrow>
   post Q (case c of No_constant \<Rightarrow> a | Const_string s \<Rightarrow> f s | Const_table t \<Rightarrow> g t)"
  by (cases c) auto

lemma find_jumps_good: "post jumps_good (xdebug_find_jumps opa position)"
proof -
  have catch: "jumps_good (Some (find_catch_jumps opcode position))" for opcode
    by (simp add: jumps_good_def find_catch_jumps_def Let_def XDEBUG_ZNODE_JMP_LINE_def XDEBUG_BRANCH_MAX_OUTS_def
        XDEBUG_JMP_EXIT_def)
  have switch: "jumps_good (Some js)" if "find_switch_jumps opcode position = Some js" for opcode js
    using that
    by (auto simp: jumps_good_def find_switch_jumps_def case_jumps_def XDEBUG_BRANCH_MAX_OUTS_def list_all_iff
        dest!: in_set_takeD split: rt_constant.splits)
  show ?thesis
    unfolding xdebug_find_jumps_def Let_def
    by (intro post_rules catch; (erule switch)?)
      (simp_all add: jumps_good_def XDEBUG_ZNODE_JMP_LINE_def XDEBUG_BRANCH_MAX_OUTS_def XDEBUG_JMP_EXIT_def)
qed

lemma jumps_fit:
  assumes "xdebug_find_jumps opa position = Some (Some js)"
  shows "0 < length js" "length js \<le> XDEBUG_BRANCH_MAX_OUTS" "t \<in> set js \<Longrightarrow> - (2 ^ 31) \<le> t \<and> t < 2 ^ 31"
  using postD [OF find_jumps_good assms] by (auto simp: jumps_good_def list_all_iff)

text \<open>The conversions come out right: a forward or backward offset of whole opcodes is a jump by that many.\<close>

lemma jmp_line_exact:
  assumes "0 \<le> int opline + k" "int opline + k < 2 ^ 31"
  shows "XDEBUG_ZNODE_JMP_LINE (SIZEOF_ZEND_OP * k) opline = int opline + k"
proof -
  have "to_int32 (size_div (SIZEOF_ZEND_OP * k) + int opline) = to_int32 (k + int opline)"
  proof -
    have "(32 * k) mod 2 ^ 64 = 32 * (k mod 2 ^ 59)"
      using mult_mod_right [of 32 k "2 ^ 59"] by simp
    then have "size_div (SIZEOF_ZEND_OP * k) = k mod 2 ^ 59" by (simp add: size_div_def SIZEOF_ZEND_OP_def)
    moreover have "to_int32 (k mod 2 ^ 59 + m) = to_int32 (k + m)" for m :: int
    proof -
      have "(2::int) ^ 32 dvd 2 ^ 59" by (rule le_imp_power_dvd) simp
      then have "(k mod 2 ^ 59) mod 2 ^ 32 = k mod 2 ^ 32" by (rule mod_mod_cancel)
      then have "(k mod 2 ^ 59 + (m + 2 ^ 31)) mod 2 ^ 32 = (k + (m + 2 ^ 31)) mod 2 ^ 32" by (rule mod_add_cong) simp
      then show ?thesis by (simp add: to_int32_def add.assoc)
    qed
    ultimately show ?thesis by simp
  qed
  also have "\<dots> = int opline + k" using assms by (simp add: add.commute)
  finally show ?thesis by (simp add: XDEBUG_ZNODE_JMP_LINE_def)
qed

end
