(* ===== verification/Xd_Branch.thy ===== *)
theory Xd_Branch
  imports Xd_Set Xd_Hash Xd_Str Xd_Opcodes "HOL-Library.Monad_Syntax"
begin

text \<open>
  The branches of a function and the paths through them: \<open>src/coverage/branch_info.c\<close>, and the analysis that fills
  them in, \<open>xdebug_analysis_branch\<close> and \<open>xdebug_analysis_oparray\<close> of \<open>src/coverage/code_coverage.c\<close>.  A path is the
  list of its elements.  A read or write outside the branches, the opcodes or a bit set is \<open>None\<close>; so is a recursion
  that does not end.
\<close>

definition XDEBUG_MAX_PATHS :: nat where "XDEBUG_MAX_PATHS = 4096"

record xdebug_branch =
  br_start_lineno :: nat
  br_end_lineno :: nat
  br_end_op :: nat
  br_outs_count :: nat
  br_outs :: "int list"

type_synonym xdebug_path = "nat list"

text \<open>What a slot of the array of paths holds; the code leaves the pointer in the slot when it frees a path.\<close>

datatype path_slot = Path_null | Path_freed | Path_at xdebug_path | Path_unset

record xdebug_path_info =
  pa_paths_count :: nat
  pa_paths_size :: nat
  pa_paths :: "path_slot list"
  pa_path_hash :: "xdebug_path xdebug_hash option"

record xdebug_branch_info =
  bri_size :: nat
  bri_entry_points :: xdebug_set
  bri_starts :: xdebug_set
  bri_ends :: xdebug_set
  bri_branches :: "xdebug_branch list"
  bri_highest_out :: nat
  bri_path_info :: xdebug_path_info

definition xdebug_path_info_ctor :: xdebug_path_info where
  "xdebug_path_info_ctor = \<lparr>pa_paths_count = 0, pa_paths_size = 0, pa_paths = [], pa_path_hash = None\<rparr>"

definition zero_branch :: xdebug_branch where
  "zero_branch =
     \<lparr>br_start_lineno = 0, br_end_lineno = 0, br_end_op = 0, br_outs_count = 0, br_outs = replicate XDEBUG_BRANCH_MAX_OUTS 0\<rparr>"

definition xdebug_branch_info_create :: "nat \<Rightarrow> xdebug_branch_info option" where
  "xdebug_branch_info_create n =
     map_option (\<lambda>st. \<lparr>bri_size = n, bri_entry_points = st, bri_starts = st, bri_ends = st, bri_branches = replicate n zero_branch,
                       bri_highest_out = 0, bri_path_info = xdebug_path_info_ctor\<rparr>) (xdebug_set_create n)"

section \<open>Filling in branches\<close>

definition branch_update :: "xdebug_branch_info \<Rightarrow> nat \<Rightarrow> (xdebug_branch \<Rightarrow> xdebug_branch) \<Rightarrow> xdebug_branch_info option" where
  "branch_update bi pos f =
     (if pos < length (bri_branches bi)
      then Some (bi\<lparr>bri_branches := (bri_branches bi)[pos := f (bri_branches bi ! pos)]\<rparr>) else None)"

definition add_start :: "xdebug_branch_info \<Rightarrow> nat \<Rightarrow> xdebug_branch_info option" where
  "add_start bi pos = map_option (\<lambda>st. bi\<lparr>bri_starts := st\<rparr>) (xdebug_set_add (bri_starts bi) pos)"

definition add_end :: "xdebug_branch_info \<Rightarrow> nat \<Rightarrow> xdebug_branch_info option" where
  "add_end bi pos = map_option (\<lambda>st. bi\<lparr>bri_ends := st\<rparr>) (xdebug_set_add (bri_ends bi) pos)"

definition add_entry_point :: "xdebug_branch_info \<Rightarrow> nat \<Rightarrow> xdebug_branch_info option" where
  "add_entry_point bi pos = map_option (\<lambda>st. bi\<lparr>bri_entry_points := st\<rparr>) (xdebug_set_add (bri_entry_points bi) pos)"

definition set_start_lineno :: "nat \<Rightarrow> xdebug_branch \<Rightarrow> xdebug_branch" where
  "set_start_lineno lineno b = b\<lparr>br_start_lineno := lineno\<rparr>"

definition set_out :: "nat \<Rightarrow> int \<Rightarrow> xdebug_branch \<Rightarrow> xdebug_branch" where
  "set_out outidx jump_pos b =
     b\<lparr>br_outs := (br_outs b)[outidx := jump_pos], br_outs_count := max (br_outs_count b) (outidx + 1)\<rparr>"

definition xdebug_branch_info_update :: "xdebug_branch_info \<Rightarrow> nat \<Rightarrow> nat \<Rightarrow> nat \<Rightarrow> int \<Rightarrow> xdebug_branch_info option" where
  "xdebug_branch_info_update bi pos lineno outidx jump_pos =
     do { bi1 \<leftarrow> add_end bi pos;
          bi2 \<leftarrow> (if outidx < XDEBUG_BRANCH_MAX_OUTS then branch_update bi1 pos (set_out outidx jump_pos) else Some bi1);
          branch_update bi2 pos (set_start_lineno lineno) }"

section \<open>The analysis\<close>

text \<open>The set of opcodes that can be reached, and the branches when they are asked for.\<close>

type_synonym analysis = "xdebug_set \<times> xdebug_branch_info option"

definition on_branches :: "(xdebug_branch_info \<Rightarrow> xdebug_branch_info option) \<Rightarrow> xdebug_branch_info option \<Rightarrow>
     xdebug_branch_info option option" where
  "on_branches f bi = (case bi of None \<Rightarrow> Some None | Some b \<Rightarrow> map_option Some (f b))"

definition mark_reached :: "nat \<Rightarrow> analysis \<Rightarrow> analysis option" where
  "mark_reached position st = map_option (\<lambda>s. (s, snd st)) (xdebug_set_add (fst st) position)"

text \<open>A branch that ends at this opcode without a jump.\<close>

definition end_branch :: "nat \<Rightarrow> nat \<Rightarrow> xdebug_branch_info \<Rightarrow> xdebug_branch_info option" where
  "end_branch position lineno bi = Option.bind (add_end bi position) (\<lambda>b. branch_update b position (set_start_lineno lineno))"

definition start_branch :: "cov_op_array \<Rightarrow> nat \<Rightarrow> xdebug_branch_info \<Rightarrow> xdebug_branch_info option" where
  "start_branch opa position bi =
     do { b \<leftarrow> add_start bi position;
          opcode \<leftarrow> op_at opa position;
          branch_update b position (set_start_lineno (op_lineno opcode)) }"

definition record_highest_out :: "nat \<Rightarrow> xdebug_branch_info \<Rightarrow> xdebug_branch_info" where
  "record_highest_out jump_count bi = (if jump_count > bri_highest_out bi then bi\<lparr>bri_highest_out := jump_count\<rparr> else bi)"

text \<open>One round of the loop over the jumps; \<open>rec\<close> is the analysis of the branch that begins at the target.\<close>

definition take_jump ::
    "(nat \<Rightarrow> analysis \<Rightarrow> analysis option) \<Rightarrow> cov_op_array \<Rightarrow> nat \<Rightarrow> nat \<times> int \<Rightarrow> analysis \<Rightarrow> analysis option" where
  "take_jump rec opa position jump st =
     (case jump of (i, target) \<Rightarrow>
       if target = XDEBUG_JMP_EXIT \<or> target \<noteq> XDEBUG_JMP_NOT_SET
       then do { opcode \<leftarrow> op_at opa position;
                 bi \<leftarrow> on_branches (\<lambda>b. xdebug_branch_info_update b position (op_lineno opcode) i target) (snd st);
                 if target \<noteq> XDEBUG_JMP_EXIT then rec (uint_of target) (fst st, bi) else Some (fst st, bi) }
       else Some st)"

text \<open>The loop over the opcodes of a branch.  The test for \<open>ZEND_RETURN_BY_REF\<close> is the only one after the jumps that can hold.\<close>

function walk_branch :: "(nat \<Rightarrow> analysis \<Rightarrow> analysis option) \<Rightarrow> cov_op_array \<Rightarrow> nat \<Rightarrow> analysis \<Rightarrow> analysis option" where
  "walk_branch rec opa position st =
     (case op_at opa position of
        None \<Rightarrow> Some st
      | Some opcode \<Rightarrow>
         (case xdebug_find_jumps opa position of
            None \<Rightarrow> None
          | Some (Some jumps) \<Rightarrow>
              loop_over (take_jump rec opa position) (enumerate 0 jumps)
                (fst st, map_option (record_highest_out (length jumps)) (snd st))
          | Some None \<Rightarrow>
              if op_opcode opcode = ZEND_THROW \<or> op_opcode opcode = ZEND_RETURN \<or> op_opcode opcode = ZEND_RETURN_BY_REF
              then map_option (Pair (fst st)) (on_branches (end_branch position (op_lineno opcode)) (snd st))
              else Option.bind (mark_reached (position + 1) st) (walk_branch rec opa (position + 1))))"
  by pat_completeness auto
termination
  by (relation "measure (\<lambda>(rec, opa, position, st). length (ca_opcodes opa) - position)")
    (auto simp: op_at_def split: if_splits)

declare walk_branch.simps [simp del]

lemma mono_option_const: "mono_option (\<lambda>f. v)"
  by (simp add: monotone_def option.leq_refl)

lemma mono_option_if: "mono_option A \<Longrightarrow> mono_option B \<Longrightarrow> mono_option (\<lambda>f. if c then A f else B f)"
  by (cases c) simp_all

lemma take_jump_mono [partial_function_mono]:
  assumes "\<And>p s. mono_option (\<lambda>f. B f p s)"
  shows "mono_option (\<lambda>f. take_jump (B f) opa position jump st)"
proof -
  obtain i target where jump: "jump = (i, target)" by (cases jump)
  have "mono_option (\<lambda>f. if target \<noteq> XDEBUG_JMP_EXIT then B f p s else Some t)" for p s t
    by (cases "target \<noteq> XDEBUG_JMP_EXIT") (simp_all add: assms mono_option_const)
  then show ?thesis
    unfolding take_jump_def jump prod.case
    by (cases "target = XDEBUG_JMP_EXIT \<or> target \<noteq> XDEBUG_JMP_NOT_SET")
      (simp only: if_True if_False mono_option_const, (intro bind_mono mono_option_const; assumption)?)+
qed

lemma walk_branch_mono [partial_function_mono]:
  assumes "\<And>p s. mono_option (\<lambda>f. B f p s)"
  shows "mono_option (\<lambda>f. walk_branch (B f) opa position st)"
proof (induction "length (ca_opcodes opa) - position" arbitrary: position st rule: less_induct)
  case less
  show ?case
  proof (cases "op_at opa position")
    case None
    then show ?thesis by (subst walk_branch.simps) (simp add: mono_option_const)
  next
    case (Some opcode)
    then have "position < length (ca_opcodes opa)" by (simp add: op_at_def split: if_splits)
    then have IH: "mono_option (\<lambda>f. walk_branch (B f) opa (position + 1) s)" for s by (intro less) simp
    have on: "mono_option (\<lambda>f. Option.bind v (walk_branch (B f) opa (position + 1)))" for v :: "analysis option"
      by (rule bind_mono [OF mono_option_const IH])
    have jumps: "mono_option (\<lambda>f. loop_over (take_jump (B f) opa position) js s)" for js s
      by (rule loop_over_mono) (rule take_jump_mono [OF assms])
    show ?thesis
    proof (cases "xdebug_find_jumps opa position")
      case None
      then show ?thesis using Some by (subst walk_branch.simps) (simp add: mono_option_const)
    next
      case (Some found)
      then show ?thesis using \<open>op_at opa position = Some opcode\<close> on jumps
        by (subst walk_branch.simps, cases found) (simp_all only: option.case, rule mono_option_if [OF mono_option_const])
    qed
  qed
qed

partial_function (option) xdebug_analysis_branch :: "cov_op_array \<Rightarrow> nat \<Rightarrow> analysis \<Rightarrow> analysis option" where
  "xdebug_analysis_branch opa position st =
     do { bi \<leftarrow> on_branches (start_branch opa position) (snd st);
          visited \<leftarrow> xdebug_set_in (fst st) position;
          if visited \<noteq> 0 then Some (fst st, bi)
          else Option.bind (mark_reached position (fst st, bi))
                 (\<lambda>s. walk_branch (\<lambda>p t. xdebug_analysis_branch opa p t) opa position s) }"

text \<open>The first opcode and every \<open>catch\<close> are where control enters; the last opcode ends a branch.\<close>

definition enter_at :: "cov_op_array \<Rightarrow> nat \<Rightarrow> analysis \<Rightarrow> analysis option" where
  "enter_at opa position st =
     do { opcode \<leftarrow> op_at opa position;
          if position = 0 \<or> op_opcode opcode = ZEND_CATCH
          then do { st1 \<leftarrow> xdebug_analysis_branch opa position st;
                    map_option (Pair (fst st1)) (on_branches (\<lambda>b. add_entry_point b position) (snd st1)) }
          else Some st }"

definition xdebug_analysis_oparray :: "cov_op_array \<Rightarrow> analysis \<Rightarrow> analysis option" where
  "xdebug_analysis_oparray opa st =
     do { st1 \<leftarrow> loop_over (enter_at opa) [0..<length (ca_opcodes opa)] st;
          bi \<leftarrow> on_branches
                 (\<lambda>b. do { opcode \<leftarrow> op_at opa (length (ca_opcodes opa) - 1);
                           end_branch (length (ca_opcodes opa) - 1) (op_lineno opcode) b }) (snd st1);
          Some (fst st1, bi) }"

section \<open>Chained catches, and the extent of branches\<close>

partial_function (option) only_leave_first_catch :: "cov_op_array \<Rightarrow> nat \<Rightarrow> xdebug_branch_info \<Rightarrow> xdebug_branch_info option" where
  "only_leave_first_catch opa position0 bi =
     do { opcode0 \<leftarrow> op_at opa position0;
          let position = (if op_opcode opcode0 = ZEND_FETCH_CLASS then position0 + 1 else position0);
          opcode \<leftarrow> op_at opa position;
          if op_opcode opcode \<noteq> ZEND_CATCH then Some bi
          else do {
            entries \<leftarrow> xdebug_set_remove (bri_entry_points bi) position;
            let bi1 = bi\<lparr>bri_entry_points := entries\<rparr>;
            if ZEND_LAST_CATCH (op_extended_value opcode) then Some bi1
            else do {
              let exit0 = uint_of (XDEBUG_ZNODE_JMP_LINE (op_op2_jmp opcode) position);
              exit_op0 \<leftarrow> op_at opa exit0;
              let exit_jmp = (if op_opcode exit_op0 = ZEND_FETCH_CLASS then exit0 + 1 else exit0);
              exit_op \<leftarrow> op_at opa exit_jmp;
              if op_opcode exit_op = ZEND_CATCH then only_leave_first_catch opa exit_jmp bi1 else Some bi1 } } }"

definition unchain_catch :: "cov_op_array \<Rightarrow> nat \<Rightarrow> xdebug_branch_info \<Rightarrow> xdebug_branch_info option" where
  "unchain_catch opa i bi =
     do { entry \<leftarrow> xdebug_set_in (bri_entry_points bi) i;
          if entry = 0 then Some bi
          else do { opcode \<leftarrow> op_at opa i;
                    if op_opcode opcode = ZEND_CATCH \<and> op_op2_jmp opcode \<noteq> 0
                    then only_leave_first_catch opa (uint_of (XDEBUG_ZNODE_JMP_LINE (op_op2_jmp opcode) i)) bi
                    else Some bi } }"

text \<open>The loop keeps whether it is in a branch and, once there was one, the last start.\<close>

definition fall_into :: "nat \<Rightarrow> nat \<Rightarrow> xdebug_branch \<Rightarrow> xdebug_branch" where
  "fall_into i lineno b =
     b\<lparr>br_outs_count := 1, br_outs := (br_outs b)[0 := to_int32 (int i)], br_end_op := i - 1, br_end_lineno := lineno\<rparr>"

definition ends_with :: "nat \<Rightarrow> xdebug_branch \<Rightarrow> xdebug_branch \<Rightarrow> xdebug_branch" where
  "ends_with i e b =
     b\<lparr>br_outs := take (br_outs_count e) (br_outs e) @ drop (br_outs_count e) (br_outs b), br_outs_count := br_outs_count e,
       br_end_op := i, br_end_lineno := br_start_lineno e\<rparr>"

definition branch_at :: "xdebug_branch_info \<Rightarrow> nat \<Rightarrow> xdebug_branch option" where
  "branch_at bi i = (if i < length (bri_branches bi) then Some (bri_branches bi ! i) else None)"

definition extend_start ::
    "nat \<Rightarrow> bool \<times> nat option \<times> xdebug_branch_info \<Rightarrow> (bool \<times> nat option \<times> xdebug_branch_info) option" where
  "extend_start i st =
     (case st of (in_branch, last_start, bi) \<Rightarrow>
       do { start \<leftarrow> xdebug_set_in (bri_starts bi) i;
            if start = 0 then Some st
            else if in_branch
            then do { l \<leftarrow> last_start;
                      b \<leftarrow> branch_at bi i;
                      bi1 \<leftarrow> branch_update bi l (fall_into i (br_start_lineno b));
                      Some (True, Some i, bi1) }
            else Some (True, Some i, bi) })"

definition extend_end ::
    "nat \<Rightarrow> bool \<times> nat option \<times> xdebug_branch_info \<Rightarrow> (bool \<times> nat option \<times> xdebug_branch_info) option" where
  "extend_end i st =
     (case st of (in_branch, last_start, bi) \<Rightarrow>
       do { end_here \<leftarrow> xdebug_set_in (bri_ends bi) i;
            if end_here = 0 then Some st
            else do { l \<leftarrow> last_start;
                      e \<leftarrow> branch_at bi i;
                      bi1 \<leftarrow> branch_update bi l (ends_with i e);
                      Some (False, last_start, bi1) } })"

definition extend_branches ::
    "nat \<Rightarrow> bool \<times> nat option \<times> xdebug_branch_info \<Rightarrow> (bool \<times> nat option \<times> xdebug_branch_info) option" where
  "extend_branches i st = Option.bind (extend_start i st) (extend_end i)"

definition xdebug_branch_post_process :: "cov_op_array \<Rightarrow> xdebug_branch_info \<Rightarrow> xdebug_branch_info option" where
  "xdebug_branch_post_process opa bi =
     do { bi1 \<leftarrow> loop_over (unchain_catch opa) [0..<set_size (bri_entry_points bi)] bi;
          (b, l, bi2) \<leftarrow> loop_over extend_branches [0..<set_size (bri_starts bi1)] (False, None, bi1);
          Some bi2 }"

section \<open>Paths\<close>

definition xdebug_path_info_add_path :: "xdebug_path_info \<Rightarrow> xdebug_path \<Rightarrow> xdebug_path_info option" where
  "xdebug_path_info_add_path pa path =
     (let pa1 = (if pa_paths_count pa = pa_paths_size pa
                 then pa\<lparr>pa_paths_size := pa_paths_size pa + 32, pa_paths := pa_paths pa @ replicate 32 Path_unset\<rparr> else pa) in
      if pa_paths_count pa1 < length (pa_paths pa1)
      then Some (pa1\<lparr>pa_paths := (pa_paths pa1)[pa_paths_count pa1 := Path_at path], pa_paths_count := pa_paths_count pa1 + 1\<rparr>)
      else None)"

definition path_at :: "xdebug_path_info \<Rightarrow> nat \<Rightarrow> xdebug_path option" where
  "path_at pa i = (if i < length (pa_paths pa) then (case pa_paths pa ! i of Path_at p \<Rightarrow> Some p | _ \<Rightarrow> None) else None)"

definition xdebug_path_exists :: "xdebug_path \<Rightarrow> nat \<Rightarrow> nat \<Rightarrow> bool" where
  "xdebug_path_exists path elem1 elem2 =
     list_ex (\<lambda>i. path ! i = elem1 \<and> path ! (i + 1) = elem2) [0..<length path - 1]"

partial_function (option) xdebug_branch_find_path ::
    "xdebug_branch list \<Rightarrow> nat \<Rightarrow> xdebug_path \<Rightarrow> xdebug_path_info \<Rightarrow> xdebug_path_info option" where
  "xdebug_branch_find_path branches nr prev_path pa =
     (if pa_paths_count pa \<ge> XDEBUG_MAX_PATHS then Some pa
      else if nr \<ge> length branches then None
      else do {
        let new_path = prev_path @ [nr];
        found_in \<leftarrow> loop_over
          (\<lambda>out st. if out \<noteq> 0 \<and> out \<noteq> XDEBUG_JMP_EXIT \<and> \<not> xdebug_path_exists new_path nr (uint_of out)
                     then do { pa1 \<leftarrow> xdebug_branch_find_path branches (uint_of out) new_path (snd st); Some (True, pa1) }
                     else Some st)
          (take (br_outs_count (branches ! nr)) (br_outs (branches ! nr))) (False, pa);
        if fst found_in then Some (snd found_in) else xdebug_path_info_add_path (snd found_in) new_path })"

definition xdebug_create_key_for_path :: "xdebug_path \<Rightarrow> string" where
  "xdebug_create_key_for_path path = concat (map (\<lambda>e. dec e @ '':'') path)"

definition find_from :: "xdebug_branch_info \<Rightarrow> nat \<Rightarrow> xdebug_path_info \<Rightarrow> xdebug_path_info option" where
  "find_from bi i pa =
     do { entry \<leftarrow> xdebug_set_in (bri_entry_points bi) i;
          if entry \<noteq> 0 then xdebug_branch_find_path (bri_branches bi) i [] pa else Some pa }"

definition key_path :: "xdebug_path_info \<Rightarrow> nat \<Rightarrow> xdebug_path xdebug_hash \<Rightarrow> xdebug_path xdebug_hash option" where
  "key_path pa i h = map_option (\<lambda>p. xdebug_hash_add h (xdebug_create_key_for_path p) p) (path_at pa i)"

definition xdebug_branch_find_paths :: "xdebug_branch_info \<Rightarrow> xdebug_branch_info option" where
  "xdebug_branch_find_paths bi =
     do { pa \<leftarrow> loop_over (find_from bi) [0..<set_size (bri_entry_points bi)] (bri_path_info bi);
          h \<leftarrow> loop_over (key_path pa) [0..<pa_paths_count pa] (xdebug_hash_alloc 128 False);
          Some (bi\<lparr>bri_path_info := pa\<lparr>pa_path_hash := Some h\<rparr>\<rparr>) }"

end
