(* ===== verification/Xd_Reach.thy ===== *)
theory Xd_Reach
  imports Xd_Branch
begin

text \<open>
  What the coverage analysis of \<open>Xd_Branch\<close> computes: the set of active code is the code that control can reach from the
  first opcode or a \<open>catch\<close>, and the analysis ends, inside the opcodes, the branches and the bit sets.
\<close>

section \<open>Control flow\<close>

definition code_length :: "cov_op_array \<Rightarrow> nat" where
  "code_length opa = length (ca_opcodes opa)"

definition returns_here :: "cov_op_array \<Rightarrow> nat \<Rightarrow> bool" where
  "returns_here opa p =
     (case op_at opa p of
        Some opcode \<Rightarrow> op_opcode opcode = ZEND_THROW \<or> op_opcode opcode = ZEND_RETURN \<or> op_opcode opcode = ZEND_RETURN_BY_REF
      | None \<Rightarrow> False)"

definition jump_targets :: "int list \<Rightarrow> nat list" where
  "jump_targets js = map uint_of (filter (\<lambda>t. t \<noteq> XDEBUG_JMP_EXIT \<and> t \<noteq> XDEBUG_JMP_NOT_SET) js)"

definition successors :: "cov_op_array \<Rightarrow> nat \<Rightarrow> nat list" where
  "successors opa p =
     (case xdebug_find_jumps opa p of
        Some (Some js) \<Rightarrow> jump_targets js
      | Some None \<Rightarrow> if returns_here opa p then [] else [p + 1]
      | None \<Rightarrow> [])"

text \<open>The jumps of an opcode alone; where a branch may start.\<close>

definition jump_list :: "cov_op_array \<Rightarrow> nat \<Rightarrow> nat list" where
  "jump_list opa p = (case xdebug_find_jumps opa p of Some (Some js) \<Rightarrow> jump_targets js | _ \<Rightarrow> [])"

definition enters :: "cov_op_array \<Rightarrow> nat \<Rightarrow> bool" where
  "enters opa p = (case op_at opa p of Some opcode \<Rightarrow> p = 0 \<or> op_opcode opcode = ZEND_CATCH | None \<Rightarrow> False)"

inductive reached :: "cov_op_array \<Rightarrow> nat \<Rightarrow> bool" for opa where
  entry: "enters opa p \<Longrightarrow> reached opa p"
| step: "reached opa p \<Longrightarrow> t \<in> set (successors opa p) \<Longrightarrow> reached opa t"

definition starting :: "cov_op_array \<Rightarrow> nat \<Rightarrow> bool" where
  "starting opa p \<longleftrightarrow> enters opa p \<or> (\<exists>x. reached opa x \<and> p \<in> set (jump_list opa x))"

text \<open>Code the engine hands over: every jump is to an opcode of the function, and it does not run off its end.\<close>

definition code_ok :: "cov_op_array \<Rightarrow> bool" where
  "code_ok opa \<longleftrightarrow> code_length opa < 2 ^ 31 \<and>
     list_all (\<lambda>p. xdebug_find_jumps opa p \<noteq> None \<and> list_all (\<lambda>t. t < code_length opa) (successors opa p)) [0..<code_length opa]"

lemma code_okD:
  assumes "code_ok opa" "p < code_length opa"
  shows "xdebug_find_jumps opa p \<noteq> None" "t \<in> set (successors opa p) \<Longrightarrow> t < code_length opa"
  using assms by (auto simp: code_ok_def list_all_iff)

lemma op_at_Some: "p < code_length opa \<Longrightarrow> \<exists>opcode. op_at opa p = Some opcode"
  by (simp add: op_at_def code_length_def)

lemma reached_less: "reached opa p \<Longrightarrow> code_ok opa \<Longrightarrow> p < code_length opa"
  by (induction rule: reached.induct) (auto simp: enters_def op_at_def code_length_def dest: code_okD split: if_splits)

lemma uint_of_small:
  assumes "- (2 ^ 31) \<le> t" "t < 2 ^ 31" "uint_of t < 2 ^ 31"
  shows "t = int (uint_of t)"
proof (cases "0 \<le> t")
  case True
  then show ?thesis using assms by (simp add: uint_of_def)
next
  case False
  then have "(t + 2 ^ 32) mod 2 ^ 32 = t + 2 ^ 32" using assms(1) by (intro mod_pos_pos_trivial) simp_all
  then have "t mod 2 ^ 32 = t + 2 ^ 32" by simp
  then show ?thesis using assms False by (simp add: uint_of_def)
qed

lemma jump_list_successors: "t \<in> set (jump_list opa p) \<Longrightarrow> t \<in> set (successors opa p)"
  by (auto simp: jump_list_def successors_def split: option.splits)

lemma starting_reached: "starting opa p \<Longrightarrow> reached opa p"
  by (auto simp: starting_def dest: jump_list_successors intro: reached.intros)

section \<open>The branches stay well formed\<close>

definition out_ok :: "nat \<Rightarrow> int \<Rightarrow> bool" where
  "out_ok n t \<longleftrightarrow> t = XDEBUG_JMP_EXIT \<or> 0 \<le> t \<and> t < int n"

definition branch_ok :: "nat \<Rightarrow> xdebug_branch \<Rightarrow> bool" where
  "branch_ok n b \<longleftrightarrow> length (br_outs b) = XDEBUG_BRANCH_MAX_OUTS \<and> br_outs_count b \<le> XDEBUG_BRANCH_MAX_OUTS \<and>
     list_all (out_ok n) (br_outs b)"

definition set_of_size :: "nat \<Rightarrow> xdebug_set \<Rightarrow> bool" where
  "set_of_size n st \<longleftrightarrow> set_ok st \<and> set_size st = n"

definition branches_ok :: "nat \<Rightarrow> xdebug_branch_info \<Rightarrow> bool" where
  "branches_ok n bi \<longleftrightarrow> set_of_size n (bri_entry_points bi) \<and> set_of_size n (bri_starts bi) \<and> set_of_size n (bri_ends bi) \<and>
     length (bri_branches bi) = n \<and> list_all (\<lambda>b. branch_ok n b \<and> br_outs_count b \<le> bri_highest_out bi) (bri_branches bi)"

text \<open>The starts are those of before and \<open>S\<close>; the width of the jumps and the paths are the same.\<close>

definition grown :: "nat \<Rightarrow> nat set \<Rightarrow> xdebug_branch_info \<Rightarrow> xdebug_branch_info \<Rightarrow> bool" where
  "grown n S bi bi' \<longleftrightarrow> branches_ok n bi' \<and> elems (bri_starts bi') = S \<union> elems (bri_starts bi) \<and>
     bri_highest_out bi' = bri_highest_out bi \<and> bri_path_info bi' = bri_path_info bi"

definition starts_of :: "xdebug_branch_info option \<Rightarrow> nat set" where
  "starts_of r = (case r of None \<Rightarrow> {} | Some bi \<Rightarrow> elems (bri_starts bi))"

definition highest_of :: "xdebug_branch_info option \<Rightarrow> nat" where
  "highest_of r = (case r of None \<Rightarrow> 0 | Some bi \<Rightarrow> bri_highest_out bi)"

definition paths_of :: "xdebug_branch_info option \<Rightarrow> xdebug_path_info option" where
  "paths_of r = map_option bri_path_info r"

text \<open>The number of jumps an opcode has.\<close>

definition jump_width :: "cov_op_array \<Rightarrow> nat \<Rightarrow> nat" where
  "jump_width opa p = (case xdebug_find_jumps opa p of Some (Some js) \<Rightarrow> length js | _ \<Rightarrow> 0)"

definition analysis_ok :: "cov_op_array \<Rightarrow> analysis \<Rightarrow> bool" where
  "analysis_ok opa st \<longleftrightarrow> set_of_size (code_length opa) (fst st) \<and> elems (fst st) \<subseteq> {p. reached opa p} \<and>
     (\<forall>bi. snd st = Some bi \<longrightarrow> branches_ok (code_length opa) bi) \<and> starts_of (snd st) \<subseteq> {p. starting opa p}"

lemma set_add_of_size:
  assumes "set_of_size n st" "p < n"
  shows "\<exists>st'. xdebug_set_add st p = Some st' \<and> set_of_size n st' \<and> elems st' = insert p (elems st)"
  using xdebug_set_add_ok [of st p] assms by (fastforce simp: set_of_size_def)

lemma set_in_of_size: "set_of_size n st \<Longrightarrow> \<exists>v. xdebug_set_in st p = Some v \<and> (v \<noteq> 0 \<longleftrightarrow> p \<in> elems st)"
  by (simp add: set_of_size_def xdebug_set_in_ok)

lemma set_create_of_size: "n < 2 ^ 32 \<Longrightarrow> \<exists>st. xdebug_set_create n = Some st \<and> set_of_size n st \<and> elems st = {}"
  using set_create_ok [of n] by (auto simp: set_of_size_def)

lemma branch_update_ok:
  assumes "branches_ok n bi" "p < n"
    "\<And>b. branch_ok n b \<Longrightarrow> br_outs_count b \<le> bri_highest_out bi \<Longrightarrow> branch_ok n (f b) \<and> br_outs_count (f b) \<le> bri_highest_out bi"
  shows "\<exists>bi'. branch_update bi p f = Some bi' \<and> grown n {} bi bi'"
proof -
  have "list_all (\<lambda>b. branch_ok n b \<and> br_outs_count b \<le> bri_highest_out bi) ((bri_branches bi)[p := f (bri_branches bi ! p)])"
    using assms unfolding branches_ok_def list_all_iff
    by (metis in_set_conv_nth length_list_update nth_list_update_eq nth_list_update_neq)
  then show ?thesis using assms(1,2) by (auto simp: branch_update_def branches_ok_def grown_def)
qed

lemma grown_trans: "grown n S bi bi1 \<Longrightarrow> grown n T bi1 bi2 \<Longrightarrow> grown n (S \<union> T) bi bi2"
  by (auto simp: grown_def)

lemma grown_ok: "grown n S bi bi1 \<Longrightarrow> branches_ok n bi1"
  by (simp add: grown_def)

lemma set_start_lineno_ok [simp]:
  "branch_ok n b \<Longrightarrow> branch_ok n (set_start_lineno l b)" "br_outs_count (set_start_lineno l b) = br_outs_count b"
  by (simp_all add: branch_ok_def set_start_lineno_def)

lemma set_out_ok:
  "branch_ok n b \<Longrightarrow> br_outs_count b \<le> h \<Longrightarrow> out_ok n t \<Longrightarrow> i < XDEBUG_BRANCH_MAX_OUTS \<Longrightarrow> i < h \<Longrightarrow>
    branch_ok n (set_out i t b) \<and> br_outs_count (set_out i t b) \<le> h"
  by (auto simp: branch_ok_def set_out_def list_all_iff dest: set_update_subset_insert [THEN subsetD])

lemma add_end_ok: "branches_ok n bi \<Longrightarrow> p < n \<Longrightarrow> \<exists>bi'. add_end bi p = Some bi' \<and> grown n {} bi bi'"
  using set_add_of_size [of n "bri_ends bi" p] by (auto simp: add_end_def branches_ok_def grown_def)

lemma add_start_ok: "branches_ok n bi \<Longrightarrow> p < n \<Longrightarrow> \<exists>bi'. add_start bi p = Some bi' \<and> grown n {p} bi bi'"
  using set_add_of_size [of n "bri_starts bi" p] by (auto simp: add_start_def branches_ok_def grown_def)

lemma add_entry_point_ok: "branches_ok n bi \<Longrightarrow> p < n \<Longrightarrow> \<exists>bi'. add_entry_point bi p = Some bi' \<and> grown n {} bi bi'"
  using set_add_of_size [of n "bri_entry_points bi" p] by (auto simp: add_entry_point_def branches_ok_def grown_def)

lemma end_branch_ok:
  assumes "branches_ok n bi" "p < n"
  shows "\<exists>bi'. end_branch p l bi = Some bi' \<and> grown n {} bi bi'"
proof -
  obtain b where b: "add_end bi p = Some b" "grown n {} bi b" using add_end_ok [OF assms] by blast
  with branch_update_ok [OF grown_ok [OF b(2)] assms(2), of "set_start_lineno l"] grown_trans [OF b(2)] show ?thesis
    by (fastforce simp: end_branch_def)
qed

lemma start_branch_ok:
  assumes "branches_ok (code_length opa) bi" "p < code_length opa"
  shows "\<exists>bi'. start_branch opa p bi = Some bi' \<and> grown (code_length opa) {p} bi bi'"
proof -
  obtain b where b: "add_start bi p = Some b" "grown (code_length opa) {p} bi b" using add_start_ok [OF assms] by blast
  obtain opcode where op: "op_at opa p = Some opcode" using op_at_Some [OF assms(2)] by blast
  obtain b' where "branch_update b p (set_start_lineno (op_lineno opcode)) = Some b'" "grown (code_length opa) {} b b'"
    using branch_update_ok [OF grown_ok [OF b(2)] assms(2), of "set_start_lineno (op_lineno opcode)"] by auto
  with b op grown_trans [OF b(2)] show ?thesis by (fastforce simp: start_branch_def)
qed

lemma info_update_ok:
  assumes "branches_ok n bi" "p < n" "out_ok n t" "i < XDEBUG_BRANCH_MAX_OUTS" "i < bri_highest_out bi"
  shows "\<exists>bi'. xdebug_branch_info_update bi p l i t = Some bi' \<and> grown n {} bi bi'"
proof -
  obtain b1 where b1: "add_end bi p = Some b1" "grown n {} bi b1" using add_end_ok [OF assms(1,2)] by blast
  obtain b2 where b2: "branch_update b1 p (set_out i t) = Some b2" "grown n {} b1 b2"
    using branch_update_ok [OF grown_ok [OF b1(2)] assms(2), of "set_out i t"] set_out_ok assms(3-5) b1(2)
    by (auto simp: grown_def)
  obtain b3 where b3: "branch_update b2 p (set_start_lineno l) = Some b3" "grown n {} b2 b3"
    using branch_update_ok [OF grown_ok [OF b2(2)] assms(2), of "set_start_lineno l"] by auto
  from grown_trans [OF grown_trans [OF b1(2) b2(2)] b3(2)] b1(1) b2(1) b3(1) assms(4) show ?thesis
    by (simp add: xdebug_branch_info_update_def)
qed

lemma highest_out_ok [simp]:
  "branches_ok n bi \<Longrightarrow> branches_ok n (record_highest_out k bi)" "bri_starts (record_highest_out k bi) = bri_starts bi"
  "bri_highest_out (record_highest_out k bi) = max k (bri_highest_out bi)" "bri_path_info (record_highest_out k bi) = bri_path_info bi"
  by (auto simp: record_highest_out_def branches_ok_def list_all_iff)

lemma on_branches_ok:
  assumes "analysis_ok opa st" "S \<subseteq> {p. starting opa p}"
    "\<And>bi. branches_ok (code_length opa) bi \<Longrightarrow> snd st = Some bi \<Longrightarrow> \<exists>bi'. f bi = Some bi' \<and> grown (code_length opa) S bi bi'"
  shows "\<exists>r. on_branches f (snd st) = Some r \<and> analysis_ok opa (fst st, r) \<and> (r = None) = (snd st = None) \<and>
           highest_of r = highest_of (snd st) \<and> paths_of r = paths_of (snd st) \<and> starts_of r = (if snd st = None then {} else S \<union> starts_of (snd st))"
proof (cases "snd st")
  case None
  with assms(1) show ?thesis by (simp add: on_branches_def analysis_ok_def starts_of_def highest_of_def paths_of_def)
next
  case (Some bi)
  with assms(1) have "branches_ok (code_length opa) bi" by (simp add: analysis_ok_def)
  then obtain bi' where "f bi = Some bi'" "grown (code_length opa) S bi bi'" using assms(3) Some by blast
  with Some assms(1,2) show ?thesis by (auto simp: on_branches_def analysis_ok_def starts_of_def grown_def highest_of_def paths_of_def)
qed

section \<open>The search\<close>

text \<open>
  \<open>explored opa E st st'\<close>: from \<open>st\<close> to \<open>st'\<close> code was only added, and the successors of what was added, and of \<open>E\<close>,
  are there too.
\<close>

definition explored :: "cov_op_array \<Rightarrow> nat set \<Rightarrow> analysis \<Rightarrow> analysis \<Rightarrow> bool" where
  "explored opa E st st' \<longleftrightarrow> analysis_ok opa st' \<and> elems (fst st) \<subseteq> elems (fst st') \<and>
     (\<forall>x \<in> elems (fst st') - elems (fst st) \<union> E. set (successors opa x) \<subseteq> elems (fst st')) \<and>
     (snd st' = None) = (snd st = None) \<and> starts_of (snd st) \<subseteq> starts_of (snd st') \<and>
     (\<forall>x \<in> elems (fst st') - elems (fst st) \<union> E. snd st \<noteq> None \<longrightarrow> set (jump_list opa x) \<subseteq> starts_of (snd st')) \<and>
     highest_of (snd st) \<le> highest_of (snd st') \<and> paths_of (snd st') = paths_of (snd st) \<and>
     (\<forall>x \<in> elems (fst st') - elems (fst st) \<union> E. snd st \<noteq> None \<longrightarrow> jump_width opa x \<le> highest_of (snd st'))"

lemma exploredD:
  assumes "explored opa E st st'"
  shows "analysis_ok opa st'" "elems (fst st) \<subseteq> elems (fst st')" "(snd st' = None) = (snd st = None)"
    "starts_of (snd st) \<subseteq> starts_of (snd st')" "highest_of (snd st) \<le> highest_of (snd st')" "paths_of (snd st') = paths_of (snd st)"
  using assms by (simp_all add: explored_def)

lemma explored_refl: "analysis_ok opa st \<Longrightarrow> explored opa {} st st"
  by (simp add: explored_def)

lemma explored_trans:
  assumes "explored opa E st st1" "explored opa F st1 st2"
  shows "explored opa (E \<union> F) st st2"
proof -
  note m = exploredD [OF assms(1)] exploredD [OF assms(2)]
  have x: "set (successors opa x) \<subseteq> elems (fst st2) \<and>
      (snd st \<noteq> None \<longrightarrow> set (jump_list opa x) \<subseteq> starts_of (snd st2) \<and> jump_width opa x \<le> highest_of (snd st2))"
    if "x \<in> elems (fst st2) - elems (fst st) \<union> (E \<union> F)" for x
  proof (cases "x \<in> elems (fst st1) - elems (fst st) \<union> E")
    case True
    with assms(1) have "set (successors opa x) \<subseteq> elems (fst st1)"
      "snd st \<noteq> None \<longrightarrow> set (jump_list opa x) \<subseteq> starts_of (snd st1) \<and> jump_width opa x \<le> highest_of (snd st1)"
      unfolding explored_def by blast+
    with m show ?thesis by (meson le_trans subset_trans)
  next
    case False
    with that have "x \<in> elems (fst st2) - elems (fst st1) \<union> F" by blast
    with assms(2) have "set (successors opa x) \<subseteq> elems (fst st2)"
      "snd st1 \<noteq> None \<longrightarrow> set (jump_list opa x) \<subseteq> starts_of (snd st2) \<and> jump_width opa x \<le> highest_of (snd st2)"
      unfolding explored_def by blast+
    with m(3) show ?thesis by simp
  qed
  have "starts_of (snd st) \<subseteq> starts_of (snd st2)" "elems (fst st) \<subseteq> elems (fst st2)" "highest_of (snd st) \<le> highest_of (snd st2)"
    "(snd st2 = None) = (snd st = None)" "paths_of (snd st2) = paths_of (snd st)" using m by auto
  with m(7) x show ?thesis unfolding explored_def by blast
qed

lemma explored_same: "explored opa E st st1 \<Longrightarrow> explored opa {} st1 st2 \<Longrightarrow> explored opa E st st2"
  using explored_trans [of opa E st st1 "{}" st2] by simp

text \<open>How much is left to mark.\<close>

definition unmarked :: "cov_op_array \<Rightarrow> analysis \<Rightarrow> nat" where
  "unmarked opa st = card ({..<code_length opa} - elems (fst st))"

lemma unmarked_mono: "elems (fst st) \<subseteq> elems (fst st') \<Longrightarrow> unmarked opa st' \<le> unmarked opa st"
  unfolding unmarked_def by (intro card_mono) auto

lemma unmarked_less:
  assumes "p < code_length opa" "p \<notin> elems (fst st)" "insert p (elems (fst st)) \<subseteq> elems (fst st')"
  shows "unmarked opa st' < unmarked opa st"
  unfolding unmarked_def using assms by (intro psubset_card_mono) auto

text \<open>A search for the branch at a start does its work: what it is passed down for is true of it.\<close>

definition explores :: "cov_op_array \<Rightarrow> nat \<Rightarrow> (nat \<Rightarrow> analysis \<Rightarrow> analysis option) \<Rightarrow> bool" where
  "explores opa m rec \<longleftrightarrow> (\<forall>p st. analysis_ok opa st \<longrightarrow> unmarked opa st \<le> m \<longrightarrow> starting opa p \<longrightarrow>
     (\<exists>st'. rec p st = Some st' \<and> explored opa {} st st' \<and> p \<in> elems (fst st') \<and> (snd st \<noteq> None \<longrightarrow> p \<in> starts_of (snd st'))))"

text \<open>Work on the branches alone.\<close>

lemma on_branches_explored:
  assumes "analysis_ok opa st" "S \<subseteq> {p. starting opa p}"
    "\<And>bi. branches_ok (code_length opa) bi \<Longrightarrow> snd st = Some bi \<Longrightarrow> \<exists>bi'. f bi = Some bi' \<and> grown (code_length opa) S bi bi'"
  shows "\<exists>r. on_branches f (snd st) = Some r \<and> explored opa {} st (fst st, r) \<and> (snd st \<noteq> None \<longrightarrow> S \<subseteq> starts_of r)"
  using on_branches_ok [OF assms] by (auto simp: explored_def starts_of_def)

lemma mark_reached_ok:
  assumes "analysis_ok opa st" "p < code_length opa" "reached opa p"
  shows "\<exists>st'. mark_reached p st = Some st' \<and> analysis_ok opa st' \<and> elems (fst st') = insert p (elems (fst st)) \<and> snd st' = snd st"
  using set_add_of_size [of "code_length opa" "fst st" p] assms by (auto simp: mark_reached_def analysis_ok_def)

lemma take_jump_ends:
  assumes rec: "explores opa m rec" and ok: "analysis_ok opa st" "unmarked opa st \<le> m"
    and p: "p < code_length opa" "reached opa p" "code_ok opa"
    and js: "xdebug_find_jumps opa p = Some (Some js)" "i < length js"
    and width: "snd st \<noteq> None \<longrightarrow> length js \<le> highest_of (snd st)"
  shows "\<exists>st'. take_jump rec opa p (i, js ! i) st = Some st' \<and> explored opa {} st st' \<and>
           set (jump_targets [js ! i]) \<subseteq> elems (fst st') \<and>
           (snd st \<noteq> None \<longrightarrow> set (jump_targets [js ! i]) \<subseteq> starts_of (snd st'))"
proof (cases "js ! i = XDEBUG_JMP_NOT_SET")
  case True
  then show ?thesis using explored_refl [OF ok(1)]
    by (simp add: take_jump_def jump_targets_def XDEBUG_JMP_EXIT_def XDEBUG_JMP_NOT_SET_def)
next
  case False
  let ?t = "js ! i"
  have t: "- (2 ^ 31) \<le> ?t" "?t < 2 ^ 31" "i < XDEBUG_BRANCH_MAX_OUTS"
    using jumps_fit [OF js(1)] js(2) nth_mem [OF js(2)] by auto
  have target: "uint_of ?t \<in> set (jump_list opa p)" if "?t \<noteq> XDEBUG_JMP_EXIT"
    using that False js nth_mem [OF js(2)] by (auto simp: jump_list_def jump_targets_def)
  have start: "starting opa (uint_of ?t)" if "?t \<noteq> XDEBUG_JMP_EXIT"
    using target [OF that] p(2) unfolding starting_def by blast
  have out: "out_ok (code_length opa) ?t"
  proof (cases "?t = XDEBUG_JMP_EXIT")
    case False
    with reached_less [OF starting_reached [OF start] p(3)] p(3)
    have u: "uint_of ?t < code_length opa" "uint_of ?t < 2 ^ 31" by (auto simp: code_ok_def)
    then have "?t = int (uint_of ?t)" by (intro uint_of_small t(1,2))
    with u(1) show ?thesis unfolding out_ok_def by linarith
  qed (simp add: out_ok_def)
  obtain opcode where op: "op_at opa p = Some opcode" using op_at_Some [OF p(1)] by blast
  obtain r where r: "on_branches (\<lambda>b. xdebug_branch_info_update b p (op_lineno opcode) i ?t) (snd st) = Some r"
    "explored opa {} st (fst st, r)"
    using on_branches_explored [OF ok(1), of "{}" "\<lambda>b. xdebug_branch_info_update b p (op_lineno opcode) i ?t"]
      info_update_ok [OF _ p(1) out t(3)] js(2) width by (fastforce simp: highest_of_def)
  show ?thesis
  proof (cases "?t = XDEBUG_JMP_EXIT")
    case True
    with op r False show ?thesis by (simp add: take_jump_def jump_targets_def)
  next
    case exit: False
    have "unmarked opa (fst st, r) \<le> m" using ok(2) by (simp add: unmarked_def)
    then obtain st' where st': "rec (uint_of ?t) (fst st, r) = Some st'" "explored opa {} (fst st, r) st'"
      "uint_of ?t \<in> elems (fst st')" "r \<noteq> None \<longrightarrow> uint_of ?t \<in> starts_of (snd st')"
      using rec exploredD(1) [OF r(2)] start [OF exit] unfolding explores_def by force
    have "take_jump rec opa p (i, ?t) st = Some st'" using op r(1) False exit st'(1) by (simp add: take_jump_def)
    moreover have "jump_targets [?t] = [uint_of ?t]" using False exit by (simp add: jump_targets_def)
    moreover have "(r = None) = (snd st = None)" using exploredD(3) [OF r(2)] by simp
    ultimately show ?thesis using st'(3,4) explored_same [OF r(2) st'(2)] by auto
  qed
qed

lemma jumps_end:
  assumes rec: "explores opa m rec" and ok: "analysis_ok opa st" "unmarked opa st \<le> m"
    and p: "p < code_length opa" "reached opa p" "code_ok opa"
    and js: "xdebug_find_jumps opa p = Some (Some js)" and width: "snd st \<noteq> None \<longrightarrow> length js \<le> highest_of (snd st)"
  shows "\<exists>st'. loop_over (take_jump rec opa p) (enumerate 0 js) st = Some st' \<and> explored opa {p} st st'"
proof -
  have "\<exists>u. loop_over (take_jump rec opa p) (enumerate 0 (take k js)) st = Some u \<and> explored opa {} st u \<and>
      set (jump_targets (take k js)) \<subseteq> elems (fst u) \<and> (snd st \<noteq> None \<longrightarrow> set (jump_targets (take k js)) \<subseteq> starts_of (snd u))"
    if "k \<le> length js" for k
    using that
  proof (induction k)
    case 0
    then show ?case using ok(1) by (simp add: explored_refl jump_targets_def)
  next
    case (Suc k)
    then obtain u where u: "loop_over (take_jump rec opa p) (enumerate 0 (take k js)) st = Some u" "explored opa {} st u"
      "set (jump_targets (take k js)) \<subseteq> elems (fst u)"
      "snd st \<noteq> None \<longrightarrow> set (jump_targets (take k js)) \<subseteq> starts_of (snd u)" by auto
    have "unmarked opa u \<le> m" using exploredD(2) [OF u(2)] ok(2) unmarked_mono [of st u opa] by simp
    then obtain v where v: "take_jump rec opa p (k, js ! k) u = Some v" "explored opa {} u v"
      "set (jump_targets [js ! k]) \<subseteq> elems (fst v)" "snd u \<noteq> None \<longrightarrow> set (jump_targets [js ! k]) \<subseteq> starts_of (snd v)"
      using take_jump_ends [OF rec exploredD(1) [OF u(2)] _ p js, of k] Suc.prems width exploredD(3,5) [OF u(2)] by force
    have "take (Suc k) js = take k js @ [js ! k]" using Suc.prems by (simp add: take_Suc_conv_app_nth)
    moreover have "jump_targets (take k js @ [js ! k]) = jump_targets (take k js) @ jump_targets [js ! k]"
      by (simp add: jump_targets_def)
    ultimately show ?case
      using u v explored_same [OF u(2) v(2)] exploredD(2,4) [OF v(2)] exploredD(3) [OF u(2)] Suc.prems
      by (auto simp: enumerate_append_eq loop_over_append)
  qed
  from this [of "length js"] obtain u where u: "loop_over (take_jump rec opa p) (enumerate 0 js) st = Some u" "explored opa {} st u"
    "set (jump_targets js) \<subseteq> elems (fst u)" "snd st \<noteq> None \<longrightarrow> set (jump_targets js) \<subseteq> starts_of (snd u)" by auto
  moreover have "successors opa p = jump_targets js" "jump_list opa p = jump_targets js" "jump_width opa p = length js"
    using js by (simp_all add: successors_def jump_list_def jump_width_def)
  ultimately show ?thesis using width exploredD(5) [OF u(2)] unfolding explored_def by auto
qed

lemma walk_ends:
  assumes rec: "explores opa m rec" and code: "code_ok opa"
    and "analysis_ok opa st" "unmarked opa st \<le> m" "p < code_length opa" "reached opa p"
  shows "\<exists>st'. walk_branch rec opa p st = Some st' \<and> explored opa {p} st st'"
  using assms(3-)
proof (induction "code_length opa - p" arbitrary: p st rule: less_induct)
  case less
  note ok = less.prems
  obtain opcode where op: "op_at opa p = Some opcode" using op_at_Some [OF ok(3)] by blast
  obtain found where found: "xdebug_find_jumps opa p = Some found" using code_okD(1) [OF code ok(3)] by blast
  show ?case
  proof (cases found)
    case (Some js)
    let ?st = "(fst st, map_option (record_highest_out (length js)) (snd st))"
    have st: "explored opa {} st ?st" "unmarked opa ?st \<le> m"
      using ok(1,2) by (cases "snd st"; auto simp: analysis_ok_def unmarked_def explored_def starts_of_def highest_of_def paths_of_def)+
    have w: "snd ?st \<noteq> None \<longrightarrow> length js \<le> highest_of (snd ?st)" by (auto simp: highest_of_def)
    then obtain st' where st': "loop_over (take_jump rec opa p) (enumerate 0 js) ?st = Some st'" "explored opa {p} ?st st'"
      using jumps_end [OF rec exploredD(1) [OF st(1)] st(2) ok(3,4) code _ w] found Some by auto
    have "explored opa {p} st st'" using explored_trans [OF st(1) st'(2)] by simp
    moreover have "walk_branch rec opa p st = Some st'"
      using st'(1) found Some op by (subst walk_branch.simps) simp
    ultimately show ?thesis by blast
  next
    case None
    then have jl: "jump_list opa p = []" "jump_width opa p = 0" using found by (simp_all add: jump_list_def jump_width_def)
    show ?thesis
    proof (cases "returns_here opa p")
      case True
      with op have r: "op_opcode opcode = ZEND_THROW \<or> op_opcode opcode = ZEND_RETURN \<or> op_opcode opcode = ZEND_RETURN_BY_REF"
        by (simp add: returns_here_def)
      have "successors opa p = []" using True found None by (simp add: successors_def)
      moreover obtain b where b: "on_branches (end_branch p (op_lineno opcode)) (snd st) = Some b" "explored opa {} st (fst st, b)"
        using on_branches_explored [OF ok(1), of "{}" "end_branch p (op_lineno opcode)"] end_branch_ok [OF _ ok(3)] by auto
      moreover from b(1) have "walk_branch rec opa p st = Some (fst st, b)"
        using found None op r by (subst walk_branch.simps) simp
      ultimately show ?thesis using jl by (auto simp: explored_def)
    next
      case False
      with op have r: "\<not> (op_opcode opcode = ZEND_THROW \<or> op_opcode opcode = ZEND_RETURN \<or> op_opcode opcode = ZEND_RETURN_BY_REF)"
        by (simp add: returns_here_def)
      have s: "successors opa p = [p + 1]" using False found None by (simp add: successors_def)
      then have next_op: "p + 1 < code_length opa" "reached opa (p + 1)"
        using code_okD(2) [OF code ok(3)] reached.step [OF ok(4)] by auto
      obtain st1 where st1: "mark_reached (p + 1) st = Some st1" "analysis_ok opa st1" "elems (fst st1) = insert (p + 1) (elems (fst st))"
        "snd st1 = snd st" using mark_reached_ok [OF ok(1) next_op] by blast
      from st1(3) have "elems (fst st) \<subseteq> elems (fst st1)" by blast
      from unmarked_mono [OF this] ok(2) have "unmarked opa st1 \<le> m" by (meson le_trans)
      then obtain st' where st': "walk_branch rec opa (p + 1) st1 = Some st'" "explored opa {p + 1} st1 st'"
        using less.hyps [OF _ st1(2) _ next_op] ok(3) diff_less_mono2 [of p "p + 1"] by auto
      have "explored opa {p} st st'" using st'(2) st1(3,4) s jl unfolding explored_def by auto
      with st'(1) st1(1) found None op r show ?thesis by (subst walk_branch.simps) simp
    qed
  qed
qed

lemma analysis_branch_ends:
  assumes code: "code_ok opa" and "analysis_ok opa st" "starting opa p"
  shows "\<exists>st'. xdebug_analysis_branch opa p st = Some st' \<and> explored opa {} st st' \<and> p \<in> elems (fst st') \<and>
           (snd st \<noteq> None \<longrightarrow> p \<in> starts_of (snd st'))"
  using assms(2-)
proof (induction "unmarked opa st" arbitrary: p st rule: less_induct)
  case less
  note ok = less.prems
  have p: "reached opa p" "p < code_length opa" using starting_reached [OF ok(2)] reached_less code by blast+
  obtain r where r: "on_branches (start_branch opa p) (snd st) = Some r" "explored opa {} st (fst st, r)"
    "snd st \<noteq> None \<longrightarrow> p \<in> starts_of r"
    using on_branches_explored [OF ok(1), of "{p}" "start_branch opa p"] start_branch_ok [OF _ p(2)] ok(2) by auto
  obtain v where v: "xdebug_set_in (fst st) p = Some v" "v \<noteq> 0 \<longleftrightarrow> p \<in> elems (fst st)"
    using set_in_of_size [of "code_length opa" "fst st" p] ok(1) by (auto simp: analysis_ok_def)
  show ?case
  proof (cases "p \<in> elems (fst st)")
    case True
    with v r show ?thesis by (subst xdebug_analysis_branch.simps) simp
  next
    case False
    obtain st2 where st2: "mark_reached p (fst st, r) = Some st2" "analysis_ok opa st2" "elems (fst st2) = insert p (elems (fst st))"
      "snd st2 = r" using mark_reached_ok [OF exploredD(1) [OF r(2)] p(2,1)] by auto
    have "unmarked opa st2 < unmarked opa st" using unmarked_less [OF p(2) False, of st2] st2(3) by simp
    moreover from this have "explores opa (unmarked opa st2) (xdebug_analysis_branch opa)"
      unfolding explores_def using less.hyps by (meson le_less_trans)
    ultimately obtain st' where st': "walk_branch (xdebug_analysis_branch opa) opa p st2 = Some st'" "explored opa {p} st2 st'"
      using walk_ends [OF _ code st2(2) order_refl p(2,1)] by blast
    have m: "explored opa {} (fst st, r) st'" using st'(2) st2(3,4) unfolding explored_def by auto
    have "p \<in> elems (fst st')" using exploredD(2) [OF st'(2)] st2(3) by auto
    moreover have "snd st \<noteq> None \<longrightarrow> p \<in> starts_of (snd st')" using r(3) exploredD(4) [OF m] by auto
    moreover have "xdebug_analysis_branch opa p st = Some st'"
      using st'(1) st2(1) v False r(1) by (subst xdebug_analysis_branch.simps) simp
    ultimately show ?thesis using explored_same [OF r(2) m] by blast
  qed
qed

text \<open>All entries, then the end of the last branch.\<close>

lemma enter_at_ends:
  assumes code: "code_ok opa" and ok: "analysis_ok opa st" "p < code_length opa"
  shows "\<exists>st'. enter_at opa p st = Some st' \<and> explored opa {} st st' \<and>
           (enters opa p \<longrightarrow> p \<in> elems (fst st') \<and> (snd st \<noteq> None \<longrightarrow> p \<in> starts_of (snd st')))"
proof -
  obtain opcode where op: "op_at opa p = Some opcode" using op_at_Some [OF ok(2)] by blast
  show ?thesis
  proof (cases "enters opa p")
    case True
    then have "starting opa p" by (simp add: starting_def)
    then obtain st1 where st1: "xdebug_analysis_branch opa p st = Some st1" "explored opa {} st st1" "p \<in> elems (fst st1)"
      "snd st \<noteq> None \<longrightarrow> p \<in> starts_of (snd st1)" using analysis_branch_ends [OF code ok(1)] by blast
    obtain r where r: "on_branches (\<lambda>b. add_entry_point b p) (snd st1) = Some r" "explored opa {} st1 (fst st1, r)"
      using on_branches_explored [OF exploredD(1) [OF st1(2)], of "{}" "\<lambda>b. add_entry_point b p"] add_entry_point_ok [OF _ ok(2)]
      by auto
    have "enter_at opa p st = Some (fst st1, r)" using st1(1) r(1) op True by (auto simp: enter_at_def enters_def)
    with st1(3,4) explored_same [OF st1(2) r(2)] exploredD(4) [OF r(2)] show ?thesis by auto
  next
    case False
    with op explored_refl [OF ok(1)] show ?thesis by (simp add: enter_at_def enters_def)
  qed
qed

lemma entries_end:
  assumes code: "code_ok opa" and ok: "analysis_ok opa st" and "n \<le> code_length opa"
  shows "\<exists>st'. loop_over (enter_at opa) [0..<n] st = Some st' \<and> explored opa {} st st' \<and>
           {p. p < n \<and> enters opa p} \<subseteq> elems (fst st') \<and>
           (snd st \<noteq> None \<longrightarrow> {p. p < n \<and> enters opa p} \<subseteq> starts_of (snd st'))"
  using assms(3)
proof (induction n)
  case 0
  then show ?case using ok by (simp add: explored_refl)
next
  case (Suc n)
  then obtain st1 where st1: "loop_over (enter_at opa) [0..<n] st = Some st1" "explored opa {} st st1"
    "{p. p < n \<and> enters opa p} \<subseteq> elems (fst st1)" "snd st \<noteq> None \<longrightarrow> {p. p < n \<and> enters opa p} \<subseteq> starts_of (snd st1)" by auto
  then obtain st2 where st2: "enter_at opa n st1 = Some st2" "explored opa {} st1 st2"
    "enters opa n \<longrightarrow> n \<in> elems (fst st2) \<and> (snd st1 \<noteq> None \<longrightarrow> n \<in> starts_of (snd st2))"
    using enter_at_ends [OF code exploredD(1) [OF st1(2)], of n] Suc.prems by auto
  with st1 explored_trans [OF st1(2) st2(2)] exploredD(3) [OF st1(2)] exploredD(2,4) [OF st2(2)] show ?case
    by (auto simp: loop_over_append less_Suc_eq)
qed

theorem analysis_reaches:
  assumes code: "code_ok opa" "0 < code_length opa" and ok: "analysis_ok opa st" "elems (fst st) = {}"
  shows "\<exists>st'. xdebug_analysis_oparray opa st = Some st' \<and> analysis_ok opa st' \<and> elems (fst st') = {p. reached opa p} \<and>
           (snd st' = None) = (snd st = None) \<and> paths_of (snd st') = paths_of (snd st) \<and>
           (snd st \<noteq> None \<longrightarrow> starts_of (snd st') = {p. starting opa p} \<and>
              (\<forall>p. reached opa p \<longrightarrow> jump_width opa p \<le> highest_of (snd st')))"
proof -
  obtain st1 where st1: "loop_over (enter_at opa) [0..<code_length opa] st = Some st1" "explored opa {} st st1"
    "{p. p < code_length opa \<and> enters opa p} \<subseteq> elems (fst st1)"
    "snd st \<noteq> None \<longrightarrow> {p. p < code_length opa \<and> enters opa p} \<subseteq> starts_of (snd st1)"
    using entries_end [OF code(1) ok(1) order_refl] by blast
  note ok1 = exploredD(1) [OF st1(2)]
  have e: "p < code_length opa" if "enters opa p" for p
    using that by (auto simp: enters_def op_at_def code_length_def split: if_splits)
  have closed: "p \<in> elems (fst st1)" if "reached opa p" for p
    using that
  proof (induction rule: reached.induct)
    case (entry p)
    then show ?case using st1(3) e by auto
  next
    case (step p t)
    with st1(2) ok(2) show ?case by (auto simp: explored_def)
  qed
  then have reached: "elems (fst st1) = {p. reached opa p}" using ok1 by (auto simp: analysis_ok_def)
  have starts: "starts_of (snd st1) = {p. starting opa p}" if "snd st \<noteq> None"
  proof -
    have "set (jump_list opa x) \<subseteq> starts_of (snd st1)" if "reached opa x" for x
      using st1(2) ok(2) closed [OF that] \<open>snd st \<noteq> None\<close> by (auto simp: explored_def)
    then have "{p. starting opa p} \<subseteq> starts_of (snd st1)" using st1(4) e that by (auto simp: starting_def)
    then show ?thesis using ok1 by (auto simp: analysis_ok_def)
  qed
  have wide: "jump_width opa p \<le> highest_of (snd st1)" if "reached opa p" "snd st \<noteq> None" for p
    using st1(2) ok(2) closed [OF that(1)] that(2) by (auto simp: explored_def)
  have l: "code_length opa - 1 < code_length opa" using code(2) by simp
  obtain opcode where op: "op_at opa (code_length opa - 1) = Some opcode" using op_at_Some [OF l] by blast
  obtain r where r: "on_branches (end_branch (code_length opa - 1) (op_lineno opcode)) (snd st1) = Some r"
    "analysis_ok opa (fst st1, r)" "(r = None) = (snd st1 = None)" "highest_of r = highest_of (snd st1)" "paths_of r = paths_of (snd st1)"
    "starts_of r = (if snd st1 = None then {} else {} \<union> starts_of (snd st1))"
    using on_branches_ok [OF ok1, of "{}" "end_branch (code_length opa - 1) (op_lineno opcode)"] end_branch_ok [OF _ l] by auto
  have "xdebug_analysis_oparray opa st = Some (fst st1, r)"
    using st1(1) r(1) op by (simp add: xdebug_analysis_oparray_def code_length_def)
  with r(2-) reached starts wide exploredD(3,6) [OF st1(2)] show ?thesis by auto
qed

end
