(* ===== verification/Xd_Paths.thy ===== *)
theory Xd_Paths
  imports Xd_Reach
begin

text \<open>
  What \<open>xdebug_branch_find_paths\<close> finds: it ends, with at most 4096 paths, and each of them begins at an entry point,
  follows the branches, takes no edge twice, and stops only where no edge is left to take.
\<close>

section \<open>Edges and walks\<close>

definition live_outs :: "xdebug_branch \<Rightarrow> int list" where
  "live_outs b = filter (\<lambda>out. out \<noteq> 0 \<and> out \<noteq> XDEBUG_JMP_EXIT) (take (br_outs_count b) (br_outs b))"

definition branch_edges :: "xdebug_branch list \<Rightarrow> (nat \<times> nat) set" where
  "branch_edges brs = {(a, b). a < length brs \<and> b \<in> set (map uint_of (live_outs (brs ! a)))}"

definition path_edges :: "xdebug_path \<Rightarrow> (nat \<times> nat) list" where
  "path_edges p = zip p (tl p)"

lemma branch_edges_finite: "finite (branch_edges brs)"
proof -
  have "branch_edges brs \<subseteq> (SIGMA a : {..<length brs}. set (map uint_of (live_outs (brs ! a))))"
    by (auto simp: branch_edges_def)
  then show ?thesis by (rule finite_subset) simp
qed

lemma path_exists_edge: "xdebug_path_exists path a b \<longleftrightarrow> (a, b) \<in> set (path_edges path)"
proof -
  have "(a, b) \<in> set (zip path (tl path)) \<longleftrightarrow> (\<exists>i < length path - 1. path ! i = a \<and> path ! (i + 1) = b)"
    by (cases path) (auto simp: set_zip nth_tl)
  then show ?thesis by (auto simp: xdebug_path_exists_def path_edges_def list_ex_iff)
qed

lemma path_edges_snoc: "path_edges (p @ [a, b]) = path_edges (p @ [a]) @ [(a, b)]"
proof (induction p)
  case (Cons x p)
  then show ?case by (cases p) (simp_all add: path_edges_def)
qed (simp add: path_edges_def)

text \<open>A path that takes edges of the branches, none of them twice.\<close>

definition trail :: "xdebug_branch list \<Rightarrow> xdebug_path \<Rightarrow> bool" where
  "trail brs p \<longleftrightarrow> p \<noteq> [] \<and> set (path_edges p) \<subseteq> branch_edges brs \<and> distinct (path_edges p)"

text \<open>It can go no further.\<close>

definition stuck :: "xdebug_branch list \<Rightarrow> xdebug_path \<Rightarrow> bool" where
  "stuck brs p \<longleftrightarrow> (\<forall>b. (last p, b) \<in> branch_edges brs \<longrightarrow> (last p, b) \<in> set (path_edges p))"

section \<open>The array of paths\<close>

definition paths_ok :: "xdebug_path_info \<Rightarrow> bool" where
  "paths_ok pa \<longleftrightarrow> pa_paths_size pa = length (pa_paths pa) \<and> pa_paths_count pa \<le> pa_paths_size pa \<and>
     (\<forall>i < pa_paths_count pa. \<exists>p. pa_paths pa ! i = Path_at p)"

definition all_found :: "xdebug_path_info \<Rightarrow> xdebug_path list" where
  "all_found pa = map (\<lambda>i. the (path_at pa i)) [0..<pa_paths_count pa]"

lemma path_at_Some: "paths_ok pa \<Longrightarrow> i < pa_paths_count pa \<Longrightarrow> path_at pa i = Some (all_found pa ! i)"
  by (fastforce simp: paths_ok_def path_at_def all_found_def)

lemma length_all_found [simp]: "length (all_found pa) = pa_paths_count pa"
  by (simp add: all_found_def)

lemma ctor_paths_ok: "paths_ok xdebug_path_info_ctor" "all_found xdebug_path_info_ctor = []"
  by (simp_all add: paths_ok_def all_found_def xdebug_path_info_ctor_def)

lemma add_path_ok:
  assumes "paths_ok pa"
  shows "\<exists>pa'. xdebug_path_info_add_path pa p = Some pa' \<and> paths_ok pa' \<and> all_found pa' = all_found pa @ [p]"
proof -
  let ?pa = "if pa_paths_count pa = pa_paths_size pa
    then pa\<lparr>pa_paths_size := pa_paths_size pa + 32, pa_paths := pa_paths pa @ replicate 32 Path_unset\<rparr> else pa"
  have pa: "pa_paths_size ?pa = length (pa_paths ?pa)" "pa_paths_count ?pa = pa_paths_count pa"
    "pa_paths_count pa < length (pa_paths ?pa)" "\<forall>i < pa_paths_count pa. pa_paths ?pa ! i = pa_paths pa ! i"
    using assms by (auto simp: paths_ok_def nth_append)
  let ?new = "?pa\<lparr>pa_paths := (pa_paths ?pa)[pa_paths_count ?pa := Path_at p], pa_paths_count := pa_paths_count ?pa + 1\<rparr>"
  have "xdebug_path_info_add_path pa p = Some ?new"
    using pa(2,3) by (simp only: xdebug_path_info_add_path_def Let_def if_True)
  moreover have "paths_ok ?new"
    using pa assms unfolding paths_ok_def by (auto simp: nth_list_update less_Suc_eq simp del: if_split)
  moreover have "path_at ?new i = (if i = pa_paths_count pa then Some p else path_at pa i)" if "i \<le> pa_paths_count pa" for i
    using pa assms that unfolding paths_ok_def path_at_def by (auto simp: nth_list_update simp del: if_split)
  then have "all_found ?new = all_found pa @ [p]" unfolding all_found_def using pa(2) by simp
  ultimately show ?thesis by blast
qed

section \<open>The search\<close>

text \<open>One round of the loop over the outs of a branch.\<close>

definition take_out :: "xdebug_branch list \<Rightarrow> nat \<Rightarrow> xdebug_path \<Rightarrow> int \<Rightarrow> bool \<times> xdebug_path_info \<Rightarrow> (bool \<times> xdebug_path_info) option" where
  "take_out brs nr new_path out st =
     (if out \<noteq> 0 \<and> out \<noteq> XDEBUG_JMP_EXIT \<and> \<not> xdebug_path_exists new_path nr (uint_of out)
      then do { pa1 \<leftarrow> xdebug_branch_find_path brs (uint_of out) new_path (snd st); Some (True, pa1) }
      else Some st)"

lemma find_path_unfold:
  "xdebug_branch_find_path brs nr prev pa =
     (if pa_paths_count pa \<ge> XDEBUG_MAX_PATHS then Some pa
      else if nr \<ge> length brs then None
      else do {
        found_in \<leftarrow> loop_over (take_out brs nr (prev @ [nr])) (take (br_outs_count (brs ! nr)) (br_outs (brs ! nr))) (False, pa);
        if fst found_in then Some (snd found_in) else xdebug_path_info_add_path (snd found_in) (prev @ [nr]) })"
  by (subst xdebug_branch_find_path.simps) (simp add: take_out_def [abs_def] Let_def)

text \<open>Nothing was found below exactly when no out could be taken.\<close>

lemma nothing_found:
  assumes "loop_over (take_out brs nr p) outs st = Some (False, pa')"
  shows "st = (False, pa') \<and> (\<forall>out \<in> set outs. out = 0 \<or> out = XDEBUG_JMP_EXIT \<or> xdebug_path_exists p nr (uint_of out))"
  using assms
proof (induction outs arbitrary: st)
  case (Cons out outs)
  then obtain st1 where st1: "take_out brs nr p out st = Some st1" "loop_over (take_out brs nr p) outs st1 = Some (False, pa')"
    by (auto simp: Option.bind_eq_Some_conv)
  from Cons.IH [OF st1(2)] st1(1) show ?case
    by (auto simp: take_out_def Option.bind_eq_Some_conv split: if_splits)
qed simp

definition more_paths :: "xdebug_branch list \<Rightarrow> xdebug_path \<Rightarrow> xdebug_path_info \<Rightarrow> xdebug_path_info \<Rightarrow> bool" where
  "more_paths brs prev pa pa' \<longleftrightarrow> paths_ok pa' \<and> pa_paths_count pa' \<le> max (pa_paths_count pa) XDEBUG_MAX_PATHS \<and>
     (\<exists>new. all_found pa' = all_found pa @ new \<and>
        (\<forall>p \<in> set new. trail brs p \<and> stuck brs p \<and> (\<exists>rest. p = prev @ rest)))"

lemma more_paths_refl: "paths_ok pa \<Longrightarrow> more_paths brs prev pa pa"
  by (auto simp: more_paths_def)

lemma more_paths_trans: "more_paths brs prev pa pa1 \<Longrightarrow> more_paths brs prev pa1 pa2 \<Longrightarrow> more_paths brs prev pa pa2"
  unfolding more_paths_def by (force simp: max_def split: if_splits)

lemma more_paths_prefix: "more_paths brs (prev @ r) pa pa1 \<Longrightarrow> more_paths brs prev pa pa1"
  unfolding more_paths_def by fastforce

definition outs_ok :: "xdebug_branch list \<Rightarrow> bool" where
  "outs_ok brs \<longleftrightarrow> (\<forall>(a, b) \<in> branch_edges brs. b < length brs)"

lemma find_path_ends:
  assumes "outs_ok brs" "paths_ok pa" "nr < length brs" "trail brs (prev @ [nr])"
  shows "\<exists>pa'. xdebug_branch_find_path brs nr prev pa = Some pa' \<and> more_paths brs (prev @ [nr]) pa pa'"
  using assms(2-)
proof (induction "card (branch_edges brs - set (path_edges (prev @ [nr])))" arbitrary: nr prev pa rule: less_induct)
  case less
  let ?p = "prev @ [nr]" and ?outs = "take (br_outs_count (brs ! nr)) (br_outs (brs ! nr))"
  have edge: "(nr, uint_of out) \<in> branch_edges brs" if "out \<in> set ?outs" "out \<noteq> 0" "out \<noteq> XDEBUG_JMP_EXIT" for out
    using that less.prems(2) by (auto simp: branch_edges_def live_outs_def)
  show ?case
  proof (cases "pa_paths_count pa \<ge> XDEBUG_MAX_PATHS")
    case True
    then show ?thesis using more_paths_refl [OF less.prems(1)] by (simp add: find_path_unfold)
  next
    case False
    have round: "\<exists>u. take_out brs nr ?p out st = Some u \<and> more_paths brs ?p pa (snd u)"
      if out: "out \<in> set ?outs" and st: "more_paths brs ?p pa (snd st)" for out st
    proof (cases "out \<noteq> 0 \<and> out \<noteq> XDEBUG_JMP_EXIT \<and> \<not> xdebug_path_exists ?p nr (uint_of out)")
      case True
      let ?e = "(nr, uint_of out)"
      have e: "?e \<in> branch_edges brs" "?e \<notin> set (path_edges ?p)" using edge [OF out] True by (auto simp: path_exists_edge)
      have p': "path_edges (?p @ [uint_of out]) = path_edges ?p @ [?e]" using path_edges_snoc [of prev nr "uint_of out"] by simp
      have "trail brs (?p @ [uint_of out])" unfolding trail_def p' using less.prems(3) e by (auto simp: trail_def)
      moreover have "card (branch_edges brs - set (path_edges (?p @ [uint_of out]))) < card (branch_edges brs - set (path_edges ?p))"
        unfolding p' using e branch_edges_finite [of brs] by (intro psubset_card_mono) auto
      moreover have "uint_of out < length brs" using assms(1) e(1) by (auto simp: outs_ok_def)
      moreover have "paths_ok (snd st)" using st by (simp add: more_paths_def)
      ultimately obtain pa1 where "xdebug_branch_find_path brs (uint_of out) ?p (snd st) = Some pa1"
        "more_paths brs (?p @ [uint_of out]) (snd st) pa1" using less.hyps by blast
      with True more_paths_trans [OF st more_paths_prefix] show ?thesis by (auto simp: take_out_def)
    next
      case False
      then have "take_out brs nr ?p out st = Some st" by (simp only: take_out_def if_False)
      with st show ?thesis by blast
    qed
    obtain u where u: "loop_over (take_out brs nr ?p) ?outs (False, pa) = Some u" "more_paths brs ?p pa (snd u)"
      using loop_over_ends [of "\<lambda>st. more_paths brs ?p pa (snd st)" "(False, pa)" ?outs "take_out brs nr ?p"]
        round more_paths_refl [OF less.prems(1)] by auto
    show ?thesis
    proof (cases "fst u")
      case True
      with u False less.prems(2) show ?thesis by (simp add: find_path_unfold)
    next
      case none: False
      then have n: "snd u = pa" "\<forall>out \<in> set ?outs. out = 0 \<or> out = XDEBUG_JMP_EXIT \<or> xdebug_path_exists ?p nr (uint_of out)"
        using nothing_found [of brs nr ?p ?outs "(False, pa)" "snd u"] u(1) by (auto simp: prod_eq_iff)
      have "stuck brs ?p"
        using n(2) by (auto simp: stuck_def branch_edges_def live_outs_def path_exists_edge)
      moreover obtain pa' where pa': "xdebug_path_info_add_path pa ?p = Some pa'" "paths_ok pa'" "all_found pa' = all_found pa @ [?p]"
        using add_path_ok [OF less.prems(1)] by blast
      moreover have "pa_paths_count pa' = pa_paths_count pa + 1" using pa'(3) by (metis length_all_found length_append_singleton Suc_eq_plus1)
      ultimately have "more_paths brs ?p pa pa'" using less.prems(3) False by (auto simp: more_paths_def)
      with pa'(1) u(1) n(1) none False less.prems(2) show ?thesis by (simp add: find_path_unfold)
    qed
  qed
qed

text \<open>From every entry point, and then the table of keys.\<close>

lemma find_from_ends:
  assumes "outs_ok (bri_branches bi)" "set_of_size n (bri_entry_points bi)" "length (bri_branches bi) = n" "paths_ok pa" "i < n"
  shows "\<exists>pa'. find_from bi i pa = Some pa' \<and> paths_ok pa' \<and>
    pa_paths_count pa' \<le> max (pa_paths_count pa) XDEBUG_MAX_PATHS \<and>
    (\<exists>new. all_found pa' = all_found pa @ new \<and> (\<forall>p \<in> set new. trail (bri_branches bi) p \<and> stuck (bri_branches bi) p \<and>
        hd p \<in> elems (bri_entry_points bi)))"
proof -
  obtain v where v: "xdebug_set_in (bri_entry_points bi) i = Some v" "v \<noteq> 0 \<longleftrightarrow> i \<in> elems (bri_entry_points bi)"
    using set_in_of_size [OF assms(2)] by blast
  show ?thesis
  proof (cases "i \<in> elems (bri_entry_points bi)")
    case True
    have "trail (bri_branches bi) ([] @ [i])" by (simp add: trail_def path_edges_def)
    with find_path_ends [OF assms(1,4), of i "[]"] assms(3,5) obtain pa' where
      pa': "xdebug_branch_find_path (bri_branches bi) i [] pa = Some pa'" "more_paths (bri_branches bi) [i] pa pa'" by auto
    have "hd p = i" if "p = [i] @ rest" for p rest using that by simp
    with pa' v True show ?thesis by (fastforce simp: find_from_def more_paths_def)
  next
    case False
    with v assms(4) show ?thesis by (auto simp: find_from_def)
  qed
qed

theorem find_paths_ends:
  assumes "set_of_size n (bri_entry_points bi)" "length (bri_branches bi) = n" "outs_ok (bri_branches bi)"
    "bri_path_info bi = xdebug_path_info_ctor"
  shows "\<exists>bi' h. xdebug_branch_find_paths bi = Some bi' \<and> bri_branches bi' = bri_branches bi \<and>
    pa_path_hash (bri_path_info bi') = Some h \<and> hash_ok h \<and> paths_ok (bri_path_info bi') \<and>
    length (all_found (bri_path_info bi')) \<le> XDEBUG_MAX_PATHS \<and>
    (\<forall>p \<in> set (all_found (bri_path_info bi')). trail (bri_branches bi) p \<and> stuck (bri_branches bi) p \<and>
       hd p \<in> elems (bri_entry_points bi) \<and> xdebug_hash_find h (xdebug_create_key_for_path p) \<noteq> None)"
proof -
  let ?good = "\<lambda>p. trail (bri_branches bi) p \<and> stuck (bri_branches bi) p \<and> hd p \<in> elems (bri_entry_points bi)"
  note n = assms(1,2)
  have n3: "set_size (bri_entry_points bi) = n" using n by (simp add: set_of_size_def)
  let ?P = "\<lambda>pa. paths_ok pa \<and> pa_paths_count pa \<le> XDEBUG_MAX_PATHS \<and> list_all ?good (all_found pa)"
  have "?P xdebug_path_info_ctor" using ctor_paths_ok by (simp add: xdebug_path_info_ctor_def)
  moreover have "\<exists>u. find_from bi i pa = Some u \<and> ?P u" if "i \<in> set [0..<n]" "?P pa" for i pa
    using find_from_ends [OF assms(3) n(1,2), of pa i] that by (auto simp: list_all_iff)
  ultimately obtain pa where pa: "loop_over (find_from bi) [0..<n] xdebug_path_info_ctor = Some pa" "?P pa"
    using loop_over_ends [of ?P xdebug_path_info_ctor "[0..<n]" "find_from bi"] by blast
  have keys: "\<exists>h. loop_over (key_path pa) [0..<k] (xdebug_hash_alloc 128 False) = Some h \<and> hash_ok h \<and>
      (\<forall>i < k. xdebug_hash_find h (xdebug_create_key_for_path (all_found pa ! i)) \<noteq> None)" if "k \<le> pa_paths_count pa" for k
    using that
  proof (induction k)
    case (Suc k)
    then obtain h where h: "loop_over (key_path pa) [0..<k] (xdebug_hash_alloc 128 False) = Some h" "hash_ok h"
      "\<forall>i < k. xdebug_hash_find h (xdebug_create_key_for_path (all_found pa ! i)) \<noteq> None" by auto
    have "path_at pa k = Some (all_found pa ! k)" using path_at_Some [of pa k] pa(2) Suc.prems by simp
    then have "key_path pa k h = Some (xdebug_hash_add h (xdebug_create_key_for_path (all_found pa ! k)) (all_found pa ! k))"
      by (simp add: key_path_def)
    with h add_str_map [OF h(2)] show ?case
      by (auto simp: loop_over_append find_str_map less_Suc_eq)
  qed simp
  then obtain h where h: "loop_over (key_path pa) [0..<pa_paths_count pa] (xdebug_hash_alloc 128 False) = Some h" "hash_ok h"
    "\<forall>i < pa_paths_count pa. xdebug_hash_find h (xdebug_create_key_for_path (all_found pa ! i)) \<noteq> None" by blast
  let ?bi = "bi\<lparr>bri_path_info := pa\<lparr>pa_path_hash := Some h\<rparr>\<rparr>"
  have "xdebug_branch_find_paths bi = Some ?bi"
    using pa(1) h(1) n3 assms(4) by (simp add: xdebug_branch_find_paths_def)
  moreover have "all_found (pa\<lparr>pa_path_hash := Some h\<rparr>) = all_found pa" "paths_ok (pa\<lparr>pa_path_hash := Some h\<rparr>) = paths_ok pa"
    by (simp_all add: all_found_def path_at_def paths_ok_def)
  moreover have "xdebug_hash_find h (xdebug_create_key_for_path p) \<noteq> None" if "p \<in> set (all_found pa)" for p
    using that h(3) by (metis in_set_conv_nth length_all_found)
  ultimately show ?thesis using pa(2) h(2) by (auto simp: list_all_iff)
qed

end
