(* ===== verification/Xd_Post.thy ===== *)
theory Xd_Post
  imports Xd_Paths
begin

text \<open>
  What \<open>xdebug_branch_post_process\<close> makes of the branches: only the first \<open>catch\<close> of a chain stays an entry point, and
  every branch ends where \<open>extent\<close> says, a definition that looks at one branch only.
\<close>

section \<open>Chained catches\<close>

text \<open>Where a chain goes on: to a \<open>catch\<close>, or to the fetch of its class right before it.\<close>

definition catch_target :: "cov_op_array \<Rightarrow> nat \<Rightarrow> nat" where
  "catch_target opa p = uint_of (XDEBUG_ZNODE_JMP_LINE (op_op2_jmp (ca_opcodes opa ! p)) p)"

definition lands :: "cov_op_array \<Rightarrow> nat \<Rightarrow> bool" where
  "lands opa t \<longleftrightarrow> t < code_length opa \<and> (op_opcode (ca_opcodes opa ! t) = ZEND_FETCH_CLASS \<longrightarrow> t + 1 < code_length opa)"

definition is_catch :: "cov_op_array \<Rightarrow> nat \<Rightarrow> bool" where
  "is_catch opa p \<longleftrightarrow> p < code_length opa \<and> op_opcode (ca_opcodes opa ! p) = ZEND_CATCH"

definition catches_ok :: "cov_op_array \<Rightarrow> bool" where
  "catches_ok opa \<longleftrightarrow> list_all (\<lambda>p. is_catch opa p \<longrightarrow>
     (op_op2_jmp (ca_opcodes opa ! p) \<noteq> 0 \<longrightarrow> lands opa (catch_target opa p)) \<and>
     (\<not> ZEND_LAST_CATCH (op_extended_value (ca_opcodes opa ! p)) \<longrightarrow> p < catch_target opa p \<and> lands opa (catch_target opa p)))
     [0..<code_length opa]"

lemma catches_okD:
  assumes "catches_ok opa" "is_catch opa p"
  shows "op_op2_jmp (ca_opcodes opa ! p) \<noteq> 0 \<Longrightarrow> lands opa (catch_target opa p)"
    "\<not> ZEND_LAST_CATCH (op_extended_value (ca_opcodes opa ! p)) \<Longrightarrow> p < catch_target opa p \<and> lands opa (catch_target opa p)"
  using assms by (auto simp: catches_ok_def list_all_iff is_catch_def)

lemma op_at_nth: "p < code_length opa \<Longrightarrow> op_at opa p = Some (ca_opcodes opa ! p)"
  by (simp add: op_at_def code_length_def)

text \<open>Only entry points are touched, and only taken away.\<close>

definition pruned :: "nat \<Rightarrow> xdebug_branch_info \<Rightarrow> xdebug_branch_info \<Rightarrow> bool" where
  "pruned n bi bi' \<longleftrightarrow> (\<exists>st. bi' = bi\<lparr>bri_entry_points := st\<rparr> \<and> set_of_size n st \<and> elems st \<subseteq> elems (bri_entry_points bi))"

lemma pruned_refl: "set_of_size n (bri_entry_points bi) \<Longrightarrow> pruned n bi bi"
  unfolding pruned_def by (intro exI [of _ "bri_entry_points bi"]) simp

lemma pruned_trans: "pruned n bi bi1 \<Longrightarrow> pruned n bi1 bi2 \<Longrightarrow> pruned n bi bi2"
  unfolding pruned_def by fastforce

lemma pruned_ok: "pruned n bi bi1 \<Longrightarrow> set_of_size n (bri_entry_points bi1)"
  unfolding pruned_def by auto

lemma set_remove_of_size:
  assumes "set_of_size n st" "p < n"
  shows "\<exists>st'. xdebug_set_remove st p = Some st' \<and> set_of_size n st' \<and> elems st' = elems st - {p}"
  using xdebug_set_remove_ok [of st p] assms by (fastforce simp: set_of_size_def)

text \<open>The step to the opcode a chain goes on with.\<close>

definition skip_fetch :: "cov_op_array \<Rightarrow> nat \<Rightarrow> nat" where
  "skip_fetch opa t = (if op_opcode (ca_opcodes opa ! t) = ZEND_FETCH_CLASS then t + 1 else t)"

lemma skip_fetch_lands: "lands opa t \<Longrightarrow> t < code_length opa \<and> skip_fetch opa t < code_length opa \<and> t \<le> skip_fetch opa t"
  by (auto simp: lands_def skip_fetch_def)

lemma catch_lands: "is_catch opa p \<Longrightarrow> lands opa p"
  by (simp add: is_catch_def lands_def)

lemma first_catch_ends:
  assumes "catches_ok opa" "lands opa t" "set_of_size (code_length opa) (bri_entry_points bi)"
  shows "\<exists>bi'. only_leave_first_catch opa t bi = Some bi' \<and> pruned (code_length opa) bi bi'"
  using assms(2-)
proof (induction "code_length opa - skip_fetch opa t" arbitrary: t bi rule: less_induct)
  case less
  let ?p = "skip_fetch opa t" and ?n = "code_length opa"
  let ?op = "ca_opcodes opa ! ?p"
  have p: "t < ?n" "?p < ?n" using skip_fetch_lands [OF less.prems(1)] by simp_all
  note ops = op_at_nth [OF p(1)] op_at_nth [OF p(2)]
  have unfold: "only_leave_first_catch opa t bi =
      (if op_opcode ?op \<noteq> ZEND_CATCH then Some bi
       else do { entries \<leftarrow> xdebug_set_remove (bri_entry_points bi) ?p;
                 let bi1 = bi\<lparr>bri_entry_points := entries\<rparr>;
                 if ZEND_LAST_CATCH (op_extended_value ?op) then Some bi1
                 else do {
                   exit_op0 \<leftarrow> op_at opa (catch_target opa ?p);
                   let exit_jmp = (if op_opcode exit_op0 = ZEND_FETCH_CLASS then catch_target opa ?p + 1 else catch_target opa ?p);
                   exit_op \<leftarrow> op_at opa exit_jmp;
                   if op_opcode exit_op = ZEND_CATCH then only_leave_first_catch opa exit_jmp bi1 else Some bi1 } })"
    by (subst only_leave_first_catch.simps) (simp only: ops Option.bind.simps Let_def catch_target_def flip: skip_fetch_def)
  show ?case
  proof (cases "op_opcode ?op = ZEND_CATCH")
    case False
    with unfold pruned_refl [OF less.prems(2)] show ?thesis by simp
  next
    case True
    then have catch: "is_catch opa ?p" using p(2) by (simp add: is_catch_def)
    obtain st where st: "xdebug_set_remove (bri_entry_points bi) ?p = Some st" "set_of_size ?n st"
      "elems st = elems (bri_entry_points bi) - {?p}" using set_remove_of_size [OF less.prems(2) p(2)] by blast
    let ?bi1 = "bi\<lparr>bri_entry_points := st\<rparr>"
    have pr: "pruned ?n bi ?bi1" unfolding pruned_def using st by auto
    show ?thesis
    proof (cases "ZEND_LAST_CATCH (op_extended_value ?op)")
      case l: True
      with unfold True st(1) pr show ?thesis by simp
    next
      case l: False
      let ?t = "catch_target opa ?p"
      let ?e = "skip_fetch opa ?t"
      have t: "?p < ?t" "lands opa ?t" using catches_okD(2) [OF assms(1) catch l] by simp_all
      note e = skip_fetch_lands [OF t(2)]
      have go: "only_leave_first_catch opa t bi = (if is_catch opa ?e then only_leave_first_catch opa ?e ?bi1 else Some ?bi1)"
      proof -
        have et: "op_at opa ?t = Some (ca_opcodes opa ! ?t)" "op_at opa ?e = Some (ca_opcodes opa ! ?e)"
          using e by (simp_all add: op_at_nth)
        have c: "is_catch opa ?e \<longleftrightarrow> op_opcode (ca_opcodes opa ! ?e) = ZEND_CATCH" using e by (simp add: is_catch_def)
        show ?thesis
          unfolding unfold c
          by (simp only: True l st(1) not_False_eq_True not_True_eq_False simp_thms if_True if_False et Option.bind.simps Let_def
              flip: skip_fetch_def)
      qed
      show ?thesis
      proof (cases "is_catch opa ?e")
        case c: True
        then have "skip_fetch opa ?e = ?e" by (simp add: skip_fetch_def is_catch_def)
        with t(1) e p(2) have "?n - skip_fetch opa ?e < ?n - ?p" by linarith
        from less.hyps [OF this catch_lands [OF c], of ?bi1] st(2) obtain bi' where
          "only_leave_first_catch opa ?e ?bi1 = Some bi'" "pruned ?n ?bi1 bi'" by auto
        with go c pruned_trans [OF pr] show ?thesis by auto
      next
        case False
        with go pr show ?thesis by simp
      qed
    qed
  qed
qed

lemma unchain_catch_ends:
  assumes "catches_ok opa" "set_of_size (code_length opa) (bri_entry_points bi)" "i < code_length opa"
  shows "\<exists>bi'. unchain_catch opa i bi = Some bi' \<and> pruned (code_length opa) bi bi'"
proof -
  obtain v where v: "xdebug_set_in (bri_entry_points bi) i = Some v" using set_in_of_size [OF assms(2)] by blast
  show ?thesis
  proof (cases "v \<noteq> 0 \<and> is_catch opa i \<and> op_op2_jmp (ca_opcodes opa ! i) \<noteq> 0")
    case True
    then have "lands opa (catch_target opa i)" using catches_okD(1) [OF assms(1)] by simp
    with first_catch_ends [OF assms(1) _ assms(2)] True v op_at_nth [OF assms(3)] show ?thesis
      by (auto simp: unchain_catch_def is_catch_def catch_target_def)
  next
    case False
    with v op_at_nth [OF assms(3)] assms(3) pruned_refl [OF assms(2)] show ?thesis
      by (auto simp: unchain_catch_def is_catch_def)
  qed
qed

lemma unchaining_ends:
  assumes "catches_ok opa" "set_of_size (code_length opa) (bri_entry_points bi)" "k \<le> code_length opa"
  shows "\<exists>bi'. loop_over (unchain_catch opa) [0..<k] bi = Some bi' \<and> pruned (code_length opa) bi bi'"
proof (rule loop_over_ends)
  show "pruned (code_length opa) bi bi" using pruned_refl [OF assms(2)] .
next
  fix i bi1 assume i: "i \<in> set [0..<k]" and bi1: "pruned (code_length opa) bi bi1"
  then show "\<exists>u. unchain_catch opa i bi1 = Some u \<and> pruned (code_length opa) bi u"
    using unchain_catch_ends [OF assms(1) pruned_ok [OF bi1], of i] assms(3) pruned_trans [OF bi1] by auto
qed

section \<open>The extent of a branch\<close>

text \<open>What a branch comes to: it is still open, it falls into the next one, or it ends, with the record of its end.\<close>

datatype branch_end = Open | Falls_into nat | Ends_at nat

fun last_elem :: "nat list \<Rightarrow> nat option" where
  "last_elem [] = None"
| "last_elem (x # xs) = (case last_elem xs of None \<Rightarrow> Some x | r \<Rightarrow> r)"

definition next_start :: "nat set \<Rightarrow> nat \<Rightarrow> nat \<Rightarrow> nat option" where
  "next_start S k j = find (\<lambda>i. i \<in> S) [Suc j..<k]"

definition last_end :: "nat set \<Rightarrow> nat \<Rightarrow> nat \<Rightarrow> nat option" where
  "last_end E j x = last_elem (filter (\<lambda>i. i \<in> E) [j..<x])"

definition extent :: "nat set \<Rightarrow> nat set \<Rightarrow> nat \<Rightarrow> nat \<Rightarrow> branch_end" where
  "extent S E k j =
     (case next_start S k j of
        Some x \<Rightarrow> (case last_end E j x of Some m \<Rightarrow> Ends_at m | None \<Rightarrow> Falls_into x)
      | None \<Rightarrow> (case last_end E j k of Some m \<Rightarrow> Ends_at m | None \<Rightarrow> Open))"

text \<open>The first line, last line, last opcode and jumps of a branch.\<close>

definition branch_view :: "xdebug_branch \<Rightarrow> nat \<times> nat \<times> nat \<times> int list" where
  "branch_view b = (br_start_lineno b, br_end_lineno b, br_end_op b, take (br_outs_count b) (br_outs b))"

definition ended_view :: "xdebug_branch list \<Rightarrow> nat \<Rightarrow> branch_end \<Rightarrow> nat \<times> nat \<times> nat \<times> int list" where
  "ended_view brs j e =
     (case e of
        Open \<Rightarrow> branch_view (brs ! j)
      | Falls_into x \<Rightarrow> (br_start_lineno (brs ! j), br_start_lineno (brs ! x), x - 1, [int x])
      | Ends_at m \<Rightarrow> (br_start_lineno (brs ! j), br_start_lineno (brs ! m), m, take (br_outs_count (brs ! m)) (br_outs (brs ! m))))"

lemma last_elem_snoc [simp]: "last_elem (xs @ [x]) = Some x"
  by (induction xs) simp_all

lemma last_elem_None [simp]: "last_elem xs = None \<longleftrightarrow> xs = []"
  by (induction xs) (auto split: option.splits)

lemma last_elem_in: "last_elem xs = Some m \<Longrightarrow> m \<in> set xs"
  by (induction xs) (auto split: option.splits)

lemma find_snoc: "find P (xs @ [x]) = (case find P xs of None \<Rightarrow> if P x then Some x else None | r \<Rightarrow> r)"
  by (induction xs) simp_all

lemma find_upt: "find P [a..<b] = Some x \<Longrightarrow> a \<le> x \<and> x < b \<and> P x"
  by (auto simp: find_Some_iff)

lemma next_start_Suc:
  "j < k \<Longrightarrow> next_start S (Suc k) j = (case next_start S k j of None \<Rightarrow> if k \<in> S then Some k else None | r \<Rightarrow> r)"
  by (simp add: next_start_def find_snoc)

text \<open>
  How the extents change as the loop reaches one opcode more, first with its start and then with its end; \<open>l\<close> is the
  last start.
\<close>

definition last_start :: "nat set \<Rightarrow> nat \<Rightarrow> nat \<Rightarrow> bool" where
  "last_start S k l \<longleftrightarrow> l \<in> S \<and> l < k \<and> (\<forall>i \<in> S. i < k \<longrightarrow> i \<le> l)"

lemma next_start_None:
  assumes "last_start S k l" "j < k" "j \<in> S"
  shows "next_start S k j = None \<longleftrightarrow> j = l"
proof -
  have "next_start S k j = None \<longleftrightarrow> (\<forall>x \<in> S. j < x \<longrightarrow> k \<le> x)"
    by (auto simp: next_start_def find_None_iff) (metis Suc_le_eq linorder_not_less)
  then show ?thesis using assms unfolding last_start_def by (metis le_antisym not_le)
qed

lemma next_start_Some: "next_start S k j = Some x \<Longrightarrow> j < x \<and> x < k"
  by (auto simp: next_start_def dest: find_upt)

lemma last_end_less: "x \<le> k \<Longrightarrow> last_end (E - {k}) j x = last_end E j x"
  unfolding last_end_def by (rule arg_cong [where f = last_elem], intro filter_cong) auto

lemma last_end_without: "j \<le> k \<Longrightarrow> last_end (E - {k}) j (Suc k) = last_end E j k"
  using last_end_less [of k k E j] by (simp add: last_end_def)

lemma last_end_here: "k \<in> E \<Longrightarrow> j \<le> k \<Longrightarrow> last_end E j (Suc k) = Some k"
  by (simp add: last_end_def)

lemma extent_no_start: "k \<notin> S \<Longrightarrow> j < k \<Longrightarrow> extent S (E - {k}) (Suc k) j = extent S E k j"
  using next_start_Some [of S k j]
  by (cases "next_start S k j") (simp_all add: extent_def next_start_Suc last_end_without last_end_less)

lemma extent_start_other:
  assumes "last_start S k l" "j \<in> S" "j < k" "j \<noteq> l"
  shows "extent S (E - {k}) (Suc k) j = extent S E k j"
proof -
  obtain x where x: "next_start S k j = Some x" using next_start_None [OF assms(1,3,2)] assms(4) by fastforce
  with next_start_Some [OF x] assms(3) show ?thesis by (simp add: extent_def next_start_Suc last_end_less)
qed

lemma extent_start_last:
  assumes "last_start S k l" "k \<in> S"
  shows "extent S (E - {k}) (Suc k) l = (if extent S E k l = Open then Falls_into k else extent S E k l)"
proof -
  have l: "l \<in> S" "l < k" using assms(1) by (simp_all add: last_start_def)
  then have "next_start S k l = None" using next_start_None [OF assms(1) l(2,1)] by simp
  with assms(2) l(2) show ?thesis by (simp add: extent_def next_start_Suc last_end_less split: option.splits)
qed

lemma extent_start_new: "extent S (E - {k}) (Suc k) k = Open"
  by (simp add: extent_def next_start_def last_end_def)

lemma extent_end_last: "last_start S (Suc k) l \<Longrightarrow> k \<in> E \<Longrightarrow> extent S E (Suc k) l = Ends_at k"
  using next_start_None [of S "Suc k" l l] by (simp add: extent_def last_start_def last_end_here)

lemma extent_end_other:
  assumes "last_start S (Suc k) l" "j \<in> S" "j < Suc k" "j \<noteq> l"
  shows "extent S E (Suc k) j = extent S (E - {k}) (Suc k) j"
proof -
  obtain x where x: "next_start S (Suc k) j = Some x" using next_start_None [OF assms(1,3,2)] assms(4) by fastforce
  with next_start_Some [OF x] show ?thesis by (simp add: extent_def last_end_less)
qed

section \<open>The loop\<close>

definition records_ok :: "nat \<Rightarrow> xdebug_branch list \<Rightarrow> bool" where
  "records_ok n brs \<longleftrightarrow> length brs = n \<and>
     list_all (\<lambda>b. length (br_outs b) = XDEBUG_BRANCH_MAX_OUTS \<and> br_outs_count b \<le> XDEBUG_BRANCH_MAX_OUTS) brs"

text \<open>After \<open>k\<close> rounds: \<open>bi\<close> are the branches before the loop.\<close>

definition extended :: "nat \<Rightarrow> xdebug_branch_info \<Rightarrow> nat set \<Rightarrow> nat \<Rightarrow> bool \<times> nat option \<times> xdebug_branch_info \<Rightarrow> bool" where
  "extended n bi E k st \<longleftrightarrow>
     (\<exists>l brs. last_start (elems (bri_starts bi)) k l \<and> st = (extent (elems (bri_starts bi)) E k l = Open, Some l, bi\<lparr>bri_branches := brs\<rparr>) \<and>
        records_ok n brs \<and>
        (\<forall>j < n. if j \<in> elems (bri_starts bi) \<and> j < k
                 then branch_view (brs ! j) = ended_view (bri_branches bi) j (extent (elems (bri_starts bi)) E k j)
                 else brs ! j = bri_branches bi ! j))"

lemma records_update:
  assumes "records_ok n brs" "l < n" "length (br_outs b) = XDEBUG_BRANCH_MAX_OUTS" "br_outs_count b \<le> XDEBUG_BRANCH_MAX_OUTS"
  shows "records_ok n (brs[l := b])"
  using assms unfolding records_ok_def list_all_iff
  by (metis in_set_conv_nth length_list_update nth_list_update_eq nth_list_update_neq)

lemma records_okD:
  assumes "records_ok n brs" "l < n"
  shows "length (br_outs (brs ! l)) = XDEBUG_BRANCH_MAX_OUTS" "br_outs_count (brs ! l) \<le> XDEBUG_BRANCH_MAX_OUTS" "length brs = n"
  using assms by (auto simp: records_ok_def list_all_iff)

lemma ended_view_start: "fst (ended_view brs j e) = br_start_lineno (brs ! j)"
  by (simp add: ended_view_def branch_view_def split: branch_end.splits)

lemma view_start: "branch_view b = ended_view brs j e \<Longrightarrow> br_start_lineno b = br_start_lineno (brs ! j)"
  using ended_view_start [of brs j e] by (metis branch_view_def fst_conv)

lemma fall_into_view:
  assumes "length (br_outs b) = XDEBUG_BRANCH_MAX_OUTS" "int x < 2 ^ 31"
  shows "branch_view (fall_into x l b) = (br_start_lineno b, l, x - 1, [int x])"
    "length (br_outs (fall_into x l b)) = XDEBUG_BRANCH_MAX_OUTS" "br_outs_count (fall_into x l b) \<le> XDEBUG_BRANCH_MAX_OUTS"
  using assms by (cases "br_outs b"; simp add: branch_view_def fall_into_def XDEBUG_BRANCH_MAX_OUTS_def)+

lemma ends_with_view:
  assumes "length (br_outs b) = XDEBUG_BRANCH_MAX_OUTS" "length (br_outs e) = XDEBUG_BRANCH_MAX_OUTS"
    "br_outs_count e \<le> XDEBUG_BRANCH_MAX_OUTS"
  shows "branch_view (ends_with x e b) = (br_start_lineno b, br_start_lineno e, x, take (br_outs_count e) (br_outs e))"
    "length (br_outs (ends_with x e b)) = XDEBUG_BRANCH_MAX_OUTS" "br_outs_count (ends_with x e b) \<le> XDEBUG_BRANCH_MAX_OUTS"
  using assms by (simp_all add: branch_view_def ends_with_def)

lemma extend_start_ends:
  assumes ok: "extended n bi E k (ib, lo, bi1)" "set_of_size n (bri_starts bi)" "k < n" "n < 2 ^ 31"
  shows "\<exists>st'. extend_start k (ib, lo, bi1) = Some st' \<and> extended n bi (E - {k}) (Suc k) st'"
proof -
  let ?S = "elems (bri_starts bi)" and ?brs = "bri_branches bi"
  obtain l brs where l: "last_start ?S k l" and st: "ib = (extent ?S E k l = Open)" "lo = Some l" "bi1 = bi\<lparr>bri_branches := brs\<rparr>"
    and ok: "records_ok n brs"
    and view: "\<And>j. j < n \<Longrightarrow> if j \<in> ?S \<and> j < k then branch_view (brs ! j) = ended_view ?brs j (extent ?S E k j) else brs ! j = ?brs ! j"
    using ok(1) unfolding extended_def by auto
  have ln: "l \<in> ?S" "l < k" using l by (simp_all add: last_start_def)
  obtain v where v: "xdebug_set_in (bri_starts bi) k = Some v" "v \<noteq> 0 \<longleftrightarrow> k \<in> ?S" using set_in_of_size [OF assms(2)] by blast
  show ?thesis
  proof (cases "k \<in> ?S")
    case False
    have same: "extent ?S (E - {k}) (Suc k) j = extent ?S E k j" if "j < k" for j using extent_no_start [OF False that] .
    have "last_start ?S (Suc k) l" using l False by (auto simp: last_start_def less_Suc_eq)
    moreover have "if j \<in> ?S \<and> j < Suc k then branch_view (brs ! j) = ended_view ?brs j (extent ?S (E - {k}) (Suc k) j) else brs ! j = ?brs ! j"
      if "j < n" for j using view [OF that] same [of j] False by (cases "j = k") (simp_all add: less_Suc_eq)
    ultimately have "extended n bi (E - {k}) (Suc k) (ib, lo, bi1)"
      unfolding extended_def using st ok same [OF ln(2)] by (intro exI [of _ l] exI [of _ brs]) simp
    with v False st show ?thesis by (simp add: extend_start_def)
  next
    case True
    have l': "last_start ?S (Suc k) k" using True by (auto simp: last_start_def)
    define brs' where "brs' = (if ib then brs[l := fall_into k (br_start_lineno (?brs ! k)) (brs ! l)] else brs)"
    have lb: "l < n" "length (br_outs (brs ! l)) = XDEBUG_BRANCH_MAX_OUTS" "length brs = n" "brs ! k = ?brs ! k"
      using ln(2) assms(3) records_okD [OF ok, of l] view [of k] by auto
    note fall = fall_into_view [OF lb(2), of k "br_start_lineno (?brs ! k)"]
    have ok': "records_ok n brs'" unfolding brs'_def using records_update [OF ok lb(1)] fall ok assms(3,4) by simp
    have "if j \<in> ?S \<and> j < Suc k then branch_view (brs' ! j) = ended_view ?brs j (extent ?S (E - {k}) (Suc k) j) else brs' ! j = ?brs ! j"
      if j: "j < n" for j
    proof -
      consider "j = k" | "j = l" | "j \<noteq> k" "j \<noteq> l" by blast
      then show ?thesis
      proof cases
        case 1
        with lb ln True show ?thesis by (simp add: brs'_def extent_start_new ended_view_def)
      next
        case 2
        have v: "branch_view (brs ! l) = ended_view ?brs l (extent ?S E k l)" using view [OF lb(1)] ln by simp
        from view_start [OF v] v have "branch_view (brs' ! l) = ended_view ?brs l (extent ?S (E - {k}) (Suc k) l)"
          unfolding extent_start_last [OF l True] using fall(1) st(1) lb(1,3) assms(3,4)
          by (simp add: brs'_def ended_view_def)
        with 2 ln show ?thesis by simp
      next
        case 3
        with view [OF j] ln extent_start_other [OF l, of j E] show ?thesis by (simp add: brs'_def less_Suc_eq)
      qed
    qed
    then have "extended n bi (E - {k}) (Suc k) (True, Some k, bi\<lparr>bri_branches := brs'\<rparr>)"
      unfolding extended_def using l' ok' by (intro exI [of _ k] exI [of _ brs']) (simp add: extent_start_new)
    moreover have "extend_start k (ib, lo, bi1) = Some (True, Some k, bi\<lparr>bri_branches := brs'\<rparr>)"
      using v True st(2,3) lb assms(3) by (simp add: extend_start_def branch_at_def branch_update_def brs'_def)
    ultimately show ?thesis by blast
  qed
qed

lemma extend_end_ends:
  assumes ok: "extended n bi (elems (bri_ends bi) - {k}) (Suc k) (ib, lo, bi1)" "set_of_size n (bri_ends bi)" "k < n"
  shows "\<exists>st'. extend_end k (ib, lo, bi1) = Some st' \<and> extended n bi (elems (bri_ends bi)) (Suc k) st'"
proof -
  let ?S = "elems (bri_starts bi)" and ?E = "elems (bri_ends bi)" and ?brs = "bri_branches bi"
  obtain l brs where l: "last_start ?S (Suc k) l" and st: "ib = (extent ?S (?E - {k}) (Suc k) l = Open)" "lo = Some l"
      "bi1 = bi\<lparr>bri_branches := brs\<rparr>" and ok: "records_ok n brs"
    and view: "\<And>j. j < n \<Longrightarrow> if j \<in> ?S \<and> j < Suc k then branch_view (brs ! j) = ended_view ?brs j (extent ?S (?E - {k}) (Suc k) j)
                 else brs ! j = ?brs ! j"
    using ok(1) unfolding extended_def by auto
  have ln: "l \<in> ?S" "l \<le> k" using l by (auto simp: last_start_def)
  obtain v where v: "xdebug_set_in (bri_ends bi) k = Some v" "v \<noteq> 0 \<longleftrightarrow> k \<in> ?E" using set_in_of_size [OF assms(2)] by blast
  show ?thesis
  proof (cases "k \<in> ?E")
    case False
    then have "?E - {k} = ?E" by simp
    with assms(1) v False st(3) show ?thesis by (auto simp: extend_end_def)
  next
    case True
    define brs' where "brs' = brs[l := ends_with k (brs ! k) (brs ! l)]"
    note lb = records_okD [OF ok, of l] records_okD [OF ok assms(3)]
    have lnn: "l < n" using ln(2) assms(3) by simp
    note ends = ends_with_view [OF lb(1) [OF lnn] lb(4,5), of k]
    have here: "br_start_lineno (brs ! k) = br_start_lineno (?brs ! k) \<and>
        take (br_outs_count (brs ! k)) (br_outs (brs ! k)) = take (br_outs_count (?brs ! k)) (br_outs (?brs ! k))"
    proof (cases "k \<in> ?S")
      case True
      with view [OF assms(3)] show ?thesis by (simp add: extent_start_new ended_view_def branch_view_def)
    next
      case False
      with view [OF assms(3)] show ?thesis by simp
    qed
    have ok': "records_ok n brs'" unfolding brs'_def using records_update [OF ok lnn ends(2,3)] .
    have "if j \<in> ?S \<and> j < Suc k then branch_view (brs' ! j) = ended_view ?brs j (extent ?S ?E (Suc k) j) else brs' ! j = ?brs ! j"
      if j: "j < n" for j
    proof (cases "j = l")
      case True
      have "br_start_lineno (brs ! l) = br_start_lineno (?brs ! l)"
        using view [OF lnn] ln view_start [of "brs ! l"] by auto
      with ends(1) here lnn lb(3) [OF lnn] True ln extent_end_last [OF l \<open>k \<in> ?E\<close>] show ?thesis
        by (simp add: brs'_def ended_view_def)
    next
      case False
      with view [OF j] extent_end_other [OF l, of j ?E] show ?thesis by (simp add: brs'_def)
    qed
    then have "extended n bi ?E (Suc k) (False, Some l, bi\<lparr>bri_branches := brs'\<rparr>)"
      unfolding extended_def using l ok' extent_end_last [OF l True] by (intro exI [of _ l] exI [of _ brs']) simp
    moreover have "extend_end k (ib, lo, bi1) = Some (False, Some l, bi\<lparr>bri_branches := brs'\<rparr>)"
      using v True st(2,3) lb(3) [OF lnn] lnn assms(3) by (simp add: extend_end_def branch_at_def branch_update_def brs'_def)
    ultimately show ?thesis by blast
  qed
qed

lemma extend_branches_end:
  assumes "branches_ok n bi" "0 \<in> elems (bri_starts bi)" "k \<le> n" "0 < k" "n < 2 ^ 31"
  shows "\<exists>st. loop_over extend_branches [0..<k] (False, None, bi) = Some st \<and> extended n bi (elems (bri_ends bi)) k st"
  using assms(4,3)
proof (induction k rule: nat_induct_non_zero)
  case 1
  have sets: "set_of_size n (bri_starts bi)" "set_of_size n (bri_ends bi)" using assms(1) by (simp_all add: branches_ok_def)
  have "last_start (elems (bri_starts bi)) 1 0" using assms(2) by (simp add: last_start_def)
  moreover have "records_ok n (bri_branches bi)"
    using assms(1) by (auto simp: branches_ok_def records_ok_def branch_ok_def list_all_iff)
  ultimately have "extended n bi (elems (bri_ends bi) - {0}) (Suc 0) (True, Some 0, bi)"
    using extent_start_new [of "elems (bri_starts bi)" "elems (bri_ends bi)" 0]
    unfolding extended_def by (intro exI [of _ 0] exI [of _ "bri_branches bi"]) (simp add: ended_view_def)
  moreover have "extend_start 0 (False, None, bi) = Some (True, Some 0, bi)"
    using set_in_of_size [OF sets(1), of 0] assms(2) by (auto simp: extend_start_def)
  ultimately show ?case using extend_end_ends [of n bi 0 True "Some 0" bi] sets(2) assms(3,4) by (auto simp: extend_branches_def)
next
  case (Suc k)
  have sets: "set_of_size n (bri_starts bi)" "set_of_size n (bri_ends bi)" using assms(1) by (simp_all add: branches_ok_def)
  obtain ib lo bi1 where st: "loop_over extend_branches [0..<k] (False, None, bi) = Some (ib, lo, bi1)"
    "extended n bi (elems (bri_ends bi)) k (ib, lo, bi1)" using Suc by auto
  obtain ib2 lo2 bi2 where st2: "extend_start k (ib, lo, bi1) = Some (ib2, lo2, bi2)"
    "extended n bi (elems (bri_ends bi) - {k}) (Suc k) (ib2, lo2, bi2)"
    using extend_start_ends [OF st(2) sets(1) _ assms(5)] Suc.prems by auto
  then obtain st3 where "extend_end k (ib2, lo2, bi2) = Some st3" "extended n bi (elems (bri_ends bi)) (Suc k) st3"
    using extend_end_ends [OF st2(2) sets(2)] Suc.prems by auto
  moreover from this st2(1) have "extend_branches k (ib, lo, bi1) = Some st3" by (simp add: extend_branches_def)
  ultimately show ?case using st(1) by (auto simp: loop_over_append)
qed

theorem post_process_extents:
  assumes "catches_ok opa" "branches_ok (code_length opa) bi" "0 \<in> elems (bri_starts bi)" "0 < code_length opa" "code_length opa < 2 ^ 31"
  shows "\<exists>brs st. xdebug_branch_post_process opa bi = Some (bi\<lparr>bri_entry_points := st, bri_branches := brs\<rparr>) \<and>
    set_of_size (code_length opa) st \<and> elems st \<subseteq> elems (bri_entry_points bi) \<and> records_ok (code_length opa) brs \<and>
    (\<forall>j < code_length opa. if j \<in> elems (bri_starts bi)
       then branch_view (brs ! j) = ended_view (bri_branches bi) j (extent (elems (bri_starts bi)) (elems (bri_ends bi)) (code_length opa) j)
       else brs ! j = bri_branches bi ! j)"
proof -
  let ?n = "code_length opa"
  have sets: "set_of_size ?n (bri_entry_points bi)" "set_of_size ?n (bri_starts bi)"
    using assms(2) by (simp_all add: branches_ok_def)
  obtain bi1 where bi1: "loop_over (unchain_catch opa) [0..<?n] bi = Some bi1" "pruned ?n bi bi1"
    using unchaining_ends [OF assms(1) sets(1) order_refl] by blast
  then obtain st where st: "bi1 = bi\<lparr>bri_entry_points := st\<rparr>" "set_of_size ?n st" "elems st \<subseteq> elems (bri_entry_points bi)"
    unfolding pruned_def by blast
  have "branches_ok ?n bi1" using assms(2) st(1,2) by (simp add: branches_ok_def)
  then obtain u where u: "loop_over extend_branches [0..<?n] (False, None, bi1) = Some u" "extended ?n bi1 (elems (bri_ends bi1)) ?n u"
    using extend_branches_end [of ?n bi1 ?n] assms(3-5) st(1) by auto
  then obtain brs ib l where brs: "u = (ib, l, bi1\<lparr>bri_branches := brs\<rparr>)" "records_ok ?n brs"
    "\<forall>j < ?n. if j \<in> elems (bri_starts bi)
       then branch_view (brs ! j) = ended_view (bri_branches bi) j (extent (elems (bri_starts bi)) (elems (bri_ends bi)) ?n j)
       else brs ! j = bri_branches bi ! j"
    unfolding extended_def using st(1) by auto
  have "xdebug_branch_post_process opa bi = Some (bi1\<lparr>bri_branches := brs\<rparr>)"
    using bi1(1) u(1) brs(1) sets st(1) by (simp add: xdebug_branch_post_process_def set_of_size_def)
  then have "xdebug_branch_post_process opa bi = Some (bi\<lparr>bri_entry_points := st, bri_branches := brs\<rparr>)" using st(1) by simp
  with st(2,3) brs(2,3) show ?thesis by blast
qed

text \<open>The branches that come out of it lead to branches, so that paths can be looked for.\<close>

lemma extent_less:
  "extent S E n j = Falls_into x \<Longrightarrow> x < n" "extent S E n j = Ends_at m \<Longrightarrow> m < n"
proof -
  have l: "last_end E j k = Some m \<Longrightarrow> m < k" for k m using last_elem_in by (fastforce simp: last_end_def)
  show "extent S E n j = Falls_into x \<Longrightarrow> x < n"
    using next_start_Some [of S n j] by (auto simp: extent_def split: option.splits)
  show "extent S E n j = Ends_at m \<Longrightarrow> m < n"
    using next_start_Some [of S n j] l by (auto simp: extent_def split: option.splits dest: less_trans)
qed

lemma view_outs: "take (br_outs_count b) (br_outs b) = snd (snd (snd (branch_view b)))"
  by (simp add: branch_view_def)

lemma extents_outs_ok:
  assumes "branches_ok n bi" "records_ok n brs" "n < 2 ^ 31"
    "\<forall>j < n. if j \<in> S then branch_view (brs ! j) = ended_view (bri_branches bi) j (extent S E n j) else brs ! j = bri_branches bi ! j"
  shows "outs_ok brs"
proof -
  have orig: "list_all (out_ok n) (take c (br_outs (bri_branches bi ! j)))" if "j < n" for c j
  proof -
    have "branch_ok n (bri_branches bi ! j)" using assms(1) that by (simp add: branches_ok_def list_all_length)
    then show ?thesis by (auto simp: branch_ok_def list_all_iff dest: in_set_takeD)
  qed
  have "list_all (out_ok n) (take (br_outs_count (brs ! j)) (br_outs (brs ! j)))" if j: "j < n" for j
  proof (cases "j \<in> S")
    case True
    with assms(4) j have v: "branch_view (brs ! j) = ended_view (bri_branches bi) j (extent S E n j)" by simp
    have "list_all (out_ok n) (snd (snd (snd (ended_view (bri_branches bi) j (extent S E n j)))))"
      using extent_less [of S E n j] orig j by (cases "extent S E n j") (auto simp: ended_view_def branch_view_def out_ok_def)
    then show ?thesis unfolding view_outs v .
  next
    case False
    with assms(4) j orig [OF j] show ?thesis by simp
  qed
  moreover have "length brs = n" using assms(2) by (simp add: records_ok_def)
  ultimately show ?thesis using assms(3)
    by (fastforce simp: outs_ok_def branch_edges_def live_outs_def list_all_iff out_ok_def uint_of_def)
qed

text \<open>No branch has more ways out than the widest jump.\<close>

lemma extents_counts:
  assumes "branches_ok n bi" "records_ok n brs" "\<And>x. x \<in> S \<Longrightarrow> x \<noteq> 0 \<Longrightarrow> 0 < bri_highest_out bi"
    "\<forall>j < n. if j \<in> S then branch_view (brs ! j) = ended_view (bri_branches bi) j (extent S E n j) else brs ! j = bri_branches bi ! j"
    "j < n"
  shows "br_outs_count (brs ! j) \<le> bri_highest_out bi"
proof -
  have orig: "br_outs_count (bri_branches bi ! i) \<le> bri_highest_out bi" if "i < n" for i
    using assms(1) that by (simp add: branches_ok_def list_all_length)
  show ?thesis
  proof (cases "j \<in> S")
    case False
    with assms(4,5) orig show ?thesis by simp
  next
    case True
    have count: "br_outs_count (brs ! j) = length (snd (snd (snd (branch_view (brs ! j)))))"
      using records_okD(1,2) [OF assms(2,5)] by (simp add: branch_view_def)
    have fall: "0 < bri_highest_out bi" if "extent S E n j = Falls_into x" for x
    proof -
      have "next_start S n j = Some x" using that by (auto simp: extent_def split: option.splits)
      then have "x \<in> S" "x \<noteq> 0" by (auto simp: next_start_def dest: find_upt)
      then show ?thesis by (rule assms(3))
    qed
    have "length (snd (snd (snd (ended_view (bri_branches bi) j (extent S E n j))))) \<le> bri_highest_out bi"
      using orig [OF assms(5)] orig extent_less(2) [of S E n j] fall
      by (cases "extent S E n j") (auto simp: ended_view_def branch_view_def intro: order_trans [OF min.cobounded2] Suc_leI)
    with assms(4,5) True show ?thesis unfolding count by simp
  qed
qed

text \<open>After the analysis a second branch means that there are jumps.\<close>

lemma starts_need_jumps:
  assumes "code_ok opa" "starting opa x" "x \<noteq> 0" "\<And>p. reached opa p \<Longrightarrow> jump_width opa p \<le> h"
  shows "0 < h"
proof -
  have w: "0 < jump_width opa p" if "jump_list opa p \<noteq> []" for p
    using that by (auto simp: jump_list_def jump_width_def jump_targets_def split: option.splits)
  consider "enters opa x" | p where "reached opa p" "x \<in> set (jump_list opa p)" using assms(2) by (auto simp: starting_def)
  then show ?thesis
  proof cases
    case 1
    then obtain opcode where op: "op_at opa x = Some opcode" "op_opcode opcode = ZEND_CATCH"
      using assms(3) by (auto simp: enters_def split: option.splits)
    then have "xdebug_find_jumps opa x = Some (Some (find_catch_jumps opcode x))" by (simp add: xdebug_find_jumps_def)
    then have "0 < jump_width opa x" by (simp add: jump_width_def find_catch_jumps_def Let_def)
    with assms(4) [OF reached.entry [OF 1]] show ?thesis by simp
  next
    case 2
    with w [of p] assms(4) [of p] show ?thesis by force
  qed
qed

end
