(* ===== verification/Xd_Filter.thy ===== *)
theory Xd_Filter
  imports Xd_Dbg_State Xd_Mode
begin

text \<open>
  The filters of \<open>src/base/filter.c\<close>: which stack frames and functions are left out of stack traces, of tracing and of
  code coverage.  A list of filters holds the strings in order.  The frame of \<open>Xd_Dbg_State\<close> gets its three flags.
\<close>

definition XDEBUG_FILTER_NONE :: int where "XDEBUG_FILTER_NONE = 0x000"
definition XDEBUG_FILTER_CODE_COVERAGE :: int where "XDEBUG_FILTER_CODE_COVERAGE = 0x100"
definition XDEBUG_FILTER_STACK :: int where "XDEBUG_FILTER_STACK = 0x200"
definition XDEBUG_FILTER_TRACING :: int where "XDEBUG_FILTER_TRACING = 0x300"
definition XDEBUG_PATH_INCLUDE :: int where "XDEBUG_PATH_INCLUDE = 0x01"
definition XDEBUG_PATH_EXCLUDE :: int where "XDEBUG_PATH_EXCLUDE = 0x02"
definition XDEBUG_NAMESPACE_INCLUDE :: int where "XDEBUG_NAMESPACE_INCLUDE = 0x11"
definition XDEBUG_NAMESPACE_EXCLUDE :: int where "XDEBUG_NAMESPACE_EXCLUDE = 0x12"

lemmas filter_types = XDEBUG_FILTER_NONE_def XDEBUG_PATH_INCLUDE_def XDEBUG_PATH_EXCLUDE_def XDEBUG_NAMESPACE_INCLUDE_def
  XDEBUG_NAMESPACE_EXCLUDE_def

lemmas filter_groups = XDEBUG_FILTER_CODE_COVERAGE_def XDEBUG_FILTER_STACK_def XDEBUG_FILTER_TRACING_def

text \<open>What a filter looks at: the file, the file it includes, the class, and the type of the function.\<close>

record filter_frame =
  ff_filename :: "string option"
  ff_include_filename :: "string option"
  ff_object_class :: "string option"
  ff_type :: int

record frame_filters =
  filtered_code_coverage :: bool
  filtered_stack :: bool
  filtered_tracing :: bool

record base_filters =
  filter_type_code_coverage :: int
  filters_code_coverage :: "string list"
  filter_type_stack :: int
  filters_stack :: "string list"
  filter_type_tracing :: int
  filters_tracing :: "string list"

definition xdebug_is_stack_frame_filtered :: "int \<Rightarrow> frame_filters \<Rightarrow> bool" where
  "xdebug_is_stack_frame_filtered filter_type fse =
     (if filter_type = XDEBUG_FILTER_CODE_COVERAGE then filtered_code_coverage fse
      else if filter_type = XDEBUG_FILTER_STACK then filtered_stack fse
      else if filter_type = XDEBUG_FILTER_TRACING then filtered_tracing fse
      else False)"

text \<open>\<open>strncasecmp(filter, s, strlen(filter)) == 0\<close>.\<close>

definition case_prefix :: "string \<Rightarrow> string \<Rightarrow> bool" where
  "case_prefix filt s \<longleftrightarrow> map tolower (take (length filt) (c_str s)) = map tolower filt"

text \<open>A match sets the flag; without one it stays as it was.\<close>

definition xdebug_filter_match_path_include :: "filter_frame \<Rightarrow> string \<Rightarrow> bool option" where
  "xdebug_filter_match_path_include fse filt =
     (case ff_filename fse of Some f \<Rightarrow> if case_prefix filt f then Some False else None | None \<Rightarrow> None)"

definition xdebug_filter_match_path_exclude :: "filter_frame \<Rightarrow> string \<Rightarrow> bool option" where
  "xdebug_filter_match_path_exclude fse filt =
     (case ff_filename fse of Some f \<Rightarrow> if case_prefix filt f then Some True else None | None \<Rightarrow> None)"

definition xdebug_filter_match_namespace_include :: "filter_frame \<Rightarrow> string \<Rightarrow> bool option" where
  "xdebug_filter_match_namespace_include fse filt =
     (case ff_object_class fse of
        None \<Rightarrow> if filt = [] then Some False else None
      | Some c \<Rightarrow> if filt \<noteq> [] \<and> case_prefix filt c then Some False else None)"

definition xdebug_filter_match_namespace_exclude :: "filter_frame \<Rightarrow> string \<Rightarrow> bool option" where
  "xdebug_filter_match_namespace_exclude fse filt =
     (case ff_object_class fse of
        None \<Rightarrow> if filt = [] then Some True else None
      | Some c \<Rightarrow> if filt \<noteq> [] \<and> case_prefix filt c then Some True else None)"

fun run_filters :: "(string \<Rightarrow> bool option) \<Rightarrow> bool \<Rightarrow> string list \<Rightarrow> bool" where
  "run_filters filter_to_run filtered_flag [] = filtered_flag"
| "run_filters filter_to_run filtered_flag (filt # le) =
     (case filter_to_run filt of Some flag \<Rightarrow> flag | None \<Rightarrow> run_filters filter_to_run filtered_flag le)"

definition for_group :: "int \<Rightarrow> filter_frame \<Rightarrow> filter_frame" where
  "for_group grp fse =
     (if grp = XDEBUG_FILTER_CODE_COVERAGE \<and> and (ff_type fse) XFUNC_INCLUDES \<noteq> 0
      then fse\<lparr>ff_filename := ff_include_filename fse\<rparr> else fse)"

definition xdebug_filter_run_internal :: "filter_frame \<Rightarrow> int \<Rightarrow> bool \<Rightarrow> int \<Rightarrow> string list \<Rightarrow> bool" where
  "xdebug_filter_run_internal fse grp filtered_flag type filters =
     (if type = XDEBUG_PATH_INCLUDE then run_filters (xdebug_filter_match_path_include (for_group grp fse)) True filters
      else if type = XDEBUG_PATH_EXCLUDE then run_filters (xdebug_filter_match_path_exclude (for_group grp fse)) False filters
      else if type = XDEBUG_NAMESPACE_INCLUDE then run_filters (xdebug_filter_match_namespace_include fse) True filters
      else if type = XDEBUG_NAMESPACE_EXCLUDE then run_filters (xdebug_filter_match_namespace_exclude fse) False filters
      else filtered_flag)"

definition xdebug_filter_run :: "base_filters \<Rightarrow> filter_frame \<Rightarrow> frame_filters \<Rightarrow> frame_filters" where
  "xdebug_filter_run b fse flags =
     flags\<lparr>filtered_stack :=
             (if filter_type_stack b \<noteq> XDEBUG_FILTER_NONE
              then xdebug_filter_run_internal fse XDEBUG_FILTER_STACK False (filter_type_stack b) (filters_stack b) else False),
           filtered_tracing :=
             (if filter_type_tracing b \<noteq> XDEBUG_FILTER_NONE
              then xdebug_filter_run_internal fse XDEBUG_FILTER_TRACING False (filter_type_tracing b) (filters_tracing b) else False)\<rparr>"

section \<open>Setting filters\<close>

text \<open>The result of \<open>xdebug_set_filter\<close>: done, a message in the log, or a PHP warning.\<close>

datatype set_filter_result = Filter_done | Filter_log string string | Filter_warning string

definition put_filter_type :: "int \<Rightarrow> int \<Rightarrow> base_filters \<Rightarrow> base_filters" where
  "put_filter_type grp type b =
     (if grp = XDEBUG_FILTER_CODE_COVERAGE then b\<lparr>filter_type_code_coverage := type\<rparr>
      else if grp = XDEBUG_FILTER_STACK then b\<lparr>filter_type_stack := type\<rparr>
      else if grp = XDEBUG_FILTER_TRACING then b\<lparr>filter_type_tracing := type\<rparr> else b)"

definition put_filter_list :: "int \<Rightarrow> string list \<Rightarrow> base_filters \<Rightarrow> base_filters" where
  "put_filter_list grp filters b =
     (if grp = XDEBUG_FILTER_CODE_COVERAGE then b\<lparr>filters_code_coverage := filters\<rparr>
      else if grp = XDEBUG_FILTER_STACK then b\<lparr>filters_stack := filters\<rparr>
      else if grp = XDEBUG_FILTER_TRACING then b\<lparr>filters_tracing := filters\<rparr> else b)"

definition filter_group_check :: "nat \<Rightarrow> int \<Rightarrow> set_filter_result" where
  "filter_group_check mode grp =
     (if grp = XDEBUG_FILTER_CODE_COVERAGE
      then if XDEBUG_MODE_IS mode XDEBUG_MODE_COVERAGE then Filter_done
           else Filter_log ''COV-FILTER'' (''Can not set a filter for code coverage, because Xdebug mode does not include 'coverage'' @ [CHR 0x27])
      else if grp = XDEBUG_FILTER_STACK
      then if XDEBUG_MODE_IS mode XDEBUG_MODE_DEVELOP then Filter_done
           else Filter_log ''DEV-FILTER'' (''Can not set a stack filter, because Xdebug mode does not include 'develop'' @ [CHR 0x27])
      else if grp = XDEBUG_FILTER_TRACING
      then if XDEBUG_MODE_IS mode XDEBUG_MODE_TRACING then Filter_done
           else Filter_log ''TRACE-FILTER'' (''Can not set a filter for tracing, because Xdebug mode does not include 'trace'' @ [CHR 0x27])
      else Filter_warning ''Filter group needs to be one of XDEBUG_FILTER_CODE_COVERAGE, XDEBUG_FILTER_STACK, or XDEBUG_FILTER_TRACING'')"

definition matcher_of :: "string \<Rightarrow> string" where
  "matcher_of str = (let filt = c_str str in case filt of c # rest \<Rightarrow> if c = BSLASH then rest else filt | [] \<Rightarrow> filt)"

definition xdebug_set_filter :: "nat \<Rightarrow> base_filters \<Rightarrow> int \<Rightarrow> int \<Rightarrow> string list \<Rightarrow> base_filters \<times> set_filter_result" where
  "xdebug_set_filter mode b grp type filters =
     (case filter_group_check mode grp of
        Filter_done \<Rightarrow>
          (let b1 = put_filter_type grp XDEBUG_FILTER_NONE b in
           if grp = XDEBUG_FILTER_CODE_COVERAGE \<and> (type = XDEBUG_NAMESPACE_INCLUDE \<or> type = XDEBUG_NAMESPACE_EXCLUDE)
           then (b1, Filter_warning ''The code coverage filter (XDEBUG_FILTER_CODE_COVERAGE) only supports the XDEBUG_PATH_INCLUDE, XDEBUG_PATH_EXCLUDE, and XDEBUG_FILTER_NONE filter types'')
           else if type = XDEBUG_PATH_INCLUDE \<or> type = XDEBUG_PATH_EXCLUDE \<or> type = XDEBUG_NAMESPACE_INCLUDE \<or>
                   type = XDEBUG_NAMESPACE_EXCLUDE \<or> type = XDEBUG_FILTER_NONE
           then (put_filter_list grp (if type = XDEBUG_FILTER_NONE then [] else map matcher_of filters) (put_filter_type grp type b1),
                 Filter_done)
           else (b1, Filter_warning ''Filter type needs to be one of XDEBUG_PATH_INCLUDE, XDEBUG_PATH_EXCLUDE, XDEBUG_NAMESPACE_INCLUDE, XDEBUG_NAMESPACE_EXCLUDE, or XDEBUG_FILTER_NONE''))
      | r \<Rightarrow> (b, r))"

section \<open>What a filter decides\<close>

text \<open>A frame is what one of the filters names; with the empty string a namespace filter names everything outside classes.\<close>

definition named_by :: "int \<Rightarrow> filter_frame \<Rightarrow> string \<Rightarrow> bool" where
  "named_by type fse filt \<longleftrightarrow>
     (if type = XDEBUG_PATH_INCLUDE \<or> type = XDEBUG_PATH_EXCLUDE
      then (case ff_filename fse of Some f \<Rightarrow> case_prefix filt f | None \<Rightarrow> False)
      else (case ff_object_class fse of Some c \<Rightarrow> filt \<noteq> [] \<and> case_prefix filt c | None \<Rightarrow> filt = []))"

lemma run_filters_same:
  assumes "\<And>f. m f = (if P f then Some v else None)"
  shows "run_filters m (\<not> v) fs = (if list_ex P fs then v else \<not> v)"
  by (induction fs) (simp_all add: assms)

lemma filter_run_internal_includes:
  assumes "type = XDEBUG_PATH_INCLUDE \<or> type = XDEBUG_NAMESPACE_INCLUDE" "grp \<noteq> XDEBUG_FILTER_CODE_COVERAGE \<or> type = XDEBUG_PATH_INCLUDE"
  shows "xdebug_filter_run_internal fse grp flag type fs \<longleftrightarrow> \<not> list_ex (named_by type (for_group grp fse)) fs"
proof -
  have "run_filters (xdebug_filter_match_path_include g) (\<not> False) fs = (if list_ex (named_by XDEBUG_PATH_INCLUDE g) fs then False else \<not> False)" for g
    by (rule run_filters_same) (simp add: xdebug_filter_match_path_include_def named_by_def split: option.splits)
  moreover have "run_filters (xdebug_filter_match_namespace_include g) (\<not> False) fs =
      (if list_ex (named_by XDEBUG_NAMESPACE_INCLUDE g) fs then False else \<not> False)" for g
    by (rule run_filters_same) (simp add: xdebug_filter_match_namespace_include_def named_by_def filter_types split: option.splits)
  moreover have "for_group grp fse = fse" if "grp \<noteq> XDEBUG_FILTER_CODE_COVERAGE" using that by (simp add: for_group_def)
  ultimately show ?thesis using assms by (auto simp: xdebug_filter_run_internal_def filter_types)
qed

lemma filter_run_internal_excludes:
  assumes "type = XDEBUG_PATH_EXCLUDE \<or> type = XDEBUG_NAMESPACE_EXCLUDE" "grp \<noteq> XDEBUG_FILTER_CODE_COVERAGE \<or> type = XDEBUG_PATH_EXCLUDE"
  shows "xdebug_filter_run_internal fse grp flag type fs \<longleftrightarrow> list_ex (named_by type (for_group grp fse)) fs"
proof -
  have "run_filters (xdebug_filter_match_path_exclude g) (\<not> True) fs = (if list_ex (named_by XDEBUG_PATH_EXCLUDE g) fs then True else \<not> True)" for g
    by (rule run_filters_same) (simp add: xdebug_filter_match_path_exclude_def named_by_def split: option.splits)
  moreover have "run_filters (xdebug_filter_match_namespace_exclude g) (\<not> True) fs =
      (if list_ex (named_by XDEBUG_NAMESPACE_EXCLUDE g) fs then True else \<not> True)" for g
    by (rule run_filters_same) (simp add: xdebug_filter_match_namespace_exclude_def named_by_def filter_types split: option.splits)
  moreover have "for_group grp fse = fse" if "grp \<noteq> XDEBUG_FILTER_CODE_COVERAGE" using that by (simp add: for_group_def)
  ultimately show ?thesis using assms by (auto simp: xdebug_filter_run_internal_def filter_types)
qed

text \<open>The order of the filters does not matter, nor how often one is given.\<close>

lemma filters_as_set:
  assumes "set fs = set gs" "type \<in> {XDEBUG_PATH_INCLUDE, XDEBUG_PATH_EXCLUDE, XDEBUG_NAMESPACE_INCLUDE, XDEBUG_NAMESPACE_EXCLUDE}"
    "grp \<noteq> XDEBUG_FILTER_CODE_COVERAGE \<or> type \<in> {XDEBUG_PATH_INCLUDE, XDEBUG_PATH_EXCLUDE}"
  shows "xdebug_filter_run_internal fse grp flag type fs = xdebug_filter_run_internal fse grp flag type gs"
  using assms filter_run_internal_includes [of type grp fse flag] filter_run_internal_excludes [of type grp fse flag]
  by (auto simp: list_ex_iff)

text \<open>A filter that was set decides about the frames of the stack and of the trace.\<close>

theorem stack_filter_decides:
  assumes "XDEBUG_MODE_IS mode XDEBUG_MODE_DEVELOP"
    and "type \<in> {XDEBUG_PATH_INCLUDE, XDEBUG_PATH_EXCLUDE, XDEBUG_NAMESPACE_INCLUDE, XDEBUG_NAMESPACE_EXCLUDE}"
    and "xdebug_set_filter mode b XDEBUG_FILTER_STACK type filters = (b', r)"
  shows "r = Filter_done \<and>
    filtered_stack (xdebug_filter_run b' fse flags) =
      (list_ex (\<lambda>f. named_by type fse (matcher_of f)) filters = (type = XDEBUG_PATH_EXCLUDE \<or> type = XDEBUG_NAMESPACE_EXCLUDE)) \<and>
    filtered_tracing (xdebug_filter_run b' fse flags) = filtered_tracing (xdebug_filter_run b fse flags) \<and>
    filters_code_coverage b' = filters_code_coverage b \<and> filter_type_code_coverage b' = filter_type_code_coverage b"
proof -
  have g: "XDEBUG_FILTER_STACK \<noteq> XDEBUG_FILTER_CODE_COVERAGE" "XDEBUG_FILTER_STACK \<noteq> XDEBUG_FILTER_TRACING"
    by (simp_all add: filter_groups)
  have t: "type \<noteq> XDEBUG_FILTER_NONE" using assms(2) by (auto simp: filter_types)
  have b': "b' = b\<lparr>filter_type_stack := type, filters_stack := map matcher_of filters\<rparr>" "r = Filter_done"
    using assms g t by (auto simp: xdebug_set_filter_def filter_group_check_def put_filter_type_def put_filter_list_def Let_def)
  have fg: "for_group XDEBUG_FILTER_STACK fse = fse" using g by (simp add: for_group_def)
  have "filtered_stack (xdebug_filter_run b' fse flags) =
      xdebug_filter_run_internal fse XDEBUG_FILTER_STACK False type (map matcher_of filters)"
    using t b'(1) by (simp add: xdebug_filter_run_def)
  also have "\<dots> = (list_ex (\<lambda>f. named_by type fse (matcher_of f)) filters = (type = XDEBUG_PATH_EXCLUDE \<or> type = XDEBUG_NAMESPACE_EXCLUDE))"
    using assms(2) g(1) filter_run_internal_includes [of type XDEBUG_FILTER_STACK fse False "map matcher_of filters"]
      filter_run_internal_excludes [of type XDEBUG_FILTER_STACK fse False "map matcher_of filters"]
    unfolding fg by (auto simp: list_ex_iff filter_types)
  finally show ?thesis using b' by (simp add: xdebug_filter_run_def)
qed

end
