(* ===== verification/Xd_Cov_State.thy ===== *)
theory Xd_Cov_State
  imports Xd_Branch Xd_Filter "HOL-Library.Monad_Syntax"
begin

text \<open>
  The state of code coverage, and how the running of branches and paths is recorded: \<open>src/coverage/code_coverage.c\<close> with
  the rest of \<open>src/coverage/branch_info.c\<close> and the names of functions from \<open>src/lib/lib.c\<close>.  A pointer to a file, to a
  function of a file, or to the paths of a fiber is the key under which its table holds it.  A read or write through a
  pointer that is null, freed, or outside its array is \<open>None\<close>.
\<close>

record xdebug_coverage_analysis_function =
  af_name :: string
  af_branch_info :: "xdebug_branch_info option"

record xdebug_coverage_runtime_function =
  rf_name :: string
  rf_analysis :: string
  rf_hit_paths :: "unit xdebug_hash"
  rf_hit_branch :: xdebug_set

record xdebug_coverage_file =
  cf_name :: string
  cf_lines :: xdebug_mset
  cf_functions :: "xdebug_coverage_analysis_function xdebug_hash"
  cf_hit_lines :: xdebug_mset
  cf_hit_functions :: "xdebug_coverage_runtime_function xdebug_hash"
  cf_has_branch_info :: bool

text \<open>
  The globals.  \<open>cov_branches\<close> is the array of the last branch of each level of the stack; \<open>cov_reserved\<close> the two slots
  of a function for extensions, filtered and scanned; \<open>cov_traits\<close> the map from names of trait methods to their trait.
\<close>

record coverage =
  cov_active :: bool
  cov_unused :: bool
  cov_dead_code :: bool
  cov_branch_check :: bool
  cov_info :: "xdebug_coverage_file xdebug_hash option"
  cov_previous_filename :: "string option"
  cov_previous_mark_filename :: "string option"
  cov_prefill_function_count :: nat
  cov_prefill_class_count :: nat
  cov_visited_branches :: "unit xdebug_hash option"
  cov_fiber_stacks :: "xdebug_path_info xdebug_hash option"
  cov_paths_stack :: "string option"
  cov_branches :: "int list"
  cov_reserved :: "nat \<Rightarrow> bool \<times> bool"
  cov_traits :: "string xdebug_hash"
  cov_filters :: base_filters

section \<open>Files and functions\<close>

definition xdebug_coverage_file_ctor :: "string \<Rightarrow> xdebug_coverage_file" where
  "xdebug_coverage_file_ctor filename =
     \<lparr>cf_name = filename, cf_lines = xdebug_mset_create, cf_functions = xdebug_hash_alloc 128 True,
      cf_hit_lines = xdebug_mset_create, cf_hit_functions = xdebug_hash_alloc 128 True, cf_has_branch_info = False\<rparr>"

definition xdebug_coverage_analysis_function_ctor :: "string \<Rightarrow> xdebug_coverage_analysis_function" where
  "xdebug_coverage_analysis_function_ctor function_name = \<lparr>af_name = function_name, af_branch_info = None\<rparr>"

definition xdebug_coverage_runtime_function_ctor ::
    "string \<Rightarrow> xdebug_coverage_analysis_function \<Rightarrow> xdebug_coverage_runtime_function option" where
  "xdebug_coverage_runtime_function_ctor function_name analysis =
     do { bi \<leftarrow> af_branch_info analysis;
          hits \<leftarrow> xdebug_set_create (set_size (bri_starts bi) * (1 + bri_highest_out bi) mod 2 ^ 32);
          Some \<lparr>rf_name = function_name, rf_analysis = af_name analysis, rf_hit_paths = xdebug_hash_alloc 128 False,
                rf_hit_branch = hits\<rparr> }"

definition file_at :: "coverage \<Rightarrow> string \<Rightarrow> xdebug_coverage_file option" where
  "file_at st filename = Option.bind (cov_info st) (\<lambda>h. xdebug_hash_find h filename)"

definition put_file :: "string \<Rightarrow> xdebug_coverage_file \<Rightarrow> coverage \<Rightarrow> coverage" where
  "put_file filename f st = st\<lparr>cov_info := map_option (\<lambda>h. hash_poke h filename f) (cov_info st)\<rparr>"

definition fetch_file :: "string \<Rightarrow> coverage \<Rightarrow> coverage option" where
  "fetch_file filename st =
     (if cov_previous_filename st = Some filename then Some st
      else do { h \<leftarrow> cov_info st;
                Some (case xdebug_hash_find h filename of
                        Some f \<Rightarrow> st\<lparr>cov_previous_filename := Some (cf_name f)\<rparr>
                      | None \<Rightarrow> st\<lparr>cov_info := Some (xdebug_hash_add h filename (xdebug_coverage_file_ctor filename)),
                                  cov_previous_filename := Some filename\<rparr>) })"

definition fetch_mark_file :: "string \<Rightarrow> coverage \<Rightarrow> (coverage \<times> bool) option" where
  "fetch_mark_file filename st =
     (if cov_previous_mark_filename st = Some filename then Some (st, True)
      else do { h \<leftarrow> cov_info st;
                Some (case xdebug_hash_find h filename of
                        None \<Rightarrow> (st, False)
                      | Some f \<Rightarrow> (st\<lparr>cov_previous_mark_filename := Some (cf_name f)\<rparr>, True)) })"

section \<open>Names of functions\<close>

definition at_lines :: "string \<Rightarrow> cov_op_array \<Rightarrow> string" where
  "at_lines before opa =
     before @ '':'' @ c_str (ca_filename opa) @ '':'' @ dec_int (to_int32 (int (ca_line_start opa))) @ ''-'' @
     dec_int (to_int32 (int (ca_line_end opa))) @ ''}''"

definition xdebug_wrap_closure_location_around_function_name :: "cov_op_array \<Rightarrow> string \<Rightarrow> string option" where
  "xdebug_wrap_closure_location_around_function_name opa fname =
     (if fname = [] then None
      else if last fname \<noteq> CHR ''}'' then Some fname
      else if length fname < length ''{closure'' then None
      else Some (at_lines (c_str (take (length ''{closure'') fname)) opa))"

definition xdebug_wrap_location_around_function_name ::
    "string \<Rightarrow> cov_op_array \<Rightarrow> string \<Rightarrow> coverage \<Rightarrow> (coverage \<times> string) option" where
  "xdebug_wrap_location_around_function_name prefix opa fname st =
     (let wrapped = at_lines (c_str fname @ ''{'' @ prefix) opa in
      case xdebug_hash_find (cov_traits st) wrapped of
        Some _ \<Rightarrow> Some (st, wrapped)
      | None \<Rightarrow> map_option (\<lambda>sc. (st\<lparr>cov_traits := xdebug_hash_add (cov_traits st) wrapped (fst sc)\<rparr>, wrapped)) (ca_scope opa))"

record cov_func =
  cfn_type :: int
  cfn_function :: string
  cfn_object_class :: "string option"

definition xdebug_build_fname_from_oparray :: "cov_op_array \<Rightarrow> coverage \<Rightarrow> (coverage \<times> cov_func) option" where
  "xdebug_build_fname_from_oparray opa st =
     do { (st1, fname, wrapped) \<leftarrow>
            (case ca_function_name opa of
               None \<Rightarrow> Some (st, ''{main}'', False)
             | Some f \<Rightarrow>
                 if ca_closure opa
                 then map_option (\<lambda>w. (st, w, True)) (xdebug_wrap_closure_location_around_function_name opa f)
                 else if ca_trait_clone opa \<or> (case ca_scope opa of Some (_, is_trait) \<Rightarrow> is_trait | None \<Rightarrow> False)
                 then map_option (\<lambda>(st1, w). (st1, w, True)) (xdebug_wrap_location_around_function_name ''trait-method'' opa f st)
                 else Some (st, f, False));
          Some (st1, case (ca_scope opa, wrapped) of
                       (Some (class_name, _), False) \<Rightarrow>
                         \<lparr>cfn_type = XFUNC_MEMBER, cfn_function = fname, cfn_object_class = Some class_name\<rparr>
                     | _ \<Rightarrow> \<lparr>cfn_type = XFUNC_NORMAL, cfn_function = fname, cfn_object_class = None\<rparr>) }"

text \<open>The name as the C string that ends up in the buffer.\<close>

definition xdebug_func_format :: "nat \<Rightarrow> cov_func \<Rightarrow> string" where
  "xdebug_func_format buffer_size func =
     (if cfn_type func = XFUNC_NORMAL
      then if length (cfn_function func) + 1 > buffer_size then ''?'' else c_str (cfn_function func)
      else if cfn_type func = XFUNC_MEMBER
      then (case cfn_object_class func of
              Some cls \<Rightarrow>
                if length cls + 2 + length (cfn_function func) + 1 > buffer_size then ''?''
                else c_str (cls @ ''->'' @ cfn_function func)
            | None \<Rightarrow> ''?'')
      else ''?'')"

definition function_name_of :: "cov_op_array \<Rightarrow> coverage \<Rightarrow> (coverage \<times> string) option" where
  "function_name_of opa st = map_option (\<lambda>(st1, func). (st1, xdebug_func_format 1024 func)) (xdebug_build_fname_from_oparray opa st)"

definition xdebug_get_trait_scope :: "coverage \<Rightarrow> string \<Rightarrow> string option option" where
  "xdebug_get_trait_scope st f =
     (if f = [] then None
      else Some (if hd f \<noteq> CHR ''{'' \<and> last f = CHR ''}'' then xdebug_hash_find (cov_traits st) f else None))"

section \<open>Lines\<close>

definition COV_BIT_HIT :: nat where "COV_BIT_HIT = 0"
definition COV_BIT_EXEC :: nat where "COV_BIT_EXEC = 1"
definition COV_BIT_ACTIVE :: nat where "COV_BIT_ACTIVE = 2"

definition xdebug_count_line :: "string \<Rightarrow> nat \<Rightarrow> coverage \<Rightarrow> coverage option" where
  "xdebug_count_line filename lineno st =
     do { st1 \<leftarrow> fetch_file filename st;
          f \<leftarrow> file_at st1 filename;
          lines \<leftarrow> xdebug_mset_add (cf_hit_lines f) lineno COV_BIT_HIT;
          Some (put_file filename (f\<lparr>cf_hit_lines := lines\<rparr>) st1) }"

definition xdebug_analysis_line :: "nat \<Rightarrow> bool \<Rightarrow> xdebug_coverage_file \<Rightarrow> xdebug_coverage_file option" where
  "xdebug_analysis_line lineno active_code f =
     do { lines \<leftarrow> xdebug_mset_add (cf_lines f) lineno COV_BIT_EXEC;
          lines2 \<leftarrow> (if active_code then xdebug_mset_add lines lineno COV_BIT_ACTIVE else Some lines);
          Some (f\<lparr>cf_lines := lines2\<rparr>) }"

definition opcode_type_filter :: "zend_op \<Rightarrow> bool \<Rightarrow> xdebug_coverage_file \<Rightarrow> xdebug_coverage_file option" where
  "opcode_type_filter opcode active_code f =
     (let c = op_opcode opcode in
      if c \<noteq> ZEND_NOP \<and> c \<noteq> ZEND_EXT_NOP \<and> c \<noteq> ZEND_RECV \<and> c \<noteq> ZEND_RECV_INIT \<and> c \<noteq> ZEND_OP_DATA \<and> c \<noteq> ZEND_TICKS \<and>
         c \<noteq> ZEND_FAST_CALL \<and> c \<noteq> ZEND_RECV_VARIADIC \<and> c \<noteq> ZEND_FREE
      then xdebug_analysis_line (op_lineno opcode) active_code f else Some f)"

section \<open>The paths of the frames of a fiber\<close>

definition stack_paths :: "coverage \<Rightarrow> xdebug_path_info option" where
  "stack_paths st = do { k \<leftarrow> cov_paths_stack st; h \<leftarrow> cov_fiber_stacks st; xdebug_hash_find h k }"

definition put_stack_paths :: "xdebug_path_info \<Rightarrow> coverage \<Rightarrow> coverage option" where
  "put_stack_paths pa st =
     do { k \<leftarrow> cov_paths_stack st; h \<leftarrow> cov_fiber_stacks st; Some (st\<lparr>cov_fiber_stacks := Some (hash_poke h k pa)\<rparr>) }"

text \<open>New levels have no path; the last branches of the levels they cover are forgotten.\<close>

definition xdebug_path_info_make_sure_level_exists :: "nat \<Rightarrow> coverage \<Rightarrow> coverage option" where
  "xdebug_path_info_make_sure_level_exists level st =
     do { pa \<leftarrow> stack_paths st;
          if level \<ge> pa_paths_size pa
          then do { st1 \<leftarrow> put_stack_paths
                      (pa\<lparr>pa_paths_size := level + 32,
                          pa_paths := pa_paths pa @ replicate (level + 32 - pa_paths_size pa) Path_null\<rparr>) st;
                    Some (st1\<lparr>cov_branches := take (pa_paths_size pa) (cov_branches st) @
                                replicate (length (cov_branches st) - pa_paths_size pa) (- 1)\<rparr>) }
          else Some st }"

definition level_slot :: "nat \<Rightarrow> coverage \<Rightarrow> path_slot option" where
  "level_slot level st =
     Option.bind (stack_paths st) (\<lambda>pa. if level < length (pa_paths pa) then Some (pa_paths pa ! level) else None)"

definition put_level_slot :: "nat \<Rightarrow> path_slot \<Rightarrow> coverage \<Rightarrow> coverage option" where
  "put_level_slot level slot st =
     do { pa \<leftarrow> stack_paths st;
          if level < length (pa_paths pa) then put_stack_paths (pa\<lparr>pa_paths := (pa_paths pa)[level := slot]\<rparr>) st else None }"

definition xdebug_path_info_add_path_for_level :: "xdebug_path \<Rightarrow> nat \<Rightarrow> coverage \<Rightarrow> coverage option" where
  "xdebug_path_info_add_path_for_level path level st =
     Option.bind (xdebug_path_info_make_sure_level_exists level st) (put_level_slot level (Path_at path))"

definition xdebug_path_info_get_path_for_level :: "nat \<Rightarrow> coverage \<Rightarrow> (coverage \<times> path_slot) option" where
  "xdebug_path_info_get_path_for_level level st =
     do { st1 \<leftarrow> xdebug_path_info_make_sure_level_exists level st; slot \<leftarrow> level_slot level st1; Some (st1, slot) }"

definition xdebug_path_add :: "path_slot \<Rightarrow> nat \<Rightarrow> path_slot option" where
  "xdebug_path_add path nr =
     (case path of Path_null \<Rightarrow> Some Path_null | Path_at elements \<Rightarrow> Some (Path_at (elements @ [nr])) | _ \<Rightarrow> None)"

definition last_branch :: "nat \<Rightarrow> coverage \<Rightarrow> int option" where
  "last_branch level st = (if level < length (cov_branches st) then Some (cov_branches st ! level) else None)"

definition put_last_branch :: "nat \<Rightarrow> int \<Rightarrow> coverage \<Rightarrow> coverage option" where
  "put_last_branch level nr st =
     (if level < length (cov_branches st) then Some (st\<lparr>cov_branches := (cov_branches st)[level := nr]\<rparr>) else None)"

section \<open>What was run\<close>

text \<open>Creates the runtime function when it is missing, then updates it.\<close>

definition runtime_function :: "string \<Rightarrow> string \<Rightarrow> xdebug_coverage_analysis_function \<Rightarrow> coverage \<Rightarrow> coverage option" where
  "runtime_function filename function_name analysis st =
     do { f \<leftarrow> file_at st filename;
          case xdebug_hash_find (cf_hit_functions f) function_name of
            Some _ \<Rightarrow> Some st
          | None \<Rightarrow>
              map_option (\<lambda>r. put_file filename (f\<lparr>cf_hit_functions := xdebug_hash_add (cf_hit_functions f) function_name r\<rparr>) st)
                (xdebug_coverage_runtime_function_ctor function_name analysis) }"

definition on_runtime ::
    "string \<Rightarrow> string \<Rightarrow> (xdebug_coverage_runtime_function \<Rightarrow> xdebug_coverage_runtime_function option) \<Rightarrow> coverage \<Rightarrow> coverage option" where
  "on_runtime filename function_name g st =
     do { f \<leftarrow> file_at st filename;
          r \<leftarrow> xdebug_hash_find (cf_hit_functions f) function_name;
          r1 \<leftarrow> g r;
          Some (put_file filename (f\<lparr>cf_hit_functions := hash_poke (cf_hit_functions f) function_name r1\<rparr>) st) }"

definition add_hit :: "nat \<Rightarrow> xdebug_coverage_runtime_function \<Rightarrow> xdebug_coverage_runtime_function option" where
  "add_hit position r = map_option (\<lambda>s. r\<lparr>rf_hit_branch := s\<rparr>) (xdebug_set_add (rf_hit_branch r) (position mod 2 ^ 32))"

definition xdebug_branch_info_mark_end_of_function_reached :: "string \<Rightarrow> string \<Rightarrow> string \<Rightarrow> coverage \<Rightarrow> coverage option" where
  "xdebug_branch_info_mark_end_of_function_reached filename function_name key st =
     do { (st1, found) \<leftarrow> fetch_mark_file filename st;
          if \<not> found then Some st1
          else do {
            f \<leftarrow> file_at st1 filename;
            if \<not> cf_has_branch_info f then Some st1
            else case xdebug_hash_find (cf_functions f) function_name of
                None \<Rightarrow> Some st1
              | Some analysis \<Rightarrow> do {
                  bi \<leftarrow> af_branch_info analysis;
                  path_hash \<leftarrow> pa_path_hash (bri_path_info bi);
                  if xdebug_hash_find path_hash key = None then Some st1
                  else do {
                    st2 \<leftarrow> runtime_function filename function_name analysis st1;
                    on_runtime filename function_name
                      (\<lambda>r. Some (r\<lparr>rf_hit_paths := xdebug_hash_add (rf_hit_paths r) key ()\<rparr>)) st2 } } } }"

definition xdebug_code_coverage_end_of_function :: "nat \<Rightarrow> string \<Rightarrow> string \<Rightarrow> coverage \<Rightarrow> coverage option" where
  "xdebug_code_coverage_end_of_function level filename function_name st =
     do { (st1, slot) \<leftarrow> xdebug_path_info_get_path_for_level level st;
          case slot of
            Path_null \<Rightarrow> Some st1
          | Path_at elements \<Rightarrow> do {
              st2 \<leftarrow> (if elements = [] then Some st1
                     else xdebug_branch_info_mark_end_of_function_reached filename function_name
                            (xdebug_create_key_for_path elements) st1);
              put_level_slot level Path_freed st2 }
          | _ \<Rightarrow> None }"

end
