(* ===== verification/Xd_Coverage.thy ===== *)
theory Xd_Coverage
  imports Xd_Cov_State
begin

text \<open>
  The operations of code coverage (\<open>src/coverage/code_coverage.c\<close>): scanning functions for lines and branches, the
  boundaries of function calls, the opcode handlers, fibers, and the life of a request.  \<open>stack\<close> is the stack of frames
  by their function numbers, the innermost last.
\<close>

section \<open>Scanning\<close>

lemma loop_over_cong [fundef_cong]:
  assumes "xs = ys" "s = t" "\<And>x u. x \<in> set ys \<Longrightarrow> f x u = g x u"
  shows "loop_over f xs s = loop_over g ys t"
proof -
  have "loop_over f ys t = loop_over g ys t" using assms(3)
  proof (induction ys arbitrary: t)
    case (Cons y ys)
    then have "loop_over f ys = loop_over g ys" by (intro ext) simp
    with Cons.prems [of y t] show ?case by simp
  qed simp
  with assms(1,2) show ?thesis by simp
qed

definition xdebug_branch_info_add_branches_and_paths ::
    "string \<Rightarrow> string \<Rightarrow> xdebug_branch_info option \<Rightarrow> coverage \<Rightarrow> coverage option" where
  "xdebug_branch_info_add_branches_and_paths filename function_name branch_info st =
     do { f \<leftarrow> file_at st filename;
          let f1 = (case xdebug_hash_find (cf_functions f) function_name of
                      Some _ \<Rightarrow> f
                    | None \<Rightarrow> f\<lparr>cf_functions := xdebug_hash_add (cf_functions f) function_name
                                                 (xdebug_coverage_analysis_function_ctor function_name)\<rparr>);
          analysis \<leftarrow> xdebug_hash_find (cf_functions f1) function_name;
          Some (put_file filename
                 (f1\<lparr>cf_has_branch_info := (branch_info \<noteq> None \<or> cf_has_branch_info f1),
                     cf_functions := hash_poke (cf_functions f1) function_name (analysis\<lparr>af_branch_info := branch_info\<rparr>)\<rparr>) st) }"

text \<open>The code that is active and the branches; neither is looked for unless it is asked for.\<close>

definition analyse :: "coverage \<Rightarrow> cov_op_array \<Rightarrow> (xdebug_set option \<times> xdebug_branch_info option) option" where
  "analyse st opa =
     (if cov_dead_code st \<and> ca_pass_two opa
      then do { s \<leftarrow> xdebug_set_create (length (ca_opcodes opa));
                bi \<leftarrow> (if cov_branch_check st then map_option Some (xdebug_branch_info_create (length (ca_opcodes opa))) else Some None);
                (active, bi1) \<leftarrow> xdebug_analysis_oparray opa (s, bi);
                Some (Some active, bi1) }
      else Some (None, None))"

definition scan_line :: "cov_op_array \<Rightarrow> xdebug_set option \<Rightarrow> nat \<Rightarrow> xdebug_coverage_file \<Rightarrow> xdebug_coverage_file option" where
  "scan_line opa active i f =
     do { opcode \<leftarrow> op_at opa i;
          a \<leftarrow> (case active of Some s \<Rightarrow> xdebug_set_in s i | None \<Rightarrow> Some 0);
          opcode_type_filter opcode (a \<noteq> 0) f }"

definition add_branch_info :: "cov_op_array \<Rightarrow> xdebug_branch_info \<Rightarrow> coverage \<Rightarrow> coverage option" where
  "add_branch_info opa bi st =
     do { (st1, function_name) \<leftarrow> function_name_of opa st;
          bi1 \<leftarrow> xdebug_branch_post_process opa bi;
          bi2 \<leftarrow> xdebug_branch_find_paths bi1;
          xdebug_branch_info_add_branches_and_paths (ca_filename opa) function_name (Some bi2) st1 }"

definition scan_function :: "cov_op_array \<Rightarrow> coverage \<Rightarrow> coverage option" where
  "scan_function opa st0 =
     do { let st = st0\<lparr>cov_reserved := (cov_reserved st0)(ca_id opa := (fst (cov_reserved st0 (ca_id opa)), True))\<rparr>;
          st1 \<leftarrow> fetch_file (ca_filename opa) st;
          (active, bi) \<leftarrow> analyse st1 opa;
          f \<leftarrow> file_at st1 (ca_filename opa);
          f1 \<leftarrow> loop_over (scan_line opa active) [0..<length (ca_opcodes opa)] f;
          let st2 = put_file (ca_filename opa) f1 st1;
          (case bi of Some b \<Rightarrow> add_branch_info opa b st2 | None \<Rightarrow> Some st2) }"

text \<open>Not for abstract functions, for those that are filtered, and for those that were scanned before.\<close>

definition skips :: "coverage \<Rightarrow> cov_op_array \<Rightarrow> bool" where
  "skips st opa \<longleftrightarrow> ca_abstract opa \<or> fst (cov_reserved st (ca_id opa)) \<or> snd (cov_reserved st (ca_id opa))"

function prefill_from_oparray :: "cov_op_array \<Rightarrow> coverage \<Rightarrow> coverage option" where
  "prefill_from_oparray opa st =
     (if skips st opa then Some st
      else Option.bind (scan_function opa st) (loop_over prefill_from_oparray (ca_dynamic_func_defs opa)))"
  by pat_completeness auto
termination
proof (relation "measure (\<lambda>(opa, st). size opa)")
  fix opa :: cov_op_array and st :: coverage and x u assume "x \<in> set (ca_dynamic_func_defs opa)"
  then show "((x, u), opa, st) \<in> measure (\<lambda>(opa, st). size opa)"
    by (cases opa) (auto dest!: size_list_estimation' [OF _ order_refl, of _ _ size])
qed simp

declare prefill_from_oparray.simps [simp del]

definition prefill_from_function_table :: "cov_op_array \<Rightarrow> coverage \<Rightarrow> coverage option" where
  "prefill_from_function_table opa st = (if ca_user opa then prefill_from_oparray opa st else Some st)"

text \<open>The engine's tables: a slot may be empty.\<close>

record cov_class =
  cc_user :: bool
  cc_function_table :: "cov_op_array option list"

definition filled :: "'a option list \<Rightarrow> 'a list" where
  "filled slots = map the (filter (\<lambda>s. s \<noteq> None) slots)"

definition prefill_from_class_table :: "cov_class \<Rightarrow> coverage \<Rightarrow> coverage option" where
  "prefill_from_class_table ce st =
     (if cc_user ce then loop_over prefill_from_function_table (filled (cc_function_table ce)) st else Some st)"

text \<open>The slots from the end of a table to the one at which the last scan began; slots count from 1, empty ones are passed over.\<close>

definition new_slots :: "nat \<Rightarrow> 'a option list \<Rightarrow> 'a list" where
  "new_slots count slots =
     map (the \<circ> snd) (takeWhile (\<lambda>(i, s). i \<noteq> count) (filter (\<lambda>(i, s). s \<noteq> None) (rev (enumerate 1 slots))))"

definition xdebug_prefill_code_coverage ::
    "cov_op_array option list \<Rightarrow> cov_class option list \<Rightarrow> cov_op_array \<Rightarrow> coverage \<Rightarrow> coverage option" where
  "xdebug_prefill_code_coverage functions classes opa st =
     do { st1 \<leftarrow> prefill_from_oparray opa st;
          st2 \<leftarrow> loop_over prefill_from_function_table (new_slots (cov_prefill_function_count st1) functions) st1;
          let st3 = st2\<lparr>cov_prefill_function_count := length functions\<rparr>;
          st4 \<leftarrow> loop_over prefill_from_class_table (new_slots (cov_prefill_class_count st3) classes) st3;
          Some (st4\<lparr>cov_prefill_class_count := length classes\<rparr>) }"

definition xdebug_coverage_compile_file ::
    "cov_op_array option list \<Rightarrow> cov_class option list \<Rightarrow> cov_op_array \<Rightarrow> coverage \<Rightarrow> coverage option" where
  "xdebug_coverage_compile_file functions classes opa st =
     (if cov_active st \<and> cov_unused st \<and> ca_pass_two opa then xdebug_prefill_code_coverage functions classes opa st else Some st)"

section \<open>Functions, branches and opcodes that run\<close>

definition xdebug_code_coverage_start_of_function :: "int list \<Rightarrow> cov_op_array \<Rightarrow> string \<Rightarrow> coverage \<Rightarrow> coverage option" where
  "xdebug_code_coverage_start_of_function stack opa function_name st =
     do { let count = length stack;
          let orig_size = length (cov_branches st);
          st1 \<leftarrow> prefill_from_oparray opa st;
          st2 \<leftarrow> xdebug_path_info_add_path_for_level [] count st1;
          let st3 = (if orig_size = 0 \<or> count \<ge> orig_size
                     then st2\<lparr>cov_branches := cov_branches st2 @ replicate (count + 32 - orig_size) (- 1)\<rparr> else st2);
          put_last_branch count (- 1) st3 }"

definition mark_outs :: "string \<Rightarrow> string \<Rightarrow> xdebug_branch_info \<Rightarrow> int \<Rightarrow> nat \<Rightarrow> coverage \<Rightarrow> coverage option" where
  "mark_outs filename function_name bi previous opcode_nr st =
     (if previous = - 1 then Some st
      else do {
        b \<leftarrow> (if 0 \<le> previous then branch_at bi (nat previous) else None);
        loop_over
          (\<lambda>(i, out) s. if out = int opcode_nr
                        then on_runtime filename function_name (add_hit (nat previous * (1 + bri_highest_out bi) + i + 1)) s
                        else Some s)
          (enumerate 0 (take (br_outs_count b) (br_outs b))) st })"

definition visit_branch :: "int list \<Rightarrow> int \<Rightarrow> nat \<Rightarrow> coverage \<Rightarrow> coverage option" where
  "visit_branch stack previous opcode_nr st =
     do { function_nr \<leftarrow> (if stack = [] then None else Some (last stack));
          visited \<leftarrow> cov_visited_branches st;
          let key = dec_int (to_int32 (int opcode_nr)) @ '':'' @ dec_int previous @ '':'' @ dec_int function_nr;
          if xdebug_hash_find visited key = None
          then do { slot \<leftarrow> level_slot (length stack) st;
                    path \<leftarrow> xdebug_path_add slot opcode_nr;
                    st1 \<leftarrow> put_level_slot (length stack) path st;
                    Some (st1\<lparr>cov_visited_branches := Some (xdebug_hash_add visited key ())\<rparr>) }
          else Some st }"

definition reach_branch ::
    "int list \<Rightarrow> string \<Rightarrow> string \<Rightarrow> xdebug_branch_info \<Rightarrow> nat \<Rightarrow> coverage \<Rightarrow> coverage option" where
  "reach_branch stack filename function_name bi opcode_nr st =
     do { starts \<leftarrow> xdebug_set_in (bri_starts bi) opcode_nr;
          if starts = 0 then Some st
          else do {
            previous \<leftarrow> last_branch (length stack) st;
            st1 \<leftarrow> mark_outs filename function_name bi previous opcode_nr st;
            st2 \<leftarrow> visit_branch stack previous opcode_nr st1;
            st3 \<leftarrow> on_runtime filename function_name (add_hit (opcode_nr * (1 + bri_highest_out bi))) st2;
            put_last_branch (length stack) (int opcode_nr) st3 } }"

definition xdebug_branch_info_mark_reached ::
    "int list \<Rightarrow> string \<Rightarrow> string \<Rightarrow> cov_op_array \<Rightarrow> nat \<Rightarrow> coverage \<Rightarrow> coverage option" where
  "xdebug_branch_info_mark_reached stack filename function_name opa opcode_nr st =
     do { (st1, found) \<leftarrow> fetch_mark_file filename st;
          if \<not> found then Some st1
          else do {
            f \<leftarrow> file_at st1 filename;
            if \<not> cf_has_branch_info f then Some st1
            else case xdebug_hash_find (cf_functions f) function_name of
                None \<Rightarrow> Some st1
              | Some analysis \<Rightarrow> do {
                  st2 \<leftarrow> runtime_function filename function_name analysis st1;
                  bi \<leftarrow> af_branch_info analysis;
                  entry \<leftarrow> (if opcode_nr \<noteq> 0 then xdebug_set_in (bri_entry_points bi) opcode_nr else Some 0);
                  st3 \<leftarrow> (if entry \<noteq> 0
                         then Option.bind (xdebug_code_coverage_end_of_function (length stack) filename function_name st2)
                                (xdebug_code_coverage_start_of_function stack opa function_name)
                         else Some st2);
                  reach_branch stack filename function_name bi opcode_nr st3 } } }"

definition xdebug_print_opcode_info :: "int list \<Rightarrow> cov_op_array \<Rightarrow> nat \<Rightarrow> coverage \<Rightarrow> coverage option" where
  "xdebug_print_opcode_info stack opa opnr st =
     do { (st1, function_name) \<leftarrow> function_name_of opa st;
          xdebug_branch_info_mark_reached stack (ca_filename opa) function_name opa opnr st1 }"

definition is_filtered :: "coverage \<Rightarrow> cov_op_array \<Rightarrow> bool" where
  "is_filtered st opa \<longleftrightarrow> fst (cov_reserved st (ca_id opa))"

definition xdebug_coverage_record_if_active :: "int list \<Rightarrow> cov_op_array \<Rightarrow> nat \<Rightarrow> coverage \<Rightarrow> coverage option" where
  "xdebug_coverage_record_if_active stack opa opnr st =
     (if \<not> is_filtered st opa \<and> cov_active st then xdebug_print_opcode_info stack opa opnr st else Some st)"

section \<open>Opcode handlers\<close>

text \<open>What the engine does after a handler: the handler of another extension or its own, or the next opcode.\<close>

datatype handler_result = Call_original | User_opcode_continue nat

datatype cov_handler = Check_branch_entry | Common_override | Include_or_eval | Switch_handler

definition xdebug_check_branch_entry_handler ::
    "int list \<Rightarrow> cov_op_array \<Rightarrow> nat \<Rightarrow> coverage \<Rightarrow> (coverage \<times> handler_result) option" where
  "xdebug_check_branch_entry_handler stack opa opnr st =
     map_option (\<lambda>st1. (st1, Call_original)) (xdebug_coverage_record_if_active stack opa opnr st)"

definition xdebug_common_override_handler ::
    "int list \<Rightarrow> cov_op_array \<Rightarrow> nat \<Rightarrow> coverage \<Rightarrow> (coverage \<times> handler_result) option" where
  "xdebug_common_override_handler stack opa opnr st =
     (if \<not> cov_active st then Some (st, Call_original)
      else if \<not> is_filtered st opa
      then do { opcode \<leftarrow> op_at opa opnr;
                st1 \<leftarrow> xdebug_print_opcode_info stack opa opnr st;
                st2 \<leftarrow> xdebug_count_line (ca_filename opa) (op_lineno opcode) st1;
                Some (st2, Call_original) }
      else Some (st, Call_original))"

definition xdebug_coverage_include_or_eval_handler ::
    "int list \<Rightarrow> cov_op_array \<Rightarrow> nat \<Rightarrow> coverage \<Rightarrow> (coverage \<times> handler_result) option" where
  "xdebug_coverage_include_or_eval_handler stack opa opnr st =
     map_option (\<lambda>st1. (st1, Call_original)) (xdebug_coverage_record_if_active stack opa opnr st)"

definition xdebug_switch_handler ::
    "int list \<Rightarrow> cov_op_array \<Rightarrow> nat \<Rightarrow> coverage \<Rightarrow> (coverage \<times> handler_result) option" where
  "xdebug_switch_handler stack opa opnr st =
     Some (st, if \<not> cov_active st then Call_original else User_opcode_continue (opnr + 1))"

text \<open>The table that \<open>xdebug_coverage_minit\<close> fills; the opcodes of the first list go through the dispatcher of \<open>lib.c\<close>.\<close>

definition multi_handled :: "zend_opcode list" where
  "multi_handled = map ZEND_OP [''ZEND_ASSIGN'', ''ZEND_ASSIGN_DIM'', ''ZEND_ASSIGN_OBJ'', ''ZEND_ASSIGN_STATIC_PROP'', ''ZEND_QM_ASSIGN'']"

definition commonly_handled :: "zend_opcode list" where
  "commonly_handled =
     [ZEND_JMP, ZEND_JMPZ, ZEND_JMPZ_EX, ZEND_JMPNZ, zend_opcode.ZEND_RETURN, ZEND_RETURN_BY_REF, ZEND_NEW, ZEND_INIT_METHOD_CALL,
      ZEND_INIT_STATIC_METHOD_CALL, ZEND_INIT_FCALL, ZEND_INIT_NS_FCALL_BY_NAME, ZEND_CATCH, ZEND_FETCH_CLASS, ZEND_FAST_RET] @
     map ZEND_OP
      [''ZEND_IS_IDENTICAL'', ''ZEND_IS_NOT_IDENTICAL'', ''ZEND_IS_EQUAL'', ''ZEND_IS_NOT_EQUAL'', ''ZEND_IS_SMALLER'',
       ''ZEND_IS_SMALLER_OR_EQUAL'', ''ZEND_BOOL_NOT'', ''ZEND_ADD'', ''ZEND_SUB'', ''ZEND_MUL'', ''ZEND_DIV'',
       ''ZEND_ADD_ARRAY_ELEMENT'', ''ZEND_EXT_STMT'', ''ZEND_SEND_VAR'', ''ZEND_SEND_VAR_NO_REF'', ''ZEND_SEND_VAR_NO_REF_EX'',
       ''ZEND_SEND_REF'', ''ZEND_SEND_VAL'', ''ZEND_SEND_VAL_EX'', ''ZEND_SEND_VAR_EX'', ''ZEND_EXT_FCALL_BEGIN'', ''ZEND_BOOL'',
       ''ZEND_INIT_ARRAY'', ''ZEND_FETCH_DIM_R'', ''ZEND_FETCH_DIM_W'', ''ZEND_FETCH_OBJ_R'', ''ZEND_FETCH_OBJ_W'',
       ''ZEND_FETCH_OBJ_FUNC_ARG'', ''ZEND_FETCH_DIM_FUNC_ARG'', ''ZEND_FETCH_STATIC_PROP_FUNC_ARG'', ''ZEND_FETCH_DIM_UNSET'',
       ''ZEND_FETCH_OBJ_UNSET'', ''ZEND_FETCH_CONSTANT'', ''ZEND_FETCH_CLASS_CONSTANT'', ''ZEND_CONCAT'', ''ZEND_FAST_CONCAT'',
       ''ZEND_ISSET_ISEMPTY_DIM_OBJ'', ''ZEND_ISSET_ISEMPTY_PROP_OBJ'', ''ZEND_CASE'', ''ZEND_DECLARE_LAMBDA_FUNCTION'',
       ''ZEND_INSTANCEOF'', ''ZEND_ROPE_ADD'', ''ZEND_ROPE_END'', ''ZEND_COALESCE'', ''ZEND_TYPE_CHECK'', ''ZEND_GENERATOR_CREATE'',
       ''ZEND_BIND_STATIC'', ''ZEND_BIND_LEXICAL'', ''ZEND_DECLARE_CLASS'', ''ZEND_DECLARE_CLASS_DELAYED'', ''ZEND_FRAMELESS_ICALL_0'',
       ''ZEND_FRAMELESS_ICALL_1'', ''ZEND_FRAMELESS_ICALL_2'', ''ZEND_FRAMELESS_ICALL_3'']"

definition coverage_handler :: "zend_opcode \<Rightarrow> cov_handler option" where
  "coverage_handler c =
     (if c = ZEND_HANDLE_EXCEPTION then None
      else if c = ZEND_INCLUDE_OR_EVAL then Some Include_or_eval
      else if c = ZEND_SWITCH_STRING \<or> c = ZEND_SWITCH_LONG then Some Switch_handler
      else if ListMem c (multi_handled @ commonly_handled) then Some Common_override
      else Some Check_branch_entry)"

definition handle_opcode :: "int list \<Rightarrow> cov_op_array \<Rightarrow> nat \<Rightarrow> coverage \<Rightarrow> (coverage \<times> handler_result) option" where
  "handle_opcode stack opa opnr st =
     (case op_at opa opnr of
        None \<Rightarrow> None
      | Some opcode \<Rightarrow>
          (case coverage_handler (op_opcode opcode) of
             None \<Rightarrow> Some (st, Call_original)
           | Some Check_branch_entry \<Rightarrow> xdebug_check_branch_entry_handler stack opa opnr st
           | Some Common_override \<Rightarrow> xdebug_common_override_handler stack opa opnr st
           | Some Include_or_eval \<Rightarrow> xdebug_coverage_include_or_eval_handler stack opa opnr st
           | Some Switch_handler \<Rightarrow> xdebug_switch_handler stack opa opnr st))"

section \<open>Statements and calls\<close>

definition xdebug_coverage_count_line_if_active :: "cov_op_array \<Rightarrow> string \<Rightarrow> nat \<Rightarrow> coverage \<Rightarrow> coverage option" where
  "xdebug_coverage_count_line_if_active opa filename lineno st =
     (if cov_active st \<and> \<not> is_filtered st opa then xdebug_count_line filename lineno st else Some st)"

definition xdebug_coverage_count_line_if_branch_check_active :: "string \<Rightarrow> nat \<Rightarrow> coverage \<Rightarrow> coverage option" where
  "xdebug_coverage_count_line_if_branch_check_active filename lineno st =
     (if cov_active st \<and> cov_branch_check st then xdebug_count_line filename lineno st else Some st)"

text \<open>The result: whether the call is recorded, and then its file and function.\<close>

definition xdebug_coverage_execute_ex ::
    "int list \<Rightarrow> frame_filters \<Rightarrow> cov_op_array \<Rightarrow> coverage \<Rightarrow> (coverage \<times> (string \<times> string) option) option" where
  "xdebug_coverage_execute_ex stack fse opa st =
     (if \<not> filtered_code_coverage fse \<and> cov_active st \<and> cov_unused st
      then do { (st1, function_name) \<leftarrow> function_name_of opa st;
                st2 \<leftarrow> xdebug_code_coverage_start_of_function stack opa function_name st1;
                Some (st2, Some (ca_filename opa, function_name)) }
      else Some (st, None))"

definition xdebug_coverage_execute_ex_end ::
    "int list \<Rightarrow> frame_filters \<Rightarrow> string \<Rightarrow> string \<Rightarrow> coverage \<Rightarrow> coverage option" where
  "xdebug_coverage_execute_ex_end stack fse tmp_filename tmp_function_name st =
     (if \<not> filtered_code_coverage fse \<and> cov_active st \<and> cov_unused st
      then xdebug_code_coverage_end_of_function (length stack) tmp_filename tmp_function_name st else Some st)"

definition xdebug_coverage_init_oparray :: "cov_op_array \<Rightarrow> coverage \<Rightarrow> coverage option" where
  "xdebug_coverage_init_oparray opa st =
     (if filter_type_code_coverage (cov_filters st) \<noteq> XDEBUG_FILTER_NONE
      then do { (st1, func) \<leftarrow> xdebug_build_fname_from_oparray opa st;
                let fse = \<lparr>ff_filename = Some (ca_filename opa), ff_include_filename = None,
                           ff_object_class = cfn_object_class func, ff_type = cfn_type func\<rparr>;
                let flag = xdebug_filter_run_internal fse XDEBUG_FILTER_CODE_COVERAGE False
                             (filter_type_code_coverage (cov_filters st)) (filters_code_coverage (cov_filters st));
                Some (st1\<lparr>cov_reserved := (cov_reserved st1)(ca_id opa := (flag, False))\<rparr>) }
      else Some (st\<lparr>cov_reserved := (cov_reserved st)(ca_id opa := (False, False))\<rparr>))"

section \<open>Fibers\<close>

fun hex_upper :: "nat \<Rightarrow> string" where
  "hex_upper n = (if n < 16 then [''0123456789ABCDEF'' ! n] else hex_upper (n div 16) @ [''0123456789ABCDEF'' ! (n mod 16)])"

declare hex_upper.simps [simp del]

definition create_key_for_fiber :: "nat \<Rightarrow> string" where
  "create_key_for_fiber fiber = ''{fiber-cc:'' @ hex_upper fiber @ ''}''"

datatype fiber_status = FIBER_INIT | FIBER_RUNNING | FIBER_SUSPENDED | FIBER_DEAD

definition create_path_info_for_fiber :: "string \<Rightarrow> coverage \<Rightarrow> coverage option" where
  "create_path_info_for_fiber fiber_key st =
     map_option (\<lambda>h. st\<lparr>cov_fiber_stacks := Some (xdebug_hash_add h fiber_key xdebug_path_info_ctor)\<rparr>) (cov_fiber_stacks st)"

definition remove_path_info_for_fiber :: "string \<Rightarrow> coverage \<Rightarrow> coverage option" where
  "remove_path_info_for_fiber fiber_key st =
     map_option (\<lambda>h. st\<lparr>cov_fiber_stacks := Some (fst (xdebug_hash_delete h fiber_key))\<rparr>) (cov_fiber_stacks st)"

definition find_path_info_for_fiber :: "string \<Rightarrow> coverage \<Rightarrow> xdebug_path_info option" where
  "find_path_info_for_fiber fiber_key st = Option.bind (cov_fiber_stacks st) (\<lambda>h. xdebug_hash_find h fiber_key)"

definition xdebug_fiber_switch_coverage_observer :: "nat \<times> fiber_status \<Rightarrow> nat \<times> fiber_status \<Rightarrow> coverage \<Rightarrow> coverage option" where
  "xdebug_fiber_switch_coverage_observer from_fiber to_fiber st =
     do { let to_key = create_key_for_fiber (fst to_fiber);
          st1 \<leftarrow> (if snd from_fiber = FIBER_DEAD then remove_path_info_for_fiber (create_key_for_fiber (fst from_fiber)) st else Some st);
          st2 \<leftarrow> (if snd to_fiber = FIBER_INIT then create_path_info_for_fiber to_key st1
                 else map_option (\<lambda>_. st1) (find_path_info_for_fiber to_key st1));
          Some (st2\<lparr>cov_paths_stack := Some to_key\<rparr>) }"

section \<open>Starting and stopping\<close>

definition XDEBUG_CC_OPTION_UNUSED :: nat where "XDEBUG_CC_OPTION_UNUSED = 1"
definition XDEBUG_CC_OPTION_DEAD_CODE :: nat where "XDEBUG_CC_OPTION_DEAD_CODE = 2"
definition XDEBUG_CC_OPTION_BRANCH_CHECK :: nat where "XDEBUG_CC_OPTION_BRANCH_CHECK = 4"

text \<open>The flags are kept as \<open>zend_bool\<close>, one byte; all three options are below 256.  The flag says whether true is returned.\<close>

definition xdebug_start_code_coverage :: "nat \<Rightarrow> nat \<Rightarrow> coverage \<Rightarrow> coverage \<times> bool" where
  "xdebug_start_code_coverage mode options st =
     (if \<not> XDEBUG_MODE_IS mode XDEBUG_MODE_COVERAGE then (st, False)
      else (st\<lparr>cov_unused := (and options XDEBUG_CC_OPTION_UNUSED \<noteq> 0),
               cov_dead_code := (and options XDEBUG_CC_OPTION_DEAD_CODE \<noteq> 0),
               cov_branch_check := (and options XDEBUG_CC_OPTION_BRANCH_CHECK \<noteq> 0), cov_active := True\<rparr>, True))"

definition xdebug_path_info_flush :: "xdebug_path_info \<Rightarrow> xdebug_path_info option" where
  "xdebug_path_info_flush pa =
     (if list_all (\<lambda>i. path_at pa i \<noteq> None) [0..<pa_paths_count pa]
      then Some \<lparr>pa_paths_count = 0, pa_paths_size = 0, pa_paths = [], pa_path_hash = None\<rparr> else None)"

definition scrub_runtime :: "xdebug_coverage_file \<Rightarrow> xdebug_coverage_file" where
  "scrub_runtime f = f\<lparr>cf_hit_lines := xdebug_mset_clear (cf_hit_lines f), cf_hit_functions := xdebug_hash_empty (cf_hit_functions f)\<rparr>"

definition hash_change :: "('v \<Rightarrow> 'v) \<Rightarrow> 'v xdebug_hash \<Rightarrow> 'v xdebug_hash" where
  "hash_change g h = h\<lparr>h_table := map (map (\<lambda>(k, v). (k, g v))) (h_table h)\<rparr>"

definition forget_runs :: "coverage \<Rightarrow> coverage option" where
  "forget_runs st =
     do { info \<leftarrow> cov_info st;
          visited \<leftarrow> cov_visited_branches st;
          fibers \<leftarrow> cov_fiber_stacks st;
          if list_all (\<lambda>(k, pa). xdebug_path_info_flush pa \<noteq> None) (hash_elements fibers)
          then Some (st\<lparr>cov_info := Some (hash_change scrub_runtime info), cov_previous_filename := None,
                        cov_previous_mark_filename := None, cov_visited_branches := Some (xdebug_hash_empty visited),
                        cov_fiber_stacks := Some (hash_change (\<lambda>pa. the (xdebug_path_info_flush pa)) fibers)\<rparr>)
          else None }"

definition xdebug_stop_code_coverage :: "nat \<Rightarrow> bool \<Rightarrow> coverage \<Rightarrow> (coverage \<times> bool) option" where
  "xdebug_stop_code_coverage mode cleanup st =
     (if \<not> XDEBUG_MODE_IS mode XDEBUG_MODE_COVERAGE \<or> \<not> cov_active st then Some (st, False)
      else map_option (\<lambda>st1. (st1\<lparr>cov_active := False\<rparr>, True)) (if cleanup then forget_runs st else Some st))"

definition xdebug_code_coverage_started :: "coverage \<Rightarrow> bool" where
  "xdebug_code_coverage_started st = cov_active st"

definition xdebug_init_coverage_globals :: "coverage \<Rightarrow> coverage" where
  "xdebug_init_coverage_globals xg =
     xg\<lparr>cov_previous_filename := None, cov_previous_mark_filename := None, cov_paths_stack := None, cov_branches := [],
        cov_active := False\<rparr>"

definition xdebug_coverage_rinit :: "nat \<Rightarrow> coverage \<Rightarrow> coverage option" where
  "xdebug_coverage_rinit main_fiber st =
     (let key = create_key_for_fiber main_fiber in
      map_option (\<lambda>st1. st1\<lparr>cov_paths_stack := Some key, cov_branches := []\<rparr>)
        (create_path_info_for_fiber key
          (st\<lparr>cov_active := False, cov_info := Some (xdebug_hash_alloc 128 True), cov_previous_filename := None,
              cov_previous_mark_filename := None, cov_prefill_function_count := 0, cov_prefill_class_count := 0,
              cov_visited_branches := Some (xdebug_hash_alloc 2048 False), cov_fiber_stacks := Some (xdebug_hash_alloc 64 True)\<rparr>)))"

definition xdebug_coverage_post_deactivate :: "coverage \<Rightarrow> coverage" where
  "xdebug_coverage_post_deactivate st =
     st\<lparr>cov_active := False, cov_info := None, cov_visited_branches := None, cov_fiber_stacks := None, cov_branches := [],
        cov_previous_filename := None, cov_previous_mark_filename := None\<rparr>"

end
