(* ===== verification/Xd_Cov_Report.thy ===== *)
theory Xd_Cov_Report
  imports Xd_Coverage Xd_Php
begin

text \<open>
  The array \<open>xdebug_get_code_coverage\<close> returns (\<open>src/coverage/code_coverage.c\<close>).  \<open>numeric\<close> is the engine's reading of a
  string key as a number.
\<close>

datatype cov_value = Report_long int | Report_array "(array_key \<times> cov_value) list"

fun assoc_put :: "(array_key \<times> cov_value) list \<Rightarrow> array_key \<Rightarrow> cov_value \<Rightarrow> (array_key \<times> cov_value) list" where
  "assoc_put [] k v = [(k, v)]"
| "assoc_put ((k1, v1) # ht) k v = (if k1 = k then (k, v) # ht else (k1, v1) # assoc_put ht k v)"

definition symtable_key :: "(string \<Rightarrow> int option) \<Rightarrow> string \<Rightarrow> array_key" where
  "symtable_key numeric s = (case numeric s of Some n \<Rightarrow> Key_num n | None \<Rightarrow> Key_str s)"

definition numbered :: "cov_value list \<Rightarrow> cov_value" where
  "numbered vs = Report_array (map (\<lambda>(i, v). (Key_num (int i), v)) (enumerate 0 vs))"

section \<open>Branches\<close>

definition hit_at :: "xdebug_coverage_runtime_function option \<Rightarrow> nat \<Rightarrow> int option" where
  "hit_at runtime position =
     (case runtime of Some r \<Rightarrow> xdebug_set_in (rf_hit_branch r) (position mod 2 ^ 32) | None \<Rightarrow> Some 0)"

definition outs_array :: "(nat \<Rightarrow> int \<Rightarrow> int option) \<Rightarrow> xdebug_branch \<Rightarrow> cov_value option" where
  "outs_array value b =
     map_option Report_array
       (loop_over (\<lambda>(j, out) ht. if out = 0 then Some ht
                                 else map_option (\<lambda>v. ht @ [(Key_num (int j), Report_long v)]) (value j out))
         (enumerate 0 (take (br_outs_count b) (br_outs b))) [])"

definition add_branch :: "xdebug_branch_info \<Rightarrow> xdebug_coverage_runtime_function option \<Rightarrow> nat \<Rightarrow>
     (array_key \<times> cov_value) list \<Rightarrow> (array_key \<times> cov_value) list option" where
  "add_branch bi runtime i branches =
     do { start \<leftarrow> xdebug_set_in (bri_starts bi) i;
          if start = 0 then Some branches
          else do {
            b \<leftarrow> branch_at bi i;
            hit \<leftarrow> hit_at runtime (i * (1 + bri_highest_out bi));
            out \<leftarrow> outs_array (\<lambda>j out. Some out) b;
            out_hit \<leftarrow> outs_array (\<lambda>j out. hit_at runtime (i * (1 + bri_highest_out bi) + 1 + j)) b;
            Some (branches @
              [(Key_num (int i),
                Report_array [(Key_str ''op_start'', Report_long (int i)), (Key_str ''op_end'', Report_long (int (br_end_op b))),
                           (Key_str ''line_start'', Report_long (int (br_start_lineno b))),
                           (Key_str ''line_end'', Report_long (int (br_end_lineno b))), (Key_str ''hit'', Report_long hit),
                           (Key_str ''out'', out), (Key_str ''out_hit'', out_hit)])]) } }"

definition add_branches :: "xdebug_branch_info \<Rightarrow> xdebug_coverage_runtime_function option \<Rightarrow> cov_value option" where
  "add_branches bi runtime = map_option Report_array (loop_over (add_branch bi runtime) [0..<set_size (bri_starts bi)] [])"

section \<open>Paths\<close>

definition path_value :: "xdebug_coverage_runtime_function option \<Rightarrow> xdebug_path \<Rightarrow> cov_value" where
  "path_value runtime p =
     Report_array [(Key_str ''path'', numbered (map (\<lambda>e. Report_long (int e)) p)),
                (Key_str ''hit'', Report_long (case runtime of
                    Some r \<Rightarrow> if xdebug_hash_find (rf_hit_paths r) (xdebug_create_key_for_path p) = None then 0 else 1
                  | None \<Rightarrow> 0))]"

definition add_paths :: "xdebug_coverage_file \<Rightarrow> xdebug_coverage_analysis_function \<Rightarrow> cov_value option" where
  "add_paths f func =
     do { bi \<leftarrow> af_branch_info func;
          let runtime = xdebug_hash_find (cf_hit_functions f) (af_name func);
          paths \<leftarrow> loop_over (\<lambda>i ps. map_option (\<lambda>p. ps @ [path_value runtime p]) (path_at (bri_path_info bi) i))
                     [0..<pa_paths_count (bri_path_info bi)] [];
          Some (numbered paths) }"

section \<open>Functions and files\<close>

definition add_cc_function ::
    "(string \<Rightarrow> int option) \<Rightarrow> coverage \<Rightarrow> xdebug_coverage_file \<Rightarrow> xdebug_coverage_analysis_function \<Rightarrow>
     (array_key \<times> cov_value) list \<Rightarrow> (array_key \<times> cov_value) list option" where
  "add_cc_function numeric st f func functions =
     do { z_function \<leftarrow>
            (case af_branch_info func of
               Some bi \<Rightarrow> do { branches \<leftarrow> add_branches bi (xdebug_hash_find (cf_hit_functions f) (af_name func));
                             paths \<leftarrow> add_paths f func;
                             Some [(Key_str ''branches'', branches), (Key_str ''paths'', paths)] }
             | None \<Rightarrow> Some []);
          trait_scope \<leftarrow> xdebug_get_trait_scope st (af_name func);
          let name = (case trait_scope of Some scope \<Rightarrow> c_str scope @ ''->'' @ af_name func | None \<Rightarrow> af_name func);
          Some (assoc_put functions (symtable_key numeric name) (Report_array z_function)) }"

definition nmap_unused :: "int list" where "nmap_unused = [10, 1, -1, 1, 14, 15, -1, 1]"
definition nmap_deadcode :: "int list" where "nmap_deadcode = [10, 1, -2, 1, 14, 15, -1, 1]"

definition line_number :: "xdebug_coverage_file \<Rightarrow> nat \<Rightarrow> nat option" where
  "line_number f i =
     (let at = (\<lambda>mst. if i < mset_size mst then if i < length (mset_info mst) then Some (unat (mset_info mst ! i)) else None
                      else Some 0) in
      do { a \<leftarrow> at (cf_lines f); r \<leftarrow> at (cf_hit_lines f); Some (a + r) })"

definition add_line :: "int list \<Rightarrow> xdebug_coverage_file \<Rightarrow> nat \<Rightarrow> (array_key \<times> cov_value) list \<Rightarrow> (array_key \<times> cov_value) list option" where
  "add_line nmap f i lines =
     do { number \<leftarrow> line_number f i;
          if number = 0 then Some lines
          else if number < length nmap then Some (lines @ [(Key_num (int i), Report_long (nmap ! number))]) else None }"

definition add_lines :: "bool \<Rightarrow> xdebug_coverage_file \<Rightarrow> (array_key \<times> cov_value) list option" where
  "add_lines dead_code f =
     loop_over (add_line (if dead_code then nmap_deadcode else nmap_unused) f)
       [0..<max (mset_size (cf_hit_lines f)) (mset_size (cf_lines f))] []"

definition add_file ::
    "(string \<Rightarrow> int option) \<Rightarrow> coverage \<Rightarrow> xdebug_coverage_file \<Rightarrow> (array_key \<times> cov_value) list \<Rightarrow> (array_key \<times> cov_value) list option" where
  "add_file numeric st f retval =
     do { lines \<leftarrow> add_lines (cov_dead_code st) f;
          file_info \<leftarrow>
            (if cov_branch_check st
             then do { functions \<leftarrow> loop_over (add_cc_function numeric st f) (map snd (hash_elements (cf_functions f))) [];
                       Some [(Key_str ''lines'', Report_array lines), (Key_str ''functions'', Report_array functions)] }
             else Some lines);
          Some (assoc_put retval (symtable_key numeric (cf_name f)) (Report_array file_info)) }"

definition xdebug_get_code_coverage :: "(string \<Rightarrow> int option) \<Rightarrow> coverage \<Rightarrow> cov_value option" where
  "xdebug_get_code_coverage numeric st =
     (case cov_info st of
        None \<Rightarrow> Some (Report_array [])
      | Some info \<Rightarrow> map_option Report_array (loop_over (add_file numeric st) (map snd (hash_elements info)) []))"

section \<open>The state of a line\<close>

text \<open>Lines are marked active only together with executable, and run on their own.\<close>

definition lines_good :: "xdebug_coverage_file \<Rightarrow> bool" where
  "lines_good f \<longleftrightarrow> mset_ok (cf_lines f) \<and> mset_ok (cf_hit_lines f) \<and>
     list_all (\<lambda>b. b = 0 \<or> b = 2 \<or> b = 6) (mset_info (cf_lines f)) \<and> list_all (\<lambda>b. b = 0 \<or> b = 1) (mset_info (cf_hit_lines f))"

definition line_hit :: "xdebug_coverage_file \<Rightarrow> nat \<Rightarrow> bool" where
  "line_hit f i \<longleftrightarrow> (case xdebug_mset_in (cf_hit_lines f) i COV_BIT_HIT of Some v \<Rightarrow> v \<noteq> 0 | None \<Rightarrow> False)"

definition line_executable :: "xdebug_coverage_file \<Rightarrow> nat \<Rightarrow> bool" where
  "line_executable f i \<longleftrightarrow> (case xdebug_mset_in (cf_lines f) i COV_BIT_EXEC of Some v \<Rightarrow> v \<noteq> 0 | None \<Rightarrow> False)"

definition line_active :: "xdebug_coverage_file \<Rightarrow> nat \<Rightarrow> bool" where
  "line_active f i \<longleftrightarrow> (case xdebug_mset_in (cf_lines f) i COV_BIT_ACTIVE of Some v \<Rightarrow> v \<noteq> 0 | None \<Rightarrow> False)"

text \<open>What is documented: 1 for a line that ran, -1 for one that did not, -2 for one that cannot.\<close>

definition line_status :: "bool \<Rightarrow> xdebug_coverage_file \<Rightarrow> nat \<Rightarrow> int option" where
  "line_status dead_code f i =
     (if line_hit f i then Some 1
      else if \<not> line_executable f i then None
      else if dead_code \<and> \<not> line_active f i then Some (- 2) else Some (- 1))"

lemma byte_bits [simp]:
  "and (0 :: byte) m = 0" "and (2 :: byte) (push_bit (Suc 0) 1) = 2" "and (2 :: byte) (push_bit 2 1) = 0"
  "and (6 :: byte) (push_bit (Suc 0) 1) = 2" "and (6 :: byte) (push_bit 2 1) = 4" "and (1 :: byte) (push_bit 0 1) = 1"
  by (simp_all add: push_bit_eq_mult)

lemma line_number_status:
  assumes "lines_good f"
  shows "\<exists>n. line_number f i = Some n \<and> n < 8 \<and> (n = 0 \<longleftrightarrow> line_status dead_code f i = None) \<and>
    (n \<noteq> 0 \<longrightarrow> line_status dead_code f i = Some ((if dead_code then nmap_deadcode else nmap_unused) ! n))"
proof -
  let ?a = "if i < mset_size (cf_lines f) then mset_info (cf_lines f) ! i else 0"
    and ?r = "if i < mset_size (cf_hit_lines f) then mset_info (cf_hit_lines f) ! i else 0"
  have a: "?a = 0 \<or> ?a = 2 \<or> ?a = 6" and r: "?r = 0 \<or> ?r = 1"
    using assms by (auto simp: lines_good_def list_all_length mset_ok_def)
  have n: "line_number f i = Some (unat ?a + unat ?r)"
    using assms by (simp add: line_number_def lines_good_def mset_ok_def)
  have hit: "line_hit f i \<longleftrightarrow> ?r = 1" "line_executable f i \<longleftrightarrow> ?a \<noteq> 0" "line_active f i \<longleftrightarrow> ?a = 6"
    using assms a r
    by (auto simp: line_hit_def line_executable_def line_active_def xdebug_mset_in_def lines_good_def mset_ok_def COV_BIT_HIT_def
        COV_BIT_EXEC_def COV_BIT_ACTIVE_def split: if_splits)
  show ?thesis
    using a r unfolding n line_status_def hit by (elim disjE) (simp_all add: nmap_unused_def nmap_deadcode_def)
qed

end
