(* ===== verification/Xd_Cov_Spec.thy ===== *)
theory Xd_Cov_Spec
  imports Xd_Cov_Report
begin

text \<open>
  What holds of code coverage whatever runs: the pointers that are kept to files lead to files, and every line that is
  reported is a line that ran, that did not run, or that cannot.
\<close>

section \<open>The lines of a file\<close>

text \<open>The array of lines as a table of their states.\<close>

definition line_table :: "bool \<Rightarrow> xdebug_coverage_file \<Rightarrow> nat list \<Rightarrow> (array_key \<times> cov_value) list" where
  "line_table dead_code f is =
     concat (map (\<lambda>i. case line_status dead_code f i of Some v \<Rightarrow> [(Key_num (int i), Report_long v)] | None \<Rightarrow> []) is)"

lemma add_line_status:
  assumes "lines_good f"
  shows "add_line (if dead_code then nmap_deadcode else nmap_unused) f i lines = Some (lines @ line_table dead_code f [i])"
proof -
  obtain n where n: "line_number f i = Some n" "n < 8" "n = 0 \<longleftrightarrow> line_status dead_code f i = None"
    "n \<noteq> 0 \<longrightarrow> line_status dead_code f i = Some ((if dead_code then nmap_deadcode else nmap_unused) ! n)"
    using line_number_status [OF assms] by blast
  moreover have "length (if dead_code then nmap_deadcode else nmap_unused) = 8" by (simp add: nmap_deadcode_def nmap_unused_def)
  ultimately show ?thesis by (cases "n = 0") (simp_all add: add_line_def line_table_def)
qed

theorem add_lines_table:
  assumes "lines_good f"
  shows "add_lines dead_code f = Some (line_table dead_code f [0..<max (mset_size (cf_hit_lines f)) (mset_size (cf_lines f))])"
proof -
  have "loop_over (add_line (if dead_code then nmap_deadcode else nmap_unused) f) is lines = Some (lines @ line_table dead_code f is)"
    for lines "is"
    by (induction "is" arbitrary: lines) (simp_all add: add_line_status [OF assms] line_table_def)
  then show ?thesis by (simp add: add_lines_def)
qed

lemma line_table_values:
  "(k, v) \<in> set (line_table dead_code f is) \<longleftrightarrow>
     (\<exists>i n. i \<in> set is \<and> k = Key_num (int i) \<and> v = Report_long n \<and> line_status dead_code f i = Some n)"
  by (auto simp: line_table_def split: option.splits)

text \<open>Lines outside both sets have no state.\<close>

lemma line_status_outside:
  assumes "mset_size (cf_hit_lines f) \<le> i" "mset_size (cf_lines f) \<le> i"
  shows "line_status dead_code f i = None"
  using assms by (simp add: line_status_def line_hit_def line_executable_def xdebug_mset_in_def)

section \<open>Files\<close>

definition file_good :: "hash_key \<Rightarrow> xdebug_coverage_file \<Rightarrow> bool" where
  "file_good k f \<longleftrightarrow> k = HStr (cf_name f) \<and> lines_good f"

definition info_good :: "xdebug_coverage_file xdebug_hash option \<Rightarrow> bool" where
  "info_good info \<longleftrightarrow> (case info of None \<Rightarrow> True | Some h \<Rightarrow> hash_ok h \<and> (\<forall>k f. hash_map h k = Some f \<longrightarrow> file_good k f))"

definition known :: "xdebug_coverage_file xdebug_hash option \<Rightarrow> string option \<Rightarrow> bool" where
  "known info filename \<longleftrightarrow> (case filename of None \<Rightarrow> True | Some n \<Rightarrow> (\<exists>h. info = Some h \<and> xdebug_hash_find h n \<noteq> None))"

definition cov_good :: "coverage \<Rightarrow> bool" where
  "cov_good st \<longleftrightarrow> info_good (cov_info st) \<and> known (cov_info st) (cov_previous_filename st) \<and>
     known (cov_info st) (cov_previous_mark_filename st)"

lemma cov_good_others [simp]:
  "cov_good (st\<lparr>cov_active := b\<rparr>) = cov_good st" "cov_good (st\<lparr>cov_unused := b\<rparr>) = cov_good st"
  "cov_good (st\<lparr>cov_dead_code := b\<rparr>) = cov_good st" "cov_good (st\<lparr>cov_branch_check := b\<rparr>) = cov_good st"
  "cov_good (st\<lparr>cov_prefill_function_count := n\<rparr>) = cov_good st" "cov_good (st\<lparr>cov_prefill_class_count := n\<rparr>) = cov_good st"
  "cov_good (st\<lparr>cov_visited_branches := v\<rparr>) = cov_good st" "cov_good (st\<lparr>cov_fiber_stacks := fs\<rparr>) = cov_good st"
  "cov_good (st\<lparr>cov_paths_stack := p\<rparr>) = cov_good st" "cov_good (st\<lparr>cov_branches := bs\<rparr>) = cov_good st"
  "cov_good (st\<lparr>cov_reserved := r\<rparr>) = cov_good st" "cov_good (st\<lparr>cov_traits := t\<rparr>) = cov_good st"
  "cov_good (st\<lparr>cov_filters := fl\<rparr>) = cov_good st"
  by (simp_all add: cov_good_def)

lemma good_file_at:
  assumes "cov_good st" "file_at st n = Some f"
  shows "cf_name f = n" "lines_good f"
  using assms
  by (auto simp: cov_good_def info_good_def file_at_def file_good_def find_str_map Option.bind_eq_Some_conv split: option.splits)

lemma known_poke: "hash_ok h \<Longrightarrow> known (Some h) m \<Longrightarrow> known (Some (hash_poke h n f)) m"
  by (auto simp: known_def find_str_map poke_map split: option.splits)

lemma known_add: "hash_ok h \<Longrightarrow> known (Some h) m \<Longrightarrow> known (Some (xdebug_hash_add h n f)) m"
  by (auto simp: known_def find_str_map add_str_map split: option.splits)

lemma good_put_file [intro]:
  assumes "cov_good st" "file_at st n = Some f" "cf_name f' = cf_name f" "lines_good f'"
  shows "cov_good (put_file n f' st)"
proof -
  obtain h where h: "cov_info st = Some h" "hash_ok h" "\<And>k g. hash_map h k = Some g \<Longrightarrow> file_good k g"
    using assms(1,2) by (auto simp: cov_good_def info_good_def file_at_def Option.bind_eq_Some_conv)
  have "file_good (HStr n) f'" using good_file_at [OF assms(1,2)] assms(3,4) by (simp add: file_good_def)
  then have "file_good k g" if "hash_map (hash_poke h n f') k = Some g" for k g
    using that h(3) poke_map(2) [OF h(2)] by (auto split: if_splits)
  then show ?thesis using assms(1) h known_poke [OF h(2)] by (simp add: cov_good_def info_good_def put_file_def poke_map)
qed

lemma lines_good_fields [simp]:
  "lines_good (f\<lparr>cf_functions := a\<rparr>) = lines_good f" "lines_good (f\<lparr>cf_hit_functions := b\<rparr>) = lines_good f"
  "lines_good (f\<lparr>cf_has_branch_info := c\<rparr>) = lines_good f"
  by (simp_all add: lines_good_def)

lemma file_ctor_good: "lines_good (xdebug_coverage_file_ctor n)"
  by (simp add: lines_good_def xdebug_coverage_file_ctor_def xdebug_mset_create_def mset_ok_def)

lemma fetch_file_good:
  assumes "cov_good st"
  shows "post (\<lambda>st1. cov_good st1 \<and> file_at st1 n \<noteq> None) (fetch_file n st)"
proof -
  have c: "xdebug_hash_find h n \<noteq> None" if "cov_previous_filename st = Some n" "cov_info st = Some h" for h
    using assms that by (simp add: cov_good_def known_def)
  show ?thesis
  proof (cases "cov_info st")
    case None
    with assms show ?thesis by (auto simp: fetch_file_def post_def cov_good_def known_def)
  next
    case (Some h)
    with assms have h: "hash_ok h" "\<And>k g. hash_map h k = Some g \<Longrightarrow> file_good k g"
      "known (Some h) (cov_previous_filename st)" "known (Some h) (cov_previous_mark_filename st)"
      by (simp_all add: cov_good_def info_good_def)
    let ?h = "xdebug_hash_add h n (xdebug_coverage_file_ctor n)"
    have new: "file_good (HStr n) (xdebug_coverage_file_ctor n)"
      using file_ctor_good by (simp add: file_good_def xdebug_coverage_file_ctor_def)
    have "\<And>k g. hash_map ?h k = Some g \<Longrightarrow> file_good k g" using h(2) new add_str_map(2) [OF h(1)] by (auto split: if_splits)
    moreover have "known (Some ?h) m" if "known (Some h) m" for m using known_add [OF h(1) that] .
    moreover have "known (Some ?h) (Some n)" by (simp add: known_def find_str_map add_str_map [OF h(1)])
    moreover have "known (Some h) (Some (cf_name g))" if "xdebug_hash_find h n = Some g" for g
      using h(2) [of "HStr n" g] that by (simp add: known_def find_str_map file_good_def)
    ultimately show ?thesis using Some h c
      by (auto simp: fetch_file_def post_def cov_good_def info_good_def file_at_def find_str_map add_str_map split: option.splits)
  qed
qed

lemma fetch_mark_file_good:
  assumes "cov_good st"
  shows "post (\<lambda>(st1, found). cov_good st1 \<and> (found \<longrightarrow> file_at st1 n \<noteq> None)) (fetch_mark_file n st)"
  using assms
  by (auto simp: fetch_mark_file_def post_def cov_good_def info_good_def known_def file_at_def file_good_def find_str_map
      split: option.splits if_splits)

section \<open>Marking lines\<close>

definition byte_at :: "xdebug_mset \<Rightarrow> nat \<Rightarrow> byte" where
  "byte_at mst q = (if q < mset_size mst then mset_info mst ! q else 0)"

lemma mset_add_bytes:
  assumes "mset_ok mst" "xdebug_mset_add mst p bt = Some m'"
  shows "mset_ok m'" "byte_at m' q = (if q = p then byte_at mst p OR push_bit bt 1 else byte_at mst q)"
proof -
  obtain m1 where m1: "(if p \<ge> mset_size mst then mset_resize mst (uint_succ p) else Some mst) = Some m1" "p < length (mset_info m1)"
    "m' = m1\<lparr>mset_info := (mset_info m1)[p := mset_info m1 ! p OR push_bit bt 1]\<rparr>"
    using assms(2) by (auto simp: xdebug_mset_add_def split: option.splits if_splits)
  have u: "uint_succ p < 2 ^ 32" by (simp add: uint_succ_def)
  have ok: "mset_ok m1" "\<And>q. byte_at m1 q = byte_at mst q"
    using assms(1) m1(1,2) u by (auto simp: mset_resize_def mset_ok_def byte_at_def nth_append split: if_splits)
  then show "mset_ok m'" using m1(3) by (simp add: mset_ok_def)
  show "byte_at m' q = (if q = p then byte_at mst p OR push_bit bt 1 else byte_at mst q)"
    unfolding ok(2) [symmetric] using ok(1) m1(2,3) by (simp add: byte_at_def mset_ok_def)
qed

lemma list_all_bytes: "mset_ok m \<Longrightarrow> P 0 \<Longrightarrow> list_all P (mset_info m) \<longleftrightarrow> (\<forall>q. P (byte_at m q))"
  by (auto simp: list_all_length byte_at_def mset_ok_def)

lemma lines_good_bytes:
  "lines_good f \<longleftrightarrow> mset_ok (cf_lines f) \<and> mset_ok (cf_hit_lines f) \<and> (\<forall>q. byte_at (cf_lines f) q \<in> {0, 2, 6}) \<and>
     (\<forall>q. byte_at (cf_hit_lines f) q \<in> {0, 1})"
  using list_all_bytes [of "cf_lines f" "\<lambda>b. b = 0 \<or> b = 2 \<or> b = 6"] list_all_bytes [of "cf_hit_lines f" "\<lambda>b. b = 0 \<or> b = 1"]
  by (auto simp: lines_good_def)

lemma byte_ors:
  "b \<in> {0, 1} \<Longrightarrow> (b :: byte) OR push_bit COV_BIT_HIT 1 \<in> {0, 1}"
  "b \<in> {0, 2, 6} \<Longrightarrow> (b :: byte) OR push_bit COV_BIT_EXEC 1 \<in> {2, 6}"
  "b \<in> {2, 6} \<Longrightarrow> (b :: byte) OR push_bit COV_BIT_ACTIVE 1 \<in> {2, 6}"
  by (auto simp: push_bit_eq_mult COV_BIT_HIT_def COV_BIT_EXEC_def COV_BIT_ACTIVE_def)

lemma count_line_good: "cov_good st \<Longrightarrow> post cov_good (xdebug_count_line n l st)"
  unfolding xdebug_count_line_def
proof (rule post_bind [OF fetch_file_good], assumption, intro post_rules)
  fix st1 f lines assume st1: "cov_good st1 \<and> file_at st1 n \<noteq> None" and f: "file_at st1 n = Some f"
    and lines: "xdebug_mset_add (cf_hit_lines f) l COV_BIT_HIT = Some lines"
  have g: "lines_good f" using good_file_at(2) st1 f by blast
  then have h: "mset_ok (cf_hit_lines f)" "\<And>q. byte_at (cf_hit_lines f) q \<in> {0, 1}" by (simp_all add: lines_good_bytes)
  have "byte_at lines q \<in> {0, 1}" for q
    unfolding mset_add_bytes(2) [OF h(1) lines] using h(2) byte_ors(1) [OF h(2) [of l]] by (cases "q = l") simp_all
  then have "lines_good (f\<lparr>cf_hit_lines := lines\<rparr>)"
    using g mset_add_bytes(1) [OF h(1) lines] by (simp add: lines_good_bytes)
  then show "cov_good (put_file n (f\<lparr>cf_hit_lines := lines\<rparr>) st1)" using st1 f by (intro good_put_file) auto
qed

text \<open>A file stays the same file, with good lines.\<close>

definition same_file :: "xdebug_coverage_file \<Rightarrow> xdebug_coverage_file \<Rightarrow> bool" where
  "same_file f g \<longleftrightarrow> cf_name g = cf_name f \<and> lines_good g"

lemma analysis_line_good:
  assumes "lines_good f" shows "post (same_file f) (xdebug_analysis_line l active f)"
  unfolding xdebug_analysis_line_def
proof (intro post_rules)
  fix lines lines2 assume l1: "xdebug_mset_add (cf_lines f) l COV_BIT_EXEC = Some lines"
    and l2: "(if active then xdebug_mset_add lines l COV_BIT_ACTIVE else Some lines) = Some lines2"
  have f: "mset_ok (cf_lines f)" "\<And>q. byte_at (cf_lines f) q \<in> {0, 2, 6}" using assms by (simp_all add: lines_good_bytes)
  have l: "mset_ok lines" "byte_at lines l \<in> {2, 6}"
    using mset_add_bytes(1) [OF f(1) l1] mset_add_bytes(2) [OF f(1) l1, of l] byte_ors(2) [OF f(2) [of l]] by simp_all
  have b: "byte_at lines q \<in> {0, 2, 6}" for q
    unfolding mset_add_bytes(2) [OF f(1) l1] using f(2) [of q] byte_ors(2) [OF f(2) [of l]] by (cases "q = l") simp_all
  have "mset_ok lines2 \<and> (\<forall>q. byte_at lines2 q \<in> {0, 2, 6})"
  proof (cases active)
    case True
    with l2 have "xdebug_mset_add lines l COV_BIT_ACTIVE = Some lines2" by simp
    note m = mset_add_bytes [OF l(1) this]
    have "byte_at lines2 q \<in> {0, 2, 6}" for q
      unfolding m(2) using b [of q] byte_ors(3) [OF l(2)] by (cases "q = l") simp_all
    with m(1) show ?thesis by blast
  next
    case False
    with l2 l(1) b show ?thesis by simp
  qed
  then show "same_file f (f\<lparr>cf_lines := lines2\<rparr>)" using assms by (simp add: same_file_def lines_good_bytes)
qed

lemma same_file_refl: "lines_good f \<Longrightarrow> same_file f f"
  by (simp add: same_file_def)

lemma same_file_trans: "same_file f g \<Longrightarrow> same_file g h \<Longrightarrow> same_file f h"
  by (simp add: same_file_def)

lemma scan_line_good: "lines_good f \<Longrightarrow> post (same_file f) (scan_line opa active i f)"
  unfolding scan_line_def opcode_type_filter_def Let_def by (intro post_rules analysis_line_good same_file_refl)

lemma scan_lines_good:
  assumes "lines_good f" shows "post (same_file f) (loop_over (scan_line opa active) is f)"
proof (rule loop_over_post)
  fix i g assume g: "same_file f g"
  then have "post (same_file g) (scan_line opa active i g)" by (intro scan_line_good) (simp add: same_file_def)
  with same_file_trans [OF g] show "post (same_file f) (scan_line opa active i g)" unfolding post_def by blast
qed (rule same_file_refl [OF assms])

section \<open>Every operation keeps the files good\<close>

definition same_info :: "coverage \<Rightarrow> coverage \<Rightarrow> bool" where
  "same_info st st1 \<longleftrightarrow> cov_info st1 = cov_info st \<and> cov_previous_filename st1 = cov_previous_filename st \<and>
     cov_previous_mark_filename st1 = cov_previous_mark_filename st"

lemma same_info_good: "same_info st st1 \<Longrightarrow> cov_good st1 = cov_good st"
  by (simp add: same_info_def cov_good_def)

lemma wrap_location_info: "post (\<lambda>(st1, w). same_info st st1) (xdebug_wrap_location_around_function_name prefix opa f st)"
  unfolding xdebug_wrap_location_around_function_name_def by (intro post_rules) (simp_all add: same_info_def)

lemma build_fname_info: "post (\<lambda>(st1, func). same_info st st1) (xdebug_build_fname_from_oparray opa st)"
  unfolding xdebug_build_fname_from_oparray_def
proof (rule post_bind [where P = "\<lambda>(st1, fname, wrapped). same_info st st1"], intro post_rules)
  fix f y assume "xdebug_wrap_location_around_function_name ''trait-method'' opa f st = Some y"
  then show "case case y of (st1, w) \<Rightarrow> (st1, w, True) of (st1, fname, wrapped) \<Rightarrow> same_info st st1"
    using postD [OF wrap_location_info] by (cases y) fastforce
qed (auto simp: same_info_def post_def)

lemma function_name_good: "cov_good st \<Longrightarrow> post (\<lambda>(st1, name). cov_good st1) (function_name_of opa st)"
  using build_fname_info [of st opa] same_info_good [of st] by (auto simp: function_name_of_def post_def)

lemma fname_good: "cov_good st \<Longrightarrow> post (\<lambda>(st1, func). cov_good st1) (xdebug_build_fname_from_oparray opa st)"
  using build_fname_info [of st opa] same_info_good [of st] by (auto simp: post_def)

text \<open>Steps from good states to good states, as destruction rules.\<close>

named_theorems good_step

lemma good_fetch [good_step]: "fetch_file n st = Some st1 \<Longrightarrow> cov_good st \<Longrightarrow> cov_good st1"
  using fetch_file_good by (auto dest: postD)

lemma good_fetch_mark [good_step]: "fetch_mark_file n st = Some (st1, found) \<Longrightarrow> cov_good st \<Longrightarrow> cov_good st1"
  using fetch_mark_file_good by (fastforce dest: postD)

lemma good_count_line [good_step]: "xdebug_count_line n l st = Some st1 \<Longrightarrow> cov_good st \<Longrightarrow> cov_good st1"
  using count_line_good by (blast dest: postD)

lemma good_function_name [good_step]: "function_name_of opa st = Some (st1, name) \<Longrightarrow> cov_good st \<Longrightarrow> cov_good st1"
  using function_name_good by (fastforce dest: postD)

lemma good_fname [good_step]: "xdebug_build_fname_from_oparray opa st = Some (st1, func) \<Longrightarrow> cov_good st \<Longrightarrow> cov_good st1"
  using fname_good by (fastforce dest: postD)

lemma good_put [good_step]:
  "file_at st n = Some f \<Longrightarrow> cov_good st \<Longrightarrow> cov_good (put_file n (f\<lparr>cf_functions := a\<rparr>) st)"
  "file_at st n = Some f \<Longrightarrow> cov_good st \<Longrightarrow> cov_good (put_file n (f\<lparr>cf_hit_functions := b\<rparr>) st)"
  using good_file_at(2) [of st n f] by (auto intro!: good_put_file)

lemma good_runtime [good_step]: "runtime_function n name a st = Some st1 \<Longrightarrow> cov_good st \<Longrightarrow> cov_good st1"
  by (auto simp: runtime_function_def Option.bind_eq_Some_conv good_put split: option.splits)

lemma good_on_runtime [good_step]: "on_runtime n name g st = Some st1 \<Longrightarrow> cov_good st \<Longrightarrow> cov_good st1"
  by (auto simp: on_runtime_def Option.bind_eq_Some_conv good_put)

lemma post_on_runtime: "cov_good st \<Longrightarrow> post cov_good (on_runtime n name g st)"
  using good_on_runtime by (auto simp: post_def)

lemma good_levels [good_step]:
  "put_stack_paths pa st = Some st1 \<Longrightarrow> cov_good st \<Longrightarrow> cov_good st1"
  "xdebug_path_info_make_sure_level_exists l st = Some st1 \<Longrightarrow> cov_good st \<Longrightarrow> cov_good st1"
  "put_level_slot l slot st = Some st1 \<Longrightarrow> cov_good st \<Longrightarrow> cov_good st1"
  "put_last_branch l nr st = Some st1 \<Longrightarrow> cov_good st \<Longrightarrow> cov_good st1"
  by (auto simp: put_stack_paths_def xdebug_path_info_make_sure_level_exists_def put_level_slot_def put_last_branch_def
      Option.bind_eq_Some_conv split: if_splits)

lemma good_level_paths [good_step]:
  "xdebug_path_info_add_path_for_level p l st = Some st1 \<Longrightarrow> cov_good st \<Longrightarrow> cov_good st1"
  "xdebug_path_info_get_path_for_level l st = Some (st1, slot) \<Longrightarrow> cov_good st \<Longrightarrow> cov_good st1"
  by (auto simp: xdebug_path_info_add_path_for_level_def xdebug_path_info_get_path_for_level_def Option.bind_eq_Some_conv
      dest: good_levels)

lemma good_mark_end [good_step]:
  assumes "xdebug_branch_info_mark_end_of_function_reached n name key st = Some st1" "cov_good st"
  shows "cov_good st1"
proof -
  have "post cov_good (xdebug_branch_info_mark_end_of_function_reached n name key st)"
    unfolding xdebug_branch_info_mark_end_of_function_reached_def
    by (intro post_rules) (use assms(2) in \<open>auto dest: good_fetch_mark good_runtime intro!: post_on_runtime\<close>)
  from postD [OF this assms(1)] show ?thesis .
qed

lemma post_path_slot [post_rules]:
  "(slot = Path_null \<Longrightarrow> post Q a) \<Longrightarrow> (slot = Path_freed \<Longrightarrow> post Q b) \<Longrightarrow> (\<And>p. slot = Path_at p \<Longrightarrow> post Q (c p)) \<Longrightarrow>
   (slot = Path_unset \<Longrightarrow> post Q d) \<Longrightarrow>
   post Q (case slot of Path_null \<Rightarrow> a | Path_freed \<Rightarrow> b | Path_at p \<Rightarrow> c p | Path_unset \<Rightarrow> d)"
  by (cases slot) auto

lemma good_end_of_function [good_step]:
  assumes "xdebug_code_coverage_end_of_function l n name st = Some st1" "cov_good st"
  shows "cov_good st1"
proof -
  have "post cov_good (xdebug_code_coverage_end_of_function l n name st)"
    unfolding xdebug_code_coverage_end_of_function_def
  proof (intro post_rules)
    fix y s1 slot p assume "xdebug_path_info_get_path_for_level l st = Some y" "y = (s1, slot)"
    then have s1: "cov_good s1" using good_level_paths(2) assms(2) by blast
    fix s2 assume "(if p = [] then Some s1 else
        xdebug_branch_info_mark_end_of_function_reached n name (xdebug_create_key_for_path p) s1) = Some s2"
    then have "cov_good s2" using s1 good_mark_end by (auto split: if_splits)
    then show "post cov_good (put_level_slot l Path_freed s2)" using good_levels(3) by (auto simp: post_def)
  qed (use assms(2) good_level_paths(2) in \<open>auto\<close>)
  from postD [OF this assms(1)] show ?thesis .
qed

section \<open>Scanning keeps the files good\<close>

lemma good_add_branches_and_paths [good_step]:
  "xdebug_branch_info_add_branches_and_paths n name bi st = Some st1 \<Longrightarrow> cov_good st \<Longrightarrow> cov_good st1"
  unfolding xdebug_branch_info_add_branches_and_paths_def Let_def
  by (auto simp: Option.bind_eq_Some_conv split: option.splits intro!: good_put_file dest: good_file_at(2))

lemma good_add_branch_info [good_step]: "add_branch_info opa bi st = Some st1 \<Longrightarrow> cov_good st \<Longrightarrow> cov_good st1"
  by (auto simp: add_branch_info_def Option.bind_eq_Some_conv dest: good_function_name good_add_branches_and_paths)

lemma good_scan_function [good_step]:
  assumes "scan_function opa st = Some st1" "cov_good st"
  shows "cov_good st1"
proof -
  define st0 where "st0 = st\<lparr>cov_reserved := (cov_reserved st)(ca_id opa := (fst (cov_reserved st (ca_id opa)), True))\<rparr>"
  from assms(1) obtain s active bi f f1 where s: "fetch_file (ca_filename opa) st0 = Some s" "file_at s (ca_filename opa) = Some f"
    and f1: "loop_over (scan_line opa active) [0..<length (ca_opcodes opa)] f = Some f1"
    and st1: "(case bi of Some b \<Rightarrow> add_branch_info opa b (put_file (ca_filename opa) f1 s) | None \<Rightarrow> Some (put_file (ca_filename opa) f1 s)) = Some st1"
    unfolding scan_function_def st0_def by (auto simp: Option.bind_eq_Some_conv Let_def)
  have s_good: "cov_good s" using good_fetch [OF s(1)] assms(2) by (simp add: st0_def)
  have "same_file f f1" using postD [OF scan_lines_good f1] good_file_at(2) [OF s_good s(2)] by blast
  then have "cov_good (put_file (ca_filename opa) f1 s)"
    using good_put_file [OF s_good s(2)] by (simp add: same_file_def)
  with st1 show ?thesis by (auto split: option.splits dest: good_add_branch_info)
qed

lemma good_loop:
  assumes "\<And>x s s1. x \<in> set xs \<Longrightarrow> f x s = Some s1 \<Longrightarrow> cov_good s \<Longrightarrow> cov_good s1" "loop_over f xs st = Some st1" "cov_good st"
  shows "cov_good st1"
  using postD [OF loop_over_post [of cov_good st xs f] assms(2)] assms(1,3) by (auto simp: post_def)

lemma good_prefill [good_step]: "prefill_from_oparray opa st = Some st1 \<Longrightarrow> cov_good st \<Longrightarrow> cov_good st1"
proof (induction opa st arbitrary: st1 rule: prefill_from_oparray.induct)
  case (1 opa st)
  show ?case
  proof (cases "skips st opa")
    case True
    with 1 show ?thesis by (simp add: prefill_from_oparray.simps)
  next
    case False
    with 1(2) obtain s where s: "scan_function opa st = Some s" "loop_over prefill_from_oparray (ca_dynamic_func_defs opa) s = Some st1"
      by (subst (asm) prefill_from_oparray.simps) (auto simp: Option.bind_eq_Some_conv)
    have "cov_good x1" if "x \<in> set (ca_dynamic_func_defs opa)" "prefill_from_oparray x u = Some x1" "cov_good u" for x u x1
      using 1(1) [OF False s(1) that(1)] that(2,3) by blast
    with good_loop [OF _ s(2) good_scan_function [OF s(1) 1(3)]] show ?thesis by blast
  qed
qed

lemma good_prefill_tables [good_step]:
  "prefill_from_function_table opa st = Some st1 \<Longrightarrow> cov_good st \<Longrightarrow> cov_good st1"
  "prefill_from_class_table ce st = Some st1 \<Longrightarrow> cov_good st \<Longrightarrow> cov_good st1"
proof -
  show f: "prefill_from_function_table opa st = Some st1 \<Longrightarrow> cov_good st \<Longrightarrow> cov_good st1" for opa st st1
    by (auto simp: prefill_from_function_table_def dest: good_prefill split: if_splits)
  show "prefill_from_class_table ce st = Some st1 \<Longrightarrow> cov_good st \<Longrightarrow> cov_good st1"
    using good_loop [of _ prefill_from_function_table] f by (auto simp: prefill_from_class_table_def split: if_splits)
qed

lemma good_compile_file [good_step]: "xdebug_coverage_compile_file fs cs opa st = Some st1 \<Longrightarrow> cov_good st \<Longrightarrow> cov_good st1"
proof -
  assume c: "xdebug_coverage_compile_file fs cs opa st = Some st1" "cov_good st"
  show "cov_good st1"
  proof (cases "cov_active st \<and> cov_unused st \<and> ca_pass_two opa")
    case True
    with c(1) obtain s1 s2 s4 where s: "prefill_from_oparray opa st = Some s1"
      "loop_over prefill_from_function_table (new_slots (cov_prefill_function_count s1) fs) s1 = Some s2"
      "loop_over prefill_from_class_table (new_slots (cov_prefill_class_count s2) cs)
         (s2\<lparr>cov_prefill_function_count := length fs\<rparr>) = Some s4"
      "st1 = s4\<lparr>cov_prefill_class_count := length cs\<rparr>"
      by (auto simp: xdebug_coverage_compile_file_def xdebug_prefill_code_coverage_def Option.bind_eq_Some_conv Let_def)
    have "cov_good s2" using good_loop [OF _ s(2) good_prefill [OF s(1) c(2)]] good_prefill_tables(1) by blast
    then have "cov_good s4" using good_loop [OF _ s(3)] good_prefill_tables(2) by simp
    with s(4) show ?thesis by simp
  next
    case False
    with c show ?thesis by (auto simp: xdebug_coverage_compile_file_def split: if_splits)
  qed
qed

section \<open>Running keeps the files good\<close>

lemma good_start_of_function [good_step]:
  "xdebug_code_coverage_start_of_function stack opa name st = Some st1 \<Longrightarrow> cov_good st \<Longrightarrow> cov_good st1"
  unfolding xdebug_code_coverage_start_of_function_def Let_def
  by (auto simp: Option.bind_eq_Some_conv split: if_splits dest!: good_prefill good_level_paths(1) good_levels(4))

lemma good_mark_outs [good_step]:
  assumes "mark_outs n name bi previous nr st = Some st1" "cov_good st"
  shows "cov_good st1"
proof (cases "previous = - 1")
  case True
  with assms show ?thesis by (simp add: mark_outs_def)
next
  case False
  define g where "g = (\<lambda>(i, out) s. if out = int nr
      then on_runtime n name (add_hit (nat previous * (1 + bri_highest_out bi) + i + 1)) s else Some s)"
  from False assms(1) obtain outs where loop: "loop_over g outs st = Some st1"
    by (auto simp: mark_outs_def g_def Option.bind_eq_Some_conv)
  have "cov_good s1" if "g io s = Some s1" "cov_good s" for io s s1
    using that by (cases io) (auto simp: g_def split: if_splits dest: good_on_runtime)
  then show ?thesis by (rule good_loop [OF _ loop assms(2)])
qed

lemma good_visit_branch [good_step]: "visit_branch stack previous nr st = Some st1 \<Longrightarrow> cov_good st \<Longrightarrow> cov_good st1"
  by (auto simp: visit_branch_def Option.bind_eq_Some_conv Let_def split: if_splits dest: good_levels(3))

lemma good_reach_branch [good_step]: "reach_branch stack n name bi nr st = Some st1 \<Longrightarrow> cov_good st \<Longrightarrow> cov_good st1"
  by (auto simp: reach_branch_def Option.bind_eq_Some_conv split: if_splits
      dest!: good_mark_outs good_visit_branch good_on_runtime good_levels(4))

lemma post_reach_branch: "cov_good st \<Longrightarrow> post cov_good (reach_branch stack n name bi nr st)"
  using good_reach_branch by (auto simp: post_def)

lemma good_mark_reached [good_step]:
  assumes "xdebug_branch_info_mark_reached stack n name opa nr st = Some st1" "cov_good st"
  shows "cov_good st1"
proof -
  have "post cov_good (xdebug_branch_info_mark_reached stack n name opa nr st)"
    unfolding xdebug_branch_info_mark_reached_def
    by (intro post_rules)
      (use assms(2) in \<open>auto dest!: good_fetch_mark good_runtime good_end_of_function good_start_of_function
        simp: Option.bind_eq_Some_conv intro!: post_reach_branch split: if_splits\<close>)
  from postD [OF this assms(1)] show ?thesis .
qed

lemma good_print_opcode_info [good_step]: "xdebug_print_opcode_info stack opa nr st = Some st1 \<Longrightarrow> cov_good st \<Longrightarrow> cov_good st1"
  by (auto simp: xdebug_print_opcode_info_def Option.bind_eq_Some_conv dest!: good_function_name good_mark_reached)

lemma good_record_if_active [good_step]:
  "xdebug_coverage_record_if_active stack opa nr st = Some st1 \<Longrightarrow> cov_good st \<Longrightarrow> cov_good st1"
  by (auto simp: xdebug_coverage_record_if_active_def dest: good_print_opcode_info split: if_splits)

lemma good_handle_opcode [good_step]:
  assumes "handle_opcode stack opa nr st = Some (st1, r)" "cov_good st"
  shows "cov_good st1"
proof -
  have c: "xdebug_common_override_handler stack opa nr st = Some (st1, r) \<Longrightarrow> cov_good st1"
    using assms(2) unfolding xdebug_common_override_handler_def
    by (auto simp: Option.bind_eq_Some_conv dest!: good_print_opcode_info good_count_line split: if_splits)
  obtain opcode where "op_at opa nr = Some opcode" using assms(1) by (auto simp: handle_opcode_def split: option.splits)
  with assms show ?thesis
    by (cases "coverage_handler (op_opcode opcode)")
      (auto simp: handle_opcode_def xdebug_check_branch_entry_handler_def xdebug_coverage_include_or_eval_handler_def
        xdebug_switch_handler_def split: cov_handler.splits dest: good_record_if_active c)
qed

lemma good_init_oparray [good_step]: "xdebug_coverage_init_oparray opa st = Some st1 \<Longrightarrow> cov_good st \<Longrightarrow> cov_good st1"
  unfolding xdebug_coverage_init_oparray_def Let_def
  by (auto simp: Option.bind_eq_Some_conv split: if_splits dest: good_fname)

lemma good_execute [good_step]:
  "xdebug_coverage_execute_ex stack fse opa st = Some (st1, r) \<Longrightarrow> cov_good st \<Longrightarrow> cov_good st1"
  "xdebug_coverage_execute_ex_end stack fse n name st = Some st1 \<Longrightarrow> cov_good st \<Longrightarrow> cov_good st1"
  by (auto simp: xdebug_coverage_execute_ex_def xdebug_coverage_execute_ex_end_def Option.bind_eq_Some_conv
      split: if_splits dest!: good_function_name good_start_of_function good_end_of_function)

lemma good_fiber_paths [good_step]:
  "create_path_info_for_fiber k st = Some st1 \<Longrightarrow> cov_good st \<Longrightarrow> cov_good st1"
  "remove_path_info_for_fiber k st = Some st1 \<Longrightarrow> cov_good st \<Longrightarrow> cov_good st1"
  by (auto simp: create_path_info_for_fiber_def remove_path_info_for_fiber_def)

lemma good_fiber_switch [good_step]:
  assumes "xdebug_fiber_switch_coverage_observer from_fiber to_fiber st = Some st1" "cov_good st"
  shows "cov_good st1"
proof -
  let ?k = "create_key_for_fiber (fst to_fiber)"
  from assms(1) obtain s1 s2 where
    s1: "(if snd from_fiber = FIBER_DEAD then remove_path_info_for_fiber (create_key_for_fiber (fst from_fiber)) st else Some st) = Some s1"
    and s2: "(if snd to_fiber = FIBER_INIT then create_path_info_for_fiber ?k s1
              else map_option (\<lambda>_. s1) (find_path_info_for_fiber ?k s1)) = Some s2"
    and "st1 = s2\<lparr>cov_paths_stack := Some ?k\<rparr>"
    unfolding xdebug_fiber_switch_coverage_observer_def Let_def Option.bind_eq_Some_conv by blast
  moreover from s1 assms(2) have "cov_good s1" using good_fiber_paths(2) by (metis option.inject)
  moreover from s2 this have "cov_good s2" using good_fiber_paths(1) by (auto split: if_splits)
  ultimately show ?thesis by simp
qed

text \<open>Forgetting what ran keeps the analysis.\<close>

lemma hash_change_ok:
  assumes "hash_ok h"
  shows "hash_ok (hash_change g h)" "hash_map (hash_change g h) k = map_option g (hash_map h k)"
proof -
  have fst: "map fst (map (\<lambda>(k, v). (k, g v)) c) = map fst c" for c :: "(hash_key \<times> 'a) list"
    by (induction c) auto
  then have fs: "fst ` set (map (\<lambda>(k, v). (k, g v)) c) = fst ` set c" for c :: "(hash_key \<times> 'a) list"
    by (metis list.set_map)
  have len: "length (concat (map (map (\<lambda>(k, v). (k, g v))) cs)) = length (concat cs)" for cs :: "(hash_key \<times> 'a) list list"
    by (induction cs) simp_all
  show "hash_ok (hash_change g h)"
    using assms unfolding hash_ok_def chains_ok_def hash_change_def by (simp add: fst fs len case_prod_beta comp_def del: length_concat)
  have s: "key_slot (h_slots h) k < length (h_table h)"
    using assms key_slot_less [of "h_slots h" k] by (simp add: hash_ok_def chains_ok_def)
  have "map_of (map (\<lambda>(k, v). (k, g v)) c) k = map_option g (map_of c k)" for c by (induction c) auto
  with s show "hash_map (hash_change g h) k = map_option g (hash_map h k)" by (simp add: hash_map_def hash_change_def)
qed

lemma scrub_good: "lines_good f \<Longrightarrow> lines_good (scrub_runtime f)"
  by (auto simp: lines_good_def scrub_runtime_def xdebug_mset_clear_def mset_ok_def list_all_iff)

lemma good_stop [good_step]:
  assumes "xdebug_stop_code_coverage mode cleanup st = Some (st1, r)" "cov_good st"
  shows "cov_good st1"
proof -
  have "cov_good s" if "forget_runs st = Some s" for s
  proof -
    from that obtain info where info: "cov_info st = Some info" "cov_info s = Some (hash_change scrub_runtime info)"
      "cov_previous_filename s = None" "cov_previous_mark_filename s = None"
      by (auto simp: forget_runs_def Option.bind_eq_Some_conv split: if_splits)
    with assms(2) have "hash_ok info" "\<And>k f. hash_map info k = Some f \<Longrightarrow> file_good k f" by (simp_all add: cov_good_def info_good_def)
    then have "file_good k f" if "hash_map (hash_change scrub_runtime info) k = Some f" for k f
      using that scrub_good by (auto simp: hash_change_ok(2) file_good_def scrub_runtime_def)
    with info \<open>hash_ok info\<close> show ?thesis by (simp add: cov_good_def info_good_def known_def hash_change_ok(1))
  qed
  with assms show ?thesis by (auto simp: xdebug_stop_code_coverage_def split: if_splits)
qed

section \<open>Every state that is reached\<close>

text \<open>What can happen in a request; \<open>init\<close> is the state before its start.\<close>

inductive cov_reached :: "coverage \<Rightarrow> bool" where
  rinit: "xdebug_coverage_rinit main_fiber init = Some st \<Longrightarrow> cov_reached st"
| init_oparray: "cov_reached st \<Longrightarrow> xdebug_coverage_init_oparray opa st = Some st1 \<Longrightarrow> cov_reached st1"
| compile_file: "cov_reached st \<Longrightarrow> xdebug_coverage_compile_file functions classes opa st = Some st1 \<Longrightarrow> cov_reached st1"
| opcode: "cov_reached st \<Longrightarrow> handle_opcode stack opa opnr st = Some (st1, r) \<Longrightarrow> cov_reached st1"
| silence: "cov_reached st \<Longrightarrow> xdebug_coverage_record_if_active stack opa opnr st = Some st1 \<Longrightarrow> cov_reached st1"
| statement: "cov_reached st \<Longrightarrow> xdebug_coverage_count_line_if_active opa filename lineno st = Some st1 \<Longrightarrow> cov_reached st1"
| frame: "cov_reached st \<Longrightarrow> xdebug_coverage_count_line_if_branch_check_active filename lineno st = Some st1 \<Longrightarrow> cov_reached st1"
| execute: "cov_reached st \<Longrightarrow> xdebug_coverage_execute_ex stack fse opa st = Some (st1, r) \<Longrightarrow> cov_reached st1"
| execute_end: "cov_reached st \<Longrightarrow> xdebug_coverage_execute_ex_end stack fse filename name st = Some st1 \<Longrightarrow> cov_reached st1"
| fiber: "cov_reached st \<Longrightarrow> xdebug_fiber_switch_coverage_observer from_fiber to_fiber st = Some st1 \<Longrightarrow> cov_reached st1"
| start: "cov_reached st \<Longrightarrow> cov_reached (fst (xdebug_start_code_coverage mode options st))"
| stop: "cov_reached st \<Longrightarrow> xdebug_stop_code_coverage mode cleanup st = Some (st1, r) \<Longrightarrow> cov_reached st1"
| set_filter: "cov_reached st \<Longrightarrow> cov_reached (st\<lparr>cov_filters := fst (xdebug_set_filter mode (cov_filters st) grp type fs)\<rparr>)"

lemma cov_reached_good: "cov_reached st \<Longrightarrow> cov_good st"
proof (induction rule: cov_reached.induct)
  case (rinit main_fiber init st)
  then show ?case
    by (auto simp: xdebug_coverage_rinit_def Let_def create_path_info_for_fiber_def cov_good_def info_good_def known_def
        hash_alloc_ok)
next
  case (start st mode options)
  then show ?case by (simp add: xdebug_start_code_coverage_def)
qed (auto simp: xdebug_coverage_count_line_if_active_def xdebug_coverage_count_line_if_branch_check_active_def
      split: if_splits dest: good_step)

end
