(* ===== verification/Xd_Hits.thy ===== *)
theory Xd_Hits
  imports Xd_Post Xd_Cov_Spec
begin

text \<open>
  Scanning and running together: what scanning a function with all options leaves is ready for it to run, and when it
  runs, exactly the branch that starts and the ways out that lead to it are recorded, inside the set that was allocated.
\<close>

section \<open>Scanned functions\<close>

definition ready :: "nat \<Rightarrow> xdebug_branch_info \<Rightarrow> bool" where
  "ready n bi \<longleftrightarrow> set_of_size n (bri_starts bi) \<and> set_of_size n (bri_entry_points bi) \<and> records_ok n (bri_branches bi) \<and>
     list_all (\<lambda>b. br_outs_count b \<le> bri_highest_out bi) (bri_branches bi) \<and> outs_ok (bri_branches bi) \<and>
     pa_path_hash (bri_path_info bi) \<noteq> None"

lemma zero_branch_ok: "branch_ok n zero_branch" if "0 < n"
  using that by (simp add: branch_ok_def zero_branch_def out_ok_def list_all_iff)

lemma create_branches_ok:
  assumes "0 < n" "n < 2 ^ 32"
  shows "\<exists>bi. xdebug_branch_info_create n = Some bi \<and> branches_ok n bi \<and> elems (bri_starts bi) = {} \<and>
    bri_path_info bi = xdebug_path_info_ctor"
proof -
  obtain st where "xdebug_set_create n = Some st" "set_of_size n st" "elems st = {}" using set_create_of_size [OF assms(2)] by blast
  moreover have "branch_ok n zero_branch \<and> br_outs_count zero_branch \<le> 0" using zero_branch_ok [OF assms(1)] by (simp add: zero_branch_def)
  ultimately show ?thesis by (simp add: xdebug_branch_info_create_def branches_ok_def list_all_iff)
qed

text \<open>The active code is the code that can be reached, and the branches are those of \<open>Xd_Post\<close> and \<open>Xd_Paths\<close>.\<close>

definition branches_of :: "cov_op_array \<Rightarrow> xdebug_branch_info \<Rightarrow> xdebug_branch_info \<Rightarrow> bool" where
  "branches_of opa bi0 bi \<longleftrightarrow> elems (bri_starts bi) = {p. starting opa p} \<and>
     list_all (\<lambda>j. if starting opa j
       then branch_view (bri_branches bi ! j) =
              ended_view (bri_branches bi0) j (extent {p. starting opa p} (elems (bri_ends bi0)) (code_length opa) j)
       else bri_branches bi ! j = bri_branches bi0 ! j) [0..<code_length opa] \<and>
     list_all (\<lambda>p. trail (bri_branches bi) p \<and> stuck (bri_branches bi) p) (all_found (bri_path_info bi)) \<and>
     length (all_found (bri_path_info bi)) \<le> XDEBUG_MAX_PATHS"

theorem scan_ends:
  assumes "code_ok opa" "catches_ok opa" "0 < code_length opa"
    and "cov_dead_code st" "cov_branch_check st" "ca_pass_two opa"
  shows "\<exists>active bi0 bi1 bi. analyse st opa = Some (Some active, Some bi0) \<and> elems active = {p. reached opa p} \<and>
    xdebug_branch_post_process opa bi0 = Some bi1 \<and> xdebug_branch_find_paths bi1 = Some bi \<and> branches_of opa bi0 bi \<and>
    ready (code_length opa) bi"
proof -
  let ?n = "code_length opa"
  have n: "0 < ?n" "?n < 2 ^ 32" "?n < 2 ^ 31" using assms(1,3) by (simp_all add: code_ok_def)
  obtain s where s: "xdebug_set_create ?n = Some s" "set_of_size ?n s" "elems s = {}" using set_create_of_size [OF n(2)] by blast
  obtain c where c: "xdebug_branch_info_create ?n = Some c" "branches_ok ?n c" "elems (bri_starts c) = {}"
    "bri_path_info c = xdebug_path_info_ctor" using create_branches_ok [OF n(1,2)] by blast
  have "analysis_ok opa (s, Some c)" using s c by (simp add: analysis_ok_def starts_of_def)
  from analysis_reaches [OF assms(1,3) this] s(3) obtain active bi0 where
    a: "xdebug_analysis_oparray opa (s, Some c) = Some (active, Some bi0)" "analysis_ok opa (active, Some bi0)"
      "elems active = {p. reached opa p}" "elems (bri_starts bi0) = {p. starting opa p}"
      "\<And>p. reached opa p \<Longrightarrow> jump_width opa p \<le> bri_highest_out bi0" "bri_path_info bi0 = xdebug_path_info_ctor"
    using c(4) by (force simp: starts_of_def highest_of_def paths_of_def)
  have an: "analyse st opa = Some (Some active, Some bi0)"
    using assms(4-6) s(1) c(1) a(1) by (simp add: analyse_def code_length_def)
  have b0: "branches_ok ?n bi0" using a(2) by (simp add: analysis_ok_def)
  have zero: "0 \<in> elems (bri_starts bi0)"
    using op_at_Some [OF n(1)] by (auto simp: a(4) starting_def enters_def)
  obtain brs es where p: "xdebug_branch_post_process opa bi0 = Some (bi0\<lparr>bri_entry_points := es, bri_branches := brs\<rparr>)"
    "set_of_size ?n es" "records_ok ?n brs"
    "\<forall>j < ?n. if j \<in> {p. starting opa p}
       then branch_view (brs ! j) = ended_view (bri_branches bi0) j (extent {p. starting opa p} (elems (bri_ends bi0)) ?n j)
       else brs ! j = bri_branches bi0 ! j"
    using post_process_extents [OF assms(2) b0 zero n(1,3)] unfolding a(4) by blast
  let ?bi1 = "bi0\<lparr>bri_entry_points := es, bri_branches := brs\<rparr>"
  have outs: "outs_ok brs" using extents_outs_ok [OF b0 p(3) n(3) p(4)] .
  have len: "length brs = ?n" using p(3) by (simp add: records_ok_def)
  obtain bi h where f: "xdebug_branch_find_paths ?bi1 = Some bi" "bri_branches bi = brs" "pa_path_hash (bri_path_info bi) = Some h"
    "length (all_found (bri_path_info bi)) \<le> XDEBUG_MAX_PATHS"
    "\<forall>p \<in> set (all_found (bri_path_info bi)). trail brs p \<and> stuck brs p"
    using find_paths_ends [of ?n ?bi1] p(2) len outs a(6) by auto
  have same: "bri_starts bi = bri_starts bi0" "bri_entry_points bi = es" "bri_highest_out bi = bri_highest_out bi0"
    using f(1) by (auto simp: xdebug_branch_find_paths_def Option.bind_eq_Some_conv)
  have "br_outs_count (brs ! j) \<le> bri_highest_out bi0" if "j < ?n" for j
    using extents_counts [OF b0 p(3) _ p(4) that] starts_need_jumps [OF assms(1) _ _ a(5)] by blast
  then have "list_all (\<lambda>b. br_outs_count b \<le> bri_highest_out bi) (bri_branches bi)"
    using same(3) f(2) len by (simp add: list_all_length)
  moreover have "set_of_size ?n (bri_starts bi)" using b0 same(1) by (simp add: branches_ok_def)
  ultimately have "ready ?n bi" using p(2,3) outs f(2,3) same by (simp add: ready_def)
  moreover have "branches_of opa bi0 bi" using f p(4) same(1) a(4) by (auto simp: branches_of_def list_all_iff)
  ultimately show ?thesis using an a(3) p(1) f(1) by blast
qed

section \<open>Tables that were emptied\<close>

text \<open>Emptying a table does not reset its count, so that only its chains are well formed; adding to it still works.\<close>

lemma add_ignores_size: "xdebug_hash_add (h\<lparr>h_size := n\<rparr>) k v = (xdebug_hash_add h k v)\<lparr>h_size := h_size (xdebug_hash_add (h\<lparr>h_size := n\<rparr>) k v)\<rparr>"
  by (cases h) (simp add: xdebug_hash_add_def xdebug_hash_add_or_update_def Let_def call_dtor_def split: option.splits)

lemma chains_size [simp]: "chains_ok (h\<lparr>h_size := n\<rparr>) = chains_ok h" "hash_map (h\<lparr>h_size := n\<rparr>) = hash_map h"
  by (simp_all add: chains_ok_def hash_map_def fun_eq_iff)

lemma add_chains:
  assumes "chains_ok h"
  shows "chains_ok (xdebug_hash_add h k v)" "hash_map (xdebug_hash_add h k v) = (hash_map h)(HStr k \<mapsto> v)"
proof -
  let ?h = "h\<lparr>h_size := length (concat (h_table h))\<rparr>"
  have ok: "hash_ok ?h" using assms by (simp add: hash_ok_def)
  have eq: "xdebug_hash_add h k v = (xdebug_hash_add ?h k v)\<lparr>h_size := h_size (xdebug_hash_add h k v)\<rparr>"
    using add_ignores_size [where h = ?h and n = "h_size h" and k = k and v = v] by simp
  show "chains_ok (xdebug_hash_add h k v)"
    by (subst eq) (use add_str_map(1) [OF ok] in \<open>simp add: hash_ok_def\<close>)
  show "hash_map (xdebug_hash_add h k v) = (hash_map h)(HStr k \<mapsto> v)"
    by (subst eq) (use add_str_map(2) [OF ok] in simp)
qed

lemma chains_dtor [simp]: "chains_ok (h\<lparr>h_dtor := d\<rparr>) = chains_ok h"
  by (simp add: chains_ok_def)

lemma poke_chains:
  assumes "chains_ok h"
  shows "chains_ok (hash_poke h k v)" "hash_map (hash_poke h k v) = (hash_map h)(HStr k \<mapsto> v)"
  using add_chains [of "h\<lparr>h_dtor := False\<rparr>" k v] assms by (simp_all add: hash_poke_def)

section \<open>Running\<close>

text \<open>The set of hits of a function is \<open>S\<close>, within \<open>m\<close>.\<close>

definition hits_are :: "string \<Rightarrow> string \<Rightarrow> nat \<Rightarrow> nat set \<Rightarrow> coverage \<Rightarrow> bool" where
  "hits_are filename name m S st \<longleftrightarrow> cov_good st \<and>
     (\<exists>f r. file_at st filename = Some f \<and> chains_ok (cf_hit_functions f) \<and>
        xdebug_hash_find (cf_hit_functions f) name = Some r \<and> set_of_size m (rf_hit_branch r) \<and> elems (rf_hit_branch r) = S)"

text \<open>Nothing but the table of files differs.\<close>

definition only_info :: "coverage \<Rightarrow> coverage \<Rightarrow> bool" where
  "only_info st st1 \<longleftrightarrow> st1\<lparr>cov_info := cov_info st\<rparr> = st"

lemma only_info_refl [simp]: "only_info st st"
  by (simp add: only_info_def)

lemma only_info_trans: "only_info st st1 \<Longrightarrow> only_info st1 st2 \<Longrightarrow> only_info st st2"
  unfolding only_info_def by (cases st; cases st1; cases st2) simp

lemma file_at_put: "cov_good st \<Longrightarrow> file_at st n = Some f \<Longrightarrow> file_at (put_file n f' st) n = Some f'"
  by (auto simp: file_at_def put_file_def cov_good_def info_good_def find_str_map poke_map Option.bind_eq_Some_conv)

lemma add_hit_records:
  assumes "hits_are n name m S st" "p < m" "m < 2 ^ 32"
  shows "\<exists>st1. on_runtime n name (add_hit p) st = Some st1 \<and> hits_are n name m (insert p S) st1 \<and> only_info st st1"
proof -
  from assms(1) obtain f r where f: "file_at st n = Some f" "chains_ok (cf_hit_functions f)"
    "xdebug_hash_find (cf_hit_functions f) name = Some r" "set_of_size m (rf_hit_branch r)" "elems (rf_hit_branch r) = S"
    and good: "cov_good st" unfolding hits_are_def by blast
  obtain hs where hs: "xdebug_set_add (rf_hit_branch r) p = Some hs" "set_of_size m hs" "elems hs = insert p S"
    using set_add_of_size [OF f(4) assms(2)] f(5) by auto
  have "p mod 2 ^ 32 = p" using assms(2,3) by simp
  then have r1: "add_hit p r = Some (r\<lparr>rf_hit_branch := hs\<rparr>)" using hs(1) by (simp add: add_hit_def)
  let ?f = "f\<lparr>cf_hit_functions := hash_poke (cf_hit_functions f) name (r\<lparr>rf_hit_branch := hs\<rparr>)\<rparr>"
  have "on_runtime n name (add_hit p) st = Some (put_file n ?f st)" using f(1,3) r1 by (simp add: on_runtime_def)
  moreover have "cov_good (put_file n ?f st)" using good_put(2) [OF f(1) good] .
  moreover have "file_at (put_file n ?f st) n = Some ?f" using file_at_put [OF good f(1)] .
  moreover have "only_info st (put_file n ?f st)" by (simp add: only_info_def put_file_def)
  ultimately show ?thesis using hs poke_chains [OF f(2)] unfolding hits_are_def by (fastforce simp: find_str_map)
qed

text \<open>The ways out of the previous branch that lead here.\<close>

definition out_hits :: "xdebug_branch_info \<Rightarrow> int \<Rightarrow> nat \<Rightarrow> nat set" where
  "out_hits bi previous opcode_nr =
     (if previous = - 1 then {}
      else {nat previous * (1 + bri_highest_out bi) + i + 1 | i. i < br_outs_count (bri_branches bi ! nat previous) \<and>
              br_outs (bri_branches bi ! nat previous) ! i = int opcode_nr})"

lemma hit_index:
  assumes "p < n" "i \<le> h"
  shows "p * (1 + h) + i < n * (1 + (h :: nat))"
proof -
  have "p * (1 + h) + i < Suc p * (1 + h)" using assms(2) by simp
  also have "\<dots> \<le> n * (1 + h)" using assms(1) by (intro mult_le_mono1) simp
  finally show ?thesis .
qed

lemma mark_outs_records:
  assumes ready: "ready n bi" and hits: "hits_are fn name (n * (1 + bri_highest_out bi)) S st" and "n * (1 + bri_highest_out bi) < 2 ^ 32"
    and previous: "previous = - 1 \<or> 0 \<le> previous \<and> nat previous < n"
  shows "\<exists>st1. mark_outs fn name bi previous nr st = Some st1 \<and>
    hits_are fn name (n * (1 + bri_highest_out bi)) (S \<union> out_hits bi previous nr) st1 \<and> only_info st st1"
proof (cases "previous = - 1")
  case True
  with hits show ?thesis by (simp add: mark_outs_def out_hits_def)
next
  case False
  let ?p = "nat previous" and ?h = "bri_highest_out bi"
  let ?b = "bri_branches bi ! nat previous"
  let ?g = "\<lambda>(i, out) s. if out = int nr then on_runtime fn name (add_hit (?p * (1 + ?h) + i + 1)) s else Some s"
  have p: "0 \<le> previous" "?p < n" using previous False by auto
  have len: "length (bri_branches bi) = n" "length (br_outs ?b) = XDEBUG_BRANCH_MAX_OUTS" "br_outs_count ?b \<le> XDEBUG_BRANCH_MAX_OUTS"
    using ready p(2) records_okD [of n "bri_branches bi" ?p] by (simp_all add: ready_def)
  then have count: "br_outs_count ?b \<le> ?h" using ready p(2) by (auto simp: ready_def list_all_length)
  let ?out = "\<lambda>k. {?p * (1 + ?h) + i + 1 | i. i < k \<and> br_outs ?b ! i = int nr}"
  have "\<exists>u. loop_over ?g (enumerate 0 (take k (br_outs ?b))) st = Some u \<and> hits_are fn name (n * (1 + ?h)) (S \<union> ?out k) u \<and>
      only_info st u" if "k \<le> br_outs_count ?b" for k
    using that
  proof (induction k)
    case 0
    then show ?case using hits by simp
  next
    case (Suc k)
    then obtain u where u: "loop_over ?g (enumerate 0 (take k (br_outs ?b))) st = Some u"
      "hits_are fn name (n * (1 + ?h)) (S \<union> ?out k) u" "only_info st u" by auto
    have k: "k < length (br_outs ?b)" "k + 1 \<le> ?h" using Suc.prems len count by simp_all
    then have t: "enumerate 0 (take (Suc k) (br_outs ?b)) = enumerate 0 (take k (br_outs ?b)) @ [(k, br_outs ?b ! k)]"
      by (simp add: take_Suc_conv_app_nth enumerate_append_eq)
    show ?case
    proof (cases "br_outs ?b ! k = int nr")
      case True
      have "?out (Suc k) = insert (?p * (1 + ?h) + k + 1) (?out k)" using True by (auto simp: less_Suc_eq)
      moreover obtain v where "on_runtime fn name (add_hit (?p * (1 + ?h) + k + 1)) u = Some v"
        "hits_are fn name (n * (1 + ?h)) (insert (?p * (1 + ?h) + k + 1) (S \<union> ?out k)) v" "only_info u v"
        using add_hit_records [OF u(2) _ assms(3), of "?p * (1 + ?h) + k + 1"] hit_index [OF p(2) k(2)] by auto
      ultimately show ?thesis using u True only_info_trans [OF u(3)] unfolding t loop_over_append by (auto simp: insert_commute)
    next
      case False
      then have "?out (Suc k) = ?out k" by (auto simp: less_Suc_eq)
      with u False show ?thesis unfolding t loop_over_append by simp
    qed
  qed
  from this [OF order_refl] False p len(1) show ?thesis by (auto simp: mark_outs_def branch_at_def out_hits_def)
qed

text \<open>A frame has been entered: there is a path at its level, or none, but not one that was freed.\<close>

definition entered :: "int list \<Rightarrow> coverage \<Rightarrow> bool" where
  "entered stack st \<longleftrightarrow> stack \<noteq> [] \<and> cov_visited_branches st \<noteq> None \<and> length stack < length (cov_branches st) \<and>
     (level_slot (length stack) st = Some Path_null \<or> (\<exists>p. level_slot (length stack) st = Some (Path_at p)))"

lemma only_info_fields:
  assumes "only_info st st1"
  shows "cov_branches st1 = cov_branches st" "cov_visited_branches st1 = cov_visited_branches st" "stack_paths st1 = stack_paths st"
  using assms unfolding only_info_def stack_paths_def by (cases st; cases st1; simp)+

lemma entered_only_info: "entered stack st \<Longrightarrow> only_info st st1 \<Longrightarrow> entered stack st1"
  by (simp add: entered_def level_slot_def only_info_fields)

lemma visit_branch_ends:
  assumes "entered stack st"
  shows "\<exists>st1. visit_branch stack previous nr st = Some st1 \<and> cov_info st1 = cov_info st \<and> cov_good st1 = cov_good st \<and>
    cov_branches st1 = cov_branches st"
proof -
  from assms obtain slot visited where slot: "level_slot (length stack) st = Some slot" "stack \<noteq> []"
    "cov_visited_branches st = Some visited" "slot = Path_null \<or> (\<exists>p. slot = Path_at p)" unfolding entered_def by auto
  obtain pa k h where pa: "stack_paths st = Some pa" "length stack < length (pa_paths pa)" "cov_paths_stack st = Some k" "cov_fiber_stacks st = Some h"
    using slot(1) by (auto simp: level_slot_def stack_paths_def Option.bind_eq_Some_conv split: if_splits)
  obtain path where "xdebug_path_add slot nr = Some path" using slot(4) by (auto simp: xdebug_path_add_def)
  with slot pa show ?thesis
    by (cases "xdebug_hash_find visited (dec_int (to_int32 (int nr)) @ '':'' @ dec_int previous @ '':'' @ dec_int (last stack))")
      (auto simp: visit_branch_def put_level_slot_def put_stack_paths_def Let_def)
qed

theorem reach_branch_records:
  assumes ready: "ready n bi" and hits: "hits_are fn name (n * (1 + bri_highest_out bi)) S st" and m: "n * (1 + bri_highest_out bi) < 2 ^ 32"
    and entered: "entered stack st" and start: "nr \<in> elems (bri_starts bi)"
    and previous: "last_branch (length stack) st = Some previous" "previous = - 1 \<or> 0 \<le> previous \<and> nat previous < n"
  shows "\<exists>st1. reach_branch stack fn name bi nr st = Some st1 \<and>
    hits_are fn name (n * (1 + bri_highest_out bi)) (S \<union> out_hits bi previous nr \<union> {nr * (1 + bri_highest_out bi)}) st1 \<and>
    last_branch (length stack) st1 = Some (int nr)"
proof -
  let ?m = "n * (1 + bri_highest_out bi)"
  have st: "set_of_size n (bri_starts bi)" using ready by (simp add: ready_def)
  then have nr: "nr < n" using start by (auto simp: set_of_size_def elems_def xdebug_set_in_def split: if_splits)
  obtain v where v: "xdebug_set_in (bri_starts bi) nr = Some v" "v \<noteq> 0" using set_in_of_size [OF st] start by blast
  obtain s1 where s1: "mark_outs fn name bi previous nr st = Some s1" "hits_are fn name ?m (S \<union> out_hits bi previous nr) s1" "only_info st s1"
    using mark_outs_records [OF ready hits m previous(2)] by blast
  obtain s2 where s2: "visit_branch stack previous nr s1 = Some s2" "cov_info s2 = cov_info s1" "cov_good s2 = cov_good s1"
    "cov_branches s2 = cov_branches s1" using visit_branch_ends [OF entered_only_info [OF entered s1(3)]] by blast
  have "hits_are fn name ?m (S \<union> out_hits bi previous nr) s2" using s1(2) s2(2,3) by (simp add: hits_are_def file_at_def)
  moreover have "nr * (1 + bri_highest_out bi) < ?m" using hit_index [OF nr, of 0] by simp
  ultimately obtain s3 where s3: "on_runtime fn name (add_hit (nr * (1 + bri_highest_out bi))) s2 = Some s3"
    "hits_are fn name ?m (insert (nr * (1 + bri_highest_out bi)) (S \<union> out_hits bi previous nr)) s3" "only_info s2 s3"
    using add_hit_records m by blast
  have len: "length stack < length (cov_branches s3)"
    using entered only_info_fields(1) [OF s1(3)] only_info_fields(1) [OF s3(3)] s2(4) by (simp add: entered_def)
  let ?s4 = "s3\<lparr>cov_branches := (cov_branches s3)[length stack := int nr]\<rparr>"
  have "reach_branch stack fn name bi nr st = Some ?s4"
    using v previous(1) s1(1) s2(1) s3(1) len by (simp add: reach_branch_def put_last_branch_def)
  moreover have "hits_are fn name ?m (insert (nr * (1 + bri_highest_out bi)) (S \<union> out_hits bi previous nr)) ?s4"
    using s3(2) by (simp add: hits_are_def file_at_def)
  moreover have "last_branch (length stack) ?s4 = Some (int nr)" using len by (simp add: last_branch_def)
  ultimately show ?thesis by (auto simp: insert_commute)
qed

section \<open>Entering a function\<close>

text \<open>What a call needs for that is what entering it makes.\<close>

lemma start_of_function_enters:
  assumes "xdebug_code_coverage_start_of_function stack opa name st = Some st1" "stack \<noteq> []" "cov_visited_branches st1 \<noteq> None"
  shows "last_branch (length stack) st1 = Some (- 1)"
  using assms
  by (auto simp: xdebug_code_coverage_start_of_function_def Let_def Option.bind_eq_Some_conv put_last_branch_def last_branch_def
      split: if_splits)

section \<open>A second scan\<close>

lemma prefill_scanned: "snd (cov_reserved st (ca_id opa)) \<Longrightarrow> prefill_from_oparray opa st = Some st"
  by (simp add: prefill_from_oparray.simps skips_def)

end
