(* ===== verification/Xd_Cov_Errors.thy ===== *)
theory Xd_Cov_Errors
  imports Xd_Hits
begin

text \<open>
  Where recording goes wrong: after coverage was stopped and its results were forgotten, the paths of the frames that are
  still running are gone, and the next branch of such a frame is looked up in an array that is not there; and functions
  whose names are told apart only behind a NUL byte share one record.
\<close>

section \<open>Stopped and started again\<close>

lemma on_runtime_only_info: "on_runtime n name g st = Some st1 \<Longrightarrow> only_info st st1"
  by (auto simp: on_runtime_def Option.bind_eq_Some_conv only_info_def put_file_def)

lemma runtime_function_only_info: "runtime_function n name a st = Some st1 \<Longrightarrow> only_info st st1"
  by (auto simp: runtime_function_def Option.bind_eq_Some_conv only_info_def put_file_def split: option.splits)

lemma mark_outs_only_info:
  assumes "mark_outs n name bi previous nr st = Some st1"
  shows "only_info st st1"
proof (cases "previous = - 1")
  case True
  with assms show ?thesis by (simp add: mark_outs_def)
next
  case False
  define g where "g = (\<lambda>(i, out) s. if out = int nr
      then on_runtime n name (add_hit (nat previous * (1 + bri_highest_out bi) + i + 1)) s else Some s)"
  from False assms obtain outs where loop: "loop_over g outs st = Some st1"
    by (auto simp: mark_outs_def g_def Option.bind_eq_Some_conv)
  have "post (only_info st) (g io s)" if "only_info st s" for io s
    using that only_info_trans [OF that on_runtime_only_info] by (cases io) (auto simp: g_def post_def)
  then show ?thesis using postD [OF loop_over_post [of "only_info st" st outs g] loop] by simp
qed

lemma find_emptied: "chains_ok h \<Longrightarrow> xdebug_hash_find (xdebug_hash_empty h) k = None"
  by (simp add: find_str_map hash_empty_map)

lemma find_changed:
  assumes "chains_ok h" shows "xdebug_hash_find (hash_change g h) k = map_option g (xdebug_hash_find h k)"
proof -
  have s: "key_slot (h_slots h) (HStr k) < length (h_table h)"
    using assms key_slot_less [of "h_slots h" "HStr k"] by (simp add: chains_ok_def)
  have "map_of (map (\<lambda>(k, v). (k, g v)) c) j = map_option g (map_of c j)" for c j by (induction c) auto
  with s show ?thesis by (simp add: find_str_map hash_map_def hash_change_def)
qed

text \<open>What is left after stopping: no visited branch, and no paths.\<close>

definition forgotten :: "coverage \<Rightarrow> bool" where
  "forgotten st \<longleftrightarrow> (\<forall>visited k. cov_visited_branches st = Some visited \<longrightarrow> xdebug_hash_find visited k = None) \<and>
     (\<forall>level. level_slot level st = None)"

lemma forgotten_only_info: "forgotten st \<Longrightarrow> only_info st st1 \<Longrightarrow> forgotten st1"
  by (simp add: forgotten_def level_slot_def only_info_fields)

lemma forgotten_reach:
  assumes "forgotten st" "xdebug_set_in (bri_starts bi) nr = Some v" "v \<noteq> 0"
  shows "reach_branch stack fn name bi nr st = None"
proof -
  have "visit_branch stack previous nr st1 = None" if "mark_outs fn name bi previous nr st = Some st1" for previous st1
    using forgotten_only_info [OF assms(1) mark_outs_only_info [OF that]]
    by (auto simp: visit_branch_def forgotten_def Let_def split: Option.bind_splits)
  with assms(2,3) show ?thesis by (auto simp: reach_branch_def split: Option.bind_splits)
qed

lemma stop_forgets:
  assumes "xdebug_stop_code_coverage mode True st = Some (st1, True)"
    and "cov_visited_branches st = Some visited" "chains_ok visited" "cov_fiber_stacks st = Some fibers" "chains_ok fibers"
  shows "forgotten st1" "\<exists>info. cov_info st = Some info \<and> cov_info st1 = Some (hash_change scrub_runtime info)"
    "cov_previous_mark_filename st1 = None"
proof -
  from assms obtain s info where s: "forget_runs st = Some s" "st1 = s\<lparr>cov_active := False\<rparr>" "cov_info st = Some info"
    "s = st\<lparr>cov_info := Some (hash_change scrub_runtime info), cov_previous_filename := None, cov_previous_mark_filename := None,
            cov_visited_branches := Some (xdebug_hash_empty visited),
            cov_fiber_stacks := Some (hash_change (\<lambda>pa. the (xdebug_path_info_flush pa)) fibers)\<rparr>"
    and all: "list_all (\<lambda>(k, pa). xdebug_path_info_flush pa \<noteq> None) (hash_elements fibers)"
    by (auto simp: xdebug_stop_code_coverage_def forget_runs_def Option.bind_eq_Some_conv split: if_splits)
  show "\<exists>info. cov_info st = Some info \<and> cov_info st1 = Some (hash_change scrub_runtime info)" using s by simp
  show "cov_previous_mark_filename st1 = None" using s by simp
  have "pa_paths (the (xdebug_path_info_flush pa)) = []" if "xdebug_hash_find fibers k = Some pa" for k pa
  proof -
    let ?i = "key_slot (h_slots fibers) (HStr k)"
    have "?i < h_slots fibers" "length (h_table fibers) = h_slots fibers"
      using assms(5) key_slot_less by (auto simp: chains_ok_def)
    moreover have "(HStr k, pa) \<in> set (h_table fibers ! ?i)"
      using that by (simp add: find_str_map hash_map_def map_of_SomeD)
    ultimately have "(HStr k, pa) \<in> set (hash_elements fibers)" by (auto simp: hash_elements_def)
    with all have "xdebug_path_info_flush pa \<noteq> None" by (auto simp: list_all_iff)
    then show ?thesis by (auto simp: xdebug_path_info_flush_def split: if_splits)
  qed
  then have "level_slot level st1 = None" for level
    using s find_changed [OF assms(5)] by (auto simp: level_slot_def stack_paths_def split: Option.bind_splits)
  moreover have "xdebug_hash_find (xdebug_hash_empty visited) k = None" for k using find_emptied [OF assms(3)] .
  ultimately show "forgotten st1" using s by (simp add: forgotten_def)
qed

theorem restart_fails:
  assumes "xdebug_stop_code_coverage mode True st = Some (st1, True)"
    and "cov_visited_branches st = Some visited" "chains_ok visited" "cov_fiber_stacks st = Some fibers" "chains_ok fibers"
    and "cov_good st" "file_at st filename = Some f" "cf_has_branch_info f"
    and "xdebug_hash_find (cf_functions f) name = Some analysis" "af_branch_info analysis = Some bi"
    and "xdebug_set_in (bri_starts bi) opcode_nr = Some v" "v \<noteq> 0"
    and "opcode_nr = 0 \<or> xdebug_set_in (bri_entry_points bi) opcode_nr = Some 0"
  shows "xdebug_branch_info_mark_reached stack filename name opa opcode_nr (fst (xdebug_start_code_coverage mode options st1)) = None"
proof -
  let ?st = "fst (xdebug_start_code_coverage mode options st1)"
  have start: "cov_info ?st = cov_info st1" "cov_previous_mark_filename ?st = cov_previous_mark_filename st1" "forgotten ?st"
    using stop_forgets(1) [OF assms(1-5)]
    by (simp_all add: xdebug_start_code_coverage_def forgotten_def level_slot_def stack_paths_def)
  obtain info where info: "cov_info st = Some info" "cov_info st1 = Some (hash_change scrub_runtime info)"
    using stop_forgets(2) [OF assms(1-5)] by blast
  have ok: "hash_ok info" "chains_ok info" using assms(6) info(1) by (simp_all add: cov_good_def info_good_def hash_ok_def)
  have f: "xdebug_hash_find (hash_change scrub_runtime info) filename = Some (scrub_runtime f)"
    using find_changed [OF ok(2)] assms(7) info(1) by (simp add: file_at_def)
  let ?s = "?st\<lparr>cov_previous_mark_filename := Some (cf_name (scrub_runtime f))\<rparr>"
  have fetch: "fetch_mark_file filename ?st = Some (?s, True)"
    using start f info(2) stop_forgets(3) [OF assms(1-5)] by (simp add: fetch_mark_file_def)
  have at: "file_at ?s filename = Some (scrub_runtime f)" using start(1) info(2) f by (simp add: file_at_def)
  have "forgotten ?s" using start(3) by (simp add: forgotten_def level_slot_def stack_paths_def)
  then have "reach_branch stack filename name bi opcode_nr s2 = None" if "runtime_function filename name analysis ?s = Some s2" for s2
    using forgotten_reach [OF forgotten_only_info [OF _ runtime_function_only_info [OF that]] assms(11,12)] by blast
  with fetch at assms(8-10,13) show ?thesis
    by (auto simp: xdebug_branch_info_mark_reached_def scrub_runtime_def split: Option.bind_splits)
qed

section \<open>Names cut at a NUL byte\<close>

text \<open>The engine names an anonymous class by a text, a NUL byte and the place of the class.\<close>

theorem nul_in_class_name:
  assumes "ca_function_name opa = Some f" "\<not> ca_closure opa" "\<not> ca_trait_clone opa" "ca_scope opa = Some (visible @ NUL # hidden, False)"
    and "NUL \<notin> set visible" "length visible + length hidden + length f < 1021"
  shows "function_name_of opa st = Some (st, visible)"
proof -
  have "takeWhile (\<lambda>c. c \<noteq> NUL) (visible @ NUL # rest) = visible" for rest
    using assms(5) by (induction visible) auto
  with assms show ?thesis
    by (simp add: function_name_of_def xdebug_build_fname_from_oparray_def xdebug_func_format_def XFUNC_MEMBER_def XFUNC_NORMAL_def c_str_def)
qed

end
