(* ===== verification/Xd_Cov_Examples.thy ===== *)
theory Xd_Cov_Examples
  imports Xd_Cov_Errors "HOL-Library.Code_Target_Nat"
begin

text \<open>Concrete code and states for the examples of the root theory that are about code coverage.\<close>

definition op_of :: "zend_opcode \<Rightarrow> nat \<Rightarrow> zend_op" where
  "op_of c lineno = \<lparr>op_opcode = c, op_lineno = lineno, op_op1_jmp = 0, op_op2_jmp = 0, op_extended_value = 0, op_constant = No_constant\<rparr>"

text \<open>\<open>if ($a) { echo 1; return 1; } echo 2; return 2;\<close> and the return that the compiler adds.\<close>

definition branching :: cov_op_array where
  "branching =
     Cov_array 1 ''/app/a.php'' (Some ''f'') None False False False True True 1 7
       [(op_of ZEND_JMPZ 2)\<lparr>op_op2_jmp := 96\<rparr>, op_of (ZEND_OP ''ZEND_ECHO'') 3, op_of zend_opcode.ZEND_RETURN 4,
        op_of (ZEND_OP ''ZEND_ECHO'') 5, op_of zend_opcode.ZEND_RETURN 6, op_of zend_opcode.ZEND_RETURN 7] []"

definition no_filters :: base_filters where
  "no_filters = \<lparr>filter_type_code_coverage = 0, filters_code_coverage = [], filter_type_stack = 0, filters_stack = [],
     filter_type_tracing = 0, filters_tracing = []\<rparr>"

text \<open>All options are on, and nothing has been seen yet.\<close>

definition fresh_coverage :: coverage where
  "fresh_coverage =
     \<lparr>cov_active = True, cov_unused = True, cov_dead_code = True, cov_branch_check = True, cov_info = None,
      cov_previous_filename = None, cov_previous_mark_filename = None, cov_prefill_function_count = 0, cov_prefill_class_count = 0,
      cov_visited_branches = None, cov_fiber_stacks = None, cov_paths_stack = None, cov_branches = [],
      cov_reserved = (\<lambda>a. (False, False)), cov_traits = xdebug_hash_alloc 1 True, cov_filters = no_filters\<rparr>"

text \<open>A function \<open>g\<close> of the file \<open>f\<close> with one branch, entered at level 1 and not run yet.\<close>

definition zero_set :: xdebug_set where "zero_set = the (xdebug_set_add (the (xdebug_set_create 1)) 0)"

definition one_branch :: xdebug_branch_info where
  "one_branch =
     \<lparr>bri_size = 1, bri_entry_points = zero_set, bri_starts = zero_set, bri_ends = zero_set, bri_branches = [zero_branch],
      bri_highest_out = 0, bri_path_info = xdebug_path_info_ctor\<lparr>pa_path_hash := Some (xdebug_hash_alloc 1 False)\<rparr>\<rparr>"

definition one_function :: xdebug_coverage_file where
  "one_function =
     (xdebug_coverage_file_ctor ''f'')
       \<lparr>cf_functions := xdebug_hash_add (xdebug_hash_alloc 1 True) ''g'' \<lparr>af_name = ''g'', af_branch_info = Some one_branch\<rparr>,
        cf_hit_functions := xdebug_hash_add (xdebug_hash_alloc 1 True) ''g''
          \<lparr>rf_name = ''g'', rf_analysis = ''g'', rf_hit_paths = xdebug_hash_alloc 1 False, rf_hit_branch = the (xdebug_set_create 1)\<rparr>,
        cf_has_branch_info := True\<rparr>"

definition entered_once :: coverage where
  "entered_once =
     fresh_coverage
       \<lparr>cov_info := Some (xdebug_hash_add (xdebug_hash_alloc 1 True) ''f'' one_function),
        cov_visited_branches := Some (xdebug_hash_alloc 1 False),
        cov_fiber_stacks := Some (xdebug_hash_add (xdebug_hash_alloc 1 True) ''k''
          (xdebug_path_info_ctor\<lparr>pa_paths_size := 2, pa_paths := [Path_null, Path_at []]\<rparr>)),
        cov_paths_stack := Some ''k'', cov_branches := [- 1, - 1]\<rparr>"

lemma one_slot: "hash_ok (xdebug_hash_alloc (Suc 0) d)" "hash_map (xdebug_hash_alloc (Suc 0) d) = Map.empty"
  by simp_all

lemma entered_once_file: "file_at entered_once ''f'' = Some one_function"
  using one_slot [of True] by (simp add: file_at_def entered_once_def find_str_map add_str_map)

lemma entered_once_good: "cov_good entered_once"
proof -
  have "lines_good one_function" using file_ctor_good by (simp add: one_function_def)
  moreover have "cf_name one_function = ''f''" by (simp add: one_function_def xdebug_coverage_file_ctor_def)
  ultimately show ?thesis using one_slot [of True]
    by (auto simp: cov_good_def info_good_def known_def file_good_def entered_once_def fresh_coverage_def add_str_map split: if_splits)
qed

lemma zero_set_ok: "set_of_size 1 zero_set" "elems zero_set = {0}"
proof -
  obtain st where st: "xdebug_set_create 1 = Some st" "set_of_size 1 st" "elems st = {}" using set_create_of_size [of 1] by auto
  obtain st' where "xdebug_set_add st 0 = Some st'" "set_of_size 1 st'" "elems st' = {0}" using set_add_of_size [OF st(2), of 0] st(3) by auto
  with st(1) show "set_of_size 1 zero_set" "elems zero_set = {0}" by (simp_all add: zero_set_def)
qed

lemma one_branch_ready: "ready 1 one_branch" "bri_highest_out one_branch = 0" "bri_starts one_branch = zero_set"
  using zero_set_ok
  by (simp_all add: ready_def one_branch_def records_ok_def outs_ok_def branch_edges_def live_outs_def zero_branch_def)

lemma entered_once_hits: "hits_are ''f'' ''g'' 1 {} entered_once"
proof -
  obtain st where st: "xdebug_set_create 1 = Some st" "set_of_size 1 st" "elems st = {}" using set_create_of_size [of 1] by auto
  with entered_once_file entered_once_good one_slot [of True] show ?thesis
    unfolding hits_are_def by (auto simp: one_function_def find_str_map add_str_map hash_ok_def [THEN iffD1, THEN conjunct1])
qed

lemma entered_once_entered: "entered [1] entered_once" "last_branch 1 entered_once = Some (- 1)"
  using one_slot [of True]
  by (auto simp: entered_def entered_once_def level_slot_def stack_paths_def last_branch_def find_str_map add_str_map)

lemma one_slot_chains: "chains_ok (xdebug_hash_alloc (Suc 0) d)"
  using one_slot(1) [of d] unfolding hash_ok_def by blast

lemma entered_once_tables:
  "cov_visited_branches entered_once = Some (xdebug_hash_alloc 1 False)" "chains_ok (xdebug_hash_alloc 1 False)"
  "cov_fiber_stacks entered_once = Some (xdebug_hash_add (xdebug_hash_alloc 1 True) ''k''
     (xdebug_path_info_ctor\<lparr>pa_paths_size := 2, pa_paths := [Path_null, Path_at []]\<rparr>))"
  "chains_ok (xdebug_hash_add (xdebug_hash_alloc 1 True) ''k''
     (xdebug_path_info_ctor\<lparr>pa_paths_size := 2, pa_paths := [Path_null, Path_at []]\<rparr>))"
  using one_slot_chains add_chains(1) [OF one_slot_chains] by (simp_all add: entered_once_def)

lemma entered_once_stops: "\<exists>st1. xdebug_stop_code_coverage XDEBUG_MODE_COVERAGE True entered_once = Some (st1, True)"
proof -
  let ?pa = "xdebug_path_info_ctor\<lparr>pa_paths_size := 2, pa_paths := [Path_null, Path_at []]\<rparr>"
  have "(k, pa) \<in> set (hash_elements (xdebug_hash_add (xdebug_hash_alloc 1 True) ''k'' ?pa)) \<Longrightarrow> pa = ?pa" for k pa
    using in_hash_elements [OF add_str_map(1) [OF one_slot(1)], where k = k and v = pa] one_slot [of True]
    by (simp add: add_str_map split: if_splits)
  then have "list_all (\<lambda>(k, pa). xdebug_path_info_flush pa \<noteq> None)
      (hash_elements (xdebug_hash_add (xdebug_hash_alloc 1 True) ''k'' ?pa))"
    by (fastforce simp: list_all_iff xdebug_path_info_flush_def xdebug_path_info_ctor_def)
  then show ?thesis
    by (simp add: xdebug_stop_code_coverage_def XDEBUG_MODE_IS_def xdebug_modes forget_runs_def entered_once_def fresh_coverage_def)
qed

lemma branching_ok: "code_ok branching" "catches_ok branching"
  by code_simp+

text \<open>A request in which line 3 of a file ran.\<close>

lemma line_ran:
  "\<exists>st info f. cov_reached st \<and> cov_info st = Some info \<and> (HStr ''a.php'', f) \<in> set (hash_elements info)"
proof -
  obtain st0 where st0: "xdebug_coverage_rinit 5 fresh_coverage = Some st0" "cov_info st0 = Some (xdebug_hash_alloc 128 True)"
    "cov_previous_filename st0 = None" "cov_reserved st0 = (\<lambda>a. (False, False))"
    by (simp add: xdebug_coverage_rinit_def create_path_info_for_fiber_def fresh_coverage_def Let_def)
  let ?st1 = "fst (xdebug_start_code_coverage XDEBUG_MODE_COVERAGE 7 st0)"
  have st1: "cov_info ?st1 = Some (xdebug_hash_alloc 128 True)" "cov_previous_filename ?st1 = None" "cov_active ?st1"
    "cov_reserved ?st1 = (\<lambda>a. (False, False))"
    using st0 by (simp_all add: xdebug_start_code_coverage_def XDEBUG_MODE_IS_def XDEBUG_MODE_COVERAGE_def)
  let ?h = "xdebug_hash_add (xdebug_hash_alloc 128 True) ''a.php'' (xdebug_coverage_file_ctor ''a.php'')"
  let ?s = "?st1\<lparr>cov_info := Some ?h, cov_previous_filename := Some ''a.php''\<rparr>"
  have h: "hash_ok ?h" "hash_map ?h (HStr ''a.php'') = Some (xdebug_coverage_file_ctor ''a.php'')" by (simp_all add: add_str_map)
  have fetch: "fetch_file ''a.php'' ?st1 = Some ?s" using st1(1,2) by (simp add: fetch_file_def find_str_map)
  have "file_at ?s ''a.php'' = Some (xdebug_coverage_file_ctor ''a.php'')" using h(2) by (simp add: file_at_def find_str_map)
  moreover obtain m where "xdebug_mset_add (cf_hit_lines (xdebug_coverage_file_ctor ''a.php'')) 3 COV_BIT_HIT = Some m"
    using xdebug_mset_add_ok [of xdebug_mset_create 3 COV_BIT_HIT]
    by (auto simp: xdebug_coverage_file_ctor_def mset_ok_def xdebug_mset_create_def COV_BIT_HIT_def)
  ultimately have "xdebug_count_line ''a.php'' 3 ?st1 =
      Some (put_file ''a.php'' ((xdebug_coverage_file_ctor ''a.php'')\<lparr>cf_hit_lines := m\<rparr>) ?s)" (is "_ = Some ?st2")
    using fetch by (simp add: xdebug_count_line_def)
  then have "xdebug_coverage_count_line_if_active branching ''a.php'' 3 ?st1 = Some ?st2"
    using st1(3,4) by (simp add: xdebug_coverage_count_line_if_active_def is_filtered_def)
  from cov_reached.statement [OF cov_reached.start [OF cov_reached.rinit [OF st0(1)]] this] have "cov_reached ?st2" .
  moreover have "cov_info ?st2 = Some (hash_poke ?h ''a.php'' ((xdebug_coverage_file_ctor ''a.php'')\<lparr>cf_hit_lines := m\<rparr>))"
    by (simp add: put_file_def)
  moreover have "(HStr ''a.php'', (xdebug_coverage_file_ctor ''a.php'')\<lparr>cf_hit_lines := m\<rparr>) \<in>
      set (hash_elements (hash_poke ?h ''a.php'' ((xdebug_coverage_file_ctor ''a.php'')\<lparr>cf_hit_lines := m\<rparr>)))"
    using in_hash_elements [OF poke_map(1) [OF h(1)]] poke_map(2) [OF h(1)] by simp
  ultimately show ?thesis by blast
qed

end
