(* ===== verification/Xd_Frame.thy ===== *)
theory Xd_Frame
  imports Xd_Dbgp_Cmds "HOL-Library.Monad_Syntax"
begin

text \<open>
  The function of a stack frame and how its name is shown: \<open>xdebug_func\<close> of \<open>src/lib/lib.h\<close>, \<open>xdebug_show_fname\<close> of
  \<open>src/lib/var.c\<close> with all its flags, which \<open>Xd_Dbgp_Cmds\<close> has for the debugger only.  A string of the engine may hold NUL bytes; \<open>%s\<close> stops at the first.  \<open>None\<close> is an access through
  a null pointer.
\<close>


record xdebug_func =
  fn_object_class :: "string option"
  fn_scope_class :: "string option"
  fn_function :: "string option"
  fn_include_filename :: "string option"
  fn_type :: int
  fn_internal :: bool

definition XDEBUG_SHOW_FNAME_DEFAULT :: nat where "XDEBUG_SHOW_FNAME_DEFAULT = 0"
definition XDEBUG_SHOW_FNAME_ALLOW_HTML :: nat where "XDEBUG_SHOW_FNAME_ALLOW_HTML = 2"
definition XDEBUG_SHOW_FNAME_IGNORE_SCOPE :: nat where "XDEBUG_SHOW_FNAME_IGNORE_SCOPE = 4"
definition XDEBUG_SHOW_FNAME_ADD_FILE_NAME :: nat where "XDEBUG_SHOW_FNAME_ADD_FILE_NAME = 8"

text \<open>The settings of PHP about links to its manual.\<close>

record html_settings =
  hs_html_errors :: bool
  hs_docref_root :: "string option"
  hs_docref_ext :: string

definition xdebug_create_doc_link :: "html_settings \<Rightarrow> xdebug_func \<Rightarrow> string option" where
  "xdebug_create_doc_link hs f =
     do { function \<leftarrow> fn_function f;
          target \<leftarrow> (if fn_type f = XFUNC_NORMAL then Some (''function.'' @ c_str function)
                     else do { cls \<leftarrow> fn_object_class f;
                               Some (c_str cls @ (if function = ''__construct'' then ''.construct'' else ''.'' @ c_str function)) });
          let root = (case hs_docref_root hs of Some r \<Rightarrow> if r \<noteq> [] then r else ''http://www.php.net/'' | None \<Rightarrow> ''http://www.php.net/'');
          Some (''<a href='' @ [CHR 0x27] @ root @ map (\<lambda>c. if c = CHR ''_'' then CHR ''-'' else c) target @ hs_docref_ext hs @
                [CHR 0x27] @ '' target='' @ [CHR 0x27] @ ''_new'' @ [CHR 0x27] @ ''>'' @ c_str function @ ''</a>'') }"

definition show_include :: "string \<Rightarrow> xdebug_func \<Rightarrow> nat \<Rightarrow> string option" where
  "show_include name f flags =
     (if and flags XDEBUG_SHOW_FNAME_ADD_FILE_NAME \<noteq> 0
      then map_option (\<lambda>file_name. ''{'' @ name @ '':'' @ c_str file_name @ ''}'') (fn_include_filename f) else Some name)"

definition show_member :: "xdebug_func \<Rightarrow> nat \<Rightarrow> string" where
  "show_member f flags =
     (case fn_scope_class f of
        Some c \<Rightarrow> if and flags XDEBUG_SHOW_FNAME_IGNORE_SCOPE = 0 then c_str c
                  else (case fn_object_class f of Some oc \<Rightarrow> c_str oc | None \<Rightarrow> ''?'')
      | None \<Rightarrow> (case fn_object_class f of Some oc \<Rightarrow> c_str oc | None \<Rightarrow> ''?'')) @
     (if fn_type f = XFUNC_STATIC_MEMBER then ''::'' else ''->'') @
     (case fn_function f of Some m \<Rightarrow> c_str m | None \<Rightarrow> ''?'')"

definition show_fname_flags :: "html_settings \<Rightarrow> xdebug_func \<Rightarrow> nat \<Rightarrow> string option" where
  "show_fname_flags hs f flags =
     (let link = hs_html_errors hs \<and> and flags XDEBUG_SHOW_FNAME_ALLOW_HTML \<noteq> 0 \<and> fn_internal f; t = fn_type f in
      if t = XFUNC_NORMAL then (if link then xdebug_create_doc_link hs f else map_option c_str (fn_function f))
      else if t = XFUNC_STATIC_MEMBER \<or> t = XFUNC_MEMBER
      then (if link then xdebug_create_doc_link hs f else Some (show_member f flags))
      else if t = XFUNC_EVAL then Some ''eval''
      else if t = XFUNC_INCLUDE then show_include ''include'' f flags
      else if t = XFUNC_INCLUDE_ONCE then show_include ''include_once'' f flags
      else if t = XFUNC_REQUIRE then show_include ''require'' f flags
      else if t = XFUNC_REQUIRE_ONCE then show_include ''require_once'' f flags
      else if t = XFUNC_MAIN then Some ''{main}''
      else if t = XFUNC_ZEND_PASS then Some ''{zend_pass}''
      else if t = XFUNC_FIBER then map_option c_str (fn_function f)
      else Some ''{unknown}'')"

text \<open>For plain text it is the function of the debugger.\<close>

definition func_of :: "bool \<Rightarrow> function_stack_entry \<Rightarrow> xdebug_func" where
  "func_of internal fse =
     \<lparr>fn_object_class = fse_object_class fse, fn_scope_class = fse_scope_class fse, fn_function = fse_function fse,
      fn_include_filename = fse_include_filename fse, fn_type = fse_type fse, fn_internal = internal\<rparr>"

lemma show_fname_plain:
  assumes "\<not> hs_html_errors hs \<or> and flags XDEBUG_SHOW_FNAME_ALLOW_HTML = 0 \<or> \<not> internal"
  shows "show_fname_flags hs (func_of internal fse) flags =
    xdebug_show_fname (and flags XDEBUG_SHOW_FNAME_IGNORE_SCOPE \<noteq> 0) (and flags XDEBUG_SHOW_FNAME_ADD_FILE_NAME \<noteq> 0) fse"
proof -
  have link: "(hs_html_errors hs \<and> and flags XDEBUG_SHOW_FNAME_ALLOW_HTML \<noteq> 0 \<and> internal) = False" using assms by (simp; blast)
  have "show_member (func_of internal fse) flags =
      (case fse_scope_class fse of
         Some sc \<Rightarrow> if and flags XDEBUG_SHOW_FNAME_IGNORE_SCOPE \<noteq> 0 then case fse_object_class fse of Some x \<Rightarrow> c_str x | None \<Rightarrow> ''?''
                    else c_str sc
       | None \<Rightarrow> case fse_object_class fse of Some x \<Rightarrow> c_str x | None \<Rightarrow> ''?'') @
      (if fse_type fse = XFUNC_STATIC_MEMBER then ''::'' else ''->'') @ (case fse_function fse of Some x \<Rightarrow> c_str x | None \<Rightarrow> ''?'')"
    by (simp add: show_member_def func_of_def split: option.split)
  moreover have "show_include what (func_of internal fse) flags = include_name (and flags XDEBUG_SHOW_FNAME_ADD_FILE_NAME \<noteq> 0) what fse" for what
    by (simp add: show_include_def include_name_def func_of_def)
  ultimately show ?thesis
    unfolding show_fname_flags_def xdebug_show_fname_def Let_def by (simp only: func_of_def xdebug_func.simps link if_False)
qed

section \<open>Names are C strings\<close>

lemma is_cstr_append [simp]: "is_cstr (a @ b) \<longleftrightarrow> is_cstr a \<and> is_cstr b"
  by (auto simp: is_cstr_def)

end
