(* ===== verification/Xd_Profiler.thy ===== *)
theory Xd_Profiler
  imports Xd_Frame Xd_Hash Xd_Format Xd_Mode "HOL-Library.Word"
begin

text \<open>
  The profiler, \<open>src/profiler/profiler.c\<close>.  A frame of the stack is known by its index; the readings of the clock
  and of the memory in use are inputs, counted by \<open>prf_tick\<close>.  Times are words of 64 bits as in the code; memory, a
  \<open>long\<close> there, is kept as a word and read as a signed number.  What is written to the file is kept as one text.
  \<open>None\<close> is an access through a null pointer or outside an array.
\<close>

record xdebug_call_entry =
  ce_user_defined :: bool
  ce_filename :: string
  ce_function :: string
  ce_lineno :: int
  ce_nanotime_taken :: "64 word"
  ce_mem_used :: "64 word"

text \<open>Of the compiled code of a frame: its first line and its file.\<close>

record profile_code =
  pc_line_start :: int
  pc_filename :: "string option"

record profile_frame =
  fr_function :: xdebug_func
  fr_user_defined :: bool
  fr_lineno :: int
  fr_filename :: "string option"
  pr_nanotime :: "64 word"
  pr_nanotime_mark :: "64 word"
  pr_memory :: "64 word"
  pr_mem_mark :: "64 word"
  pr_call_list :: "xdebug_call_entry list option"
  pr_lineno :: int
  pr_filename :: "string option"
  pr_function :: "string option"

record profiler =
  prf_active :: bool
  prf_start_nanotime :: "64 word"
  prf_file_name :: "string option"
  prf_filename_refs :: "string xdebug_hash option"
  prf_last_filename_ref :: int
  prf_internal_seen :: bool
  prf_functionname_refs :: "string xdebug_hash option"
  prf_last_functionname_ref :: int
  prf_header :: "string option"
  prf_output :: string
  prf_stack :: "profile_frame list"
  prf_clock :: "nat \<Rightarrow> 64 word"
  prf_memory_use :: "nat \<Rightarrow> 64 word"
  prf_tick :: nat

record profiler_settings =
  ps_output_dir :: "string option"
  ps_output_name :: string
  ps_append :: bool
  ps_version :: string
  ps_php_version :: string
  ps_headers_sent :: bool
  ps_peak_memory :: "64 word"

definition xdebug_get_nanotime :: "profiler \<Rightarrow> 64 word \<times> profiler" where
  "xdebug_get_nanotime st = (prf_clock st (prf_tick st), st\<lparr>prf_tick := prf_tick st + 1\<rparr>)"

definition memory_usage :: "profiler \<Rightarrow> 64 word \<times> profiler" where
  "memory_usage st = (prf_memory_use st (prf_tick st), st\<lparr>prf_tick := prf_tick st + 1\<rparr>)"

definition frame_at :: "profiler \<Rightarrow> nat \<Rightarrow> profile_frame option" where
  "frame_at st i = (if i < length (prf_stack st) then Some (prf_stack st ! i) else None)"

definition put_frame :: "nat \<Rightarrow> profile_frame \<Rightarrow> profiler \<Rightarrow> profiler" where
  "put_frame i fse st = st\<lparr>prf_stack := (prf_stack st)[i := fse]\<rparr>"

definition file_printf :: "string \<Rightarrow> profiler \<Rightarrow> profiler" where
  "file_printf text st = (if prf_file_name st = None then st else st\<lparr>prf_output := prf_output st @ text\<rparr>)"

section \<open>The life of a profile\<close>

definition xdebug_init_profiler_globals :: "profiler \<Rightarrow> profiler" where
  "xdebug_init_profiler_globals xg = xg\<lparr>prf_active := False\<rparr>"

definition xdebug_profiler_rinit :: "profiler \<Rightarrow> profiler" where
  "xdebug_profiler_rinit st =
     st\<lparr>prf_file_name := None, prf_filename_refs := None, prf_functionname_refs := None, prf_last_filename_ref := 0,
        prf_internal_seen := False, prf_last_functionname_ref := 0, prf_active := False\<rparr>"

definition profiler_write_header :: "profiler_settings \<Rightarrow> string \<Rightarrow> profiler \<Rightarrow> profiler" where
  "profiler_write_header ps script_name st =
     file_printf ((if ps_append ps then [NEWLINE] @ ''==== NEW PROFILING FILE =============================================='' @ [NEWLINE] else []) @
                  ''version: 1'' @ [NEWLINE] @ ''creator: xdebug '' @ ps_version ps @ '' (PHP '' @ ps_php_version ps @ '')'' @ [NEWLINE] @
                  ''cmd: '' @ script_name @ [NEWLINE] @ ''part: 1'' @ [NEWLINE] @ ''positions: line'' @ [NEWLINE, NEWLINE] @
                  ''events: Time_(10ns) Memory_(bytes)'' @ [NEWLINE, NEWLINE]) st"

definition NANOTIME_SCALE_10NS :: "64 word \<Rightarrow> 64 word" where
  "NANOTIME_SCALE_10NS nanotime = (nanotime + 5) div 10"

text \<open>The result of \<open>xdebug_lib_get_output_dir\<close>: null for a setting that is not there or empty.\<close>

definition xdebug_lib_get_output_dir :: "profiler_settings \<Rightarrow> string option" where
  "xdebug_lib_get_output_dir ps = (case ps_output_dir ps of Some d \<Rightarrow> if d = [] then None else Some d | None \<Rightarrow> None)"

definition joined_path :: "string \<Rightarrow> string \<Rightarrow> string" where
  "joined_path output_dir fname = (if last output_dir = SLASH then output_dir @ fname else output_dir @ [SLASH] @ fname)"

text \<open>\<open>opens\<close> says which files can be opened.\<close>

definition xdebug_profiler_init :: "profiler_settings \<Rightarrow> output_env \<Rightarrow> (string \<Rightarrow> bool) \<Rightarrow> string \<Rightarrow> profiler \<Rightarrow> profiler option" where
  "xdebug_profiler_init ps env opens script_name st =
     (if prf_active st then Some st
      else if ps_output_name ps = [] \<or> xdebug_format_output_filename env (ps_output_name ps) (Some script_name) = [] then Some st
      else do {
        output_dir \<leftarrow> xdebug_lib_get_output_dir ps;
        let filename = joined_path output_dir (xdebug_format_output_filename env (ps_output_name ps) (Some script_name));
        if \<not> opens filename then Some st
        else do {
          let st1 = profiler_write_header ps script_name (st\<lparr>prf_file_name := Some filename\<rparr>);
          let st2 = (if ps_headers_sent ps then st1 else st1\<lparr>prf_header := Some (''X-Xdebug-Profile-Filename: '' @ filename)\<rparr>);
          let (now, st3) = xdebug_get_nanotime st2;
          Some (st3\<lparr>prf_start_nanotime := now, prf_active := True, prf_filename_refs := Some (xdebug_hash_alloc 128 True),
                    prf_functionname_refs := Some (xdebug_hash_alloc 128 True), prf_last_filename_ref := 1,
                    prf_last_functionname_ref := 0\<rparr>) } })"

definition xdebug_profiler_init_if_requested ::
    "lib_env \<Rightarrow> lib_globals \<Rightarrow> bool \<Rightarrow> profiler_settings \<Rightarrow> output_env \<Rightarrow> (string \<Rightarrow> bool) \<Rightarrow> string \<Rightarrow> profiler \<Rightarrow> profiler option" where
  "xdebug_profiler_init_if_requested lenv lib in_shutdown ps env opens filename st =
     (if prf_active st \<or> in_shutdown then Some st
      else do {
        triggered \<leftarrow> (if xdebug_lib_start_with_request lib XDEBUG_MODE_PROFILING then Some True
                      else map_option fst (xdebug_lib_start_with_trigger lenv lib XDEBUG_MODE_PROFILING));
        if triggered then xdebug_profiler_init ps env opens filename st else Some st })"

section \<open>Names\<close>

text \<open>A name is written once, after its number; from then on the number stands for it.\<close>

definition name_ref :: "string xdebug_hash \<Rightarrow> int \<Rightarrow> string \<Rightarrow> string \<times> string xdebug_hash \<times> int" where
  "name_ref refs last_ref name =
     (case xdebug_hash_find refs name of
        Some r \<Rightarrow> (r, refs, last_ref)
      | None \<Rightarrow> (let n = to_int32 (last_ref + 1); r = ''('' @ dec_int n @ '')'' in (r @ '' '' @ name, xdebug_hash_add refs name r, n)))"

definition add_filename_ref :: "string \<Rightarrow> profiler \<Rightarrow> (string \<times> profiler) option" where
  "add_filename_ref name st =
     map_option (\<lambda>refs. case name_ref refs (prf_last_filename_ref st) (c_str name) of
                   (text, refs1, n) \<Rightarrow> (text, st\<lparr>prf_filename_refs := Some refs1, prf_last_filename_ref := n\<rparr>))
       (prf_filename_refs st)"

definition add_functionname_ref :: "string \<Rightarrow> profiler \<Rightarrow> (string \<times> profiler) option" where
  "add_functionname_ref name st =
     map_option (\<lambda>refs. case name_ref refs (prf_last_functionname_ref st) (c_str name) of
                   (text, refs1, n) \<Rightarrow> (text, st\<lparr>prf_functionname_refs := Some refs1, prf_last_functionname_ref := n\<rparr>))
       (prf_functionname_refs st)"

definition is_include :: "xdebug_func \<Rightarrow> bool" where
  "is_include f \<longleftrightarrow> fn_type f = XFUNC_INCLUDE \<or> fn_type f = XFUNC_INCLUDE_ONCE \<or> fn_type f = XFUNC_REQUIRE \<or> fn_type f = XFUNC_REQUIRE_ONCE"

definition at_least_line_1 :: "int \<Rightarrow> int" where
  "at_least_line_1 lineno = (if lineno = 0 then 1 else lineno)"

definition xdebug_profiler_add_function_details_user ::
    "html_settings \<Rightarrow> nat \<Rightarrow> profile_code option \<Rightarrow> profiler \<Rightarrow> profiler option" where
  "xdebug_profiler_add_function_details_user hs i op_array st =
     do { fse \<leftarrow> frame_at st i;
          name \<leftarrow> show_fname_flags hs (fr_function fse) XDEBUG_SHOW_FNAME_DEFAULT;
          (full_name, lineno) \<leftarrow>
            (if is_include (fr_function fse)
             then map_option (\<lambda>file_name. (name @ ''::'' @ c_str file_name, 1)) (fn_include_filename (fr_function fse))
             else Some (name, case op_array of Some code \<Rightarrow> pc_line_start code | None \<Rightarrow> fr_lineno fse));
          filename \<leftarrow> (case Option.bind op_array pc_filename of Some file_name \<Rightarrow> Some file_name | None \<Rightarrow> fr_filename fse);
          Some (put_frame i (fse\<lparr>pr_lineno := at_least_line_1 lineno, pr_filename := Some filename, pr_function := Some full_name\<rparr>) st) }"

text \<open>For an include, a pointer to a string of the engine is given to \<open>%s\<close>: what that reads is not text.\<close>

definition xdebug_profiler_add_function_details_internal :: "html_settings \<Rightarrow> nat \<Rightarrow> profiler \<Rightarrow> profiler option" where
  "xdebug_profiler_add_function_details_internal hs i st =
     do { fse \<leftarrow> frame_at st i;
          name \<leftarrow> show_fname_flags hs (fr_function fse) XDEBUG_SHOW_FNAME_DEFAULT;
          (if is_include (fr_function fse) then None
           else do {
             filename \<leftarrow> fr_filename fse;
             Some (put_frame i (fse\<lparr>pr_lineno := at_least_line_1 (fr_lineno fse), pr_filename := Some filename,
                                    pr_function := Some name\<rparr>) st) }) }"

section \<open>Functions that begin and end\<close>

definition xdebug_profiler_function_begin :: "nat \<Rightarrow> profiler \<Rightarrow> profiler option" where
  "xdebug_profiler_function_begin i st =
     do { fse \<leftarrow> frame_at st i;
          let (now, st1) = xdebug_get_nanotime st;
          let (mem, st2) = memory_usage st1;
          Some (put_frame i (fse\<lparr>pr_nanotime := 0, pr_nanotime_mark := now, pr_memory := 0, pr_mem_mark := mem\<rparr>) st2) }"

definition xdebug_profiler_function_push :: "nat \<Rightarrow> profiler \<Rightarrow> profiler option" where
  "xdebug_profiler_function_push i st =
     do { fse \<leftarrow> frame_at st i;
          let (now, st1) = xdebug_get_nanotime st;
          let (mem, st2) = memory_usage st1;
          Some (put_frame i (fse\<lparr>pr_nanotime := pr_nanotime fse + (now - pr_nanotime_mark fse), pr_nanotime_mark := 0,
                                 pr_memory := pr_memory fse + (mem - pr_mem_mark fse), pr_mem_mark := 0\<rparr>) st2) }"

definition xdebug_profiler_function_continue :: "nat \<Rightarrow> profiler \<Rightarrow> profiler option" where
  "xdebug_profiler_function_continue i st =
     do { fse \<leftarrow> frame_at st i;
          let (now, st1) = xdebug_get_nanotime st;
          Some (put_frame i (fse\<lparr>pr_nanotime_mark := now\<rparr>) st1) }"

definition xdebug_profiler_function_pause :: "nat \<Rightarrow> profiler \<Rightarrow> profiler option" where
  "xdebug_profiler_function_pause i st = xdebug_profiler_function_push i st"

text \<open>The key of an internal function is put together in a buffer of 1024 bytes.\<close>

definition TMP_KEY_BUFFER_LEN :: nat where "TMP_KEY_BUFFER_LEN = 1024"
definition TMP_KEY_PREFIX :: string where "TMP_KEY_PREFIX = ''php::''"
definition TMP_KEY_MAX_LEN :: nat where "TMP_KEY_MAX_LEN = TMP_KEY_BUFFER_LEN - length TMP_KEY_PREFIX - 1"

definition internal_key :: "string \<Rightarrow> string" where
  "internal_key function = TMP_KEY_PREFIX @ (if length function > TMP_KEY_MAX_LEN then take TMP_KEY_MAX_LEN function else function)"

text \<open>The lines that say where: for a called function with \<open>c\<close> in front of \<open>fl\<close> and \<open>fn\<close>.\<close>

definition function_place :: "string \<Rightarrow> bool \<Rightarrow> string \<Rightarrow> string \<Rightarrow> profiler \<Rightarrow> (string \<times> profiler) option" where
  "function_place prefix user_defined filename function st =
     (if \<not> user_defined
      then do {
        let fl = (if prf_internal_seen st then prefix @ ''fl=(1)'' @ [NEWLINE] else prefix @ ''fl=(1) php:internal'' @ [NEWLINE]);
        (fname, st1) \<leftarrow> add_functionname_ref (internal_key function) (st\<lparr>prf_internal_seen := True\<rparr>);
        Some (fl @ prefix @ ''fn='' @ fname @ [NEWLINE], st1) }
      else do {
        (file_name, st1) \<leftarrow> add_filename_ref filename st;
        (fname, st2) \<leftarrow> add_functionname_ref function st1;
        Some (prefix @ ''fl='' @ file_name @ [NEWLINE] @ prefix @ ''fn='' @ fname @ [NEWLINE], st2) })"

definition cost_line :: "int \<Rightarrow> 64 word \<Rightarrow> 64 word \<Rightarrow> string" where
  "cost_line lineno nanotime mem =
     dec (unat (word_of_int lineno :: 64 word)) @ '' '' @ dec (unat (NANOTIME_SCALE_10NS nanotime)) @ '' '' @
     dec (unat (if sint mem \<ge> 0 then mem else 0)) @ [NEWLINE]"

definition called_place :: "xdebug_call_entry \<Rightarrow> string \<times> profiler \<Rightarrow> (string \<times> profiler) option" where
  "called_place ce buf =
     map_option (\<lambda>(text, st). (fst buf @ text @ ''calls=1 0 0'' @ [NEWLINE] @ cost_line (ce_lineno ce) (ce_nanotime_taken ce) (ce_mem_used ce), st))
       (function_place ''c'' (ce_user_defined ce) (ce_filename ce) (ce_function ce) (snd buf))"

definition new_call_list :: "nat \<Rightarrow> profiler \<Rightarrow> profiler" where
  "new_call_list i st =
     (case frame_at st i of
        Some fse \<Rightarrow> (if pr_call_list fse = None then put_frame i (fse\<lparr>pr_call_list := Some []\<rparr>) st else st)
      | None \<Rightarrow> st)"

text \<open>The caller is told of the call; the frame below the first one of a stack is not valid.\<close>

definition tell_caller :: "nat \<Rightarrow> profiler \<Rightarrow> profiler option" where
  "tell_caller i st =
     (if i = 0 then Some st
      else do {
        fse \<leftarrow> frame_at st i;
        caller \<leftarrow> frame_at st (i - 1);
        filename \<leftarrow> pr_filename fse;
        function \<leftarrow> pr_function fse;
        calls \<leftarrow> pr_call_list caller;
        Some (put_frame (i - 1)
               (caller\<lparr>pr_call_list := Some (calls @ [\<lparr>ce_user_defined = fr_user_defined fse, ce_filename = filename,
                         ce_function = function, ce_lineno = fr_lineno fse, ce_nanotime_taken = pr_nanotime fse,
                         ce_mem_used = pr_memory fse\<rparr>])\<rparr>) st) })"

text \<open>The time and memory of the called functions do not count for the caller.\<close>

definition without_calls :: "xdebug_call_entry list \<Rightarrow> profile_frame \<Rightarrow> profile_frame" where
  "without_calls calls fse =
     fse\<lparr>pr_nanotime := pr_nanotime fse - sum_list (map ce_nanotime_taken calls),
         pr_memory := pr_memory fse - sum_list (map ce_mem_used calls)\<rparr>"

definition xdebug_profiler_function_end :: "nat \<Rightarrow> profiler \<Rightarrow> profiler option" where
  "xdebug_profiler_function_end i st =
     (if \<not> prf_active st then Some st
      else do {
        st1 \<leftarrow> xdebug_profiler_function_push i (new_call_list i (if i = 0 then st else new_call_list (i - 1) st));
        st2 \<leftarrow> tell_caller i st1;
        fse \<leftarrow> frame_at st2 i;
        function \<leftarrow> pr_function fse;
        filename \<leftarrow> (if fr_user_defined fse then pr_filename fse else Some []);
        calls \<leftarrow> pr_call_list fse;
        (place, st3) \<leftarrow> function_place [] (fr_user_defined fse) filename function st2;
        let own = without_calls calls fse;
        (text, st4) \<leftarrow> loop_over called_place calls
          (place @ cost_line (pr_lineno own) (pr_nanotime own) (pr_memory own), put_frame i own st3);
        Some (file_printf (text @ [NEWLINE]) st4) })"

definition xdebug_profiler_free_function_details :: "nat \<Rightarrow> profiler \<Rightarrow> profiler option" where
  "xdebug_profiler_free_function_details i st =
     do { fse \<leftarrow> frame_at st i; Some (put_frame i (fse\<lparr>pr_function := None, pr_filename := None\<rparr>) st) }"

text \<open>Every function on the stack ends, the innermost first.\<close>

definition xdebug_profiler_deinit :: "profiler_settings \<Rightarrow> profiler \<Rightarrow> profiler option" where
  "xdebug_profiler_deinit ps st =
     do { st1 \<leftarrow> loop_over xdebug_profiler_function_end (rev [0..<length (prf_stack st)]) st;
          let (now, st2) = xdebug_get_nanotime st1;
          let st3 = file_printf (''summary: '' @ dec (unat (NANOTIME_SCALE_10NS (now - prf_start_nanotime st2))) @ '' '' @
                      dec_int (sint (ps_peak_memory ps)) @ [NEWLINE, NEWLINE]) st2;
          Some (st3\<lparr>prf_active := False, prf_file_name := None, prf_filename_refs := None, prf_functionname_refs := None\<rparr>) }"

definition deinit_if_active :: "profiler_settings \<Rightarrow> profiler \<Rightarrow> profiler option" where
  "deinit_if_active ps st = (if \<not> prf_active st then Some st else xdebug_profiler_deinit ps st)"

definition xdebug_profiler_post_deactivate :: "profiler_settings \<Rightarrow> profiler \<Rightarrow> profiler option" where
  "xdebug_profiler_post_deactivate ps st = deinit_if_active ps st"

definition xdebug_profiler_pcntl_exec_handler :: "profiler_settings \<Rightarrow> profiler \<Rightarrow> profiler option" where
  "xdebug_profiler_pcntl_exec_handler ps st = deinit_if_active ps st"

definition xdebug_profiler_exit_function_handler :: "profiler_settings \<Rightarrow> profiler \<Rightarrow> profiler option" where
  "xdebug_profiler_exit_function_handler ps st =
     do { st1 \<leftarrow> deinit_if_active ps st;
          if prf_stack st = [] then None else xdebug_profiler_free_function_details (length (prf_stack st) - 1) st1 }"

section \<open>Calls\<close>

definition xdebug_profiler_execute_ex :: "html_settings \<Rightarrow> nat \<Rightarrow> profile_code option \<Rightarrow> profiler \<Rightarrow> profiler option" where
  "xdebug_profiler_execute_ex hs i op_array st =
     (if \<not> prf_active st then Some st
      else Option.bind (xdebug_profiler_add_function_details_user hs i op_array st) (xdebug_profiler_function_begin i))"

definition xdebug_profiler_execute_ex_end :: "nat \<Rightarrow> profiler \<Rightarrow> profiler option" where
  "xdebug_profiler_execute_ex_end i st =
     Option.bind (xdebug_profiler_function_end i st) (xdebug_profiler_free_function_details i)"

definition xdebug_profiler_execute_internal :: "html_settings \<Rightarrow> nat \<Rightarrow> profiler \<Rightarrow> profiler option" where
  "xdebug_profiler_execute_internal hs i st =
     (if \<not> prf_active st then Some st
      else Option.bind (xdebug_profiler_add_function_details_internal hs i st) (xdebug_profiler_function_begin i))"

definition xdebug_profiler_execute_internal_end :: "nat \<Rightarrow> profiler \<Rightarrow> profiler option" where
  "xdebug_profiler_execute_internal_end i st =
     (if \<not> prf_active st then Some st
      else Option.bind (xdebug_profiler_function_end i st) (xdebug_profiler_free_function_details i))"

definition xdebug_get_profiler_filename :: "profiler \<Rightarrow> string option" where
  "xdebug_get_profiler_filename st = (if \<not> prf_active st then None else prf_file_name st)"

end
