(* ===== verification/Xd_Profile_Spec.thy ===== *)
theory Xd_Profile_Spec
  imports Xd_Profiler
begin

text \<open>
  What a reader of a profile gets: a name stands for its number from its first use on, files and functions are
  counted apart.  Reading what the profiler wrote for any sequence of calls, returns and a finish gives the files,
  functions and costs of the frames that ended.
\<close>

datatype profile_item = In_file string | In_function string | Calls_file string | Calls_function string | Other_line string

fun lines_of :: "string \<Rightarrow> string \<Rightarrow> string list" where
  "lines_of line [] = []"
| "lines_of line (c # text) = (if c = NEWLINE then line # lines_of [] text else lines_of (line @ [c]) text)"

type_synonym known_names = "nat \<Rightarrow> string option"

definition read_ref :: "known_names \<Rightarrow> string \<Rightarrow> (string \<times> known_names) option" where
  "read_ref known text =
     (case strchr text (CHR '')'') of
        None \<Rightarrow> None
      | Some e \<Rightarrow>
          (let n = digits_val 0 (slice 1 e text); rest = drop (e + 1) text in
           if rest = [] then map_option (\<lambda>name. (name, known)) (known n) else Some (tl rest, known(n \<mapsto> tl rest))))"

definition read_line :: "known_names \<times> known_names \<Rightarrow> string \<Rightarrow> (profile_item \<times> known_names \<times> known_names) option" where
  "read_line known line =
     (case known of (files, functions) \<Rightarrow>
       if prefixb ''fl=('' line then map_option (\<lambda>(name, k). (In_file name, k, functions)) (read_ref files (drop 3 line))
       else if prefixb ''fn=('' line then map_option (\<lambda>(name, k). (In_function name, files, k)) (read_ref functions (drop 3 line))
       else if prefixb ''cfl=('' line then map_option (\<lambda>(name, k). (Calls_file name, k, functions)) (read_ref files (drop 4 line))
       else if prefixb ''cfn=('' line then map_option (\<lambda>(name, k). (Calls_function name, files, k)) (read_ref functions (drop 4 line))
       else Some (Other_line line, files, functions))"

fun read_profile_lines :: "known_names \<times> known_names \<Rightarrow> string list \<Rightarrow> (profile_item list \<times> known_names \<times> known_names) option" where
  "read_profile_lines known [] = Some ([], known)"
| "read_profile_lines known (line # lines) =
     do { (item, known1) \<leftarrow> read_line known line;
          (items, known2) \<leftarrow> read_profile_lines known1 lines;
          Some (item # items, known2) }"

definition read_profile :: "string \<Rightarrow> profile_item list option" where
  "read_profile text = map_option fst (read_profile_lines (\<lambda>n. None, \<lambda>n. None) (lines_of [] text))"

lemma lines_of_line: "NEWLINE \<notin> set l \<Longrightarrow> lines_of line (l @ NEWLINE # text) = (line @ l) # lines_of [] text"
  by (induction l arbitrary: line) auto

definition unlines :: "string list \<Rightarrow> string" where
  "unlines lines = concat (map (\<lambda>l. l @ [NEWLINE]) lines)"

lemma unlines_simps [simp]: "unlines [] = []" "unlines (l # ls) = l @ NEWLINE # unlines ls" "unlines (ls @ ls') = unlines ls @ unlines ls'"
  by (simp_all add: unlines_def)

lemma lines_of_unlines: "list_all (\<lambda>l. NEWLINE \<notin> set l) ls \<Longrightarrow> lines_of [] (unlines ls) = ls"
  by (induction ls) (simp_all add: lines_of_line)

lemma read_lines_append:
  "read_profile_lines known ls = Some (items, known1) \<Longrightarrow>
   read_profile_lines known (ls @ ls') = map_option (\<lambda>(items', known2). (items @ items', known2)) (read_profile_lines known1 ls')"
proof (induction ls arbitrary: known items)
  case Nil
  then show ?case by (cases "read_profile_lines known1 ls'") auto
next
  case (Cons l ls)
  then obtain item known2 items2 where l: "read_line known l = Some (item, known2)" "read_profile_lines known2 ls = Some (items2, known1)"
    "items = item # items2" by (auto split: Option.bind_splits prod.splits)
  with Cons.IH [OF l(2)] show ?case by (cases "read_profile_lines known1 ls'") auto
qed

text \<open>What a text adds for a reader: it is whole lines, and reading them gives these items and knows these names.\<close>

definition reads_as :: "string \<Rightarrow> known_names \<times> known_names \<Rightarrow> profile_item list \<Rightarrow> known_names \<times> known_names \<Rightarrow> bool" where
  "reads_as text known items known' \<longleftrightarrow>
     (\<exists>ls. text = unlines ls \<and> list_all (\<lambda>l. NEWLINE \<notin> set l) ls \<and> read_profile_lines known ls = Some (items, known'))"

lemma reads_as_nil: "reads_as [] known [] known"
  unfolding reads_as_def by (intro exI [of _ "[]"]) simp

lemma reads_as_append:
  assumes "reads_as text known items known1" "reads_as text' known1 items' known2"
  shows "reads_as (text @ text') known (items @ items') known2"
proof -
  from assms obtain ls ls' where "text = unlines ls" "list_all (\<lambda>l. NEWLINE \<notin> set l) ls" "read_profile_lines known ls = Some (items, known1)"
    "text' = unlines ls'" "list_all (\<lambda>l. NEWLINE \<notin> set l) ls'" "read_profile_lines known1 ls' = Some (items', known2)"
    by (auto simp: reads_as_def)
  then show ?thesis unfolding reads_as_def by (intro exI [of _ "ls @ ls'"]) (simp add: read_lines_append)
qed

lemma reads_as_line:
  "NEWLINE \<notin> set l \<Longrightarrow> read_line known l = Some (item, known') \<Longrightarrow> reads_as (l @ [NEWLINE]) known [item] known'"
  unfolding reads_as_def by (intro exI [of _ "[l]"]) simp

lemma reads_as_whole: "reads_as text (\<lambda>n. None, \<lambda>n. None) items known \<Longrightarrow> read_profile text = Some items"
  by (auto simp: reads_as_def read_profile_def lines_of_unlines)

section \<open>Names and their numbers\<close>

definition ref_text :: "nat \<Rightarrow> string" where
  "ref_text n = ''('' @ dec n @ '')''"

lemma ref_text_plain: "NEWLINE \<notin> set (ref_text n)"
  using dec_digits [of NEWLINE n] by (auto simp: ref_text_def isdigit_def ord_def)

lemma strchr_ref: "strchr (ref_text n @ rest) (CHR '')'') = Some (Suc (length (dec n)))"
proof -
  have "CHR '')'' \<notin> set (CHR ''('' # dec n)" using dec_digits [of "CHR '')''" n] by (auto simp: isdigit_def ord_def)
  then have "strchr (dec n) (CHR '')'') = None" by (simp add: strchr_None)
  then show ?thesis by (simp add: ref_text_def strchr_append)
qed

lemma read_ref_new: "read_ref known (ref_text n @ '' '' @ name) = Some (name, known(n \<mapsto> name))"
  and read_ref_known: "known n = Some name \<Longrightarrow> read_ref known (ref_text n) = Some (name, known)"
  using strchr_ref [of n "'' '' @ name"] strchr_ref [of n "[]"]
  by (simp_all add: read_ref_def slice_def digits_val_dec) (simp_all add: ref_text_def slice_def digits_val_dec)


definition names_ok :: "string xdebug_hash \<Rightarrow> int \<Rightarrow> nat \<Rightarrow> known_names \<Rightarrow> bool" where
  "names_ok refs last_ref low known \<longleftrightarrow> hash_ok refs \<and> int low \<le> last_ref \<and>
     (\<forall>name r. hash_map refs (HStr name) = Some r \<longrightarrow>
       (\<exists>n. low < n \<and> int n \<le> last_ref \<and> r = ref_text n \<and> known n = Some name))"

lemma name_ref_reads:
  assumes "names_ok refs last_ref low known" "last_ref + 1 < 2 ^ 31" "name_ref refs last_ref name = (text, refs', last_ref')"
  shows "\<exists>known'. read_ref known text = Some (name, known') \<and> names_ok refs' last_ref' low known' \<and> known' low = known low \<and>
    last_ref' \<le> last_ref + 1 \<and> (NEWLINE \<notin> set name \<longrightarrow> NEWLINE \<notin> set text) \<and> prefixb ''('' text"
proof (cases "xdebug_hash_find refs name")
  case (Some r)
  with assms obtain n where "low < n" "int n \<le> last_ref" "r = ref_text n" "known n = Some name"
    by (force simp: names_ok_def find_str_map)
  with Some assms show ?thesis
    by (intro exI [of _ known]) (auto simp: name_ref_def read_ref_known ref_text_plain, simp add: ref_text_def prefixb_def)
next
  case None
  define n where "n = nat (last_ref + 1)"
  have "0 \<le> last_ref" using assms(1) by (simp add: names_ok_def)
  then have n: "to_int32 (last_ref + 1) = int n" "last_ref + 1 = int n" using assms(2) by (simp_all add: n_def)
  then have r: "text = ref_text n @ '' '' @ name" "refs' = xdebug_hash_add refs name (ref_text n)" "last_ref' = int n"
    using None assms(3) by (auto simp: name_ref_def ref_text_def dec_int_def Let_def)
  have "names_ok refs' last_ref' low (known(n \<mapsto> name))"
    using assms(1) n(2) add_str_map [of refs name "ref_text n"] unfolding r(2,3) names_ok_def by (auto, force+)
  moreover have "low < n" using assms(1) n(2) by (simp add: names_ok_def)
  ultimately show ?thesis using n(2) ref_text_plain [of n] read_ref_new [of known n name]
    by (intro exI [of _ "known(n \<mapsto> name)"]) (simp add: r, simp add: ref_text_def prefixb_def)
qed

section \<open>The place of a function\<close>

text \<open>The tables of the profiler hold what the reader knows.\<close>

definition prof_known :: "profiler \<Rightarrow> known_names \<times> known_names \<Rightarrow> bool" where
  "prof_known st known \<longleftrightarrow> (\<exists>fr gr. prf_filename_refs st = Some fr \<and> prf_functionname_refs st = Some gr \<and>
     names_ok fr (prf_last_filename_ref st) 1 (fst known) \<and> names_ok gr (prf_last_functionname_ref st) 0 (snd known) \<and>
     (prf_internal_seen st \<longrightarrow> fst known 1 = Some ''php:internal''))"

definition room :: "int \<Rightarrow> profiler \<Rightarrow> bool" where
  "room k st \<longleftrightarrow> prf_last_filename_ref st + k < 2 ^ 31 \<and> prf_last_functionname_ref st + k < 2 ^ 31"

definition only_names :: "int \<Rightarrow> profiler \<Rightarrow> profiler \<Rightarrow> bool" where
  "only_names k st st' \<longleftrightarrow> (\<exists>fr lf seen gr lg. lf \<le> prf_last_filename_ref st + k \<and> lg \<le> prf_last_functionname_ref st + k \<and>
     st' = st\<lparr>prf_filename_refs := fr, prf_last_filename_ref := lf, prf_internal_seen := seen, prf_functionname_refs := gr,
              prf_last_functionname_ref := lg\<rparr>)"

lemma only_names_files:
  "lf \<le> prf_last_filename_ref st + 1 \<Longrightarrow> only_names 1 st (st\<lparr>prf_filename_refs := fr, prf_last_filename_ref := lf\<rparr>)"
  unfolding only_names_def
  by (intro exI [of _ fr] exI [of _ lf] exI [of _ "prf_internal_seen st"] exI [of _ "prf_functionname_refs st"]
      exI [of _ "prf_last_functionname_ref st"]) simp

lemma only_names_seen: "0 \<le> k \<Longrightarrow> only_names k st (st\<lparr>prf_internal_seen := b\<rparr>)"
  unfolding only_names_def
  by (intro exI [of _ "prf_filename_refs st"] exI [of _ "prf_last_filename_ref st"] exI [of _ b] exI [of _ "prf_functionname_refs st"]
      exI [of _ "prf_last_functionname_ref st"]) simp

lemma only_names_functions:
  assumes "only_names 1 st st1" "prf_last_functionname_ref st1 = prf_last_functionname_ref st" "lg \<le> prf_last_functionname_ref st1 + 1"
  shows "only_names 1 st (st1\<lparr>prf_functionname_refs := gr, prf_last_functionname_ref := lg\<rparr>)"
proof -
  from assms(1) obtain fr lf seen gr1 lg1 where "lf \<le> prf_last_filename_ref st + 1"
    "st1 = st\<lparr>prf_filename_refs := fr, prf_last_filename_ref := lf, prf_internal_seen := seen, prf_functionname_refs := gr1,
              prf_last_functionname_ref := lg1\<rparr>" unfolding only_names_def by blast
  with assms(2,3) show ?thesis unfolding only_names_def
    by (intro exI [of _ fr] exI [of _ lf] exI [of _ seen] exI [of _ gr] exI [of _ lg]) simp
qed

definition plain :: "string \<Rightarrow> bool" where
  "plain s \<longleftrightarrow> NEWLINE \<notin> set (c_str s)"

definition place_items :: "bool \<Rightarrow> bool \<Rightarrow> string \<Rightarrow> string \<Rightarrow> profile_item list" where
  "place_items called user_defined filename function =
     (let fl = (if user_defined then c_str filename else ''php:internal'');
          fn = c_str (if user_defined then function else internal_key function)
      in if called then [Calls_file fl, Calls_function fn] else [In_file fl, In_function fn])"

lemma filename_ref_reads:
  assumes "prof_known st known" "room 1 st" "plain name"
  shows "\<exists>txt1 st' k. add_filename_ref name st = Some (txt1, st') \<and> read_ref (fst known) txt1 = Some (c_str name, k) \<and>
    prof_known st' (k, snd known) \<and> NEWLINE \<notin> set txt1 \<and> prefixb ''('' txt1 \<and>
    (\<exists>fr lf. lf \<le> prf_last_filename_ref st + 1 \<and> st' = st\<lparr>prf_filename_refs := fr, prf_last_filename_ref := lf\<rparr>)"
proof -
  from assms(1) obtain fr where fr: "prf_filename_refs st = Some fr" "names_ok fr (prf_last_filename_ref st) 1 (fst known)"
    by (auto simp: prof_known_def)
  obtain txt1 fr' n where r: "name_ref fr (prf_last_filename_ref st) (c_str name) = (txt1, fr', n)" by (metis prod.exhaust)
  from name_ref_reads [OF fr(2) _ this] assms(2,3) obtain k where k: "read_ref (fst known) txt1 = Some (c_str name, k)"
    "names_ok fr' n 1 k" "k 1 = fst known 1" "n \<le> prf_last_filename_ref st + 1" "NEWLINE \<notin> set txt1" "prefixb ''('' txt1"
    by (auto simp: room_def plain_def)
  with assms(1) fr(1) r show ?thesis
    by (intro exI [of _ txt1] exI [of _ "st\<lparr>prf_filename_refs := Some fr', prf_last_filename_ref := n\<rparr>"] exI [of _ k])
      (auto simp: add_filename_ref_def prof_known_def)
qed

lemma functionname_ref_reads:
  assumes "prof_known st known" "prf_last_functionname_ref st + 1 < 2 ^ 31" "plain name"
  shows "\<exists>txt1 st' k. add_functionname_ref name st = Some (txt1, st') \<and> read_ref (snd known) txt1 = Some (c_str name, k) \<and>
    prof_known st' (fst known, k) \<and> NEWLINE \<notin> set txt1 \<and> prefixb ''('' txt1 \<and>
    (\<exists>gr lg. lg \<le> prf_last_functionname_ref st + 1 \<and> st' = st\<lparr>prf_functionname_refs := gr, prf_last_functionname_ref := lg\<rparr>)"
proof -
  from assms(1) obtain gr where gr: "prf_functionname_refs st = Some gr" "names_ok gr (prf_last_functionname_ref st) 0 (snd known)"
    by (auto simp: prof_known_def)
  obtain txt1 gr' n where r: "name_ref gr (prf_last_functionname_ref st) (c_str name) = (txt1, gr', n)" by (metis prod.exhaust)
  from name_ref_reads [OF gr(2) _ this] assms(2,3) obtain k where k: "read_ref (snd known) txt1 = Some (c_str name, k)"
    "names_ok gr' n 0 k" "n \<le> prf_last_functionname_ref st + 1" "NEWLINE \<notin> set txt1" "prefixb ''('' txt1"
    by (auto simp: plain_def)
  with assms(1) gr(1) r show ?thesis
    by (intro exI [of _ txt1] exI [of _ "st\<lparr>prf_functionname_refs := Some gr', prf_last_functionname_ref := n\<rparr>"] exI [of _ k])
      (auto simp: add_functionname_ref_def prof_known_def)
qed


lemma read_place:
  assumes "prefix = [] \<or> prefix = ''c''" "prefixb ''('' name"
  shows "read_line known (prefix @ ''fl='' @ name) =
      map_option (\<lambda>(n, k). (if prefix = [] then In_file n else Calls_file n, k, snd known)) (read_ref (fst known) name)"
    "read_line known (prefix @ ''fn='' @ name) =
      map_option (\<lambda>(n, k). (if prefix = [] then In_function n else Calls_function n, fst known, k)) (read_ref (snd known) name)"
  using assms by (auto simp: read_line_def prefixb_def split: prod.splits)

lemma internal_file_reads:
  assumes "prof_known st known"
  shows "\<exists>k. read_ref (fst known) (if prf_internal_seen st then ''(1)'' else ''(1) php:internal'') = Some (''php:internal'', k) \<and>
    prof_known (st\<lparr>prf_internal_seen := True\<rparr>) (k, snd known)"
proof -
  have 1: "ref_text 1 = ''(1)''" by code_simp
  have "names_ok fr n 1 ((fst known)(1 \<mapsto> ''php:internal''))" if fr: "names_ok fr n 1 (fst known)" for fr n
    unfolding names_ok_def
  proof (intro conjI allI impI)
      fix name r assume "hash_map fr (HStr name) = Some r"
      with fr obtain m where "1 < m" "int m \<le> n" "r = ref_text m" "fst known m = Some name" unfolding names_ok_def by blast
      then show "\<exists>m. 1 < m \<and> int m \<le> n \<and> r = ref_text m \<and> ((fst known)(1 \<mapsto> ''php:internal'')) m = Some name"
        by (intro exI [of _ m]) simp
  qed (use fr in \<open>simp_all add: names_ok_def\<close>)
  then have "prof_known (st\<lparr>prf_internal_seen := True\<rparr>) ((fst known)(1 \<mapsto> ''php:internal''), snd known)"
    using assms by (auto simp: prof_known_def)
  moreover have "read_ref (fst known) ''(1) php:internal'' = Some (''php:internal'', (fst known)(1 \<mapsto> ''php:internal''))"
    using read_ref_new [of "fst known" 1 "''php:internal''"] unfolding 1 by simp
  moreover have "read_ref (fst known) ''(1)'' = Some (''php:internal'', fst known)"
    "(fst known)(1 \<mapsto> ''php:internal'') = fst known" if "prf_internal_seen st"
    using read_ref_known [of "fst known" 1 "''php:internal''"] that assms unfolding 1 by (auto simp: prof_known_def)
  ultimately show ?thesis by (cases "prf_internal_seen st") auto
qed

lemma takeWhile_take: "takeWhile P (take n xs) = take n (takeWhile P xs)"
  by (induction xs arbitrary: n) (auto simp: take_Cons split: nat.splits)

lemma plain_internal_key: "plain function \<Longrightarrow> plain (internal_key function)"
  by (auto simp: plain_def internal_key_def TMP_KEY_PREFIX_def c_str_def takeWhile_take dest: in_set_takeD)

lemma function_place_reads:
  assumes "prof_known st known" "room 1 st" "prefix = [] \<or> prefix = ''c''" "user_defined \<longrightarrow> plain filename" "plain function"
  shows "\<exists>txt1 st' known'. function_place prefix user_defined filename function st = Some (txt1, st') \<and> prof_known st' known' \<and>
    reads_as txt1 known (place_items (prefix \<noteq> []) user_defined filename function) known' \<and> only_names 1 st st'"
proof -
  define fname where "fname = (if user_defined then function else internal_key function)"
  define fl where "fl = (if user_defined then c_str filename else ''php:internal'')"
  have plain: "plain fname" "NEWLINE \<notin> set fl" "NEWLINE \<notin> set prefix"
    using assms(3-5) plain_internal_key [OF assms(5)] by (auto simp: fname_def fl_def plain_def)
  obtain name st1 k where fl_read: "read_ref (fst known) name = Some (fl, k)" "prof_known st1 (k, snd known)" "prefixb ''('' name"
    "NEWLINE \<notin> set name" "only_names 1 st st1" "prf_last_functionname_ref st1 = prf_last_functionname_ref st"
    and place: "function_place prefix user_defined filename function st =
      map_option (\<lambda>(fn, st2). (prefix @ ''fl='' @ name @ [NEWLINE] @ prefix @ ''fn='' @ fn @ [NEWLINE], st2)) (add_functionname_ref fname st1)"
  proof (cases user_defined)
    case True
    from filename_ref_reads [OF assms(1,2)] True assms(4) obtain name st1 k where
      "add_filename_ref filename st = Some (name, st1)" "read_ref (fst known) name = Some (c_str filename, k)"
      "prof_known st1 (k, snd known)" "NEWLINE \<notin> set name" "prefixb ''('' name"
      "\<exists>fr lf. lf \<le> prf_last_filename_ref st + 1 \<and> st1 = st\<lparr>prf_filename_refs := fr, prf_last_filename_ref := lf\<rparr>" by blast
    moreover from this have "only_names 1 st st1" "prf_last_functionname_ref st1 = prf_last_functionname_ref st"
      by (auto simp: only_names_files)
    ultimately show thesis using True
      by (intro that [of name k st1]) (simp_all add: fl_def fname_def function_place_def map_conv_bind_option comp_def split_def)
  next
    case False
    from internal_file_reads [OF assms(1)] obtain k where
      "read_ref (fst known) (if prf_internal_seen st then ''(1)'' else ''(1) php:internal'') = Some (''php:internal'', k)"
      "prof_known (st\<lparr>prf_internal_seen := True\<rparr>) (k, snd known)" by blast
    with False show thesis
      by (intro that [of "if prf_internal_seen st then ''(1)'' else ''(1) php:internal''" k "st\<lparr>prf_internal_seen := True\<rparr>"])
        (simp_all add: fl_def fname_def only_names_seen function_place_def prefixb_def map_conv_bind_option comp_def split_def)
  qed
  have "prf_last_functionname_ref st1 + 1 < 2 ^ 31" using fl_read(6) assms(2) by (simp add: room_def)
  from functionname_ref_reads [OF fl_read(2) this plain(1)] obtain fn st2 k2 where fn: "add_functionname_ref fname st1 = Some (fn, st2)"
    "read_ref (snd known) fn = Some (c_str fname, k2)" "prof_known st2 (k, k2)" "NEWLINE \<notin> set fn" "prefixb ''('' fn"
    "\<exists>gr lg. lg \<le> prf_last_functionname_ref st1 + 1 \<and> st2 = st1\<lparr>prf_functionname_refs := gr, prf_last_functionname_ref := lg\<rparr>"
    unfolding fst_conv snd_conv by blast
  have only: "only_names 1 st st2" using fn(6) fl_read(5,6) by (auto simp: only_names_functions)
  have 1: "read_line known (prefix @ ''fl='' @ name) = Some (if prefix = [] then In_file fl else Calls_file fl, k, snd known)"
    unfolding read_place(1) [OF assms(3) fl_read(3)] by (simp add: fl_read(1))
  have 2: "read_line (k, snd known) (prefix @ ''fn='' @ fn) =
      Some (if prefix = [] then In_function (c_str fname) else Calls_function (c_str fname), k, k2)"
    unfolding read_place(2) [OF assms(3) fn(5)] by (simp add: fn(2))
  have "NEWLINE \<notin> set (prefix @ ''fl='' @ name)" "NEWLINE \<notin> set (prefix @ ''fn='' @ fn)" using plain(3) fl_read(4) fn(4) by simp_all
  from reads_as_append [OF reads_as_line [OF this(1) 1] reads_as_line [OF this(2) 2]]
  have reads: "reads_as (prefix @ ''fl='' @ name @ [NEWLINE] @ prefix @ ''fn='' @ fn @ [NEWLINE]) known
      (place_items (prefix \<noteq> []) user_defined filename function) (k, k2)"
    unfolding append_assoc by (simp add: place_items_def fl_def fname_def Let_def split: if_splits)
  have "function_place prefix user_defined filename function st =
      Some (prefix @ ''fl='' @ name @ [NEWLINE] @ prefix @ ''fn='' @ fn @ [NEWLINE], st2)"
    unfolding place fn(1) by simp
  with reads only fn(3) show ?thesis by blast
qed


section \<open>The costs of a function that ends\<close>

definition cost_item :: "int \<Rightarrow> 64 word \<Rightarrow> 64 word \<Rightarrow> profile_item" where
  "cost_item lineno nanotime mem =
     Other_line (dec (unat (word_of_int lineno :: 64 word)) @ '' '' @ dec (unat (NANOTIME_SCALE_10NS nanotime)) @ '' '' @
                 dec (unat (if sint mem \<ge> 0 then mem else 0)))"

definition entry_items :: "xdebug_call_entry \<Rightarrow> profile_item list" where
  "entry_items ce = place_items True (ce_user_defined ce) (ce_filename ce) (ce_function ce) @
     [Other_line ''calls=1 0 0'', cost_item (ce_lineno ce) (ce_nanotime_taken ce) (ce_mem_used ce)]"

definition calls_of :: "profile_frame \<Rightarrow> xdebug_call_entry list" where
  "calls_of fse = (case pr_call_list fse of Some calls \<Rightarrow> calls | None \<Rightarrow> [])"

definition frame_items :: "profile_frame \<Rightarrow> profile_item list" where
  "frame_items fse =
     place_items False (fr_user_defined fse) (the (pr_filename fse)) (the (pr_function fse)) @
     [cost_item (pr_lineno fse) (pr_nanotime fse - sum_list (map ce_nanotime_taken (calls_of fse)))
        (pr_memory fse - sum_list (map ce_mem_used (calls_of fse)))] @
     concat (map entry_items (calls_of fse)) @ [Other_line []]"

lemma dec_plain: "NEWLINE \<notin> set (dec n)"
  using dec_digits [of NEWLINE n] by (auto simp: isdigit_def ord_def)

lemma read_other:
  assumes "l = [] \<or> isdigit (hd l) \<or> prefixb ''ca'' l \<or> prefixb ''s'' l"
  shows "read_line known l = Some (Other_line l, known)"
  using assms by (cases known) (auto simp: read_line_def prefixb_iff isdigit_def ord_def)

lemma reads_as_other:
  assumes "NEWLINE \<notin> set l" "l = [] \<or> isdigit (hd l) \<or> prefixb ''ca'' l \<or> prefixb ''s'' l"
  shows "reads_as (l @ [NEWLINE]) known [Other_line l] known"
  by (rule reads_as_line [OF assms(1) read_other [OF assms(2)]])

lemma reads_as_cost: "reads_as (cost_line lineno nanotime mem) known [cost_item lineno nanotime mem] known"
proof -
  let ?l = "dec (unat (word_of_int lineno :: 64 word)) @ '' '' @ dec (unat (NANOTIME_SCALE_10NS nanotime)) @ '' '' @
    dec (unat (if sint mem \<ge> 0 then mem else 0))"
  have "isdigit (hd ?l)" using dec_digits [of "hd (dec n)" n for n] dec_nonempty by simp
  then have "reads_as (?l @ [NEWLINE]) known [Other_line ?l] known" by (intro reads_as_other) (simp_all add: dec_plain)
  then show ?thesis by (simp add: cost_line_def cost_item_def)
qed

lemma only_names_trans:
  assumes "only_names a st st1" "only_names b st1 st2" shows "only_names (a + b) st st2"
proof -
  from assms(2) obtain fr lf seen gr lg where 2: "lf \<le> prf_last_filename_ref st1 + b" "lg \<le> prf_last_functionname_ref st1 + b"
    "st2 = st1\<lparr>prf_filename_refs := fr, prf_last_filename_ref := lf, prf_internal_seen := seen, prf_functionname_refs := gr,
              prf_last_functionname_ref := lg\<rparr>" unfolding only_names_def by blast
  from assms(1) 2 show ?thesis unfolding only_names_def
    by (intro exI [of _ fr] exI [of _ lf] exI [of _ seen] exI [of _ gr] exI [of _ lg]) auto
qed

lemma only_names_room: "only_names a st st1 \<Longrightarrow> room (a + b) st \<Longrightarrow> room b st1"
  by (auto simp: only_names_def room_def)

definition plain_entry :: "xdebug_call_entry \<Rightarrow> bool" where
  "plain_entry ce \<longleftrightarrow> plain (ce_filename ce) \<and> plain (ce_function ce)"

lemma called_places_read:
  assumes "prof_known st known" "room (int (length calls)) st" "list_all plain_entry calls" "reads_as buf known0 items known"
  shows "\<exists>txt1 st' known'. loop_over called_place calls (buf, st) = Some (txt1, st') \<and> prof_known st' known' \<and>
    reads_as txt1 known0 (items @ concat (map entry_items calls)) known' \<and> only_names (int (length calls)) st st' \<and>
    length buf + length calls \<le> length txt1"
  using assms
proof (induction calls arbitrary: st buf items known)
  case Nil
  then show ?case using only_names_seen [of 0 st "prf_internal_seen st"] by (cases known) auto
next
  case (Cons ce calls)
  then have room1: "room 1 st" and ce: "plain_entry ce" "list_all plain_entry calls" by (simp_all add: room_def)
  from function_place_reads [OF Cons.prems(1) room1, of "''c''" "ce_user_defined ce" "ce_filename ce" "ce_function ce"] ce(1)
  obtain place st1 known1 where place: "function_place ''c'' (ce_user_defined ce) (ce_filename ce) (ce_function ce) st = Some (place, st1)"
    "prof_known st1 known1" "reads_as place known (place_items True (ce_user_defined ce) (ce_filename ce) (ce_function ce)) known1"
    "only_names 1 st st1" by (auto simp: plain_entry_def)
  let ?buf = "buf @ place @ ''calls=1 0 0'' @ [NEWLINE] @ cost_line (ce_lineno ce) (ce_nanotime_taken ce) (ce_mem_used ce)"
  have "reads_as (''calls=1 0 0'' @ [NEWLINE]) known1 [Other_line ''calls=1 0 0''] known1"
    by (rule reads_as_other) (simp_all add: prefixb_def)
  from reads_as_append [OF place(3) reads_as_append [OF this reads_as_cost [of "ce_lineno ce" "ce_nanotime_taken ce" "ce_mem_used ce"]]]
  have "reads_as (place @ ''calls=1 0 0'' @ [NEWLINE] @ cost_line (ce_lineno ce) (ce_nanotime_taken ce) (ce_mem_used ce)) known
      (entry_items ce) known1"
    by (simp add: entry_items_def)
  from reads_as_append [OF Cons.prems(4) this] have "reads_as ?buf known0 (items @ entry_items ce) known1" by simp
  from Cons.IH [OF place(2) only_names_room [OF place(4)] ce(2) this] Cons.prems(2)
  obtain txt1 st' known' where rest: "loop_over called_place calls (?buf, st1) = Some (txt1, st')" "prof_known st' known'"
    "reads_as txt1 known0 ((items @ entry_items ce) @ concat (map entry_items calls)) known'"
    "only_names (int (length calls)) st1 st'" "length ?buf + length calls \<le> length txt1" by auto
  have "called_place ce (buf, st) = Some (?buf, st1)" using place(1) by (simp add: called_place_def)
  with rest only_names_trans [OF place(4) rest(4)] show ?case
    by (intro exI [of _ txt1] exI [of _ st'] exI [of _ known']) simp
qed

end
