(* ===== verification/Xd_Profile_Run.thy ===== *)
theory Xd_Profile_Run
  imports Xd_Profile_Spec
begin

text \<open>
  Profiles of whole runs: what a function that ends does to the stack and to the file, what is read back after any
  sequence of calls and returns, and that the time of a call is counted once among the functions it runs.
\<close>

section \<open>A function that ends\<close>

definition with_calls :: "profile_frame \<Rightarrow> profile_frame" where
  "with_calls fse = fse\<lparr>pr_call_list := Some (calls_of fse)\<rparr>"

text \<open>The frame when the clock and the memory have been read for the last time.\<close>

definition ended :: "profiler \<Rightarrow> profile_frame \<Rightarrow> profile_frame" where
  "ended st fse = fse\<lparr>pr_call_list := Some (calls_of fse),
     pr_nanotime := pr_nanotime fse + (prf_clock st (prf_tick st) - pr_nanotime_mark fse), pr_nanotime_mark := 0,
     pr_memory := pr_memory fse + (prf_memory_use st (Suc (prf_tick st)) - pr_mem_mark fse), pr_mem_mark := 0\<rparr>"

definition call_entry :: "profile_frame \<Rightarrow> xdebug_call_entry" where
  "call_entry fse = \<lparr>ce_user_defined = fr_user_defined fse, ce_filename = the (pr_filename fse), ce_function = the (pr_function fse),
     ce_lineno = fr_lineno fse, ce_nanotime_taken = pr_nanotime fse, ce_mem_used = pr_memory fse\<rparr>"

definition told :: "xdebug_call_entry \<Rightarrow> profile_frame \<Rightarrow> profile_frame" where
  "told ce caller = caller\<lparr>pr_call_list := Some (calls_of caller @ [ce])\<rparr>"

definition tell :: "nat \<Rightarrow> xdebug_call_entry \<Rightarrow> profile_frame list \<Rightarrow> profile_frame list" where
  "tell i ce stack = (if i = 0 then stack else stack[i - 1 := told ce (stack ! (i - 1))])"

definition end_stack :: "nat \<Rightarrow> profiler \<Rightarrow> profile_frame list" where
  "end_stack i st = (let e = ended st (prf_stack st ! i) in
     (tell i (call_entry e) (prf_stack st))[i := without_calls (calls_of e) e])"

lemma calls_of_simps [simp]: "calls_of (ended st fse) = calls_of fse" "calls_of (with_calls fse) = calls_of fse"
    "calls_of (told ce fse) = calls_of fse @ [ce]" "calls_of (without_calls cs fse) = calls_of fse"
  by (simp_all add: calls_of_def ended_def with_calls_def told_def without_calls_def)

lemma new_call_list_eq:
  "i < length (prf_stack st) \<Longrightarrow> new_call_list i st = st\<lparr>prf_stack := (prf_stack st)[i := with_calls (prf_stack st ! i)]\<rparr>"
  by (auto simp: new_call_list_def frame_at_def put_frame_def with_calls_def calls_of_def)
    (metis list_update_id profile_frame.surjective profile_frame.update_convs(9) profiler.surjective profiler.update_convs(11))

text \<open>The state when the place of the ended function is about to be written.\<close>

definition at_end :: "nat \<Rightarrow> profiler \<Rightarrow> profiler" where
  "at_end i st = (let e = ended st (prf_stack st ! i) in
     st\<lparr>prf_stack := (tell i (call_entry e) (prf_stack st))[i := e], prf_tick := prf_tick st + 2\<rparr>)"

lemma function_push_eq:
  assumes "i < length (prf_stack st)" "calls_of f = calls_of (prf_stack st ! i)" "prf_stack st ! i = with_calls f"
  shows "xdebug_profiler_function_push i st = Some (st\<lparr>prf_stack := (prf_stack st)[i := ended st f], prf_tick := prf_tick st + 2\<rparr>)"
  using assms(1,3)
  by (simp add: xdebug_profiler_function_push_def frame_at_def xdebug_get_nanotime_def memory_usage_def put_frame_def ended_def with_calls_def)

lemma told_with_calls: "(with_calls fse)\<lparr>pr_call_list := Some (calls_of fse @ [ce])\<rparr> = told ce fse"
  by (simp add: with_calls_def told_def)

lemma tell_caller_eq:
  assumes "i < length (prf_stack st)" "pr_filename (prf_stack st ! i) \<noteq> None" "pr_function (prf_stack st ! i) \<noteq> None"
    "0 < i \<longrightarrow> prf_stack st ! (i - 1) = with_calls caller"
  shows "tell_caller i st = Some (st\<lparr>prf_stack := if i = 0 then prf_stack st
    else (prf_stack st)[i - 1 := told (call_entry (prf_stack st ! i)) caller]\<rparr>)"
  using assms
  by (auto simp: tell_caller_def frame_at_def put_frame_def call_entry_def told_with_calls [symmetric])
    (simp add: with_calls_def)

lemma end_and_tell:
  assumes "i < length (prf_stack st)" "pr_filename (prf_stack st ! i) \<noteq> None" "pr_function (prf_stack st ! i) \<noteq> None"
  shows "Option.bind (xdebug_profiler_function_push i (new_call_list i (if i = 0 then st else new_call_list (i - 1) st))) (tell_caller i) =
    Some (at_end i st)"
proof -
  let ?f = "prf_stack st ! i" and ?c = "prf_stack st ! (i - 1)"
  let ?st0 = "st\<lparr>prf_stack := (if i = 0 then prf_stack st else (prf_stack st)[i - 1 := with_calls ?c])[i := with_calls ?f]\<rparr>"
  let ?e = "ended st ?f"
  have "new_call_list i (if i = 0 then st else new_call_list (i - 1) st) = ?st0"
    using assms(1) by (cases "i = 0") (simp_all add: new_call_list_eq)
  moreover have "xdebug_profiler_function_push i ?st0 = Some (?st0\<lparr>prf_stack := (prf_stack ?st0)[i := ?e], prf_tick := prf_tick st + 2\<rparr>)"
    using assms(1) function_push_eq [of i ?st0 ?f] by (cases "i = 0") (simp_all add: ended_def)
  moreover have "tell_caller i (?st0\<lparr>prf_stack := (prf_stack ?st0)[i := ?e], prf_tick := prf_tick st + 2\<rparr>) = Some (at_end i st)"
  proof (cases "i = 0")
    case True
    with assms show ?thesis by (simp add: tell_caller_def at_end_def tell_def Let_def)
  next
    case False
    let ?st1 = "st\<lparr>prf_stack := (prf_stack st)[i - 1 := with_calls ?c, i := ?e], prf_tick := prf_tick st + 2\<rparr>"
    have 1: "?st0\<lparr>prf_stack := (prf_stack ?st0)[i := ?e], prf_tick := prf_tick st + 2\<rparr> = ?st1" using False by simp
    have e: "pr_filename ?e \<noteq> None" "pr_function ?e \<noteq> None" using assms(2,3) by (simp_all add: ended_def)
    have n: "i < length (prf_stack ?st1)" "prf_stack ?st1 ! i = ?e" "0 < i \<longrightarrow> prf_stack ?st1 ! (i - 1) = with_calls ?c"
      using False assms(1) by simp_all
    have "tell_caller i ?st1 = Some (?st1\<lparr>prf_stack := (prf_stack ?st1)[i - 1 := told (call_entry ?e) ?c]\<rparr>)"
      using tell_caller_eq [OF n(1) _ _ n(3)] False e unfolding n(2) by simp
    moreover have "(prf_stack ?st1)[i - 1 := told (call_entry ?e) ?c] = (prf_stack st)[i - 1 := told (call_entry ?e) ?c, i := ?e]"
      using list_update_swap [of i "i - 1" "(prf_stack st)[i - 1 := with_calls ?c]" ?e "told (call_entry ?e) ?c"] False
      by (simp only: profiler.simps list_update_overwrite) simp
    ultimately show ?thesis using False unfolding 1 by (simp only: at_end_def tell_def Let_def if_False) simp
  qed
  ultimately show ?thesis by simp
qed

lemma function_end_eq:
  assumes "prf_active st" "i < length (prf_stack st)" "pr_filename (prf_stack st ! i) = Some filename" "pr_function (prf_stack st ! i) = Some function"
  shows "xdebug_profiler_function_end i st =
    (let e = ended st (prf_stack st ! i); own = without_calls (calls_of e) e in
     do { (place, st3) \<leftarrow> function_place [] (fr_user_defined e) (if fr_user_defined e then filename else []) function (at_end i st);
          (txt, st4) \<leftarrow> loop_over called_place (calls_of e)
            (place @ cost_line (pr_lineno own) (pr_nanotime own) (pr_memory own), put_frame i own st3);
          Some (file_printf (txt @ [NEWLINE]) st4) })"
proof -
  let ?e = "ended st (prf_stack st ! i)"
  have "frame_at (at_end i st) i = Some ?e" using assms(2) by (cases "i = 0") (simp_all add: frame_at_def at_end_def Let_def tell_def)
  moreover have "pr_function ?e = Some function" "pr_call_list ?e = Some (calls_of ?e)"
    "(if fr_user_defined ?e then pr_filename ?e else Some []) = Some (if fr_user_defined ?e then filename else [])"
    using assms(3,4) by (auto simp: ended_def calls_of_def)
  moreover have "do { st1 \<leftarrow> xdebug_profiler_function_push i (new_call_list i (if i = 0 then st else new_call_list (i - 1) st));
      st2 \<leftarrow> tell_caller i st1; F st2 } = F (at_end i st)" for F :: "profiler \<Rightarrow> profiler option"
    using end_and_tell [OF assms(2)] assms(3,4) by (simp only: Option.bind_assoc [symmetric] bind.bind_lunit not_False_eq_True option.distinct)
  ultimately show ?thesis using assms(1)
    by (simp only: xdebug_profiler_function_end_def not_True_eq_False if_False Let_def bind.bind_lunit)
qed


text \<open>Frames with their names, which hold no line break; only these can end.\<close>

definition frame_named :: "profile_frame \<Rightarrow> bool" where
  "frame_named fse \<longleftrightarrow> (\<exists>filename function. pr_filename fse = Some filename \<and> pr_function fse = Some function \<and> plain filename \<and> plain function) \<and>
     list_all plain_entry (calls_of fse)"

lemma only_names_fields:
  "only_names k st st' \<Longrightarrow> prf_stack st' = prf_stack st"
  "only_names k st st' \<Longrightarrow> prf_output st' = prf_output st" "only_names k st st' \<Longrightarrow> prf_file_name st' = prf_file_name st"
  "only_names k st st' \<Longrightarrow> prf_active st' = prf_active st" "only_names k st st' \<Longrightarrow> prf_clock st' = prf_clock st"
  "only_names k st st' \<Longrightarrow> prf_memory_use st' = prf_memory_use st" "only_names k st st' \<Longrightarrow> prf_tick st' = prf_tick st"
  "only_names k st st' \<Longrightarrow> prf_start_nanotime st' = prf_start_nanotime st"
  by (auto simp: only_names_def)

lemma prof_known_stack [simp]: "prof_known (st\<lparr>prf_stack := s\<rparr>) known = prof_known st known"
    "prof_known (st\<lparr>prf_tick := n\<rparr>) known = prof_known st known" "prof_known (st\<lparr>prf_output := out\<rparr>) known = prof_known st known"
  by (simp_all add: prof_known_def)

text \<open>What the profiler may change besides its names: one function has ended and its record is written.\<close>

definition record_written :: "string \<Rightarrow> nat \<Rightarrow> nat \<Rightarrow> profiler \<Rightarrow> profiler \<Rightarrow> bool" where
  "record_written txt k i st st' \<longleftrightarrow> prf_output st' = prf_output st @ txt \<and> prf_stack st' = end_stack i st \<and> prf_tick st' = prf_tick st + 2 \<and>
     prf_active st' = prf_active st \<and> prf_file_name st' = prf_file_name st \<and> prf_clock st' = prf_clock st \<and>
     prf_memory_use st' = prf_memory_use st \<and> prf_start_nanotime st' = prf_start_nanotime st \<and>
     prf_last_filename_ref st' \<le> prf_last_filename_ref st + int k \<and> prf_last_functionname_ref st' \<le> prf_last_functionname_ref st + int k"

lemma function_end_reads:
  assumes "prf_active st" "i < length (prf_stack st)" "frame_named (prf_stack st ! i)" "prof_known st known"
    "room (1 + int (length (calls_of (prf_stack st ! i)))) st" "prf_file_name st \<noteq> None"
  shows "\<exists>st' known' out1. xdebug_profiler_function_end i st = Some st' \<and> prof_known st' known' \<and>
    reads_as out1 known (frame_items (ended st (prf_stack st ! i))) known' \<and>
    1 + length (calls_of (prf_stack st ! i)) \<le> length out1 \<and> record_written out1 (1 + length (calls_of (prf_stack st ! i))) i st st'"
proof -
  let ?f = "prf_stack st ! i" and ?e = "ended st (prf_stack st ! i)"
  let ?own = "without_calls (calls_of ?f) ?e"
  from assms(3) obtain filename fname where names: "pr_filename ?f = Some filename" "pr_function ?f = Some fname"
    "plain filename" "plain fname" "list_all plain_entry (calls_of ?f)" by (auto simp: frame_named_def)
  then have e: "pr_filename ?e = Some filename" "pr_function ?e = Some fname" by (simp_all add: ended_def)
  have "prof_known (at_end i st) known" "room 1 (at_end i st)" using assms(4,5) by (simp_all add: at_end_def Let_def room_def)
  from function_place_reads [OF this, of "[]" "fr_user_defined ?e" "if fr_user_defined ?e then filename else []" fname]
  obtain place st3 known1 where place: "function_place [] (fr_user_defined ?e) (if fr_user_defined ?e then filename else []) fname (at_end i st) = Some (place, st3)"
    "prof_known st3 known1" "reads_as place known (place_items False (fr_user_defined ?e) (if fr_user_defined ?e then filename else []) fname) known1"
    "only_names 1 (at_end i st) st3" using names(3,4) by auto
  have "reads_as (place @ cost_line (pr_lineno ?own) (pr_nanotime ?own) (pr_memory ?own)) known
      (place_items False (fr_user_defined ?e) (if fr_user_defined ?e then filename else []) fname @
       [cost_item (pr_lineno ?own) (pr_nanotime ?own) (pr_memory ?own)]) known1"
    by (rule reads_as_append [OF place(3) reads_as_cost])
  moreover have "room (int (length (calls_of ?f))) (put_frame i ?own st3)" "prof_known (put_frame i ?own st3) known1"
    using only_names_room [OF place(4), of "int (length (calls_of ?f))"] assms(5) place(2)
    by (simp_all add: room_def put_frame_def at_end_def Let_def)
  ultimately obtain out1 st4 known' where calls: "loop_over called_place (calls_of ?f)
      (place @ cost_line (pr_lineno ?own) (pr_nanotime ?own) (pr_memory ?own), put_frame i ?own st3) = Some (out1, st4)"
    "prof_known st4 known'" "only_names (int (length (calls_of ?f))) (put_frame i ?own st3) st4" "length (calls_of ?f) \<le> length out1"
    "reads_as out1 known ((place_items False (fr_user_defined ?e) (if fr_user_defined ?e then filename else []) fname @
       [cost_item (pr_lineno ?own) (pr_nanotime ?own) (pr_memory ?own)]) @ concat (map entry_items (calls_of ?f))) known'"
    using called_places_read [of "put_frame i ?own st3" known1 "calls_of ?f" _ known] names(5) by fastforce
  have "reads_as (out1 @ [NEWLINE]) known (frame_items ?e) known'"
    using reads_as_append [OF calls(5) reads_as_other [of "[]"]] e
    by (simp add: frame_items_def without_calls_def place_items_def split: if_splits)
  moreover have "xdebug_profiler_function_end i st = Some (file_printf (out1 @ [NEWLINE]) st4)"
    using place(1) calls(1) function_end_eq [OF assms(1,2) names(1,2)] by (simp add: Let_def)
  moreover have "record_written (out1 @ [NEWLINE]) (1 + length (calls_of ?f)) i st (file_printf (out1 @ [NEWLINE]) st4)"
    using only_names_fields [OF calls(3)] only_names_fields [OF place(4)] calls(3) place(4) assms(6)
    by (auto simp: record_written_def file_printf_def put_frame_def at_end_def end_stack_def Let_def only_names_def)
  moreover have "prof_known (file_printf (out1 @ [NEWLINE]) st4) known'" using calls(2) by (simp add: file_printf_def)
  ultimately show ?thesis using calls(4)
    by (intro exI [of _ "file_printf (out1 @ [NEWLINE]) st4"] exI [of _ known'] exI [of _ "out1 @ [NEWLINE]"]) simp
qed


section \<open>Runs\<close>

text \<open>
  What happens to the profiler while a script runs.  A call pushes a frame that is zeroed but for what the engine
  tells of it (\<open>xdebug_add_stack_frame\<close>), a return pops it; a finish is the end of the request, an \<open>exit\<close> or a
  \<open>pcntl_exec\<close>.
\<close>

datatype profile_event = Call_user profile_frame "profile_code option" | Call_internal profile_frame | Return_user | Return_internal | Finish

definition new_frame :: "profile_frame \<Rightarrow> profile_frame" where
  "new_frame fse = fse\<lparr>pr_nanotime := 0, pr_nanotime_mark := 0, pr_memory := 0, pr_mem_mark := 0, pr_call_list := None, pr_lineno := 0,
     pr_filename := None, pr_function := None\<rparr>"

definition push_frame :: "profile_frame \<Rightarrow> profiler \<Rightarrow> profiler" where
  "push_frame fse st = st\<lparr>prf_stack := prf_stack st @ [new_frame fse]\<rparr>"

definition pop_frame :: "profiler \<Rightarrow> profiler" where
  "pop_frame st = st\<lparr>prf_stack := butlast (prf_stack st)\<rparr>"

fun happen :: "html_settings \<Rightarrow> profiler_settings \<Rightarrow> profile_event \<Rightarrow> profiler \<Rightarrow> profiler option" where
  "happen hs ps (Call_user fse code) st = xdebug_profiler_execute_ex hs (length (prf_stack st)) code (push_frame fse st)"
| "happen hs ps (Call_internal fse) st = xdebug_profiler_execute_internal hs (length (prf_stack st)) (push_frame fse st)"
| "happen hs ps Return_user st =
     (if prf_stack st = [] then None else map_option pop_frame (xdebug_profiler_execute_ex_end (length (prf_stack st) - 1) st))"
| "happen hs ps Return_internal st =
     (if prf_stack st = [] then None else map_option pop_frame (xdebug_profiler_execute_internal_end (length (prf_stack st) - 1) st))"
| "happen hs ps Finish st = deinit_if_active ps st"

text \<open>The records that are to be read of it.\<close>

fun ended_items :: "nat list \<Rightarrow> profiler \<Rightarrow> profile_item list" where
  "ended_items [] st = []"
| "ended_items (i # is) st = frame_items (ended st (prf_stack st ! i)) @
     (case xdebug_profiler_function_end i st of Some st1 \<Rightarrow> ended_items is st1 | None \<Rightarrow> [])"

definition summary_item :: "profiler_settings \<Rightarrow> profiler \<Rightarrow> profile_item" where
  "summary_item ps st =
     Other_line (''summary: '' @ dec (unat (NANOTIME_SCALE_10NS (prf_clock st (prf_tick st) - prf_start_nanotime st))) @ '' '' @
                 dec_int (sint (ps_peak_memory ps)))"

fun event_items :: "profiler_settings \<Rightarrow> profile_event \<Rightarrow> profiler \<Rightarrow> profile_item list" where
  "event_items ps (Call_user fse code) st = []"
| "event_items ps (Call_internal fse) st = []"
| "event_items ps Return_user st = (if prf_active st then ended_items [length (prf_stack st) - 1] st else [])"
| "event_items ps Return_internal st = (if prf_active st then ended_items [length (prf_stack st) - 1] st else [])"
| "event_items ps Finish st =
     (if prf_active st
      then (let is = rev [0..<length (prf_stack st)] in
            ended_items is st @ (case loop_over xdebug_profiler_function_end is st of
                                   Some st1 \<Rightarrow> [summary_item ps st1, Other_line []] | None \<Rightarrow> []))
      else [])"

fun run_items :: "html_settings \<Rightarrow> profiler_settings \<Rightarrow> profile_event list \<Rightarrow> profiler \<Rightarrow> profile_item list" where
  "run_items hs ps [] st = []"
| "run_items hs ps (ev # evs) st =
     event_items ps ev st @ (case happen hs ps ev st of Some st1 \<Rightarrow> run_items hs ps evs st1 | None \<Rightarrow> [])"

section \<open>The file only grows\<close>

definition grows :: "profiler \<Rightarrow> profiler \<Rightarrow> bool" where
  "grows st st' \<longleftrightarrow> length (prf_output st) \<le> length (prf_output st')"

lemma grows_refl [simp]: "grows st st" by (simp add: grows_def)

lemma grows_trans: "grows st st1 \<Longrightarrow> grows st1 st2 \<Longrightarrow> grows st st2" by (simp add: grows_def)

lemma grows_updates [simp]:
  "grows st (st'\<lparr>prf_stack := a\<rparr>) = grows st st'" "grows st (put_frame i f st') = grows st st'"
  "grows (st\<lparr>prf_stack := a\<rparr>) st' = grows st st'" "grows (put_frame i f st) st' = grows st st'" "grows st (pop_frame st') = grows st st'"
  "grows (push_frame fse st) st' = grows st st'"
  by (simp_all add: grows_def put_frame_def pop_frame_def push_frame_def)

lemma grows_printf: "grows st (file_printf out1 st)"
  by (simp add: grows_def file_printf_def)

lemma function_place_grows:
  "function_place prefix user filename fname st = Some (place, st') \<Longrightarrow>
    prf_output st' = prf_output st \<and> prf_file_name st' = prf_file_name st"
  by (auto simp: function_place_def add_functionname_ref_def add_filename_ref_def split: Option.bind_splits if_splits prod.splits)

lemma called_places_grow:
  "loop_over called_place calls (buf, st) = Some (out1, st') \<Longrightarrow>
    prf_output st' = prf_output st \<and> prf_file_name st' = prf_file_name st \<and> length buf + length calls \<le> length out1"
proof (induction calls arbitrary: buf st)
  case (Cons ce calls)
  from Cons.prems obtain buf1 st1 where 1: "called_place ce (buf, st) = Some (buf1, st1)" "loop_over called_place calls (buf1, st1) = Some (out1, st')"
    by (auto split: Option.bind_splits)
  from 1(1) have "prf_output st1 = prf_output st" "prf_file_name st1 = prf_file_name st" "length buf < length buf1"
    by (auto simp: called_place_def dest: function_place_grows)
  with Cons.IH [OF 1(2)] show ?case by simp
qed simp

lemma function_push_output: "xdebug_profiler_function_push i st = Some st' \<Longrightarrow> prf_output st' = prf_output st"
  by (auto simp: xdebug_profiler_function_push_def xdebug_get_nanotime_def memory_usage_def put_frame_def split: Option.bind_splits)

lemma tell_caller_output: "tell_caller i st = Some st' \<Longrightarrow> prf_output st' = prf_output st"
  by (auto simp: tell_caller_def put_frame_def split: Option.bind_splits if_splits)

lemma new_call_list_output [simp]: "prf_output (new_call_list i st) = prf_output st"
  by (simp add: new_call_list_def put_frame_def split: option.split)

lemma function_end_grows: "xdebug_profiler_function_end i st = Some st' \<Longrightarrow> grows st st'"
  by (auto simp: xdebug_profiler_function_end_def Let_def grows_def file_printf_def put_frame_def split: Option.bind_splits if_splits prod.splits
      dest!: function_push_output tell_caller_output function_place_grows called_places_grow)

lemma free_details_grows: "xdebug_profiler_free_function_details i st = Some st' \<Longrightarrow> grows st st'"
  by (auto simp: xdebug_profiler_free_function_details_def split: Option.bind_splits)

lemma function_ends_grow: "loop_over xdebug_profiler_function_end is st = Some st' \<Longrightarrow> grows st st'"
  by (induction "is" arbitrary: st) (auto split: Option.bind_splits intro: grows_trans dest: function_end_grows)

text \<open>A call that is profiled: the frame knows its names, and its time begins.\<close>

definition begun :: "profiler \<Rightarrow> int \<Rightarrow> string \<Rightarrow> string \<Rightarrow> profile_frame \<Rightarrow> profile_frame" where
  "begun st lineno filename fname fse = fse\<lparr>pr_lineno := at_least_line_1 lineno, pr_filename := Some filename, pr_function := Some fname,
     pr_nanotime := 0, pr_nanotime_mark := prf_clock st (prf_tick st), pr_memory := 0, pr_mem_mark := prf_memory_use st (Suc (prf_tick st))\<rparr>"

lemma function_begin_eq:
  "i < length (prf_stack st) \<Longrightarrow> xdebug_profiler_function_begin i st =
    Some (st\<lparr>prf_stack := (prf_stack st)[i := (prf_stack st ! i)\<lparr>pr_nanotime := 0, pr_nanotime_mark := prf_clock st (prf_tick st),
             pr_memory := 0, pr_mem_mark := prf_memory_use st (Suc (prf_tick st))\<rparr>], prf_tick := prf_tick st + 2\<rparr>)"
  by (simp add: xdebug_profiler_function_begin_def frame_at_def xdebug_get_nanotime_def memory_usage_def put_frame_def)

definition shown_name :: "html_settings \<Rightarrow> profile_frame \<Rightarrow> string option" where
  "shown_name hs fse =
     Option.bind (show_fname_flags hs (fr_function fse) XDEBUG_SHOW_FNAME_DEFAULT)
       (\<lambda>name. if is_include (fr_function fse)
               then map_option (\<lambda>file_name. name @ ''::'' @ c_str file_name) (fn_include_filename (fr_function fse)) else Some name)"

definition place_of :: "profile_code option \<Rightarrow> profile_frame \<Rightarrow> string option" where
  "place_of code fse = (case Option.bind code pc_filename of Some file_name \<Rightarrow> Some file_name | None \<Rightarrow> fr_filename fse)"

definition line_of :: "profile_code option \<Rightarrow> profile_frame \<Rightarrow> int" where
  "line_of code fse = (if is_include (fr_function fse) then 1
     else (case code of Some code1 \<Rightarrow> pc_line_start code1 | None \<Rightarrow> fr_lineno fse))"

lemma details_user_eq:
  assumes "i < length (prf_stack st)"
  shows "xdebug_profiler_add_function_details_user hs i code st =
    do { fname \<leftarrow> shown_name hs (prf_stack st ! i); filename \<leftarrow> place_of code (prf_stack st ! i);
         Some (put_frame i ((prf_stack st ! i)\<lparr>pr_lineno := at_least_line_1 (line_of code (prf_stack st ! i)),
           pr_filename := Some filename, pr_function := Some fname\<rparr>) st) }"
  using assms
  by (cases "show_fname_flags hs (fr_function (prf_stack st ! i)) XDEBUG_SHOW_FNAME_DEFAULT";
      cases "is_include (fr_function (prf_stack st ! i))"; cases "fn_include_filename (fr_function (prf_stack st ! i))")
    (simp_all add: xdebug_profiler_add_function_details_user_def frame_at_def shown_name_def place_of_def line_of_def)

lemma details_internal_eq:
  assumes "i < length (prf_stack st)"
  shows "xdebug_profiler_add_function_details_internal hs i st =
    (if is_include (fr_function (prf_stack st ! i)) then None
     else do { fname \<leftarrow> shown_name hs (prf_stack st ! i); filename \<leftarrow> place_of None (prf_stack st ! i);
         Some (put_frame i ((prf_stack st ! i)\<lparr>pr_lineno := at_least_line_1 (line_of None (prf_stack st ! i)),
           pr_filename := Some filename, pr_function := Some fname\<rparr>) st) })"
  using assms
  by (cases "show_fname_flags hs (fr_function (prf_stack st ! i)) XDEBUG_SHOW_FNAME_DEFAULT"; cases "fr_filename (prf_stack st ! i)")
    (simp_all add: xdebug_profiler_add_function_details_internal_def frame_at_def shown_name_def place_of_def line_of_def)

lemma begin_put_frame:
  assumes "i < length (prf_stack st)"
  shows "xdebug_profiler_function_begin i (put_frame i (fse\<lparr>pr_lineno := at_least_line_1 lineno, pr_filename := Some filename, pr_function := Some fname\<rparr>) st) =
    Some (st\<lparr>prf_stack := (prf_stack st)[i := begun st lineno filename fname fse], prf_tick := prf_tick st + 2\<rparr>)"
  using assms function_begin_eq [of i "put_frame i (fse\<lparr>pr_lineno := at_least_line_1 lineno, pr_filename := Some filename, pr_function := Some fname\<rparr>) st"]
  by (simp add: put_frame_def begun_def)

definition start_call :: "html_settings \<Rightarrow> nat \<Rightarrow> profile_code option \<Rightarrow> profiler \<Rightarrow> profiler option" where
  "start_call hs i code st =
     do { fname \<leftarrow> shown_name hs (prf_stack st ! i); filename \<leftarrow> place_of code (prf_stack st ! i);
          Some (st\<lparr>prf_stack := (prf_stack st)[i := begun st (line_of code (prf_stack st ! i)) filename fname (prf_stack st ! i)],
                   prf_tick := prf_tick st + 2\<rparr>) }"

lemma execute_ex_begins:
  assumes "prf_active st" "i < length (prf_stack st)"
  shows "xdebug_profiler_execute_ex hs i code st = start_call hs i code st"
    "xdebug_profiler_execute_internal hs i st = (if is_include (fr_function (prf_stack st ! i)) then None else start_call hs i None st)"
  using assms
  by (simp_all add: xdebug_profiler_execute_ex_def xdebug_profiler_execute_internal_def details_user_eq details_internal_eq begin_put_frame
      start_call_def split: Option.bind_splits)

lemma start_call_grows: "start_call hs i code st = Some st' \<Longrightarrow> grows st st'"
  by (auto simp: start_call_def grows_def split: Option.bind_splits)

lemma execute_grows:
  assumes "i < length (prf_stack st)"
  shows "xdebug_profiler_execute_ex hs i code st = Some st' \<Longrightarrow> grows st st'"
    "xdebug_profiler_execute_internal hs i st = Some st' \<Longrightarrow> grows st st'"
  using assms execute_ex_begins [of st i hs]
  by (auto simp: xdebug_profiler_execute_ex_def xdebug_profiler_execute_internal_def intro: start_call_grows split: if_splits)

lemma happen_grows: "happen hs ps ev st = Some st' \<Longrightarrow> grows st st'"
proof (cases ev)
  case (Call_user fse code)
  assume "happen hs ps ev st = Some st'"
  with Call_user have "grows (push_frame fse st) st'" by (intro execute_grows(1)) (auto simp: push_frame_def)
  then show ?thesis by simp
next
  case (Call_internal fse)
  assume "happen hs ps ev st = Some st'"
  with Call_internal have "grows (push_frame fse st) st'" by (intro execute_grows(2)) (auto simp: push_frame_def)
  then show ?thesis by simp
next
  case Finish
  assume "happen hs ps ev st = Some st'"
  with Finish show ?thesis
    by (auto simp: deinit_if_active_def xdebug_profiler_deinit_def Let_def xdebug_get_nanotime_def split: Option.bind_splits if_splits
        dest!: function_ends_grow) (auto simp: grows_def file_printf_def)
qed (auto simp: xdebug_profiler_execute_ex_end_def xdebug_profiler_execute_internal_end_def split: if_splits Option.bind_splits
    dest!: function_end_grows free_details_grows intro: grows_trans)

lemma run_grows: "loop_over (happen hs ps) evs st = Some st' \<Longrightarrow> grows st st'"
  by (induction evs arbitrary: st) (auto split: Option.bind_splits intro: grows_trans dest: happen_grows)

section \<open>Reading a run\<close>

definition reads_so_far :: "string \<Rightarrow> profile_item list \<Rightarrow> profiler \<Rightarrow> bool" where
  "reads_so_far out0 items st \<longleftrightarrow> (\<exists>txt known. prf_output st = out0 @ txt \<and> reads_as txt (\<lambda>n. None, \<lambda>n. None) items known \<and>
     (prf_active st \<longrightarrow> prof_known st known \<and> prf_file_name st \<noteq> None \<and> list_all frame_named (prf_stack st) \<and>
       prf_last_filename_ref st \<le> 1 + int (length txt) \<and> prf_last_functionname_ref st \<le> 1 + int (length txt)))"

lemma function_end_length:
  assumes "prf_active st" "i < length (prf_stack st)" "frame_named (prf_stack st ! i)" "prf_file_name st \<noteq> None"
    "xdebug_profiler_function_end i st = Some st'"
  shows "length (prf_output st) + 1 + length (calls_of (prf_stack st ! i)) \<le> length (prf_output st')"
proof -
  let ?e = "ended st (prf_stack st ! i)" and ?calls = "calls_of (prf_stack st ! i)"
  from assms(3) obtain filename fname where "pr_filename (prf_stack st ! i) = Some filename" "pr_function (prf_stack st ! i) = Some fname"
    by (auto simp: frame_named_def)
  from function_end_eq [OF assms(1,2) this] assms(5) obtain place st3 buf out1 st4 where
    "function_place [] (fr_user_defined ?e) (if fr_user_defined ?e then filename else []) fname (at_end i st) = Some (place, st3)"
    "loop_over called_place ?calls (buf, put_frame i (without_calls ?calls ?e) st3) = Some (out1, st4)"
    "st' = file_printf (out1 @ [NEWLINE]) st4"
    by (auto simp: Let_def split: Option.bind_splits)
  from function_place_grows [OF this(1)] called_places_grow [OF this(2)] this(3) show ?thesis using assms(4)
    by (simp add: file_printf_def at_end_def Let_def put_frame_def)
qed


lemma named_ended: "frame_named fse \<Longrightarrow> frame_named (without_calls cs (ended st fse))"
  by (simp add: frame_named_def calls_of_def without_calls_def ended_def)

lemma named_told: "frame_named fse \<Longrightarrow> frame_named caller \<Longrightarrow> frame_named (told (call_entry (ended st fse)) caller)"
  by (auto simp: frame_named_def calls_of_def told_def call_entry_def ended_def plain_entry_def)

lemma end_stack_named:
  assumes "list_all frame_named (prf_stack st)" "i < length (prf_stack st)" shows "list_all frame_named (end_stack i st)"
  using assms named_ended [of "prf_stack st ! i"] named_told [of "prf_stack st ! i" "prf_stack st ! (i - 1)"]
  by (auto simp: end_stack_def tell_def Let_def list_all_length nth_list_update)

lemma end_stack_length [simp]: "length (end_stack i st) = length (prf_stack st)"
  by (simp add: end_stack_def tell_def Let_def)

lemma end_keeps_reading:
  assumes "reads_so_far out0 items st" "prf_active st" "i < length (prf_stack st)" "xdebug_profiler_function_end i st = Some st'"
    "length (prf_output st') < 2 ^ 31 - 1"
  shows "reads_so_far out0 (items @ frame_items (ended st (prf_stack st ! i))) st' \<and> prf_active st' \<and> prf_stack st' = end_stack i st \<and>
    prf_file_name st' = prf_file_name st"
proof -
  let ?n = "1 + length (calls_of (prf_stack st ! i))"
  from assms(1,2) obtain out1 known where r: "prf_output st = out0 @ out1" "reads_as out1 (\<lambda>n. None, \<lambda>n. None) items known"
    "prof_known st known" "prf_file_name st \<noteq> None" "list_all frame_named (prf_stack st)"
    "prf_last_filename_ref st \<le> 1 + int (length out1)" "prf_last_functionname_ref st \<le> 1 + int (length out1)"
    by (auto simp: reads_so_far_def)
  have frame_named: "frame_named (prf_stack st ! i)" using r(5) assms(3) by (simp add: list_all_length)
  have "length (prf_output st) + ?n \<le> length (prf_output st')"
    using function_end_length [OF assms(2,3) frame_named r(4) assms(4)] by simp
  then have "room (int ?n) st" using assms(5) r(1,6,7) by (simp add: room_def)
  then have "room (1 + int (length (calls_of (prf_stack st ! i)))) st" by simp
  from function_end_reads [OF assms(2,3) frame_named r(3) this r(4)] assms(4) obtain known' out2 where e: "prof_known st' known'"
    "reads_as out2 known (frame_items (ended st (prf_stack st ! i))) known'" "?n \<le> length out2" "record_written out2 ?n i st st'"
    by auto
  have "reads_so_far out0 (items @ frame_items (ended st (prf_stack st ! i))) st'"
    unfolding reads_so_far_def
    using reads_as_append [OF r(2) e(2)] e(1,3,4) r(1,4-7) end_stack_named [OF r(5) assms(3)]
    by (intro exI [of _ "out1 @ out2"] exI [of _ known']) (auto simp: record_written_def)
  with e(4) assms(2) show ?thesis by (simp add: record_written_def)
qed


lemma ends_keep_reading:
  assumes "reads_so_far out0 items st" "prf_active st" "list_all (\<lambda>i. i < length (prf_stack st)) is"
    "loop_over xdebug_profiler_function_end is st = Some st'" "length (prf_output st') < 2 ^ 31 - 1"
  shows "reads_so_far out0 (items @ ended_items is st) st' \<and> prf_active st' \<and> prf_file_name st' = prf_file_name st"
  using assms
proof (induction "is" arbitrary: items st)
  case (Cons i "is")
  from Cons.prems(4) obtain st1 where st1: "xdebug_profiler_function_end i st = Some st1"
    "loop_over xdebug_profiler_function_end is st1 = Some st'" by (auto split: Option.bind_splits)
  from function_ends_grow [OF st1(2)] Cons.prems(5) have "length (prf_output st1) < 2 ^ 31 - 1" by (simp add: grows_def)
  from end_keeps_reading [OF Cons.prems(1,2) _ st1(1) this] Cons.prems(3)
  have 1: "reads_so_far out0 (items @ frame_items (ended st (prf_stack st ! i))) st1" "prf_active st1" "prf_stack st1 = end_stack i st"
    "prf_file_name st1 = prf_file_name st" by auto
  from Cons.IH [OF 1(1,2) _ st1(2) Cons.prems(5)] Cons.prems(3) 1(3,4) st1(1) show ?case by simp
qed simp

text \<open>Names the engine gives, without line breaks.\<close>

definition plain_opt :: "string option \<Rightarrow> bool" where
  "plain_opt s = (case s of Some t \<Rightarrow> plain t | None \<Rightarrow> True)"

definition plain_frame :: "profile_frame \<Rightarrow> bool" where
  "plain_frame fse \<longleftrightarrow> plain_opt (fr_filename fse) \<and> plain_opt (fn_object_class (fr_function fse)) \<and> plain_opt (fn_scope_class (fr_function fse)) \<and>
     plain_opt (fn_function (fr_function fse)) \<and> plain_opt (fn_include_filename (fr_function fse))"

fun plain_event :: "profile_event \<Rightarrow> bool" where
  "plain_event (Call_user fse code) = (plain_frame fse \<and> plain_opt (Option.bind code pc_filename))"
| "plain_event (Call_internal fse) = plain_frame fse"
| "plain_event ev = True"

lemma plain_no_newline: "NEWLINE \<notin> set s \<Longrightarrow> plain s"
  by (auto simp: plain_def c_str_def dest: set_takeWhileD)

lemma shown_name_plain:
  assumes "plain_frame fse" "shown_name hs fse = Some name" shows "plain name"
proof -
  have 0: "and XDEBUG_SHOW_FNAME_DEFAULT n = 0" for n by (simp add: XDEBUG_SHOW_FNAME_DEFAULT_def)
  have "NEWLINE \<notin> set shown" if "show_fname_flags hs (fr_function fse) XDEBUG_SHOW_FNAME_DEFAULT = Some shown" for shown
    using that assms(1) by (auto simp: show_fname_flags_def Let_def 0 show_member_def show_include_def plain_frame_def plain_opt_def plain_def
        split: if_splits option.splits)
  with assms show ?thesis
    by (intro plain_no_newline) (auto simp: shown_name_def plain_frame_def plain_opt_def plain_def split: Option.bind_splits if_splits)
qed

lemma place_of_plain: "plain_frame fse \<Longrightarrow> plain_opt (Option.bind code pc_filename) \<Longrightarrow> place_of code fse = Some filename \<Longrightarrow> plain filename"
  by (auto simp: place_of_def plain_frame_def plain_opt_def split: option.splits)

lemma call_keeps_reading:
  assumes "reads_so_far out0 items st" "prf_active st" "plain_frame fse" "plain_opt (Option.bind code pc_filename)"
    "start_call hs (length (prf_stack st)) code (push_frame fse st) = Some st'"
  shows "reads_so_far out0 items st'"
proof -
  have new: "plain_frame (new_frame fse)" "calls_of (new_frame fse) = []" using assms(3) by (simp_all add: plain_frame_def new_frame_def calls_of_def)
  from assms(5) obtain fname filename where r: "shown_name hs (new_frame fse) = Some fname" "place_of code (new_frame fse) = Some filename"
    "st' = st\<lparr>prf_stack := prf_stack st @ [begun st (line_of code (new_frame fse)) filename fname (new_frame fse)], prf_tick := prf_tick st + 2\<rparr>"
    by (auto simp: start_call_def push_frame_def begun_def split: Option.bind_splits)
  have "frame_named (begun st (line_of code (new_frame fse)) filename fname (new_frame fse))"
    using shown_name_plain [OF new(1) r(1)] place_of_plain [OF new(1) assms(4) r(2)] new(2) by (simp add: frame_named_def begun_def calls_of_def)
  with assms(1,2) show ?thesis by (auto simp: reads_so_far_def r(3))
qed

lemma return_keeps_reading:
  assumes "reads_so_far out0 items st" "prf_active st" "prf_stack st \<noteq> []" "xdebug_profiler_function_end (length (prf_stack st) - 1) st = Some st1"
    "xdebug_profiler_free_function_details (length (prf_stack st) - 1) st1 = Some st2" "length (prf_output st2) < 2 ^ 31 - 1"
  shows "reads_so_far out0 (items @ ended_items [length (prf_stack st) - 1] st) (pop_frame st2)"
proof -
  let ?i = "length (prf_stack st) - 1"
  obtain f where st2: "st2 = put_frame ?i f st1" using assms(5)
    by (auto simp: xdebug_profiler_free_function_details_def split: Option.bind_splits)
  have read: "reads_so_far out0 (items @ frame_items (ended st (prf_stack st ! ?i))) st1" "prf_stack st1 = end_stack ?i st"
    using end_keeps_reading [OF assms(1,2) _ assms(4)] assms(3,6) by (simp_all add: st2 put_frame_def)
  moreover have "reads_so_far out0 is (pop_frame (put_frame (length (prf_stack s) - 1) f s))" if "reads_so_far out0 is s" for "is" s
  proof -
    from that obtain txt1 known where r: "prf_output s = out0 @ txt1" "reads_as txt1 (\<lambda>n. None, \<lambda>n. None) is known"
      "prf_active s \<longrightarrow> prof_known s known \<and> prf_file_name s \<noteq> None \<and> list_all frame_named (prf_stack s) \<and>
        prf_last_filename_ref s \<le> 1 + int (length txt1) \<and> prf_last_functionname_ref s \<le> 1 + int (length txt1)"
      unfolding reads_so_far_def by blast
    have "list_all frame_named (butlast ((prf_stack s)[length (prf_stack s) - 1 := f]))" if "list_all frame_named (prf_stack s)"
      using that by (cases "prf_stack s" rule: rev_cases) simp_all
    with r show ?thesis unfolding reads_so_far_def
      by (intro exI [of _ txt1] exI [of _ known]) (simp add: pop_frame_def put_frame_def)
  qed
  ultimately have "reads_so_far out0 (items @ frame_items (ended st (prf_stack st ! ?i))) (pop_frame (put_frame (length (prf_stack st1) - 1) f st1))"
    by blast
  then show ?thesis using assms(4) \<open>prf_stack st1 = end_stack ?i st\<close> by (simp add: st2)
qed

lemma finish_keeps_reading:
  assumes "reads_so_far out0 items st" "prf_active st" "xdebug_profiler_deinit ps st = Some st'" "length (prf_output st') < 2 ^ 31 - 1"
  shows "reads_so_far out0 (items @ event_items ps Finish st) st'"
proof -
  let ?is = "rev [0..<length (prf_stack st)]"
  let ?line = "\<lambda>st1. ''summary: '' @ dec (unat (NANOTIME_SCALE_10NS (prf_clock st1 (prf_tick st1) - prf_start_nanotime st1))) @ '' '' @
    dec_int (sint (ps_peak_memory ps))"
  from assms(3) obtain st1 where st1: "loop_over xdebug_profiler_function_end ?is st = Some st1"
    by (auto simp: xdebug_profiler_deinit_def Let_def split: Option.bind_splits)
  have out: "prf_output st' = prf_output st1 @ (if prf_file_name st1 = None then [] else ?line st1 @ [NEWLINE, NEWLINE])"
    "\<not> prf_active st'"
    using assms(3) st1 by (auto simp: xdebug_profiler_deinit_def Let_def xdebug_get_nanotime_def file_printf_def)
  have "list_all (\<lambda>i. i < length (prf_stack st)) ?is" by (simp add: list_all_iff)
  from ends_keep_reading [OF assms(1,2) this st1] assms(4) out(1)
  have 1: "reads_so_far out0 (items @ ended_items ?is st) st1" "prf_active st1" by simp_all
  then obtain txt1 known where r: "prf_output st1 = out0 @ txt1" "reads_as txt1 (\<lambda>n. None, \<lambda>n. None) (items @ ended_items ?is st) known"
    "prf_file_name st1 \<noteq> None" unfolding reads_so_far_def by blast
  have "NEWLINE \<notin> set (?line st1)" by (simp add: dec_plain dec_int_def)
  then have "reads_as (?line st1 @ [NEWLINE]) known [Other_line (?line st1)] known"
    by (rule reads_as_other) (simp add: prefixb_def)
  from reads_as_append [OF r(2) reads_as_append [OF this reads_as_other [of "[]"]]]
  have "reads_as (txt1 @ (?line st1 @ [NEWLINE]) @ [] @ [NEWLINE]) (\<lambda>n. None, \<lambda>n. None)
      ((items @ ended_items ?is st) @ [summary_item ps st1] @ [Other_line []]) known"
    by (simp add: summary_item_def)
  moreover have "event_items ps Finish st = ended_items ?is st @ [summary_item ps st1, Other_line []]"
    using assms(2) st1 by (simp only: event_items.simps if_True Let_def option.simps)
  ultimately show ?thesis using out r unfolding reads_so_far_def
    by (intro exI [of _ "txt1 @ (?line st1 @ [NEWLINE]) @ [] @ [NEWLINE]"] exI [of _ known]) simp
qed


lemma inactive_return_keeps_reading:
  assumes "reads_so_far out0 items st" "\<not> prf_active st"
  shows "xdebug_profiler_free_function_details i st = Some st' \<Longrightarrow> reads_so_far out0 items (pop_frame st')" "reads_so_far out0 items (pop_frame st)"
proof -
  have keep: "reads_so_far out0 items (st\<lparr>prf_stack := s\<rparr>)" for s using assms by (simp add: reads_so_far_def)
  then show "reads_so_far out0 items (pop_frame st)" by (simp add: pop_frame_def)
  show "reads_so_far out0 items (pop_frame st')" if "xdebug_profiler_free_function_details i st = Some st'"
    using that keep by (auto simp: xdebug_profiler_free_function_details_def put_frame_def pop_frame_def split: Option.bind_splits)
qed

lemma happen_keeps_reading:
  assumes "reads_so_far out0 items st" "plain_event ev" "happen hs ps ev st = Some st'" "length (prf_output st') < 2 ^ 31 - 1"
  shows "reads_so_far out0 (items @ event_items ps ev st) st'"
proof (cases "prf_active st")
  case False
  then have inactive: "reads_so_far out0 items (push_frame fse st)" for fse
    using assms(1) by (simp add: reads_so_far_def push_frame_def)
  from False assms(3) inactive_return_keeps_reading [OF assms(1) False] inactive assms(1) show ?thesis
    by (cases ev) (auto simp: xdebug_profiler_execute_ex_def xdebug_profiler_execute_internal_def xdebug_profiler_execute_ex_end_def
        xdebug_profiler_execute_internal_end_def xdebug_profiler_function_end_def deinit_if_active_def push_frame_def split: if_splits)
next
  case True
  let ?i = "length (prf_stack st) - 1"
  have start: "i < length (prf_stack (push_frame fse st))" "prf_active (push_frame fse st)" if "i = length (prf_stack st)" for fse i
    using that True by (simp_all add: push_frame_def)
  have return: ?thesis if "prf_stack st \<noteq> []" "st' = pop_frame st2" "event_items ps ev st = ended_items [?i] st"
      "Option.bind (xdebug_profiler_function_end ?i st) (xdebug_profiler_free_function_details ?i) = Some st2" for st2
  proof -
    from that(4) obtain st1 where "xdebug_profiler_function_end ?i st = Some st1" "xdebug_profiler_free_function_details ?i st1 = Some st2"
      by (auto split: Option.bind_splits)
    moreover have "length (prf_output st2) < 2 ^ 31 - 1" using assms(4) by (simp add: that(2) pop_frame_def)
    ultimately show ?thesis using return_keeps_reading [OF assms(1) True that(1)] by (simp only: that(2,3))
  qed
  show ?thesis
  proof (cases ev)
    case (Call_user fse code)
    with assms(2,3) execute_ex_begins(1) [OF start(2,1), of "length (prf_stack st)"] show ?thesis
      by (auto intro: call_keeps_reading [OF assms(1) True])
  next
    case (Call_internal fse)
    with assms(2,3) execute_ex_begins(2) [OF start(2,1), of "length (prf_stack st)"] show ?thesis
      by (auto intro: call_keeps_reading [OF assms(1) True, of fse None] simp: plain_opt_def split: if_splits)
  next
    case Return_user
    with assms(3) True obtain st2 where "prf_stack st \<noteq> []" "st' = pop_frame st2"
      "Option.bind (xdebug_profiler_function_end ?i st) (xdebug_profiler_free_function_details ?i) = Some st2"
      by (auto simp: xdebug_profiler_execute_ex_end_def split: if_splits)
    then show ?thesis using True Return_user by (intro return) simp_all
  next
    case Return_internal
    with assms(3) True obtain st2 where "prf_stack st \<noteq> []" "st' = pop_frame st2"
      "Option.bind (xdebug_profiler_function_end ?i st) (xdebug_profiler_free_function_details ?i) = Some st2"
      by (auto simp: xdebug_profiler_execute_internal_end_def split: if_splits)
    then show ?thesis using True Return_internal by (intro return) simp_all
  next
    case Finish
    with assms(3) True have "xdebug_profiler_deinit ps st = Some st'" by (simp add: deinit_if_active_def)
    from finish_keeps_reading [OF assms(1) True this assms(4)] Finish show ?thesis by simp
  qed
qed

lemma run_keeps_reading:
  "reads_so_far out0 items st \<Longrightarrow> list_all plain_event evs \<Longrightarrow> loop_over (happen hs ps) evs st = Some st' \<Longrightarrow>
    length (prf_output st') < 2 ^ 31 - 1 \<Longrightarrow> reads_so_far out0 (items @ run_items hs ps evs st) st'"
proof (induction evs arbitrary: items st)
  case (Cons ev evs)
  from Cons.prems(3) obtain st1 where st1: "happen hs ps ev st = Some st1" "loop_over (happen hs ps) evs st1 = Some st'"
    by (auto split: Option.bind_splits)
  from run_grows [OF st1(2)] Cons.prems(4) have "length (prf_output st1) < 2 ^ 31 - 1" by (simp add: grows_def)
  from happen_keeps_reading [OF Cons.prems(1) _ st1(1) this] Cons.prems(2)
  have "reads_so_far out0 (items @ event_items ps ev st) st1" by simp
  from Cons.IH [OF this _ st1(2) Cons.prems(4)] Cons.prems(2) st1(1) show ?case by simp
qed simp

text \<open>A profile that has just begun.\<close>

lemma names_ok_empty: "names_ok (xdebug_hash_alloc 128 True) last_ref low known = (int low \<le> last_ref)"
  by (simp add: names_ok_def)

lemma init_reads:
  assumes "xdebug_profiler_init ps env opens script (xdebug_profiler_rinit st0) = Some st" "prf_active st" "prf_stack st0 = []"
  shows "reads_so_far (prf_output st) [] st"
proof -
  have "prof_known st (\<lambda>n. None, \<lambda>n. None)" "prf_file_name st \<noteq> None" "prf_stack st = []" "prf_last_filename_ref st = 1"
    "prf_last_functionname_ref st = 0"
    using assms
    by (auto simp: xdebug_profiler_init_def xdebug_profiler_rinit_def Let_def xdebug_get_nanotime_def profiler_write_header_def file_printf_def
        prof_known_def names_ok_empty split: Option.bind_splits if_splits)
  then show ?thesis unfolding reads_so_far_def
    by (intro exI [of _ "[]"] exI [of _ "(\<lambda>n. None, \<lambda>n. None)"]) (simp add: reads_as_nil)
qed

lemma run_read_back:
  assumes "reads_so_far out0 [] st" "list_all plain_event evs" "loop_over (happen hs ps) evs st = Some st'" "length (prf_output st') < 2 ^ 31 - 1"
  shows "read_profile (drop (length out0) (prf_output st')) = Some (run_items hs ps evs st)"
  using run_keeps_reading [OF assms] by (auto simp: reads_so_far_def reads_as_whole)

end
