(* ===== verification/Xd_Profile_Cost.thy ===== *)
theory Xd_Profile_Cost
  imports Xd_Profile_Run
begin

text \<open>
  The time of a call: what its caller is told is the time between its begin and its end, and each part of it is
  counted for exactly one of the functions that ran.
\<close>

datatype profile_call = User_call profile_frame "profile_code option" "profile_call list" | Internal_call profile_frame "profile_call list"

fun events_of :: "profile_call \<Rightarrow> profile_event list" where
  "events_of (User_call fse code calls) = [Call_user fse code] @ concat (map events_of calls) @ [Return_user]"
| "events_of (Internal_call fse calls) = [Call_internal fse] @ concat (map events_of calls) @ [Return_internal]"

text \<open>The engine gives a name and a file.\<close>

definition has_place :: "html_settings \<Rightarrow> profile_code option \<Rightarrow> profile_frame \<Rightarrow> bool" where
  "has_place hs code fse \<longleftrightarrow> shown_name hs fse \<noteq> None \<and> place_of code fse \<noteq> None"

fun call_ready :: "html_settings \<Rightarrow> profile_call \<Rightarrow> bool" where
  "call_ready hs (User_call fse code calls) = (has_place hs code fse \<and> list_all (call_ready hs) calls)"
| "call_ready hs (Internal_call fse calls) = (has_place hs None fse \<and> \<not> is_include (fr_function fse) \<and> list_all (call_ready hs) calls)"

definition has_names :: "profile_frame \<Rightarrow> bool" where
  "has_names fse \<longleftrightarrow> pr_filename fse \<noteq> None \<and> pr_function fse \<noteq> None"

definition profiled :: "profiler \<Rightarrow> bool" where
  "profiled st \<longleftrightarrow> prf_active st \<and> prf_filename_refs st \<noteq> None \<and> prf_functionname_refs st \<noteq> None \<and> list_all has_names (prf_stack st)"

definition own_time :: "profiler \<Rightarrow> 64 word list" where
  "own_time st = (let i = length (prf_stack st) - 1 in
     case xdebug_profiler_function_end i st of Some st1 \<Rightarrow> [pr_nanotime (prf_stack st1 ! i)] | None \<Rightarrow> [])"

text \<open>The times counted for the functions that end in a run.\<close>

fun own_times :: "html_settings \<Rightarrow> profiler_settings \<Rightarrow> profile_event list \<Rightarrow> profiler \<Rightarrow> 64 word list" where
  "own_times hs ps [] st = []"
| "own_times hs ps (ev # evs) st =
     (if ev = Return_user \<or> ev = Return_internal then own_time st else []) @
     (case happen hs ps ev st of Some st1 \<Rightarrow> own_times hs ps evs st1 | None \<Rightarrow> [])"

lemma own_times_append:
  "loop_over (happen hs ps) evs st = Some st1 \<Longrightarrow> own_times hs ps (evs @ evs') st = own_times hs ps evs st @ own_times hs ps evs' st1"
  by (induction evs arbitrary: st) (auto split: Option.bind_splits)

section \<open>A function always ends\<close>

definition same_run :: "profiler \<Rightarrow> profiler \<Rightarrow> bool" where
  "same_run st st' \<longleftrightarrow> prf_stack st' = prf_stack st \<and> prf_active st' = prf_active st \<and> prf_clock st' = prf_clock st \<and>
     prf_memory_use st' = prf_memory_use st \<and> prf_tick st' = prf_tick st \<and>
     prf_filename_refs st' \<noteq> None \<and> prf_functionname_refs st' \<noteq> None"

lemma function_place_ends:
  assumes "prf_filename_refs st \<noteq> None" "prf_functionname_refs st \<noteq> None"
  shows "\<exists>place st'. function_place prefix user filename fname st = Some (place, st') \<and> same_run st st'"
  using assms
  by (auto simp: function_place_def add_filename_ref_def add_functionname_ref_def same_run_def split: prod.splits)

lemma called_places_end:
  assumes "prf_filename_refs st \<noteq> None" "prf_functionname_refs st \<noteq> None"
  shows "\<exists>txt1 st'. loop_over called_place calls (buf, st) = Some (txt1, st') \<and> same_run st st'"
  using assms
proof (induction calls arbitrary: buf st)
  case (Cons ce calls)
  from function_place_ends [OF Cons.prems] obtain place st1 where
    "function_place ''c'' (ce_user_defined ce) (ce_filename ce) (ce_function ce) st = Some (place, st1)" "same_run st st1" by blast
  then have 1: "\<exists>buf1. called_place ce (buf, st) = Some (buf1, st1)" "same_run st st1" by (simp_all add: called_place_def)
  then obtain buf1 where "called_place ce (buf, st) = Some (buf1, st1)" by blast
  moreover from 1(2) obtain txt1 st' where "loop_over called_place calls (buf1, st1) = Some (txt1, st')" "same_run st1 st'"
    using Cons.IH [of st1 buf1] by (auto simp: same_run_def)
  ultimately show ?case using 1(2) by (auto simp: same_run_def)
qed (simp add: same_run_def)

lemma function_ends:
  assumes "profiled st" "i < length (prf_stack st)"
  shows "\<exists>st'. xdebug_profiler_function_end i st = Some st' \<and> profiled st' \<and> prf_stack st' = end_stack i st \<and> prf_tick st' = prf_tick st + 2 \<and>
    prf_clock st' = prf_clock st \<and> prf_memory_use st' = prf_memory_use st"
proof -
  let ?e = "ended st (prf_stack st ! i)"
  let ?own = "without_calls (calls_of ?e) ?e"
  from assms obtain filename fname where names: "pr_filename (prf_stack st ! i) = Some filename" "pr_function (prf_stack st ! i) = Some fname"
    by (auto simp: profiled_def has_names_def list_all_length)
  have refs: "prf_filename_refs (at_end i st) \<noteq> None" "prf_functionname_refs (at_end i st) \<noteq> None"
    using assms(1) by (simp_all add: profiled_def at_end_def Let_def)
  from function_place_ends [OF refs] obtain place st3 where place:
    "function_place [] (fr_user_defined ?e) (if fr_user_defined ?e then filename else []) fname (at_end i st) = Some (place, st3)"
    "same_run (at_end i st) st3" by blast
  have refs3: "prf_filename_refs (put_frame i ?own st3) \<noteq> None" "prf_functionname_refs (put_frame i ?own st3) \<noteq> None"
    using place(2) by (simp_all add: same_run_def put_frame_def)
  from called_places_end [OF refs3, of "calls_of ?e" "place @ cost_line (pr_lineno ?own) (pr_nanotime ?own) (pr_memory ?own)"]
  obtain txt1 st4 where calls: "loop_over called_place (calls_of ?e)
      (place @ cost_line (pr_lineno ?own) (pr_nanotime ?own) (pr_memory ?own), put_frame i ?own st3) = Some (txt1, st4)"
    "same_run (put_frame i ?own st3) st4" by blast
  have end1: "xdebug_profiler_function_end i st = Some (file_printf (txt1 @ [NEWLINE]) st4)"
    using function_end_eq [OF _ assms(2) names] assms(1) place(1) calls(1) by (simp add: profiled_def Let_def)
  have stack: "prf_stack st4 = end_stack i st"
    using place(2) calls(2) by (simp add: same_run_def put_frame_def at_end_def end_stack_def Let_def)
  have "list_all has_names (end_stack i st)"
    using assms by (auto simp: end_stack_def tell_def Let_def list_all_length nth_list_update profiled_def has_names_def without_calls_def
        ended_def told_def)
  with end1 stack place(2) calls(2) assms(1) show ?thesis
    by (intro exI [of _ "file_printf (txt1 @ [NEWLINE]) st4"])
      (simp add: same_run_def profiled_def put_frame_def at_end_def file_printf_def Let_def)
qed


section \<open>Calls and their callers\<close>

text \<open>A frame that has been told of calls, and is the same otherwise.\<close>

definition told_of :: "xdebug_call_entry list \<Rightarrow> profile_frame \<Rightarrow> profile_frame \<Rightarrow> bool" where
  "told_of ces fse fse' \<longleftrightarrow> calls_of fse' = calls_of fse @ ces \<and> fse'\<lparr>pr_call_list := None\<rparr> = fse\<lparr>pr_call_list := None\<rparr>"

lemma told_of_nil: "told_of [] fse fse" by (simp add: told_of_def)

lemma told_of_append: "told_of ces fse fse1 \<Longrightarrow> told_of ces' fse1 fse2 \<Longrightarrow> told_of (ces @ ces') fse fse2"
  by (simp add: told_of_def)

lemma told_of_one: "told_of [ce] fse (told ce fse)"
  by (simp add: told_of_def calls_of_simps) (simp add: told_def)

lemma told_of_fields:
  assumes "told_of ces fse fse'"
  shows "pr_nanotime fse' = pr_nanotime fse" "pr_nanotime_mark fse' = pr_nanotime_mark fse" "calls_of fse' = calls_of fse @ ces"
    "has_names fse' = has_names fse"
proof -
  have 1: "fse'\<lparr>pr_call_list := None\<rparr> = fse\<lparr>pr_call_list := None\<rparr>" using assms by (simp add: told_of_def)
  from arg_cong [OF 1, of pr_nanotime] show "pr_nanotime fse' = pr_nanotime fse" by simp
  from arg_cong [OF 1, of pr_nanotime_mark] show "pr_nanotime_mark fse' = pr_nanotime_mark fse" by simp
  from arg_cong [OF 1, of pr_filename] arg_cong [OF 1, of pr_function] show "has_names fse' = has_names fse" by (simp add: has_names_def)
  show "calls_of fse' = calls_of fse @ ces" using assms by (simp add: told_of_def)
qed

definition goes_on :: "profiler \<Rightarrow> profiler \<Rightarrow> bool" where
  "goes_on st st' \<longleftrightarrow> profiled st' \<and> prf_clock st' = prf_clock st \<and> prf_memory_use st' = prf_memory_use st"

lemma goes_on_trans: "goes_on st st1 \<Longrightarrow> goes_on st1 st2 \<Longrightarrow> goes_on st st2"
  by (simp add: goes_on_def)

text \<open>What running a call does to the stack below it; the time told to the caller is that from the first to the last but
  one reading of the clock.\<close>

definition call_ran :: "profiler \<Rightarrow> 64 word list \<Rightarrow> profiler \<Rightarrow> bool" where
  "call_ran st owns st' \<longleftrightarrow> goes_on st st' \<and> sum_list owns = prf_clock st (prf_tick st' - 2) - prf_clock st (prf_tick st) \<and>
     (\<forall>base f. prf_stack st = base @ [f] \<longrightarrow> (\<exists>ce f'. prf_stack st' = base @ [f'] \<and> told_of [ce] f f' \<and> ce_nanotime_taken ce = sum_list owns))"

definition calls_ran :: "profiler \<Rightarrow> 64 word list \<Rightarrow> profiler \<Rightarrow> bool" where
  "calls_ran st owns st' \<longleftrightarrow> goes_on st st' \<and>
     (\<forall>base f. prf_stack st = base @ [f] \<longrightarrow> (\<exists>ces f'. prf_stack st' = base @ [f'] \<and> told_of ces f f' \<and>
        sum_list (map ce_nanotime_taken ces) = sum_list owns))"

lemma calls_ran_step: "call_ran st owns st1 \<Longrightarrow> calls_ran st1 owns' st2 \<Longrightarrow> calls_ran st (owns @ owns') st2"
  unfolding calls_ran_def
proof (elim conjE, intro conjI allI impI)
  fix base f
  assume 1: "call_ran st owns st1" "prf_stack st = base @ [f]"
    and 2: "\<forall>base f. prf_stack st1 = base @ [f] \<longrightarrow> (\<exists>ces f'. prf_stack st2 = base @ [f'] \<and> told_of ces f f' \<and>
        sum_list (map ce_nanotime_taken ces) = sum_list owns')"
  from 1 obtain ce f1 where ce: "prf_stack st1 = base @ [f1]" "told_of [ce] f f1" "ce_nanotime_taken ce = sum_list owns"
    unfolding call_ran_def by blast
  from 2 ce(1) obtain ces f2 where "prf_stack st2 = base @ [f2]" "told_of ces f1 f2" "sum_list (map ce_nanotime_taken ces) = sum_list owns'"
    by blast
  with ce(3) told_of_append [OF ce(2) this(2)]
  show "\<exists>ces f'. prf_stack st2 = base @ [f'] \<and> told_of ces f f' \<and> sum_list (map ce_nanotime_taken ces) = sum_list (owns @ owns')"
    by (intro exI [of _ "[ce] @ ces"] exI [of _ f2]) simp
qed (auto simp: call_ran_def intro: goes_on_trans)

lemma start_call_ready:
  assumes "has_place hs code fse" "profiled st"
  shows "\<exists>b st1. start_call hs (length (prf_stack st)) code (push_frame fse st) = Some st1 \<and> prf_stack st1 = prf_stack st @ [b] \<and>
    calls_of b = [] \<and> pr_nanotime b = 0 \<and> pr_nanotime_mark b = prf_clock st (prf_tick st) \<and> goes_on st st1"
proof -
  let ?n = "new_frame fse"
  have "shown_name hs ?n = shown_name hs fse" "place_of code ?n = place_of code fse"
    by (simp_all add: new_frame_def shown_name_def place_of_def cong: if_cong option.case_cong)
  with assms(1) obtain fname filename where r: "shown_name hs ?n = Some fname" "place_of code ?n = Some filename"
    unfolding has_place_def by auto
  let ?b = "begun st (line_of code ?n) filename fname ?n"
  have "start_call hs (length (prf_stack st)) code (push_frame fse st) =
      Some (st\<lparr>prf_stack := prf_stack st @ [?b], prf_tick := prf_tick st + 2\<rparr>)"
    using r by (simp add: start_call_def push_frame_def begun_def)
  moreover have "calls_of ?b = []" "has_names ?b" "pr_nanotime ?b = 0" "pr_nanotime_mark ?b = prf_clock st (prf_tick st)"
    by (simp_all add: begun_def calls_of_def new_frame_def has_names_def)
  ultimately show ?thesis using assms(2) by (auto simp: goes_on_def profiled_def)
qed

lemma happen_ready:
  assumes "profiled st"
  shows "has_place hs code fse \<Longrightarrow> happen hs ps (Call_user fse code) st = start_call hs (length (prf_stack st)) code (push_frame fse st)"
    "has_place hs None fse \<Longrightarrow> \<not> is_include (fr_function fse) \<Longrightarrow>
      happen hs ps (Call_internal fse) st = start_call hs (length (prf_stack st)) None (push_frame fse st)"
  using assms execute_ex_begins [of "push_frame fse st" "length (prf_stack st)" hs]
  by (simp_all add: profiled_def push_frame_def new_frame_def)

lemma return_ready:
  assumes "profiled st" "prf_stack st = base @ [b]" "ev = Return_user \<or> ev = Return_internal"
  shows "\<exists>st'. happen hs ps ev st = Some st' \<and> goes_on st st' \<and> prf_tick st' = prf_tick st + 2 \<and>
    prf_stack st' = tell (length base) (call_entry (ended st b)) base \<and>
    own_time st = [pr_nanotime (ended st b) - sum_list (map ce_nanotime_taken (calls_of b))]"
proof -
  have len: "length base < length (prf_stack st)" by (simp add: assms(2))
  from function_ends [OF assms(1) len] obtain st1 where st1: "xdebug_profiler_function_end (length base) st = Some st1" "profiled st1"
    "prf_stack st1 = end_stack (length base) st" "prf_tick st1 = prf_tick st + 2" "prf_clock st1 = prf_clock st"
    "prf_memory_use st1 = prf_memory_use st" by blast
  have stack: "prf_stack st1 = tell (length base) (call_entry (ended st b)) base @ [without_calls (calls_of b) (ended st b)]"
    using assms(2) st1(3) by (cases base rule: rev_cases)
      (simp_all add: end_stack_def tell_def Let_def nth_append list_update_append)
  have tlen: "length (tell (length base) ce base) = length base" for ce by (simp add: tell_def)
  let ?st2 = "put_frame (length base) ((without_calls (calls_of b) (ended st b))\<lparr>pr_function := None, pr_filename := None\<rparr>) st1"
  have "xdebug_profiler_free_function_details (length base) st1 = Some ?st2"
    by (simp add: xdebug_profiler_free_function_details_def frame_at_def stack nth_append tlen)
  then have "happen hs ps ev st = Some (pop_frame ?st2)"
    using assms st1(1) by (auto simp: xdebug_profiler_execute_ex_end_def xdebug_profiler_execute_internal_end_def profiled_def)
  moreover have "prf_stack (pop_frame ?st2) = tell (length base) (call_entry (ended st b)) base"
    by (simp add: pop_frame_def put_frame_def stack list_update_append tlen)
  moreover have "own_time st = [pr_nanotime (ended st b) - sum_list (map ce_nanotime_taken (calls_of b))]"
    using st1(1) by (simp add: own_time_def assms(2) stack nth_append tlen without_calls_def)
  moreover have "goes_on st (pop_frame ?st2)"
    using st1(2,5,6) stack by (simp add: goes_on_def profiled_def pop_frame_def put_frame_def list_update_append tlen)
  moreover have "prf_tick (pop_frame ?st2) = prf_tick st + 2" using st1(4) by (simp add: pop_frame_def put_frame_def)
  ultimately show ?thesis by blast
qed


lemma calls_run:
  assumes "\<And>t st. t \<in> set ts \<Longrightarrow> profiled st \<Longrightarrow>
      \<exists>st'. loop_over (happen hs ps) (events_of t) st = Some st' \<and> call_ran st (own_times hs ps (events_of t) st) st'"
    and "profiled st"
  shows "\<exists>st'. loop_over (happen hs ps) (concat (map events_of ts)) st = Some st' \<and>
    calls_ran st (own_times hs ps (concat (map events_of ts)) st) st'"
  using assms
proof (induction ts arbitrary: st)
  case Nil
  show ?case using Nil.prems(2) told_of_nil by (force simp: calls_ran_def goes_on_def)
next
  case (Cons t ts)
  from Cons.prems(1) [of t st] Cons.prems(2) obtain st1 where 1: "loop_over (happen hs ps) (events_of t) st = Some st1"
    "call_ran st (own_times hs ps (events_of t) st) st1" by auto
  then have "profiled st1" by (simp add: call_ran_def goes_on_def)
  from Cons.IH [OF _ this] Cons.prems(1) obtain st2 where "loop_over (happen hs ps) (concat (map events_of ts)) st1 = Some st2"
    "calls_ran st1 (own_times hs ps (concat (map events_of ts)) st1) st2" by auto
  with 1 show ?case using calls_ran_step [OF 1(2)] by (simp add: loop_over_append own_times_append)
qed

lemma call_runs_step:
  assumes start: "happen hs ps ev st = start_call hs (length (prf_stack st)) code (push_frame fse st)" "ev \<noteq> Return_user" "ev \<noteq> Return_internal"
    and call_ready: "has_place hs code fse" "profiled st" "ret = Return_user \<or> ret = Return_internal"
    and calls: "\<And>st. profiled st \<Longrightarrow> \<exists>st'. loop_over (happen hs ps) evs st = Some st' \<and> calls_ran st (own_times hs ps evs st) st'"
  shows "\<exists>st'. loop_over (happen hs ps) (ev # evs @ [ret]) st = Some st' \<and> call_ran st (own_times hs ps (ev # evs @ [ret]) st) st'"
proof -
  from start_call_ready [OF call_ready(1,2)] start(1) obtain b st1 where 1: "happen hs ps ev st = Some st1" "prf_stack st1 = prf_stack st @ [b]"
    "calls_of b = []" "pr_nanotime b = 0" "pr_nanotime_mark b = prf_clock st (prf_tick st)" "goes_on st st1" by auto
  from calls [of st1] 1(6) obtain st2 where 2: "loop_over (happen hs ps) evs st1 = Some st2" "calls_ran st1 (own_times hs ps evs st1) st2"
    by (auto simp: goes_on_def)
  from 2(2) 1(2) obtain ces b' where b': "prf_stack st2 = prf_stack st @ [b']" "told_of ces b b'"
    "sum_list (map ce_nanotime_taken ces) = sum_list (own_times hs ps evs st1)" "goes_on st1 st2"
    unfolding calls_ran_def by blast
  from b'(4) have "profiled st2" by (simp add: goes_on_def)
  from return_ready [OF this b'(1) call_ready(3)] obtain st' where 3: "happen hs ps ret st2 = Some st'" "goes_on st2 st'"
    "prf_tick st' = prf_tick st2 + 2" "prf_stack st' = tell (length (prf_stack st)) (call_entry (ended st2 b')) (prf_stack st)"
    "own_time st2 = [pr_nanotime (ended st2 b') - sum_list (map ce_nanotime_taken (calls_of b'))]" by blast
  have time: "pr_nanotime (ended st2 b') = prf_clock st (prf_tick st' - 2) - prf_clock st (prf_tick st)"
    using 1(4-6) b'(4) 3(3) told_of_fields(1,2) [OF b'(2)] by (simp add: ended_def goes_on_def)
  have run: "loop_over (happen hs ps) (ev # evs @ [ret]) st = Some st'"
    using 1(1) 2(1) 3(1) by (simp add: loop_over_append)
  have "own_times hs ps (ev # evs @ [ret]) st = own_times hs ps evs st1 @ own_time st2"
    using 1(1) start(2,3) call_ready(3) 3(1) own_times_append [OF 2(1), of "[ret]"] by auto
  then have owns: "sum_list (own_times hs ps (ev # evs @ [ret]) st) = pr_nanotime (ended st2 b')"
    using b'(3) told_of_fields(3) [OF b'(2)] 1(3) by (simp add: 3(5))
  have "\<exists>ce f'. prf_stack st' = base @ [f'] \<and> told_of [ce] f f' \<and> ce_nanotime_taken ce = pr_nanotime (ended st2 b')"
    if "prf_stack st = base @ [f]" for base f
    using that 3(4) told_of_one [of "call_entry (ended st2 b')" f]
    by (intro exI [of _ "call_entry (ended st2 b')"] exI [of _ "told (call_entry (ended st2 b')) f"]) (simp add: tell_def call_entry_def)
  then have "call_ran st (own_times hs ps (ev # evs @ [ret]) st) st'"
    using owns time goes_on_trans [OF goes_on_trans [OF 1(6) b'(4)] 3(2)] unfolding call_ran_def owns by blast
  with run show ?thesis by blast
qed

lemma call_runs:
  "call_ready hs t \<Longrightarrow> profiled st \<Longrightarrow>
    \<exists>st'. loop_over (happen hs ps) (events_of t) st = Some st' \<and> call_ran st (own_times hs ps (events_of t) st) st'"
proof (induction t arbitrary: st)
  case (User_call fse code ts)
  have ok: "has_place hs code fse" and ts: "\<And>t. t \<in> set ts \<Longrightarrow> call_ready hs t" using User_call.prems(1) by (auto simp: list_all_iff)
  have "\<exists>st'. loop_over (happen hs ps) (concat (map events_of ts)) s = Some st' \<and>
      calls_ran s (own_times hs ps (concat (map events_of ts)) s) st'" if "profiled s" for s
    by (rule calls_run [OF User_call.IH that]) (use ts in auto)
  from call_runs_step [OF happen_ready(1) [OF User_call.prems(2) ok] _ _ ok User_call.prems(2) _ this, of Return_user]
  show ?case by simp
next
  case (Internal_call fse ts)
  have ok: "has_place hs None fse" "\<not> is_include (fr_function fse)" and ts: "\<And>t. t \<in> set ts \<Longrightarrow> call_ready hs t"
    using Internal_call.prems(1) by (auto simp: list_all_iff)
  have "\<exists>st'. loop_over (happen hs ps) (concat (map events_of ts)) s = Some st' \<and>
      calls_ran s (own_times hs ps (concat (map events_of ts)) s) st'" if "profiled s" for s
    by (rule calls_run [OF Internal_call.IH that]) (use ts in auto)
  from call_runs_step [OF happen_ready(2) [OF Internal_call.prems(2) ok] _ _ ok(1) Internal_call.prems(2) _ this, of Return_internal]
  show ?case by simp
qed

end
