(* ===== verification/Xd_Profile_Examples.thy ===== *)
theory Xd_Profile_Examples
  imports Xd_Profile_Cost "HOL-Library.Code_Target_Nat"
begin

text \<open>A profile of one call that calls another, for the examples of the root theory.\<close>

definition profile_settings :: profiler_settings where
  "profile_settings =
     \<lparr>ps_output_dir = Some ''/tmp'', ps_output_name = ''out'', ps_append = False, ps_version = ''3.4.0'', ps_php_version = ''8.3.0'',
      ps_headers_sent = True, ps_peak_memory = 4096\<rparr>"

definition profile_links :: html_settings where
  "profile_links = \<lparr>hs_html_errors = False, hs_docref_root = None, hs_docref_ext = []\<rparr>"

definition profile_env :: output_env where
  "profile_env = \<lparr>oe_cwd = None, oe_pid = 1, oe_random = (\<lambda>n. 0), oe_nanotime = (\<lambda>n. 0), oe_server = None, oe_session_name = None, oe_cookie = None\<rparr>"

definition idle_profiler :: profiler where
  "idle_profiler =
     \<lparr>prf_active = False, prf_start_nanotime = 0, prf_file_name = None, prf_filename_refs = None, prf_last_filename_ref = 0,
      prf_internal_seen = False, prf_functionname_refs = None, prf_last_functionname_ref = 0, prf_header = None, prf_output = [],
      prf_stack = [], prf_clock = (\<lambda>n. 100 * of_nat n), prf_memory_use = (\<lambda>n. 8 * of_nat n), prf_tick = 0\<rparr>"

definition profiled_frame :: "bool \<Rightarrow> string \<Rightarrow> profile_frame" where
  "profiled_frame user name =
     \<lparr>fr_function = \<lparr>fn_object_class = None, fn_scope_class = None, fn_function = Some name, fn_include_filename = None,
                     fn_type = XFUNC_NORMAL, fn_internal = \<not> user\<rparr>,
      fr_user_defined = user, fr_lineno = 3, fr_filename = Some ''/app/a.php'', pr_nanotime = 0, pr_nanotime_mark = 0, pr_memory = 0,
      pr_mem_mark = 0, pr_call_list = None, pr_lineno = 0, pr_filename = None, pr_function = None\<rparr>"

definition profile_started :: profiler where
  "profile_started =
     the (xdebug_profiler_init profile_settings profile_env (\<lambda>f. True) ''/app/a.php'' (xdebug_profiler_rinit idle_profiler))"

definition one_call :: profile_call where
  "one_call = User_call (profiled_frame True ''f'') None [Internal_call (profiled_frame False ''strlen'') []]"

text \<open>A profile of a single call.\<close>

definition single_call :: "profile_event list" where
  "single_call = [Call_user (profiled_frame True ''f'') None, Return_user]"

definition profile_written :: profiler where
  "profile_written = the (loop_over (happen profile_links profile_settings) single_call profile_started)"

lemma some_the: "\<not> Option.is_none x \<Longrightarrow> x = Some (the x)"
  by (cases x) simp_all

lemma profile_starts:
  "xdebug_profiler_init profile_settings profile_env (\<lambda>f. True) ''/app/a.php'' (xdebug_profiler_rinit idle_profiler) = Some profile_started"
  unfolding profile_started_def by (rule some_the) code_simp

lemma started_active: "prf_active profile_started" by code_simp

lemma started_profiled: "profiled profile_started" by code_simp

lemma one_call_ready: "call_ready profile_links one_call" by code_simp

lemma single_call_plain: "list_all plain_event single_call" by code_simp

lemma single_call_evaluated:
  "case loop_over (happen profile_links profile_settings) single_call profile_started of
     Some s \<Rightarrow> length (prf_output s) < 2 ^ 31 - 1 | None \<Rightarrow> False"
  by code_simp

lemma single_call_written:
  "loop_over (happen profile_links profile_settings) single_call profile_started = Some profile_written"
  "length (prf_output profile_written) < 2 ^ 31 - 1"
  using single_call_evaluated by (simp_all add: profile_written_def split: option.splits)

end
