(* ===== verification/Spec2Isabelle.thy ===== *)
theory Spec2Isabelle
  imports Xd_Prelude Xd_Str Xd_Llist Xd_Hash Xd_Set Xd_Vector Xd_Arg Xd_Textutil Xd_Crc32 Xd_Cmd_Parser
    Xd_Maps Xd_Maps_Parser Xd_Maps_Correct Xd_Base64 Xd_Xml Xd_Url Xd_Format Xd_Dbg_State Xd_Breakpoints
    Xd_Dbgp_Io Xd_Dbgp_Cmds Xd_Dbgp Xd_Dbgp_Loop Xd_Php Xd_Zval Xd_Symbol Xd_Var_Xml Xd_Names Xd_Export
    Xd_Property Xd_Property_Spec Xd_Dbgp_Spec Xd_Mode Xd_Session Xd_Lines Xd_Resolve Xd_Stepping Xd_Step_Spec
    Xd_Store Xd_Examples Xd_Opcodes Xd_Branch Xd_Reach Xd_Paths Xd_Post Xd_Filter Xd_Cov_State Xd_Coverage
    Xd_Cov_Report Xd_Cov_Spec Xd_Hits Xd_Cov_Errors Xd_Cov_Examples Xd_Frame Xd_Profiler
    Xd_Profile_Spec Xd_Profile_Run Xd_Profile_Cost Xd_Profile_Examples
begin

text \<open>
  A model of Xdebug, the debugging extension of PHP, with the properties that make it correct.

  The parts of the program that are modelled, and the theories that hold them:

  The library that the rest rests on, \<open>src/lib\<close>.  \<open>Xd_Str\<close> is the growable string of \<open>str.c\<close>, with its
  allocation as a list of bytes; \<open>Xd_Llist\<close> the doubly linked list of \<open>llist.c\<close> over a store of elements;
  \<open>Xd_Hash\<close> the hash table of \<open>hash.c\<close>, whose chains are the lists that \<open>Xd_Llist\<close> justifies; \<open>Xd_Set\<close> the
  bit sets of \<open>set.c\<close>, \<open>Xd_Vector\<close> the vector of \<open>vector.h\<close>.  \<open>Xd_Arg\<close> splits and joins (\<open>arg.c\<close>), \<open>Xd_Textutil\<close>
  holds \<open>trim.c\<close>, \<open>strrnchr.h\<close>, \<open>xdebug_strndup.c\<close> and \<open>stripcslashes.c\<close>, \<open>Xd_Crc32\<close> the checksum, \<open>Xd_Base64\<close>
  the codec of \<open>compat.c\<close>, \<open>Xd_Xml\<close> the XML writer (\<open>xml.c\<close>, the escaping of \<open>var.c\<close>), \<open>Xd_Url\<close> and
  \<open>Xd_Format\<close> the paths, URLs and file-name formats of \<open>usefulstuff.c\<close>, \<open>Xd_Mode\<close> the modes and triggers of
  \<open>lib.c\<close>.  \<open>Xd_Prelude\<close> holds C strings, decimal text, \<open>strtol\<close> and the 32-bit integers that all of them use, and
  the rules for results that may be missing (\<open>post\<close>).

  The path maps, \<open>src/lib/maps\<close>: \<open>Xd_Maps\<close> is the lookup (\<open>maps_private.c\<close>), \<open>Xd_Maps_Parser\<close> the reader of map
  files (\<open>parser.c\<close>), \<open>Xd_Maps_Correct\<close> what holds of both together.

  The step debugger, \<open>src/debugger\<close>.  \<open>Xd_Cmd_Parser\<close> parses a command line (\<open>cmd_parser.c\<close>).  \<open>Xd_Dbg_State\<close> is
  the state: breakpoints in a store from addresses, since the code shares them by pointer, and the globals
  (\<open>handlers.h\<close>, \<open>debugger.h\<close>) as records that extend it.  \<open>Xd_Breakpoints\<close> and \<open>Xd_Dbgp_Cmds\<close> are the handlers of the
  commands, \<open>Xd_Dbgp_Io\<close> the socket and the frames, \<open>Xd_Dbgp\<close> the table of commands, the execution of a
  line, the command loop, and the handler's operations for the debugger (all of \<open>handler_dbgp.c\<close>).
  The variables the client sees: \<open>Xd_Php\<close> and \<open>Xd_Zval\<close> are PHP's values, with arrays, objects and references behind
  addresses and the engine's functions as fields of \<open>php_engine\<close>; \<open>Xd_Symbol\<close> is the parser of variable names and the
  lookups behind it (\<open>var.c\<close>, the scope of \<open>lib.c\<close>), \<open>Xd_Var_Xml\<close> the export as XML (\<open>var_export_xml.c\<close>), \<open>Xd_Property\<close>
  the handlers \<open>property_get\<close>, \<open>property_set\<close>, \<open>property_value\<close> and \<open>context_get\<close>, which are the parameter \<open>php\<close> of
  \<open>Xd_Dbgp\<close>.  Where the source depends on the version of PHP the branch for 8.4 is modelled.
  \<open>Xd_Session\<close> decides when a session starts (\<open>com.c\<close>), \<open>Xd_Lines\<close> collects breakable lines when code is
  compiled, and \<open>Xd_Stepping\<close> decides at each statement, call, return, exception and error whether to break
  (\<open>debugger.c\<close>); a break enters the command loop of \<open>Xd_Dbgp\<close>, which changes the state both work on.

  Code coverage, \<open>src/coverage\<close>.  \<open>Xd_Opcodes\<close> says where control can go after an opcode (\<open>xdebug_find_jumps\<close>) and
  \<open>Xd_Branch\<close> analyses a function with it: dead code, branches and paths (\<open>branch_info.c\<close>, the analysis of
  \<open>code_coverage.c\<close>).  \<open>Xd_Cov_State\<close> is the state of coverage with its tables of files and functions, \<open>Xd_Coverage\<close>
  what is done when code is compiled, called and run and when coverage is started and stopped, \<open>Xd_Cov_Report\<close> the arrays it
  reports.  \<open>Xd_Filter\<close> decides which frames and functions are left out (\<open>src/base/filter.c\<close>).

  The profiler, \<open>src/profiler/profiler.c\<close>, is \<open>Xd_Profiler\<close>; it names functions as \<open>Xd_Frame\<close> shows them.

  How the code is rendered.  A function that may read or write outside an object, through NULL or through a
  freed block returns an option, and \<open>None\<close> is such an access; that a result is there is a safety theorem.
  Loops are recursive functions with a measure; the loop of \<open>xdebug_explode\<close>, which does not end for an empty
  delimiter, is a partial function.  The C type \<open>int\<close> is an integer wrapped by \<open>to_int32\<close>, \<open>%lu\<close> and \<open>size_t\<close> conversions are
  written out, hashes and checksums are words.  A script abandoned by \<open>zend_bailout\<close> is a value
  (\<open>Loop_bailout\<close>, the second component of \<open>flow\<close>).  The bounds in theorems are those of the code:
  files of less than 2 GB, packets of 64 KB, line numbers below 2 to the 31.

  What the lemmas show.  In \<open>Xd_Hash\<close>, \<open>Xd_Llist\<close>, \<open>Xd_Set\<close> and \<open>Xd_Vector\<close> the structures refine maps, lists and
  sets, and their locales state the laws the clients use.  \<open>Xd_Dbgp_Loop\<close> shows that handlers only extend their
  response and that the loop over a socket is the loop over the lines; \<open>Xd_Store\<close> that each breakpoint has one
  holder and is freed once; \<open>Xd_Resolve\<close> where line breakpoints go; \<open>Xd_Step_Spec\<close> where steps end and which hits
  count; \<open>Xd_Dbgp_Spec\<close> what single commands promise.  \<open>Xd_Names\<close> shows that names the export gives are found
  again by the parser, \<open>Xd_Export\<close> that the export returns, how deep its tree is and what its pages hold,
  \<open>Xd_Property_Spec\<close> what the variable commands leave alone.  \<open>Xd_Reach\<close> shows that the analysis ends and finds the
  reachable opcodes, \<open>Xd_Paths\<close> that the search for paths ends and what it finds, \<open>Xd_Post\<close> how far each branch extends;
  \<open>Xd_Hits\<close> that branches are recorded inside the sets made for them, \<open>Xd_Cov_Spec\<close> an invariant of every state of
  coverage and with it what the reported lines are, \<open>Xd_Cov_Errors\<close> where recording goes wrong.
  \<open>Xd_Profile_Spec\<close> is a reader of profiles, \<open>Xd_Profile_Run\<close> shows that it reads back what a run wrote, \<open>Xd_Profile_Cost\<close>
  how the time of calls is counted.  \<open>Xd_Examples\<close> holds concrete states for the examples.

  Inputs of the model: the PHP engine (compiled code, the stack, evaluated code as a value or a failure), the
  file system, sockets as lists of arrivals, the environment and superglobals, time, process number and
  random numbers.

  Not modelled: the other exports of PHP values (HTML, text, one line), which walk over values as the XML export
  does, and tracing, which writes with them; the function monitor and the display of errors (\<open>src/develop\<close>); the
  statistics of garbage collection, the control socket, the log and the queries for network addresses, which are input and
  output; the search for path-map files in directories; the hooks that build the stack from the engine's data
  (\<open>src/base/base.c\<close>), whose frames are inputs here; and the glue to PHP.  \<open>property_set\<close> evaluates with the selected frame as the engine's current one, which
  the parameter for evaluation does not see; the tables of static members are initialised on the class at hand.
\<close>

section \<open>Path maps\<close>



text \<open>
  C33: For a rule the parser stored, without \<open>SKIP\<close> lines, the lookup of a remote line answers with the
  range the line lies in, or with \<open>unknown\<close> when there is none: the binary search misses nothing.
\<close>

theorem remote_line_lookup_complete:
  assumes "rules_ok k (remote_to_local_map maps)" "k < 2 ^ 31"
    "xdebug_hash_find (remote_to_local_map maps) path = Some m"
    "pm_target m = Line_ranges (Some v)" "no_skip (vec_list v)"
  shows "remote_to_local maps path line =
    (case find (\<lambda>r. remote_begin r \<le> int line \<and> int line \<le> remote_end r) (vec_list v) of
       None \<Rightarrow> Some unknown_match
     | Some r \<Rightarrow> Some (XDEBUG_PATH_MAP_TYPE_LINES, Some (local_of r line)))"
proof -
  have m: "hash_map (remote_to_local_map maps) (HStr path) = Some m" using assms(3) by (simp add: find_str_map)
  then have "mapping_ok k path m" using assms(1) by (auto simp: rules_ok_def)
  with m assms show ?thesis by (intro remote_to_local_lines)
qed

theorem remote_line_lookup_complete_witness:
  "let r = \<lparr>remote_begin = 3, remote_end = 9, local_flags = 0, range_path = Some ''/l'', local_begin = 13, local_end = 19\<rparr>;
       v = \<lparr>vec_capacity = 32, vec_count = 1, vec_data = Some r # replicate 31 None\<rparr>;
       m = \<lparr>pm_type = 3, pm_remote = Some ''/r'', pm_target = Line_ranges (Some v)\<rparr>;
       maps = xdebug_path_maps_ctor\<lparr>remote_to_local_map := xdebug_hash_add (xdebug_hash_alloc 128 True) ''/r'' m\<rparr>
   in remote_to_local maps ''/r'' 5 = Some (XDEBUG_PATH_MAP_TYPE_LINES, Some (Some ''/l'', 15))"
proof -
  define r where "r = \<lparr>remote_begin = 3, remote_end = 9, local_flags = 0, range_path = Some ''/l'', local_begin = 13, local_end = 19\<rparr>"
  define v where "v = \<lparr>vec_capacity = 32, vec_count = 1, vec_data = Some r # replicate 31 None\<rparr>"
  define m where "m = \<lparr>pm_type = 3, pm_remote = Some ''/r'', pm_target = Line_ranges (Some v)\<rparr>"
  define maps where "maps = xdebug_path_maps_ctor\<lparr>remote_to_local_map := xdebug_hash_add (xdebug_hash_alloc 128 True) ''/r'' m\<rparr>"
  have e: "rules_ok 1 (xdebug_hash_alloc 128 True :: path_mapping xdebug_hash)" by (simp add: rules_ok_def)
  have l: "vec_list v = [r]" by (simp add: v_def vec_list_def)
  have "vec_ok v" by (simp add: v_def vec_ok_def)
  with l have "line_ranges_ok 1 v"
    by (simp add: line_ranges_ok_def in_order_def) (simp add: v_def r_def range_ok_def has_skip_def)
  then have "mapping_ok 1 ''/r'' m" by (simp add: mapping_ok_def m_def XDEBUG_PATH_MAP_TYPE_LINES_def)
  then have "rules_ok 1 (remote_to_local_map maps)" using rules_ok_put(1) [OF e] by (simp add: maps_def)
  moreover have "xdebug_hash_find (remote_to_local_map maps) ''/r'' = Some m"
    using add_str_map(2) [of "xdebug_hash_alloc 128 True" "''/r''" m] by (simp add: maps_def find_str_map)
  moreover have "no_skip (vec_list v)" using l by (simp add: no_skip_def r_def has_skip_def)
  ultimately have "remote_to_local maps ''/r'' 5 = Some (XDEBUG_PATH_MAP_TYPE_LINES, Some (Some ''/l'', 15))"
    using remote_line_lookup_complete [of 1 maps "''/r''" m v 5] l
    by (simp add: m_def local_of_def r_def to_size_def)
  then show ?thesis by (simp only: Let_def maps_def m_def v_def r_def)
qed

text \<open>
  C34: A path without a mapping of its own is mapped by its longest mapped directory: when \<open>d\<close> is that
  directory, the local path is the target of \<open>d\<close> with the rest of the path behind it, on the same line.
\<close>

theorem longest_directory_wins:
  assumes "is_cstr (d @ rest)" "d \<noteq> []" "last d = SLASH"
    "xdebug_hash_find (remote_to_local_map maps) (d @ rest) = None"
    "xdebug_hash_find (remote_to_local_map maps) d = Some m"
    "pm_type m = XDEBUG_PATH_MAP_TYPE_DIRECTORY" "pm_target m = Local_path (Some p)"
    "\<forall>k \<le> length rest. 0 < k \<longrightarrow> xdebug_hash_find (remote_to_local_map maps) (d @ take k rest) = None"
  shows "remote_to_local maps (d @ rest) line = Some (XDEBUG_PATH_MAP_TYPE_DIRECTORY, Some (Some (p @ rest), line))"
proof -
  let ?path = "d @ rest" and ?tbl = "remote_to_local_map maps" and ?i = "length d - 1"
  have i: "?i < length ?path" "?path ! ?i = SLASH" "take (?i + 1) ?path = d"
  proof -
    have "0 < length d" using assms(2) by simp
    then show "?i < length ?path" by (simp only: length_append)
    show "?path ! ?i = SLASH" "take (?i + 1) ?path = d"
      using assms(2,3) by (simp_all add: nth_append last_conv_nth)
  qed
  then obtain e where e: "strrchr ?path SLASH = Some e" using strrchr_None [of ?path SLASH]
    by (metis not_None_eq nth_mem)
  note el = last_slash_directory [OF e]
  have "?i \<le> e" by (rule strrchr_last [OF e i(1,2)])
  moreover have "remote_hit ?tbl ?path line (take (j + 1) ?path) = None" if "?i < j" "j \<le> e" for j
  proof -
    have "take (j + 1) ?path = d @ take (j + 1 - length d) rest" "0 < j + 1 - length d" "j + 1 - length d \<le> length rest"
      using that assms(2) el(1) by (auto simp: Suc_le_eq)
    with assms(8) show ?thesis by (simp add: remote_hit_def)
  qed
  moreover have "remote_hit ?tbl ?path line d = Some (Some (XDEBUG_PATH_MAP_TYPE_DIRECTORY, Some (Some (p @ rest), line)))"
    using assms(5-7) by (simp add: remote_hit_def has_skip_def XDEBUG_PATH_MAP_TYPE_DIRECTORY_def)
  ultimately have "remote_dirs.last_hit ?tbl ?path line ?path e ?i
      (Some (XDEBUG_PATH_MAP_TYPE_DIRECTORY, Some (Some (p @ rest), line)))"
    unfolding remote_dirs.last_hit_def i(3) using i(2) by blast
  then show ?thesis by (rule remote_to_local_directory(1) [OF assms(1,4) e])
qed

theorem longest_directory_wins_witness:
  "let m = \<lparr>pm_type = XDEBUG_PATH_MAP_TYPE_DIRECTORY, pm_remote = Some ''/r/'', pm_target = Local_path (Some ''/l/'')\<rparr>;
       maps = xdebug_path_maps_ctor\<lparr>remote_to_local_map := xdebug_hash_add (xdebug_hash_alloc 128 True) ''/r/'' m\<rparr>
   in remote_to_local maps (''/r/'' @ ''x'') 5 = Some (XDEBUG_PATH_MAP_TYPE_DIRECTORY, Some (Some (''/l/'' @ ''x''), 5))"
  unfolding Let_def
  by (rule longest_directory_wins [where m = "\<lparr>pm_type = XDEBUG_PATH_MAP_TYPE_DIRECTORY,
        pm_remote = Some ''/r/'', pm_target = Local_path (Some ''/l/'')\<rparr>"])
    (auto simp: is_cstr_def find_str_map add_str_map le_Suc_eq)

text \<open>
  C38: The order of the line ranges is not checked for \<open>SKIP\<close> rules, and the binary search relies on it:
  after \<open>10-20\<close>, a skipped line 5 and \<open>30-40\<close> were all accepted, line 15 is not found any more.
\<close>

theorem skip_rule_hides_range:
  "add_range_to_existing st (lines_mapping [range_10_20]) ''/r'' range_5_skip =
     Some (st\<lparr>mp_rules := hash_poke (mp_rules st) ''/r'' (lines_mapping [range_10_20, range_5_skip])\<rparr>, True) \<and>
   add_range_to_existing st' (lines_mapping [range_10_20, range_5_skip]) ''/r'' range_30_40 =
     Some (st'\<lparr>mp_rules := hash_poke (mp_rules st') ''/r'' (lines_mapping [range_10_20, range_5_skip, range_30_40])\<rparr>, True) \<and>
   by_remote.covers 15 range_10_20 \<and>
   find_local_line_number_from_ranges 15 (vec_of [range_10_20, range_5_skip, range_30_40]) = Some None"
  by (intro conjI skip_rule_accepted range_after_skip_accepted hidden_line)
    (simp add: by_remote.covers_def range_10_20_def xdebug_path_map_range_set_def)

section \<open>The protocol's command line\<close>

text \<open>
  C32: A command line written the way the protocol prescribes (bare or quoted options, each letter once,
  then perhaps data) is parsed without error into its command and, letter by letter, its values.
\<close>

theorem command_line_round_trip:
  assumes "CHR '' '' \<notin> set cmd" "is_cstr (cmd_line cmd opts od)" "opts \<noteq> [] \<or> od \<noteq> None" "data_ok od"
    "\<forall>opt \<in> set opts. option_ok opt" "distinct (map option_letter opts)"
  shows "\<exists>args. xdebug_cmd_parse (cmd_line cmd opts od) = Some (XDEBUG_ERROR_OK, Some cmd, args) \<and>
    (\<forall>c. is_opt_letter c \<longrightarrow> option_text_of args c =
       (if c = CHR ''-'' then od else map_of (map (\<lambda>opt. (option_letter opt, option_value opt)) opts) c))"
  using parse_cmd_line [OF assms] parsed_option [OF assms(5,6)] by blast

theorem command_line_round_trip_witness:
  "\<exists>args. xdebug_cmd_parse (cmd_line ''eval'' [Bare (CHR ''i'') ''12'', Quoted (CHR ''n'') [BSLASH, DQUOTE]] (Some ''QUJD'')) =
      Some (XDEBUG_ERROR_OK, Some ''eval'', args) \<and>
    (\<forall>c. is_opt_letter c \<longrightarrow> option_text_of args c =
       (if c = CHR ''-'' then Some ''QUJD'' else map_of (map (\<lambda>opt. (option_letter opt, option_value opt))
          [Bare (CHR ''i'') ''12'', Quoted (CHR ''n'') [BSLASH, DQUOTE]]) c))"
  by (rule command_line_round_trip)
    (simp_all add: is_cstr_def cmd_line_def data_text_def data_ok_def ord_def)

text \<open>
  C39: On any line at all the parser returns: it never stores outside its 27 slots, its code is one of
  \<open>OK\<close>, parse error and duplicate argument, and the values it stored are well-formed strings.
\<close>

theorem command_parser_total:
  "\<exists>code cmd args. xdebug_cmd_parse line = Some (code, cmd, args) \<and> args_ok args \<and>
     code \<in> {XDEBUG_ERROR_OK, XDEBUG_ERROR_PARSE, XDEBUG_ERROR_DUP_ARG}"
proof (cases "strchr line (CHR '' '')")
  case None
  then show ?thesis by (simp add: xdebug_cmd_parse_def)
next
  case (Some ptr)
  with cmd_loop_ok [OF parser_ok_start, of line ptr] show ?thesis by (auto simp: xdebug_cmd_parse_def)
qed



section \<open>Containers\<close>

text \<open>
  Appending text to a well-formed growable string never writes outside its buffer and leaves a
  well-formed string with the text behind the old one.
\<close>

theorem str_addl_appends:
  assumes "str_ok xs"
  shows "\<exists>xs'. xdebug_str_addl xs s = Some xs' \<and> str_ok xs' \<and> str_text xs' = str_text xs @ s"
  using xdebug_str_addl_appends [OF assms, of s] by (auto simp: appends_def)

theorem str_addl_appends_witness:
  "\<exists>xs'. xdebug_str_addl xdebug_str_new ''abc'' = Some xs' \<and> str_ok xs' \<and> str_text xs' = str_text xdebug_str_new @ ''abc''"
  by (rule str_addl_appends) simp



text \<open>The 21-byte buffer of \<open>xdebug_str_add_uint64\<close> holds every 64-bit number; its decimal text is appended.\<close>

theorem str_add_uint64_decimal:
  assumes "str_ok xs"
  shows "\<exists>xs'. xdebug_str_add_uint64 xs num = Some xs' \<and> str_ok xs' \<and> str_text xs' = str_text xs @ dec (unat num)"
  using xdebug_str_add_uint64_appends [OF assms, of num] by (auto simp: appends_def)

theorem str_add_uint64_decimal_witness:
  "\<exists>xs'. xdebug_str_add_uint64 xdebug_str_new (- 1) = Some xs' \<and> str_ok xs' \<and>
     str_text xs' = str_text xdebug_str_new @ dec (unat (- 1 :: 64 word))"
  by (rule str_add_uint64_decimal) simp

text \<open>
  Emptying a linked list returns, releases every element exactly once, from the tail on, and leaves the
  empty list.
\<close>

theorem llist_empty_releases_all:
  assumes "ll_rep st l xs"
  shows "\<exists>st' l'. xdebug_llist_empty st l = Some (st', l') \<and> ll_rep st' l' [] \<and>
    st_destroyed st' = st_destroyed st @ (if ll_dtor l then rev (map snd xs) else [])"
  using ll_rep_empty [OF assms] by blast

theorem llist_empty_releases_all_witness:
  "let st = \<lparr>st_cells = [0 \<mapsto> \<lparr>le_ptr = ''a'', le_prev = None, le_next = None\<rparr>], st_brk = 1, st_destroyed = []\<rparr>;
       l = \<lparr>ll_head = Some 0, ll_tail = Some 0, ll_dtor = True, ll_size = 1\<rparr>
   in \<exists>st' l'. xdebug_llist_empty st l = Some (st', l') \<and> ll_rep st' l' [] \<and>
        st_destroyed st' = st_destroyed st @ (if ll_dtor l then rev (map snd [(0 :: nat, ''a'')]) else [])"
  unfolding Let_def by (rule llist_empty_releases_all) (simp add: ll_rep_def)

text \<open>
  Inserting behind an element and removing an element are list insertion and removal, links in both
  directions, head, tail and count included; inserting and removing again gives the old list back.
\<close>

theorem llist_insert_remove:
  assumes "ll_rep st l (us @ (a, x) # vs)"
  shows "\<exists>st1 l1 st2 l2. xdebug_llist_insert_next st l (Some a) p = Some (st1, l1) \<and>
    ll_rep st1 l1 (us @ (a, x) # (st_brk st, p) # vs) \<and>
    xdebug_llist_remove st1 l1 (Some (st_brk st)) = Some (st2, l2) \<and> ll_rep st2 l2 (us @ (a, x) # vs)"
proof -
  obtain st1 l1 where i: "xdebug_llist_insert_next st l (Some a) p = Some (st1, l1)"
    "ll_rep st1 l1 (us @ (a, x) # (st_brk st, p) # vs)"
    using ll_rep_insert_next [OF assms, of "Some a" p] by blast
  with ll_rep_remove [of st1 l1 "us @ [(a, x)]" "st_brk st" p vs] show ?thesis by auto
qed

theorem llist_insert_remove_witness:
  "let st = \<lparr>st_cells = [0 \<mapsto> \<lparr>le_ptr = ''a'', le_prev = None, le_next = None\<rparr>], st_brk = 1, st_destroyed = []\<rparr>;
       l = \<lparr>ll_head = Some 0, ll_tail = Some 0, ll_dtor = True, ll_size = 1\<rparr>
   in \<exists>st1 l1 st2 l2. xdebug_llist_insert_next st l (Some 0) ''b'' = Some (st1, l1) \<and>
        ll_rep st1 l1 ([] @ (0, ''a'') # (st_brk st, ''b'') # []) \<and>
        xdebug_llist_remove st1 l1 (Some (st_brk st)) = Some (st2, l2) \<and> ll_rep st2 l2 ([] @ (0, ''a'') # [])"
  unfolding Let_def by (rule llist_insert_remove) (simp add: ll_rep_def)



text \<open>Deleting removes one key and no other, and reports whether the key was there.\<close>

theorem hash_delete_refines_map:
  assumes "hash_ok h"
  shows "hash_ok (fst (xdebug_hash_delete h key)) \<and>
    (\<forall>key'. xdebug_hash_find (fst (xdebug_hash_delete h key)) key' = (if key' = key then None else xdebug_hash_find h key')) \<and>
    (snd (xdebug_hash_delete h key) \<longleftrightarrow> xdebug_hash_find h key \<noteq> None)"
  using delete_hash_map [OF assms, of "Some key" 0]
  by (auto simp: xdebug_hash_delete_def xdebug_hash_find_def find_hash_map KEY_CREATE_def)

theorem hash_delete_refines_map_witness:
  "let h = xdebug_hash_add (xdebug_hash_alloc 2 True) ''k'' (7::nat) in hash_ok (fst (xdebug_hash_delete h ''k'')) \<and>
    (\<forall>key'. xdebug_hash_find (fst (xdebug_hash_delete h ''k'')) key' = (if key' = ''k'' then None else xdebug_hash_find h key')) \<and>
    (snd (xdebug_hash_delete h ''k'') \<longleftrightarrow> xdebug_hash_find h ''k'' \<noteq> None)"
  unfolding Let_def by (rule hash_delete_refines_map) (simp add: add_str_map)

text \<open>
  \<open>xdebug_hash_empty\<close> releases every element but leaves the count of elements as it was: afterwards the
  table is well formed only if it was empty before.
\<close>

theorem hash_empty_keeps_size:
  assumes "hash_ok h"
  shows "hash_map (xdebug_hash_empty h) = Map.empty \<and> h_size (xdebug_hash_empty h) = h_size h \<and>
    (hash_ok (xdebug_hash_empty h) \<longleftrightarrow> h_size h = 0)"
  using hash_empty_map [of h] hash_empty_size [OF assms] assms by (simp add: hash_ok_def xdebug_hash_empty_def)

theorem hash_empty_keeps_size_witness:
  "let h = xdebug_hash_add (xdebug_hash_alloc 2 True) ''k'' (7::nat) in
    hash_map (xdebug_hash_empty h) = Map.empty \<and> h_size (xdebug_hash_empty h) = h_size h \<and>
    (hash_ok (xdebug_hash_empty h) \<longleftrightarrow> h_size h = 0)"
  unfolding Let_def by (rule hash_empty_keeps_size) (simp add: add_str_map)

text \<open>
  Adding positions to a bit set stays inside its bytes, and afterwards exactly the old and the added
  positions are in the set.
\<close>

theorem set_add_all:
  assumes "set_ok s" "\<forall>p \<in> set ps. p < set_size s"
  shows "\<exists>s'. bits.ins_all s ps = Some s' \<and> set_ok s' \<and>
    (\<forall>q. \<exists>v. xdebug_set_in s' q = Some v \<and> (v \<noteq> 0 \<longleftrightarrow> q \<in> elems s \<or> q \<in> set ps))"
proof -
  obtain s' where s': "bits.ins_all s ps = Some s'" "set_ok s'" "\<forall>q. q \<in> elems s' \<longleftrightarrow> q \<in> elems s \<or> q \<in> set ps"
    using bits.ins_all_ok [OF assms] by blast
  with xdebug_set_in_ok [OF s'(2)] show ?thesis by simp
qed

theorem set_add_all_witness:
  "let s = the (xdebug_set_create 11) in
    \<exists>s'. bits.ins_all s [3, 10] = Some s' \<and> set_ok s' \<and>
      (\<forall>q. \<exists>v. xdebug_set_in s' q = Some v \<and> (v \<noteq> 0 \<longleftrightarrow> q \<in> elems s \<or> q \<in> set [3, 10]))"
proof -
  obtain s where "xdebug_set_create 11 = Some s" "set_ok s" "set_size s = 11"
    using set_create_ok [of 11] by auto
  with set_add_all [of s "[3, 10]"] show ?thesis by simp
qed

text \<open>
  What is pushed onto a vector is popped in reverse order, without leaving the allocation, and the
  elements below are untouched.
\<close>

theorem vector_push_pop:
  assumes "vec_ok s"
  shows "\<exists>s' s''. vec.push_all xs s = Some s' \<and> vec.pop_all (length xs) s' = Some (rev xs, s'') \<and> vec_ok s'' \<and>
    vec_list s'' = vec_list s"
  by (rule vec.push_pop_all [OF assms])

theorem vector_push_pop_witness:
  "\<exists>s' s''. vec.push_all ''abc'' xdebug_vector_alloc = Some s' \<and> vec.pop_all (length ''abc'') s' = Some (rev ''abc'', s'') \<and>
    vec_ok s'' \<and> vec_list s'' = vec_list xdebug_vector_alloc"
  by (rule vector_push_pop) simp

text \<open>
  A cloned vector has the elements but not the capacity of its original; a push onto it writes outside
  the allocation exactly when it has 32 elements or more.
\<close>

theorem vector_clone_push_overflows:
  assumes "vec_ok v"
  shows "vec_list (xdebug_vector_clone v) = vec_list v \<and>
    (xdebug_vector_push z (xdebug_vector_clone v) = None \<longleftrightarrow> 32 \<le> length (vec_list v))"
  using clone_ok(1) [OF assms] clone_push [OF assms] vec_list_length [OF assms] by simp

theorem vector_clone_push_overflows_witness:
  "let v = \<lparr>vec_capacity = 48, vec_count = 40, vec_data = replicate 48 (Some ())\<rparr> in
    vec_list (xdebug_vector_clone v) = vec_list v \<and>
    (xdebug_vector_push () (xdebug_vector_clone v) = None \<longleftrightarrow> 32 \<le> length (vec_list v))"
  unfolding Let_def by (rule vector_clone_push_overflows) (simp add: vec_ok_def)

section \<open>Text\<close>

text \<open>
  With a non-empty delimiter and no limit \<open>xdebug_explode\<close> returns; joining its pieces gives the string
  back, and none of them holds the delimiter.
\<close>

theorem explode_join:
  assumes "d \<noteq> []" "is_cstr d" "is_cstr str"
  shows "\<exists>args r. xdebug_explode d str xdebug_arg_ctor (- 1) = Some args \<and>
    (\<forall>p \<in> set (arg_args args). \<forall>i. \<not> occurs_at p d i) \<and>
    xdebug_join d args 0 (arg_c args - 1) = Some r \<and> str_text r = str"
proof -
  obtain args where a: "xdebug_explode d str xdebug_arg_ctor (- 1) = Some args"
    "arg_args args = split_at_delim d str" "arg_ok args"
    using explode_split [OF assms(1), of str xdebug_arg_ctor] by auto
  have j: "joined d (arg_args args) = str" using joined_split a(2) by simp
  have sub: "set s \<subseteq> set (joined d ss)" if "s \<in> set ss" for s ss
    using that by (induction d ss rule: joined.induct) auto
  have "\<forall>s \<in> set (arg_args args). is_cstr s"
    using sub [of _ "arg_args args"] assms(3) j by (auto simp: is_cstr_def)
  then obtain r where "xdebug_join d args 0 (arg_c args - 1) = Some r" "str_text r = joined d (arg_args args)"
    using join_all [OF a(3) _ assms(2)] a(2) by auto
  with a j split_pieces [OF assms(1)] show ?thesis by auto
qed

theorem explode_join_witness:
  "\<exists>args r. xdebug_explode '', '' ''a, b,c'' xdebug_arg_ctor (- 1) = Some args \<and>
    (\<forall>p \<in> set (arg_args args). \<forall>i. \<not> occurs_at p '', '' i) \<and>
    xdebug_join '', '' args 0 (arg_c args - 1) = Some r \<and> str_text r = ''a, b,c''"
  by (rule explode_join) (simp_all add: is_cstr_def)

text \<open>Splitting at one character is inverse to joining pieces that do not hold it.\<close>

theorem join_explode:
  assumes "ps \<noteq> []" "\<forall>p \<in> set ps. c \<notin> set p"
  shows "\<exists>args. xdebug_explode [c] (joined [c] ps) xdebug_arg_ctor (- 1) = Some args \<and> arg_args args = ps"
  using explode_split [of "[c]" "joined [c] ps" xdebug_arg_ctor] split_joined [OF assms] by auto

theorem join_explode_witness:
  "\<exists>args. xdebug_explode [SLASH] (joined [SLASH] [[], ''usr'', ''bin'']) xdebug_arg_ctor (- 1) = Some args \<and>
    arg_args args = [[], ''usr'', ''bin'']"
  by (rule join_explode) simp_all

text \<open>
  Trimming cuts white space only, from both ends, and what is left neither begins nor ends with it.
\<close>

theorem trim_removes_space:
  assumes "is_cstr str"
  shows "(\<exists>ls rs. str = ls @ xdebug_trim str @ rs \<and> (\<forall>c \<in> set ls \<union> set rs. isspace c)) \<and>
    (xdebug_trim str = [] \<or> (\<not> isspace (hd (xdebug_trim str)) \<and> \<not> isspace (last (xdebug_trim str))))"
  using trim_shape [OF assms] by blast

theorem trim_removes_space_witness:
  "(\<exists>ls rs. '' a b '' = ls @ xdebug_trim '' a b '' @ rs \<and> (\<forall>c \<in> set ls \<union> set rs. isspace c)) \<and>
    (xdebug_trim '' a b '' = [] \<or> (\<not> isspace (hd (xdebug_trim '' a b '')) \<and> \<not> isspace (last (xdebug_trim '' a b ''))))"
  by (rule trim_removes_space) (simp add: is_cstr_def)

text \<open>
  The table-driven checksum is the bit-by-bit CRC-32 with the reversed polynomial \<open>0xEDB88320\<close>: every one
  of the 256 table entries is right.
\<close>

theorem crc32_is_reference: "xdebug_crc32 s = crc32_reference s"
  by (simp add: xdebug_crc32_def crc32_reference_def crc32_loop)

section \<open>Encodings\<close>

text \<open>
  Decoding what the base64 encoder wrote gives the text back, byte for byte; the encoder stays inside its
  allocation, and the decoder inside its own on any input.
\<close>

theorem base64_round_trip:
  "xdebug_base64_decode (fst (xdebug_base64_encode s)) = Some (Some s) \<and>
   length (base64_encode_impl s) < base64_encode_alloc (length s) \<and> (\<exists>r. xdebug_base64_decode data = Some r)"
  by (simp add: base64_decode_encode base64_encode_fits xdebug_base64_decode_total)

text \<open>
  Escaping for XML stays inside its tables and its allocation for any bytes; the result holds no character
  that could end an attribute value or a tag, and reading its references gives the text back.
\<close>

theorem xmlize_round_trip:
  "\<exists>t. xdebug_xmlize s (length s) = Some (t, length t) \<and> xml_unescape t = s \<and>
    set t \<inter> {NUL, DQUOTE, CHR ''<'', CHR ''>'', CHR 0x27, NEWLINE, CHR 0x0D} = {}"
  using xml_escape_safe by (fastforce simp: xdebug_xmlize_escape xml_unescape_all)

text \<open>
  A text node is read back unharmed: its \<open>CDATA\<close> section ends at its own terminator, whatever the text holds,
  and its content is the text, or the base64 form of the text where the node says so.  A whole node can always
  be written.
\<close>

theorem cdata_text_read_back:
  "(case xn_text (xdebug_xml_add_text_ex n t e) of
      Some tn \<Rightarrow>
        (\<exists>x. cdata_content (xdebug_xml_return_text_node tn @ r) = Some x \<and>
          (if xt_encode tn then xdebug_base64_decode x = Some (Some t) else x = c_str t))
    | None \<Rightarrow> False) \<and>
   (\<exists>out. xdebug_xml_return_node (xdebug_xml_add_text_ex n t e) = Some out)"
proof -
  note encoded = cdata_content_read [OF base64_no_end [of t], of r]
  have dec: "xdebug_base64_decode (base64_encode_impl t) = Some (Some t)"
    using base64_decode_encode [of t] by (simp add: xdebug_base64_encode_def Let_def)
  show ?thesis
  proof (intro conjI xml_return_node_total, cases "e \<or> strstr (c_str t) '']]>'' \<noteq> None")
    case True
    with encoded dec show "case xn_text (xdebug_xml_add_text_ex n t e) of
        Some tn \<Rightarrow> \<exists>x. cdata_content (xdebug_xml_return_text_node tn @ r) = Some x \<and>
          (if xt_encode tn then xdebug_base64_decode x = Some (Some t) else x = c_str t) | None \<Rightarrow> False"
      by (auto simp: xdebug_xml_add_text_ex_def xdebug_xml_return_text_node_def xdebug_base64_encode_def Let_def)
  next
    case False
    with cdata_content_read [of "c_str t" r] show "case xn_text (xdebug_xml_add_text_ex n t e) of
        Some tn \<Rightarrow> \<exists>x. cdata_content (xdebug_xml_return_text_node tn @ r) = Some x \<and>
          (if xt_encode tn then xdebug_base64_decode x = Some (Some t) else x = c_str t) | None \<Rightarrow> False"
      by (auto simp: xdebug_xml_add_text_ex_def xdebug_xml_return_text_node_def)
  qed
qed

text \<open>
  An absolute path without backslashes, made into a URL for the client and read back from it, is the path
  itself, with every byte that needs an escape.
\<close>

theorem path_url_round_trip:
  assumes "unix_path p"
  shows "Option.bind (xdebug_path_to_url expand p) xdebug_path_from_url = Some p"
  by (rule path_from_to_url [OF assms])

theorem path_url_round_trip_witness:
  "Option.bind (xdebug_path_to_url (\<lambda>_. None) ''/a b%/c.php'') xdebug_path_from_url = Some ''/a b%/c.php''"
  by (rule path_url_round_trip) (simp add: unix_path_def is_cstr_def cget_def)

text \<open>
  Decoding percent escapes in place reads and writes only inside the buffer of the string and its
  terminator, for any bytes, and leaves the decoded text; it undoes the encoder.
\<close>

theorem url_decode_in_place:
  "(\<exists>b. xdebug_raw_url_decode (s @ [NUL]) (length s) = Some (b, length (url_decode s)) \<and>
     length b = length s + 1 \<and> take (length (url_decode s) + 1) b = url_decode s @ [NUL]) \<and>
   url_decode (xdebug_raw_url_encode t skip) = t"
  using xdebug_raw_url_decode_value [of s] by (simp add: url_decode_encode)

section \<open>File names\<close>

text \<open>
  C40: Whatever the request, the cookie, the server name or the script name holds, the name of an output file
  has a slash only where the configured format has one: nothing escapes the output directory.
\<close>

theorem output_filename_slash_free:
  assumes "slash_free fmt"
  shows "slash_free (xdebug_format_output_filename env fmt script_name)"
  unfolding xdebug_format_output_filename_def
  by (rule format_loop_slash_free [OF assms]) (rule output_specifier_slash_free)

theorem output_filename_slash_free_witness:
  "slash_free (xdebug_format_output_filename
     \<lparr>oe_cwd = Some ''/srv'', oe_pid = 7, oe_random = (\<lambda>_. 0), oe_nanotime = (\<lambda>_. 0),
      oe_server = Some (\<lambda>_. Some ''../../etc''), oe_session_name = None, oe_cookie = None\<rparr> ''trace.%R.%p'' (Some ''/a/b.php''))"
  by (rule output_filename_slash_free) simp

text \<open>
  A displayed file name is its format with \<open>%n\<close>, \<open>%p\<close> and \<open>%a\<close> replaced by the last one, two and three
  components of the path (all there are, if fewer); the array of components is never indexed outside.
\<close>

theorem format_filename_components:
  assumes "is_cstr path"
  shows "xdebug_format_filename filename_format default_fmt path =
    Some (format_loop
      (name_specifier (last (split_at_delim [SLASH] path)) (joined [SLASH] (last_n 2 (split_at_delim [SLASH] path)))
         (joined [SLASH] (last_n 3 (split_at_delim [SLASH] path))) path)
      (case filename_format of Some f \<Rightarrow> if f \<noteq> [] then f else default_fmt | None \<Rightarrow> default_fmt))"
  by (rule format_filename_value [OF assms])

theorem format_filename_components_witness:
  "xdebug_format_filename None ''%n:%p'' ''/srv/a.php'' =
    Some (format_loop
      (name_specifier (last (split_at_delim [SLASH] ''/srv/a.php'')) (joined [SLASH] (last_n 2 (split_at_delim [SLASH] ''/srv/a.php'')))
         (joined [SLASH] (last_n 3 (split_at_delim [SLASH] ''/srv/a.php''))) ''/srv/a.php'')
      (case None of Some f \<Rightarrow> if f \<noteq> [] then f else ''%n:%p'' | None \<Rightarrow> ''%n:%p''))"
  by (rule format_filename_components) (simp add: is_cstr_def)

section \<open>The debugger protocol\<close>

text \<open>
  C3: The command loop depends on the command lines the client sends, not on how their bytes arrive: on
  any arrivals that bring the lines, cut anywhere, it does what it does on the list of lines, and leaves
  the same lines unread.
\<close>

theorem command_loop_reads_lines:
  assumes "arrivals_ok (fc_socket c)" "pending_bytes c = packets ms" "list_all is_cstr ms"
    "length (packets ms) < DBGP_MAX_PACKET_SIZE"
  shows "map_option (\<lambda>(s1, c1, r). (s1, pending_bytes c1, r)) (xdebug_dbgp_cmdloop env php bail c s) =
    map_option (\<lambda>(s1, rest, r). (s1, packets rest, r)) (serve env php bail s ms)"
  by (rule cmdloop_serve [OF assms])

theorem command_loop_reads_lines_witness:
  "let c = \<lparr>fc_buffer = ''sta'', fc_socket = [Recv ''tus -i'', Recv_interrupted, Recv ('' 7'' @ [NUL] @ ''run''), Recv ('' -i 8'' @ [NUL])]\<rparr>
   in map_option (\<lambda>(s1, c1, r). (s1, pending_bytes c1, r)) (xdebug_dbgp_cmdloop plain_env no_php True c in_session) =
      map_option (\<lambda>(s1, rest, r). (s1, packets rest, r)) (serve plain_env no_php True in_session [''status -i 7'', ''run -i 8''])"
  unfolding Let_def
  by (rule command_loop_reads_lines) (simp_all add: pending_bytes_def packets_def is_cstr_def DBGP_MAX_PACKET_SIZE_def)





text \<open>
  A message is framed so that the client reads it back whole: the length, the document, and what comes
  after it is left for the next read.
\<close>

theorem message_frame_read_back:
  assumes "xml_tags_ok n"
  shows "\<exists>x f. xdebug_xml_return_node n = Some x \<and> make_message n = Some f \<and> frame_read (f @ rest) = Some (xml_prolog @ x, rest)"
  by (rule frame_round_trip [OF assms])

theorem message_frame_read_back_witness:
  "\<exists>x f. xdebug_xml_return_node (dbgp_node ''response'') = Some x \<and> make_message (dbgp_node ''response'') = Some f \<and>
     frame_read (f @ ''next'') = Some (xml_prolog @ x, ''next'')"
  by (rule message_frame_read_back) code_simp

text \<open>A feature the client set is read back by \<open>feature_get\<close>, as the number the text stands for.\<close>

theorem feature_read_back:
  assumes "con_options s = Some opts" "CMD_OPTION_CHAR args (CHR ''n'') = Some name" "CMD_OPTION_CHAR args (CHR ''v'') = Some v"
    "CMD_OPTION_SET args (CHR ''n'')" "CMD_OPTION_SET args (CHR ''v'')" "feature_update name (strtol_int v) opts s \<noteq> None" "name \<noteq> ''encoding''"
  shows "\<exists>s1 r1. xdebug_dbgp_handle_feature_set s args r = Some (s1, r1) \<and>
    xdebug_dbgp_handle_feature_get env ex s1 args r =
      Some (s1, feature_result (Some (lu_of_int (strtol_int v))) ''1'' (xdebug_xml_add_attribute r ''feature_name'' name))"
  by (rule feature_set_get [OF assms])

theorem feature_read_back_witness:
  "let args = args_of ''feature_set -i 1 -n max_data -v 2048''; r = dbgp_node ''response''
   in \<exists>s1 r1. xdebug_dbgp_handle_feature_set in_session args r = Some (s1, r1) \<and>
      xdebug_dbgp_handle_feature_get plain_env (\<lambda>n. False) s1 args r =
        Some (s1, feature_result (Some (lu_of_int (strtol_int ''2048''))) ''1'' (xdebug_xml_add_attribute r ''feature_name'' ''max_data''))"
  unfolding Let_def
proof (rule feature_read_back)
  show "con_options in_session = Some init_options" by (simp add: in_session_def init_tables_def)
  show "feature_update ''max_data'' (strtol_int ''2048'') init_options in_session \<noteq> None" by (simp add: feature_update_def)
qed code_simp+

text \<open>
  C25: Setting \<open>max_depth\<close> to 0 or less leaves no room for the page number \<open>eval\<close> writes: the next \<open>eval\<close>
  writes outside the array.
\<close>

theorem max_depth_breaks_eval:
  assumes "feature_update ''max_depth'' v opts s = Some s1" "v \<le> 0" "CMD_OPTION_SET args (CHR ''-'')"
  shows "xdebug_dbgp_handle_eval env s1 args r = None"
  by (rule max_depth_then_eval [OF assms])

theorem max_depth_breaks_eval_witness:
  "xdebug_dbgp_handle_eval plain_env (in_session\<lparr>con_options := Some (set_max_depth 0 init_options)\<rparr>) (args_of ''eval -i 2 -- MQ=='')
     (dbgp_node ''response'') = None"
  by (rule max_depth_breaks_eval [of 0 init_options in_session]) (simp add: feature_update_def, simp, code_simp)

text \<open>
  Code from \<open>eval\<close> is known to the client by a URL: once it is registered, its location in the engine is
  shown as \<open>dbgp://\<close> and its number, and its text is found again under this number.
\<close>

theorem evaled_code_found_again:
  assumes "hash_ok (con_eval_id_lookup s)" "fse_include_filename fse = Some contents"
  shows "\<exists>s1 n ei. xdebug_dbgp_register_eval_id s fse = Some (s1, n) \<and> ei_id ei = n \<and> ei_contents ei = contents \<and>
    xdebug_debugger_check_evaled_code s1 (Some (create_eval_key_file (fse_filename fse) (fse_lineno fse))) =
      Some (''dbgp://'' @ lu_of_int n) \<and>
    xdebug_hash_find (con_eval_id_lookup s1) (create_eval_key_id n) = Some ei"
  by (rule eval_registered [OF assms])

theorem evaled_code_found_again_witness:
  "let fse = (frame_of ''eval'' 2 2)\<lparr>fse_include_filename := Some ''$a = 1;''\<rparr> in
   \<exists>s1 n ei. xdebug_dbgp_register_eval_id in_session fse = Some (s1, n) \<and> ei_id ei = n \<and> ei_contents ei = ''$a = 1;'' \<and>
    xdebug_debugger_check_evaled_code s1 (Some (create_eval_key_file (fse_filename fse) (fse_lineno fse))) =
      Some (''dbgp://'' @ lu_of_int n) \<and>
    xdebug_hash_find (con_eval_id_lookup s1) (create_eval_key_id n) = Some ei"
  unfolding Let_def
  by (rule evaled_code_found_again) (simp_all add: in_session_def init_tables_def)

section \<open>Variables shown to the client\<close>

text \<open>
  C6: The name the debugger reports for an element of nested arrays finds that element again: asking for the
  full name of an element is the same as walking to it from its variable.  String keys must not have a NUL before an
  octal digit, number keys are 64-bit.
\<close>

theorem reported_names_resolve:
  assumes "plain_name v" "xdebug_get_php_symbol pe sy (CHR ''$'' # v) = Some z" "walk pe z path = Some z'" "list_all key_ok path"
  shows "xdebug_get_php_symbol pe sy (foldl array_element_fullname (CHR ''$'' # v) path) = Some z'"
  by (rule symbol_of_path [OF assms])

theorem reported_names_resolve_witness:
  "xdebug_get_php_symbol plain_php (plain_symbols None) (foldl array_element_fullname ''$a'' [Key_str ''x'', Key_num (- 5)]) =
   Some (IS_STRING ''deep'')"
proof (rule reported_names_resolve)
  show "plain_name ''a''" by code_simp
  show "xdebug_get_php_symbol plain_php (plain_symbols None) ''$a'' = Some (IS_ARRAY 0)" by code_simp
  show "walk plain_php (IS_ARRAY 0) [Key_str ''x'', Key_num (- 5)] = Some (IS_STRING ''deep'')" by code_simp
  show "list_all key_ok [Key_str ''x'', Key_num (- 5)]" by code_simp
qed

text \<open>
  C7: The pages of an array show each of its elements exactly once, in order, with its name and full name.
\<close>

theorem array_pages_show_all:
  assumes "engine_ok pe" "opt_max_depth opts \<le> int (length (opt_runtime opts))" "0 < opt_max_depth opts"
    "opt_extended_properties opts = 0" "0 < opt_max_children opts" "opt_max_children opts * int k < 2 ^ 31"
    "prepare_variable_name name = Some f" "length (foreach_ind (za_elements (pe_array pe a))) \<le> k * nat (opt_max_children opts)"
  shows "concat (map (\<lambda>p. children_shown
           (xdebug_get_zval_value_xml_node_ex pe (page_of opts p) (Some name) (IS_ARRAY a) XDEBUG_VAR_TYPE_NORMAL)) [0..<k]) =
         map (element_names f) (foreach_ind (za_elements (pe_array pe a)))"
  by (rule all_pages [OF assms])

theorem array_pages_show_all_witness:
  "concat (map (\<lambda>p. children_shown
     (xdebug_get_zval_value_xml_node_ex plain_php (page_of plain_options p) (Some ''a'') (IS_ARRAY 0) XDEBUG_VAR_TYPE_NORMAL)) [0..<2]) =
   [(Some ''x'', Some ''$a[\"x\"]''), (Some ''7'', Some ''$a[7]''), (Some ''q'', Some ''$a[\"q\"]'')]"
proof -
  have "concat (map (\<lambda>p. children_shown
     (xdebug_get_zval_value_xml_node_ex plain_php (page_of plain_options p) (Some ''a'') (IS_ARRAY 0) XDEBUG_VAR_TYPE_NORMAL)) [0..<2]) =
    map (element_names ''$a'') (foreach_ind (za_elements (pe_array plain_php 0)))"
    by (rule array_pages_show_all [OF plain_engine_ok]; code_simp)
  also have "\<dots> = [(Some ''x'', Some ''$a[\"x\"]''), (Some ''7'', Some ''$a[7]''), (Some ''q'', Some ''$a[\"q\"]'')]"
    by code_simp
  finally show ?thesis .
qed

text \<open>
  C8: Showing a value always returns, whatever cycles its arrays, objects and references have, without
  leaving the array of page numbers or a table of static members, and the tree is no deeper than the maximal depth
  allows.
\<close>

theorem export_returns_bounded:
  assumes "engine_ok pe" "opt_max_depth opts \<le> int (length (opt_runtime opts))" "variable_name ty name = Some f"
  shows "\<exists>n e. xdebug_get_zval_value_xml_node_ex pe opts (Some name) z ty = Some (n, e) \<and> xml_depth n \<le> 2 + nat (opt_max_depth opts)"
  by (rule value_node_within [OF assms])

theorem export_returns_bounded_witness:
  "\<exists>n e. xdebug_get_zval_value_xml_node_ex (plain_php\<lparr>pe_ref := (\<lambda>a. IS_ARRAY 2),
      pe_array := (\<lambda>a. \<lparr>za_elements = [(Key_num 0, IS_REFERENCE 0)], za_immutable = True\<rparr>)\<rparr>) plain_options (Some ''loop'') (IS_REFERENCE 0)
      XDEBUG_VAR_TYPE_NORMAL = Some (n, e) \<and> xml_depth n \<le> 5"
  using export_returns_bounded [of "plain_php\<lparr>pe_ref := (\<lambda>a. IS_ARRAY 2),
      pe_array := (\<lambda>a. \<lparr>za_elements = [(Key_num 0, IS_REFERENCE 0)], za_immutable = True\<rparr>)\<rparr>" plain_options
      XDEBUG_VAR_TYPE_NORMAL "''loop''" "''$loop''" "IS_REFERENCE 0"]
  by (simp add: engine_ok_def plain_php_def statics_ok_def plain_class_def plain_options_def variable_name_def
      prepare_variable_name_def)



text \<open>
  C28: After a command that looked at a frame, a command that asks for a superglobal of the same name as a compiled
  variable of that frame gets the variable: selecting the superglobals leaves the frame selected.
\<close>

theorem superglobals_hidden_by_locals:
  assumes "plain_name v" "ve_return_value ve = None" "pe_exception (ve_php ve) = None" "sc_active_data (dbg_scope s) = Some data"
    "ed_func data = Some (True, Some vars)" "find_compiled (pe_hash_func (ve_php ve)) v vars (ed_cvs data) = Some z"
  shows "xdebug_get_php_symbol (ve_php ve) (symbol_env_of ve (select_superglobals ve s)) (CHR ''$'' # v) = Some z"
  by (rule compiled_hides_globals [OF assms(1) _ assms(3) _ assms(5,6)])
    (use assms in \<open>simp_all add: symbol_env_of_def select_superglobals_def set_scope_def xdebug_lib_set_active_symbol_table_def\<close>)

theorem superglobals_hidden_by_locals_witness:
  "zend_hash_str_find (ve_globals plain_vars) ''a'' = Some (IS_LONG 3) \<and>
   xdebug_get_php_symbol plain_php (symbol_env_of plain_vars (select_superglobals plain_vars (showing\<lparr>dbg_scope := plain_scope\<rparr>))) ''$a'' =
     Some (IS_ARRAY 0)"
proof
  show "zend_hash_str_find (ve_globals plain_vars) ''a'' = Some (IS_LONG 3)" by code_simp
  have "plain_name ''a''" by code_simp
  from superglobals_hidden_by_locals [OF this, of plain_vars "showing\<lparr>dbg_scope := plain_scope\<rparr>" plain_data "[''a'']" "IS_ARRAY 0"]
  show "xdebug_get_php_symbol plain_php (symbol_env_of plain_vars (select_superglobals plain_vars (showing\<lparr>dbg_scope := plain_scope\<rparr>))) ''$a'' =
     Some (IS_ARRAY 0)"
    by (simp add: plain_vars_def plain_php_def plain_scope_def plain_data_def strneq_def c_str_def)
qed

text \<open>
  C29: While a return value is shown, every variable whose name begins the name \<open>__RETURN_VALUE\<close>, such as \<open>$_\<close>, is
  answered with the return value.
\<close>

theorem return_value_hides_variables:
  assumes "plain_name v" "take (length v) XDEBUG_RETURN_VALUE_VAR_NAME = v" "sy_return_value sy = Some z"
  shows "xdebug_get_php_symbol pe sy (CHR ''$'' # v) = Some z"
  by (rule return_value_hides [OF assms])

theorem return_value_hides_variables_witness:
  "xdebug_get_php_symbol plain_php (plain_symbols (Some (IS_LONG 42))) ''$_'' = Some (IS_LONG 42)"
proof (rule return_value_hides_variables)
  show "plain_name ''_''" by code_simp
  show "take (length ''_'') XDEBUG_RETURN_VALUE_VAR_NAME = ''_''" by code_simp
  show "sy_return_value (plain_symbols (Some (IS_LONG 42))) = Some (IS_LONG 42)" by (simp add: plain_symbols_def)
qed

text \<open>
  The page that \<open>property_value\<close> is asked for has no effect: the value is written one level down, where the page
  is always the one of that level.
\<close>

theorem property_value_ignores_page:
  "get_symbol_contents ve s (page_of opts p) name node = get_symbol_contents ve s (page_of opts q) name node"
  by (simp only: contents_ignore_page)

text \<open>
  C30: \<open>property_set\<close> with a type it does not know reports a failure, sets the value all the same, and then reports
  success in a second attribute of the same name.
\<close>

theorem property_set_unknown_type_sets:
  assumes "CMD_OPTION_CHAR args (CHR ''n'') = Some name" "CMD_OPTION_BYTES args (CHR ''-'') = Some bytes"
    "CMD_OPTION_CHAR args (CHR ''t'') = Some ty" "CMD_OPTION_SET args (CHR ''n'')" "CMD_OPTION_SET args (CHR ''-'')"
    "CMD_OPTION_SET args (CHR ''t'')"
    "int_option args (CHR ''d'') 0 = Some d" "int_option args (CHR ''c'') 0 = Some c" "select_context False ve s d c = Some (Inr s1)"
    "int_option args (CHR ''p'') 0 = Some page" "set_page s1 page = Some s2" "xdebug_base64_decode bytes = Some (Some new_value)"
    "cast_for_type ty = ('''', False)" "env_eval env (c_str (assign_code name '''' new_value)) = Eval_value b val"
  shows "map_option (\<lambda>(t, n). xn_attribute n) (xdebug_dbgp_handle_property_set env ve s args (dbgp_node ''response'')) =
    Some (xn_attribute (dbgp_node ''response'') @ [(''success'', ''0''), (''success'', ''1'')])"
  using assms
  by (simp add: xdebug_dbgp_handle_property_set_def error_message_evaluating xdebug_do_eval_def xdebug_xml_add_attribute_def Let_def)

theorem property_set_unknown_type_sets_witness:
  "map_option (\<lambda>(t, n). xn_attribute n)
     (xdebug_dbgp_handle_property_set (plain_env\<lparr>env_eval := (\<lambda>c. Eval_value (c = ''$a =  5'') (\<lambda>opts. dbgp_node ''property''))\<rparr>)
        plain_vars showing (args_of ''property_set -i 1 -n $a -t money -- NQ=='') (dbgp_node ''response'')) =
    Some (xn_attribute (dbgp_node ''response'') @ [(''success'', ''0''), (''success'', ''1'')])"
proof -
  let ?args = "args_of ''property_set -i 1 -n $a -t money -- NQ==''"
  have "select_context False plain_vars showing 0 0 \<noteq> None" "case select_context False plain_vars showing 0 0 of Some (Inr s1) \<Rightarrow> set_page s1 0 \<noteq> None | _ \<Rightarrow> False"
    by code_simp+
  then obtain s1 s2 where s: "select_context False plain_vars showing 0 0 = Some (Inr s1)" "set_page s1 0 = Some s2"
    by (auto split: option.splits sum.splits)
  have e: "env_eval (plain_env\<lparr>env_eval := (\<lambda>c. Eval_value (c = ''$a =  5'') (\<lambda>opts. dbgp_node ''property''))\<rparr>)
      (c_str (assign_code ''$a'' '''' ''5'')) = Eval_value True (\<lambda>opts. dbgp_node ''property'')"
    by (simp add: assign_code_def c_str_def)
  show ?thesis
    by (rule property_set_unknown_type_sets [OF _ _ _ _ _ _ _ _ s(1) _ s(2) _ _ e, where bytes = "''NQ==''" and ty = "''money''"])
      (code_simp+)
qed

section \<open>Breakpoints\<close>





text \<open>
  C21: The entry made for compiled code is well formed: its set never leaves its allocation and holds exactly
  the lines on which a statement begins.
\<close>

theorem compiled_lines_are_statements:
  assumes "op_array_ok opa" "oa_line_end opa < 2 ^ 31 - 1"
  shows "\<exists>item. lines_item opa = Some item \<and> lines_item_ok item \<and> elems (li_lines_breakable item) = stmt_lines opa"
  by (rule compiled_item_ok [OF assms])

theorem compiled_lines_are_statements_witness:
  "\<exists>item. lines_item (Op_array 1 8 [(ZEND_EXT_STMT, 2), (opcode_kind.ZEND_RETURN True, 8)] []) = Some item \<and> lines_item_ok item \<and>
     elems (li_lines_breakable item) = stmt_lines (Op_array 1 8 [(ZEND_EXT_STMT, 2), (opcode_kind.ZEND_RETURN True, 8)] [])"
  by (rule compiled_lines_are_statements) (code_simp, simp)

text \<open>
  C19: Over any number of hits, a breakpoint counts exactly those its hit condition names: from the value on,
  at the value, or at its multiples; all of them without a value.
\<close>

theorem hits_follow_condition:
  assumes "0 \<le> bi_hit_count b" "bi_hit_count b + int n < 2 ^ 31"
  shows "hits n b = map (\<lambda>i. hit_counts b (bi_hit_count b + 1 + int i)) [0..<n]"
  by (rule hits_count [OF assms])

theorem hits_follow_condition_witness:
  "let b = xdebug_brk_info_ctor\<lparr>bi_hit_value := 2, bi_hit_condition := XDEBUG_HIT_MOD\<rparr>
   in hits 4 b = [False, True, False, True] \<and> hits 4 b = map (\<lambda>i. hit_counts b (bi_hit_count b + 1 + int i)) [0..<4]"
proof -
  let ?b = "xdebug_brk_info_ctor\<lparr>bi_hit_value := 2, bi_hit_condition := XDEBUG_HIT_MOD\<rparr>"
  have "hits 4 ?b = [False, True, False, True]" by code_simp
  moreover have "hits 4 ?b = map (\<lambda>i. hit_counts ?b (bi_hit_count ?b + 1 + int i)) [0..<4]"
    by (rule hits_follow_condition) (simp_all add: xdebug_brk_info_ctor_def)
  ultimately show ?thesis by simp
qed

text \<open>
  C24: At an exception, a breakpoint on its class, a parent, or every exception breaks whatever its state: one
  that the client disabled, or a temporary one that has been hit, breaks as well.
\<close>

theorem disabled_exception_breakpoint_breaks:
  assumes "exception_breakpoint_for (con_exception_breakpoints (en_dbg e)) classes = Some a"
    "brk_at (en_dbg e) a = Some b" "bi_hit_value b = 0" "dbg_executed_filename (en_dbg e) = Some f"
    "xdebug_debugger_map_remote_to_local (en_dbg e) f (dbg_executed_lineno (en_dbg e)) = Some (r, path, line)"
    "r \<noteq> XDEBUG_PATH_MAP_RESULT_SKIP"
  shows "\<exists>s bk. exception_break env e classes code code_str message = break_or_close env (put_dbg e s) bk \<and>
    bk_brk_info bk = Some a \<and> bk_exception bk = Some (c_str (hd classes))"
  by (rule exception_break_ignores_state [OF assms])

theorem disabled_exception_breakpoint_breaks_witness:
  "let b = xdebug_brk_info_ctor\<lparr>bi_brk_type := 16, bi_disabled := True\<rparr>;
       d = in_session\<lparr>con_heap := [7 \<mapsto> b], con_exception_breakpoints := xdebug_hash_add (xdebug_hash_alloc 64 True) ''Error'' 7,
             dbg_executed_filename := Some ''/app/index.php'', dbg_executed_lineno := 12\<rparr>;
       e = plain_engine d
   in \<exists>s bk. exception_break plain_sess_env e [''TypeError'', ''Error''] None None (Some ''boom'') =
        break_or_close plain_sess_env (put_dbg e s) bk \<and> bk_brk_info bk = Some 7 \<and> bk_exception bk = Some (c_str (hd [''TypeError'', ''Error'']))"
  unfolding Let_def
proof (rule disabled_exception_breakpoint_breaks)
  let ?d = "in_session\<lparr>con_heap := [7 \<mapsto> xdebug_brk_info_ctor\<lparr>bi_brk_type := 16, bi_disabled := True\<rparr>],
     con_exception_breakpoints := xdebug_hash_add (xdebug_hash_alloc 64 True) ''Error'' 7,
     dbg_executed_filename := Some ''/app/index.php'', dbg_executed_lineno := 12\<rparr>"
  show "exception_breakpoint_for (con_exception_breakpoints (en_dbg (plain_engine ?d))) [''TypeError'', ''Error''] = Some 7"
    by code_simp
  show "xdebug_debugger_map_remote_to_local (en_dbg (plain_engine ?d)) ''/app/index.php'' (dbg_executed_lineno (en_dbg (plain_engine ?d))) =
      Some (XDEBUG_PATH_MAP_RESULT_UNKNOWN, ''/app/index.php'', 12)"
    by code_simp
  show "brk_at (en_dbg (plain_engine ?d)) 7 = Some (xdebug_brk_info_ctor\<lparr>bi_brk_type := 16, bi_disabled := True\<rparr>)"
    by (simp add: plain_engine_def brk_at_def)
qed (simp_all add: plain_engine_def xdebug_brk_info_ctor_def XDEBUG_PATH_MAP_RESULT_UNKNOWN_def XDEBUG_PATH_MAP_RESULT_SKIP_def)



section \<open>Stepping\<close>

text \<open>
  C16: After \<open>step_into\<close> the very next statement the engine reaches breaks, in whatever function it is, and
  the request is taken back.
\<close>

theorem step_into_next_statement:
  assumes "xdebug_dbgp_handle_step_into s r = Some (s1, r1)" "same_request s1 (en_dbg e)" "\<not> con_do_break s"
    "at_statement e filename lineno fse path line"
  shows "xdebug_debugger_statement_call env e filename lineno = break_here env e (\<lambda>s. s\<lparr>con_do_step := False\<rparr>) path line"
  by (rule step_into_breaks [OF assms])

theorem step_into_next_statement_witness:
  "let e = plain_engine (in_session\<lparr>con_do_step := True, dbg_stack := [frame_of ''main'' 1 1, frame_of ''f'' 2 2]\<rparr>)
   in xdebug_debugger_statement_call plain_sess_env e ''/app/index.php'' 8 =
      break_here plain_sess_env e (\<lambda>s. s\<lparr>con_do_step := False\<rparr>) ''/app/index.php'' 8"
  unfolding Let_def
proof (rule step_into_next_statement [where s = in_session and r = "dbgp_node ''response''" and fse = "frame_of ''f'' 2 2"])
  show "xdebug_dbgp_handle_step_into in_session (dbgp_node ''response'') =
      Some (in_session\<lparr>con_do_next := False, con_do_step := True, con_do_finish := False\<rparr>, dbgp_node ''response'')"
    by (simp add: xdebug_dbgp_handle_step_into_def)
qed (simp_all add: example_states same_request_def at_statement_facts size_of_int_def)



text \<open>
  C17: After \<open>step_out\<close>, a statement breaks when its function is a caller of the one that was left, or one
  that was called later at its level.
\<close>

theorem step_out_leaves_function:
  assumes "xdebug_dbgp_handle_step_out s r = Some (s1, r1)" "same_request s1 (en_dbg e)" "\<not> con_do_break s"
    "stack_tail s = Some callee" "at_statement e filename lineno fse path line" "\<not> fse_has_line_breakpoints fse"
  shows "xdebug_debugger_statement_call env e filename lineno =
    (if fse_level fse < fse_level callee \<or> fse_level fse = fse_level callee \<and> fse_function_nr callee < fse_function_nr fse
     then break_here env e (\<lambda>s. s\<lparr>con_do_finish := False\<rparr>) path line
     else flow_on (put_dbg e ((en_dbg e)\<lparr>dbg_suppress_return_value_step := False\<rparr>)))"
  by (rule step_out_breaks [OF assms])

theorem step_out_leaves_function_witness:
  "let s = in_session\<lparr>dbg_stack := [frame_of ''main'' 1 1, frame_of ''f'' 2 2]\<rparr>;
       e = plain_engine (s\<lparr>con_do_finish := True, con_finish_level := 2, con_finish_func_nr := 2, dbg_stack := [frame_of ''main'' 1 1]\<rparr>)
   in xdebug_debugger_statement_call plain_sess_env e ''/app/index.php'' 8 =
      (if fse_level (frame_of ''main'' 1 1) < fse_level (frame_of ''f'' 2 2) \<or>
          fse_level (frame_of ''main'' 1 1) = fse_level (frame_of ''f'' 2 2) \<and> fse_function_nr (frame_of ''f'' 2 2) < fse_function_nr (frame_of ''main'' 1 1)
       then break_here plain_sess_env e (\<lambda>s. s\<lparr>con_do_finish := False\<rparr>) ''/app/index.php'' 8
       else flow_on (put_dbg e ((en_dbg e)\<lparr>dbg_suppress_return_value_step := False\<rparr>)))"
  unfolding Let_def
proof (rule step_out_leaves_function [where r = "dbgp_node ''response''"])
  let ?s = "in_session\<lparr>dbg_stack := [frame_of ''main'' 1 1, frame_of ''f'' 2 2]\<rparr>"
  show "xdebug_dbgp_handle_step_out ?s (dbgp_node ''response'') =
      Some (?s\<lparr>con_do_next := False, con_do_step := False, con_do_finish := True, con_finish_level := 2, con_finish_func_nr := 2\<rparr>,
        dbgp_node ''response'')"
    by (simp add: xdebug_dbgp_handle_step_out_def stack_tail_def Let_def example_states)
qed (simp_all add: example_states same_request_def at_statement_facts size_of_int_def stack_tail_def)

section \<open>Modes, triggers and the start of a session\<close>

text \<open>
  C22: Setting the modes reads the list of names as it is meant: each item sets the flag of the mode it names,
  an item that names none is an error, and the others count all the same.
\<close>

theorem modes_read_from_setting:
  "xdebug_lib_set_mode_from_setting s =
     (mode_flags (mode_items s) 0, list_all (\<lambda>i. mode_of_item i \<noteq> None) (mode_items s))"
  by (simp add: set_mode_spec list_all_iff)

text \<open>The names of modes, joined by commas, are read back as these modes and no other.\<close>

theorem mode_names_read_back:
  assumes "ms \<noteq> []" "set ms \<subseteq> mode_values"
  shows "xdebug_lib_set_mode_from_setting (joined '','' (map xdebug_lib_mode_from_value ms)) = (fold or ms 0, True)"
  by (rule set_mode_names [OF assms])

theorem mode_names_read_back_witness:
  "xdebug_lib_set_mode_from_setting (joined '','' (map xdebug_lib_mode_from_value [XDEBUG_MODE_STEP_DEBUG, XDEBUG_MODE_TRACING])) =
     (fold or [XDEBUG_MODE_STEP_DEBUG, XDEBUG_MODE_TRACING] 0, True)"
  by (rule mode_names_read_back) (simp_all add: mode_values_def)



section \<open>Code coverage\<close>

text \<open>
  C10: The analysis of dead code marks exactly the opcodes control can reach from the first one or from a
  \<open>catch\<close>, for any code whose jumps stay inside; it ends, however the jumps loop.
\<close>

theorem active_code_is_reachable:
  assumes "code_ok opa" "0 < length (ca_opcodes opa)"
  shows "\<exists>s active. xdebug_set_create (length (ca_opcodes opa)) = Some s \<and>
    xdebug_analysis_oparray opa (s, None) = Some (active, None) \<and> elems active = {p. reached opa p}"
proof -
  have "code_length opa < 2 ^ 32" using assms(1) by (simp add: code_ok_def)
  then obtain s where s: "xdebug_set_create (code_length opa) = Some s" "set_of_size (code_length opa) s" "elems s = {}"
    using set_create_of_size by blast
  then have "analysis_ok opa (s, None)" by (simp add: analysis_ok_def starts_of_def)
  from analysis_reaches [OF assms(1) _ this] s assms(2) show ?thesis by (force simp: code_length_def)
qed

theorem active_code_is_reachable_witness:
  "\<exists>s active. xdebug_set_create (length (ca_opcodes branching)) = Some s \<and>
    xdebug_analysis_oparray branching (s, None) = Some (active, None) \<and> elems active = {p. reached branching p}"
  by (rule active_code_is_reachable [OF branching_ok(1)]) (simp add: branching_def)



text \<open>
  C12: When a branch of a scanned function starts to run, exactly this branch and the ways out of the
  previous one that lead to it are added to the hits, inside the set allocated for them, and it becomes the
  previous branch of its frame.
\<close>

theorem branch_hits_recorded:
  assumes "ready n bi" "hits_are filename name (n * (1 + bri_highest_out bi)) S st" "n * (1 + bri_highest_out bi) < 2 ^ 32"
    and "entered stack st" "opcode_nr \<in> elems (bri_starts bi)"
    and "last_branch (length stack) st = Some previous" "previous = - 1 \<or> 0 \<le> previous \<and> nat previous < n"
  shows "\<exists>st1. reach_branch stack filename name bi opcode_nr st = Some st1 \<and>
    hits_are filename name (n * (1 + bri_highest_out bi))
      (S \<union> out_hits bi previous opcode_nr \<union> {opcode_nr * (1 + bri_highest_out bi)}) st1 \<and>
    last_branch (length stack) st1 = Some (int opcode_nr)"
  by (rule reach_branch_records [OF assms])

theorem branch_hits_recorded_witness:
  "\<exists>st1. reach_branch [1] ''f'' ''g'' one_branch 0 entered_once = Some st1 \<and>
    hits_are ''f'' ''g'' (1 * (1 + bri_highest_out one_branch)) ({} \<union> out_hits one_branch (- 1) 0 \<union> {0 * (1 + bri_highest_out one_branch)}) st1 \<and>
    last_branch (length [1 :: int]) st1 = Some (int 0)"
  by (rule branch_hits_recorded)
    (use one_branch_ready entered_once_hits entered_once_entered zero_set_ok in simp_all)



text \<open>
  C20: A filter that \<open>xdebug_set_filter\<close> accepted for the stack decides about every frame: an include filter
  leaves out the frames none of its entries names, an exclude filter those that one of them names; the
  order of the entries does not matter, and the filters of the other groups stay.
\<close>

theorem stack_filter_is_applied:
  assumes "XDEBUG_MODE_IS mode XDEBUG_MODE_DEVELOP"
    and "type \<in> {XDEBUG_PATH_INCLUDE, XDEBUG_PATH_EXCLUDE, XDEBUG_NAMESPACE_INCLUDE, XDEBUG_NAMESPACE_EXCLUDE}"
    and "xdebug_set_filter mode b XDEBUG_FILTER_STACK type filters = (b', r)"
  shows "r = Filter_done \<and>
    filtered_stack (xdebug_filter_run b' fse flags) =
      (list_ex (\<lambda>f. named_by type fse (matcher_of f)) filters = (type = XDEBUG_PATH_EXCLUDE \<or> type = XDEBUG_NAMESPACE_EXCLUDE)) \<and>
    filtered_tracing (xdebug_filter_run b' fse flags) = filtered_tracing (xdebug_filter_run b fse flags) \<and>
    filters_code_coverage b' = filters_code_coverage b \<and> filter_type_code_coverage b' = filter_type_code_coverage b"
  by (rule stack_filter_decides [OF assms])

theorem stack_filter_is_applied_witness:
  "let b' = no_filters\<lparr>filter_type_stack := XDEBUG_NAMESPACE_EXCLUDE, filters_stack := [''App'', []]\<rparr>;
       fse = \<lparr>ff_filename = Some ''/a.php'', ff_include_filename = None, ff_object_class = Some ''app_Kernel'', ff_type = XFUNC_MEMBER\<rparr>;
       flags = \<lparr>filtered_code_coverage = False, filtered_stack = False, filtered_tracing = False\<rparr>
   in Filter_done = Filter_done \<and>
    filtered_stack (xdebug_filter_run b' fse flags) =
      (list_ex (\<lambda>f. named_by XDEBUG_NAMESPACE_EXCLUDE fse (matcher_of f)) [BSLASH # ''App'', []] =
       (XDEBUG_NAMESPACE_EXCLUDE = XDEBUG_PATH_EXCLUDE \<or> XDEBUG_NAMESPACE_EXCLUDE = XDEBUG_NAMESPACE_EXCLUDE)) \<and>
    filtered_tracing (xdebug_filter_run b' fse flags) = filtered_tracing (xdebug_filter_run no_filters fse flags) \<and>
    filters_code_coverage b' = filters_code_coverage no_filters \<and> filter_type_code_coverage b' = filter_type_code_coverage no_filters"
  unfolding Let_def
proof (rule stack_filter_is_applied [of XDEBUG_MODE_DEVELOP])
  show "xdebug_set_filter XDEBUG_MODE_DEVELOP no_filters XDEBUG_FILTER_STACK XDEBUG_NAMESPACE_EXCLUDE [BSLASH # ''App'', []] =
    (no_filters\<lparr>filter_type_stack := XDEBUG_NAMESPACE_EXCLUDE, filters_stack := [''App'', []]\<rparr>, Filter_done)"
    by code_simp
qed (code_simp, simp)

text \<open>
  C27: When coverage is stopped with its results forgotten and started again while a function with branch
  information runs, the next branch of it that is not an entry is recorded through an array of paths that is
  not there.
\<close>

theorem restart_in_function_fails:
  assumes "xdebug_stop_code_coverage mode True st = Some (st1, True)"
    and "cov_visited_branches st = Some visited" "chains_ok visited" "cov_fiber_stacks st = Some fibers" "chains_ok fibers"
    and "cov_good st" "file_at st filename = Some f" "cf_has_branch_info f"
    and "xdebug_hash_find (cf_functions f) name = Some analysis" "af_branch_info analysis = Some bi"
    and "xdebug_set_in (bri_starts bi) opcode_nr = Some v" "v \<noteq> 0"
    and "opcode_nr = 0 \<or> xdebug_set_in (bri_entry_points bi) opcode_nr = Some 0"
  shows "xdebug_branch_info_mark_reached stack filename name opa opcode_nr (fst (xdebug_start_code_coverage mode options st1)) = None"
  by (rule restart_fails [OF assms])

theorem restart_in_function_fails_witness:
  "case xdebug_stop_code_coverage XDEBUG_MODE_COVERAGE True entered_once of
     Some (st1, True) \<Rightarrow>
       xdebug_branch_info_mark_reached [1] ''f'' ''g'' branching 0 (fst (xdebug_start_code_coverage XDEBUG_MODE_COVERAGE 7 st1)) = None
   | _ \<Rightarrow> False"
proof -
  obtain st1 where st1: "xdebug_stop_code_coverage XDEBUG_MODE_COVERAGE True entered_once = Some (st1, True)"
    using entered_once_stops by blast
  obtain v where v: "xdebug_set_in (bri_starts one_branch) 0 = Some v" "v \<noteq> 0"
    using set_in_of_size [OF zero_set_ok(1), of 0] zero_set_ok(2) one_branch_ready(3) by auto
  have "xdebug_branch_info_mark_reached [1] ''f'' ''g'' branching 0 (fst (xdebug_start_code_coverage XDEBUG_MODE_COVERAGE 7 st1)) = None"
    by (rule restart_in_function_fails [OF st1 entered_once_tables entered_once_good entered_once_file _ _ _ v,
        where analysis = "\<lparr>af_name = ''g'', af_branch_info = Some one_branch\<rparr>"])
      (simp_all add: one_function_def find_str_map add_str_map)
  with st1 show ?thesis by simp
qed

text \<open>
  The name of a method is cut at the first NUL byte of its class, so all methods of an anonymous class,
  whose name the engine tells from others behind a NUL byte, are recorded as one function.
\<close>

theorem anonymous_methods_share_record:
  assumes "ca_function_name opa = Some f" "\<not> ca_closure opa" "\<not> ca_trait_clone opa" "ca_scope opa = Some (visible @ NUL # hidden, False)"
    and "NUL \<notin> set visible" "length visible + length hidden + length f < 1021"
  shows "function_name_of opa st = Some (st, visible)"
  by (rule nul_in_class_name [OF assms])

theorem anonymous_methods_share_record_witness:
  "function_name_of (Cov_array 1 ''a.php'' (Some ''run'') (Some (''class@anonymous'' @ NUL # ''a.php:3$0'', False)) False False False True True 4 6 [] [])
     fresh_coverage = Some (fresh_coverage, ''class@anonymous'')"
  by (rule anonymous_methods_share_record [where f = "''run''" and hidden = "''a.php:3$0''"]) simp_all


section \<open>Profiles\<close>

text \<open>
  C14: A reader that knows a name by its number from its first use on, files and functions apart, reads a
  profile back: for every function that ended its file, name, line, time and memory and those of its calls in order, and
  the summary when the profile is finished.  This holds for any calls, returns and ends after the profiler has started with no
  function running, when the names of files and functions hold no line break and the profile is below 2 GB.
\<close>

theorem profile_read_back:
  assumes "xdebug_profiler_init ps env opens script (xdebug_profiler_rinit st0) = Some st" "prf_active st" "prf_stack st0 = []"
    and "list_all plain_event evs" "loop_over (happen hs ps) evs st = Some st'" "length (prf_output st') < 2 ^ 31 - 1"
  shows "read_profile (drop (length (prf_output st)) (prf_output st')) = Some (run_items hs ps evs st)"
  by (rule run_read_back [OF init_reads [OF assms(1-3)] assms(4-6)])

theorem profile_read_back_witness:
  "read_profile (drop (length (prf_output profile_started)) (prf_output profile_written)) =
    Some (run_items profile_links profile_settings single_call profile_started)"
  by (rule profile_read_back [OF profile_starts started_active _ single_call_plain single_call_written]) (simp add: idle_profiler_def)

text \<open>
  C15: A profiled call runs to its end, and the times counted for it and for everything it calls add up to
  the time from its begin to its end, so nothing is counted twice or lost.  The caller is told of the call with that time,
  and of nothing else.  Times are words of 64 bits: the clock may wrap around.
\<close>

theorem call_time_counted_once:
  assumes "call_ready hs t" "profiled st"
  shows "\<exists>st'. loop_over (happen hs ps) (events_of t) st = Some st' \<and>
    sum_list (own_times hs ps (events_of t) st) = prf_clock st (prf_tick st' - 2) - prf_clock st (prf_tick st) \<and>
    (\<forall>base f. prf_stack st = base @ [f] \<longrightarrow>
      (\<exists>ce f'. prf_stack st' = base @ [f'] \<and> calls_of f' = calls_of f @ [ce] \<and> ce_nanotime_taken ce = sum_list (own_times hs ps (events_of t) st)))"
proof -
  from call_runs [OF assms] obtain st' where st': "loop_over (happen hs ps) (events_of t) st = Some st'"
    "call_ran st (own_times hs ps (events_of t) st) st'" by blast
  show ?thesis
  proof (intro exI [of _ st'] conjI allI impI)
    fix base f
    assume "prf_stack st = base @ [f]"
    with st'(2) show "\<exists>ce f'. prf_stack st' = base @ [f'] \<and> calls_of f' = calls_of f @ [ce] \<and>
        ce_nanotime_taken ce = sum_list (own_times hs ps (events_of t) st)"
      unfolding call_ran_def told_of_def by blast
  qed (use st' in \<open>simp_all add: call_ran_def\<close>)
qed

theorem call_time_counted_once_witness:
  "\<exists>st'. loop_over (happen profile_links profile_settings) (events_of one_call) profile_started = Some st' \<and>
    sum_list (own_times profile_links profile_settings (events_of one_call) profile_started) =
      prf_clock profile_started (prf_tick st' - 2) - prf_clock profile_started (prf_tick profile_started)"
  using call_time_counted_once [OF one_call_ready started_profiled, of profile_settings] by blast

end
